(* ===== verification/Prelude.thy ===== *)
theory Prelude
  imports Main "HOL-Library.Word" "HOL-Library.Sublist" "HOL-Library.Char_ord"
    "HOL-Library.List_Lexorder"
begin

text \<open>
  Shared vocabulary of the development: the machine-integer types the sources use, Rust's
  \<^verbatim>\<open>str::split\<close>, and the model of \<^verbatim>\<open>std::collections::HashMap\<close> that every component
  with a keyed table uses. A hash map is an association list whose keys are pairwise different
  after projection by \<open>f\<close>, the part of a key that \<^verbatim>\<open>Eq\<close> and \<^verbatim>\<open>Hash\<close> look at
  (the identity for strings, the path components for \<^verbatim>\<open>PathBuf\<close>). As in Rust, inserting at
  an occupied key replaces the value and keeps the stored key. The list order stands for the
  iteration order, which Rust leaves unspecified.
\<close>

named_theorems hm_simps \<open>lookup, length and membership after a hash map operation\<close>

type_synonym u8 = "8 word"
type_synonym u32 = "32 word"
type_synonym u64 = "64 word"
type_synonym bytes = "u8 list"
type_synonym actor_id = string
type_synonym instant = nat
type_synonym duration = nat

section \<open>Rust string splitting\<close>

text \<open>\<^verbatim>\<open>s.split(c)\<close>: always at least one piece, empty pieces kept.\<close>

fun split_on :: "char \<Rightarrow> string \<Rightarrow> string list" where
  "split_on c [] = [[]]"
| "split_on c (x # xs) =
     (if x = c then [] # split_on c xs
      else (case split_on c xs of [] \<Rightarrow> [[x]] | s # ss \<Rightarrow> (x # s) # ss))"

fun join_with :: "char \<Rightarrow> string list \<Rightarrow> string" where
  "join_with c [] = []"
| "join_with c [s] = s"
| "join_with c (s # ss) = s @ c # join_with c ss"

text \<open>\<^verbatim>\<open>parts.join(sep)\<close> with a string separator.\<close>

fun join_str :: "string \<Rightarrow> string list \<Rightarrow> string" where
  "join_str sep [] = []"
| "join_str sep [s] = s"
| "join_str sep (s # ss) = s @ sep @ join_str sep ss"

definition nth_or :: "'a list \<Rightarrow> nat \<Rightarrow> 'a \<Rightarrow> 'a" where
  "nth_or xs i d = (if i < length xs then xs ! i else d)"

lemma nth_or_simps [simp]:
  "nth_or [] i d = d"
  "nth_or (x # xs) 0 d = x"
  "nth_or (x # xs) (Suc i) d = nth_or xs i d"
  "nth_or (x # xs) (numeral n) d = nth_or xs (pred_numeral n) d"
  by (simp_all add: nth_or_def numeral_eq_Suc)

lemma split_on_ne [simp]: "split_on c s \<noteq> []"
  by (induction s) (auto split: list.splits)

lemma join_split_on [simp]: "join_with c (split_on c s) = s"
proof (induction s)
  case (Cons x xs)
  obtain t ts where t: "split_on c xs = t # ts"
    using split_on_ne [of c xs] by (cases "split_on c xs") auto
  show ?case using Cons t by (cases ts) auto
qed simp

lemma split_on_no_sep: "c \<notin> set s \<Longrightarrow> split_on c s = [s]"
  by (induction s) auto

lemma split_on_append_sep: "split_on c (s @ c # t) = split_on c s @ split_on c t"
  by (induction s) (auto split: list.splits)

lemma split_on_pieces: "p \<in> set (split_on c s) \<Longrightarrow> c \<notin> set p"
  by (induction s arbitrary: p) (auto split: list.splits if_splits)

text \<open>\<^verbatim>\<open>s.strip_prefix(p)\<close>.\<close>

fun strip_prefix :: "string \<Rightarrow> string \<Rightarrow> string option" where
  "strip_prefix [] s = Some s"
| "strip_prefix (p # ps) [] = None"
| "strip_prefix (p # ps) (x # xs) = (if p = x then strip_prefix ps xs else None)"

lemma strip_prefix_Some: "strip_prefix p s = Some r \<longleftrightarrow> s = p @ r"
  by (induction p s rule: strip_prefix.induct) auto

lemma strip_prefix_None: "strip_prefix p s = None \<longleftrightarrow> (\<forall>r. s \<noteq> p @ r)"
  using strip_prefix_Some [of p s] by (metis not_Some_eq)

definition starts_with :: "string \<Rightarrow> string \<Rightarrow> bool" where
  "starts_with s p \<longleftrightarrow> strip_prefix p s \<noteq> None"

lemma starts_with_iff: "starts_with s p \<longleftrightarrow> (\<exists>r. s = p @ r)"
  by (auto simp: starts_with_def strip_prefix_Some)

lemma starts_with_sep: "x \<notin> set p \<Longrightarrow> starts_with (c @ x # r) p \<longleftrightarrow> starts_with c p"
  unfolding starts_with_def by (induction p c rule: strip_prefix.induct) auto

definition newline :: char where
  "newline = CHR 0x0A"

definition strip_cr :: "string \<Rightarrow> string" where
  "strip_cr l = (if l \<noteq> [] \<and> last l = CHR 0x0D then butlast l else l)"

text \<open>\<^verbatim>\<open>str::lines\<close>: a carriage return belongs to the line end only before a line feed.\<close>

fun ended_lines :: "string list \<Rightarrow> string list" where
  "ended_lines [] = []"
| "ended_lines [l] = (if l = [] then [] else [l])"
| "ended_lines (l # ls) = strip_cr l # ended_lines ls"

definition str_lines :: "string \<Rightarrow> string list" where
  "str_lines s = ended_lines (split_on newline s)"

lemma ended_lines_append: "ys \<noteq> [] \<Longrightarrow> ended_lines (xs @ ys) = map strip_cr xs @ ended_lines ys"
proof (induction xs)
  case (Cons x xs)
  then show ?case by (cases "xs @ ys") auto
qed simp

lemma str_lines_append:
  assumes "a = [] \<or> last a = newline"
  shows "str_lines (a @ b) = str_lines a @ str_lines b"
proof (cases a rule: rev_cases)
  case Nil
  then show ?thesis by (simp add: str_lines_def)
next
  case (snoc a' c)
  then have a: "a = a' @ [newline]" using assms by simp
  have "split_on newline (a' @ newline # b) = split_on newline a' @ split_on newline b" for b
    by (rule split_on_append_sep)
  then show ?thesis by (simp add: str_lines_def a ended_lines_append)
qed

section \<open>Traces\<close>

lemma snoc_split_last:
  "(\<exists>xs ys. cs @ [c] = xs @ x # ys \<and> (\<forall>y\<in>set ys. P y)) \<longleftrightarrow>
     c = x \<or> ((\<exists>xs ys. cs = xs @ x # ys \<and> (\<forall>y\<in>set ys. P y)) \<and> P c)"
proof
  assume "\<exists>xs ys. cs @ [c] = xs @ x # ys \<and> (\<forall>y\<in>set ys. P y)"
  then obtain xs ys where e: "cs @ [c] = xs @ x # ys" and p: "\<forall>y\<in>set ys. P y" by blast
  show "c = x \<or> ((\<exists>xs ys. cs = xs @ x # ys \<and> (\<forall>y\<in>set ys. P y)) \<and> P c)"
  proof (cases ys rule: rev_cases)
    case (snoc zs z)
    then have "cs = xs @ x # zs" "z = c" using e by auto
    then show ?thesis using p snoc by auto
  qed (use e in simp)
next
  assume "c = x \<or> ((\<exists>xs ys. cs = xs @ x # ys \<and> (\<forall>y\<in>set ys. P y)) \<and> P c)"
  then show "\<exists>xs ys. cs @ [c] = xs @ x # ys \<and> (\<forall>y\<in>set ys. P y)"
  proof
    assume "c = x"
    then show ?thesis by (intro exI [of _ cs] exI [of _ "[]"]) simp
  next
    assume "(\<exists>xs ys. cs = xs @ x # ys \<and> (\<forall>y\<in>set ys. P y)) \<and> P c"
    then obtain xs ys where "cs = xs @ x # ys" "\<forall>y\<in>set ys. P y" "P c" by blast
    then show ?thesis by (intro exI [of _ xs] exI [of _ "ys @ [c]"]) auto
  qed
qed

section \<open>Hash maps\<close>

text \<open>The projection for key types whose \<^verbatim>\<open>Eq\<close> compares everything.\<close>

abbreviation (input) plain :: "'k \<Rightarrow> 'k" where
  "plain \<equiv> (\<lambda>k. k)"

fun hm_get :: "('k \<Rightarrow> 'c) \<Rightarrow> 'k \<Rightarrow> ('k \<times> 'v) list \<Rightarrow> 'v option" where
  "hm_get f k [] = None"
| "hm_get f k ((k', v) # m) = (if f k' = f k then Some v else hm_get f k m)"

fun hm_insert :: "('k \<Rightarrow> 'c) \<Rightarrow> 'k \<Rightarrow> 'v \<Rightarrow> ('k \<times> 'v) list \<Rightarrow> ('k \<times> 'v) list" where
  "hm_insert f k v [] = [(k, v)]"
| "hm_insert f k v ((k', w) # m) =
     (if f k' = f k then (k', v) # m else (k', w) # hm_insert f k v m)"

definition hm_remove :: "('k \<Rightarrow> 'c) \<Rightarrow> 'k \<Rightarrow> ('k \<times> 'v) list \<Rightarrow> ('k \<times> 'v) list" where
  "hm_remove f k m = filter (\<lambda>e. f (fst e) \<noteq> f k) m"

definition hm_wf :: "('k \<Rightarrow> 'c) \<Rightarrow> ('k \<times> 'v) list \<Rightarrow> bool" where
  "hm_wf f m \<longleftrightarrow> distinct (map (f \<circ> fst) m)"

text \<open>The loop \<^verbatim>\<open>for k in &ks { map.remove(k); }\<close>.\<close>

definition hm_remove_all :: "('k \<Rightarrow> 'c) \<Rightarrow> 'k list \<Rightarrow> ('k \<times> 'v) list \<Rightarrow> ('k \<times> 'v) list" where
  "hm_remove_all f ks m = fold (hm_remove f) ks m"

lemma hm_get_insert [hm_simps]:
  "hm_get f j (hm_insert f k v m) = (if f j = f k then Some v else hm_get f j m)"
  by (induction m) auto

lemma hm_get_remove [hm_simps]:
  "hm_get f j (hm_remove f k m) = (if f j = f k then None else hm_get f j m)"
  by (induction m) (auto simp: hm_remove_def)

lemma hm_get_remove_all [hm_simps]:
  "hm_get f j (hm_remove_all f ks m) = (if f j \<in> f ` set ks then None else hm_get f j m)"
  unfolding hm_remove_all_def
  by (induction ks arbitrary: m) (auto simp: hm_get_remove)

lemma hm_length_insert [hm_simps]:
  "length (hm_insert f k v m) = (if hm_get f k m = None then Suc (length m) else length m)"
  by (induction m) (auto split: if_splits)

lemma hm_keys_insert:
  "(\<lambda>e. f (fst e)) ` set (hm_insert f k v m) = insert (f k) ((\<lambda>e. f (fst e)) ` set m)"
proof (induction m)
  case (Cons e m)
  obtain k' w where "e = (k', w)" by fastforce
  then show ?case using Cons by (cases "f k' = f k") (simp_all add: insert_commute)
qed simp

lemma hm_get_None_iff: "hm_get f k m = None \<longleftrightarrow> f k \<notin> (\<lambda>e. f (fst e)) ` set m"
  by (induction m) (auto split: if_splits)

lemma hm_wf_Nil [simp]: "hm_wf f []"
  by (simp add: hm_wf_def)

lemma hm_wf_insert [simp]: "hm_wf f m \<Longrightarrow> hm_wf f (hm_insert f k v m)"
proof (induction m)
  case (Cons e m)
  obtain k' w where e: "e = (k', w)" by fastforce
  show ?case
  proof (cases "f k' = f k")
    case False
    then have "f k' \<notin> (\<lambda>e. f (fst e)) ` set (hm_insert f k v m)"
      using Cons.prems e by (simp add: hm_keys_insert hm_wf_def comp_def)
    then show ?thesis using Cons e False by (simp add: hm_wf_def comp_def)
  qed (use Cons.prems e in \<open>auto simp: hm_wf_def\<close>)
qed (simp add: hm_wf_def)

lemma hm_wf_remove [simp]: "hm_wf f m \<Longrightarrow> hm_wf f (hm_remove f k m)"
  by (simp add: hm_wf_def hm_remove_def distinct_map_filter)

lemma hm_wf_remove_all [simp]: "hm_wf f m \<Longrightarrow> hm_wf f (hm_remove_all f ks m)"
  unfolding hm_remove_all_def by (induction ks arbitrary: m) auto

lemma hm_get_in: "hm_get f k m = Some v \<Longrightarrow> \<exists>k'. f k' = f k \<and> (k', v) \<in> set m"
  by (induction m) (auto split: if_splits)

lemma hm_in_get: "hm_wf f m \<Longrightarrow> (k, v) \<in> set m \<Longrightarrow> hm_get f k m = Some v"
  by (induction m) (auto simp: hm_wf_def image_iff)

lemma hm_plain_get_in: "hm_get plain k m = Some v \<Longrightarrow> (k, v) \<in> set m"
  by (induction m) (auto split: if_splits)

lemma hm_get_filter_val:
  assumes "hm_wf plain m"
  shows "hm_get plain k (filter (\<lambda>(_, v). P v) m) =
    (case hm_get plain k m of Some v \<Rightarrow> if P v then Some v else None | None \<Rightarrow> None)"
  using assms
proof (induction m)
  case (Cons e m)
  obtain k' v' where e: "e = (k', v')" by (cases e)
  have wf: "hm_wf plain m" and fresh: "k' \<notin> fst ` set m" using Cons.prems e by (auto simp: hm_wf_def)
  have none: "hm_get plain k' (filter (\<lambda>(_, v). P v) m) = None"
    using fresh by (auto simp: hm_get_None_iff)
  show ?case using Cons.IH [OF wf] e none by (auto split: option.splits)
qed simp

lemma hm_insert_new: "hm_get plain k m = None \<Longrightarrow> hm_insert plain k w m = m @ [(k, w)]"
  by (induction m) (auto split: if_splits)

lemma hm_set_remove_all:
  "set (hm_remove_all f ks m) = {e \<in> set m. f (fst e) \<notin> f ` set ks}"
  unfolding hm_remove_all_def
  by (induction ks arbitrary: m) (auto simp: hm_remove_def)

lemma hm_insert_in:
  "(j, w) \<in> set (hm_insert f k v m) \<Longrightarrow> (j, w) \<in> set m \<or> (f j = f k \<and> w = v)"
  by (induction m) (auto split: if_splits)

lemma hm_count_filter:
  assumes "hm_wf plain m"
  shows "length (filter P m) = card {k. \<exists>v. hm_get plain k m = Some v \<and> P (k, v)}"
proof -
  have "distinct (map fst (filter P m))"
    using assms by (simp add: hm_wf_def comp_def distinct_map_filter)
  then have "length (filter P m) = card (fst ` set (filter P m))"
    by (metis distinct_card length_map set_map)
  moreover have "fst ` set (filter P m) = {k. \<exists>v. hm_get plain k m = Some v \<and> P (k, v)}"
    using assms by (force dest: hm_plain_get_in hm_in_get)
  ultimately show ?thesis by simp
qed

lemma hm_get_same_key: "f j = f k \<Longrightarrow> hm_get f j m = hm_get f k m"
  by (induction m) auto

lemma hm_insert_valid:
  "\<forall>(k, v) \<in> set m. P k \<and> Q v \<Longrightarrow> P k \<Longrightarrow> Q v \<Longrightarrow>
     \<forall>(k, v) \<in> set (hm_insert f k v m). P k \<and> Q v"
  by (induction m) (auto split: if_splits)

text \<open>\<^verbatim>\<open>if let Some(v) = map.get_mut(k) { f(v) }\<close>.\<close>

definition hm_update :: "'k \<Rightarrow> ('v \<Rightarrow> 'v) \<Rightarrow> ('k \<times> 'v) list \<Rightarrow> ('k \<times> 'v) list" where
  "hm_update k f m = map (\<lambda>(k', v). (k', if k' = k then f v else v)) m"

lemma hm_update_mem:
  "(k', v) \<in> set (hm_update k f m) \<longleftrightarrow> (\<exists>w. (k', w) \<in> set m \<and> v = (if k' = k then f w else w))"
  by (induction m) (auto simp: hm_update_def)

lemma hm_update_keys [simp]: "map fst (hm_update k f m) = map fst m"
  by (induction m) (auto simp: hm_update_def)

lemma hm_update_fst [simp]: "fst ` set (hm_update k f m) = fst ` set m"
  by (metis hm_update_keys list.set_map)

lemma hm_get_update [hm_simps]:
  "hm_get plain k (hm_update j f m) = map_option (\<lambda>v. if k = j then f v else v) (hm_get plain k m)"
  by (induction m) (auto simp: hm_update_def)

text \<open>Summing a measure over the values, as the byte counters of the sources do.\<close>

lemma hm_sum_insert:
  "sum_list (map (g \<circ> snd) (hm_insert f k v m)) + (case hm_get f k m of None \<Rightarrow> 0 | Some w \<Rightarrow> g w)
     = sum_list (map (g \<circ> snd) m) + (g v :: nat)"
  by (induction m) auto

lemma hm_sum_get: "hm_get f k m = Some w \<Longrightarrow> (g w :: nat) \<le> sum_list (map (g \<circ> snd) m)"
  by (induction m) (auto split: if_splits intro: trans_le_add2)

subsection \<open>The contract of a keyed table\<close>

text \<open>
  What a client of \<^verbatim>\<open>HashMap\<close> relies on, as an interface: lookup after insert, lookup after
  remove, and an invariant both keep. The loops over it are derived once here.
\<close>

locale keyed_table =
  fixes same :: "'k \<Rightarrow> 'k \<Rightarrow> bool"
    and get :: "'k \<Rightarrow> 'm \<Rightarrow> 'v option"
    and ins :: "'k \<Rightarrow> 'v \<Rightarrow> 'm \<Rightarrow> 'm"
    and del :: "'k \<Rightarrow> 'm \<Rightarrow> 'm"
    and wf :: "'m \<Rightarrow> bool"
  assumes same_equiv: "equivp same"
    and get_ins: "wf m \<Longrightarrow> get j (ins k v m) = (if same k j then Some v else get j m)"
    and get_del: "wf m \<Longrightarrow> get j (del k m) = (if same k j then None else get j m)"
    and wf_ins: "wf m \<Longrightarrow> wf (ins k v m)"
    and wf_del: "wf m \<Longrightarrow> wf (del k m)"
begin

lemma get_same: "wf m \<Longrightarrow> get k (ins k v m) = Some v"
  using same_equiv by (simp add: get_ins equivp_reflp)

lemma wf_fold_del: "wf m \<Longrightarrow> wf (fold del ks m)"
  by (induction ks arbitrary: m) (auto simp: wf_del)

lemma get_fold_del:
  "wf m \<Longrightarrow> get j (fold del ks m) = (if \<exists>k \<in> set ks. same k j then None else get j m)"
  by (induction ks arbitrary: m) (auto simp: wf_del get_del)

end

interpretation hm: keyed_table "\<lambda>j k. f j = f k" "hm_get f" "hm_insert f" "hm_remove f" "hm_wf f"
  for f :: "'k \<Rightarrow> 'c"
  by unfold_locales
    (auto simp: hm_get_insert hm_get_remove equivp_def fun_eq_iff)

end
