(* ===== verification/Store_Access.thy ===== *)
theory Store_Access
  imports Prelude
begin

text \<open>
  Paths and write authorisation of the shared store
  (\<^verbatim>\<open>crates/pitboss-cli/src/shared_store/mod.rs\<close>, and the path helpers of
  \<^verbatim>\<open>shared_store/tools.rs\<close>): \<open>validate_path\<close>, \<open>authorize_write\<close>,
  \<open>resolve_peer_self\<close>, \<open>require_identity_for_self\<close>, and \<open>path_key\<close>, the part of a
  \<^verbatim>\<open>PathBuf\<close> that its \<^verbatim>\<open>Eq\<close> and \<^verbatim>\<open>Hash\<close> look at. The lemmas show that a
  path that passes both checks is stored under a key in a namespace its writer may write.
\<close>

section \<open>Errors, roles, callers\<close>

datatype LimitKind = Value | Total | Count

datatype StoreError =
    InvalidArg string
  | Forbidden string
  | LimitExceeded LimitKind
  | Timeout
  | Shutdown
  | Conflict

datatype ActorRole = Lead | Sublead | Worker

record CallerIdentity =
  caller_id :: string
  caller_role :: ActorRole

record MetaField =
  meta_actor_id :: string
  meta_actor_role :: ActorRole

definition caller_of_meta :: "MetaField \<Rightarrow> CallerIdentity" where
  "caller_of_meta m = \<lparr>caller_id = meta_actor_id m, caller_role = meta_actor_role m\<rparr>"

section \<open>Paths\<close>

abbreviation slash :: char where "slash \<equiv> CHR ''/''"

definition validate_path :: "string \<Rightarrow> StoreError + unit" where
  "validate_path path =
     (if \<not> starts_with path ''/'' then Inl (InvalidArg ''path must be absolute'')
      else if list_ex (\<lambda>seg. seg = ''..'') (split_on slash path)
        then Inl (InvalidArg ''path must not contain `..`'')
      else if path \<noteq> ''/'' \<and> length (filter (\<lambda>s. s = []) (split_on slash path)) > 1
        then Inl (InvalidArg ''path must not contain empty segments'')
      else Inr ())"

text \<open>
  \<^verbatim>\<open>PathBuf\<close> compares by components: repeated separators, a trailing separator and every
  \<^verbatim>\<open>.\<close> but a leading one of a relative path are dropped.
\<close>

definition path_key :: "string \<Rightarrow> bool \<times> string list" where
  "path_key p =
     (let norm = filter (\<lambda>s. s \<noteq> [] \<and> s \<noteq> ''.'') in
      if starts_with p ''/'' then (True, norm (split_on slash p))
      else (case split_on slash p of
              [] \<Rightarrow> (False, [])
            | s # ss \<Rightarrow> (False, (if s = ''.'' then [s] else norm [s]) @ norm ss)))"

definition authorize_write :: "string \<Rightarrow> CallerIdentity \<Rightarrow> bool \<Rightarrow> StoreError + unit" where
  "authorize_write path caller override_flag =
     (let effective_role = (case caller_role caller of Sublead \<Rightarrow> Lead | r \<Rightarrow> r);
          namespace = nth_or (split_on slash path) 1 []
      in
      if namespace = ''ref'' \<and> effective_role = Lead then Inr ()
      else if namespace = ''ref'' \<and> effective_role = Worker then
        Inl (Forbidden (''/ref is lead-write-only (your actor_id='' @ caller_id caller @
          '', role=worker); write to /peer/self/... or /shared/... instead''))
      else if namespace = ''peer'' then
        (let actor_seg = nth_or (split_on slash path) 2 [] in
         if actor_seg = caller_id caller then Inr ()
         else if effective_role = Lead \<and> override_flag then Inr ()
         else if effective_role = Lead \<and> \<not> override_flag then
           Inl (Forbidden (''lead (actor_id='' @ caller_id caller @ '') may write /peer/'' @
             actor_seg @ ''/* only with override=true''))
         else if effective_role = Worker then
           Inl (Forbidden (''worker tried to write /peer/'' @ actor_seg @
             ''/* but your actor_id is '' @ caller_id caller @
             ''; use /peer/self/... (auto-resolves) or /peer/'' @ caller_id caller @
             ''/... explicitly''))
         else Inl (Forbidden (''unauthorized write to /peer/'' @ actor_seg @ ''/* by '' @
             caller_id caller)))
      else if namespace = ''shared'' then Inr ()
      else if namespace = ''leases'' then
        Inl (Forbidden ''use lease_acquire, not kv_set on /leases/*'')
      else Inl (Forbidden (''unknown namespace: /'' @ namespace @
        '' (valid: /ref, /peer/<id>, /shared, /leases)'')))"

section \<open>The \<open>/peer/self\<close> alias\<close>

definition resolve_peer_self :: "string \<Rightarrow> string \<Rightarrow> string" where
  "resolve_peer_self path cid =
     (if path = ''/peer/self'' then ''/peer/'' @ cid
      else case strip_prefix ''/peer/self/'' path of
             Some rest \<Rightarrow> ''/peer/'' @ cid @ ''/'' @ rest
           | None \<Rightarrow> path)"

definition require_identity_for_self :: "string \<Rightarrow> MetaField option \<Rightarrow> StoreError + string" where
  "require_identity_for_self path meta =
     (if starts_with path ''/peer/self'' then
        (case meta of
           None \<Rightarrow> Inl (InvalidArg (''/peer/self/... requires caller identity (missing _meta). '' @
             ''Prefer /peer/<actor_id>/... when calling without identity.''))
         | Some m \<Rightarrow> Inr (resolve_peer_self path (meta_actor_id m)))
      else Inr path)"

section \<open>Lemmas\<close>

text \<open>The segment that \<open>authorize_write\<close> inspects is the first component of the stored key.\<close>

lemma validate_path_Inr:
  "validate_path p = Inr () \<longleftrightarrow>
     (\<exists>r. p = slash # r) \<and> ''..'' \<notin> set (split_on slash p) \<and>
     (p = ''/'' \<or> length (filter (\<lambda>s. s = []) (split_on slash p)) \<le> 1)"
  by (auto simp: validate_path_def starts_with_iff list_ex_iff)

lemma path_key_abs:
  "path_key (slash # r) = (True, filter (\<lambda>s. s \<noteq> [] \<and> s \<noteq> ''.'') (split_on slash r))"
  by (simp add: path_key_def starts_with_def)

lemma valid_segments_nonempty:
  assumes "validate_path (slash # r) = Inr ()" and "r \<noteq> []"
  shows "[] \<notin> set (split_on slash r)"
proof
  assume "[] \<in> set (split_on slash r)"
  then have "filter (\<lambda>s. s = []) (split_on slash r) \<noteq> []"
    by (auto simp: filter_empty_conv)
  then have "length (filter (\<lambda>s. s = []) (split_on slash (slash # r))) > 1"
    by (cases "filter (\<lambda>s. s = []) (split_on slash r)") auto
  with assms show False by (auto simp: validate_path_Inr)
qed

lemma authorize_write_Inr:
  "authorize_write p c ovr = Inr () \<longleftrightarrow>
     (let ns = nth_or (split_on slash p) 1 []; seg = nth_or (split_on slash p) 2 [];
          lead = (caller_role c \<noteq> Worker) in
      ns = ''ref'' \<and> lead \<or>
      ns = ''peer'' \<and> (seg = caller_id c \<or> lead \<and> ovr) \<or>
      ns = ''shared'')"
  by (cases "caller_role c") (auto simp: authorize_write_def Let_def)

text \<open>\<open>resolve_peer_self\<close> rewrites exactly the alias and its subtree.\<close>

lemma resolve_peer_self_other:
  "p \<noteq> ''/peer/self'' \<Longrightarrow> \<not> starts_with p ''/peer/self/'' \<Longrightarrow> resolve_peer_self p cid = p"
  by (auto simp: resolve_peer_self_def starts_with_def split: option.splits)

lemma resolve_peer_self_sub:
  "resolve_peer_self (''/peer/self/'' @ r) cid = ''/peer/'' @ cid @ ''/'' @ r"
  by (simp add: resolve_peer_self_def)

lemma authorize_resolved_self:
  assumes "slash \<notin> set (caller_id c)"
  shows "authorize_write (resolve_peer_self (''/peer/self/'' @ r) (caller_id c)) c ovr = Inr ()"
proof -
  have "split_on slash (caller_id c @ slash # r) = caller_id c # split_on slash r"
    using assms by (simp add: split_on_append_sep split_on_no_sep)
  then show ?thesis
    unfolding resolve_peer_self_sub authorize_write_Inr by (simp add: Let_def)
qed

text \<open>
  Write confinement. A worker whose id is an ordinary path segment, and whose write passes
  \<open>validate_path\<close> and \<open>authorize_write\<close>, stores under a key below \<^verbatim>\<open>/shared\<close> or below
  \<^verbatim>\<open>/peer\<close> followed by its own id, whatever override flag it passes: no spelling of the
  path with \<^verbatim>\<open>.\<close> segments reaches \<^verbatim>\<open>/ref\<close>, \<^verbatim>\<open>/leases\<close> or another
  actor's slot, although keys compare by components and authorisation looks at raw segments.
\<close>

lemma worker_write_confined:
  assumes auth: "authorize_write p c ovr = Inr ()"
    and valid: "validate_path p = Inr ()"
    and worker: "caller_role c = Worker"
    and ident: "caller_id c \<noteq> []" "caller_id c \<noteq> ''.''"
  shows "\<exists>rest. path_key p = (True, ''shared'' # rest) \<or>
                path_key p = (True, ''peer'' # caller_id c # rest)"
proof -
  obtain r where p: "p = slash # r" using valid by (auto simp: validate_path_Inr)
  obtain ns segs where r: "split_on slash r = ns # segs"
    using split_on_ne [of slash r] by (cases "split_on slash r") auto
  have key: "path_key p = (True, filter (\<lambda>s. s \<noteq> [] \<and> s \<noteq> ''.'') (ns # segs))"
    unfolding p path_key_abs r ..
  from auth worker p r consider
      "ns = ''shared''" | "ns = ''peer''" "nth_or segs 0 [] = caller_id c"
    by (auto simp: authorize_write_Inr Let_def)
  then show ?thesis
  proof cases
    case 1
    then show ?thesis using key by simp
  next
    case 2
    then obtain segs' where "segs = caller_id c # segs'"
      using ident by (cases segs) auto
    then show ?thesis using key 2 ident by simp
  qed
qed

end
