(* ===== verification/Leases.thy ===== *)
theory Leases
  imports Store_Access
begin

text \<open>
  The per-layer lease registry (\<^verbatim>\<open>shared_store/leases.rs\<close>): named locks with a time to live
  and an identity-checked release. Every call prunes expired leases first, under the same mutex,
  and returns the evicted names so that the store can wake waiters. What a call reads from its
  surroundings (the monotonic clock at the prune and at the insert, the wall clock, the fresh
  UUID, chrono's conversion of the time to live) is the record \<open>lease_env\<close>.
  The cleanup trait \<^verbatim>\<open>LeaseRegistryApi\<close> of \<^verbatim>\<open>shared_store/mod.rs\<close> is the locale
  \<open>lease_registry_api\<close>; the registry here interprets it, and so does the run-global one.
\<close>

section \<open>Data\<close>

record Lease =
  lease_name :: string
  lease_id :: string
  lease_holder :: string
  lease_acquired_at :: int
  lease_expires_at :: int

type_synonym LeaseRegistry = "(string \<times> (Lease \<times> instant)) list"

record lease_env =
  env_prune_now :: instant
  env_now :: instant
  env_utc :: int
  env_uuid :: string
  env_chrono_ttl :: "duration \<Rightarrow> int option"

section \<open>Operations\<close>

definition prune_expired :: "LeaseRegistry \<Rightarrow> instant \<Rightarrow> string list \<times> LeaseRegistry" where
  "prune_expired m now =
     (let expired = map fst (filter (\<lambda>(_, (_, deadline)). deadline \<le> now) m)
      in (expired, hm_remove_all plain expired m))"

definition acquire ::
  "LeaseRegistry \<Rightarrow> string \<Rightarrow> duration \<Rightarrow> CallerIdentity \<Rightarrow> lease_env \<Rightarrow>
     (StoreError + Lease \<times> string list) \<times> LeaseRegistry" where
  "acquire reg name ttl caller env =
     (case prune_expired reg (env_prune_now env) of (evicted, m) \<Rightarrow>
        if hm_get plain name m \<noteq> None then (Inl Conflict, m)
        else
          (let lease = \<lparr>lease_name = name, lease_id = env_uuid env,
                 lease_holder = caller_id caller, lease_acquired_at = env_utc env,
                 lease_expires_at = env_utc env +
                   (case env_chrono_ttl env ttl of Some d \<Rightarrow> d | None \<Rightarrow> 0)\<rparr>;
               deadline = env_now env + ttl
           in (Inr (lease, evicted), hm_insert plain name (lease, deadline) m)))"

definition release ::
  "LeaseRegistry \<Rightarrow> string \<Rightarrow> CallerIdentity \<Rightarrow> instant \<Rightarrow>
     (StoreError + string \<times> string list) \<times> LeaseRegistry" where
  "release reg lid caller now =
     (case prune_expired reg now of (evicted, m) \<Rightarrow>
        (case find (\<lambda>(_, (l, _)). lease_id l = lid) m of
           None \<Rightarrow> (Inl (Forbidden ''lease not held or already released''), m)
         | Some (name, (lease, _)) \<Rightarrow>
             if lease_holder lease \<noteq> caller_id caller
             then (Inl (Forbidden ''only the holder can release''), m)
             else (Inr (name, evicted), hm_remove plain name m)))"

definition list_leases ::
  "LeaseRegistry \<Rightarrow> instant \<Rightarrow> (Lease list \<times> string list) \<times> LeaseRegistry" where
  "list_leases reg now =
     (case prune_expired reg now of (evicted, m) \<Rightarrow> ((map (\<lambda>(_, (l, _)). l) m, evicted), m))"

definition release_all_for_actor ::
  "LeaseRegistry \<Rightarrow> string \<Rightarrow> instant \<Rightarrow> (string list \<times> string list) \<times> LeaseRegistry" where
  "release_all_for_actor reg actor now =
     (case prune_expired reg now of (evicted, m) \<Rightarrow>
        (let to_remove = map fst (filter (\<lambda>(_, (l, _)). lease_holder l = actor) m)
         in ((to_remove, evicted), hm_remove_all plain to_remove m)))"

definition prune_expired_now :: "LeaseRegistry \<Rightarrow> instant \<Rightarrow> string list \<times> LeaseRegistry" where
  "prune_expired_now reg now = prune_expired reg now"

section \<open>Lemmas\<close>

definition live :: "LeaseRegistry \<Rightarrow> string \<Rightarrow> instant \<Rightarrow> Lease option" where
  "live reg name now =
     (case hm_get plain name reg of
        None \<Rightarrow> None
      | Some (l, d) \<Rightarrow> if now < d then Some l else None)"

lemma prune_wf [simp]: "hm_wf plain m \<Longrightarrow> hm_wf plain (snd (prune_expired m now))"
  by (simp add: prune_expired_def Let_def)

lemma prune_get:
  "hm_wf plain m \<Longrightarrow> hm_get plain k (snd (prune_expired m now)) =
     (case hm_get plain k m of
        None \<Rightarrow> None | Some (l, d) \<Rightarrow> if now < d then Some (l, d) else None)"
proof -
  assume wf: "hm_wf plain m"
  let ?dead = "fst ` {e \<in> set m. snd (snd e) \<le> now}"
  have "hm_get plain k (snd (prune_expired m now)) = (if k \<in> ?dead then None else hm_get plain k m)"
    by (auto simp: prune_expired_def Let_def hm_simps case_prod_beta)
  moreover have "k \<in> ?dead \<longleftrightarrow> (\<exists>l d. hm_get plain k m = Some (l, d) \<and> d \<le> now)"
    using wf by (force dest: hm_plain_get_in hm_in_get)
  ultimately show ?thesis by (auto split: option.splits)
qed

lemma prune_get_keep:
  "hm_wf plain m \<Longrightarrow> hm_get plain k m = Some (l, d) \<Longrightarrow> now < d \<Longrightarrow>
     hm_get plain k (snd (prune_expired m now)) = Some (l, d)"
  by (simp add: prune_get)

text \<open>The evicted names are exactly the names whose lease had run out.\<close>

lemma prune_evicted:
  "hm_wf plain m \<Longrightarrow> k \<in> set (fst (prune_expired m now)) \<longleftrightarrow>
     (\<exists>l d. hm_get plain k m = Some (l, d) \<and> d \<le> now)"
  by (force simp: prune_expired_def Let_def dest: hm_plain_get_in hm_in_get)

lemma find_wf_get:
  assumes "hm_wf plain m" and "find P m = Some (k, v)"
  shows "hm_get plain k m = Some v \<and> P (k, v)"
proof -
  from assms(2) obtain i where "i < length m" "P (m ! i)" "(k, v) = m ! i"
    by (auto simp: find_Some_iff)
  then have "(k, v) \<in> set m" and "P (k, v)" by (auto simp: in_set_conv_nth)
  then show ?thesis using assms(1) by (simp add: hm_in_get)
qed

subsection \<open>Traces of registry calls\<close>

text \<open>
  The registry's mutex serialises the calls, so any concurrent use is some sequence of them.
\<close>

datatype lease_op =
    OpAcquire string duration CallerIdentity lease_env
  | OpRelease string CallerIdentity instant
  | OpReleaseAll string instant
  | OpList instant
  | OpPrune instant

fun lease_op_now :: "lease_op \<Rightarrow> instant" where
  "lease_op_now (OpAcquire n ttl c env) = env_prune_now env"
| "lease_op_now (OpRelease lid c now) = now"
| "lease_op_now (OpReleaseAll a now) = now"
| "lease_op_now (OpList now) = now"
| "lease_op_now (OpPrune now) = now"

fun lease_exec :: "lease_op \<Rightarrow> LeaseRegistry \<Rightarrow> LeaseRegistry" where
  "lease_exec (OpAcquire n ttl c env) reg = snd (acquire reg n ttl c env)"
| "lease_exec (OpRelease lid c now) reg = snd (release reg lid c now)"
| "lease_exec (OpReleaseAll a now) reg = snd (release_all_for_actor reg a now)"
| "lease_exec (OpList now) reg = snd (list_leases reg now)"
| "lease_exec (OpPrune now) reg = snd (prune_expired_now reg now)"

text \<open>The calls that may end the lease \<open>l\<close> before its deadline.\<close>

fun lease_ends :: "Lease \<Rightarrow> lease_op \<Rightarrow> bool" where
  "lease_ends l (OpRelease lid c now) \<longleftrightarrow> lid = lease_id l \<and> caller_id c = lease_holder l"
| "lease_ends l (OpReleaseAll a now) \<longleftrightarrow> a = lease_holder l"
| "lease_ends l _ \<longleftrightarrow> False"

lemma lease_exec_wf: "hm_wf plain reg \<Longrightarrow> hm_wf plain (lease_exec op reg)"
  using prune_wf [of reg]
  by (cases op)
    (auto simp: acquire_def release_def list_leases_def release_all_for_actor_def
      prune_expired_now_def Let_def case_prod_beta split: option.splits)

lemma release_all_names:
  "hm_wf plain m \<Longrightarrow> k \<in> set (map fst (filter (\<lambda>(_, (l, _)). lease_holder l = a) m)) \<longleftrightarrow>
     (\<exists>l d. hm_get plain k m = Some (l, d) \<and> lease_holder l = a)"
  by (force dest: hm_plain_get_in hm_in_get)

lemma release_all_get:
  assumes "hm_wf plain reg"
  shows "hm_get plain k (snd (release_all_for_actor reg a now)) =
     (case hm_get plain k reg of
        None \<Rightarrow> None
      | Some (l, d) \<Rightarrow> if now < d \<and> lease_holder l \<noteq> a then Some (l, d) else None)"
proof -
  let ?m = "snd (prune_expired reg now)"
  let ?rm = "map fst (filter (\<lambda>(_, (l, _)). lease_holder l = a) ?m)"
  have wf: "hm_wf plain ?m" using assms by simp
  have "hm_get plain k (snd (release_all_for_actor reg a now)) =
      (if k \<in> set ?rm then None else hm_get plain k ?m)"
    by (simp add: release_all_for_actor_def Let_def case_prod_beta hm_simps)
  then show ?thesis
    using assms release_all_names [OF wf] by (auto simp: prune_get split: option.splits)
qed

lemma lease_exec_keeps:
  assumes wf: "hm_wf plain reg" and held: "hm_get plain n reg = Some (l, d)"
    and t: "lease_op_now op < d" and "\<not> lease_ends l op"
  shows "hm_get plain n (lease_exec op reg) = Some (l, d)"
proof -
  have keep: "hm_get plain n (snd (prune_expired reg (lease_op_now op))) = Some (l, d)"
    by (rule prune_get_keep [OF wf held t])
  show ?thesis
  proof (cases op)
    case (OpRelease lid c now)
    let ?m = "snd (prune_expired reg now)"
    show ?thesis
    proof (cases "find (\<lambda>(_, (l, _)). lease_id l = lid) ?m")
      case None
      then show ?thesis using OpRelease keep by (simp add: release_def case_prod_beta)
    next
      case (Some e)
      obtain k l' d' where e: "e = (k, (l', d'))" by (metis surj_pair)
      have get: "hm_get plain k ?m = Some (l', d')" and lid: "lease_id l' = lid"
        using find_wf_get [of ?m _ k "(l', d')"] Some e wf by auto
      have "k = n \<Longrightarrow> lease_holder l' \<noteq> caller_id c"
        using get lid keep OpRelease assms(4) by auto
      then show ?thesis
        using OpRelease keep Some e by (auto simp: release_def case_prod_beta hm_simps)
    qed
  next
    case (OpReleaseAll a now)
    then show ?thesis using assms by (simp add: release_all_get)
  next
    case (OpAcquire k ttl c env)
    show ?thesis
      using keep OpAcquire by (auto simp: acquire_def Let_def case_prod_beta hm_simps)
  qed (use keep in \<open>simp_all add: list_leases_def prune_expired_now_def case_prod_beta\<close>)
qed

text \<open>
  C13: a lease is not stolen. Whatever calls other actors make, a lease that is in the table stays
  there, with the same holder, id and deadline, through any sequence of registry calls made before
  its deadline, unless its holder releases it by its id or the cleanup hook runs for its holder.
\<close>

theorem lease_not_stolen:
  assumes "hm_wf plain reg" and "hm_get plain n reg = Some (l, d)"
    and "\<forall>op \<in> set ops. lease_op_now op < d \<and> \<not> lease_ends l op"
  shows "hm_get plain n (fold lease_exec ops reg) = Some (l, d)"
  using assms
proof (induction ops arbitrary: reg)
  case (Cons op ops)
  then have "hm_get plain n (lease_exec op reg) = Some (l, d)"
    by (intro lease_exec_keeps) simp_all
  then show ?case using Cons lease_exec_wf [of reg op] by simp
qed simp

definition sample_lease :: Lease where
  "sample_lease = \<lparr>lease_name = ''db'', lease_id = ''id1'', lease_holder = ''w1'',
     lease_acquired_at = 0, lease_expires_at = 100\<rparr>"

definition sample_env :: "instant \<Rightarrow> string \<Rightarrow> lease_env" where
  "sample_env now uuid = \<lparr>env_prune_now = now, env_now = now, env_utc = int now,
     env_uuid = uuid, env_chrono_ttl = (\<lambda>d. Some (int d))\<rparr>"

theorem lease_not_stolen_witness:
  "hm_get plain ''db''
     (fold lease_exec
        [OpAcquire ''db'' 5 \<lparr>caller_id = ''w2'', caller_role = Worker\<rparr> (sample_env 50 ''id2''),
         OpRelease ''id1'' \<lparr>caller_id = ''w2'', caller_role = Worker\<rparr> 60,
         OpReleaseAll ''w2'' 70, OpPrune 99]
        [(''db'', (sample_lease, 100))]) = Some (sample_lease, 100)"
  by (rule lease_not_stolen) (simp_all add: sample_lease_def sample_env_def hm_wf_def)

text \<open>
  Acquisition is exclusive and complete. An acquire succeeds exactly when no lease of that
  name is live at the prune, fails with \<open>Conflict\<close> and never any other error, and on success the
  name is held by the caller until the insert time plus the time to live; no other name's live
  lease changes.
\<close>

theorem acquire_exclusive:
  assumes wf: "hm_wf plain reg"
  shows "case acquire reg n ttl c env of (res, reg') \<Rightarrow>
     (case live reg n (env_prune_now env) of
        Some l \<Rightarrow> res = Inl Conflict \<and> live reg' n (env_prune_now env) = Some l
      | None \<Rightarrow> \<exists>l ev. res = Inr (l, ev) \<and> lease_holder l = caller_id c \<and>
          lease_name l = n \<and> hm_get plain n reg' = Some (l, env_now env + ttl)) \<and>
     (\<forall>k. k \<noteq> n \<longrightarrow> live reg' k (env_prune_now env) = live reg k (env_prune_now env))"
proof -
  let ?m = "snd (prune_expired reg (env_prune_now env))"
  have live_m: "live ?m k (env_prune_now env) = live reg k (env_prune_now env)"
    and get_m: "(hm_get plain k ?m = None) = (live reg k (env_prune_now env) = None)" for k
    by (simp_all add: live_def prune_get [OF wf] split: option.splits)
  show ?thesis
  proof (cases "live reg n (env_prune_now env)")
    case None
    then show ?thesis
      using live_m get_m [of n]
      by (auto simp: acquire_def Let_def case_prod_beta hm_simps live_def)
  next
    case (Some l)
    then show ?thesis
      using live_m get_m [of n] by (auto simp: acquire_def Let_def case_prod_beta)
  qed
qed

theorem acquire_exclusive_witness:
  "case acquire [(''db'', (sample_lease, 100))] ''db'' 5
      \<lparr>caller_id = ''w2'', caller_role = Worker\<rparr> (sample_env 50 ''id2'') of (res, reg') \<Rightarrow>
     res = Inl Conflict \<and> live reg' ''db'' 50 = Some sample_lease"
  using acquire_exclusive [where reg = "[(''db'', (sample_lease, 100))]" and n = "''db''" and
      ttl = 5 and c = "\<lparr>caller_id = ''w2'', caller_role = Worker\<rparr>" and env = "sample_env 50 ''id2''"]
  by (auto simp: sample_env_def live_def hm_wf_def)

section \<open>The cleanup interface\<close>

text \<open>
  The trait \<^verbatim>\<open>LeaseRegistryApi\<close>: release every lease of one actor, return how many.
  A caller that only cleans up relies on these laws and on nothing else of a registry.
\<close>

locale lease_registry_api =
  fixes held :: "'r \<Rightarrow> actor_id \<Rightarrow> string \<Rightarrow> bool"
    and release_all :: "actor_id \<Rightarrow> 'r \<Rightarrow> nat \<times> 'r"
    and ok :: "'r \<Rightarrow> bool"
  assumes ok_release: "ok r \<Longrightarrow> ok (snd (release_all a r))"
    and released: "ok r \<Longrightarrow> \<not> held (snd (release_all a r)) a k"
    and others: "ok r \<Longrightarrow> a \<noteq> b \<Longrightarrow> held (snd (release_all a r)) b k = held r b k"
    and counted: "ok r \<Longrightarrow> fst (release_all a r) = card {k. held r a k}"
begin

text \<open>Idempotent: a second call finds nothing.\<close>

lemma second_release: "ok r \<Longrightarrow> fst (release_all a (snd (release_all a r))) = 0"
  by (simp add: counted ok_release released)

lemma unknown_actor: "ok r \<Longrightarrow> (\<And>k. \<not> held r a k) \<Longrightarrow> fst (release_all a r) = 0"
  by (simp add: counted)

text \<open>A cascade that cleans up a list of terminated actors.\<close>

lemma ok_cascade: "ok r \<Longrightarrow> ok (fold (\<lambda>a r. snd (release_all a r)) as r)"
  by (induction as arbitrary: r) (auto simp: ok_release)

lemma cascade_held:
  "ok r \<Longrightarrow> held (fold (\<lambda>a r. snd (release_all a r)) as r) b k \<longleftrightarrow> held r b k \<and> b \<notin> set as"
proof (induction as arbitrary: r)
  case (Cons a as)
  have ok: "ok (snd (release_all a r))" using Cons.prems by (rule ok_release)
  show ?case
    using Cons.IH [OF ok] Cons.prems by (cases "b = a") (auto simp: released others)
qed simp

end

text \<open>\<^verbatim>\<open>impl LeaseRegistryApi for leases::LeaseRegistry\<close>: the count of released names.\<close>

definition layer_release_all :: "instant \<Rightarrow> actor_id \<Rightarrow> LeaseRegistry \<Rightarrow> nat \<times> LeaseRegistry" where
  "layer_release_all now a reg =
     (case release_all_for_actor reg a now of ((released, _), reg') \<Rightarrow> (length released, reg'))"

definition layer_held :: "instant \<Rightarrow> LeaseRegistry \<Rightarrow> actor_id \<Rightarrow> string \<Rightarrow> bool" where
  "layer_held now reg a k \<longleftrightarrow> (\<exists>l. live reg k now = Some l \<and> lease_holder l = a)"

lemma layer_release_all_count:
  assumes "hm_wf plain reg"
  shows "fst (layer_release_all now a reg) = card {k. layer_held now reg a k}"
proof -
  let ?m = "snd (prune_expired reg now)"
  have "fst (layer_release_all now a reg) = length (filter (\<lambda>(_, (l, _)). lease_holder l = a) ?m)"
    by (simp add: layer_release_all_def release_all_for_actor_def case_prod_beta Let_def)
  also have "\<dots> = card {k. \<exists>v. hm_get plain k ?m = Some v \<and> lease_holder (fst v) = a}"
    using assms by (simp add: hm_count_filter case_prod_beta)
  also have "{k. \<exists>v. hm_get plain k ?m = Some v \<and> lease_holder (fst v) = a} =
      {k. layer_held now reg a k}"
    using assms by (auto simp: layer_held_def live_def prune_get split: option.splits if_splits)
  finally show ?thesis .
qed

lemma layer_release_all_state:
  "snd (layer_release_all now a reg) = snd (release_all_for_actor reg a now)"
  by (simp add: layer_release_all_def case_prod_beta)

interpretation layer: lease_registry_api "layer_held now" "layer_release_all now" "hm_wf plain"
  for now
proof unfold_locales
  fix r :: LeaseRegistry and a b k
  assume wf: "hm_wf plain r"
  show "hm_wf plain (snd (layer_release_all now a r))"
    using lease_exec_wf [OF wf, of "OpReleaseAll a now"] by (simp add: layer_release_all_state)
  show "\<not> layer_held now (snd (layer_release_all now a r)) a k"
    using wf by (auto simp: layer_held_def live_def layer_release_all_state release_all_get
        split: option.splits if_splits)
  show "fst (layer_release_all now a r) = card {k. layer_held now r a k}"
    using wf by (rule layer_release_all_count)
  show "a \<noteq> b \<Longrightarrow> layer_held now (snd (layer_release_all now a r)) b k = layer_held now r b k"
    using wf by (auto simp: layer_held_def live_def layer_release_all_state release_all_get
        split: option.splits if_splits)
qed

end
