(* ===== verification/Shared_Store.thy ===== *)
theory Shared_Store
  imports Leases "HOL-Library.Multiset"
begin

text \<open>
  The per-layer key-value store (\<^verbatim>\<open>shared_store/mod.rs\<close>): \<open>set\<close>, \<open>cas\<close>, \<open>get\<close>,
  \<open>list_with_truncation\<close> and their authorised variants, the lease operations that sit on top of
  the registry, and the per-actor counters. The entries are a hash map from paths, compared by
  components, to entries. A broadcast channel is the list of everything sent on it since the store
  was made; a receiver is an index into it. The work of \<open>set\<close> and \<open>cas\<close> under the write lock is
  split from the notification they send after dropping the lock, because other calls run between
  the two. Versions are 64-bit and wrap, as in the release build; sizes are \<open>nat\<close>, and
  \<open>store_inv\<close> shows that the subtraction in the byte counter never goes below zero.
\<close>

section \<open>Data\<close>

record Entry =
  entry_value :: bytes
  entry_version :: u64
  entry_written_by :: string
  entry_written_at :: int

record NotifyEvent =
  evt_path :: string
  evt_version :: u64

record CasResult =
  cas_ok :: bool
  cas_current_version :: u64

record ListMetadata =
  lm_path :: string
  lm_version :: u64
  lm_written_by :: string
  lm_written_at :: int
  lm_size_bytes :: nat

record Limits =
  max_value_bytes :: nat
  max_total_bytes :: nat
  max_keys :: nat

definition default_limits :: Limits where
  "default_limits = \<lparr>max_value_bytes = 1024 * 1024, max_total_bytes = 64 * 1024 * 1024,
     max_keys = 10000\<rparr>"

definition LIST_RESULT_CAP :: nat where
  "LIST_RESULT_CAP = 1000"

record ListResult =
  lr_entries :: "ListMetadata list"
  lr_truncated :: bool
  lr_total_matched :: nat

record ActivityCounters =
  kv_ops :: u64
  lease_ops :: u64

definition zero_counters :: ActivityCounters where
  "zero_counters = \<lparr>kv_ops = 0, lease_ops = 0\<rparr>"

definition KV_NOTIFIER_CAPACITY :: nat where
  "KV_NOTIFIER_CAPACITY = 1024"

definition LEASE_NOTIFIER_CAPACITY :: nat where
  "LEASE_NOTIFIER_CAPACITY = 256"

record SharedStore =
  entries :: "(string \<times> Entry) list"
  total_bytes :: nat
  limits :: Limits
  notifier :: "NotifyEvent list"
  cancelled :: bool
  leases :: LeaseRegistry
  lease_notifier :: "string list"
  activity :: "(string \<times> ActivityCounters) list"
  pruner_started :: bool
  pruner_warning_logged :: bool

definition with_limits :: "Limits \<Rightarrow> SharedStore" where
  "with_limits lim = \<lparr>entries = [], total_bytes = 0, limits = lim, notifier = [],
     cancelled = False, leases = [], lease_notifier = [], activity = [],
     pruner_started = False, pruner_warning_logged = False\<rparr>"

definition new_store :: SharedStore where
  "new_store = with_limits default_limits"

section \<open>Activity counters\<close>

definition note_kv_op :: "string \<Rightarrow> SharedStore \<Rightarrow> SharedStore" where
  "note_kv_op actor s =
     (if actor = [] then s
      else let c = (case hm_get plain actor (activity s) of Some c \<Rightarrow> c | None \<Rightarrow> zero_counters)
           in s\<lparr>activity := hm_insert plain actor (c\<lparr>kv_ops := kv_ops c + 1\<rparr>) (activity s)\<rparr>)"

definition note_lease_op :: "string \<Rightarrow> SharedStore \<Rightarrow> SharedStore" where
  "note_lease_op actor s =
     (if actor = [] then s
      else let c = (case hm_get plain actor (activity s) of Some c \<Rightarrow> c | None \<Rightarrow> zero_counters)
           in s\<lparr>activity := hm_insert plain actor (c\<lparr>lease_ops := lease_ops c + 1\<rparr>) (activity s)\<rparr>)"

definition activity_snapshot :: "SharedStore \<Rightarrow> (string \<times> ActivityCounters) list" where
  "activity_snapshot s = activity s"

section \<open>Reads and writes\<close>

definition store_get :: "SharedStore \<Rightarrow> string \<Rightarrow> Entry option" where
  "store_get s path = hm_get path_key path (entries s)"

text \<open>\<open>set\<close> up to \<^verbatim>\<open>drop(entries)\<close>: the result and the event to send afterwards.\<close>

definition set_locked ::
  "SharedStore \<Rightarrow> string \<Rightarrow> bytes \<Rightarrow> string \<Rightarrow> int \<Rightarrow> (StoreError + u64 \<times> NotifyEvent) \<times> SharedStore" where
  "set_locked s path val writer now =
     (case validate_path path of
        Inl e \<Rightarrow> (Inl e, s)
      | Inr _ \<Rightarrow>
        if length val > max_value_bytes (limits s) then (Inl (LimitExceeded Value), s)
        else
          (let prev = hm_get path_key path (entries s);
               is_new_key = (prev = None);
               prev_size = (case prev of Some e \<Rightarrow> length (entry_value e) | None \<Rightarrow> 0);
               new_size = length val
           in
           if is_new_key \<and> length (entries s) \<ge> max_keys (limits s)
           then (Inl (LimitExceeded Count), s)
           else
             (let projected_total = total_bytes s - prev_size + new_size in
              if projected_total > max_total_bytes (limits s) then (Inl (LimitExceeded Total), s)
              else
                (let version = (case prev of Some e \<Rightarrow> entry_version e + 1 | None \<Rightarrow> 1);
                     entry = \<lparr>entry_value = val, entry_version = version,
                              entry_written_by = writer, entry_written_at = now\<rparr>
                 in (Inr (version, \<lparr>evt_path = path, evt_version = version\<rparr>),
                     s\<lparr>entries := hm_insert path_key path entry (entries s),
                       total_bytes := projected_total\<rparr>)))))"

definition send_notify :: "NotifyEvent \<Rightarrow> SharedStore \<Rightarrow> SharedStore" where
  "send_notify ev s = s\<lparr>notifier := notifier s @ [ev]\<rparr>"

definition store_set ::
  "SharedStore \<Rightarrow> string \<Rightarrow> bytes \<Rightarrow> string \<Rightarrow> int \<Rightarrow> (StoreError + u64) \<times> SharedStore" where
  "store_set s path val writer now =
     (case set_locked s path val writer now of
        (Inl e, s') \<Rightarrow> (Inl e, s')
      | (Inr (v, ev), s') \<Rightarrow> (Inr v, send_notify ev s'))"

definition cas_locked ::
  "SharedStore \<Rightarrow> string \<Rightarrow> u64 \<Rightarrow> bytes \<Rightarrow> string \<Rightarrow> int \<Rightarrow>
     (StoreError + CasResult \<times> NotifyEvent option) \<times> SharedStore" where
  "cas_locked s path expected new_value writer now =
     (case validate_path path of
        Inl e \<Rightarrow> (Inl e, s)
      | Inr _ \<Rightarrow>
        if length new_value > max_value_bytes (limits s) then (Inl (LimitExceeded Value), s)
        else
          (let prev = hm_get path_key path (entries s);
               current_version = (case prev of Some e \<Rightarrow> entry_version e | None \<Rightarrow> 0)
           in
           if current_version \<noteq> expected
           then (Inr (\<lparr>cas_ok = False, cas_current_version = current_version\<rparr>, None), s)
           else
             (let is_new_key = (prev = None);
                  prev_size = (case prev of Some e \<Rightarrow> length (entry_value e) | None \<Rightarrow> 0);
                  new_size = length new_value
              in
              if is_new_key \<and> length (entries s) \<ge> max_keys (limits s)
              then (Inl (LimitExceeded Count), s)
              else
                (let projected_total = total_bytes s - prev_size + new_size in
                 if projected_total > max_total_bytes (limits s)
                 then (Inl (LimitExceeded Total), s)
                 else
                   (let new_version = current_version + 1;
                        entry = \<lparr>entry_value = new_value, entry_version = new_version,
                                 entry_written_by = writer, entry_written_at = now\<rparr>
                    in (Inr (\<lparr>cas_ok = True, cas_current_version = new_version\<rparr>,
                             Some \<lparr>evt_path = path, evt_version = new_version\<rparr>),
                        s\<lparr>entries := hm_insert path_key path entry (entries s),
                          total_bytes := projected_total\<rparr>))))))"

definition store_cas ::
  "SharedStore \<Rightarrow> string \<Rightarrow> u64 \<Rightarrow> bytes \<Rightarrow> string \<Rightarrow> int \<Rightarrow> (StoreError + CasResult) \<times> SharedStore" where
  "store_cas s path expected new_value writer now =
     (case cas_locked s path expected new_value writer now of
        (Inl e, s') \<Rightarrow> (Inl e, s')
      | (Inr (r, None), s') \<Rightarrow> (Inr r, s')
      | (Inr (r, Some ev), s') \<Rightarrow> (Inr r, send_notify ev s'))"

definition authorized_set ::
  "SharedStore \<Rightarrow> string \<Rightarrow> bytes \<Rightarrow> CallerIdentity \<Rightarrow> bool \<Rightarrow> int \<Rightarrow> (StoreError + u64) \<times> SharedStore" where
  "authorized_set s path val caller override_flag now =
     (case authorize_write path caller override_flag of
        Inl e \<Rightarrow> (Inl e, s)
      | Inr _ \<Rightarrow> store_set s path val (caller_id caller) now)"

definition authorized_cas ::
  "SharedStore \<Rightarrow> string \<Rightarrow> u64 \<Rightarrow> bytes \<Rightarrow> CallerIdentity \<Rightarrow> bool \<Rightarrow> int \<Rightarrow>
     (StoreError + CasResult) \<times> SharedStore" where
  "authorized_cas s path expected new_value caller override_flag now =
     (case authorize_write path caller override_flag of
        Inl e \<Rightarrow> (Inl e, s)
      | Inr _ \<Rightarrow> store_cas s path expected new_value (caller_id caller) now)"

section \<open>Listing\<close>

text \<open>
  The \<^verbatim>\<open>glob\<close> crate is the parameter \<open>glob_new\<close>: the compiled pattern's match predicate under
  the options the code passes, or the error text.
\<close>

definition meta_of :: "string \<times> Entry \<Rightarrow> ListMetadata" where
  "meta_of pe = \<lparr>lm_path = fst pe, lm_version = entry_version (snd pe),
     lm_written_by = entry_written_by (snd pe), lm_written_at = entry_written_at (snd pe),
     lm_size_bytes = length (entry_value (snd pe))\<rparr>"

definition list_with_truncation ::
  "(string \<Rightarrow> string + (string \<Rightarrow> bool)) \<Rightarrow> SharedStore \<Rightarrow> string \<Rightarrow> StoreError + ListResult" where
  "list_with_truncation glob_new s pattern =
     (case glob_new pattern of
        Inl e \<Rightarrow> Inl (InvalidArg (''bad glob: '' @ e))
      | Inr matches \<Rightarrow>
        (let out = map meta_of (filter (\<lambda>pe. matches (fst pe)) (entries s));
             sorted_out = sort_key lm_path out
         in Inr \<lparr>lr_entries = take LIST_RESULT_CAP sorted_out,
                 lr_truncated = (length sorted_out > LIST_RESULT_CAP),
                 lr_total_matched = length sorted_out\<rparr>))"

definition store_list ::
  "(string \<Rightarrow> string + (string \<Rightarrow> bool)) \<Rightarrow> SharedStore \<Rightarrow> string \<Rightarrow> StoreError + ListMetadata list" where
  "store_list glob_new s pattern = map_sum (\<lambda>e. e) lr_entries (list_with_truncation glob_new s pattern)"

section \<open>Blocking reads\<close>

text \<open>
  What one \<^verbatim>\<open>select!\<close> of a blocking call yields: cancellation, the end of the remaining
  time, or the receiver's next result.
\<close>

datatype 'a recv = Cancelled | Elapsed | Closed | Lagged nat | Got 'a

definition wait_min :: "u64 option \<Rightarrow> u64" where
  "wait_min min_version =
     (case min_version of None \<Rightarrow> 1 | Some n \<Rightarrow> if n = 0 then 1 else n)"

definition ready :: "SharedStore \<Rightarrow> string \<Rightarrow> u64 \<Rightarrow> Entry option" where
  "ready s path mn =
     (case hm_get path_key path (entries s) of
        Some e \<Rightarrow> if entry_version e \<ge> mn then Some e else None
      | None \<Rightarrow> None)"

text \<open>
  The loop of \<open>wait\<close>. A round is whether the remaining time was zero at its top, what the
  \<^verbatim>\<open>select!\<close> yielded, and the store at the re-read. \<open>None\<close>: still blocked after these rounds.
\<close>

record 'a round =
  out_of_time :: bool
  received :: "'a recv"
  store_then :: SharedStore

fun wait_loop :: "string \<Rightarrow> u64 \<Rightarrow> NotifyEvent round list \<Rightarrow> (StoreError + Entry) option" where
  "wait_loop path mn [] = None"
| "wait_loop path mn (r # rs) =
     (if out_of_time r then Some (Inl Timeout)
      else case received r of
        Cancelled \<Rightarrow> Some (Inl Shutdown)
      | Elapsed \<Rightarrow> Some (Inl Timeout)
      | Closed \<Rightarrow> Some (Inl Shutdown)
      | Lagged k \<Rightarrow>
          (case ready (store_then r) path mn of
             Some e \<Rightarrow> Some (Inr e)
           | None \<Rightarrow> wait_loop path mn rs)
      | Got evt \<Rightarrow>
          if path_key (evt_path evt) = path_key path \<and> evt_version evt \<ge> mn
          then (case ready (store_then r) path mn of
                  Some e \<Rightarrow> Some (Inr e)
                | None \<Rightarrow> wait_loop path mn rs)
          else wait_loop path mn rs)"

definition store_wait ::
  "SharedStore \<Rightarrow> string \<Rightarrow> u64 option \<Rightarrow> NotifyEvent round list \<Rightarrow> (StoreError + Entry) option" where
  "store_wait s path min_version rounds =
     (case validate_path path of
        Inl e \<Rightarrow> Some (Inl e)
      | Inr _ \<Rightarrow>
        (let mn = wait_min min_version in
         case ready s path mn of
           Some e \<Rightarrow> Some (Inr e)
         | None \<Rightarrow> wait_loop path mn rounds))"

definition shutdown :: "SharedStore \<Rightarrow> SharedStore" where
  "shutdown s = s\<lparr>cancelled := True\<rparr>"

section \<open>Leases\<close>

record AcquireResult =
  ar_acquired :: bool
  ar_lease_id :: "string option"
  ar_expires_at :: "int option"

definition not_acquired :: AcquireResult where
  "not_acquired = \<lparr>ar_acquired = False, ar_lease_id = None, ar_expires_at = None\<rparr>"

definition notify_lease_evictions :: "string list \<Rightarrow> SharedStore \<Rightarrow> SharedStore" where
  "notify_lease_evictions names s = s\<lparr>lease_notifier := lease_notifier s @ names\<rparr>"

text \<open>One tick of the background pruner; the empty list of evictions sends nothing.\<close>

definition pruner_tick :: "instant \<Rightarrow> SharedStore \<Rightarrow> SharedStore" where
  "pruner_tick now s =
     (case prune_expired_now (leases s) now of (evicted, m) \<Rightarrow>
        (let s' = s\<lparr>leases := m\<rparr> in
         if evicted \<noteq> [] then notify_lease_evictions evicted s' else s'))"

definition start_lease_pruner :: "SharedStore \<Rightarrow> SharedStore" where
  "start_lease_pruner s = s\<lparr>pruner_started := True\<rparr>"

text \<open>
  The block the source repeats for every attempt: \<open>Some\<close> if the call returns from it, \<open>None\<close> on
  \<open>Conflict\<close>. The evicted names travel only with success.
\<close>

definition lease_attempt ::
  "SharedStore \<Rightarrow> string \<Rightarrow> duration \<Rightarrow> CallerIdentity \<Rightarrow> lease_env \<Rightarrow>
     (StoreError + AcquireResult) option \<times> SharedStore" where
  "lease_attempt s name ttl caller env =
     (case acquire (leases s) name ttl caller env of
        (Inr (lease, evicted), m) \<Rightarrow>
          (Some (Inr \<lparr>ar_acquired = True, ar_lease_id = Some (lease_id lease),
                      ar_expires_at = Some (lease_expires_at lease)\<rparr>),
           notify_lease_evictions evicted (s\<lparr>leases := m\<rparr>))
      | (Inl Conflict, m) \<Rightarrow> (None, s\<lparr>leases := m\<rparr>)
      | (Inl e, m) \<Rightarrow> (Some (Inl e), s\<lparr>leases := m\<rparr>))"

text \<open>
  \<open>lease_acquire\<close> up to the loop: the fast path, the return of a call that does not wait, and the
  warn-once latch of a call that will wait without a pruner.
\<close>

definition lease_acquire_start ::
  "SharedStore \<Rightarrow> string \<Rightarrow> duration \<Rightarrow> duration option \<Rightarrow> CallerIdentity \<Rightarrow> lease_env \<Rightarrow>
     (StoreError + AcquireResult) option \<times> SharedStore" where
  "lease_acquire_start s name ttl wait caller env =
     (case lease_attempt s name ttl caller env of
        (Some r, s') \<Rightarrow> (Some r, s')
      | (None, s') \<Rightarrow>
        (case wait of
           None \<Rightarrow> (Some (Inr not_acquired), s')
         | Some _ \<Rightarrow>
             (None, if \<not> pruner_started s' then s'\<lparr>pruner_warning_logged := True\<rparr> else s')))"

text \<open>Each round of the loop: the store at that moment and the environment of the attempt.\<close>

fun lease_acquire_loop ::
  "string \<Rightarrow> duration \<Rightarrow> CallerIdentity \<Rightarrow> (string round \<times> lease_env) list \<Rightarrow>
     ((StoreError + AcquireResult) \<times> SharedStore option) option" where
  "lease_acquire_loop name ttl caller [] = None"
| "lease_acquire_loop name ttl caller ((r, env) # rs) =
     (if out_of_time r then Some (Inr not_acquired, None)
      else
        (let attempt =
           (case lease_attempt (store_then r) name ttl caller env of
              (Some res, s') \<Rightarrow> Some (res, Some s')
            | (None, s') \<Rightarrow> lease_acquire_loop name ttl caller rs)
         in case received r of
              Cancelled \<Rightarrow> Some (Inl Shutdown, None)
            | Elapsed \<Rightarrow> Some (Inr not_acquired, None)
            | Closed \<Rightarrow> Some (Inl Shutdown, None)
            | Lagged k \<Rightarrow> attempt
            | Got event_name \<Rightarrow>
                if event_name \<noteq> name then lease_acquire_loop name ttl caller rs else attempt))"

definition lease_release ::
  "SharedStore \<Rightarrow> string \<Rightarrow> CallerIdentity \<Rightarrow> instant \<Rightarrow> (StoreError + unit) \<times> SharedStore" where
  "lease_release s lid caller now =
     (case release (leases s) lid caller now of
        (Inl e, m) \<Rightarrow> (Inl e, s\<lparr>leases := m\<rparr>)
      | (Inr (released_name, evicted), m) \<Rightarrow>
          (Inr (), notify_lease_evictions (evicted @ [released_name]) (s\<lparr>leases := m\<rparr>)))"

definition store_release_all_for_actor :: "SharedStore \<Rightarrow> string \<Rightarrow> instant \<Rightarrow> SharedStore" where
  "store_release_all_for_actor s actor now =
     (case release_all_for_actor (leases s) actor now of
        ((released, evicted), m) \<Rightarrow>
          notify_lease_evictions (evicted @ released) (s\<lparr>leases := m\<rparr>))"

text \<open>
  \<open>dump_to_path\<close> up to serialisation: the entries as read, then the leases, whose listing prunes
  and notifies. \<open>b64\<close> is the base64 crate's encoder.
\<close>

record DumpEntry =
  de_path :: string
  de_version :: u64
  de_written_by :: string
  de_written_at :: int
  de_value_b64 :: string

definition dump_store ::
  "(bytes \<Rightarrow> string) \<Rightarrow> SharedStore \<Rightarrow> instant \<Rightarrow> (DumpEntry list \<times> Lease list) \<times> SharedStore" where
  "dump_store b64 s now =
     (let dump_entries = map (\<lambda>(k, e). \<lparr>de_path = k, de_version = entry_version e,
            de_written_by = entry_written_by e, de_written_at = entry_written_at e,
            de_value_b64 = b64 (entry_value e)\<rparr>) (entries s)
      in case list_leases (leases s) now of
           ((ls, evicted), m) \<Rightarrow>
             ((dump_entries, ls), notify_lease_evictions evicted (s\<lparr>leases := m\<rparr>)))"

section \<open>Lemmas: writes\<close>

text \<open>The invariant of the store.\<close>

definition store_inv :: "SharedStore \<Rightarrow> bool" where
  "store_inv s \<longleftrightarrow>
     hm_wf path_key (entries s) \<and>
     total_bytes s = sum_list (map ((length \<circ> entry_value) \<circ> snd) (entries s)) \<and>
     total_bytes s \<le> max_total_bytes (limits s) \<and>
     length (entries s) \<le> max_keys (limits s) \<and>
     (\<forall>(p, e) \<in> set (entries s).
        validate_path p = Inr () \<and> length (entry_value e) \<le> max_value_bytes (limits s)) \<and>
     hm_wf plain (leases s)"

definition next_version :: "SharedStore \<Rightarrow> string \<Rightarrow> u64" where
  "next_version s path =
     (case store_get s path of Some e \<Rightarrow> entry_version e + 1 | None \<Rightarrow> 1)"

definition value_size :: "SharedStore \<Rightarrow> string \<Rightarrow> nat" where
  "value_size s path =
     (case store_get s path of Some e \<Rightarrow> length (entry_value e) | None \<Rightarrow> 0)"

definition mk_entry :: "bytes \<Rightarrow> u64 \<Rightarrow> string \<Rightarrow> int \<Rightarrow> Entry" where
  "mk_entry val v writer now = \<lparr>entry_value = val, entry_version = v,
     entry_written_by = writer, entry_written_at = now\<rparr>"

text \<open>What a successful write does, whichever operation made it.\<close>

definition wrote :: "SharedStore \<Rightarrow> string \<Rightarrow> bytes \<Rightarrow> string \<Rightarrow> int \<Rightarrow> SharedStore \<Rightarrow> bool" where
  "wrote s path val writer now s' \<longleftrightarrow>
     validate_path path = Inr () \<and> length val \<le> max_value_bytes (limits s) \<and>
     (store_get s path = None \<longrightarrow> length (entries s) < max_keys (limits s)) \<and>
     total_bytes s - value_size s path + length val \<le> max_total_bytes (limits s) \<and>
     s' = s\<lparr>entries := hm_insert path_key path (mk_entry val (next_version s path) writer now) (entries s),
            total_bytes := total_bytes s - value_size s path + length val\<rparr>"

lemma set_locked_cases:
  "(\<exists>e. set_locked s path val writer now = (Inl e, s)) \<or>
   (\<exists>s'. set_locked s path val writer now =
      (Inr (next_version s path, \<lparr>evt_path = path, evt_version = next_version s path\<rparr>), s') \<and>
      wrote s path val writer now s')"
  by (simp add: set_locked_def wrote_def next_version_def value_size_def store_get_def
      mk_entry_def Let_def split: sum.split option.split)

lemma cas_locked_cases:
  "(\<exists>e. cas_locked s path ex val writer now = (Inl e, s)) \<or>
   (\<exists>v. v \<noteq> ex \<and> v = (case store_get s path of Some e \<Rightarrow> entry_version e | None \<Rightarrow> 0) \<and>
      cas_locked s path ex val writer now =
        (Inr (\<lparr>cas_ok = False, cas_current_version = v\<rparr>, None), s)) \<or>
   (\<exists>s'. ex = (case store_get s path of Some e \<Rightarrow> entry_version e | None \<Rightarrow> 0) \<and>
      cas_locked s path ex val writer now =
        (Inr (\<lparr>cas_ok = True, cas_current_version = next_version s path\<rparr>,
           Some \<lparr>evt_path = path, evt_version = next_version s path\<rparr>), s') \<and>
      wrote s path val writer now s')"
  by (simp add: cas_locked_def wrote_def next_version_def value_size_def store_get_def
      mk_entry_def Let_def split: sum.split option.split)

lemma wrote_get:
  "wrote s path val writer now s' \<Longrightarrow>
     store_get s' q = (if path_key q = path_key path
       then Some (mk_entry val (next_version s path) writer now) else store_get s q)"
  by (auto simp: wrote_def store_get_def hm_simps)

lemma wrote_inv:
  assumes inv: "store_inv s" and w: "wrote s path val writer now s'"
  shows "store_inv s'"
proof -
  let ?sz = "length \<circ> entry_value"
  let ?e = "mk_entry val (next_version s path) writer now"
  have tot: "total_bytes s = sum_list (map (?sz \<circ> snd) (entries s))"
    using inv by (simp add: store_inv_def)
  have prev: "value_size s path = (case hm_get path_key path (entries s) of None \<Rightarrow> 0 | Some e \<Rightarrow> ?sz e)"
    by (simp add: value_size_def store_get_def split: option.split)
  have le: "value_size s path \<le> total_bytes s"
    unfolding tot prev using hm_sum_get [of path_key path "entries s" _ ?sz]
    by (auto split: option.split)
  have "sum_list (map (?sz \<circ> snd) (hm_insert path_key path ?e (entries s))) + value_size s path =
      total_bytes s + length val"
    unfolding tot prev using hm_sum_insert [of ?sz path_key path ?e "entries s"]
    by (simp add: mk_entry_def)
  with le have sum: "sum_list (map (?sz \<circ> snd) (hm_insert path_key path ?e (entries s))) =
      total_bytes s - value_size s path + length val"
    by linarith
  have keys: "length (hm_insert path_key path ?e (entries s)) \<le> max_keys (limits s)"
    using inv w by (auto simp: hm_simps store_inv_def wrote_def store_get_def)
  have vals: "\<forall>(p, e) \<in> set (hm_insert path_key path ?e (entries s)).
      validate_path p = Inr () \<and> length (entry_value e) \<le> max_value_bytes (limits s)"
    by (rule hm_insert_valid) (use inv w in \<open>auto simp: store_inv_def wrote_def mk_entry_def\<close>)
  show ?thesis using inv w sum keys vals by (simp add: store_inv_def wrote_def)
qed

section \<open>Traces of store calls\<close>

text \<open>
  Every call takes the lock it needs once, so a concurrent run is a sequence of these steps; a
  write's notification is a step of its own only in the theory of blocking reads.
\<close>

datatype store_op =
    SetOp string bytes CallerIdentity bool int
  | CasOp string u64 bytes CallerIdentity bool int
  | LeaseAcquireOp string duration "duration option" CallerIdentity lease_env
  | LeaseRetryOp string duration CallerIdentity lease_env
  | LeaseReleaseOp string CallerIdentity instant
  | ReleaseAllOp string instant
  | PrunerTickOp instant
  | NoteKvOp string
  | NoteLeaseOp string
  | DumpOp "bytes \<Rightarrow> string" instant
  | ShutdownOp

fun store_exec :: "store_op \<Rightarrow> SharedStore \<Rightarrow> SharedStore" where
  "store_exec (SetOp p val c ovr now) s = snd (authorized_set s p val c ovr now)"
| "store_exec (CasOp p ex val c ovr now) s = snd (authorized_cas s p ex val c ovr now)"
| "store_exec (LeaseAcquireOp n ttl w c env) s = snd (lease_acquire_start s n ttl w c env)"
| "store_exec (LeaseRetryOp n ttl c env) s = snd (lease_attempt s n ttl c env)"
| "store_exec (LeaseReleaseOp lid c now) s = snd (lease_release s lid c now)"
| "store_exec (ReleaseAllOp a now) s = store_release_all_for_actor s a now"
| "store_exec (PrunerTickOp now) s = pruner_tick now s"
| "store_exec (NoteKvOp a) s = note_kv_op a s"
| "store_exec (NoteLeaseOp a) s = note_lease_op a s"
| "store_exec (DumpOp b64 now) s = snd (dump_store b64 s now)"
| "store_exec ShutdownOp s = shutdown s"

fun op_write :: "store_op \<Rightarrow> (string \<times> CallerIdentity \<times> bool) option" where
  "op_write (SetOp p val c ovr now) = Some (p, c, ovr)"
| "op_write (CasOp p ex val c ovr now) = Some (p, c, ovr)"
| "op_write _ = None"

text \<open>The calls that leave the entries, the byte counter and the limits alone.\<close>

definition same_entries :: "SharedStore \<Rightarrow> SharedStore \<Rightarrow> bool" where
  "same_entries s s' \<longleftrightarrow> entries s' = entries s \<and> total_bytes s' = total_bytes s \<and>
     limits s' = limits s \<and> (hm_wf plain (leases s) \<longrightarrow> hm_wf plain (leases s'))"

lemma same_entries_refl [simp]: "same_entries s s"
  by (simp add: same_entries_def)

lemma same_entries_inv: "same_entries s s' \<Longrightarrow> store_inv s \<Longrightarrow> store_inv s'"
  by (simp add: same_entries_def store_inv_def)

lemma same_entries_get: "same_entries s s' \<Longrightarrow> store_get s' q = store_get s q"
  by (simp add: same_entries_def store_get_def)

lemma lease_attempt_frame: "same_entries s (snd (lease_attempt s n ttl c env))"
  using lease_exec_wf [of "leases s" "OpAcquire n ttl c env"]
  by (auto simp: same_entries_def lease_attempt_def notify_lease_evictions_def
      split: prod.splits sum.splits StoreError.splits)

lemma lease_acquire_start_frame: "same_entries s (snd (lease_acquire_start s n ttl w c env))"
  using lease_attempt_frame [of s n ttl c env]
  by (auto simp: same_entries_def lease_acquire_start_def split: prod.splits option.splits)

lemma lease_release_frame: "same_entries s (snd (lease_release s lid c now))"
  using lease_exec_wf [of "leases s" "OpRelease lid c now"]
  by (auto simp: same_entries_def lease_release_def notify_lease_evictions_def
      split: prod.splits sum.splits)

lemma other_frames:
  "same_entries s (store_release_all_for_actor s a now)"
  "same_entries s (pruner_tick now s)"
  "same_entries s (note_kv_op a s)"
  "same_entries s (note_lease_op a s)"
  "same_entries s (snd (dump_store b64 s now))"
  "same_entries s (shutdown s)"
  using lease_exec_wf [of "leases s" "OpReleaseAll a now"] lease_exec_wf [of "leases s" "OpPrune now"]
    lease_exec_wf [of "leases s" "OpList now"]
  by (auto simp: same_entries_def store_release_all_for_actor_def pruner_tick_def note_kv_op_def
      note_lease_op_def dump_store_def shutdown_def notify_lease_evictions_def Let_def
      split: prod.splits)

lemmas call_frames = lease_attempt_frame lease_acquire_start_frame lease_release_frame other_frames

lemma send_notify_simps [simp]:
  "entries (send_notify ev s) = entries s"
  "total_bytes (send_notify ev s) = total_bytes s"
  "limits (send_notify ev s) = limits s"
  "leases (send_notify ev s) = leases s"
  "notifier (send_notify ev s) = notifier s @ [ev]"
  "store_get (send_notify ev s) q = store_get s q"
  by (simp_all add: send_notify_def store_get_def)

lemma send_notify_inv [simp]: "store_inv (send_notify ev s) = store_inv s"
  by (simp add: store_inv_def)

text \<open>A write call leaves the store as it was, or writes and then notifies.\<close>

lemma authorized_set_cases:
  "(\<exists>e. authorized_set s p val c ovr now = (Inl e, s)) \<or>
   (\<exists>s'. authorized_set s p val c ovr now =
       (Inr (next_version s p), send_notify \<lparr>evt_path = p, evt_version = next_version s p\<rparr> s') \<and>
     authorize_write p c ovr = Inr () \<and> wrote s p val (caller_id c) now s')"
  using set_locked_cases [of s p val "caller_id c" now]
  by (auto simp: authorized_set_def store_set_def split: sum.split)

lemma authorized_cas_cases:
  "(\<exists>e. authorized_cas s p ex val c ovr now = (Inl e, s)) \<or>
   (\<exists>v. v \<noteq> ex \<and> v = (case store_get s p of Some e \<Rightarrow> entry_version e | None \<Rightarrow> 0) \<and>
     authorized_cas s p ex val c ovr now =
       (Inr \<lparr>cas_ok = False, cas_current_version = v\<rparr>, s)) \<or>
   (\<exists>s'. ex = (case store_get s p of Some e \<Rightarrow> entry_version e | None \<Rightarrow> 0) \<and>
     authorized_cas s p ex val c ovr now =
       (Inr \<lparr>cas_ok = True, cas_current_version = next_version s p\<rparr>,
        send_notify \<lparr>evt_path = p, evt_version = next_version s p\<rparr> s') \<and>
     authorize_write p c ovr = Inr () \<and> wrote s p val (caller_id c) now s')"
  using cas_locked_cases [of s p ex val "caller_id c" now]
  by (auto simp: authorized_cas_def store_cas_def split: sum.split)

lemma store_exec_cases:
  "same_entries s (store_exec op s) \<or>
   (\<exists>p c ovr val now s' ev. op_write op = Some (p, c, ovr) \<and> authorize_write p c ovr = Inr () \<and>
      wrote s p val (caller_id c) now s' \<and> store_exec op s = send_notify ev s')"
proof (cases op)
  case (SetOp p val c ovr now)
  then show ?thesis using authorized_set_cases [of s p val c ovr now] by (auto; blast)
next
  case (CasOp p ex val c ovr now)
  then show ?thesis using authorized_cas_cases [of s p ex val c ovr now] by (auto; blast)
qed (use call_frames [of s] in \<open>auto\<close>)

lemma store_exec_inv: "store_inv s \<Longrightarrow> store_inv (store_exec op s)"
  using store_exec_cases [of s op] by (auto intro: same_entries_inv wrote_inv)

text \<open>
  C1: the store's invariant holds in every reachable state. After any sequence of calls on a new
  store with any limits, keys are distinct by components and absolute without \<^verbatim>\<open>..\<close> or empty
  segments, the byte counter is exactly the sum of the value sizes, and the limits on value size,
  total bytes and number of keys hold.
\<close>

theorem store_inv_reachable: "store_inv (fold store_exec ops (with_limits lim))"
proof -
  have "store_inv s \<Longrightarrow> store_inv (fold store_exec ops s)" for s
    by (induction ops arbitrary: s) (auto intro: store_exec_inv)
  moreover have "store_inv (with_limits lim)"
    by (simp add: store_inv_def with_limits_def)
  ultimately show ?thesis .
qed

section \<open>What a write does\<close>

text \<open>Bytes held under every key but one.\<close>

definition other_bytes :: "SharedStore \<Rightarrow> string \<Rightarrow> nat" where
  "other_bytes s path =
     sum_list (map (\<lambda>(p, e). if path_key p = path_key path then 0 else length (entry_value e)) (entries s))"

lemma other_bytes_eq:
  assumes "store_inv s"
  shows "total_bytes s - value_size s path = other_bytes s path"
proof -
  have "hm_wf path_key m \<Longrightarrow>
      sum_list (map ((length \<circ> entry_value) \<circ> snd) m) =
      sum_list (map (\<lambda>(p, e). if path_key p = path_key path then 0 else length (entry_value e)) m) +
      (case hm_get path_key path m of Some e \<Rightarrow> length (entry_value e) | None \<Rightarrow> 0)" for m
  proof (induction m)
    case (Cons pe m)
    obtain p e where pe: "pe = (p, e)" by fastforce
    have "path_key p = path_key path \<Longrightarrow> hm_get path_key path m = None"
      using Cons.prems pe by (auto simp: hm_wf_def hm_get_None_iff image_comp comp_def)
    then show ?case using Cons pe by (auto simp: hm_wf_def split: option.splits)
  qed simp
  from this [of "entries s"] show ?thesis
    using assms by (simp add: store_inv_def other_bytes_def value_size_def store_get_def)
qed

lemma authorized_set_Inr_iff:
  "(\<exists>v. fst (authorized_set s p val c ovr now) = Inr v) \<longleftrightarrow>
     authorize_write p c ovr = Inr () \<and> validate_path p = Inr () \<and>
     length val \<le> max_value_bytes (limits s) \<and>
     (store_get s p = None \<longrightarrow> length (entries s) < max_keys (limits s)) \<and>
     total_bytes s - value_size s p + length val \<le> max_total_bytes (limits s)"
  by (cases "authorize_write p c ovr"; cases "validate_path p"; cases "store_get s p")
    (simp_all add: authorized_set_def store_set_def set_locked_def Let_def value_size_def
      store_get_def not_le)

text \<open>
  C2: what \<open>authorized_set\<close> does. It succeeds exactly when the caller may write the path, the path is
  valid, the value fits, a new key is within the key limit and the bytes of all other keys plus the
  new value are within the total; then it returns the next version, readers of that key (in any
  spelling) see the new value under that version, no other key changes, and one event with the key
  and the version is sent. A refused call changes nothing.
\<close>

theorem authorized_set_spec:
  assumes "store_inv s"
  shows "case authorized_set s p val c ovr now of
     (Inl _, s') \<Rightarrow> s' = s \<and>
       \<not> (authorize_write p c ovr = Inr () \<and> validate_path p = Inr () \<and>
          length val \<le> max_value_bytes (limits s) \<and>
          (store_get s p = None \<longrightarrow> length (entries s) < max_keys (limits s)) \<and>
          other_bytes s p + length val \<le> max_total_bytes (limits s))
   | (Inr v, s') \<Rightarrow>
       v = next_version s p \<and> authorize_write p c ovr = Inr () \<and> validate_path p = Inr () \<and>
       length val \<le> max_value_bytes (limits s) \<and>
       (store_get s p = None \<longrightarrow> length (entries s) < max_keys (limits s)) \<and>
       other_bytes s p + length val \<le> max_total_bytes (limits s) \<and>
       (\<forall>q. store_get s' q = (if path_key q = path_key p
              then Some (mk_entry val v (caller_id c) now) else store_get s q)) \<and>
       notifier s' = notifier s @ [\<lparr>evt_path = p, evt_version = v\<rparr>]"
proof -
  consider e where "authorized_set s p val c ovr now = (Inl e, s)"
    | s' where "authorized_set s p val c ovr now = (Inr (next_version s p),
          send_notify \<lparr>evt_path = p, evt_version = next_version s p\<rparr> s')"
        "authorize_write p c ovr = Inr ()" "wrote s p val (caller_id c) now s'"
    using authorized_set_cases [of s p val c ovr now] by blast
  then show ?thesis
  proof cases
    case 1
    then have "\<not> (\<exists>v. fst (authorized_set s p val c ovr now) = Inr v)" by simp
    with 1 show ?thesis
      unfolding authorized_set_Inr_iff other_bytes_eq [OF assms] by simp
  next
    case 2
    moreover have "validate_path p = Inr ()" "notifier s' = notifier s"
      using 2(3) by (simp_all add: wrote_def)
    moreover have "\<exists>v. fst (authorized_set s p val c ovr now) = Inr v" using 2(1) by simp
    ultimately show ?thesis
      unfolding authorized_set_Inr_iff other_bytes_eq [OF assms] by (simp add: wrote_get)
  qed
qed

theorem authorized_set_spec_witness:
  "case authorized_set new_store ''/shared/a'' [7] \<lparr>caller_id = ''w1'', caller_role = Worker\<rparr> False 5 of
     (Inl _, s') \<Rightarrow> False
   | (Inr v, s') \<Rightarrow> v = 1 \<and> store_get s' ''/shared/./a'' = Some (mk_entry [7] 1 ''w1'' 5)"
proof -
  have inv: "store_inv new_store"
    by (simp add: store_inv_def new_store_def with_limits_def)
  show ?thesis
    using authorized_set_spec [OF inv, where p = "''/shared/a''" and val = "[7]" and
        c = "\<lparr>caller_id = ''w1'', caller_role = Worker\<rparr>" and ovr = False and now = 5]
    by (simp add: authorize_write_Inr validate_path_def starts_with_def path_key_def
        new_store_def with_limits_def store_get_def next_version_def other_bytes_def
        default_limits_def split: prod.splits sum.splits)
qed

section \<open>Compare and swap\<close>

definition version_of :: "SharedStore \<Rightarrow> string \<Rightarrow> u64" where
  "version_of s path = (case store_get s path of Some e \<Rightarrow> entry_version e | None \<Rightarrow> 0)"

lemma next_version_of: "next_version s p = version_of s p + 1"
  by (simp add: next_version_def version_of_def split: option.split)

lemma version_of_same_key: "path_key q = path_key p \<Longrightarrow> version_of s q = version_of s p"
  by (simp add: version_of_def store_get_def hm_get_same_key [of path_key q p])

lemma version_of_wrote:
  assumes w: "wrote s q val w now s'"
  shows "version_of (send_notify ev s') p =
     (if path_key p = path_key q then version_of s p + 1 else version_of s p)"
proof (cases "path_key p = path_key q")
  case True
  have "version_of (send_notify ev s') p = next_version s q"
    by (simp add: version_of_def wrote_get [OF w] True mk_entry_def)
  also have "\<dots> = version_of s p + 1"
    unfolding next_version_of version_of_same_key [OF True] ..
  finally show ?thesis using True by simp
next
  case False
  then show ?thesis by (simp add: version_of_def wrote_get [OF w])
qed

lemma version_of_exec:
  "version_of (store_exec op s) p = version_of s p \<or> version_of (store_exec op s) p = version_of s p + 1"
  using store_exec_cases [of s op]
proof (elim disjE exE conjE)
  assume "same_entries s (store_exec op s)"
  then show ?thesis by (simp add: version_of_def same_entries_get)
next
  fix q c ovr val now s' ev
  assume w: "wrote s q val (caller_id c) now s'" and "store_exec op s = send_notify ev s'"
  then show ?thesis by (simp add: version_of_wrote [OF w])
qed

lemma version_of_trace:
  "\<exists>k \<le> length ops. version_of (fold store_exec ops s) p = version_of s p + of_nat k"
proof (induction ops arbitrary: s)
  case (Cons op ops)
  obtain k where k: "k \<le> length ops"
      "version_of (fold store_exec ops (store_exec op s)) p = version_of (store_exec op s) p + of_nat k"
    using Cons [of "store_exec op s"] by auto
  from version_of_exec [of op s p] show ?case
  proof
    assume "version_of (store_exec op s) p = version_of s p"
    then show ?thesis using k by (intro exI [of _ k]) simp
  next
    assume "version_of (store_exec op s) p = version_of s p + 1"
    then show ?thesis using k by (intro exI [of _ "Suc k"]) (simp add: algebra_simps)
  qed
qed simp

lemma cas_succeeds_version:
  assumes "fst (authorized_cas s p ex val c ovr now) = Inr r" and "cas_ok r"
  shows "ex = version_of s p \<and> version_of (snd (authorized_cas s p ex val c ovr now)) p = ex + 1"
  using authorized_cas_cases [of s p ex val c ovr now] assms
  by (auto simp: version_of_def wrote_get mk_entry_def next_version_of)

text \<open>
  C3: no lost update. If a compare-and-swap against version \<open>v\<close> succeeded, then no later one against
  the same version \<open>v\<close> succeeds on that key, through any sequence of fewer than \<open>2^64 - 1\<close> calls by
  anybody in between: of the clients that read version \<open>v\<close>, exactly one wins.
\<close>

theorem cas_no_lost_update:
  assumes win: "fst (authorized_cas s p v val c ovr now) = Inr r" "cas_ok r"
    and few: "length ops < 2 ^ 64 - 1"
    and late: "fst (authorized_cas (fold store_exec ops (snd (authorized_cas s p v val c ovr now)))
                 p v val' c' ovr' now') = Inr r'"
  shows "\<not> cas_ok r'"
proof
  assume "cas_ok r'"
  let ?t = "fold store_exec ops (snd (authorized_cas s p v val c ovr now))"
  obtain k where k: "k \<le> length ops" "version_of ?t p = v + 1 + of_nat k"
    using version_of_trace [of ops "snd (authorized_cas s p v val c ovr now)" p]
      cas_succeeds_version [OF win] by auto
  moreover have "version_of ?t p = v"
    using cas_succeeds_version [OF late \<open>cas_ok r'\<close>] by simp
  ultimately have "(of_nat (Suc k) :: u64) = 0"
    by (metis add.assoc add_cancel_right_right of_nat_Suc)
  then have "2 ^ 64 dvd Suc k"
    by (simp add: word_of_nat_eq_0_iff del: of_nat_Suc)
  then show False using k(1) few by (auto dest!: dvd_imp_le)
qed

definition w1 :: CallerIdentity where
  "w1 = \<lparr>caller_id = ''w1'', caller_role = Worker\<rparr>"

theorem cas_no_lost_update_witness:
  "\<exists>r'. fst (authorized_cas (fold store_exec [PrunerTickOp 3]
      (snd (authorized_cas new_store ''/shared/a'' 0 [7] w1 False 5))) ''/shared/a'' 0 [8] w1 False 6)
      = Inr r' \<and> \<not> cas_ok r'"
proof -
  note ev = authorized_cas_def store_cas_def cas_locked_def authorize_write_def w1_def
    validate_path_def starts_with_def new_store_def with_limits_def default_limits_def
  have win: "fst (authorized_cas new_store ''/shared/a'' 0 [7] w1 False 5) =
      Inr \<lparr>cas_ok = True, cas_current_version = 1\<rparr>"
    by (simp add: ev)
  have few: "length [PrunerTickOp 3] < 2 ^ 64 - 1" by simp
  have late: "fst (authorized_cas (fold store_exec [PrunerTickOp 3]
      (snd (authorized_cas new_store ''/shared/a'' 0 [7] w1 False 5))) ''/shared/a'' 0 [8] w1 False 6)
      = Inr \<lparr>cas_ok = False, cas_current_version = 1\<rparr>"
    by (simp add: ev pruner_tick_def prune_expired_now_def prune_expired_def hm_remove_all_def
        send_notify_def)
  from cas_no_lost_update [OF win _ few late] late show ?thesis by auto
qed

section \<open>Confinement of workers\<close>

lemma worker_exec_confined:
  assumes by_w: "\<And>p c ovr. op_write op = Some (p, c, ovr) \<Longrightarrow>
      caller_role c = Worker \<and> caller_id c \<in> ws"
    and ids: "\<And>w. w \<in> ws \<Longrightarrow> w \<noteq> [] \<and> w \<noteq> ''.''"
    and q: "\<And>rest. path_key q \<noteq> (True, ''shared'' # rest)"
      "\<And>w rest. w \<in> ws \<Longrightarrow> path_key q \<noteq> (True, ''peer'' # w # rest)"
  shows "store_get (store_exec op s) q = store_get s q"
  using store_exec_cases [of s op]
proof (elim disjE exE conjE)
  assume "same_entries s (store_exec op s)"
  then show ?thesis by (rule same_entries_get)
next
  fix p c ovr val now s' ev
  assume op: "op_write op = Some (p, c, ovr)" and auth: "authorize_write p c ovr = Inr ()"
    and w: "wrote s p val (caller_id c) now s'" and s': "store_exec op s = send_notify ev s'"
  have "\<exists>rest. path_key p = (True, ''shared'' # rest) \<or> path_key p = (True, ''peer'' # caller_id c # rest)"
    using worker_write_confined [OF auth] w by_w [OF op] ids by (auto simp: wrote_def)
  then have "path_key q \<noteq> path_key p" using q by_w [OF op] by metis
  then show ?thesis by (simp add: s' wrote_get [OF w])
qed

text \<open>
  C4: workers are confined. However the calls of a set of workers interleave, with each other and
  with every lease, counter and maintenance call, whatever override flags they pass and however they
  spell their paths, no entry outside \<^verbatim>\<open>/shared\<close> and their own \<^verbatim>\<open>/peer\<close> subtrees is
  created, changed or removed.
\<close>

theorem workers_confined:
  assumes "\<forall>op \<in> set ops. \<forall>p c ovr. op_write op = Some (p, c, ovr) \<longrightarrow>
      caller_role c = Worker \<and> caller_id c \<in> ws"
    and "\<forall>w \<in> ws. w \<noteq> [] \<and> w \<noteq> ''.''"
    and "\<forall>rest. path_key q \<noteq> (True, ''shared'' # rest)"
    and "\<forall>w \<in> ws. \<forall>rest. path_key q \<noteq> (True, ''peer'' # w # rest)"
  shows "store_get (fold store_exec ops s) q = store_get s q"
  using assms(1)
proof (induction ops arbitrary: s)
  case (Cons op ops)
  have "store_get (store_exec op s) q = store_get s q"
    by (rule worker_exec_confined [where ws = ws]) (use Cons.prems assms in auto)
  then show ?case using Cons by simp
qed simp

theorem workers_confined_witness:
  "store_get (fold store_exec [SetOp ''/ref/plan'' [1] w1 True 5, SetOp ''/peer/w1/x'' [2] w1 False 6]
      new_store) ''/ref/plan'' = store_get new_store ''/ref/plan''"
  by (rule workers_confined [where ws = "{''w1''}"])
    (auto simp: w1_def path_key_def starts_with_def)

section \<open>Listing\<close>

text \<open>
  What a listing returns. For a pattern the glob library accepts, the entries returned and some
  list of omitted ones together are exactly the matching entries; both are in ascending path order
  with every returned path before every omitted one; the count is the number of all matches; the
  truncation flag is set exactly when something was omitted; and at most \<open>LIST_RESULT_CAP\<close> entries
  are returned.
\<close>

theorem list_with_truncation_spec:
  assumes "glob_new pat = Inr matches"
  shows "\<exists>r omitted. list_with_truncation glob_new s pat = Inr r \<and>
     mset (lr_entries r @ omitted) = mset (map meta_of (filter (matches \<circ> fst) (entries s))) \<and>
     sorted (map lm_path (lr_entries r @ omitted)) \<and>
     lr_total_matched r = length (lr_entries r) + length omitted \<and>
     (lr_truncated r \<longleftrightarrow> omitted \<noteq> []) \<and>
     length (lr_entries r) \<le> LIST_RESULT_CAP"
proof -
  let ?out = "map meta_of (filter (matches \<circ> fst) (entries s))"
  let ?sorted = "sort_key lm_path ?out"
  let ?r = "\<lparr>lr_entries = take LIST_RESULT_CAP ?sorted,
      lr_truncated = (length ?sorted > LIST_RESULT_CAP), lr_total_matched = length ?sorted\<rparr>"
  have "list_with_truncation glob_new s pat = Inr ?r"
    using assms by (simp add: list_with_truncation_def comp_def)
  moreover have "lr_entries ?r @ drop LIST_RESULT_CAP ?sorted = ?sorted"
    by simp
  moreover have "mset ?sorted = mset ?out" and "sorted (map lm_path ?sorted)"
    by simp_all
  moreover have "lr_truncated ?r \<longleftrightarrow> drop LIST_RESULT_CAP ?sorted \<noteq> []"
    and "lr_total_matched ?r = length (lr_entries ?r) + length (drop LIST_RESULT_CAP ?sorted)"
    and "length (lr_entries ?r) \<le> LIST_RESULT_CAP"
    by auto
  ultimately show ?thesis by metis
qed

theorem list_with_truncation_spec_witness:
  "\<exists>r omitted. list_with_truncation (\<lambda>pat. Inr (\<lambda>p. p = pat)) new_store ''/shared/a'' = Inr r \<and>
     mset (lr_entries r @ omitted) = {#}"
  using list_with_truncation_spec [where glob_new = "\<lambda>pat. Inr (\<lambda>p. p = pat)" and
      pat = "''/shared/a''" and s = new_store, OF refl]
  by (auto simp: new_store_def with_limits_def)

end
