(* ===== verification/Store_Waiters.thy ===== *)
theory Store_Waiters
  imports Shared_Store
begin

text \<open>
  Blocking calls of the shared store under concurrency. \<open>wstep\<close> interleaves one \<open>wait\<close> call with any
  number of writers: a writer's critical section (\<open>set_locked\<close>, \<open>cas_locked\<close>) and its later
  notification are separate steps, events in flight may be sent in any order, the waiter subscribes
  before its first read, and its receiver may lag behind the channel's capacity. The theorems say
  that no wake-up is lost and that a waiter whose condition holds returns. The second part is about
  the lease notifications: which calls announce the leases they free, and which do not.
\<close>

section \<open>A broadcast receiver\<close>

text \<open>
  tokio's broadcast channel with capacity \<open>cap\<close>: the next result of a receiver at index \<open>pos\<close> of the
  list of everything sent, and its next index; \<open>None\<close> when there is nothing to receive.
\<close>

definition broadcast_recv :: "nat \<Rightarrow> 'a list \<Rightarrow> nat \<Rightarrow> ('a recv \<times> nat) option" where
  "broadcast_recv cap log pos =
     (if length log - pos > cap then Some (Lagged (length log - pos - cap), length log - cap)
      else if pos < length log then Some (Got (log ! pos), Suc pos)
      else None)"

lemma broadcast_recv_progress:
  "0 < cap \<Longrightarrow> broadcast_recv cap log pos = Some (r, pos') \<Longrightarrow> pos < pos' \<and> pos' \<le> length log"
  by (auto simp: broadcast_recv_def split: if_splits)

section \<open>One waiter among writers\<close>

datatype waiter = Subscribed | Blocked | Returned "StoreError + Entry"

record wsys =
  w_store :: SharedStore
  w_inflight :: "NotifyEvent list"
  w_pos :: nat
  w_state :: waiter

definition w_receive :: "string \<Rightarrow> u64 \<Rightarrow> wsys \<Rightarrow> wsys" where
  "w_receive path mn w =
     (case broadcast_recv KV_NOTIFIER_CAPACITY (notifier (w_store w)) (w_pos w) of
        None \<Rightarrow> w
      | Some (r, pos') \<Rightarrow>
          w\<lparr>w_pos := pos',
            w_state := (case wait_loop path mn
                [\<lparr>out_of_time = False, received = r, store_then = w_store w\<rparr>] of
               Some res \<Rightarrow> Returned res | None \<Rightarrow> Blocked)\<rparr>)"

inductive wstep :: "string \<Rightarrow> u64 \<Rightarrow> wsys \<Rightarrow> wsys \<Rightarrow> bool" for path mn where
  write_set:
    "set_locked (w_store w) p val wr now = (Inr (v, ev), s') \<Longrightarrow>
     wstep path mn w (w\<lparr>w_store := s', w_inflight := ev # w_inflight w\<rparr>)"
| write_cas:
    "cas_locked (w_store w) p ex val wr now = (Inr (r, Some ev), s') \<Longrightarrow>
     wstep path mn w (w\<lparr>w_store := s', w_inflight := ev # w_inflight w\<rparr>)"
| send:
    "w_inflight w = xs @ ev # ys \<Longrightarrow>
     wstep path mn w (w\<lparr>w_store := send_notify ev (w_store w), w_inflight := xs @ ys\<rparr>)"
| other_call:
    "entries s' = entries (w_store w) \<Longrightarrow> notifier s' = notifier (w_store w) \<Longrightarrow>
     wstep path mn w (w\<lparr>w_store := s'\<rparr>)"
| first_read:
    "w_state w = Subscribed \<Longrightarrow>
     wstep path mn w (w\<lparr>w_state := (case ready (w_store w) path mn of
        Some e \<Rightarrow> Returned (Inr e) | None \<Rightarrow> Blocked)\<rparr>)"
| receive:
    "w_state w = Blocked \<Longrightarrow> wstep path mn w (w_receive path mn w)"
| cancel:
    "w_state w = Blocked \<Longrightarrow> cancelled (w_store w) \<Longrightarrow>
     wstep path mn w (w\<lparr>w_state := Returned (Inl Shutdown)\<rparr>)"
| time_out:
    "w_state w = Blocked \<Longrightarrow> wstep path mn w (w\<lparr>w_state := Returned (Inl Timeout)\<rparr>)"

inductive wreach :: "string \<Rightarrow> u64 \<Rightarrow> wsys \<Rightarrow> bool" for path mn where
  subscribe:
    "wreach path mn \<lparr>w_store = s, w_inflight = fl, w_pos = length (notifier s), w_state = Subscribed\<rparr>"
| step: "wreach path mn w \<Longrightarrow> wstep path mn w w' \<Longrightarrow> wreach path mn w'"

definition wakes :: "string \<Rightarrow> u64 \<Rightarrow> NotifyEvent \<Rightarrow> bool" where
  "wakes path mn ev \<longleftrightarrow> path_key (evt_path ev) = path_key path \<and> mn \<le> evt_version ev"

text \<open>
  The invariant: a blocked waiter whose condition holds has a waking event in flight or still
  ahead of its receiver; and the receiver never runs ahead of the channel.
\<close>

definition w_inv :: "string \<Rightarrow> u64 \<Rightarrow> wsys \<Rightarrow> bool" where
  "w_inv path mn w \<longleftrightarrow>
     w_pos w \<le> length (notifier (w_store w)) \<and>
     (w_state w = Blocked \<longrightarrow> ready (w_store w) path mn \<noteq> None \<longrightarrow>
        (\<exists>ev \<in> set (w_inflight w) \<union> set (drop (w_pos w) (notifier (w_store w))). wakes path mn ev)) \<and>
     (\<forall>e. w_state w = Returned (Inr e) \<longrightarrow> mn \<le> entry_version e)"

lemma ready_wrote:
  assumes "wrote s p val wr now s'"
  shows "ready s' path mn =
     (if path_key path = path_key p
      then if mn \<le> next_version s p then Some (mk_entry val (next_version s p) wr now) else None
      else ready s path mn)"
  using wrote_get [OF assms, of path]
  by (auto simp: ready_def store_get_def mk_entry_def)

lemma ready_version: "ready s path mn = Some e \<Longrightarrow> mn \<le> entry_version e"
  by (auto simp: ready_def split: option.splits if_splits)

lemma ready_entries: "entries s' = entries s \<Longrightarrow> ready s' path mn = ready s path mn"
  by (simp add: ready_def)

lemma w_inv_write:
  assumes inv: "w_inv path mn w" and wr: "wrote (w_store w) p val wr now s'"
    and ev: "ev = \<lparr>evt_path = p, evt_version = next_version (w_store w) p\<rparr>"
  shows "w_inv path mn (w\<lparr>w_store := s', w_inflight := ev # w_inflight w\<rparr>)"
proof -
  have log: "notifier s' = notifier (w_store w)" using wr by (simp add: wrote_def)
  have "wakes path mn ev" if "ready s' path mn \<noteq> None" "path_key path = path_key p"
    using that by (auto simp: ready_wrote [OF wr] wakes_def ev split: if_splits)
  moreover have "ready s' path mn = ready (w_store w) path mn" if "path_key path \<noteq> path_key p"
    using that by (simp add: ready_wrote [OF wr])
  ultimately show ?thesis using inv log
    by (cases "path_key path = path_key p") (auto simp: w_inv_def)
qed

lemma w_inv_receive:
  assumes inv: "w_inv path mn w" and blocked: "w_state w = Blocked"
  shows "w_inv path mn (w_receive path mn w)"
proof (cases "broadcast_recv KV_NOTIFIER_CAPACITY (notifier (w_store w)) (w_pos w)")
  case None
  then show ?thesis using inv by (simp add: w_receive_def)
next
  case (Some rp)
  obtain r pos' where rp: "rp = (r, pos')" by fastforce
  let ?log = "notifier (w_store w)"
  have pos': "pos' \<le> length ?log"
    using broadcast_recv_progress [of KV_NOTIFIER_CAPACITY ?log "w_pos w" r pos'] Some rp
    by (simp add: KV_NOTIFIER_CAPACITY_def)
  consider k where "r = Lagged k" | "r = Got (?log ! w_pos w)" "pos' = Suc (w_pos w)" "w_pos w < length ?log"
    using Some rp by (auto simp: broadcast_recv_def split: if_splits)
  then show ?thesis
  proof cases
    case 1
    then show ?thesis using Some rp pos'
      by (auto simp: w_receive_def w_inv_def dest: ready_version split: option.splits)
  next
    case 2
    have "drop (w_pos w) ?log = ?log ! w_pos w # drop pos' ?log"
      using 2 by (simp add: Cons_nth_drop_Suc)
    then show ?thesis using inv blocked 2 Some rp pos'
      by (auto simp: w_receive_def w_inv_def wakes_def dest: ready_version split: option.splits if_splits)
  qed
qed

lemma wstep_inv: "wstep path mn w w' \<Longrightarrow> w_inv path mn w \<Longrightarrow> w_inv path mn w'"
proof (induction rule: wstep.induct)
  case (write_set w p val wr now v ev s')
  then have "wrote (w_store w) p val wr now s'"
      and "ev = \<lparr>evt_path = p, evt_version = next_version (w_store w) p\<rparr>"
    using set_locked_cases [of "w_store w" p val wr now] by auto
  then show ?case using write_set by (intro w_inv_write)
next
  case (write_cas w p ex val wr now r ev s')
  then have "wrote (w_store w) p val wr now s'"
      and "ev = \<lparr>evt_path = p, evt_version = next_version (w_store w) p\<rparr>"
    using cas_locked_cases [of "w_store w" p ex val wr now] by auto
  then show ?case using write_cas by (intro w_inv_write)
next
  case (send w xs ev ys)
  then show ?case by (auto simp: w_inv_def ready_def)
next
  case (other_call s' w)
  then show ?case by (simp add: w_inv_def ready_entries [OF other_call(1)])
next
  case (first_read w)
  then show ?case by (auto simp: w_inv_def dest: ready_version split: option.splits)
next
  case (receive w)
  then show ?case by (simp add: w_inv_receive)
qed (simp_all add: w_inv_def)

lemma wreach_inv: "wreach path mn w \<Longrightarrow> w_inv path mn w"
proof (induction rule: wreach.induct)
  case (subscribe s fl)
  then show ?case by (simp add: w_inv_def)
next
  case (step w w')
  then show ?case by (blast intro: wstep_inv)
qed

lemma blocked_caught_up:
  "w_inv path mn w \<Longrightarrow> w_state w = Blocked \<Longrightarrow> w_inflight w = [] \<Longrightarrow>
     w_pos w = length (notifier (w_store w)) \<Longrightarrow> ready (w_store w) path mn = None"
  by (auto simp: w_inv_def)

text \<open>
  C12: no wake-up is lost. In every reachable state, if the waiter is blocked, no notification is in
  flight and its receiver has nothing left to read, then its condition does not hold: the entry is
  missing or older than the version it waits for.
\<close>

theorem wait_no_lost_wakeup:
  assumes "wreach path mn w" and "w_state w = Blocked" and "w_inflight w = []"
    and "w_pos w = length (notifier (w_store w))"
  shows "ready (w_store w) path mn = None"
  using wreach_inv [OF assms(1)] assms(2-4) by (rule blocked_caught_up)

lemma w_receive_keeps:
  "w_store (w_receive path mn w) = w_store w \<and> w_inflight (w_receive path mn w) = w_inflight w"
  by (auto simp: w_receive_def split: option.splits prod.splits)

lemma w_receive_pos:
  assumes "w_pos w < length (notifier (w_store w))"
  shows "w_pos w < w_pos (w_receive path mn w)"
proof -
  obtain r pos' where r: "broadcast_recv KV_NOTIFIER_CAPACITY (notifier (w_store w)) (w_pos w) = Some (r, pos')"
    using assms by (cases "KV_NOTIFIER_CAPACITY < length (notifier (w_store w)) - w_pos w")
      (auto simp: broadcast_recv_def)
  then show ?thesis
    using broadcast_recv_progress [OF _ r] by (simp add: w_receive_def KV_NOTIFIER_CAPACITY_def)
qed

lemma w_receive_ready:
  assumes "ready (w_store w) path mn = Some e"
  shows "w_state (w_receive path mn w) \<in> {w_state w, Blocked, Returned (Inr e)}"
  using assms
  by (auto simp: w_receive_def broadcast_recv_def split: option.splits prod.splits if_splits)

text \<open>
  A waiter whose condition holds returns. From a reachable blocked state where the entry has
  reached the version and no notification is in flight, the waiter's own receive steps alone, at
  most one per event it has not read, return that entry.
\<close>

theorem wait_returns:
  assumes "wreach path mn w" and "w_state w = Blocked" and "w_inflight w = []"
    and "ready (w_store w) path mn = Some e"
  shows "\<exists>n \<le> length (notifier (w_store w)) - w_pos w.
     w_state ((w_receive path mn ^^ n) w) = Returned (Inr e)"
  using assms
proof (induction "length (notifier (w_store w)) - w_pos w" arbitrary: w rule: less_induct)
  case less
  let ?w' = "w_receive path mn w"
  have "w_pos w < length (notifier (w_store w))"
    using wreach_inv [OF less.prems(1)] blocked_caught_up [of path mn w] less.prems(2-4)
    by (force simp: w_inv_def le_less)
  then have pos: "length (notifier (w_store ?w')) - w_pos ?w' < length (notifier (w_store w)) - w_pos w"
    using w_receive_pos [of w path mn] w_receive_keeps [of path mn w] by auto
  from w_receive_ready [OF less.prems(4)] less.prems(2)
  consider "w_state ?w' = Returned (Inr e)" | "w_state ?w' = Blocked" by auto
  then show ?case
  proof cases
    case 1
    then show ?thesis using pos by (intro exI [of _ 1]) auto
  next
    case 2
    have "wreach path mn ?w'"
      using less.prems(1,2) by (blast intro: wreach.step wstep.receive)
    then obtain n where "n \<le> length (notifier (w_store ?w')) - w_pos ?w'"
        "w_state ((w_receive path mn ^^ n) ?w') = Returned (Inr e)"
      using less.hyps [OF pos] 2 less.prems(3,4) w_receive_keeps [of path mn w] by auto
    then show ?thesis using pos
      by (intro exI [of _ "Suc n"]) (auto simp: funpow_Suc_right simp del: funpow.simps)
  qed
qed

text \<open>A run for the witnesses: the waiter finds nothing, a worker writes, the event is sent.\<close>

definition wit_blocked :: wsys where
  "wit_blocked = \<lparr>w_store = new_store, w_inflight = [], w_pos = 0, w_state = Blocked\<rparr>"

definition wit_event :: NotifyEvent where
  "wit_event = \<lparr>evt_path = ''/shared/a'', evt_version = 1\<rparr>"

definition wit_written :: SharedStore where
  "wit_written = new_store\<lparr>entries := [(''/shared/a'', mk_entry [7] 1 ''w1'' 5)], total_bytes := 1\<rparr>"

definition wit_sent :: wsys where
  "wit_sent = wit_blocked\<lparr>w_store := send_notify wit_event wit_written\<rparr>"

lemmas wit_defs = wit_blocked_def wit_event_def wit_written_def wit_sent_def new_store_def
  with_limits_def default_limits_def mk_entry_def

lemma wit_blocked_reach: "wreach ''/shared/a'' 1 wit_blocked"
proof -
  have "wreach ''/shared/a'' 1 (wit_blocked\<lparr>w_state := Subscribed\<rparr>)"
    using wreach.subscribe [of "''/shared/a''" 1 new_store "[]"] by (simp add: wit_defs)
  from wreach.step [OF this wstep.first_read] show ?thesis
    by (simp add: wit_defs ready_def)
qed

lemma wit_sent_reach: "wreach ''/shared/a'' 1 wit_sent"
proof -
  have "set_locked (w_store wit_blocked) ''/shared/a'' [7] ''w1'' 5 = (Inr (1, wit_event), wit_written)"
    by (simp add: wit_defs set_locked_def validate_path_def starts_with_def)
  from wreach.step [OF wreach.step [OF wit_blocked_reach wstep.write_set [OF this]]
      wstep.send [of _ "[]" wit_event "[]"]]
  show ?thesis by (simp add: wit_sent_def wit_blocked_def)
qed

theorem wait_no_lost_wakeup_witness: "ready (w_store wit_blocked) ''/shared/a'' 1 = None"
  by (rule wait_no_lost_wakeup [OF wit_blocked_reach]) (simp_all add: wit_defs)

theorem wait_returns_witness:
  "\<exists>n \<le> 1. w_state ((w_receive ''/shared/a'' 1 ^^ n) wit_sent) = Returned (Inr (mk_entry [7] 1 ''w1'' 5))"
proof -
  have "ready (w_store wit_sent) ''/shared/a'' 1 = Some (mk_entry [7] 1 ''w1'' 5)"
    by (simp add: wit_defs ready_def send_notify_def)
  from wait_returns [OF wit_sent_reach _ _ this] show ?thesis
    by (simp add: wit_sent_def wit_blocked_def wit_written_def new_store_def with_limits_def)
qed

section \<open>Which calls announce the leases they free\<close>

text \<open>
  A lease name is freed by a call if it was in the table and no longer is; it is announced if the
  call sends it on the lease channel, which is what wakes an actor blocked in \<open>lease_acquire\<close>.
\<close>

definition freed :: "SharedStore \<Rightarrow> SharedStore \<Rightarrow> string \<Rightarrow> bool" where
  "freed s s' k \<longleftrightarrow> hm_get plain k (leases s) \<noteq> None \<and> hm_get plain k (leases s') = None"

definition announced :: "SharedStore \<Rightarrow> SharedStore \<Rightarrow> string \<Rightarrow> bool" where
  "announced s s' k \<longleftrightarrow> (\<exists>evs. lease_notifier s' = lease_notifier s @ evs \<and> k \<in> set evs)"

definition expired :: "SharedStore \<Rightarrow> instant \<Rightarrow> string \<Rightarrow> bool" where
  "expired s now k \<longleftrightarrow> (\<exists>l d. hm_get plain k (leases s) = Some (l, d) \<and> d \<le> now)"

lemma prune_freed:
  "hm_wf plain (leases s) \<Longrightarrow> hm_get plain k (leases s) \<noteq> None \<Longrightarrow>
     hm_get plain k (snd (prune_expired (leases s) now)) = None \<longleftrightarrow>
     k \<in> set (fst (prune_expired (leases s) now))"
  by (auto simp: prune_evicted prune_get split: option.splits)

lemma pruner_tick_announces:
  assumes "hm_wf plain (leases s)" and "freed s (pruner_tick now s) k"
  shows "announced s (pruner_tick now s) k"
proof -
  have "k \<in> set (fst (prune_expired (leases s) now))"
    using assms prune_freed [OF assms(1), of k now]
    by (auto simp: freed_def pruner_tick_def prune_expired_now_def notify_lease_evictions_def Let_def
        split: prod.splits if_splits)
  then show ?thesis
    by (auto simp: announced_def pruner_tick_def prune_expired_now_def notify_lease_evictions_def Let_def
        split: prod.splits)
qed

lemma dump_announces:
  "hm_wf plain (leases s) \<Longrightarrow> freed s (snd (dump_store b64 s now)) k \<Longrightarrow>
     announced s (snd (dump_store b64 s now)) k"
  using prune_freed [of s k now]
  by (auto simp: freed_def announced_def dump_store_def list_leases_def notify_lease_evictions_def
      split: prod.splits)

lemma attempt_announces:
  assumes "hm_wf plain (leases s)" and "lease_attempt s n ttl c env = (Some (Inr r), s')"
    and "freed s s' k"
  shows "announced s s' k"
proof -
  obtain ev m where pr: "prune_expired (leases s) (env_prune_now env) = (ev, m)" by fastforce
  have s': "lease_notifier s' = lease_notifier s @ ev"
    and "\<exists>v. leases s' = hm_insert plain n v m"
    using assms(2) pr
    by (auto simp: lease_attempt_def acquire_def notify_lease_evictions_def Let_def
        split: prod.splits sum.splits if_splits StoreError.splits) blast
  then have "hm_get plain k m = None"
    using assms(3) by (auto simp: freed_def hm_simps split: if_splits)
  then have "k \<in> set ev"
    using prune_freed [OF assms(1), of k "env_prune_now env"] assms(3) pr by (auto simp: freed_def)
  then show ?thesis using s' by (auto simp: announced_def)
qed

lemma release_announces:
  assumes "hm_wf plain (leases s)" and "lease_release s lid c now = (Inr (), s')" and "freed s s' k"
  shows "announced s s' k"
proof -
  obtain ev m where pr: "prune_expired (leases s) now = (ev, m)" by fastforce
  obtain n where s': "lease_notifier s' = lease_notifier s @ ev @ [n]"
    and "leases s' = hm_remove plain n m"
    using assms(2) pr
    by (auto simp: lease_release_def release_def notify_lease_evictions_def Let_def
        split: prod.splits sum.splits if_splits option.splits)
  then have "k = n \<or> hm_get plain k m = None"
    using assms(3) by (auto simp: freed_def hm_simps split: if_splits)
  then have "k = n \<or> k \<in> set ev"
    using prune_freed [OF assms(1), of k now] assms(3) pr by (auto simp: freed_def)
  then show ?thesis using s' by (auto simp: announced_def)
qed

lemma release_all_announces:
  assumes wf: "hm_wf plain (leases s)" and "freed s (store_release_all_for_actor s a now) k"
  shows "announced s (store_release_all_for_actor s a now) k"
proof -
  obtain ev m where pr: "prune_expired (leases s) now = (ev, m)" by fastforce
  let ?rm = "map fst (filter (\<lambda>(_, (l, _)). lease_holder l = a) m)"
  have eq: "store_release_all_for_actor s a now =
      notify_lease_evictions (ev @ ?rm) (s\<lparr>leases := hm_remove_all plain ?rm m\<rparr>)"
    by (simp add: store_release_all_for_actor_def release_all_for_actor_def pr Let_def)
  have "hm_get plain k (hm_remove_all plain ?rm m) = None"
    using assms(2) unfolding eq freed_def by (simp add: notify_lease_evictions_def)
  then have "k \<in> set ?rm \<or> hm_get plain k m = None"
    by (simp add: hm_get_remove_all split: if_splits)
  then have "k \<in> set (ev @ ?rm)"
    using prune_freed [OF wf, of k now] assms(2) pr by (auto simp: freed_def)
  then show ?thesis unfolding eq by (auto simp: announced_def notify_lease_evictions_def)
qed

text \<open>
  Calls that succeed announce what they free. Every lease name that the pruner, the cleanup
  hook, the dump, a successful release or a successful acquire removes from the table, whether
  released or expired, is sent on the lease channel by the same call.
\<close>

theorem freed_leases_announced:
  assumes "hm_wf plain (leases s)"
    and "s' = pruner_tick now s \<or> s' = store_release_all_for_actor s a now \<or>
         s' = snd (dump_store b64 s now) \<or> lease_release s lid c now = (Inr (), s') \<or>
         lease_attempt s n ttl c env = (Some (Inr r), s')"
    and "freed s s' k"
  shows "announced s s' k"
  using assms(2)
proof (elim disjE)
  assume "lease_release s lid c now = (Inr (), s')"
  with assms(1,3) show ?thesis by (blast intro: release_announces)
next
  assume "lease_attempt s n ttl c env = (Some (Inr r), s')"
  with assms(1,3) show ?thesis by (blast intro: attempt_announces)
qed (use assms(1,3) in \<open>auto intro: pruner_tick_announces release_all_announces dump_announces\<close>)

theorem freed_leases_announced_witness:
  "announced (new_store\<lparr>leases := [(''db'', (sample_lease, 100))]\<rparr>)
     (pruner_tick 100 (new_store\<lparr>leases := [(''db'', (sample_lease, 100))]\<rparr>)) ''db''"
  by (rule freed_leases_announced [where now = 100])
    (simp_all add: freed_def pruner_tick_def prune_expired_now_def prune_expired_def hm_wf_def
      hm_remove_all_def hm_remove_def notify_lease_evictions_def)

text \<open>
  Calls that fail do not. An acquire that ends in a conflict and a release that is refused
  still prune: an expired lease of any other name leaves the table, nothing is sent on the lease
  channel, and no later tick of the pruner sends the name either. An actor blocked on that name
  is not woken although the lease is free (the comment on \<open>acquire\<close> says the evicted names are
  lifted onto the notifier).
\<close>

theorem evictions_lost_on_error:
  assumes wf: "hm_wf plain (leases s)" and k: "expired s now k"
    and call: "lease_attempt s n ttl c env = (None, s') \<and> env_prune_now env = now \<or>
               lease_release s lid c now = (Inl e, s')"
  shows "freed s s' k \<and> lease_notifier s' = lease_notifier s \<and>
     \<not> announced s' (pruner_tick later s') k"
proof -
  have s': "leases s' = snd (prune_expired (leases s) now)" "lease_notifier s' = lease_notifier s"
    using call
    by (auto simp: lease_attempt_def acquire_def lease_release_def release_def
        notify_lease_evictions_def Let_def
        split: prod.splits sum.splits if_splits option.splits StoreError.splits)
  have gone: "hm_get plain k (leases s') = None"
    using k wf by (auto simp: s' prune_get expired_def split: option.splits)
  then have "k \<notin> set (fst (prune_expired (leases s') later))"
    using prune_evicted [of "leases s'" k later] wf by (simp add: s')
  then have "\<not> announced s' (pruner_tick later s') k"
    by (auto simp: announced_def pruner_tick_def prune_expired_now_def notify_lease_evictions_def Let_def
        split: prod.splits)
  then show ?thesis using gone s' k by (auto simp: freed_def expired_def)
qed

definition wit_leases :: SharedStore where
  "wit_leases = new_store\<lparr>leases := [(''foo'', (sample_lease, 10)), (''bar'', (sample_lease, 100))]\<rparr>"

theorem evictions_lost_on_error_witness:
  "\<exists>s'. lease_attempt wit_leases ''bar'' 5 w1 (sample_env 20 ''id3'') = (None, s') \<and>
     freed wit_leases s' ''foo'' \<and> lease_notifier s' = lease_notifier wit_leases \<and>
     \<not> announced s' (pruner_tick 21 s') ''foo''"
proof -
  let ?s' = "wit_leases\<lparr>leases := [(''bar'', (sample_lease, 100))]\<rparr>"
  have att: "lease_attempt wit_leases ''bar'' 5 w1 (sample_env 20 ''id3'') = (None, ?s')"
    by (simp add: wit_leases_def lease_attempt_def acquire_def prune_expired_def sample_env_def
        hm_remove_all_def hm_remove_def)
  then have call: "lease_attempt wit_leases ''bar'' 5 w1 (sample_env 20 ''id3'') = (None, ?s') \<and>
      env_prune_now (sample_env 20 ''id3'') = 20 \<or>
      lease_release wit_leases ''id3'' w1 20 = (Inl Conflict, ?s')"
    by (simp add: sample_env_def)
  have "hm_wf plain (leases wit_leases)" and "expired wit_leases 20 ''foo''"
    by (simp_all add: wit_leases_def hm_wf_def expired_def)
  from evictions_lost_on_error [OF this call] att show ?thesis by blast
qed

end
