(* ===== verification/F64.thy ===== *)
theory F64
  imports Complex_Main Prelude
begin

text \<open>
  Rust's \<^verbatim>\<open>f64\<close>: IEEE 754 binary64 with round to nearest, ties to even. A value is not-a-number,
  an infinity, or a rational; every operation computes the exact rational result and rounds it to
  53 bits of precision, with the subnormal range below and overflow to infinity above. The two zeros
  are one value, since the sources never divide by a zero or read a sign bit. The lemmas are the ones
  the budget arithmetic needs: rounding is monotone, keeps representable numbers, and so addition of
  non-negative amounts never loses an operand.
\<close>

section \<open>Rounding\<close>

fun log2n :: "nat \<Rightarrow> nat" where
  "log2n n = (if n \<le> 1 then 0 else Suc (log2n (n div 2)))"

declare log2n.simps [simp del]

text \<open>The exponent of the leading bit of a positive rational.\<close>

definition ilog2 :: "rat \<Rightarrow> int" where
  "ilog2 x =
     (case quotient_of x of (p, q) \<Rightarrow>
        let k = int (log2n (nat p)) - int (log2n (nat q))
        in if 2 powi k \<le> x then k else k - 1)"

definition round_even :: "rat \<Rightarrow> int" where
  "round_even y =
     (let f = \<lfloor>y\<rfloor>; d = y - of_int f
      in if d < 1 / 2 \<or> (d = 1 / 2 \<and> even f) then f else f + 1)"

definition ulp_exp :: "rat \<Rightarrow> int" where
  "ulp_exp x = max (ilog2 x - 52) (- 1074)"

definition rn_pos :: "rat \<Rightarrow> rat" where
  "rn_pos x = (if x \<le> 0 then 0 else of_int (round_even (x / 2 powi ulp_exp x)) * 2 powi ulp_exp x)"

definition rn :: "rat \<Rightarrow> rat" where
  "rn x = (if 0 \<le> x then rn_pos x else - rn_pos (- x))"

section \<open>Values and operations\<close>

datatype f64 = NaN | NInf | Fin rat | PInf

definition mk_f64 :: "rat \<Rightarrow> f64" where
  "mk_f64 x = (let r = rn x in if r \<ge> 2 ^ 1024 then PInf else if r \<le> - (2 ^ 1024) then NInf else Fin r)"

fun fadd :: "f64 \<Rightarrow> f64 \<Rightarrow> f64" where
  "fadd NaN y = NaN"
| "fadd x NaN = NaN"
| "fadd PInf NInf = NaN"
| "fadd NInf PInf = NaN"
| "fadd PInf y = PInf"
| "fadd x PInf = PInf"
| "fadd NInf y = NInf"
| "fadd x NInf = NInf"
| "fadd (Fin x) (Fin y) = mk_f64 (x + y)"

fun fneg :: "f64 \<Rightarrow> f64" where
  "fneg NaN = NaN"
| "fneg NInf = PInf"
| "fneg PInf = NInf"
| "fneg (Fin x) = Fin (- x)"

definition fsub :: "f64 \<Rightarrow> f64 \<Rightarrow> f64" where
  "fsub x y = fadd x (fneg y)"

text \<open>The sign of a value: \<open>-1\<close>, \<open>0\<close> or \<open>1\<close>.\<close>

fun fsgn :: "f64 \<Rightarrow> int" where
  "fsgn NaN = 0"
| "fsgn NInf = - 1"
| "fsgn PInf = 1"
| "fsgn (Fin x) = (if x < 0 then - 1 else if x = 0 then 0 else 1)"

definition finf :: "int \<Rightarrow> f64" where
  "finf s = (if s < 0 then NInf else if s = 0 then NaN else PInf)"

fun fmul :: "f64 \<Rightarrow> f64 \<Rightarrow> f64" where
  "fmul NaN y = NaN"
| "fmul x NaN = NaN"
| "fmul (Fin x) (Fin y) = mk_f64 (x * y)"
| "fmul x y = finf (fsgn x * fsgn y)"

text \<open>Division; a zero divisor counts as positive.\<close>

fun fdiv :: "f64 \<Rightarrow> f64 \<Rightarrow> f64" where
  "fdiv NaN y = NaN"
| "fdiv x NaN = NaN"
| "fdiv (Fin x) (Fin y) = (if y = 0 then finf (fsgn (Fin x)) else mk_f64 (x / y))"
| "fdiv (Fin x) y = Fin 0"
| "fdiv x (Fin y) = finf (fsgn x * (if y < 0 then - 1 else 1))"
| "fdiv x y = NaN"

text \<open>\<^verbatim>\<open>n as f64\<close>.\<close>

definition f_of_nat :: "nat \<Rightarrow> f64" where
  "f_of_nat n = mk_f64 (of_nat n)"

fun f_le :: "f64 \<Rightarrow> f64 \<Rightarrow> bool" where
  "f_le NaN y = False"
| "f_le x NaN = False"
| "f_le NInf y = True"
| "f_le x PInf = True"
| "f_le (Fin x) (Fin y) = (x \<le> y)"
| "f_le x y = False"

fun f_gt :: "f64 \<Rightarrow> f64 \<Rightarrow> bool" where
  "f_gt NaN y = False"
| "f_gt x NaN = False"
| "f_gt NInf y = False"
| "f_gt x PInf = False"
| "f_gt (Fin x) (Fin y) = (x > y)"
| "f_gt x y = True"

text \<open>\<^verbatim>\<open>f64::max\<close> returns the other argument when one is not a number.\<close>

definition fmax :: "f64 \<Rightarrow> f64 \<Rightarrow> f64" where
  "fmax x y = (if x = NaN then y else if y = NaN then x else if f_gt y x then y else x)"

section \<open>Lemmas: rounding\<close>

lemma log2n_bounds: "0 < n \<Longrightarrow> 2 ^ log2n n \<le> n \<and> n < 2 ^ Suc (log2n n)"
proof (induction n rule: log2n.induct)
  case (1 n)
  show ?case
  proof (cases "n \<le> 1")
    case True
    then show ?thesis using "1.prems" by (simp add: log2n.simps [of n])
  next
    case False
    then have "2 ^ log2n (n div 2) \<le> n div 2 \<and> n div 2 < 2 ^ Suc (log2n (n div 2))"
      using "1.IH" by simp
    then show ?thesis using False by (auto simp: log2n.simps [of n])
  qed
qed

lemma log2n_bounds_rat:
  assumes "0 < p"
  shows "2 powi int (log2n (nat p)) \<le> (of_int p :: rat)" "(of_int p :: rat) < 2 powi (int (log2n (nat p)) + 1)"
proof -
  have b: "2 ^ log2n (nat p) \<le> nat p" "nat p < 2 ^ Suc (log2n (nat p))"
    using log2n_bounds [of "nat p"] assms by auto
  have p: "(of_int p :: rat) = of_nat (nat p)" using assms by simp
  show "2 powi int (log2n (nat p)) \<le> (of_int p :: rat)"
    unfolding p using b(1) by (metis of_nat_le_iff of_nat_numeral of_nat_power power_int_of_nat)
  have "int (log2n (nat p)) + 1 = int (Suc (log2n (nat p)))" by simp
  then show "(of_int p :: rat) < 2 powi (int (log2n (nat p)) + 1)"
    unfolding p using b(2) by (metis of_nat_less_iff of_nat_numeral of_nat_power power_int_of_nat)
qed

lemma ilog2_bounds:
  assumes "0 < x"
  shows "2 powi ilog2 x \<le> x \<and> x < 2 powi (ilog2 x + 1)"
proof -
  obtain p q where pq: "quotient_of x = (p, q)" by fastforce
  have q: "0 < q" using quotient_of_denom_pos [OF pq] .
  have x: "x = of_int p / of_int q" using quotient_of_div [OF pq] .
  have p: "0 < p" using assms q x by (simp add: zero_less_divide_iff)
  define a b where "a = int (log2n (nat p))" and "b = int (log2n (nat q))"
  note P = log2n_bounds_rat [OF p, folded a_def] and Q = log2n_bounds_rat [OF q, folded b_def]
  have "x < 2 powi (a + 1) / 2 powi b"
    unfolding x using P Q p q by (intro frac_less) auto
  then have hi: "x < 2 powi (a - b + 1)"
    by (simp add: power_int_diff power_int_add)
  have "2 powi a / 2 powi (b + 1) < x"
    unfolding x using P Q p q by (intro frac_less2) auto
  then have lo: "2 powi (a - b - 1) < x"
    by (simp add: power_int_diff power_int_add)
  show ?thesis
    unfolding ilog2_def pq using hi lo by (auto simp: Let_def a_def b_def)
qed

lemma powi_less_iff: "(2 :: rat) powi a < 2 powi b \<longleftrightarrow> a < b"
  using power_int_increasing [of b a "2 :: rat"] power_int_strict_increasing [of a b "2 :: rat"] by (auto simp: not_less [symmetric])

lemma ilog2_unique: "2 powi k \<le> x \<Longrightarrow> x < 2 powi (k + 1) \<Longrightarrow> ilog2 x = k"
proof -
  assume a: "2 powi k \<le> x" "x < (2 :: rat) powi (k + 1)"
  have x: "0 < x" using a(1) by (meson less_le_trans zero_less_numeral zero_less_power_int)
  note b = ilog2_bounds [OF x]
  have "(2 :: rat) powi k < 2 powi (ilog2 x + 1)" "(2 :: rat) powi ilog2 x < 2 powi (k + 1)"
    using a b by linarith+
  then show ?thesis by (simp add: powi_less_iff)
qed

lemma ilog2_mono: "0 < x \<Longrightarrow> x \<le> y \<Longrightarrow> ilog2 x \<le> ilog2 y"
proof -
  assume a: "0 < x" "x \<le> y"
  have "(2 :: rat) powi ilog2 x < 2 powi (ilog2 y + 1)"
    using ilog2_bounds [of x] ilog2_bounds [of y] a by linarith
  then show ?thesis by (simp add: powi_less_iff)
qed

lemma round_even_int [simp]: "round_even (of_int n) = n"
  by (simp add: round_even_def)

lemma round_even_mono: "y \<le> z \<Longrightarrow> round_even y \<le> round_even z"
proof -
  assume a: "y \<le> z"
  have f: "\<lfloor>y\<rfloor> \<le> \<lfloor>z\<rfloor>" using a by (rule floor_mono)
  show ?thesis
  proof (cases "\<lfloor>y\<rfloor> = \<lfloor>z\<rfloor>")
    case True
    then show ?thesis using a by (auto simp: round_even_def Let_def)
  next
    case False
    then have "\<lfloor>y\<rfloor> + 1 \<le> \<lfloor>z\<rfloor>" using f by simp
    then show ?thesis by (auto simp: round_even_def Let_def)
  qed
qed

text \<open>A multiple of a power of two at least as coarse as the unit in the last place is kept.\<close>

lemma powi_int: "0 \<le> j \<Longrightarrow> (2 :: rat) powi j = of_int (2 ^ nat j)"
  by (simp add: power_int_def)

lemma multiple_of_ulp:
  assumes "u \<le> j"
  shows "\<exists>n. of_int m * 2 powi j / (2 :: rat) powi u = of_int n"
proof (intro exI)
  have "of_int m * 2 powi j / (2 :: rat) powi u = of_int m * 2 powi (j - u)"
    by (simp add: power_int_diff)
  then show "of_int m * 2 powi j / (2 :: rat) powi u = of_int (m * 2 ^ nat (j - u))"
    using powi_int [of "j - u"] assms by simp
qed

lemma ulp_exp_mono: "0 < x \<Longrightarrow> x \<le> y \<Longrightarrow> ulp_exp x \<le> ulp_exp y"
  using ilog2_mono [of x y] by (simp add: ulp_exp_def)

lemma rn_pos_nonneg: "0 \<le> rn_pos x"
proof -
  have "0 \<le> round_even y" if "0 \<le> y" for y
    using round_even_mono [of 0 y] round_even_int [of 0] that by simp
  then show ?thesis by (simp add: rn_pos_def)
qed

lemma rn_pos_grid_le:
  assumes "0 < x" and "x \<le> of_int m * 2 powi j" and "ulp_exp x \<le> j"
  shows "rn_pos x \<le> of_int m * 2 powi j"
proof -
  let ?u = "ulp_exp x"
  obtain n where n: "of_int m * 2 powi j / (2 :: rat) powi ?u = of_int n"
    using multiple_of_ulp [OF assms(3)] by blast
  have "x / 2 powi ?u \<le> of_int n" using assms(2) n [symmetric] by (simp add: divide_right_mono)
  then have "round_even (x / 2 powi ?u) \<le> n"
    using round_even_mono [of "x / 2 powi ?u" "of_int n"] by simp
  then have "of_int (round_even (x / 2 powi ?u)) * 2 powi ?u \<le> (of_int n :: rat) * 2 powi ?u"
    by (intro mult_right_mono) simp_all
  also have "\<dots> = of_int m * 2 powi j" using n by (simp add: field_simps)
  finally show ?thesis using assms(1) by (simp add: rn_pos_def)
qed

lemma rn_pos_grid_ge:
  assumes "0 < x" and "of_int m * 2 powi j \<le> x" and "ulp_exp x \<le> j"
  shows "of_int m * 2 powi j \<le> rn_pos x"
proof -
  let ?u = "ulp_exp x"
  obtain n where n: "of_int m * 2 powi j / (2 :: rat) powi ?u = of_int n"
    using multiple_of_ulp [OF assms(3)] by blast
  have "of_int n \<le> x / 2 powi ?u" using assms(2) n [symmetric] by (simp add: divide_right_mono)
  then have "n \<le> round_even (x / 2 powi ?u)"
    using round_even_mono [of "of_int n" "x / 2 powi ?u"] by simp
  then have "(of_int n :: rat) * 2 powi ?u \<le> of_int (round_even (x / 2 powi ?u)) * 2 powi ?u"
    by (intro mult_right_mono) simp_all
  moreover have "(of_int n :: rat) * 2 powi ?u = of_int m * 2 powi j" using n by (simp add: field_simps)
  ultimately show ?thesis using assms(1) by (simp add: rn_pos_def)
qed

lemma rn_pos_exact: "0 < x \<Longrightarrow> x = of_int m * 2 powi j \<Longrightarrow> ulp_exp x \<le> j \<Longrightarrow> rn_pos x = x"
  using rn_pos_grid_le [of x m j] rn_pos_grid_ge [of x m j] by auto

lemma rn_pos_mono:
  assumes "0 < x" and "x \<le> y"
  shows "rn_pos x \<le> rn_pos y"
proof (cases "ulp_exp x = ulp_exp y")
  case True
  have "x / 2 powi ulp_exp y \<le> y / 2 powi ulp_exp y" using assms by (simp add: divide_right_mono)
  then show ?thesis using assms True round_even_mono by (simp add: rn_pos_def)
next
  case False
  then have lt: "ulp_exp x < ulp_exp y" using ulp_exp_mono [OF assms] by simp
  then have e: "ilog2 x < ilog2 y" "ulp_exp y = ilog2 y - 52" by (auto simp: ulp_exp_def max_def split: if_splits)
  have "x < 2 powi (ilog2 x + 1)" using ilog2_bounds assms by simp
  also have "(2 :: rat) powi (ilog2 x + 1) \<le> 2 powi ilog2 y" using e(1) by (intro power_int_increasing) auto
  finally have "x \<le> of_int 1 * 2 powi ilog2 y" by simp
  then have "rn_pos x \<le> of_int 1 * 2 powi ilog2 y" using lt e assms by (intro rn_pos_grid_le) auto
  also have "\<dots> \<le> rn_pos y" using ilog2_bounds [of y] assms e(2) by (intro rn_pos_grid_ge) auto
  finally show ?thesis .
qed

lemma rn_mono: "x \<le> y \<Longrightarrow> rn x \<le> rn y"
proof -
  assume a: "x \<le> y"
  consider "0 < x" | "x \<le> 0" "0 \<le> y" | "y < 0" using a by linarith
  then show ?thesis
  proof cases
    case 1
    then show ?thesis using rn_pos_mono [of x y] a by (simp add: rn_def)
  next
    case 2
    then show ?thesis using rn_pos_nonneg [of y] rn_pos_nonneg [of "- x"]
      by (cases "x = 0") (auto simp: rn_def rn_pos_def [of 0])
  next
    case 3
    then show ?thesis using rn_pos_mono [of "- y" "- x"] a by (simp add: rn_def)
  qed
qed

lemma rn_0 [simp]: "rn 0 = 0"
  by (simp add: rn_def rn_pos_def)

lemma rn_nonneg: "0 \<le> x \<Longrightarrow> 0 \<le> rn x"
  using rn_mono [of 0 x] by simp

lemma rn_pos_idem: "rn_pos (rn_pos x) = rn_pos x"
proof (cases "0 < x \<and> rn_pos x \<noteq> 0")
  case False
  then show ?thesis by (auto simp: rn_pos_def)
next
  case True
  let ?u = "ulp_exp x" let ?m = "round_even (x / 2 powi ?u)"
  have r: "rn_pos x = of_int ?m * 2 powi ?u" using True by (simp add: rn_pos_def)
  have pos: "0 < rn_pos x" using True rn_pos_nonneg [of x] by simp
  have "x < 2 powi (ilog2 x + 1)" using ilog2_bounds True by simp
  also have "(2 :: rat) powi (ilog2 x + 1) \<le> 2 powi (?u + 53)"
    by (intro power_int_increasing) (auto simp: ulp_exp_def)
  finally have "rn_pos x \<le> of_int 1 * 2 powi (?u + 53)" using True by (intro rn_pos_grid_le) auto
  then consider "rn_pos x < 2 powi (?u + 53)" | "rn_pos x = 2 powi (?u + 53)" by fastforce
  then show ?thesis
  proof cases
    case 1
    then have "(2 :: rat) powi ilog2 (rn_pos x) < 2 powi (?u + 53)" using ilog2_bounds [OF pos] by linarith
    then have "ilog2 (rn_pos x) < ?u + 53" by (simp add: powi_less_iff)
    then have "ulp_exp (rn_pos x) \<le> ?u" by (auto simp: ulp_exp_def)
    then show ?thesis using rn_pos_exact [OF pos r] by simp
  next
    case 2
    have "ilog2 (rn_pos x) = ?u + 53" unfolding 2 by (rule ilog2_unique) (simp_all add: power_int_add)
    then have "ulp_exp (rn_pos x) \<le> ?u + 53" by (auto simp: ulp_exp_def)
    then show ?thesis using rn_pos_exact [OF pos, of 1 "?u + 53"] 2 by simp
  qed
qed

lemma rn_idem [simp]: "rn (rn x) = rn x"
proof (cases "0 \<le> x")
  case True
  then show ?thesis using rn_pos_nonneg [of x] rn_pos_idem [of x] by (simp add: rn_def)
next
  case False
  then have "rn x = - rn_pos (- x)" by (simp add: rn_def)
  then show ?thesis using rn_pos_nonneg [of "- x"] rn_pos_idem [of "- x"]
    by (cases "rn_pos (- x) = 0") (simp_all add: rn_def)
qed

section \<open>Lemmas: operations\<close>

text \<open>Non-negative and not NaN; a value the format has.\<close>

definition fnn :: "f64 \<Rightarrow> bool" where
  "fnn x \<longleftrightarrow> f_le (Fin 0) x"

definition frepr :: "f64 \<Rightarrow> bool" where
  "frepr x \<longleftrightarrow> (case x of Fin r \<Rightarrow> rn r = r \<and> r < 2 ^ 1024 \<and> - (2 ^ 1024) < r | _ \<Rightarrow> True)"

lemma fnn_simps [simp]: "fnn (Fin r) \<longleftrightarrow> 0 \<le> r" "fnn PInf" "\<not> fnn NaN" "\<not> fnn NInf"
  by (simp_all add: fnn_def)

lemma frepr_mk: "frepr (mk_f64 x)"
  by (auto simp: frepr_def mk_f64_def Let_def)

lemma frepr_fadd: "frepr x \<Longrightarrow> frepr y \<Longrightarrow> frepr (fadd x y)"
  by (cases x; cases y; simp add: frepr_mk; simp add: frepr_def)

lemma frepr_zero [simp]: "frepr (Fin 0)"
  by (simp add: frepr_def)

lemma mk_f64_mono: "x \<le> y \<Longrightarrow> f_le (mk_f64 x) (mk_f64 y)"
  using rn_mono [of x y] by (auto simp: mk_f64_def Let_def)

lemma mk_f64_nn: "0 \<le> x \<Longrightarrow> fnn (mk_f64 x)"
proof -
  assume "0 \<le> x"
  then have "0 \<le> rn x" by (rule rn_nonneg)
  moreover have "(- (2 ^ 1024) :: rat) < 0" by simp
  ultimately show ?thesis by (simp add: mk_f64_def Let_def)
qed

lemma mk_f64_repr: "frepr (Fin x) \<Longrightarrow> mk_f64 x = Fin x"
  by (simp add: frepr_def mk_f64_def)

lemma f_le_trans: "f_le x y \<Longrightarrow> f_le y z \<Longrightarrow> f_le x z"
  by (cases x; cases y; cases z) auto

lemma f_le_refl: "x \<noteq> NaN \<Longrightarrow> f_le x x"
  by (cases x) auto

lemma not_gt_le: "\<not> f_gt x y \<Longrightarrow> x \<noteq> NaN \<Longrightarrow> y \<noteq> NaN \<Longrightarrow> f_le x y"
  by (cases x; cases y) auto

lemma fnn_not_NaN: "fnn x \<Longrightarrow> x \<noteq> NaN"
  by auto

lemma fadd_nn: "fnn x \<Longrightarrow> fnn y \<Longrightarrow> fnn (fadd x y)"
  by (cases x; cases y) (auto intro: mk_f64_nn)

lemma fmul_nn_pos: "fnn x \<Longrightarrow> 0 < y \<Longrightarrow> fnn (fmul x (Fin y))"
  by (cases x) (auto simp: mk_f64_nn finf_def)

lemma fdiv_nn: "fnn x \<Longrightarrow> 0 < y \<Longrightarrow> fnn (fdiv x (Fin y))"
  by (cases x) (auto simp: mk_f64_nn finf_def)

lemma f_of_nat_nn: "fnn (f_of_nat n)"
  by (simp add: f_of_nat_def mk_f64_nn)

lemma fadd_mono: "fnn x \<Longrightarrow> f_le x x' \<Longrightarrow> fnn y \<Longrightarrow> f_le (fadd x y) (fadd x' y)"
  by (cases x; cases x'; cases y; auto intro!: mk_f64_mono simp: f_le_refl; simp add: mk_f64_def Let_def)

lemma fadd_ge_right: "fnn x \<Longrightarrow> fnn y \<Longrightarrow> frepr y \<Longrightarrow> f_le y (fadd x y)"
proof (cases x; cases y)
  fix a b
  assume "fnn x" "fnn y" "frepr y" "x = Fin a" "y = Fin b"
  then show ?thesis using mk_f64_mono [of b "a + b"] mk_f64_repr [of b] by simp
qed auto

lemma fadd_ge_left: "fnn x \<Longrightarrow> fnn y \<Longrightarrow> frepr x \<Longrightarrow> f_le x (fadd x y)"
proof (cases x; cases y)
  fix a b
  assume "fnn x" "fnn y" "frepr x" "x = Fin a" "y = Fin b"
  then show ?thesis using mk_f64_mono [of a "a + b"] mk_f64_repr [of a] by simp
qed auto

text \<open>Giving back a non-negative amount, floored at zero, never raises the counter.\<close>

lemma release_le:
  assumes "fnn r" and "fnn a" and "frepr r"
  shows "f_le (fmax (fsub r a) (Fin 0)) r" and "fnn (fmax (fsub r a) (Fin 0))"
proof -
  have "f_le (fmax (fsub r a) (Fin 0)) r \<and> fnn (fmax (fsub r a) (Fin 0))"
  proof (cases r; cases a)
    fix x y
    assume xy: "r = Fin x" "a = Fin y"
    have "f_le (mk_f64 (x - y)) (Fin x)"
      using mk_f64_mono [of "x - y" x] mk_f64_repr [of x] assms xy by simp
    then show ?thesis using xy assms
      by (cases "mk_f64 (x - y)") (auto simp: fsub_def fmax_def)
  qed (use assms in \<open>auto simp: fsub_def fmax_def\<close>)
  then show "f_le (fmax (fsub r a) (Fin 0)) r" "fnn (fmax (fsub r a) (Fin 0))" by auto
qed

lemma frepr_release: "frepr r \<Longrightarrow> frepr a \<Longrightarrow> frepr (fmax (fsub r a) (Fin 0))"
proof -
  assume r: "frepr r" "frepr a"
  have "rn (- x) = - rn x" for x by (cases "x = 0") (auto simp: rn_def rn_pos_def [of 0])
  then have "frepr (fneg a)" using r(2) by (cases a) (auto simp: frepr_def)
  then show ?thesis using frepr_fadd [OF r(1)] by (auto simp: fmax_def fsub_def)
qed

end
