(* ===== verification/Manifest_Types.thy ===== *)
theory Manifest_Types
  imports F64
begin

text \<open>
  The resolved manifest (\<^verbatim>\<open>manifest/resolve.rs\<close>, \<^verbatim>\<open>manifest/schema.rs\<close>,
  \<^verbatim>\<open>notify/config.rs\<close>): the structs and enums that validation, profile enforcement and the
  dispatcher read, with the sources' field names behind a short prefix. Paths and UTF-8 strings are
  \<^typ>\<open>string\<close>, one \<^typ>\<open>char\<close> per byte; hash maps are association lists as in the prelude.
\<close>

section \<open>Enumerations\<close>

datatype PermissionRouting = PathA | PathB
datatype CommunicationMode = CommDisabled | ParentChild
datatype UntypedActorPolicy = UntypedBridge | UntypedBlock
datatype WorktreeCleanup = WtAlways | WtOnSuccess | WtNever
datatype Effort = Low | Medium | High | Xhigh | Max
datatype ApprovalPolicy = PolicyBlock | PolicyAutoApprove | PolicyAutoReject
datatype DenialTerminationPolicy = Adapt | Reclassify
datatype ApprovalCategory = ToolUse | PlanCategory | CostCategory | OtherCategory
datatype ApprovalAction = AutoApprove | AutoReject | Block
datatype SinkKind = SinkLog | SinkWebhook | SinkSlack | SinkDiscord
datatype Severity = SevInfo | SevWarning | SevError | SevCritical

section \<open>Profiles, servers, sinks\<close>

record McpServerSpec =
  mcp_id :: string
  mcp_command :: string
  mcp_args :: "string list"
  mcp_env :: "(string \<times> string) list"
  mcp_scope :: "string option"
  mcp_tools :: "string list option"

record WorkerType =
  wt_id :: string
  wt_tools :: "string list"
  wt_allowed_models :: "string list"
  wt_max_timeout_secs :: "u64 option"
  wt_agent_profile :: "string option"

record SubleadType =
  st_id :: string
  st_tools :: "string list"
  st_allowed_models :: "string list"
  st_max_timeout_secs :: "u64 option"
  st_max_budget_usd :: "f64 option"
  st_agent_profile :: "string option"

record AgentProfile =
  ap_id :: string
  ap_system_prompt :: string
  ap_model :: "string option"
  ap_env :: "(string \<times> string) list"
  ap_tools :: "string list option"

record NotificationConfig =
  nc_kind :: SinkKind
  nc_url :: "string option"
  nc_events :: "string list option"
  nc_severity_min :: Severity
  nc_request_timeout_secs :: "u64 option"

record Lifecycle =
  survive_parent :: bool
  lifecycle_notify :: "NotificationConfig option"

record MountSpec =
  mount_host :: string
  mount_container :: string
  mount_readonly :: bool

record CopySpec =
  copy_host :: string
  copy_container :: string

record ContainerConfig =
  cc_image :: "string option"
  cc_runtime :: "string option"
  cc_extra_args :: "string list"
  cc_extra_apt :: "string list"
  cc_mounts :: "MountSpec list"
  cc_copy :: "CopySpec list"
  cc_workdir :: "string option"
  cc_claude_mount_rw :: bool

record CommunicationConfig =
  comm_mode :: CommunicationMode
  max_message_bytes :: u64
  max_artifact_bytes :: u64
  max_artifacts_per_actor :: u32

section \<open>Approval rules\<close>

record ApprovalMatch =
  am_actor :: "string option"
  am_category :: "ApprovalCategory option"
  am_tool_name :: "string option"
  am_cost_over :: "f64 option"

record ApprovalRule =
  rule_match :: ApprovalMatch
  rule_action :: ApprovalAction

section \<open>Tasks, lead, manifest\<close>

record ResolvedTask =
  task_id :: string
  task_directory :: string
  task_prompt :: string
  task_branch :: "string option"
  task_model :: string
  task_effort :: Effort
  task_tools :: "string list"
  task_timeout_secs :: u64
  task_use_worktree :: bool
  task_env :: "(string \<times> string) list"
  task_resume_session_id :: "string option"

record ResolvedSubleadDefaults =
  sd_budget_usd :: "f64 option"
  sd_lead_budget_usd :: "f64 option"
  sd_max_workers :: "u32 option"
  sd_lead_timeout_secs :: "u64 option"
  sd_read_down :: bool

record ResolvedLead =
  rl_id :: string
  rl_directory :: string
  rl_prompt :: string
  rl_branch :: "string option"
  rl_model :: string
  rl_effort :: Effort
  rl_tools :: "string list"
  rl_timeout_secs :: u64
  rl_use_worktree :: bool
  rl_env :: "(string \<times> string) list"
  rl_resume_session_id :: "string option"
  rl_permission_routing :: PermissionRouting
  allow_subleads :: bool
  max_subleads :: "u32 option"
  max_sublead_budget_usd :: "f64 option"
  max_total_workers :: "u32 option"
  sublead_defaults :: "ResolvedSubleadDefaults option"

record ResolvedManifest =
  manifest_schema_version :: u32
  manifest_name :: "string option"
  max_parallel_tasks :: "u32 option"
  halt_on_failure :: bool
  run_dir :: string
  worktree_cleanup :: WorktreeCleanup
  emit_event_stream :: bool
  resource_sample_secs :: u64
  claude_setting_sources :: "string option"
  tasks :: "ResolvedTask list"
  lead :: "ResolvedLead option"
  max_workers :: "u32 option"
  budget_usd :: "f64 option"
  lead_budget_usd :: "f64 option"
  lead_timeout_secs :: "u64 option"
  default_approval_policy :: "ApprovalPolicy option"
  denial_termination_policy :: "DenialTerminationPolicy option"
  notifications :: "NotificationConfig list"
  dump_shared_store :: bool
  require_plan_approval :: bool
  approval_rules :: "ApprovalRule list"
  container :: "ContainerConfig option"
  mcp_servers :: "McpServerSpec list"
  communication :: CommunicationConfig
  lifecycle :: "Lifecycle option"
  worker_types :: "WorkerType list"
  sublead_types :: "SubleadType list"
  require_actor_type :: bool
  untyped_actor_policy :: UntypedActorPolicy
  agent_profiles :: "(string \<times> AgentProfile) list"


text \<open>A manifest with nothing set, on which the examples build.\<close>

definition base_manifest :: ResolvedManifest where
  "base_manifest =
     \<lparr>manifest_schema_version = 1, manifest_name = None, max_parallel_tasks = None,
      halt_on_failure = False, run_dir = ''/runs'', worktree_cleanup = WtOnSuccess,
      emit_event_stream = False, resource_sample_secs = 5, claude_setting_sources = None, tasks = [],
      lead = None, max_workers = None, budget_usd = None, lead_budget_usd = None,
      lead_timeout_secs = None, default_approval_policy = None, denial_termination_policy = None,
      notifications = [], dump_shared_store = False, require_plan_approval = False,
      approval_rules = [], container = None, mcp_servers = [],
      communication = \<lparr>comm_mode = CommDisabled, max_message_bytes = 8192,
        max_artifact_bytes = 1048576, max_artifacts_per_actor = 64\<rparr>,
      lifecycle = None, worker_types = [], sublead_types = [], require_actor_type = False,
      untyped_actor_policy = UntypedBridge, agent_profiles = []\<rparr>"

definition base_lead :: ResolvedLead where
  "base_lead =
     \<lparr>rl_id = ''lead'', rl_directory = ''/repo'', rl_prompt = ''do'', rl_branch = None,
      rl_model = ''claude-sonnet-4-6'', rl_effort = High, rl_tools = [''Read''],
      rl_timeout_secs = 3600, rl_use_worktree = True, rl_env = [], rl_resume_session_id = None,
      rl_permission_routing = PathB, allow_subleads = False, max_subleads = None,
      max_sublead_budget_usd = None, max_total_workers = None, sublead_defaults = None\<rparr>"

end
