(* ===== verification/Policy.thy ===== *)
theory Policy
  imports Manifest_Types
begin

text \<open>
  The operator-declared approval policy (\<^verbatim>\<open>mcp/policy.rs\<close>): rules over the fixed fields of a
  pending approval, applied in declaration order, first match wins. The record of a pending approval
  is the one of \<^verbatim>\<open>dispatch/state.rs\<close>; actor paths are those of
  \<^verbatim>\<open>pitboss-core/src/control_protocol.rs\<close>. The \<^verbatim>\<open>glob\<close> crate is a parameter: compiling a
  pattern fails (\<open>None\<close>) or gives the predicate \<^verbatim>\<open>Pattern::matches\<close>.
\<close>

section \<open>Actor paths and pending approvals\<close>

type_synonym ActorPath = "string list"

definition path_arrow :: string where
  "path_arrow = [CHR 0xE2, CHR 0x86, CHR 0x92]"

definition actor_path_to_string :: "ActorPath \<Rightarrow> string" where
  "actor_path_to_string p = join_str path_arrow p"

datatype ApprovalFallback = FallbackAutoReject | FallbackAutoApprove | FallbackBlock

record ApprovalPlan =
  plan_summary :: string
  plan_rationale :: "string option"
  plan_resources :: "string list"
  plan_risks :: "string list"
  plan_rollback :: "string option"

record PendingApproval =
  pa_id :: string
  requesting_actor_id :: string
  pa_actor_path :: ActorPath
  pa_category :: ApprovalCategory
  pa_summary :: string
  pa_plan :: "ApprovalPlan option"
  pa_blocks :: "string list"
  pa_created_at :: int
  pa_ttl_secs :: u64
  pa_fallback :: ApprovalFallback

section \<open>The matcher\<close>

type_synonym glob_new = "string \<Rightarrow> (string \<Rightarrow> bool) option"

record PolicyMatcher =
  matcher_rules :: "ApprovalRule list"

definition rule_matches ::
  "glob_new \<Rightarrow> ApprovalMatch \<Rightarrow> PendingApproval \<Rightarrow> string option \<Rightarrow> f64 option \<Rightarrow> bool" where
  "rule_matches glob m approval tool_name cost =
     (if (case am_actor m of Some want \<Rightarrow> actor_path_to_string (pa_actor_path approval) \<noteq> want
          | None \<Rightarrow> False)
      then False
      else if (case am_category m of Some want \<Rightarrow> pa_category approval \<noteq> want | None \<Rightarrow> False)
      then False
      else if (case am_tool_name m of
                 Some want \<Rightarrow>
                   (case tool_name of
                      None \<Rightarrow> True
                    | Some actual \<Rightarrow>
                        (case glob want of
                           Some pat_matches \<Rightarrow> \<not> pat_matches actual
                         | None \<Rightarrow> actual \<noteq> want))
               | None \<Rightarrow> False)
      then False
      else if (case am_cost_over m of
                 Some threshold \<Rightarrow>
                   (case cost of Some actual \<Rightarrow> \<not> f_gt actual threshold | None \<Rightarrow> True)
               | None \<Rightarrow> False)
      then False
      else True)"

fun evaluate_rules ::
  "glob_new \<Rightarrow> ApprovalRule list \<Rightarrow> PendingApproval \<Rightarrow> string option \<Rightarrow> f64 option \<Rightarrow>
     ApprovalAction option" where
  "evaluate_rules glob [] approval tool_name cost = None"
| "evaluate_rules glob (rule # rules) approval tool_name cost =
     (if rule_matches glob (rule_match rule) approval tool_name cost
      then Some (rule_action rule)
      else evaluate_rules glob rules approval tool_name cost)"

definition policy_evaluate ::
  "glob_new \<Rightarrow> PolicyMatcher \<Rightarrow> PendingApproval \<Rightarrow> string option \<Rightarrow> f64 option \<Rightarrow>
     ApprovalAction option" where
  "policy_evaluate glob matcher approval tool_name cost =
     evaluate_rules glob (matcher_rules matcher) approval tool_name cost"

section \<open>First match wins\<close>

lemma evaluate_rules_hit:
  assumes "\<forall>x\<in>set xs. \<not> rule_matches glob (rule_match x) a t c"
  shows "evaluate_rules glob (xs @ ys) a t c = evaluate_rules glob ys a t c"
  using assms by (induction xs) auto

lemma evaluate_rules_Some:
  "evaluate_rules glob rules a t c = Some act \<longleftrightarrow>
     (\<exists>xs r ys. rules = xs @ r # ys \<and> rule_matches glob (rule_match r) a t c \<and> rule_action r = act \<and>
        (\<forall>x\<in>set xs. \<not> rule_matches glob (rule_match x) a t c))"
  (is "?L \<longleftrightarrow> ?R")
proof
  assume ?L
  then have "\<exists>x\<in>set rules. rule_matches glob (rule_match x) a t c"
    by (induction rules) (auto split: if_splits)
  then obtain xs r ys where r: "rules = xs @ r # ys" "rule_matches glob (rule_match r) a t c"
    "\<forall>x\<in>set xs. \<not> rule_matches glob (rule_match x) a t c"
    using split_list_first_prop [of rules "\<lambda>x. rule_matches glob (rule_match x) a t c"] by auto
  moreover have "rule_action r = act" using \<open>?L\<close> r(1,2) evaluate_rules_hit [OF r(3), of "r # ys"] by simp
  ultimately show ?R by blast
next
  assume ?R
  then obtain xs r ys where "rules = xs @ r # ys" "rule_matches glob (rule_match r) a t c"
    "rule_action r = act" and xs: "\<forall>x\<in>set xs. \<not> rule_matches glob (rule_match x) a t c"
    by blast
  then show ?L using evaluate_rules_hit [OF xs, of "r # ys"] by simp
qed

lemma evaluate_rules_None:
  "evaluate_rules glob rules a t c = None \<longleftrightarrow>
     (\<forall>x\<in>set rules. \<not> rule_matches glob (rule_match x) a t c)"
  by (induction rules) auto

lemma f_gt_trans: "f_gt x y \<Longrightarrow> f_gt z x \<Longrightarrow> f_gt z y"
  by (cases x; cases y; cases z) auto

lemma f_gt_NaN [simp]: "\<not> f_gt x NaN"
  by (cases x) auto

text \<open>
  The policy returns the action of the first rule, in declaration order, all of whose clauses
  match, and no action exactly when no rule matches. A rule with a cost clause never matches a call
  that gives no cost or when its threshold is NaN, and whenever it matches it still matches the same
  call at any higher cost.
\<close>

theorem policy_first_match:
  "(policy_evaluate glob m a t c = Some act \<longleftrightarrow>
      (\<exists>xs r ys. matcher_rules m = xs @ r # ys \<and> rule_matches glob (rule_match r) a t c \<and>
         rule_action r = act \<and> (\<forall>x\<in>set xs. \<not> rule_matches glob (rule_match x) a t c))) \<and>
   (policy_evaluate glob m a t c = None \<longleftrightarrow>
      (\<forall>x\<in>set (matcher_rules m). \<not> rule_matches glob (rule_match x) a t c)) \<and>
   (\<forall>k threshold. am_cost_over k = Some threshold \<longrightarrow>
      \<not> rule_matches glob k a t None \<and> (threshold = NaN \<longrightarrow> \<not> rule_matches glob k a t c) \<and>
      (\<forall>x y. rule_matches glob k a t (Some x) \<longrightarrow> f_gt y x \<longrightarrow> rule_matches glob k a t (Some y)))"
proof (intro conjI allI impI)
  fix k :: ApprovalMatch and threshold :: f64
  assume k: "am_cost_over k = Some threshold"
  show "\<not> rule_matches glob k a t None" "threshold = NaN \<Longrightarrow> \<not> rule_matches glob k a t c"
    using k by (auto simp: rule_matches_def split: option.splits)
  fix x y
  assume "rule_matches glob k a t (Some x)" "f_gt y x"
  then show "rule_matches glob k a t (Some y)"
    using k f_gt_trans [of x threshold y] by (simp add: rule_matches_def split: if_splits)
qed (simp_all only: policy_evaluate_def evaluate_rules_Some evaluate_rules_None)

text \<open>A glob engine with only literal patterns, and two rules on which the order matters.\<close>

definition literal_glob :: glob_new where
  "literal_glob pat = Some (\<lambda>s. s = pat)"

definition bash_rules :: PolicyMatcher where
  "bash_rules = \<lparr>matcher_rules =
     [\<lparr>rule_match = \<lparr>am_actor = None, am_category = None, am_tool_name = Some ''Bash'',
        am_cost_over = None\<rparr>, rule_action = AutoReject\<rparr>,
      \<lparr>rule_match = \<lparr>am_actor = Some (''root'' @ path_arrow @ ''S1''), am_category = Some ToolUse,
        am_tool_name = None, am_cost_over = Some (Fin 1)\<rparr>, rule_action = AutoApprove\<rparr>]\<rparr>"

definition s1_approval :: PendingApproval where
  "s1_approval = \<lparr>pa_id = ''0'', requesting_actor_id = ''S1'', pa_actor_path = [''root'', ''S1''],
     pa_category = ToolUse, pa_summary = [], pa_plan = None, pa_blocks = [''S1''], pa_created_at = 0,
     pa_ttl_secs = 3600, pa_fallback = FallbackAutoReject\<rparr>"

lemmas policy_example_defs = literal_glob_def bash_rules_def s1_approval_def rule_matches_def
  actor_path_to_string_def policy_evaluate_def

theorem policy_first_match_witness:
  "policy_evaluate literal_glob bash_rules s1_approval (Some ''Bash'') (Some (Fin 2)) = Some AutoReject \<and>
   policy_evaluate literal_glob bash_rules s1_approval (Some ''Read'') (Some (Fin 3)) = Some AutoApprove \<and>
   policy_evaluate literal_glob bash_rules s1_approval (Some ''Read'') None = None \<and>
   rule_matches literal_glob (rule_match (matcher_rules bash_rules ! 1)) s1_approval
     (Some ''Read'') (Some (Fin 3))"
proof -
  have "rule_matches literal_glob (rule_match (matcher_rules bash_rules ! 1)) s1_approval
      (Some ''Read'') (Some (Fin 2))"
    by (simp add: policy_example_defs)
  moreover have "am_cost_over (rule_match (matcher_rules bash_rules ! 1)) = Some (Fin 1)"
    by (simp add: bash_rules_def)
  moreover have "f_gt (Fin 3) (Fin 2)" by simp
  ultimately have "rule_matches literal_glob (rule_match (matcher_rules bash_rules ! 1)) s1_approval
      (Some ''Read'') (Some (Fin 3))"
    using policy_first_match [where glob = literal_glob and a = s1_approval and t = "Some ''Read''",
        THEN conjunct2, THEN conjunct2]
    by blast
  then show ?thesis by (simp add: policy_example_defs)
qed

end
