(* ===== verification/Store_Tools.thy ===== *)
theory Store_Tools
  imports Shared_Store
begin

text \<open>
  The MCP tool handlers of the shared store (\<^verbatim>\<open>shared_store/tools.rs\<close>). Each handler bumps its
  actor's counter on entry, before any check, resolves the \<open>/peer/self\<close> alias and calls the store.
  A handler takes the store and returns its result with the store after it; the two that may block
  (\<open>kv_wait\<close>, \<open>lease_acquire\<close>) also take what they observe while blocked, and return \<open>None\<close> while
  still blocked.
\<close>

section \<open>Arguments\<close>

record KvGetArgs =
  kg_path :: string
  kg_meta :: "MetaField option"

record KvSetArgs =
  ks_path :: string
  ks_value :: bytes
  ks_override_flag :: bool
  ks_meta :: MetaField

record KvCasArgs =
  kc_path :: string
  kc_expected_version :: u64
  kc_new_value :: bytes
  kc_override_flag :: bool
  kc_meta :: MetaField

record KvListArgs =
  kl_glob :: string
  kl_meta :: "MetaField option"

record KvWaitArgs =
  kw_path :: string
  kw_timeout_secs :: u32
  kw_min_version :: "u64 option"
  kw_meta :: "MetaField option"

record LeaseAcquireArgs =
  la_name :: string
  la_ttl_secs :: u32
  la_wait_secs :: "u32 option"
  la_meta :: MetaField

record LeaseReleaseArgs =
  le_lease_id :: string
  le_meta :: MetaField

record KvSetResult =
  ksr_version :: u64

text \<open>\<^verbatim>\<open>Duration::from_secs\<close>, in nanoseconds.\<close>

definition from_secs :: "u32 \<Rightarrow> duration" where
  "from_secs n = unat n * 1000000000"

definition note_kv_opt :: "MetaField option \<Rightarrow> SharedStore \<Rightarrow> SharedStore" where
  "note_kv_opt meta s = (case meta of Some m \<Rightarrow> note_kv_op (meta_actor_id m) s | None \<Rightarrow> s)"

section \<open>Handlers\<close>

definition handle_kv_get :: "SharedStore \<Rightarrow> KvGetArgs \<Rightarrow> (StoreError + Entry option) \<times> SharedStore" where
  "handle_kv_get s args =
     (let s1 = note_kv_opt (kg_meta args) s in
      case require_identity_for_self (kg_path args) (kg_meta args) of
        Inl e \<Rightarrow> (Inl e, s1)
      | Inr path \<Rightarrow> (Inr (store_get s1 path), s1))"

definition handle_kv_set ::
  "SharedStore \<Rightarrow> KvSetArgs \<Rightarrow> int \<Rightarrow> (StoreError + KvSetResult) \<times> SharedStore" where
  "handle_kv_set s args now =
     (let s1 = note_kv_op (meta_actor_id (ks_meta args)) s;
          caller = caller_of_meta (ks_meta args);
          path = resolve_peer_self (ks_path args) (caller_id caller)
      in case authorized_set s1 path (ks_value args) caller (ks_override_flag args) now of
           (Inl e, s2) \<Rightarrow> (Inl e, s2)
         | (Inr v, s2) \<Rightarrow> (Inr \<lparr>ksr_version = v\<rparr>, s2))"

definition handle_kv_cas ::
  "SharedStore \<Rightarrow> KvCasArgs \<Rightarrow> int \<Rightarrow> (StoreError + CasResult) \<times> SharedStore" where
  "handle_kv_cas s args now =
     (let s1 = note_kv_op (meta_actor_id (kc_meta args)) s;
          caller = caller_of_meta (kc_meta args);
          path = resolve_peer_self (kc_path args) (caller_id caller)
      in authorized_cas s1 path (kc_expected_version args) (kc_new_value args) caller
           (kc_override_flag args) now)"

definition handle_kv_list ::
  "(string \<Rightarrow> string + (string \<Rightarrow> bool)) \<Rightarrow> SharedStore \<Rightarrow> KvListArgs \<Rightarrow>
     (StoreError + ListResult) \<times> SharedStore" where
  "handle_kv_list glob_new s args =
     (let s1 = note_kv_opt (kl_meta args) s in
      case require_identity_for_self (kl_glob args) (kl_meta args) of
        Inl e \<Rightarrow> (Inl e, s1)
      | Inr glob \<Rightarrow> (list_with_truncation glob_new s1 glob, s1))"

definition handle_kv_wait ::
  "SharedStore \<Rightarrow> KvWaitArgs \<Rightarrow> NotifyEvent round list \<Rightarrow>
     (StoreError + Entry) option \<times> SharedStore" where
  "handle_kv_wait s args rounds =
     (let s1 = note_kv_opt (kw_meta args) s in
      case require_identity_for_self (kw_path args) (kw_meta args) of
        Inl e \<Rightarrow> (Some (Inl e), s1)
      | Inr path \<Rightarrow> (store_wait s1 path (kw_min_version args) rounds, s1))"

definition handle_lease_acquire ::
  "SharedStore \<Rightarrow> LeaseAcquireArgs \<Rightarrow> lease_env \<Rightarrow> (string round \<times> lease_env) list \<Rightarrow>
     ((StoreError + AcquireResult) \<times> SharedStore option) option \<times> SharedStore" where
  "handle_lease_acquire s args env rounds =
     (let s1 = note_lease_op (meta_actor_id (la_meta args)) s;
          caller = caller_of_meta (la_meta args);
          ttl = from_secs (la_ttl_secs args)
      in case lease_acquire_start s1 (la_name args) ttl (map_option from_secs (la_wait_secs args)) caller env of
           (Some r, s2) \<Rightarrow> (Some (r, None), s2)
         | (None, s2) \<Rightarrow> (lease_acquire_loop (la_name args) ttl caller rounds, s2))"

definition handle_lease_release ::
  "SharedStore \<Rightarrow> LeaseReleaseArgs \<Rightarrow> instant \<Rightarrow> (StoreError + unit) \<times> SharedStore" where
  "handle_lease_release s args now =
     lease_release (note_lease_op (meta_actor_id (le_meta args)) s) (le_lease_id args)
       (caller_of_meta (le_meta args)) now"

section \<open>Counters\<close>

definition kv_count :: "SharedStore \<Rightarrow> actor_id \<Rightarrow> u64" where
  "kv_count s a = (case hm_get plain a (activity s) of Some c \<Rightarrow> kv_ops c | None \<Rightarrow> 0)"

definition lease_count :: "SharedStore \<Rightarrow> actor_id \<Rightarrow> u64" where
  "lease_count s a = (case hm_get plain a (activity s) of Some c \<Rightarrow> lease_ops c | None \<Rightarrow> 0)"

lemma note_kv_counts:
  "a \<noteq> [] \<Longrightarrow> kv_count (note_kv_op a s) b = kv_count s b + (if b = a then 1 else 0)"
  "lease_count (note_kv_op a s) b = lease_count s b"
  by (auto simp: kv_count_def lease_count_def note_kv_op_def zero_counters_def hm_simps Let_def
      split: option.splits)

lemma note_lease_counts:
  "a \<noteq> [] \<Longrightarrow> lease_count (note_lease_op a s) b = lease_count s b + (if b = a then 1 else 0)"
  "kv_count (note_lease_op a s) b = kv_count s b"
  by (auto simp: kv_count_def lease_count_def note_lease_op_def zero_counters_def hm_simps Let_def
      split: option.splits)

lemma same_activity_counts:
  "activity s' = activity s \<Longrightarrow> kv_count s' b = kv_count s b \<and> lease_count s' b = lease_count s b"
  by (simp add: kv_count_def lease_count_def)

lemma write_activity:
  "activity (snd (authorized_set s p v c ovr now)) = activity s"
  "activity (snd (authorized_cas s p ex v c ovr now)) = activity s"
  using authorized_set_cases [of s p v c ovr now] authorized_cas_cases [of s p ex v c ovr now]
  by (auto simp: wrote_def send_notify_def)

lemma lease_activity:
  "activity (snd (lease_attempt s n ttl c env)) = activity s"
  "activity (snd (lease_acquire_start s n ttl wt c env)) = activity s"
  "activity (snd (lease_release s lid c now)) = activity s"
  by (auto simp: lease_attempt_def lease_acquire_start_def lease_release_def notify_lease_evictions_def
      split: prod.splits sum.splits option.splits StoreError.splits)

text \<open>The counters after a call that bumped one of them once.\<close>

definition counted_kv :: "SharedStore \<Rightarrow> SharedStore \<Rightarrow> actor_id \<Rightarrow> bool" where
  "counted_kv s s' a \<longleftrightarrow> (\<forall>b. kv_count s' b = kv_count s b + (if b = a then 1 else 0) \<and>
     lease_count s' b = lease_count s b)"

definition counted_lease :: "SharedStore \<Rightarrow> SharedStore \<Rightarrow> actor_id \<Rightarrow> bool" where
  "counted_lease s s' a \<longleftrightarrow> (\<forall>b. lease_count s' b = lease_count s b + (if b = a then 1 else 0) \<and>
     kv_count s' b = kv_count s b)"

lemma counted_kvI: "activity s' = activity (note_kv_op a s) \<Longrightarrow> a \<noteq> [] \<Longrightarrow> counted_kv s s' a"
  using same_activity_counts [of s' "note_kv_op a s"] by (simp add: counted_kv_def note_kv_counts)

lemma counted_leaseI: "activity s' = activity (note_lease_op a s) \<Longrightarrow> a \<noteq> [] \<Longrightarrow> counted_lease s s' a"
  using same_activity_counts [of s' "note_lease_op a s"] by (simp add: counted_lease_def note_lease_counts)

text \<open>
  Every attempt is counted, once. Each of the seven handlers, called with the identity of an
  actor, adds exactly one to that actor's counter of its kind and changes no other counter, whether
  the call then succeeds, is denied, fails a limit, times out or blocks.
\<close>

theorem handlers_count_attempts:
  assumes "meta_actor_id m \<noteq> []"
  shows "counted_kv s (snd (handle_kv_get s \<lparr>kg_path = p, kg_meta = Some m\<rparr>)) (meta_actor_id m) \<and>
    counted_kv s (snd (handle_kv_set s \<lparr>ks_path = p, ks_value = v, ks_override_flag = ovr,
      ks_meta = m\<rparr> now)) (meta_actor_id m) \<and>
    counted_kv s (snd (handle_kv_cas s \<lparr>kc_path = p, kc_expected_version = ex, kc_new_value = v,
      kc_override_flag = ovr, kc_meta = m\<rparr> now)) (meta_actor_id m) \<and>
    counted_kv s (snd (handle_kv_list gl s \<lparr>kl_glob = p, kl_meta = Some m\<rparr>)) (meta_actor_id m) \<and>
    counted_kv s (snd (handle_kv_wait s \<lparr>kw_path = p, kw_timeout_secs = secs, kw_min_version = mn,
      kw_meta = Some m\<rparr> rounds)) (meta_actor_id m) \<and>
    counted_lease s (snd (handle_lease_acquire s \<lparr>la_name = p, la_ttl_secs = secs,
      la_wait_secs = wt, la_meta = m\<rparr> env lrounds)) (meta_actor_id m) \<and>
    counted_lease s (snd (handle_lease_release s \<lparr>le_lease_id = p, le_meta = m\<rparr> t)) (meta_actor_id m)"
proof (intro conjI)
  show "counted_kv s (snd (handle_kv_set s \<lparr>ks_path = p, ks_value = v, ks_override_flag = ovr,
      ks_meta = m\<rparr> now)) (meta_actor_id m)"
    using write_activity(1) [of "note_kv_op (meta_actor_id m) s"] assms
    by (intro counted_kvI) (auto simp: handle_kv_set_def Let_def split: prod.splits sum.splits
        dest!: arg_cong [where f = "activity \<circ> snd"])
  show "counted_lease s (snd (handle_lease_acquire s \<lparr>la_name = p, la_ttl_secs = secs,
      la_wait_secs = wt, la_meta = m\<rparr> env lrounds)) (meta_actor_id m)"
    using lease_activity(2) [of "note_lease_op (meta_actor_id m) s"] assms
    by (intro counted_leaseI) (auto simp: handle_lease_acquire_def Let_def split: prod.splits option.splits
        dest!: arg_cong [where f = "activity \<circ> snd"])
qed (use assms in \<open>auto intro!: counted_kvI counted_leaseI simp: handle_kv_get_def handle_kv_cas_def
    handle_kv_list_def handle_kv_wait_def handle_lease_release_def note_kv_opt_def
    write_activity lease_activity Let_def split: sum.splits\<close>)

theorem handlers_count_attempts_witness:
  "counted_kv new_store (snd (handle_kv_set new_store \<lparr>ks_path = ''/ref/x'', ks_value = [1],
     ks_override_flag = False, ks_meta = \<lparr>meta_actor_id = ''w1'', meta_actor_role = Worker\<rparr>\<rparr> 0)) ''w1''"
  using handlers_count_attempts [where m = "\<lparr>meta_actor_id = ''w1'', meta_actor_role = Worker\<rparr>" and
      s = new_store and p = "''/ref/x''" and v = "[1]" and ovr = False and now = 0]
  by simp

section \<open>The alias\<close>

lemma require_identity_peer:
  assumes "\<not> starts_with cid ''self''"
  shows "require_identity_for_self (''/peer/'' @ cid @ ''/'' @ r) meta = Inr (''/peer/'' @ cid @ ''/'' @ r)"
proof -
  have "\<not> starts_with (cid @ slash # r) ''self''"
    using assms starts_with_sep [of slash "''self''" cid r] by simp
  then have "\<not> starts_with (''/peer/'' @ cid @ ''/'' @ r) ''/peer/self''"
    by (simp add: starts_with_def)
  then show ?thesis unfolding require_identity_for_self_def by simp
qed

lemma require_identity_self:
  "require_identity_for_self (''/peer/self/'' @ r) (Some m) = Inr (''/peer/'' @ meta_actor_id m @ ''/'' @ r)"
  unfolding require_identity_for_self_def resolve_peer_self_sub by (simp add: starts_with_def)

lemma note_kv_opt_get: "store_get (note_kv_opt m s) q = store_get s q"
  by (auto simp: note_kv_opt_def note_kv_op_def store_get_def Let_def split: option.split)

text \<open>
  A path under an actor whose id merely begins with \<open>self\<close> is no alias, but without an identity it
  is refused as if it were one.
\<close>

lemma selfish_path_refused:
  "resolve_peer_self ''/peer/selfish/out'' me = ''/peer/selfish/out'' \<and>
   (\<exists>e. require_identity_for_self ''/peer/selfish/out'' None = Inl (InvalidArg e))"
  by (simp add: resolve_peer_self_def require_identity_for_self_def starts_with_def)

text \<open>
  The alias round trip. What an actor sets through \<open>/peer/self/r\<close> it reads back through the same
  path, with the version it was told, and every other caller, with or without an identity, reads
  the same entry under \<open>/peer/\<close>, the writer's id, and \<open>r\<close>.
\<close>

theorem peer_self_roundtrip:
  assumes set: "handle_kv_set s \<lparr>ks_path = ''/peer/self/'' @ r, ks_value = v, ks_override_flag = ovr,
      ks_meta = m\<rparr> now = (Inr res, s')"
    and ordinary: "\<not> starts_with (meta_actor_id m) ''self''"
  shows "\<exists>e. entry_value e = v \<and> entry_version e = ksr_version res \<and>
      entry_written_by e = meta_actor_id m \<and>
      fst (handle_kv_get s' \<lparr>kg_path = ''/peer/self/'' @ r, kg_meta = Some m\<rparr>) = Inr (Some e) \<and>
      fst (handle_kv_get s' \<lparr>kg_path = ''/peer/'' @ meta_actor_id m @ ''/'' @ r, kg_meta = other\<rparr>) =
        Inr (Some e)"
proof -
  let ?p = "''/peer/'' @ meta_actor_id m @ ''/'' @ r"
  let ?s1 = "note_kv_op (meta_actor_id m) s"
  obtain w where "authorized_set ?s1 ?p v (caller_of_meta m) ovr now = (Inr w, s')"
      and w: "res = \<lparr>ksr_version = w\<rparr>"
    using set unfolding handle_kv_set_def Let_def caller_of_meta_def
    by (simp add: resolve_peer_self_sub [unfolded append_Cons append_Nil] split: prod.splits sum.splits)
  then obtain t where t: "wrote ?s1 ?p v (meta_actor_id m) now t" "s' = send_notify
      \<lparr>evt_path = ?p, evt_version = next_version ?s1 ?p\<rparr> t" "w = next_version ?s1 ?p"
    using authorized_set_cases [of ?s1 ?p v "caller_of_meta m" ovr now]
    by (auto simp: caller_of_meta_def)
  have get: "store_get s' ?p = Some (mk_entry v w (meta_actor_id m) now)"
    unfolding t(2,3) by (simp only: send_notify_simps wrote_get [OF t(1)] if_True refl)
  show ?thesis
    by (rule exI [of _ "mk_entry v w (meta_actor_id m) now"])
      (simp only: handle_kv_get_def Let_def KvGetArgs.simps require_identity_self
        require_identity_peer [OF ordinary] note_kv_opt_get get sum.case fst_conv w,
       simp add: mk_entry_def)
qed

theorem peer_self_roundtrip_witness:
  "\<exists>res s' e. handle_kv_set new_store \<lparr>ks_path = ''/peer/self/out'', ks_value = [9],
      ks_override_flag = False, ks_meta = \<lparr>meta_actor_id = ''w1'', meta_actor_role = Worker\<rparr>\<rparr> 4 = (Inr res, s') \<and>
    entry_value e = [9] \<and>
    fst (handle_kv_get s' \<lparr>kg_path = ''/peer/w1/out'', kg_meta = None\<rparr>) = Inr (Some e)"
proof -
  let ?m = "\<lparr>meta_actor_id = ''w1'', meta_actor_role = Worker\<rparr>"
  let ?call = "handle_kv_set new_store \<lparr>ks_path = ''/peer/self/'' @ ''out'', ks_value = [9],
      ks_override_flag = False, ks_meta = ?m\<rparr> 4"
  have "\<exists>r. fst ?call = Inr r"
    by (simp add: handle_kv_set_def resolve_peer_self_def caller_of_meta_def authorized_set_def
        authorize_write_def store_set_def set_locked_def validate_path_def starts_with_def
        note_kv_op_def new_store_def with_limits_def default_limits_def Let_def)
  then obtain res s' where call: "?call = (Inr res, s')" by (metis prod.collapse)
  have "\<not> starts_with (meta_actor_id ?m) ''self''"
    by (simp add: starts_with_def)
  from peer_self_roundtrip [OF call this, of None] call show ?thesis by auto
qed

end
