(* ===== verification/Run_Leases.thy ===== *)
theory Run_Leases
  imports Leases
begin

text \<open>
  The run-global lease registry (\<^verbatim>\<open>shared_store/run_leases.rs\<close>): one table for the whole
  dispatch tree, keyed by name and holder, where a holder may renew its own lease. An expired
  entry stays in the table until somebody overwrites it. The blocking \<open>acquire_with_wait\<close> is a
  loop over what its \<^verbatim>\<open>select!\<close> observes: a release notification or the end of the sleep,
  each with the time and the table at that moment.
\<close>

section \<open>Data and operations\<close>

record LeaseHandle =
  handle_key :: string
  handle_holder :: actor_id
  handle_acquired_at :: instant
  handle_ttl :: duration

type_synonym RunLeaseRegistry = "(string \<times> LeaseHandle) list"

definition try_acquire ::
  "RunLeaseRegistry \<Rightarrow> string \<Rightarrow> actor_id \<Rightarrow> duration \<Rightarrow> instant \<Rightarrow>
     (actor_id + LeaseHandle) \<times> RunLeaseRegistry" where
  "try_acquire m key holder ttl now =
     (let handle = \<lparr>handle_key = key, handle_holder = holder,
                    handle_acquired_at = now, handle_ttl = ttl\<rparr>;
          granted = (Inr handle, hm_insert plain key handle m)
      in case hm_get plain key m of
           Some existing \<Rightarrow>
             if now - handle_acquired_at existing < handle_ttl existing \<and>
                handle_holder existing \<noteq> holder
             then (Inl (handle_holder existing), m)
             else granted
         | None \<Rightarrow> granted)"

text \<open>
  \<open>acquire_with_wait\<close>: the fast path, then the loop. Other calls run between two rounds, so each
  observation carries the table it sees; the result carries the table the winning attempt left, if
  the call returned.
\<close>

datatype wake = Notified | SleepDone

record wait_round =
  round_top :: instant
  round_wake :: wake
  round_now :: instant
  round_table :: RunLeaseRegistry

fun acquire_wait_loop ::
  "string \<Rightarrow> actor_id \<Rightarrow> duration \<Rightarrow> instant \<Rightarrow> wait_round list \<Rightarrow>
     ((actor_id + LeaseHandle) \<times> RunLeaseRegistry) option" where
  "acquire_wait_loop key holder ttl deadline [] = None"
| "acquire_wait_loop key holder ttl deadline (w # ws) =
     (let attempt = try_acquire (round_table w) key holder ttl (round_now w) in
      if deadline - round_top w = 0 then Some attempt
      else case round_wake w of
             SleepDone \<Rightarrow> Some attempt
           | Notified \<Rightarrow>
               (case attempt of
                  (Inr h, m') \<Rightarrow> Some (Inr h, m')
                | (Inl _, _) \<Rightarrow> acquire_wait_loop key holder ttl deadline ws))"

definition acquire_with_wait ::
  "RunLeaseRegistry \<Rightarrow> string \<Rightarrow> actor_id \<Rightarrow> duration \<Rightarrow> duration \<Rightarrow> instant \<Rightarrow> instant \<Rightarrow>
     wait_round list \<Rightarrow> ((actor_id + LeaseHandle) \<times> RunLeaseRegistry) option" where
  "acquire_with_wait m key holder ttl wait start now obs =
     (let deadline = start + wait in
      case try_acquire m key holder ttl now of
        (Inr h, m') \<Rightarrow> Some (Inr h, m')
      | (Inl _, _) \<Rightarrow> acquire_wait_loop key holder ttl deadline obs)"

text \<open>The second component of \<open>run_release\<close> says whether waiters are notified.\<close>

definition run_release ::
  "RunLeaseRegistry \<Rightarrow> string \<Rightarrow> actor_id \<Rightarrow> bool \<times> bool \<times> RunLeaseRegistry" where
  "run_release m key holder =
     (if (case hm_get plain key m of Some h \<Rightarrow> handle_holder h = holder | None \<Rightarrow> False)
      then (True, True, hm_remove plain key m)
      else (False, False, m))"

definition release_all_held_by ::
  "RunLeaseRegistry \<Rightarrow> actor_id \<Rightarrow> nat \<times> bool \<times> RunLeaseRegistry" where
  "release_all_held_by m actor =
     (let to_remove = map fst (filter (\<lambda>(_, h). handle_holder h = actor) m);
          m' = hm_remove_all plain to_remove m;
          count = length to_remove
      in (count, count > 0, m'))"

definition snapshot :: "RunLeaseRegistry \<Rightarrow> LeaseHandle list" where
  "snapshot m = map snd m"

section \<open>Lemmas\<close>

definition run_live :: "RunLeaseRegistry \<Rightarrow> string \<Rightarrow> instant \<Rightarrow> actor_id option" where
  "run_live m key now =
     (case hm_get plain key m of
        Some h \<Rightarrow> if now - handle_acquired_at h < handle_ttl h then Some (handle_holder h) else None
      | None \<Rightarrow> None)"

lemma try_acquire_wf: "hm_wf plain m \<Longrightarrow> hm_wf plain (snd (try_acquire m k h ttl now))"
  by (auto simp: try_acquire_def Let_def split: option.splits)

lemma run_release_wf: "hm_wf plain m \<Longrightarrow> hm_wf plain (snd (snd (run_release m k h)))"
  by (auto simp: run_release_def)

lemma release_all_held_by_wf: "hm_wf plain m \<Longrightarrow> hm_wf plain (snd (snd (release_all_held_by m a)))"
  by (auto simp: release_all_held_by_def Let_def)

lemma release_all_held_by_get:
  assumes "hm_wf plain m"
  shows "hm_get plain k (snd (snd (release_all_held_by m a))) =
     (case hm_get plain k m of
        Some h \<Rightarrow> if handle_holder h = a then None else Some h | None \<Rightarrow> None)"
proof -
  have "k \<in> set (map fst (filter (\<lambda>(_, h). handle_holder h = a) m)) \<longleftrightarrow>
      (\<exists>h. hm_get plain k m = Some h \<and> handle_holder h = a)"
    using assms by (force dest: hm_plain_get_in hm_in_get)
  then show ?thesis
    by (auto simp: release_all_held_by_def Let_def hm_simps split: option.splits)
qed

lemma try_acquire_run_live:
  "try_acquire m key holder ttl now =
     (let h = \<lparr>handle_key = key, handle_holder = holder, handle_acquired_at = now, handle_ttl = ttl\<rparr>;
          granted = (Inr h, hm_insert plain key h m)
      in case run_live m key now of
           Some other \<Rightarrow> if other \<noteq> holder then (Inl other, m) else granted
         | None \<Rightarrow> granted)"
  by (simp add: try_acquire_def run_live_def Let_def split: option.split)

lemma try_acquire_refused:
  "try_acquire m key holder ttl now = (Inl other, m') \<Longrightarrow>
     m' = m \<and> other \<noteq> holder \<and> run_live m key now = Some other"
  by (auto simp: try_acquire_def run_live_def Let_def split: option.splits if_splits)

lemma try_acquire_granted:
  "try_acquire m key holder ttl now = (Inr h, m') \<Longrightarrow>
     handle_holder h = holder \<and> hm_get plain key m' = Some h"
  by (auto simp: try_acquire_def Let_def hm_simps split: option.splits if_splits)

text \<open>
  The run-global lock. \<open>try_acquire\<close> is refused exactly when another actor's lease on the key
  is still live, and then names that actor and changes nothing; otherwise the caller holds the key
  from now for its time to live, also when it renews its own lease, and no other key changes.
\<close>

theorem try_acquire_exclusive:
  "if \<exists>other. run_live m key now = Some other \<and> other \<noteq> holder
   then try_acquire m key holder ttl now = (Inl (the (run_live m key now)), m)
   else \<exists>h m'. try_acquire m key holder ttl now = (Inr h, m') \<and> handle_holder h = holder \<and>
     (\<forall>t. t - now < ttl \<longrightarrow> run_live m' key t = Some holder) \<and>
     (\<forall>k. k \<noteq> key \<longrightarrow> hm_get plain k m' = hm_get plain k m)"
proof (cases "\<exists>other. run_live m key now = Some other \<and> other \<noteq> holder")
  case True
  then show ?thesis by (auto simp: try_acquire_run_live)
next
  case False
  let ?h = "\<lparr>handle_key = key, handle_holder = holder, handle_acquired_at = now, handle_ttl = ttl\<rparr>"
  have "try_acquire m key holder ttl now = (Inr ?h, hm_insert plain key ?h m)"
    using False by (auto simp: try_acquire_run_live Let_def split: option.split)
  with False show ?thesis by (simp add: run_live_def hm_simps)
qed

theorem try_acquire_exclusive_witness:
  "try_acquire [(''out'', \<lparr>handle_key = ''out'', handle_holder = ''S1'',
      handle_acquired_at = 10, handle_ttl = 30\<rparr>)] ''out'' ''S2'' 30 39 =
    (Inl ''S1'', [(''out'', \<lparr>handle_key = ''out'', handle_holder = ''S1'',
      handle_acquired_at = 10, handle_ttl = 30\<rparr>)])"
  using try_acquire_exclusive [where m = "[(''out'', \<lparr>handle_key = ''out'', handle_holder = ''S1'',
      handle_acquired_at = 10, handle_ttl = 30\<rparr>)]" and key = "''out''" and now = 39 and
      holder = "''S2''" and ttl = 30]
  by (simp add: run_live_def)

subsection \<open>Waiting\<close>

lemma acquire_wait_loop_result:
  "acquire_wait_loop key holder ttl dl ws = Some r \<Longrightarrow>
     \<exists>w \<in> set ws. r = try_acquire (round_table w) key holder ttl (round_now w) \<and>
       ((\<exists>a m. r = (Inl a, m)) \<longrightarrow> round_wake w = SleepDone \<or> dl \<le> round_top w)"
proof (induction ws)
  case (Cons w ws)
  let ?att = "try_acquire (round_table w) key holder ttl (round_now w)"
  show ?case
  proof (cases "dl - round_top w = 0 \<or> round_wake w = SleepDone \<or> (\<exists>h m. ?att = (Inr h, m))")
    case True
    then show ?thesis using Cons.prems by (auto simp: Let_def split: wake.splits if_splits)
  next
    case False
    then obtain a m where "?att = (Inl a, m)"
      by (cases ?att; cases "fst ?att") auto
    then have "acquire_wait_loop key holder ttl dl ws = Some r"
      using Cons.prems False by (auto simp: Let_def split: wake.splits)
    then show ?thesis using Cons.IH by auto
  qed
qed simp

lemma acquire_wait_loop_returns:
  "\<exists>w \<in> set ws. round_wake w = SleepDone \<or> dl \<le> round_top w \<Longrightarrow>
     \<exists>r. acquire_wait_loop key holder ttl dl ws = Some r"
  by (induction ws) (auto simp: Let_def split: wake.splits sum.splits prod.splits)

text \<open>
  A bounded wait ends, and ends right. Once a round of \<open>acquire_with_wait\<close> finds its sleep over
  or no time left, the call has returned; and its outcome is that of a \<open>try_acquire\<close> against the
  table at the fast path or at some round: a refusal comes only from the round that ran out of
  time, so it names a holder whose lease was live then.
\<close>

theorem acquire_with_wait_outcome:
  assumes "\<exists>w \<in> set ws. round_wake w = SleepDone \<or> start + wait \<le> round_top w"
  shows "\<exists>r. acquire_with_wait m key holder ttl wait start now ws = Some r \<and>
     (case r of
        (Inr h, m') \<Rightarrow> handle_holder h = holder \<and> hm_get plain key m' = Some h
      | (Inl other, m') \<Rightarrow> \<exists>w \<in> set ws. round_table w = m' \<and> other \<noteq> holder \<and>
          run_live m' key (round_now w) = Some other \<and>
          (round_wake w = SleepDone \<or> start + wait \<le> round_top w))"
proof (cases "\<exists>h m'. try_acquire m key holder ttl now = (Inr h, m')")
  case True
  then obtain h m' where att: "try_acquire m key holder ttl now = (Inr h, m')" by auto
  then show ?thesis using try_acquire_granted [OF att]
    by (simp add: acquire_with_wait_def Let_def)
next
  case False
  then have "acquire_with_wait m key holder ttl wait start now ws =
      acquire_wait_loop key holder ttl (start + wait) ws"
    by (cases "try_acquire m key holder ttl now"; cases "fst (try_acquire m key holder ttl now)")
      (auto simp: acquire_with_wait_def Let_def)
  then obtain r where r: "acquire_with_wait m key holder ttl wait start now ws = Some r"
      "acquire_wait_loop key holder ttl (start + wait) ws = Some r"
    using acquire_wait_loop_returns [OF assms] by fastforce
  obtain w where w: "w \<in> set ws" "r = try_acquire (round_table w) key holder ttl (round_now w)"
      "(\<exists>a m. r = (Inl a, m)) \<longrightarrow> round_wake w = SleepDone \<or> start + wait \<le> round_top w"
    using acquire_wait_loop_result [OF r(2)] by blast
  obtain x m' where x: "r = (x, m')" by fastforce
  show ?thesis
  proof (cases x)
    case (Inl other)
    have "round_table w = m'" "other \<noteq> holder" "run_live m' key (round_now w) = Some other"
      using try_acquire_refused [of "round_table w" key holder ttl "round_now w" other m'] w(2) x Inl
      by auto
    with w x Inl have "\<exists>w \<in> set ws. round_table w = m' \<and> other \<noteq> holder \<and>
        run_live m' key (round_now w) = Some other \<and>
        (round_wake w = SleepDone \<or> start + wait \<le> round_top w)"
      by blast
    then show ?thesis using r x Inl by simp
  next
    case (Inr h)
    then show ?thesis
      using r x w(2) try_acquire_granted [of "round_table w" key holder ttl "round_now w" h m'] by simp
  qed
qed

theorem acquire_with_wait_outcome_witness:
  "\<exists>r. acquire_with_wait [(''out'', \<lparr>handle_key = ''out'', handle_holder = ''S1'',
      handle_acquired_at = 10, handle_ttl = 30\<rparr>)] ''out'' ''S2'' 30 5 12 12
      [\<lparr>round_top = 12, round_wake = SleepDone, round_now = 17, round_table = []\<rparr>] = Some r"
  using acquire_with_wait_outcome [of "[\<lparr>round_top = 12, round_wake = SleepDone, round_now = 17,
      round_table = []\<rparr>]" 12 5] by fastforce

subsection \<open>The cleanup interface\<close>

definition run_release_all :: "actor_id \<Rightarrow> RunLeaseRegistry \<Rightarrow> nat \<times> RunLeaseRegistry" where
  "run_release_all a m = (case release_all_held_by m a of (n, _, m') \<Rightarrow> (n, m'))"

definition run_held :: "RunLeaseRegistry \<Rightarrow> actor_id \<Rightarrow> string \<Rightarrow> bool" where
  "run_held m a k \<longleftrightarrow> (\<exists>h. hm_get plain k m = Some h \<and> handle_holder h = a)"

lemma run_release_all_state [simp]:
  "snd (run_release_all a m) = snd (snd (release_all_held_by m a))"
  by (simp add: run_release_all_def case_prod_beta)

interpretation run: lease_registry_api run_held run_release_all "hm_wf plain"
proof unfold_locales
  fix m :: RunLeaseRegistry and a b k
  assume wf: "hm_wf plain m"
  show "hm_wf plain (snd (run_release_all a m))"
    using wf by (simp add: release_all_held_by_wf)
  show "\<not> run_held (snd (run_release_all a m)) a k"
    using wf by (auto simp: run_held_def release_all_held_by_get split: option.splits if_splits)
  show "a \<noteq> b \<Longrightarrow> run_held (snd (run_release_all a m)) b k = run_held m b k"
    using wf by (auto simp: run_held_def release_all_held_by_get split: option.splits if_splits)
  show "fst (run_release_all a m) = card {k. run_held m a k}"
    using wf by (simp add: run_release_all_def release_all_held_by_def Let_def run_held_def
        hm_count_filter case_prod_beta)
qed

text \<open>
  Cleanup after termination, for both registries. Running the cleanup hook for a list of
  terminated actors leaves no live lease of any of them in either registry and takes none from
  anybody else; each call reports how many leases the actor held, so that a repeated call reports
  zero.
\<close>

theorem cleanup_cascade:
  assumes "hm_wf plain reg" and "hm_wf plain m"
  shows "(layer_held now (fold (\<lambda>a r. snd (layer_release_all now a r)) actors reg) b k
           \<longleftrightarrow> layer_held now reg b k \<and> b \<notin> set actors) \<and>
         (run_held (fold (\<lambda>a r. snd (run_release_all a r)) actors m) b k
           \<longleftrightarrow> run_held m b k \<and> b \<notin> set actors) \<and>
         fst (layer_release_all now b reg) = card {k. layer_held now reg b k} \<and>
         fst (run_release_all b m) = card {k. run_held m b k} \<and>
         fst (layer_release_all now b (snd (layer_release_all now b reg))) = 0 \<and>
         fst (run_release_all b (snd (run_release_all b m))) = 0"
  using layer.cascade_held [OF assms(1)] run.cascade_held [OF assms(2)]
    layer.counted [OF assms(1)] run.counted [OF assms(2)]
    layer.second_release [OF assms(1)] run.second_release [OF assms(2)]
  by blast

theorem cleanup_cascade_witness:
  "\<not> layer_held 50 (fold (\<lambda>a r. snd (layer_release_all 50 a r)) [''w2'', ''w1'']
       [(''db'', (sample_lease, 100))]) ''w1'' ''db''"
  using cleanup_cascade [where reg = "[(''db'', (sample_lease, 100))]" and m = "[]" and now = 50 and
      actors = "[''w2'', ''w1'']" and b = "''w1''" and k = "''db''"]
  by (simp add: hm_wf_def)

end
