(* ===== verification/Dispatch_State.thy ===== *)
theory Dispatch_State
  imports Policy Store_Tools Run_Leases
begin

text \<open>
  The state of a run (\<^verbatim>\<open>dispatch/state.rs\<close>, \<^verbatim>\<open>dispatch/layer.rs\<close>, the records of
  \<^verbatim>\<open>pitboss-core/src/store/record.rs\<close>, the cancel token of
  \<^verbatim>\<open>pitboss-core/src/session/cancel.rs\<close>, the event log of \<^verbatim>\<open>control/event_log.rs\<close>): one
  layer for the root lead, one per sub-lead, and the run-wide tables. A mutex-protected field is a
  field of the record; an operation is a state transformer. Channels are the sequence of values
  sent; files are the sequence of rows handed to the writer. A process-id slot is its value, zero
  while unknown; paths that only reach the operating system have no field. Times are nanoseconds since the epoch.
\<close>

section \<open>Time\<close>

definition ns_per_sec :: int where
  "ns_per_sec = 1000000000"

text \<open>\<^verbatim>\<open>chrono::Duration::num_seconds\<close>: whole seconds, rounded towards zero.\<close>

definition num_seconds :: "int \<Rightarrow> int" where
  "num_seconds d = (if 0 \<le> d then d div ns_per_sec else - ((- d) div ns_per_sec))"

text \<open>\<^verbatim>\<open>clamped_age_secs\<close>: a clock that stepped back gives age zero.\<close>

definition clamped_age_secs :: "int \<Rightarrow> int \<Rightarrow> u64" where
  "clamped_age_secs now created_at = word_of_int (max (num_seconds (now - created_at)) 0)"

section \<open>Records of finished tasks\<close>

record TokenUsage =
  tu_input :: u64
  tu_output :: u64
  tu_cache_read :: u64
  tu_cache_creation :: u64

definition zero_usage :: TokenUsage where
  "zero_usage = \<lparr>tu_input = 0, tu_output = 0, tu_cache_read = 0, tu_cache_creation = 0\<rparr>"

datatype TerminateReason =
    BudgetBreach "string option"
  | ParentCancelled
  | RuntimeTimeout
  | OperatorCtrlC
  | OperatorRequest "string option"
  | McpProtocolError "string option"
  | HealthCheckFailed "string option"

datatype FailureReason =
    RateLimit "int option"
  | NetworkError string
  | AuthFailure
  | ContextExceeded
  | InvalidArgument string
  | UnknownFailure string
  | BudgetExceeded string

datatype TaskStatus =
    TsSuccess | TsFailed | TsTimedOut | TsCancelled | TsSpawnFailed
  | TsApprovalRejected | TsApprovalTimedOut

record TaskRecord =
  tr_task_id :: string
  tr_status :: TaskStatus
  tr_exit_code :: "int option"
  tr_started_at :: int
  tr_ended_at :: int
  tr_duration_ms :: int
  tr_worktree_path :: "string option"
  tr_log_path :: string
  tr_token_usage :: TokenUsage
  tr_claude_session_id :: "string option"
  tr_final_message_preview :: "string option"
  tr_final_message :: "string option"
  tr_parent_task_id :: "string option"
  tr_pause_count :: u32
  tr_reprompt_count :: u32
  tr_approvals_requested :: u32
  tr_approvals_approved :: u32
  tr_approvals_rejected :: u32
  tr_model :: "string option"
  tr_failure_reason :: "FailureReason option"
  tr_cost_usd :: "f64 option"
  tr_actor_type :: "string option"
  tr_terminate_reason :: "TerminateReason option"

section \<open>Cancel tokens\<close>

record CancelToken =
  ct_drain :: bool
  ct_terminate :: bool
  ct_reason :: "TerminateReason option"

definition new_cancel :: CancelToken where
  "new_cancel = \<lparr>ct_drain = False, ct_terminate = False, ct_reason = None\<rparr>"

definition cancel_drain :: "CancelToken \<Rightarrow> CancelToken" where
  "cancel_drain t = t\<lparr>ct_drain := True\<rparr>"

definition cancel_terminate :: "CancelToken \<Rightarrow> CancelToken" where
  "cancel_terminate t = t\<lparr>ct_drain := True, ct_terminate := True\<rparr>"

definition terminate_with_reason :: "TerminateReason \<Rightarrow> CancelToken \<Rightarrow> CancelToken" where
  "terminate_with_reason reason t = t\<lparr>ct_reason := Some reason, ct_drain := True, ct_terminate := True\<rparr>"

definition cascade_to :: "CancelToken \<Rightarrow> CancelToken \<Rightarrow> CancelToken" where
  "cascade_to parent child =
     (if ct_terminate parent then
        (case ct_reason parent of
           Some reason \<Rightarrow> terminate_with_reason reason child
         | None \<Rightarrow> cancel_terminate child)
      else if ct_drain parent then cancel_drain child
      else child)"

section \<open>Workers, budget, approvals\<close>

datatype WorkerState =
    Pending
  | Running int "string option"
  | Paused string int TokenUsage
  | Frozen string int int
  | Done TaskRecord

record WorkerCounters =
  pause_count :: u32
  reprompt_count :: u32
  approvals_requested :: u32
  approvals_approved :: u32
  approvals_rejected :: u32

definition zero_worker_counters :: WorkerCounters where
  "zero_worker_counters = \<lparr>pause_count = 0, reprompt_count = 0, approvals_requested = 0,
     approvals_approved = 0, approvals_rejected = 0\<rparr>"

record WorkerRegistry =
  states :: "(string \<times> WorkerState) list"
  cancels :: "(string \<times> CancelToken) list"
  prompts :: "(string \<times> string) list"
  models :: "(string \<times> string) list"
  actor_types :: "(string \<times> string) list"
  counters :: "(string \<times> WorkerCounters) list"
  reservations :: "(string \<times> f64) list"
  pids :: "(string \<times> u32) list"
  done_tx :: "string list"

definition new_workers :: WorkerRegistry where
  "new_workers = \<lparr>states = [], cancels = [], prompts = [], models = [], actor_types = [],
     counters = [], reservations = [], pids = [], done_tx = []\<rparr>"

record BudgetState =
  spent_usd :: f64
  reserved_usd :: f64
  lead_spent_usd :: f64
  abort_reason :: "string option"

definition new_budget :: BudgetState where
  "new_budget = \<lparr>spent_usd = Fin 0, reserved_usd = Fin 0, lead_spent_usd = Fin 0, abort_reason = None\<rparr>"

datatype ApprovalKind = KindAction | KindPlan

record ApprovalResponse =
  resp_approved :: bool
  resp_comment :: "string option"
  resp_edited_summary :: "string option"
  resp_reason :: "string option"
  resp_from_ttl :: bool

record ApprovalMetadata =
  md_task_id :: string
  md_summary :: string
  md_plan :: "ApprovalPlan option"
  md_kind :: ApprovalKind
  md_ttl_secs :: "u64 option"
  md_fallback :: "ApprovalFallback option"
  md_created_at :: int

text \<open>A responder is the sending half of the oneshot channel of the request it names.\<close>

record QueuedApproval =
  q_request_id :: string
  q_responder :: string
  q_metadata :: ApprovalMetadata

record BridgeEntry =
  be_responder :: string
  be_metadata :: ApprovalMetadata

record ApprovalState =
  bridge :: "(string \<times> BridgeEntry) list"
  queue :: "QueuedApproval list"
  policy :: ApprovalPolicy
  plan_approved :: bool
  matcher :: "PolicyMatcher option"

definition new_approvals :: "ApprovalPolicy \<Rightarrow> ApprovalState" where
  "new_approvals p = \<lparr>bridge = [], queue = [], policy = p, plan_approved = False, matcher = None\<rparr>"

section \<open>Control events, audit rows, notifications\<close>

datatype TerminationOutcome =
    OutSuccess | OutCancel | OutTimeout | OutError | OutApprovalRejected | OutApprovalTimedOut

datatype PressureLevel = PressureClear | PressureWarn | PressureError

record ActorActivityEntry =
  act_actor_id :: string
  act_kv_ops :: u64
  act_lease_ops :: u64
  act_message_ops :: u64
  act_artifact_ops :: u64

record ResourceSampleEntry =
  rse_actor_id :: string
  rse_pid :: u32
  rse_rss_bytes :: u64
  rse_vsz_bytes :: u64
  rse_cpu_jiffies :: u64

record WorkerSnapshotEntry =
  wse_task_id :: string
  wse_state :: string
  wse_prompt_preview :: string
  wse_started_at :: "string option"
  wse_parent_task_id :: "string option"
  wse_session_id :: "string option"

record RunFinishedSummary =
  rfs_tasks_total :: nat
  rfs_tasks_failed :: nat

text \<open>\<^verbatim>\<open>ApprovalPlanWire\<close> has the fields of the plan and is the plan here.\<close>

datatype ControlEvent =
    Hello string string string "string list" "ApprovalRule list"
  | OpAcked string "string option"
  | OpFailed string "string option" string
  | OpUnknown string
  | OpUnknownState string string string
  | EvApprovalRequest string string string "ApprovalPlan option" ApprovalKind
  | WorkersSnapshot "WorkerSnapshotEntry list"
  | Superseded
  | RunFinished RunFinishedSummary
  | StoreActivity "ActorActivityEntry list"
  | ResourceSample "ResourceSampleEntry list" u64 "u64 option" "u64 option" "u64 option"
  | ResourcePressure PressureLevel u64 u64 string
  | SubleadSpawned string "f64 option" "f64 option" "u32 option" bool
  | WorkerFailed string "string option" FailureReason "TerminateReason option"
  | SubleadTerminated string f64 f64 TerminationOutcome
  | PersistenceGap u64

record EventEnvelope =
  env_actor_path :: ActorPath
  env_seq :: u64
  env_event :: ControlEvent

datatype DeniedReasonKind =
    DeniedByRule | DeniedByPolicy | DeniedByProfile | DeniedByMcpServerAllowlist
  | OperatorRejected | TtlExpired

datatype TaskEvent =
    TePause int "string option"
  | TeContinue int string string
  | TeReprompt int string string
  | TeApprovalRequest int string string
  | TeApprovalResponse int string bool bool
  | TeNotificationFailed int string string string
  | TeToolDenied int string string DeniedReasonKind string
  | TeToolAutoApproved int string string string

datatype PitbossEvent =
    PeApprovalRequest string string string
  | PeApprovalPending string string string
  | PeRunDispatched string "string option" string string bool
  | PeRunFinished string nat nat u64 f64
  | PeBudgetExceeded string f64 f64

record EventLog =
  log_seq :: u64
  log_enabled :: bool
  log_rows :: "EventEnvelope list"

definition next_seq :: "EventLog \<Rightarrow> u64 \<times> EventLog" where
  "next_seq l = (log_seq l + 1, l\<lparr>log_seq := log_seq l + 1\<rparr>)"

definition persist :: "EventEnvelope \<Rightarrow> EventLog \<Rightarrow> EventLog" where
  "persist env l =
     (if \<not> log_enabled l then l
      else case env_event env of
             Hello _ _ _ _ _ \<Rightarrow> l
           | _ \<Rightarrow> l\<lparr>log_rows := log_rows l @ [env]\<rparr>)"

text \<open>
  An outbound connection: its channel holds the envelopes its pump has not taken, up to the capacity,
  and is closed once the receiver is gone.
\<close>

record ControlWriterSlot =
  cw_id :: string
  cw_queue :: "EventEnvelope list"
  cw_open :: bool

definition CONTROL_EVENT_QUEUE_CAP :: nat where
  "CONTROL_EVENT_QUEUE_CAP = 512"

definition try_send :: "EventEnvelope \<Rightarrow> ControlWriterSlot \<Rightarrow> ControlWriterSlot option" where
  "try_send env w =
     (if cw_open w \<and> length (cw_queue w) < CONTROL_EVENT_QUEUE_CAP
      then Some (w\<lparr>cw_queue := cw_queue w @ [env]\<rparr>) else None)"

section \<open>Layers and the run\<close>

record LayerState =
  run_id :: string
  manifest :: ResolvedManifest
  cancel :: CancelToken
  lead_id :: string
  workers :: WorkerRegistry
  budget :: BudgetState
  approvals :: ApprovalState
  control_writer :: "ControlWriterSlot option"
  notification_router :: "(Severity \<times> PitbossEvent) list option"
  shared_store :: SharedStore
  original_reservation_usd :: "f64 option"
  reprompt_tx :: "string list option"

definition layer_new ::
  "string \<Rightarrow> ResolvedManifest \<Rightarrow> CancelToken \<Rightarrow> string \<Rightarrow> ApprovalPolicy \<Rightarrow>
     (Severity \<times> PitbossEvent) list option \<Rightarrow> SharedStore \<Rightarrow> f64 option \<Rightarrow> LayerState" where
  "layer_new rid mf tok lid pol router store reservation =
     \<lparr>run_id = rid, manifest = mf, cancel = tok, lead_id = lid, workers = new_workers, budget = new_budget,
      approvals = new_approvals pol, control_writer = None, notification_router = router,
      shared_store = store, original_reservation_usd = reservation, reprompt_tx = None\<rparr>"

record LastApprovalResponse =
  last_approved :: bool
  last_from_ttl :: bool
  last_received_at :: int

datatype ApprovalTerminationKind = KindRejected | KindTimedOut

record ActorIdentity =
  ident_actor_id :: string
  ident_actor_role :: string

record SubleadTerminalRecord =
  str_sublead_id :: string
  str_outcome :: TerminationOutcome
  str_spent_usd :: f64
  str_unspent_usd :: f64
  str_terminated_at :: int

record RateLimitState =
  hit_at :: int
  resets_at :: "int option"

record ApiHealth =
  rate_limit :: "RateLimitState option"
  auth_failure :: "int option"

text \<open>
  \<^verbatim>\<open>DispatchState\<close>. Besides its fields the record has the oneshot channels between requesters
  and responders (the answer, once sent, and whether the receiver is still there), the audit rows
  handed to \<^verbatim>\<open>append_event\<close>, the records handed to the session store and the run-wide event bus.
\<close>

record Oneshot =
  os_open :: bool
  os_sent :: "ApprovalResponse option"

record DispatchState =
  root :: LayerState
  subleads :: "(string \<times> LayerState) list"
  sublead_results :: "(string \<times> SubleadTerminalRecord) list"
  terminated_sublead_layers :: "LayerState list"
  worker_layer_index :: "(string \<times> string option) list"
  run_leases :: RunLeaseRegistry
  last_approval_response :: "(string \<times> LastApprovalResponse) list"
  api_health :: ApiHealth
  actor_tokens :: "(string \<times> ActorIdentity) list"
  sublead_actor_types :: "(string \<times> string) list"
  event_log :: EventLog
  events_bus :: "EventEnvelope list"
  audit :: "(string \<times> TaskEvent) list"
  records :: "TaskRecord list"
  oneshots :: "(string \<times> Oneshot) list"

definition new_dispatch ::
  "string \<Rightarrow> ResolvedManifest \<Rightarrow> string \<Rightarrow> ApprovalPolicy \<Rightarrow> (Severity \<times> PitbossEvent) list option \<Rightarrow>
     SharedStore \<Rightarrow> DispatchState" where
  "new_dispatch rid mf lid pol router store =
     \<lparr>root = layer_new rid mf new_cancel lid pol router store None, subleads = [], sublead_results = [],
      terminated_sublead_layers = [], worker_layer_index = [], run_leases = [],
      last_approval_response = [], api_health = \<lparr>rate_limit = None, auth_failure = None\<rparr>,
      actor_tokens = [], sublead_actor_types = [],
      event_log = \<lparr>log_seq = 0, log_enabled = emit_event_stream mf, log_rows = []\<rparr>,
      events_bus = [], audit = [], records = [], oneshots = []\<rparr>"

end
