(* ===== verification/Dispatch_Ops.thy ===== *)
theory Dispatch_Ops
  imports Dispatch_State
begin

text \<open>
  Operations of the layer and the run (\<^verbatim>\<open>dispatch/layer.rs\<close>, \<^verbatim>\<open>dispatch/state.rs\<close>,
  \<^verbatim>\<open>dispatch/failure_detection.rs\<close>, the routing helpers of \<^verbatim>\<open>mcp/server.rs\<close>): event
  broadcast, worker counts, cancel registration and cascade, authentication tokens, the last approval
  response and the reclassification it drives, and the API health gate. The lemmas show what a token
  lookup can return through any sequence of token calls and when the health gate refuses.
\<close>

text \<open>A layer by name: an \<^verbatim>\<open>Arc<LayerState>\<close> the code holds.\<close>

datatype LayerRef = RootLayer | SubLayer string

section \<open>Layer operations\<close>

definition broadcast_control_event :: "EventEnvelope \<Rightarrow> DispatchState \<Rightarrow> DispatchState" where
  "broadcast_control_event env s =
     (let (n, l) = next_seq (event_log s)
      in s\<lparr>event_log := l, events_bus := events_bus s @ [env\<lparr>env_seq := n\<rparr>]\<rparr>)"

fun is_active :: "WorkerState \<Rightarrow> bool" where
  "is_active Pending = True"
| "is_active (Running a b) = True"
| "is_active (Paused a b c) = True"
| "is_active (Frozen a b c) = True"
| "is_active (Done r) = False"

definition active_worker_count :: "LayerState \<Rightarrow> nat" where
  "active_worker_count l =
     length (filter (\<lambda>(wid, w). wid \<noteq> lead_id l \<and> is_active w) (states (workers l)))"

definition budget_remaining :: "LayerState \<Rightarrow> f64 option" where
  "budget_remaining l =
     (case budget_usd (manifest l) of
        None \<Rightarrow> None
      | Some b \<Rightarrow> Some (fmax (fsub b (spent_usd (budget l))) (Fin 0)))"

definition set_policy_matcher :: "PolicyMatcher \<Rightarrow> LayerState \<Rightarrow> LayerState" where
  "set_policy_matcher m l = l\<lparr>approvals := (approvals l)\<lparr>matcher := Some m\<rparr>\<rparr>"

definition register_worker_cancel :: "string \<Rightarrow> CancelToken \<Rightarrow> LayerState \<Rightarrow> LayerState" where
  "register_worker_cancel tid token l =
     l\<lparr>workers := (workers l)\<lparr>cancels :=
        hm_insert plain tid (cascade_to (cancel l) token) (cancels (workers l))\<rparr>\<rparr>"

definition cascade_to_workers :: "LayerState \<Rightarrow> LayerState" where
  "cascade_to_workers l =
     l\<lparr>workers := (workers l)\<lparr>cancels :=
        map (\<lambda>(wid, tok). (wid, cascade_to (cancel l) tok)) (cancels (workers l))\<rparr>\<rparr>"

definition send_synthetic_reprompt :: "string \<Rightarrow> LayerState \<Rightarrow> LayerState" where
  "send_synthetic_reprompt message l =
     (case reprompt_tx l of
        Some sent \<Rightarrow> l\<lparr>reprompt_tx := Some (sent @ [message])\<rparr>
      | None \<Rightarrow> l)"

section \<open>Run operations\<close>

definition register_sublead :: "string \<Rightarrow> LayerState \<Rightarrow> DispatchState \<Rightarrow> DispatchState" where
  "register_sublead sid sub_layer s =
     s\<lparr>subleads := hm_insert plain sid
        (sub_layer\<lparr>cancel := cascade_to (cancel (root s)) (cancel sub_layer)\<rparr>) (subleads s)\<rparr>"

definition cascade_to_subleads :: "DispatchState \<Rightarrow> DispatchState" where
  "cascade_to_subleads s =
     s\<lparr>subleads := map (\<lambda>(sid, l). (sid, l\<lparr>cancel := cascade_to (cancel (root s)) (cancel l)\<rparr>))
        (subleads s)\<rparr>"

definition mint_token :: "string \<Rightarrow> string \<Rightarrow> string \<Rightarrow> DispatchState \<Rightarrow> string \<times> DispatchState" where
  "mint_token uuid actor role s =
     (uuid, s\<lparr>actor_tokens := hm_insert plain uuid
        \<lparr>ident_actor_id = actor, ident_actor_role = role\<rparr> (actor_tokens s)\<rparr>)"

definition lookup_token :: "string \<Rightarrow> DispatchState \<Rightarrow> ActorIdentity option" where
  "lookup_token token s = hm_get plain token (actor_tokens s)"

definition revoke_token :: "string \<Rightarrow> DispatchState \<Rightarrow> bool \<times> DispatchState" where
  "revoke_token token s =
     (hm_get plain token (actor_tokens s) \<noteq> None,
      s\<lparr>actor_tokens := hm_remove plain token (actor_tokens s)\<rparr>)"

definition revoke_tokens_for_actor :: "string \<Rightarrow> DispatchState \<Rightarrow> nat \<times> DispatchState" where
  "revoke_tokens_for_actor actor s =
     (let kept = filter (\<lambda>(_, ident). ident_actor_id ident \<noteq> actor) (actor_tokens s)
      in (length (actor_tokens s) - length kept, s\<lparr>actor_tokens := kept\<rparr>))"

definition record_last_approval_response ::
  "string \<Rightarrow> bool \<Rightarrow> bool \<Rightarrow> int \<Rightarrow> DispatchState \<Rightarrow> DispatchState" where
  "record_last_approval_response actor approved from_ttl now s =
     s\<lparr>last_approval_response := hm_insert plain actor
        \<lparr>last_approved = approved, last_from_ttl = from_ttl, last_received_at = now\<rparr>
        (last_approval_response s)\<rparr>"

definition approval_driven_termination ::
  "string \<Rightarrow> int \<Rightarrow> DispatchState \<Rightarrow> ApprovalTerminationKind option" where
  "approval_driven_termination actor now s =
     (let pol = (case denial_termination_policy (manifest (root s)) of Some p \<Rightarrow> p | None \<Rightarrow> Adapt)
      in if pol = Adapt then None
         else
           (case hm_get plain actor (last_approval_response s) of
              None \<Rightarrow> None
            | Some entry \<Rightarrow>
                if last_approved entry then None
                else if num_seconds (now - last_received_at entry) > 30 then None
                else if last_from_ttl entry then Some KindTimedOut
                else Some KindRejected))"

section \<open>Routing\<close>

definition resolve_layer_for_caller ::
  "DispatchState \<Rightarrow> string \<Rightarrow> ActorRole \<Rightarrow> string + LayerState" where
  "resolve_layer_for_caller s actor role =
     (case role of
        Lead \<Rightarrow> Inr (root s)
      | Sublead \<Rightarrow>
          (case hm_get plain actor (subleads s) of
             Some l \<Rightarrow> Inr l
           | None \<Rightarrow> Inl (''unknown sublead_id: '' @ actor))
      | Worker \<Rightarrow>
          (case hm_get plain actor (worker_layer_index s) of
             None \<Rightarrow> Inr (root s)
           | Some None \<Rightarrow> Inr (root s)
           | Some (Some sid) \<Rightarrow>
               (case hm_get plain sid (subleads s) of
                  Some l \<Rightarrow> Inr l
                | None \<Rightarrow> Inl (''worker '' @ actor @ '' registered in unknown sub-tree '' @ sid))))"

section \<open>API health\<close>

datatype SpawnGateReason = GateRateLimited int | GateAuthFailed int

definition RATE_LIMIT_DEFAULT_BACKOFF_SECS :: int where
  "RATE_LIMIT_DEFAULT_BACKOFF_SECS = 300"

definition AUTH_FAILURE_BACKOFF_SECS :: int where
  "AUTH_FAILURE_BACKOFF_SECS = 600"

definition health_record :: "FailureReason \<Rightarrow> int \<Rightarrow> ApiHealth \<Rightarrow> ApiHealth" where
  "health_record reason now h =
     (case reason of
        RateLimit r \<Rightarrow> h\<lparr>rate_limit := Some \<lparr>hit_at = now, resets_at = r\<rparr>\<rparr>
      | AuthFailure \<Rightarrow> h\<lparr>auth_failure := Some now\<rparr>
      | _ \<Rightarrow> h)"

definition check_can_spawn :: "int \<Rightarrow> ApiHealth \<Rightarrow> SpawnGateReason + unit" where
  "check_can_spawn now h =
     (let rate_check =
        (case rate_limit h of
           None \<Rightarrow> Inr ()
         | Some st \<Rightarrow>
             (let retry_after = (case resets_at st of Some r \<Rightarrow> r
                | None \<Rightarrow> hit_at st + RATE_LIMIT_DEFAULT_BACKOFF_SECS * ns_per_sec)
              in if now < retry_after then Inl (GateRateLimited retry_after) else Inr ()))
      in case auth_failure h of
           Some hit \<Rightarrow>
             (let clears_at = hit + AUTH_FAILURE_BACKOFF_SECS * ns_per_sec
              in if now < clears_at then Inl (GateAuthFailed clears_at) else rate_check)
         | None \<Rightarrow> rate_check)"

section \<open>Tokens\<close>

datatype TokenCall = MintToken string string string | RevokeToken string | RevokeActor string

fun token_call :: "TokenCall \<Rightarrow> DispatchState \<Rightarrow> DispatchState" where
  "token_call (MintToken uuid actor role) s = snd (mint_token uuid actor role s)"
| "token_call (RevokeToken token) s = snd (revoke_token token s)"
| "token_call (RevokeActor actor) s = snd (revoke_tokens_for_actor actor s)"

definition token_calls :: "TokenCall list \<Rightarrow> DispatchState \<Rightarrow> DispatchState" where
  "token_calls cs s = fold token_call cs s"

lemma lookup_after_mint:
  "lookup_token t (snd (mint_token u a r s)) =
     (if t = u then Some \<lparr>ident_actor_id = a, ident_actor_role = r\<rparr> else lookup_token t s)"
  by (simp add: lookup_token_def mint_token_def hm_simps)

lemma lookup_after_revoke:
  "lookup_token t (snd (revoke_token u s)) = (if t = u then None else lookup_token t s)"
  by (simp add: lookup_token_def revoke_token_def hm_simps)


lemma lookup_after_revoke_actor:
  assumes "hm_wf plain (actor_tokens s)"
  shows "lookup_token t (snd (revoke_tokens_for_actor a s)) =
    (case lookup_token t s of Some i \<Rightarrow> if ident_actor_id i \<noteq> a then Some i else None | None \<Rightarrow> None)"
  using hm_get_filter_val [OF assms, of t "\<lambda>i. ident_actor_id i \<noteq> a"]
  by (simp add: lookup_token_def revoke_tokens_for_actor_def Let_def)

lemma token_call_wf:
  assumes "hm_wf plain (actor_tokens s)"
  shows "hm_wf plain (actor_tokens (token_call c s))"
proof (cases c)
  case (RevokeActor a)
  then show ?thesis using assms
    by (auto simp: revoke_tokens_for_actor_def Let_def hm_wf_def distinct_map
        intro: inj_on_subset)
qed (use assms in \<open>auto simp: mint_token_def revoke_token_def intro: hm_wf_insert hm_wf_remove\<close>)

lemma token_calls_wf:
  "hm_wf plain (actor_tokens s) \<Longrightarrow> hm_wf plain (actor_tokens (token_calls cs s))"
  unfolding token_calls_def by (induction cs arbitrary: s) (auto intro: token_call_wf)

text \<open>A call that ends the life of token \<open>t\<close> bound to actor \<open>a\<close>.\<close>

fun kills_token :: "string \<Rightarrow> string \<Rightarrow> TokenCall \<Rightarrow> bool" where
  "kills_token t a (MintToken u _ _) = (u = t)"
| "kills_token t a (RevokeToken u) = (u = t)"
| "kills_token t a (RevokeActor b) = (b = a)"

text \<open>
  Starting from a run without tokens, after any sequence of mint and revoke calls a token
  resolves to an identity exactly when it was minted for that identity and no call since then has
  revoked the token, revoked its actor or minted the same token again. So a worker's revocation of
  its own token never drops the token minted for its resumed subprocess, and after the actor-wide
  revocation nothing authenticates as that actor until a new mint.
\<close>

theorem token_lifecycle:
  "actor_tokens s = [] \<Longrightarrow>
   lookup_token t (token_calls cs s) = Some i \<longleftrightarrow>
     (\<exists>xs ys. cs = xs @ MintToken t (ident_actor_id i) (ident_actor_role i) # ys \<and>
        (\<forall>c\<in>set ys. \<not> kills_token t (ident_actor_id i) c))"
proof (induction cs rule: rev_induct)
  case Nil
  then show ?case by (simp add: token_calls_def lookup_token_def)
next
  case (snoc c cs)
  let ?s = "token_calls cs s"
  have wf: "hm_wf plain (actor_tokens ?s)" using snoc.prems token_calls_wf by (simp add: hm_wf_def)
  have step: "token_calls (cs @ [c]) s = token_call c ?s" by (simp add: token_calls_def)
  let ?R = "\<lambda>cs. \<exists>xs ys. cs = xs @ MintToken t (ident_actor_id i) (ident_actor_role i) # ys \<and>
        (\<forall>c\<in>set ys. \<not> kills_token t (ident_actor_id i) c)"
  have R: "?R (cs @ [c]) \<longleftrightarrow>
      c = MintToken t (ident_actor_id i) (ident_actor_role i) \<or>
      (?R cs \<and> \<not> kills_token t (ident_actor_id i) c)"
    by (rule snoc_split_last)
  have "lookup_token t (token_call c ?s) = Some i \<longleftrightarrow>
      c = MintToken t (ident_actor_id i) (ident_actor_role i) \<or>
      (lookup_token t ?s = Some i \<and> \<not> kills_token t (ident_actor_id i) c)"
    by (cases c) (auto simp: lookup_after_mint lookup_after_revoke lookup_after_revoke_actor [OF wf]
        split: option.splits)
  then show ?case using snoc R step by simp
qed


definition base_state :: DispatchState where
  "base_state = new_dispatch ''run'' base_manifest ''lead'' PolicyBlock None new_store"

theorem token_lifecycle_witness:
  "actor_tokens base_state = [] \<and>
   lookup_token ''t2'' (token_calls [MintToken ''t1'' ''w'' ''worker'', MintToken ''t2'' ''w'' ''worker'',
     RevokeToken ''t1''] base_state) = Some \<lparr>ident_actor_id = ''w'', ident_actor_role = ''worker''\<rparr>"
proof -
  have e: "actor_tokens base_state = []" by (simp add: base_state_def new_dispatch_def)
  have "\<exists>xs ys. [MintToken ''t1'' ''w'' ''worker'', MintToken ''t2'' ''w'' ''worker'', RevokeToken ''t1''] =
      xs @ MintToken ''t2'' ''w'' ''worker'' # ys \<and> (\<forall>c\<in>set ys. \<not> kills_token ''t2'' ''w'' c)"
    by (intro exI [of _ "[MintToken ''t1'' ''w'' ''worker'']"] exI [of _ "[RevokeToken ''t1'']"]) simp
  then show ?thesis
    using token_lifecycle [OF e, of "''t2''" _ "\<lparr>ident_actor_id = ''w'', ident_actor_role = ''worker''\<rparr>"] e
    by simp
qed

end
