(* ===== verification/Budget.thy ===== *)
theory Budget
  imports Dispatch_Ops
begin

text \<open>
  Prices and budget counters (\<^verbatim>\<open>pitboss-core/src/prices.rs\<close>, the budget part of
  \<^verbatim>\<open>dispatch/layer.rs\<close>, \<^verbatim>\<open>dispatch/budget_watch.rs\<close>, the estimate and reservation
  helpers of \<^verbatim>\<open>mcp/tools/spawn.rs\<close>). Amounts are \<^typ>\<open>f64\<close> and every addition rounds.
\<close>

section \<open>Prices\<close>

definition ascii_lower :: "char \<Rightarrow> char" where
  "ascii_lower c = (let n = (of_char c :: nat) in if 65 \<le> n \<and> n \<le> 90 then char_of (n + 32) else c)"

definition contains_str :: "string \<Rightarrow> string \<Rightarrow> bool" where
  "contains_str s p = list_ex (\<lambda>n. starts_with (drop n s) p) [0..<Suc (length s)]"

record Rates =
  rate_input :: rat
  rate_output :: rat
  rate_cache_read :: rat
  rate_cache_write :: rat

text \<open>The literals of the source, before rounding.\<close>

definition rates_for :: "string \<Rightarrow> Rates option" where
  "rates_for model =
     (let lc = map ascii_lower model
      in if contains_str lc ''opus'' then
           Some \<lparr>rate_input = 15, rate_output = 75, rate_cache_read = 150 / 100, rate_cache_write = 1875 / 100\<rparr>
         else if contains_str lc ''sonnet'' then
           Some \<lparr>rate_input = 3, rate_output = 15, rate_cache_read = 30 / 100, rate_cache_write = 375 / 100\<rparr>
         else if contains_str lc ''haiku'' then
           Some \<lparr>rate_input = 80 / 100, rate_output = 4, rate_cache_read = 8 / 100, rate_cache_write = 1\<rparr>
         else None)"

definition priced :: "u64 \<Rightarrow> rat \<Rightarrow> f64" where
  "priced n rate_per_million = fdiv (fmul (f_of_nat (unat n)) (mk_f64 rate_per_million)) (Fin 1000000)"

definition cost_usd :: "string \<Rightarrow> TokenUsage \<Rightarrow> f64 option" where
  "cost_usd model usage =
     (case rates_for model of
        None \<Rightarrow> None
      | Some r \<Rightarrow>
          Some (fadd (fadd (fadd (priced (tu_input usage) (rate_input r))
                             (priced (tu_output usage) (rate_output r)))
                       (priced (tu_cache_read usage) (rate_cache_read r)))
                 (priced (tu_cache_creation usage) (rate_cache_write r))))"

section \<open>Counters\<close>

text \<open>\<^verbatim>\<open>BudgetCounter::add\<close>: the compare-and-swap loop, seen as the addition that goes through.\<close>

definition counter_add :: "f64 \<Rightarrow> f64 \<Rightarrow> f64" where
  "counter_add prev delta = fadd prev delta"

definition add_spent :: "f64 \<Rightarrow> LayerState \<Rightarrow> LayerState" where
  "add_spent cost l = l\<lparr>budget := (budget l)\<lparr>spent_usd := counter_add (spent_usd (budget l)) cost\<rparr>\<rparr>"

definition initial_estimate_for :: "string \<Rightarrow> f64" where
  "initial_estimate_for model =
     (let base = join_with CHR ''-'' (take 4 (split_on CHR ''-'' model))
      in if base = ''claude-opus-4-7'' then mk_f64 2
         else if base = ''claude-sonnet-4-6'' then mk_f64 (1 / 2)
         else mk_f64 (1 / 10))"

text \<open>\<^verbatim>\<open>sort_by(partial_cmp)\<close>, a stable insertion; NaN compares equal to everything.\<close>

fun insert_cost :: "f64 \<Rightarrow> f64 list \<Rightarrow> f64 list" where
  "insert_cost x [] = [x]"
| "insert_cost x (y # ys) = (if f_gt x y then y # insert_cost x ys else x # y # ys)"

definition sort_costs :: "f64 list \<Rightarrow> f64 list" where
  "sort_costs xs = foldr insert_cost xs []"

fun done_costs :: "(string \<times> string) list \<Rightarrow> string \<Rightarrow> (string \<times> WorkerState) list \<Rightarrow> f64 list" where
  "done_costs ms intended [] = []"
| "done_costs ms intended ((wid, w) # ws) =
     (case w of
        Done rec \<Rightarrow>
          (let m = (case hm_get plain wid ms of Some m \<Rightarrow> m | None \<Rightarrow> intended)
           in case cost_usd m (tr_token_usage rec) of
                Some c \<Rightarrow> c # done_costs ms intended ws
              | None \<Rightarrow> done_costs ms intended ws)
      | _ \<Rightarrow> done_costs ms intended ws)"

definition estimate_new_worker_cost_for_layer :: "LayerState \<Rightarrow> string \<Rightarrow> f64" where
  "estimate_new_worker_cost_for_layer l intended =
     (let costs = done_costs (models (workers l)) intended (states (workers l))
      in if costs = [] then initial_estimate_for intended
         else sort_costs costs ! (length costs div 2))"

definition release_reservation_for_layer :: "string \<Rightarrow> LayerState \<Rightarrow> LayerState" where
  "release_reservation_for_layer tid l =
     (let amount = (case hm_get plain tid (reservations (workers l)) of Some a \<Rightarrow> a | None \<Rightarrow> Fin 0);
          l = l\<lparr>workers := (workers l)\<lparr>reservations := hm_remove plain tid (reservations (workers l))\<rparr>\<rparr>
      in if f_gt amount (Fin 0)
         then l\<lparr>budget := (budget l)\<lparr>reserved_usd := fmax (fsub (reserved_usd (budget l)) amount) (Fin 0)\<rparr>\<rparr>
         else l)"

section \<open>The live budget watch\<close>

record SpendBreakdown =
  workers_usd :: f64
  lead_usd :: f64
  subleads_usd :: f64
  live_subleads_self_usd :: f64

definition total_usd :: "SpendBreakdown \<Rightarrow> f64" where
  "total_usd b = fadd (fadd (workers_usd b) (lead_usd b)) (live_subleads_self_usd b)"

definition compute_total_spend :: "DispatchState \<Rightarrow> SpendBreakdown" where
  "compute_total_spend s =
     (let live = map snd (subleads s);
          self = foldl (\<lambda>acc l. fadd acc (lead_spent_usd (budget l)));
          workers_subs = foldl (\<lambda>acc l. fadd acc (spent_usd (budget l))) (Fin 0) live
      in \<lparr>workers_usd = fadd (spent_usd (budget (root s))) workers_subs,
          lead_usd = lead_spent_usd (budget (root s)),
          subleads_usd = self (self (Fin 0) live) (terminated_sublead_layers s),
          live_subleads_self_usd = self (Fin 0) live\<rparr>)"

text \<open>
  A layer by reference. The code holds an \<^verbatim>\<open>Arc<LayerState>\<close>: a sub-lead's layer stays
  the same object when it moves from \<^verbatim>\<open>subleads\<close> to \<^verbatim>\<open>terminated_sublead_layers\<close>, where its
  \<^verbatim>\<open>lead_id\<close> is the sub-lead's id.
\<close>

definition layer_of :: "LayerRef \<Rightarrow> DispatchState \<Rightarrow> LayerState option" where
  "layer_of ref s =
     (case ref of
        RootLayer \<Rightarrow> Some (root s)
      | SubLayer sid \<Rightarrow>
          (case hm_get plain sid (subleads s) of
             Some l \<Rightarrow> Some l
           | None \<Rightarrow> find (\<lambda>l. lead_id l = sid) (terminated_sublead_layers s)))"

definition upd_layer :: "LayerRef \<Rightarrow> (LayerState \<Rightarrow> LayerState) \<Rightarrow> DispatchState \<Rightarrow> DispatchState" where
  "upd_layer ref f s =
     (case ref of
        RootLayer \<Rightarrow> s\<lparr>root := f (root s)\<rparr>
      | SubLayer sid \<Rightarrow>
          s\<lparr>subleads := hm_update sid f (subleads s),
            terminated_sublead_layers :=
              map (\<lambda>l. if lead_id l = sid then f l else l) (terminated_sublead_layers s)\<rparr>)"

datatype AbortReason = LeadBudgetCap f64 f64 string | BudgetCap f64 f64 string

text \<open>The message of an abort; \<open>fmt4\<close> is \<^verbatim>\<open>{:.4}\<close>.\<close>

definition abort_message :: "(f64 \<Rightarrow> string) \<Rightarrow> AbortReason \<Rightarrow> string" where
  "abort_message fmt4 r =
     (case r of
        LeadBudgetCap spent cap actor \<Rightarrow>
          ''lead+sublead spend '' @ fmt4 spent @ '' exceeded lead_budget_usd cap '' @ fmt4 cap @
          '' (actor: '' @ actor @ '')''
      | BudgetCap spent cap actor \<Rightarrow>
          ''total run spend '' @ fmt4 spent @ '' exceeded budget_usd cap '' @ fmt4 cap @
          '' (lead actor: '' @ actor @ '')'')"

definition trip_budget_abort :: "string \<Rightarrow> LayerState \<Rightarrow> LayerState" where
  "trip_budget_abort reason l =
     l\<lparr>budget := (budget l)\<lparr>abort_reason := Some reason\<rparr>,
       cancel := terminate_with_reason (BudgetBreach (Some reason)) (cancel l)\<rparr>"

text \<open>One call of the usage observer: the layer of the lead, its model, the committed baseline, the caps.\<close>

definition lead_usage_observer ::
  "(f64 \<Rightarrow> string) \<Rightarrow> LayerRef \<Rightarrow> string \<Rightarrow> string \<Rightarrow> f64 \<Rightarrow> f64 option \<Rightarrow> f64 option \<Rightarrow> TokenUsage \<Rightarrow>
     DispatchState \<Rightarrow> DispatchState" where
  "lead_usage_observer fmt4 ref model actor baseline budget_cap lead_cap usage s =
     (let cost = (case cost_usd model usage of Some c \<Rightarrow> c | None \<Rightarrow> Fin 0);
          s = upd_layer ref (\<lambda>l. l\<lparr>budget := (budget l)\<lparr>lead_spent_usd := fadd baseline cost\<rparr>\<rparr>) s
      in case layer_of ref s of
           None \<Rightarrow> s
         | Some l \<Rightarrow>
             if abort_reason (budget l) \<noteq> None then s
             else
               (let b = compute_total_spend s;
                    self_total = fadd (lead_usd b) (subleads_usd b)
                in if (case lead_cap of Some cap \<Rightarrow> f_gt self_total cap | None \<Rightarrow> False)
                   then upd_layer ref (trip_budget_abort
                          (abort_message fmt4 (LeadBudgetCap self_total (the lead_cap) actor))) s
                   else if (case budget_cap of Some cap \<Rightarrow> f_gt (total_usd b) cap | None \<Rightarrow> False)
                   then upd_layer ref (trip_budget_abort
                          (abort_message fmt4 (BudgetCap (total_usd b) (the budget_cap) actor))) s
                   else s))"

definition commit_iteration :: "string \<Rightarrow> TokenUsage \<Rightarrow> f64 \<Rightarrow> f64" where
  "commit_iteration model usage baseline =
     fadd baseline (case cost_usd model usage of Some c \<Rightarrow> c | None \<Rightarrow> Fin 0)"

section \<open>Layers under updates\<close>

named_theorems layer_simps

lemma root_upd [layer_simps]: "root (upd_layer ref f s) = (if ref = RootLayer then f (root s) else root s)"
  by (cases ref) (simp_all add: upd_layer_def)

lemma upd_layer_frame [layer_simps]:
  "sublead_results (upd_layer ref f s) = sublead_results s"
  "worker_layer_index (upd_layer ref f s) = worker_layer_index s"
  "run_leases (upd_layer ref f s) = run_leases s"
  "last_approval_response (upd_layer ref f s) = last_approval_response s"
  "api_health (upd_layer ref f s) = api_health s"
  "actor_tokens (upd_layer ref f s) = actor_tokens s"
  "sublead_actor_types (upd_layer ref f s) = sublead_actor_types s"
  "event_log (upd_layer ref f s) = event_log s"
  "events_bus (upd_layer ref f s) = events_bus s"
  "audit (upd_layer ref f s) = audit s"
  "records (upd_layer ref f s) = records s"
  "oneshots (upd_layer ref f s) = oneshots s"
  by (cases ref; simp add: upd_layer_def)+

lemma subleads_upd [layer_simps]:
  "hm_get plain sid (subleads (upd_layer ref f s)) =
     (if ref = SubLayer sid then map_option f (hm_get plain sid (subleads s)) else hm_get plain sid (subleads s))"
  by (cases ref) (auto simp: upd_layer_def hm_simps option.map_id0 option.map_ident)

lemma find_map_key:
  "(\<And>x. key (f x) = key x) \<Longrightarrow>
   find (\<lambda>x. key x = k) (map (\<lambda>x. if key x = j then f x else x) xs) =
     map_option (\<lambda>x. if k = j then f x else x) (find (\<lambda>x. key x = k) xs)"
  by (induction xs) auto

text \<open>A layer is looked up by its \<^const>\<open>lead_id\<close> once terminated, so updates must keep that field.\<close>

lemma layer_of_upd [layer_simps]:
  assumes "\<And>l. lead_id (f l) = lead_id l"
  shows "layer_of r (upd_layer ref f s) = map_option (\<lambda>l. if r = ref then f l else l) (layer_of r s)"
proof (cases r)
  case (SubLayer sid)
  show ?thesis
  proof (cases ref)
    case (SubLayer sid')
    show ?thesis
      using find_map_key [of lead_id f sid sid' "terminated_sublead_layers s", OF assms] \<open>r = SubLayer sid\<close> SubLayer
      by (auto simp: layer_of_def upd_layer_def hm_simps split: option.splits)
  qed (use \<open>r = SubLayer sid\<close> in \<open>auto simp: layer_of_def upd_layer_def option.map_id0 option.map_ident split: option.splits\<close>)
qed (cases ref; simp add: layer_of_def upd_layer_def)

section \<open>Signs\<close>

lemma rn_pow2: "- 1000 \<le> j \<Longrightarrow> rn (2 powi j) = 2 powi j"
proof -
  assume "- 1000 \<le> j"
  moreover have "ilog2 (2 powi j) = j" by (rule ilog2_unique) (simp_all add: power_int_add)
  ultimately have "ulp_exp (2 powi j) \<le> j" by (simp add: ulp_exp_def)
  then have "rn_pos (2 powi j) = 2 powi j" by (intro rn_pos_exact [of _ 1 j]) simp_all
  then show ?thesis by (simp add: rn_def)
qed

lemma mk_rate: "1 / 64 \<le> r \<Longrightarrow> r \<le> 128 \<Longrightarrow> \<exists>x. mk_f64 r = Fin x \<and> 0 < x"
proof -
  assume r: "1 / 64 \<le> r" "r \<le> (128 :: rat)"
  have lo: "rn (1 / 64) = 1 / 64" using rn_pow2 [of "- 6"] by (simp add: power_int_def power_divide)
  have hi: "rn 128 = 128" using rn_pow2 [of 7] by (simp add: power_int_def)
  have "1 / 64 \<le> rn r" "rn r \<le> 128" using rn_mono [OF r(1)] rn_mono [OF r(2)] lo hi by simp_all
  moreover have "(128 :: rat) < 2 ^ 1024" "- (2 ^ 1024) < (0 :: rat)" by simp_all
  ultimately show ?thesis by (auto simp: mk_f64_def Let_def)
qed

lemma priced_nn: "1 / 64 \<le> r \<Longrightarrow> r \<le> 128 \<Longrightarrow> fnn (priced n r)"
  using mk_rate [of r] fmul_nn_pos [OF f_of_nat_nn] fdiv_nn by (auto simp: priced_def)

lemma cost_usd_nn: "cost_usd model usage = Some c \<Longrightarrow> fnn c"
  by (auto simp: cost_usd_def rates_for_def Let_def priced_nn split: option.splits if_splits
      intro!: fadd_nn)

lemma initial_estimate_nn: "fnn (initial_estimate_for model)"
  by (simp add: initial_estimate_for_def Let_def mk_f64_nn)

lemma initial_estimate_repr: "frepr (initial_estimate_for model)"
  by (simp add: initial_estimate_for_def Let_def frepr_mk)

lemma frepr_priced: "frepr (priced n r)"
  by (cases "fmul (f_of_nat (unat n)) (mk_f64 r)")
    (auto simp: priced_def frepr_mk finf_def, auto simp: frepr_def)

lemma cost_usd_repr: "cost_usd model usage = Some c \<Longrightarrow> frepr c"
  by (auto simp: cost_usd_def frepr_priced split: option.splits intro!: frepr_fadd)

lemma insert_cost_set: "set (insert_cost x ys) = insert x (set ys)"
  by (induction ys) auto

lemma sort_costs_set: "set (sort_costs xs) = set xs"
  unfolding sort_costs_def by (induction xs) (simp_all add: insert_cost_set)

lemma insert_cost_length: "length (insert_cost x ys) = Suc (length ys)"
  by (induction ys) auto

lemma sort_costs_length: "length (sort_costs xs) = length xs"
  unfolding sort_costs_def by (induction xs) (simp_all add: insert_cost_length)

lemma done_costs_nn: "c \<in> set (done_costs ms intended ws) \<Longrightarrow> fnn c \<and> frepr c"
  by (induction ms intended ws rule: done_costs.induct)
    (auto simp: Let_def dest: cost_usd_nn cost_usd_repr split: WorkerState.splits option.splits)

lemma estimate_nn:
  "fnn (estimate_new_worker_cost_for_layer l m) \<and> frepr (estimate_new_worker_cost_for_layer l m)"
proof (cases "done_costs (models (workers l)) m (states (workers l)) = []")
  case True
  then show ?thesis
    by (simp add: estimate_new_worker_cost_for_layer_def initial_estimate_nn initial_estimate_repr)
next
  case False
  let ?c = "done_costs (models (workers l)) m (states (workers l))"
  have "sort_costs ?c ! (length ?c div 2) \<in> set ?c"
    using False nth_mem [of "length ?c div 2" "sort_costs ?c"] by (simp add: sort_costs_set sort_costs_length)
  then show ?thesis using False done_costs_nn
    by (simp add: estimate_new_worker_cost_for_layer_def Let_def)
qed

end
