(* ===== verification/Actor_Type.thy ===== *)
theory Actor_Type
  imports Manifest_Types
begin

text \<open>
  Typed actor profiles (\<^verbatim>\<open>manifest/actor_type.rs\<close>) and the depth-2 rules
  (\<^verbatim>\<open>dispatch/depth.rs\<close>): resolving a requested \<^verbatim>\<open>worker_type\<close> or \<^verbatim>\<open>sublead_type\<close>,
  the tool-subset and model checks, the clamps that only lower a request, and who may spawn a
  sub-lead. An error value stands for each \<^verbatim>\<open>bail!\<close>, with the values its message shows.
\<close>

section \<open>Profile resolution\<close>

datatype ProfileError =
    NoProfilesDeclared string
  | UnknownType string "string list"
  | RequiredButNoneDeclared
  | RequiredTypeMissing "string list"
  | ToolNotAllowed string string string "string list"
  | ModelNotAllowed string string string "string list"

datatype WorkerProfileResolution = WpUntyped | WpTyped WorkerType
datatype SubleadProfileResolution = SpUntyped | SpTyped SubleadType

definition resolve_worker_profile ::
  "string option \<Rightarrow> WorkerType list \<Rightarrow> bool \<Rightarrow> ProfileError + WorkerProfileResolution" where
  "resolve_worker_profile requested profiles require_type =
     (case requested of
        Some tid \<Rightarrow>
          (case find (\<lambda>wt. wt_id wt = tid) profiles of
             Some wt \<Rightarrow> Inr (WpTyped wt)
           | None \<Rightarrow>
               if profiles = [] then Inl (NoProfilesDeclared tid)
               else Inl (UnknownType tid (map wt_id profiles)))
      | None \<Rightarrow>
          if require_type then
            (let known = map wt_id profiles
             in if known = [] then Inl RequiredButNoneDeclared else Inl (RequiredTypeMissing known))
          else Inr WpUntyped)"

definition resolve_sublead_profile ::
  "string option \<Rightarrow> SubleadType list \<Rightarrow> bool \<Rightarrow> ProfileError + SubleadProfileResolution" where
  "resolve_sublead_profile requested profiles require_type =
     (case requested of
        Some tid \<Rightarrow>
          (case find (\<lambda>st. st_id st = tid) profiles of
             Some st \<Rightarrow> Inr (SpTyped st)
           | None \<Rightarrow>
               if profiles = [] then Inl (NoProfilesDeclared tid)
               else Inl (UnknownType tid (map st_id profiles)))
      | None \<Rightarrow>
          if require_type then
            (let known = map st_id profiles
             in if known = [] then Inl RequiredButNoneDeclared else Inl (RequiredTypeMissing known))
          else Inr SpUntyped)"

section \<open>Checks and clamps\<close>

fun check_tool_subset ::
  "string \<Rightarrow> string \<Rightarrow> string list \<Rightarrow> string list \<Rightarrow> ProfileError + unit" where
  "check_tool_subset spawn_kind profile_id profile_tools [] = Inr ()"
| "check_tool_subset spawn_kind profile_id profile_tools (t # requested) =
     (if \<not> list_ex (\<lambda>allowed. allowed = t) profile_tools
      then Inl (ToolNotAllowed spawn_kind profile_id t profile_tools)
      else check_tool_subset spawn_kind profile_id profile_tools requested)"

definition check_model_allowed ::
  "string \<Rightarrow> string \<Rightarrow> string list \<Rightarrow> string \<Rightarrow> ProfileError + unit" where
  "check_model_allowed spawn_kind profile_id allowed_models model =
     (if allowed_models = [] then Inr ()
      else if \<not> list_ex (\<lambda>m. m = model) allowed_models
      then Inl (ModelNotAllowed spawn_kind profile_id model allowed_models)
      else Inr ())"

definition worker_agent_profile ::
  "WorkerType option \<Rightarrow> (string \<times> AgentProfile) list \<Rightarrow> AgentProfile option" where
  "worker_agent_profile wt catalogue =
     (case Option.bind wt wt_agent_profile of
        None \<Rightarrow> None
      | Some pid \<Rightarrow> hm_get plain pid catalogue)"

definition sublead_agent_profile ::
  "SubleadType option \<Rightarrow> (string \<times> AgentProfile) list \<Rightarrow> AgentProfile option" where
  "sublead_agent_profile st catalogue =
     (case Option.bind st st_agent_profile of
        None \<Rightarrow> None
      | Some pid \<Rightarrow> hm_get plain pid catalogue)"

definition clamp_down_u64 :: "u64 \<Rightarrow> u64 option \<Rightarrow> u64" where
  "clamp_down_u64 requested cap = (case cap of Some c \<Rightarrow> min requested c | None \<Rightarrow> requested)"

text \<open>\<^verbatim>\<open>f64::min\<close>: a NaN operand is ignored.\<close>

definition fmin :: "f64 \<Rightarrow> f64 \<Rightarrow> f64" where
  "fmin x y = (if x = NaN then y else if y = NaN then x else if f_gt x y then y else x)"

definition clamp_down_f64 :: "f64 option \<Rightarrow> f64 option \<Rightarrow> f64 option" where
  "clamp_down_f64 requested cap =
     (case (requested, cap) of
        (Some r, Some c) \<Rightarrow> Some (fmin r c)
      | (Some r, None) \<Rightarrow> Some r
      | (None, Some c) \<Rightarrow> Some c
      | (None, None) \<Rightarrow> None)"

section \<open>Depth-2 rules\<close>

definition ROOT_ONLY_TOOLS :: "string list" where
  "ROOT_ONLY_TOOLS = [''spawn_sublead'']"

definition is_root_only_tool :: "string \<Rightarrow> bool" where
  "is_root_only_tool name \<longleftrightarrow> name \<in> set ROOT_ONLY_TOOLS"

datatype DepthError =
    DisallowedSubleadSpawnCaller string
  | AllowSubleadsDisabled
  | NotHierarchical

definition validate_spawn_sublead_caller :: "string \<Rightarrow> DepthError + unit" where
  "validate_spawn_sublead_caller role =
     (if role = ''root_lead'' \<or> role = ''lead'' then Inr ()
      else Inl (DisallowedSubleadSpawnCaller role))"

definition validate_spawn_sublead_capability :: "ResolvedManifest \<Rightarrow> DepthError + ResolvedLead" where
  "validate_spawn_sublead_capability manifest =
     (case lead manifest of
        None \<Rightarrow> Inl NotHierarchical
      | Some l \<Rightarrow> if \<not> allow_subleads l then Inl AllowSubleadsDisabled else Inr l)"

definition assert_sublead_toolset_excludes_root_only :: "string list \<Rightarrow> string list" where
  "assert_sublead_toolset_excludes_root_only sublead_allowlist =
     filter (\<lambda>bare. list_ex (\<lambda>t. t = ''mcp__pitboss__'' @ bare) sublead_allowlist) ROOT_ONLY_TOOLS"

section \<open>What the checks guarantee\<close>

lemma check_tool_subset_ok:
  "check_tool_subset k i allowed requested = Inr () \<longleftrightarrow> set requested \<subseteq> set allowed"
  by (induction requested) (auto simp: list_ex_iff)

lemma check_tool_subset_find:
  "check_tool_subset k i allowed requested =
     (case find (\<lambda>t. t \<notin> set allowed) requested of
        None \<Rightarrow> Inr () | Some t \<Rightarrow> Inl (ToolNotAllowed k i t allowed))"
  by (induction requested) (auto simp: list_ex_iff)

lemma check_model_allowed_ok:
  "check_model_allowed k i allowed m = Inr () \<longleftrightarrow> allowed = [] \<or> m \<in> set allowed"
  by (auto simp: check_model_allowed_def list_ex_iff)

lemma clamp_down_u64_le: "clamp_down_u64 r cap \<le> r" "cap = Some c \<Longrightarrow> clamp_down_u64 r cap \<le> c"
  by (auto simp: clamp_down_u64_def split: option.splits)

end
