(* ===== verification/Approval.thy ===== *)
theory Approval
  imports Dispatch_Ops
begin

text \<open>
  The approval bridge (\<^verbatim>\<open>mcp/approval.rs\<close>), the control server's part of it
  (\<^verbatim>\<open>control/server.rs\<close>: the queue drain and replay when a client connects, the approve
  operation, the disconnect cleanup) and the TTL watcher (\<^verbatim>\<open>dispatch/runner.rs\<close>). A request is
  split where the code waits: \<open>request_begin\<close> runs up to the wait, \<open>request_timeout\<close> is what follows
  an elapsed timeout. \<^verbatim>\<open>Uuid::now_v7\<close> and the clock are arguments.
\<close>

section \<open>Counters, audit rows, notifications\<close>

definition counters_of :: "string \<Rightarrow> DispatchState \<Rightarrow> WorkerCounters" where
  "counters_of a s =
     (case hm_get plain a (counters (workers (root s))) of Some c \<Rightarrow> c | None \<Rightarrow> zero_worker_counters)"

definition upd_counters :: "string \<Rightarrow> (WorkerCounters \<Rightarrow> WorkerCounters) \<Rightarrow> DispatchState \<Rightarrow> DispatchState" where
  "upd_counters a f s =
     s\<lparr>root := (root s)\<lparr>workers := (workers (root s))\<lparr>counters :=
        hm_insert plain a (f (counters_of a s)) (counters (workers (root s)))\<rparr>\<rparr>\<rparr>"

definition bump_approval_requested :: "string \<Rightarrow> DispatchState \<Rightarrow> DispatchState" where
  "bump_approval_requested caller =
     upd_counters caller (\<lambda>c. c\<lparr>approvals_requested := approvals_requested c + 1\<rparr>)"

definition record_approval_outcome :: "string \<Rightarrow> bool \<Rightarrow> DispatchState \<Rightarrow> DispatchState" where
  "record_approval_outcome caller approved =
     upd_counters caller
       (\<lambda>c. if approved then c\<lparr>approvals_approved := approvals_approved c + 1\<rparr>
            else c\<lparr>approvals_rejected := approvals_rejected c + 1\<rparr>)"

definition append_event :: "string \<Rightarrow> TaskEvent \<Rightarrow> DispatchState \<Rightarrow> DispatchState" where
  "append_event tid ev s = s\<lparr>audit := audit s @ [(tid, ev)]\<rparr>"

definition notify_root :: "Severity \<Rightarrow> PitbossEvent \<Rightarrow> DispatchState \<Rightarrow> DispatchState" where
  "notify_root sev ev s =
     (case notification_router (root s) of
        None \<Rightarrow> s
      | Some sent \<Rightarrow> s\<lparr>root := (root s)\<lparr>notification_router := Some (sent @ [(sev, ev)])\<rparr>\<rparr>)"

text \<open>\<^verbatim>\<open>summary.chars().take(80)\<close> on UTF-8 bytes: a continuation byte belongs to the character before it.\<close>

definition is_continuation :: "char \<Rightarrow> bool" where
  "is_continuation c \<longleftrightarrow> 128 \<le> (of_char c :: nat) \<and> (of_char c :: nat) < 192"

fun take_chars :: "nat \<Rightarrow> string \<Rightarrow> string" where
  "take_chars n [] = []"
| "take_chars n (c # cs) =
     (if is_continuation c then c # take_chars n cs
      else case n of 0 \<Rightarrow> [] | Suc m \<Rightarrow> c # take_chars m cs)"

section \<open>Oneshot channels\<close>

definition oneshot_send :: "string \<Rightarrow> ApprovalResponse \<Rightarrow> DispatchState \<Rightarrow> bool \<times> DispatchState" where
  "oneshot_send ch resp s =
     (case hm_get plain ch (oneshots s) of
        Some c \<Rightarrow>
          if os_open c
          then (True, s\<lparr>oneshots := hm_insert plain ch (c\<lparr>os_sent := Some resp\<rparr>) (oneshots s)\<rparr>)
          else (False, s)
      | None \<Rightarrow> (False, s))"

definition oneshot_closed :: "string \<Rightarrow> DispatchState \<Rightarrow> bool" where
  "oneshot_closed ch s = (case hm_get plain ch (oneshots s) of Some c \<Rightarrow> \<not> os_open c | None \<Rightarrow> True)"

definition oneshot_drop_rx :: "string \<Rightarrow> DispatchState \<Rightarrow> DispatchState" where
  "oneshot_drop_rx ch s =
     (case hm_get plain ch (oneshots s) of
        Some c \<Rightarrow> s\<lparr>oneshots := hm_insert plain ch (c\<lparr>os_open := False\<rparr>) (oneshots s)\<rparr>
      | None \<Rightarrow> s)"

section \<open>The approvals record of the root layer\<close>

definition upd_approvals :: "(ApprovalState \<Rightarrow> ApprovalState) \<Rightarrow> DispatchState \<Rightarrow> DispatchState" where
  "upd_approvals f s = s\<lparr>root := (root s)\<lparr>approvals := f (approvals (root s))\<rparr>\<rparr>"

definition bridge_insert :: "string \<Rightarrow> BridgeEntry \<Rightarrow> DispatchState \<Rightarrow> DispatchState" where
  "bridge_insert rid e = upd_approvals (\<lambda>a. a\<lparr>bridge := hm_insert plain rid e (bridge a)\<rparr>)"

definition bridge_remove :: "string \<Rightarrow> DispatchState \<Rightarrow> DispatchState" where
  "bridge_remove rid = upd_approvals (\<lambda>a. a\<lparr>bridge := hm_remove plain rid (bridge a)\<rparr>)"

definition queue_push :: "QueuedApproval \<Rightarrow> DispatchState \<Rightarrow> DispatchState" where
  "queue_push q = upd_approvals (\<lambda>a. a\<lparr>queue := queue a @ [q]\<rparr>)"

definition queue_retain_other :: "string \<Rightarrow> DispatchState \<Rightarrow> DispatchState" where
  "queue_retain_other rid = upd_approvals (\<lambda>a. a\<lparr>queue := filter (\<lambda>q. q_request_id q \<noteq> rid) (queue a)\<rparr>)"

text \<open>\<^verbatim>\<open>wrap_with_seq\<close> followed by \<^verbatim>\<open>persist\<close>, as every direct emitter does.\<close>

definition wrap_and_persist :: "ControlEvent \<Rightarrow> DispatchState \<Rightarrow> EventEnvelope \<times> DispatchState" where
  "wrap_and_persist ev s =
     (let (n, l) = next_seq (event_log s);
          env = \<lparr>env_actor_path = [], env_seq = n, env_event = ev\<rparr>
      in (env, s\<lparr>event_log := persist env l\<rparr>))"

section \<open>Requests\<close>

definition BRIDGE_AUTO_REJECT_COMMENT :: string where
  "BRIDGE_AUTO_REJECT_COMMENT = ''auto-rejected by default_approval_policy''"

definition queue_full_reason :: string where
  "queue_full_reason = ''control writer queue full and approval_policy=block '' @
     [CHR 0xE2, CHR 0x80, CHR 0x94] @ '' no TUI can decide; auto-rejected''"

record RequestArgs =
  ra_task_id :: string
  ra_summary :: string
  ra_plan :: "ApprovalPlan option"
  ra_kind :: ApprovalKind
  ra_ttl_secs :: "u64 option"
  ra_fallback :: "ApprovalFallback option"

definition request_metadata :: "RequestArgs \<Rightarrow> int \<Rightarrow> ApprovalMetadata" where
  "request_metadata r now =
     \<lparr>md_task_id = ra_task_id r, md_summary = ra_summary r, md_plan = ra_plan r, md_kind = ra_kind r,
      md_ttl_secs = ra_ttl_secs r, md_fallback = ra_fallback r, md_created_at = now\<rparr>"

definition request_event :: "string \<Rightarrow> ApprovalMetadata \<Rightarrow> ControlEvent" where
  "request_event rid md =
     EvApprovalRequest rid (md_task_id md) (md_summary md) (md_plan md) (md_kind md)"

definition open_channel :: "string \<Rightarrow> DispatchState \<Rightarrow> DispatchState" where
  "open_channel rid s =
     s\<lparr>oneshots := hm_insert plain rid \<lparr>os_open = True, os_sent = None\<rparr> (oneshots s)\<rparr>"

definition auto_response :: "bool \<Rightarrow> ApprovalResponse" where
  "auto_response ok =
     \<lparr>resp_approved = ok,
      resp_comment = (if ok then None else Some BRIDGE_AUTO_REJECT_COMMENT),
      resp_edited_summary = None, resp_reason = None, resp_from_ttl = False\<rparr>"

definition queue_full_response :: ApprovalResponse where
  "queue_full_response =
     \<lparr>resp_approved = False, resp_comment = None, resp_edited_summary = None,
      resp_reason = Some queue_full_reason, resp_from_ttl = False\<rparr>"

text \<open>The part of \<^verbatim>\<open>request\<close> before the routing: audit row and first notification.\<close>

definition request_announce :: "string \<Rightarrow> RequestArgs \<Rightarrow> int \<Rightarrow> DispatchState \<Rightarrow> DispatchState" where
  "request_announce rid r now s =
     notify_root SevWarning (PeApprovalRequest rid (ra_task_id r) (ra_summary r))
       (append_event (ra_task_id r) (TeApprovalRequest now rid (take_chars 80 (ra_summary r))) s)"

text \<open>
  \<^verbatim>\<open>request\<close> up to its wait: an answer at once (\<open>Some\<close>, counted already), or the responder
  is in the bridge map or the queue and the caller goes on to count the request and wait (\<open>None\<close>).
\<close>

definition request_begin ::
  "string \<Rightarrow> RequestArgs \<Rightarrow> int \<Rightarrow> DispatchState \<Rightarrow> ApprovalResponse option \<times> DispatchState" where
  "request_begin rid r now s =
     (let s = open_channel rid (request_announce rid r now s);
          task = ra_task_id r
      in case policy (approvals (root s)) of
           PolicyAutoApprove \<Rightarrow>
             (Some (auto_response True),
              record_approval_outcome task True (bump_approval_requested task (oneshot_drop_rx rid s)))
         | PolicyAutoReject \<Rightarrow>
             (Some (auto_response False),
              record_approval_outcome task False (bump_approval_requested task (oneshot_drop_rx rid s)))
         | PolicyBlock \<Rightarrow>
             (case control_writer (root s) of
                Some w \<Rightarrow>
                  (let s = bridge_insert rid
                         \<lparr>be_responder = rid, be_metadata = request_metadata r now\<rparr> s;
                       (env, s) = wrap_and_persist (request_event rid (request_metadata r now)) s
                   in case try_send env w of
                        Some w' \<Rightarrow> (None, s\<lparr>root := (root s)\<lparr>control_writer := Some w'\<rparr>\<rparr>)
                      | None \<Rightarrow>
                          (Some queue_full_response,
                           record_approval_outcome task False
                             (bump_approval_requested task (oneshot_drop_rx rid (bridge_remove rid s)))))
              | None \<Rightarrow>
                  (let (env, s) = wrap_and_persist (request_event rid (request_metadata r now)) s;
                       s = queue_push \<lparr>q_request_id = rid, q_responder = rid,
                             q_metadata = request_metadata r now\<rparr> s
                   in (None, notify_root SevWarning
                         (PeApprovalPending rid (ra_task_id r) (ra_summary r)) s))))"

text \<open>The wait: the whole seconds after which the bridge gives up, on 64 bits.\<close>

definition effective_timeout_secs :: "u64 \<Rightarrow> u64 option \<Rightarrow> u64" where
  "effective_timeout_secs timeout ttl = (case ttl of Some t \<Rightarrow> t + 60 | None \<Rightarrow> timeout)"

text \<open>After an elapsed timeout: the receiver is gone, then the two tables, one lock after the other.\<close>

definition request_timeout :: "string \<Rightarrow> DispatchState \<Rightarrow> DispatchState" where
  "request_timeout rid s = queue_retain_other rid (bridge_remove rid (oneshot_drop_rx rid s))"

section \<open>Responses\<close>

datatype ApprovalError = ApprovalTimeout | ApprovalCancelled | ControlDisconnected

definition respond ::
  "string \<Rightarrow> ApprovalResponse \<Rightarrow> int \<Rightarrow> DispatchState \<Rightarrow> (ApprovalError + unit) \<times> DispatchState" where
  "respond rid resp now s =
     (case hm_get plain rid (bridge (approvals (root s))) of
        None \<Rightarrow> (Inl ControlDisconnected, s)
      | Some e \<Rightarrow>
          (let task = md_task_id (be_metadata e);
               s = append_event task (TeApprovalResponse now rid (resp_approved resp)
                     (resp_edited_summary resp \<noteq> None)) (bridge_remove rid s);
               (sent, s) = oneshot_send (be_responder e) resp s
           in if sent then (Inr (), record_approval_outcome task (resp_approved resp) s)
              else (Inl ApprovalCancelled, s)))"

text \<open>The \<^verbatim>\<open>Approve\<close> operation of the control server; it ignores a failed send.\<close>

definition op_approve ::
  "string \<Rightarrow> bool \<Rightarrow> string option \<Rightarrow> string option \<Rightarrow> string option \<Rightarrow> int \<Rightarrow> DispatchState \<Rightarrow>
     ControlEvent \<times> DispatchState" where
  "op_approve rid approved comment edited_summary reason now s =
     (case hm_get plain rid (bridge (approvals (root s))) of
        Some e \<Rightarrow>
          (let task = md_task_id (be_metadata e);
               s = snd (oneshot_send (be_responder e)
                     \<lparr>resp_approved = approved, resp_comment = comment,
                      resp_edited_summary = edited_summary, resp_reason = reason,
                      resp_from_ttl = False\<rparr> (bridge_remove rid s));
               s = append_event task (TeApprovalResponse now rid approved (edited_summary \<noteq> None)) s
           in (OpAcked ''approve'' None, record_approval_outcome task approved s))
      | None \<Rightarrow> (OpFailed ''approve'' None (''unknown request_id: '' @ rid), s))"

definition op_update_policy :: "ApprovalRule list \<Rightarrow> DispatchState \<Rightarrow> ControlEvent \<times> DispatchState" where
  "op_update_policy rules s =
     (OpAcked ''update_policy'' None,
      s\<lparr>root := set_policy_matcher \<lparr>matcher_rules = rules\<rparr> (root s)\<rparr>)"


section \<open>The TTL watcher\<close>

definition layer_approvals :: "LayerRef \<Rightarrow> DispatchState \<Rightarrow> ApprovalState option" where
  "layer_approvals ref s =
     (case ref of
        RootLayer \<Rightarrow> Some (approvals (root s))
      | SubLayer sid \<Rightarrow> map_option approvals (hm_get plain sid (subleads s)))"

definition set_layer_approvals :: "LayerRef \<Rightarrow> ApprovalState \<Rightarrow> DispatchState \<Rightarrow> DispatchState" where
  "set_layer_approvals ref a s =
     (case ref of
        RootLayer \<Rightarrow> s\<lparr>root := (root s)\<lparr>approvals := a\<rparr>\<rparr>
      | SubLayer sid \<Rightarrow>
          s\<lparr>subleads := map (\<lambda>(k, l). (k, if k = sid then l\<lparr>approvals := a\<rparr> else l)) (subleads s)\<rparr>)"

definition fallback_of :: "ApprovalMetadata \<Rightarrow> ApprovalFallback" where
  "fallback_of md = (case md_fallback md of Some f \<Rightarrow> f | None \<Rightarrow> FallbackBlock)"

definition md_expired :: "int \<Rightarrow> ApprovalMetadata \<Rightarrow> bool" where
  "md_expired now md =
     (case md_ttl_secs md of
        Some ttl \<Rightarrow> clamped_age_secs now (md_created_at md) \<ge> ttl \<and> fallback_of md \<noteq> FallbackBlock
      | None \<Rightarrow> False)"

text \<open>The index loop over the queue: the expired entries and the ones kept, both in order.\<close>

fun scan_queue :: "int \<Rightarrow> QueuedApproval list \<Rightarrow> QueuedApproval list \<times> QueuedApproval list" where
  "scan_queue now [] = ([], [])"
| "scan_queue now (q # qs) =
     (case scan_queue now qs of (expired, kept) \<Rightarrow>
        if md_expired now (q_metadata q) then (q # expired, kept) else (expired, q # kept))"

fun fallback_debug :: "ApprovalFallback \<Rightarrow> string" where
  "fallback_debug FallbackAutoReject = ''AutoReject''"
| "fallback_debug FallbackAutoApprove = ''AutoApprove''"
| "fallback_debug FallbackBlock = ''Block''"

definition ttl_response :: "ApprovalFallback \<Rightarrow> ApprovalResponse" where
  "ttl_response fb =
     \<lparr>resp_approved = (fb = FallbackAutoApprove), resp_comment = Some ''TTL expired'',
      resp_edited_summary = None, resp_reason = Some (''TTL expired: fallback='' @ fallback_debug fb),
      resp_from_ttl = True\<rparr>"

text \<open>The body shared by the loops over expired queue and bridge entries.\<close>

definition apply_ttl_fallback :: "int \<Rightarrow> string \<Rightarrow> ApprovalMetadata \<Rightarrow> DispatchState \<Rightarrow> DispatchState" where
  "apply_ttl_fallback now responder md s =
     (let fb = fallback_of md;
          ok = (fb = FallbackAutoApprove);
          s = record_last_approval_response (md_task_id md) ok True now s;
          s = record_approval_outcome (md_task_id md) ok s
      in snd (oneshot_send responder (ttl_response fb) s))"

fun expire_queue_entries :: "int \<Rightarrow> QueuedApproval list \<Rightarrow> DispatchState \<Rightarrow> DispatchState" where
  "expire_queue_entries now [] s = s"
| "expire_queue_entries now (q # qs) s =
     expire_queue_entries now qs (apply_ttl_fallback now (q_responder q) (q_metadata q) s)"

definition expired_bridge_ids :: "int \<Rightarrow> (string \<times> BridgeEntry) list \<Rightarrow> string list" where
  "expired_bridge_ids now br = map fst (filter (\<lambda>(_, e). md_expired now (be_metadata e)) br)"

fun expire_bridge_entries :: "LayerRef \<Rightarrow> int \<Rightarrow> string list \<Rightarrow> DispatchState \<Rightarrow> DispatchState" where
  "expire_bridge_entries ref now [] s = s"
| "expire_bridge_entries ref now (rid # rids) s =
     (case layer_approvals ref s of
        None \<Rightarrow> s
      | Some a \<Rightarrow>
          (case hm_get plain rid (bridge a) of
             Some e \<Rightarrow>
               expire_bridge_entries ref now rids
                 (apply_ttl_fallback now (be_responder e) (be_metadata e)
                   (set_layer_approvals ref (a\<lparr>bridge := hm_remove plain rid (bridge a)\<rparr>) s))
           | None \<Rightarrow> expire_bridge_entries ref now rids s))"

definition expire_layer_approvals :: "LayerRef \<Rightarrow> int \<Rightarrow> DispatchState \<Rightarrow> DispatchState" where
  "expire_layer_approvals ref now s =
     (case layer_approvals ref s of
        None \<Rightarrow> s
      | Some a \<Rightarrow>
          (let (expired, kept) = scan_queue now (queue a);
               s = set_layer_approvals ref (a\<lparr>queue := kept\<rparr>) s;
               s = expire_queue_entries now expired s
           in case layer_approvals ref s of
                None \<Rightarrow> s
              | Some a \<Rightarrow> expire_bridge_entries ref now (expired_bridge_ids now (bridge a)) s))"

definition expire_approvals :: "int \<Rightarrow> DispatchState \<Rightarrow> DispatchState" where
  "expire_approvals now s =
     (let s = expire_layer_approvals RootLayer now s
      in fold (\<lambda>sid. expire_layer_approvals (SubLayer sid) now) (map fst (subleads s)) s)"

section \<open>A client connects or leaves\<close>

text \<open>
  \<^verbatim>\<open>tx.send(envelope).await\<close> on the connection's bounded channel while nothing takes from it: the
  connection's pump is spawned after this code, so a full channel means the call never returns.
\<close>

definition enqueue_envelope :: "ControlEvent \<Rightarrow> DispatchState \<Rightarrow> DispatchState option" where
  "enqueue_envelope ev s =
     (let (env, s) = wrap_and_persist ev s
      in case control_writer (root s) of
           Some w \<Rightarrow>
             (case try_send env w of
                Some w' \<Rightarrow> Some (s\<lparr>root := (root s)\<lparr>control_writer := Some w'\<rparr>\<rparr>)
              | None \<Rightarrow> None)
         | None \<Rightarrow> Some s)"

definition install_writer :: "string \<Rightarrow> DispatchState \<Rightarrow> ControlWriterSlot option \<times> DispatchState" where
  "install_writer wid s =
     (let slot = \<lparr>cw_id = wid, cw_queue = [], cw_open = True\<rparr>
      in case control_writer (root s) of
           Some old \<Rightarrow>
             (let (env, s) = wrap_and_persist Superseded s
              in (Some (case try_send env old of Some old' \<Rightarrow> old' | None \<Rightarrow> old),
                  s\<lparr>root := (root s)\<lparr>control_writer := Some slot\<rparr>\<rparr>))
         | None \<Rightarrow> (None, s\<lparr>root := (root s)\<lparr>control_writer := Some slot\<rparr>\<rparr>))"

fun drain_queue :: "QueuedApproval list \<Rightarrow> DispatchState \<Rightarrow> DispatchState option" where
  "drain_queue [] s = Some s"
| "drain_queue (q # qs) s =
     (let s = upd_approvals (\<lambda>a. a\<lparr>queue := qs\<rparr>) s;
          s = bridge_insert (q_request_id q)
                \<lparr>be_responder = q_responder q, be_metadata = q_metadata q\<rparr> s
      in case enqueue_envelope (request_event (q_request_id q) (q_metadata q)) s of
           None \<Rightarrow> None
         | Some s \<Rightarrow> drain_queue qs s)"

fun replay :: "ControlEvent list \<Rightarrow> DispatchState \<Rightarrow> DispatchState option" where
  "replay [] s = Some s"
| "replay (ev # evs) s =
     (case enqueue_envelope ev s of None \<Rightarrow> None | Some s \<Rightarrow> replay evs s)"

definition live_bridge :: "DispatchState \<Rightarrow> (string \<times> BridgeEntry) list" where
  "live_bridge s = filter (\<lambda>(_, e). \<not> oneshot_closed (be_responder e) s) (bridge (approvals (root s)))"

definition connect_writer :: "string \<Rightarrow> DispatchState \<Rightarrow> DispatchState option" where
  "connect_writer wid s =
     (let s = snd (install_writer wid s)
      in case drain_queue (queue (approvals (root s))) s of
           None \<Rightarrow> None
         | Some s \<Rightarrow> replay (map (\<lambda>(rid, e). request_event rid (be_metadata e)) (live_bridge s)) s)"

definition disconnect_writer :: "string \<Rightarrow> DispatchState \<Rightarrow> DispatchState" where
  "disconnect_writer wid s =
     (case control_writer (root s) of
        Some slot \<Rightarrow> if cw_id slot = wid then s\<lparr>root := (root s)\<lparr>control_writer := None\<rparr>\<rparr> else s
      | None \<Rightarrow> s)"

end
