(* ===== verification/Spawn.thy ===== *)
theory Spawn
  imports Budget Actor_Type Approval
begin

text \<open>
  Spawning and finishing workers and sub-leads (\<^verbatim>\<open>mcp/tools/spawn.rs\<close>,
  \<^verbatim>\<open>dispatch/sublead.rs\<close>, the \<^verbatim>\<open>spawn_sublead\<close> tool of \<^verbatim>\<open>mcp/server.rs\<close>). A
  handler's guards run in the order of the code and each refusal is a value of \<open>SpawnError\<close>. The
  subprocess itself is outside: what a spawn hands to it is the \<open>WorkerLaunch\<close> it returns, and what
  comes back is the outcome the finishing step takes. Identifiers and clocks are arguments.
\<close>

section \<open>Requests and refusals\<close>

record SpawnWorkerArgs =
  sw_prompt :: string
  sw_directory :: "string option"
  sw_branch :: "string option"
  sw_tools :: "string list option"
  sw_timeout_secs :: "u64 option"
  sw_model :: "string option"
  sw_worker_type :: "string option"
  sw_meta :: "MetaField option"

datatype SpawnError =
    UnknownSublead string
  | WorkersCannotSpawn
  | RunDraining
  | ApiGate SpawnGateReason
  | PlanApprovalRequired
  | WorkerCapReached nat u32
  | ProfileRejected ProfileError
  | WorkerBudgetExceeded f64 f64 f64 f64 f64

record WorkerLaunch =
  wl_task_id :: string
  wl_lead_id :: string
  wl_prompt :: string
  wl_directory :: string
  wl_branch :: "string option"
  wl_model :: string
  wl_tools :: "string list"
  wl_timeout_secs :: u64
  wl_use_worktree :: bool
  wl_cancel :: CancelToken
  wl_worker_type :: "string option"

definition compose_prompt :: "AgentProfile option \<Rightarrow> string \<Rightarrow> string" where
  "compose_prompt profile operator_prompt =
     (case profile of
        Some p \<Rightarrow>
          if ap_system_prompt p \<noteq> [] then
            ap_system_prompt p @ [CHR 0x0A, CHR 0x0A] @ ''--- TASK ---'' @ [CHR 0x0A, CHR 0x0A] @ operator_prompt
          else operator_prompt
      | None \<Rightarrow> operator_prompt)"

section \<open>Spawning a worker\<close>

definition resolve_target_layer :: "DispatchState \<Rightarrow> string \<Rightarrow> ActorRole \<Rightarrow> SpawnError + LayerRef" where
  "resolve_target_layer s cid role =
     (case role of
        Lead \<Rightarrow> Inr RootLayer
      | Sublead \<Rightarrow>
          if hm_get plain cid (subleads s) \<noteq> None then Inr (SubLayer cid)
          else Inl (UnknownSublead cid)
      | Worker \<Rightarrow> Inl WorkersCannotSpawn)"

definition first_some :: "'a option \<Rightarrow> 'a option \<Rightarrow> 'a option" where
  "first_some x y = (case x of Some v \<Rightarrow> Some v | None \<Rightarrow> y)"

text \<open>Guard 2a: profile, tool subset, model cascade, model allowlist.\<close>

definition resolve_worker_typing ::
  "ResolvedManifest \<Rightarrow> ResolvedLead option \<Rightarrow> SpawnWorkerArgs \<Rightarrow>
     ProfileError + (WorkerType option \<times> AgentProfile option \<times> string)" where
  "resolve_worker_typing root_manifest lm args =
     (case resolve_worker_profile (sw_worker_type args) (worker_types root_manifest)
             (require_actor_type root_manifest) of
        Inl e \<Rightarrow> Inl e
      | Inr resolution \<Rightarrow>
          (let wt = (case resolution of WpTyped p \<Rightarrow> Some p | WpUntyped \<Rightarrow> None);
               subset =
                 (case wt of
                    Some p \<Rightarrow>
                      (case sw_tools args of
                         Some requested \<Rightarrow> check_tool_subset ''spawn_worker'' (wt_id p) (wt_tools p) requested
                       | None \<Rightarrow> Inr ())
                  | None \<Rightarrow> Inr ())
           in case subset of
                Inl e \<Rightarrow> Inl e
              | Inr _ \<Rightarrow>
                  (let ap = worker_agent_profile wt (agent_profiles root_manifest);
                       model = (case first_some (sw_model args)
                                  (first_some (Option.bind ap ap_model) (map_option rl_model lm)) of
                                  Some m \<Rightarrow> m | None \<Rightarrow> ''claude-haiku-4-5'')
                   in case (case wt of
                              Some p \<Rightarrow> check_model_allowed ''spawn_worker'' (wt_id p) (wt_allowed_models p) model
                            | None \<Rightarrow> Inr ()) of
                        Inl e \<Rightarrow> Inl e
                      | Inr _ \<Rightarrow> Inr (wt, ap, model))))"

text \<open>Guard 3: check and reserve under the reservation lock of the target layer.\<close>

definition reserve_worker :: "string \<Rightarrow> string \<Rightarrow> LayerState \<Rightarrow> SpawnError + LayerState" where
  "reserve_worker tid model l =
     (case budget_usd (manifest l) of
        None \<Rightarrow> Inr l
      | Some cap \<Rightarrow>
          (let estimate = estimate_new_worker_cost_for_layer l model;
               spent = spent_usd (budget l);
               reserved = reserved_usd (budget l);
               lead_spent = lead_spent_usd (budget l)
           in if f_gt (fadd (fadd (fadd spent reserved) lead_spent) estimate) cap
              then Inl (WorkerBudgetExceeded spent reserved lead_spent estimate cap)
              else Inr (l\<lparr>budget := (budget l)\<lparr>reserved_usd := fadd reserved estimate\<rparr>,
                     workers := (workers l)\<lparr>reservations := hm_insert plain tid estimate (reservations (workers l))\<rparr>\<rparr>)))"

text \<open>The notification of a refused reservation goes to the router of the target layer.\<close>

definition notify_budget_exceeded :: "string \<Rightarrow> f64 \<Rightarrow> f64 \<Rightarrow> LayerState \<Rightarrow> LayerState" where
  "notify_budget_exceeded rid spent cap l =
     (case notification_router l of
        None \<Rightarrow> l
      | Some sent \<Rightarrow> l\<lparr>notification_router := Some (sent @ [(SevError, PeBudgetExceeded rid spent cap)])\<rparr>)"

text \<open>The tables a spawned worker enters.\<close>

definition register_worker ::
  "string \<Rightarrow> string \<Rightarrow> string \<Rightarrow> string option \<Rightarrow> LayerState \<Rightarrow> LayerState" where
  "register_worker tid prompt model wtype l =
     (let l = l\<lparr>workers := (workers l)\<lparr>states := hm_insert plain tid Pending (states (workers l))\<rparr>\<rparr>;
          l = register_worker_cancel tid new_cancel l;
          l = l\<lparr>workers := (workers l)\<lparr>prompts := hm_insert plain tid (take_chars 80 prompt) (prompts (workers l)),
                 models := hm_insert plain tid model (models (workers l))\<rparr>\<rparr>
      in case wtype of
           Some t \<Rightarrow> l\<lparr>workers := (workers l)\<lparr>actor_types := hm_insert plain tid t (actor_types (workers l))\<rparr>\<rparr>
         | None \<Rightarrow> l)"

definition worker_tools_for ::
  "SpawnWorkerArgs \<Rightarrow> WorkerType option \<Rightarrow> ResolvedLead option \<Rightarrow> ResolvedLead option \<Rightarrow> string list" where
  "worker_tools_for args wt lm root_lead =
     (case wt of
        Some p \<Rightarrow> (case sw_tools args of Some requested \<Rightarrow> requested | None \<Rightarrow> wt_tools p)
      | None \<Rightarrow>
          (case first_some (sw_tools args)
                  (first_some (map_option rl_tools lm) (map_option rl_tools root_lead)) of
             Some ts \<Rightarrow> ts | None \<Rightarrow> []))"

definition worker_timeout_for ::
  "SpawnWorkerArgs \<Rightarrow> WorkerType option \<Rightarrow> ResolvedLead option \<Rightarrow> ResolvedLead option \<Rightarrow> u64" where
  "worker_timeout_for args wt lm root_lead =
     (let t = (case first_some (sw_timeout_secs args)
                 (first_some (map_option rl_timeout_secs lm) (map_option rl_timeout_secs root_lead)) of
                 Some t \<Rightarrow> t | None \<Rightarrow> 3600)
      in case wt of Some p \<Rightarrow> clamp_down_u64 t (wt_max_timeout_secs p) | None \<Rightarrow> t)"

definition worker_launch ::
  "string \<Rightarrow> SpawnWorkerArgs \<Rightarrow> WorkerType option \<Rightarrow> AgentProfile option \<Rightarrow> string \<Rightarrow> LayerState \<Rightarrow>
     ResolvedLead option \<Rightarrow> WorkerLaunch" where
  "worker_launch tid args wt ap model l root_lead =
     (let lm = lead (manifest l)
      in \<lparr>wl_task_id = tid, wl_lead_id = lead_id l, wl_prompt = compose_prompt ap (sw_prompt args),
          wl_directory = (case first_some (sw_directory args)
             (first_some (map_option rl_directory lm) (map_option rl_directory root_lead)) of
             Some d \<Rightarrow> d | None \<Rightarrow> ''/tmp''),
          wl_branch = sw_branch args, wl_model = model,
          wl_tools = worker_tools_for args wt lm root_lead,
          wl_timeout_secs = worker_timeout_for args wt lm root_lead,
          wl_use_worktree = (case first_some (map_option rl_use_worktree lm)
             (map_option rl_use_worktree root_lead) of Some b \<Rightarrow> b | None \<Rightarrow> True),
          wl_cancel = cascade_to (cancel l) new_cancel,
          wl_worker_type = map_option wt_id wt\<rparr>)"

definition caller_of_spawn :: "DispatchState \<Rightarrow> SpawnWorkerArgs \<Rightarrow> string \<times> ActorRole" where
  "caller_of_spawn s args =
     (case sw_meta args of
        Some m \<Rightarrow> (meta_actor_id m, meta_actor_role m)
      | None \<Rightarrow> (lead_id (root s), Lead))"

text \<open>The guards before the profile, on the state as it is.\<close>

definition spawn_worker_gates :: "int \<Rightarrow> DispatchState \<Rightarrow> LayerState \<Rightarrow> SpawnError + unit" where
  "spawn_worker_gates now s l =
     (if ct_drain (cancel (root s)) \<or> ct_terminate (cancel (root s)) then Inl RunDraining
      else case check_can_spawn now (api_health s) of
             Inl gate \<Rightarrow> Inl (ApiGate gate)
           | Inr _ \<Rightarrow>
               if require_plan_approval (manifest (root s)) \<and> \<not> plan_approved (approvals l)
               then Inl PlanApprovalRequired
               else case max_workers (manifest l) of
                      Some cap \<Rightarrow>
                        if active_worker_count l \<ge> unat cap
                        then Inl (WorkerCapReached (active_worker_count l) cap) else Inr ()
                    | None \<Rightarrow> Inr ())"

text \<open>Guard 3 and, when it passes, the tables and the background task.\<close>

definition admit_worker ::
  "string \<Rightarrow> SpawnWorkerArgs \<Rightarrow> LayerRef \<Rightarrow> string option \<Rightarrow> WorkerType option \<Rightarrow> AgentProfile option \<Rightarrow> string \<Rightarrow>
     LayerState \<Rightarrow> DispatchState \<Rightarrow> (SpawnError + WorkerLaunch) \<times> DispatchState" where
  "admit_worker tid args ref index_value wt ap model l s =
     (case reserve_worker tid model l of
        Inl e \<Rightarrow>
          (Inl e, upd_layer ref
             (notify_budget_exceeded (run_id (root s))
               (fadd (spent_usd (budget l)) (lead_spent_usd (budget l)))
               (the (budget_usd (manifest l)))) s)
      | Inr l' \<Rightarrow>
          (Inr (worker_launch tid args wt ap model l (lead (manifest (root s)))),
           upd_layer ref (\<lambda>_. register_worker tid (sw_prompt args) model (map_option wt_id wt) l')
             (s\<lparr>worker_layer_index := hm_insert plain tid index_value (worker_layer_index s)\<rparr>)))"

text \<open>
  The handler is not atomic. Its guards up to the profile read the tables one lock at a time, and the
  worker enters them later, after the reservation: \<open>check_spawn_worker\<close> is the part before, with the
  local variables it leaves as a \<open>SpawnPlan\<close>, and \<open>commit_spawn_worker\<close> the part from the
  reservation on, on the target layer as it is by then. The reservation itself is under the layer's
  reservation lock and every table gets a key of its own, so that part is one step.
\<close>

record SpawnPlan =
  pl_target :: LayerRef
  pl_index :: "string option"
  pl_type :: "WorkerType option"
  pl_profile :: "AgentProfile option"
  pl_model :: string

definition check_spawn_worker :: "int \<Rightarrow> SpawnWorkerArgs \<Rightarrow> DispatchState \<Rightarrow> SpawnError + SpawnPlan" where
  "check_spawn_worker now args s =
     (let (cid, role) = caller_of_spawn s args
      in case resolve_target_layer s cid role of
           Inl e \<Rightarrow> Inl e
         | Inr ref \<Rightarrow>
             (case layer_of ref s of
                None \<Rightarrow> Inl (UnknownSublead cid)
              | Some l \<Rightarrow>
                  (case spawn_worker_gates now s l of
                     Inl e \<Rightarrow> Inl e
                   | Inr _ \<Rightarrow>
                       (case resolve_worker_typing (manifest (root s)) (lead (manifest l)) args of
                          Inl e \<Rightarrow> Inl (ProfileRejected e)
                        | Inr (wt, ap, model) \<Rightarrow>
                            Inr \<lparr>pl_target = ref, pl_index = (if role = Sublead then Some cid else None),
                                 pl_type = wt, pl_profile = ap, pl_model = model\<rparr>))))"

definition commit_spawn_worker ::
  "string \<Rightarrow> SpawnWorkerArgs \<Rightarrow> SpawnPlan \<Rightarrow> LayerState \<Rightarrow> DispatchState \<Rightarrow>
     (SpawnError + WorkerLaunch) \<times> DispatchState" where
  "commit_spawn_worker tid args p l s =
     admit_worker tid args (pl_target p) (pl_index p) (pl_type p) (pl_profile p) (pl_model p) l s"

text \<open>A call during which no other call changes the run.\<close>

definition handle_spawn_worker ::
  "string \<Rightarrow> int \<Rightarrow> SpawnWorkerArgs \<Rightarrow> DispatchState \<Rightarrow> (SpawnError + WorkerLaunch) \<times> DispatchState" where
  "handle_spawn_worker uuid now args s =
     (let (cid, role) = caller_of_spawn s args
      in case resolve_target_layer s cid role of
           Inl e \<Rightarrow> (Inl e, s)
         | Inr ref \<Rightarrow>
             (case layer_of ref s of
                None \<Rightarrow> (Inl (UnknownSublead cid), s)
              | Some l \<Rightarrow>
                  (case spawn_worker_gates now s l of
                     Inl e \<Rightarrow> (Inl e, s)
                   | Inr _ \<Rightarrow>
                       (case resolve_worker_typing (manifest (root s)) (lead (manifest l)) args of
                          Inl e \<Rightarrow> (Inl (ProfileRejected e), s)
                        | Inr (wt, ap, model) \<Rightarrow>
                            admit_worker (''worker-'' @ uuid) args ref (if role = Sublead then Some cid else None)
                              wt ap model l s))))"

end
