(* ===== verification/Worker_Life.thy ===== *)
theory Worker_Life
  imports Spawn
begin

text \<open>
  The life of a worker after its spawn (\<^verbatim>\<open>run_worker\<close> and \<^verbatim>\<open>spawn_resume_worker\<close> of
  \<^verbatim>\<open>mcp/tools/spawn.rs\<close>, the handlers of \<^verbatim>\<open>mcp/tools/lifecycle.rs\<close>, the pause,
  continue and reprompt operations of \<^verbatim>\<open>control/server.rs\<close>, the waits of
  \<^verbatim>\<open>mcp/tools/wait.rs\<close>). A background task is cut at the points where it runs a subprocess: the
  steps before it, and the tail that takes the subprocess's outcome. The failure classification of the
  log tails, process ids and the results of signals are arguments.
\<close>

section \<open>Outcomes\<close>

datatype SessionState =
    SsInitializing
  | SsRunning int
  | SsCompleted
  | SsFailed string
  | SsTimedOut
  | SsCancelled
  | SsSpawnFailed string

record SessionOutcome =
  so_final_state :: SessionState
  so_exit_code :: "int option"
  so_token_usage :: TokenUsage
  so_claude_session_id :: "string option"
  so_final_message_preview :: "string option"
  so_final_message :: "string option"
  so_started_at :: int
  so_ended_at :: int

definition num_milliseconds :: "int \<Rightarrow> int" where
  "num_milliseconds d = (if 0 \<le> d then d div 1000000 else - ((- d) div 1000000))"

definition duration_ms :: "SessionOutcome \<Rightarrow> int" where
  "duration_ms o' = num_milliseconds (so_ended_at o' - so_started_at o')"

fun status_of_session :: "SessionState \<Rightarrow> TaskStatus" where
  "status_of_session SsCompleted = TsSuccess"
| "status_of_session (SsFailed m) = TsFailed"
| "status_of_session SsTimedOut = TsTimedOut"
| "status_of_session SsCancelled = TsCancelled"
| "status_of_session (SsSpawnFailed m) = TsSpawnFailed"
| "status_of_session SsInitializing = TsFailed"
| "status_of_session (SsRunning t) = TsFailed"

definition reclassified_status :: "string \<Rightarrow> int \<Rightarrow> TaskStatus \<Rightarrow> DispatchState \<Rightarrow> TaskStatus" where
  "reclassified_status tid now status s =
     (if status = TsSuccess then
        (case approval_driven_termination tid now s of
           Some KindRejected \<Rightarrow> TsApprovalRejected
         | Some KindTimedOut \<Rightarrow> TsApprovalTimedOut
         | None \<Rightarrow> status)
      else status)"

section \<open>A worker's subprocess\<close>

definition set_worker_state :: "string \<Rightarrow> WorkerState \<Rightarrow> LayerState \<Rightarrow> LayerState" where
  "set_worker_state tid w l = l\<lparr>workers := (workers l)\<lparr>states := hm_insert plain tid w (states (workers l))\<rparr>\<rparr>"

definition send_done :: "string \<Rightarrow> LayerState \<Rightarrow> LayerState" where
  "send_done tid l = l\<lparr>workers := (workers l)\<lparr>done_tx := done_tx (workers l) @ [tid]\<rparr>\<rparr>"

text \<open>The done channel of the worker's layer, and of the root when that is another layer.\<close>

definition announce_done :: "LayerRef \<Rightarrow> string \<Rightarrow> DispatchState \<Rightarrow> DispatchState" where
  "announce_done ref tid s =
     (let s = upd_layer ref (send_done tid) s
      in if ref = RootLayer then s else upd_layer RootLayer (send_done tid) s)"

definition append_record :: "TaskRecord \<Rightarrow> DispatchState \<Rightarrow> DispatchState" where
  "append_record rec s = s\<lparr>records := records s @ [rec]\<rparr>"

definition forget_worker_layer :: "string \<Rightarrow> DispatchState \<Rightarrow> DispatchState" where
  "forget_worker_layer tid s = s\<lparr>worker_layer_index := hm_remove plain tid (worker_layer_index s)\<rparr>"

definition worktree_failed_record :: "WorkerLaunch \<Rightarrow> string \<Rightarrow> string \<Rightarrow> int \<Rightarrow> TaskRecord" where
  "worktree_failed_record w log_path err now =
     \<lparr>tr_task_id = wl_task_id w, tr_status = TsSpawnFailed, tr_exit_code = None, tr_started_at = now,
      tr_ended_at = now, tr_duration_ms = 0, tr_worktree_path = None, tr_log_path = log_path,
      tr_token_usage = zero_usage, tr_claude_session_id = None,
      tr_final_message_preview = Some (''worktree error: '' @ err), tr_final_message = None,
      tr_parent_task_id = Some (wl_lead_id w), tr_pause_count = 0, tr_reprompt_count = 0,
      tr_approvals_requested = 0, tr_approvals_approved = 0, tr_approvals_rejected = 0,
      tr_model = Some (wl_model w), tr_failure_reason = None, tr_cost_usd = cost_usd (wl_model w) zero_usage,
      tr_actor_type = wl_worker_type w, tr_terminate_reason = None\<rparr>"

text \<open>\<^verbatim>\<open>run_worker\<close> when the worktree cannot be prepared: it ends here.\<close>

definition worktree_failed ::
  "LayerRef \<Rightarrow> WorkerLaunch \<Rightarrow> string \<Rightarrow> string \<Rightarrow> int \<Rightarrow> DispatchState \<Rightarrow> DispatchState" where
  "worktree_failed ref w log_path err now s =
     (let s = upd_layer ref (release_reservation_for_layer (wl_task_id w)) s;
          rec = worktree_failed_record w log_path err now;
          s = append_record rec s;
          s = upd_layer ref (set_worker_state (wl_task_id w) (Done rec)) s;
          s = forget_worker_layer (wl_task_id w) s
      in announce_done ref (wl_task_id w) s)"

text \<open>\<^verbatim>\<open>run_worker\<close> up to the subprocess: running, with a token and an empty pid slot of its own.\<close>

definition set_pid :: "string \<Rightarrow> u32 \<Rightarrow> LayerState \<Rightarrow> LayerState" where
  "set_pid tid pid l = l\<lparr>workers := (workers l)\<lparr>pids := hm_insert plain tid pid (pids (workers l))\<rparr>\<rparr>"

definition drop_pid :: "string \<Rightarrow> LayerState \<Rightarrow> LayerState" where
  "drop_pid tid l = l\<lparr>workers := (workers l)\<lparr>pids := hm_remove plain tid (pids (workers l))\<rparr>\<rparr>"

definition pid_of :: "string \<Rightarrow> LayerState \<Rightarrow> u32" where
  "pid_of tid l = (case hm_get plain tid (pids (workers l)) of Some p \<Rightarrow> p | None \<Rightarrow> 0)"

definition worker_started ::
  "LayerRef \<Rightarrow> string \<Rightarrow> string \<Rightarrow> int \<Rightarrow> DispatchState \<Rightarrow> string \<times> DispatchState" where
  "worker_started ref tid uuid now s =
     (let (token, s) = mint_token uuid tid ''worker'' (upd_layer ref (set_worker_state tid (Running now None)) s)
      in (token, upd_layer ref (set_pid tid 0) s))"

text \<open>The task that stores the session id once the subprocess reports it.\<close>

definition promote_session :: "LayerRef \<Rightarrow> string \<Rightarrow> string \<Rightarrow> DispatchState \<Rightarrow> DispatchState" where
  "promote_session ref tid sid s =
     upd_layer ref (\<lambda>l. case hm_get plain tid (states (workers l)) of
        Some (Running started sid0) \<Rightarrow> set_worker_state tid (Running started (Some sid)) l
      | _ \<Rightarrow> l) s"

definition layer_counters :: "string \<Rightarrow> LayerState \<Rightarrow> WorkerCounters" where
  "layer_counters tid l =
     (case hm_get plain tid (counters (workers l)) of Some c \<Rightarrow> c | None \<Rightarrow> zero_worker_counters)"

definition worker_record ::
  "string \<Rightarrow> string \<Rightarrow> string \<Rightarrow> string option \<Rightarrow> string option \<Rightarrow> string \<Rightarrow> WorkerCounters \<Rightarrow> TaskStatus \<Rightarrow>
     FailureReason option \<Rightarrow> CancelToken \<Rightarrow> SessionOutcome \<Rightarrow> TaskRecord" where
  "worker_record tid lid model wtype worktree log_path c status failure tok o' =
     \<lparr>tr_task_id = tid, tr_status = status, tr_exit_code = so_exit_code o', tr_started_at = so_started_at o',
      tr_ended_at = so_ended_at o', tr_duration_ms = duration_ms o', tr_worktree_path = worktree,
      tr_log_path = log_path, tr_token_usage = so_token_usage o',
      tr_claude_session_id = so_claude_session_id o',
      tr_final_message_preview = so_final_message_preview o', tr_final_message = so_final_message o',
      tr_parent_task_id = Some lid, tr_pause_count = pause_count c, tr_reprompt_count = reprompt_count c,
      tr_approvals_requested = approvals_requested c, tr_approvals_approved = approvals_approved c,
      tr_approvals_rejected = approvals_rejected c, tr_model = Some model, tr_failure_reason = failure,
      tr_cost_usd = cost_usd model (so_token_usage o'), tr_actor_type = wtype,
      tr_terminate_reason = ct_reason tok\<rparr>"

definition broadcast_worker_failed ::
  "string \<Rightarrow> string option \<Rightarrow> FailureReason \<Rightarrow> ActorPath \<Rightarrow> TerminateReason option \<Rightarrow> DispatchState \<Rightarrow>
     DispatchState" where
  "broadcast_worker_failed tid parent reason path why s =
     broadcast_control_event
       \<lparr>env_actor_path = path, env_seq = 0, env_event = WorkerFailed tid parent reason why\<rparr> s"

definition note_failure :: "int \<Rightarrow> string \<Rightarrow> string \<Rightarrow> ActorPath \<Rightarrow> TaskRecord \<Rightarrow> DispatchState \<Rightarrow> DispatchState" where
  "note_failure now tid parent path rec s =
     (case tr_failure_reason rec of
        None \<Rightarrow> s
      | Some reason \<Rightarrow>
          broadcast_worker_failed tid (Some parent) reason path (tr_terminate_reason rec)
            (s\<lparr>api_health := health_record reason now (api_health s)\<rparr>))"

text \<open>
  The tail of \<^verbatim>\<open>run_worker\<close>. \<open>tok\<close> is the cancel token of this subprocess and \<open>token\<close> its
  authentication token; \<open>failure\<close> is what the classifier made of the logs.
\<close>

definition finish_worker ::
  "LayerRef \<Rightarrow> WorkerLaunch \<Rightarrow> string \<Rightarrow> string \<Rightarrow> string \<Rightarrow> CancelToken \<Rightarrow> FailureReason option \<Rightarrow> int \<Rightarrow>
     SessionOutcome \<Rightarrow> DispatchState \<Rightarrow> DispatchState" where
  "finish_worker ref w cwd log_path token tok failure now o' s =
     (case layer_of ref s of
        None \<Rightarrow> s
      | Some l \<Rightarrow>
          (let tid = wl_task_id w;
               status = reclassified_status tid now (status_of_session (so_final_state o')) s;
               rec = worker_record tid (wl_lead_id w) (wl_model w) (wl_worker_type w)
                       (if wl_use_worktree w then Some cwd else None) log_path (layer_counters tid l) status
                       failure tok o';
               s = append_record rec (upd_layer ref (drop_pid tid) s);
               s = note_failure now tid (wl_lead_id w) [''root'', wl_lead_id w, tid] rec s;
               s = upd_layer ref (release_reservation_for_layer tid) s;
               s = (case cost_usd (wl_model w) (tr_token_usage rec) of
                      Some cost \<Rightarrow> upd_layer ref (add_spent cost) s | None \<Rightarrow> s);
               s = upd_layer ref (set_worker_state tid (Done rec)) s;
               s = forget_worker_layer tid s;
               s = s\<lparr>run_leases := snd (run_release_all tid (run_leases s))\<rparr>;
               (_, s) = revoke_token token s
           in announce_done ref tid s))"

section \<open>Finding a worker\<close>

fun find_sublead_with :: "string \<Rightarrow> (string \<times> LayerState) list \<Rightarrow> (string \<times> LayerState) option" where
  "find_sublead_with tid [] = None"
| "find_sublead_with tid ((sid, l) # ls) =
     (if hm_get plain tid (states (workers l)) \<noteq> None then Some (sid, l) else find_sublead_with tid ls)"

definition find_worker_layer :: "DispatchState \<Rightarrow> string \<Rightarrow> LayerRef option" where
  "find_worker_layer s tid =
     (if hm_get plain tid (states (workers (root s))) \<noteq> None then Some RootLayer
      else map_option (\<lambda>(sid, _). SubLayer sid) (find_sublead_with tid (subleads s)))"

definition find_worker_across_layers :: "DispatchState \<Rightarrow> string \<Rightarrow> WorkerState option" where
  "find_worker_across_layers s tid =
     (case hm_get plain tid (states (workers (root s))) of
        Some w \<Rightarrow> Some w
      | None \<Rightarrow>
          Option.bind (find_sublead_with tid (subleads s))
            (\<lambda>(_, l). hm_get plain tid (states (workers l))))"

definition layer_for_worker :: "DispatchState \<Rightarrow> string \<Rightarrow> LayerRef option" where
  "layer_for_worker s tid =
     (case hm_get plain tid (worker_layer_index s) of
        Some None \<Rightarrow> Some RootLayer
      | Some (Some sid) \<Rightarrow>
          if hm_get plain sid (subleads s) \<noteq> None then Some (SubLayer sid) else None
      | None \<Rightarrow> find_worker_layer s tid)"

section \<open>Resuming\<close>

datatype LifeError =
    UnknownTask string
  | NotInitialized
  | AlreadyPaused
  | AlreadyFrozen
  | NotPausable
  | PidUnknown
  | SignalFailed string
  | NotPaused
  | FrozenFirst
  | StillPending
  | AlreadyCompleted

record ResumeLaunch =
  rw_task_id :: string
  rw_session_id :: string
  rw_prompt :: string
  rw_model :: string
  rw_tools :: "string list"
  rw_timeout_secs :: u64
  rw_directory :: string
  rw_lead_id :: string
  rw_actor_type :: "string option"
  rw_cancel :: CancelToken
  rw_token :: string

text \<open>The token of a resumed worker: what the layer's token says, without its reason.\<close>

definition plain_cascade :: "CancelToken \<Rightarrow> CancelToken \<Rightarrow> CancelToken" where
  "plain_cascade parent child =
     (if ct_terminate parent then cancel_terminate child
      else if ct_drain parent then cancel_drain child else child)"

definition lead_field :: "(ResolvedLead \<Rightarrow> 'a) \<Rightarrow> 'a \<Rightarrow> LayerState \<Rightarrow> DispatchState \<Rightarrow> 'a" where
  "lead_field f dflt l s =
     (case first_some (map_option f (lead (manifest l))) (map_option f (lead (manifest (root s)))) of
        Some v \<Rightarrow> v | None \<Rightarrow> dflt)"

definition spawn_resume_worker ::
  "string \<Rightarrow> int \<Rightarrow> string \<Rightarrow> string \<Rightarrow> string \<Rightarrow> DispatchState \<Rightarrow>
     (LifeError + LayerRef \<times> ResumeLaunch) \<times> DispatchState" where
  "spawn_resume_worker uuid now tid prompt sid s =
     (case layer_for_worker s tid of
        None \<Rightarrow> (Inl (UnknownTask tid), s)
      | Some ref \<Rightarrow>
          (case layer_of ref s of
             None \<Rightarrow> (Inl (UnknownTask tid), s)
           | Some l \<Rightarrow>
               (let tok = plain_cascade (cancel l) new_cancel;
                    s1 = upd_layer ref (\<lambda>l. set_worker_state tid (Running now (Some sid))
                           (l\<lparr>workers := (workers l)\<lparr>cancels := hm_insert plain tid tok (cancels (workers l))\<rparr>\<rparr>)) s;
                    (token, s2) = mint_token uuid tid ''worker'' s1;
                    s3 = upd_layer ref (set_pid tid 0) s2
                in (Inr (ref,
                      \<lparr>rw_task_id = tid, rw_session_id = sid, rw_prompt = prompt,
                       rw_model = (case hm_get plain tid (models (workers l)) of Some m \<Rightarrow> m
                                     | None \<Rightarrow> ''claude-haiku-4-5''),
                       rw_tools = lead_field rl_tools [] l s,
                       rw_timeout_secs = lead_field rl_timeout_secs 3600 l s,
                       rw_directory = lead_field rl_directory ''/tmp'' l s,
                       rw_lead_id = lead_id l,
                       rw_actor_type = hm_get plain tid (actor_types (workers l)),
                       rw_cancel = tok, rw_token = token\<rparr>), s3))))"

text \<open>The tail of the task \<^verbatim>\<open>spawn_resume_worker\<close> starts.\<close>

definition finish_resumed ::
  "LayerRef \<Rightarrow> ResumeLaunch \<Rightarrow> string \<Rightarrow> CancelToken \<Rightarrow> FailureReason option \<Rightarrow> int \<Rightarrow> SessionOutcome \<Rightarrow>
     DispatchState \<Rightarrow> DispatchState" where
  "finish_resumed ref w log_path tok failure now o' s =
     (case layer_of ref s of
        None \<Rightarrow> s
      | Some l \<Rightarrow>
          (let tid = rw_task_id w;
               status = reclassified_status tid now (status_of_session (so_final_state o')) s;
               rec = worker_record tid (rw_lead_id w) (rw_model w) (rw_actor_type w) None log_path
                       (layer_counters tid l) status failure tok o';
               s = append_record rec (upd_layer ref (drop_pid tid) s);
               s = note_failure now tid (rw_lead_id w) [''root'', rw_lead_id w, tid] rec s;
               s = upd_layer ref (set_worker_state tid (Done rec)) s;
               s = forget_worker_layer tid s;
               (_, s) = revoke_token (rw_token w) s
           in upd_layer ref (send_done tid) s))"

end
