(* ===== verification/Worker_Ops.thy ===== *)
theory Worker_Ops
  imports Worker_Life
begin

text \<open>
  What the lead and the operator can do to a worker: the handlers of \<^verbatim>\<open>mcp/tools/lifecycle.rs\<close>
  and the worker operations of the control socket (\<^verbatim>\<open>handle_op\<close> in \<^verbatim>\<open>control/server.rs\<close>).
  A handler returns, besides its answer and the state, the signals it sent; whether the kernel
  accepted a signal is the argument \<open>sig_err\<close>.
\<close>

section \<open>Requests and signals\<close>

datatype PauseMode = PauseCancel | PauseFreeze

datatype Signal = SigStop u32 | SigCont u32

definition op_reason :: "string \<Rightarrow> TerminateReason" where
  "op_reason detail = OperatorRequest (Some detail)"

definition terminate_worker :: "string \<Rightarrow> TerminateReason \<Rightarrow> LayerState \<Rightarrow> LayerState" where
  "terminate_worker tid why l =
     l\<lparr>workers := (workers l)\<lparr>cancels := hm_update tid (terminate_with_reason why) (cancels (workers l))\<rparr>\<rparr>"

definition bump_reprompts :: "string \<Rightarrow> LayerState \<Rightarrow> LayerState" where
  "bump_reprompts tid l =
     (let c = layer_counters tid l
      in l\<lparr>workers := (workers l)\<lparr>counters :=
           hm_insert plain tid (c\<lparr>reprompt_count := reprompt_count c + 1\<rparr>) (counters (workers l))\<rparr>\<rparr>)"

definition bump_pauses :: "string \<Rightarrow> LayerState \<Rightarrow> LayerState" where
  "bump_pauses tid l =
     (let c = layer_counters tid l
      in l\<lparr>workers := (workers l)\<lparr>counters :=
           hm_insert plain tid (c\<lparr>pause_count := pause_count c + 1\<rparr>) (counters (workers l))\<rparr>\<rparr>)"

definition state_in :: "string \<Rightarrow> LayerRef \<Rightarrow> DispatchState \<Rightarrow> WorkerState option" where
  "state_in tid ref s = Option.bind (layer_of ref s) (\<lambda>l. hm_get plain tid (states (workers l)))"

definition token_in :: "string \<Rightarrow> LayerRef \<Rightarrow> DispatchState \<Rightarrow> CancelToken option" where
  "token_in tid ref s = Option.bind (layer_of ref s) (\<lambda>l. hm_get plain tid (cancels (workers l)))"

definition pid_in :: "string \<Rightarrow> LayerRef \<Rightarrow> DispatchState \<Rightarrow> u32" where
  "pid_in tid ref s = (case layer_of ref s of Some l \<Rightarrow> pid_of tid l | None \<Rightarrow> 0)"

section \<open>Handlers of the lead\<close>

fun state_label :: "WorkerState \<Rightarrow> string" where
  "state_label Pending = ''Pending''"
| "state_label (Running t sid) = ''Running''"
| "state_label (Paused sid t u) = ''Paused''"
| "state_label (Frozen sid t0 t) = ''Frozen''"
| "state_label (Done rec) =
     (case tr_status rec of
        TsSuccess \<Rightarrow> ''Completed'' | TsFailed \<Rightarrow> ''Failed'' | TsTimedOut \<Rightarrow> ''TimedOut''
      | TsCancelled \<Rightarrow> ''Cancelled'' | TsSpawnFailed \<Rightarrow> ''SpawnFailed''
      | TsApprovalRejected \<Rightarrow> ''ApprovalRejected'' | TsApprovalTimedOut \<Rightarrow> ''ApprovalTimedOut'')"

text \<open>The time a summary shows; printing it is left out.\<close>

fun state_time :: "WorkerState \<Rightarrow> int option" where
  "state_time Pending = None"
| "state_time (Running t sid) = Some t"
| "state_time (Paused sid t u) = Some t"
| "state_time (Frozen sid frozen_at t) = Some t"
| "state_time (Done rec) = Some (tr_started_at rec)"

record WorkerSummary =
  ws_task_id :: string
  ws_state :: string
  ws_prompt_preview :: string
  ws_started_at :: "int option"

definition prompt_of :: "string \<Rightarrow> LayerState \<Rightarrow> string" where
  "prompt_of tid l = (case hm_get plain tid (prompts (workers l)) of Some p \<Rightarrow> p | None \<Rightarrow> [])"

definition summarize_layer :: "LayerState \<Rightarrow> LayerState \<Rightarrow> WorkerSummary list" where
  "summarize_layer rt l =
     map (\<lambda>(tid, w). \<lparr>ws_task_id = tid, ws_state = state_label w, ws_prompt_preview = prompt_of tid rt,
                      ws_started_at = state_time w\<rparr>)
       (filter (\<lambda>(tid, w). tid \<noteq> lead_id l) (states (workers l)))"

definition handle_list_workers :: "DispatchState \<Rightarrow> WorkerSummary list" where
  "handle_list_workers s =
     summarize_layer (root s) (root s) @
     concat (map (\<lambda>(sid, l). summarize_layer (root s) l) (subleads s))"

record WorkerStatus =
  wst_state :: string
  wst_started_at :: "int option"
  wst_partial_usage :: TokenUsage
  wst_last_text_preview :: "string option"
  wst_prompt_preview :: string

fun partial_usage_of :: "WorkerState \<Rightarrow> TokenUsage" where
  "partial_usage_of (Paused sid t u) = u"
| "partial_usage_of (Done rec) = tr_token_usage rec"
| "partial_usage_of w = zero_usage"

fun text_preview_of :: "WorkerState \<Rightarrow> string option" where
  "text_preview_of (Done rec) = tr_final_message_preview rec"
| "text_preview_of w = None"

definition handle_worker_status :: "DispatchState \<Rightarrow> string \<Rightarrow> LifeError + WorkerStatus" where
  "handle_worker_status s tid =
     (case find_worker_across_layers s tid of
        None \<Rightarrow> Inl (UnknownTask tid)
      | Some w \<Rightarrow>
          Inr \<lparr>wst_state = state_label w, wst_started_at = state_time w,
               wst_partial_usage = partial_usage_of w, wst_last_text_preview = text_preview_of w,
               wst_prompt_preview =
                 (case Option.bind (layer_for_worker s tid) (\<lambda>ref. layer_of ref s) of
                    Some l \<Rightarrow> prompt_of tid l
                  | None \<Rightarrow> prompt_of tid (root s))\<rparr>)"

definition handle_cancel_worker :: "string \<Rightarrow> DispatchState \<Rightarrow> (LifeError + unit) \<times> DispatchState" where
  "handle_cancel_worker tid s =
     (case layer_for_worker s tid of
        None \<Rightarrow> (Inl (UnknownTask tid), s)
      | Some ref \<Rightarrow>
          (case token_in tid ref s of
             None \<Rightarrow> (Inl (UnknownTask tid), s)
           | Some tok \<Rightarrow>
               (Inr (), upd_layer ref (terminate_worker tid
                  (op_reason (''mcp.terminate_worker target='' @ tid))) s)))"

text \<open>The two ways to pause, common to the tool and the control operation; \<open>site\<close> names the caller.\<close>

definition pause_cancel ::
  "string \<Rightarrow> string \<Rightarrow> string \<Rightarrow> int \<Rightarrow> LayerRef \<Rightarrow> DispatchState \<Rightarrow> DispatchState" where
  "pause_cancel site tid sid now ref s =
     upd_layer ref (\<lambda>l. set_worker_state tid (Paused sid now zero_usage)
       (terminate_worker tid (op_reason (site @ ''.pause_worker(cancel) target='' @ tid)) l)) s"

definition pause_freeze ::
  "(Signal \<Rightarrow> string option) \<Rightarrow> string \<Rightarrow> string \<Rightarrow> int \<Rightarrow> int \<Rightarrow> LayerRef \<Rightarrow> DispatchState \<Rightarrow>
     (LifeError + unit) \<times> Signal list \<times> DispatchState" where
  "pause_freeze sig_err tid sid started now ref s =
     (let pid = pid_in tid ref s
      in if pid = 0 then (Inl PidUnknown, [], s)
         else case sig_err (SigStop pid) of
                Some e \<Rightarrow> (Inl (SignalFailed e), [SigStop pid], s)
              | None \<Rightarrow> (Inr (), [SigStop pid], upd_layer ref (set_worker_state tid (Frozen sid now started)) s))"

definition handle_pause_worker ::
  "(Signal \<Rightarrow> string option) \<Rightarrow> int \<Rightarrow> string \<Rightarrow> PauseMode \<Rightarrow> DispatchState \<Rightarrow>
     (LifeError + unit) \<times> Signal list \<times> DispatchState" where
  "handle_pause_worker sig_err now tid mode s =
     (case layer_for_worker s tid of
        None \<Rightarrow> (Inl (UnknownTask tid), [], s)
      | Some ref \<Rightarrow>
          (case state_in tid ref s of
             None \<Rightarrow> (Inl (UnknownTask tid), [], s)
           | Some (Running started (Some sid)) \<Rightarrow>
               (case mode of
                  PauseCancel \<Rightarrow> (Inr (), [], pause_cancel ''mcp'' tid sid now ref s)
                | PauseFreeze \<Rightarrow> pause_freeze sig_err tid sid started now ref s)
           | Some (Running started None) \<Rightarrow> (Inl NotInitialized, [], s)
           | Some (Paused a b c) \<Rightarrow> (Inl AlreadyPaused, [], s)
           | Some (Frozen a b c) \<Rightarrow> (Inl AlreadyFrozen, [], s)
           | Some w \<Rightarrow> (Inl NotPausable, [], s)))"

definition thaw ::
  "(Signal \<Rightarrow> string option) \<Rightarrow> string \<Rightarrow> string \<Rightarrow> int \<Rightarrow> LayerRef \<Rightarrow> DispatchState \<Rightarrow>
     (LifeError + unit) \<times> Signal list \<times> DispatchState" where
  "thaw sig_err tid sid started ref s =
     (let pid = pid_in tid ref s
      in if pid = 0 then (Inl PidUnknown, [], s)
         else case sig_err (SigCont pid) of
                Some e \<Rightarrow> (Inl (SignalFailed e), [SigCont pid], s)
              | None \<Rightarrow> (Inr (), [SigCont pid], upd_layer ref (set_worker_state tid (Running started (Some sid))) s))"

definition continue_prompt :: "string option \<Rightarrow> string" where
  "continue_prompt p = (case p of Some t \<Rightarrow> t | None \<Rightarrow> ''continue'')"

text \<open>The launch of a resumed subprocess is \<open>Some\<close> when the handler started one.\<close>

definition handle_continue_worker ::
  "(Signal \<Rightarrow> string option) \<Rightarrow> string \<Rightarrow> int \<Rightarrow> string \<Rightarrow> string option \<Rightarrow> DispatchState \<Rightarrow>
     (LifeError + (LayerRef \<times> ResumeLaunch) option) \<times> Signal list \<times> DispatchState" where
  "handle_continue_worker sig_err uuid now tid prompt s =
     (case layer_for_worker s tid of
        None \<Rightarrow> (Inl (UnknownTask tid), [], s)
      | Some ref \<Rightarrow>
          (case state_in tid ref s of
             Some (Paused sid a b) \<Rightarrow>
               (case spawn_resume_worker uuid now tid (continue_prompt prompt) sid s of
                  (Inl e, s') \<Rightarrow> (Inl e, [], s')
                | (Inr w, s') \<Rightarrow> (Inr (Some w), [], s'))
           | Some (Frozen sid a started) \<Rightarrow>
               (case thaw sig_err tid sid started ref s of
                  (Inl e, sigs, s') \<Rightarrow> (Inl e, sigs, s')
                | (Inr _, sigs, s') \<Rightarrow> (Inr None, sigs, s'))
           | Some w \<Rightarrow> (Inl NotPaused, [], s)
           | None \<Rightarrow> (Inl (UnknownTask tid), [], s)))"

text \<open>
  \<^verbatim>\<open>handle_reprompt_worker\<close> sleeps between killing the old subprocess and resuming: other steps
  run in between. The two halves are \<open>reprompt_kill\<close>, which finds the session, and \<open>reprompt_resume\<close>.
\<close>

definition reprompt_kill ::
  "string \<Rightarrow> DispatchState \<Rightarrow> (LifeError + LayerRef \<times> string) \<times> DispatchState" where
  "reprompt_kill tid s =
     (case layer_for_worker s tid of
        None \<Rightarrow> (Inl (UnknownTask tid), s)
      | Some ref \<Rightarrow>
          (case state_in tid ref s of
             Some (Running a (Some sid)) \<Rightarrow>
               (Inr (ref, sid), upd_layer ref (terminate_worker tid
                  (op_reason (''mcp.reprompt_worker (kill+respawn) target='' @ tid))) s)
           | Some (Paused sid a b) \<Rightarrow> (Inr (ref, sid), s)
           | Some (Frozen a b c) \<Rightarrow> (Inl FrozenFirst, s)
           | Some (Running a None) \<Rightarrow> (Inl NotInitialized, s)
           | Some Pending \<Rightarrow> (Inl StillPending, s)
           | Some (Done rec) \<Rightarrow> (Inl AlreadyCompleted, s)
           | None \<Rightarrow> (Inl (UnknownTask tid), s)))"

definition reprompt_resume ::
  "string \<Rightarrow> int \<Rightarrow> string \<Rightarrow> string \<Rightarrow> LayerRef \<Rightarrow> string \<Rightarrow> DispatchState \<Rightarrow>
     (LifeError + LayerRef \<times> ResumeLaunch) \<times> DispatchState" where
  "reprompt_resume uuid now tid prompt ref sid s =
     (let s = append_event tid (TeReprompt now (take_chars 80 prompt) sid) s
      in case spawn_resume_worker uuid now tid prompt sid s of
           (Inl e, s') \<Rightarrow> (Inl e, s')
         | (Inr w, s') \<Rightarrow> (Inr w, upd_layer ref (bump_reprompts tid) s'))"

definition handle_reprompt_worker ::
  "string \<Rightarrow> int \<Rightarrow> string \<Rightarrow> string \<Rightarrow> (DispatchState \<Rightarrow> DispatchState) \<Rightarrow> DispatchState \<Rightarrow>
     (LifeError + LayerRef \<times> ResumeLaunch) \<times> DispatchState" where
  "handle_reprompt_worker uuid now tid prompt meanwhile s =
     (case reprompt_kill tid s of
        (Inl e, s') \<Rightarrow> (Inl e, s')
      | (Inr (ref, sid), s') \<Rightarrow> reprompt_resume uuid now tid prompt ref sid (meanwhile s'))"

section \<open>Operations of the control socket\<close>

definition thaw_if_frozen :: "string \<Rightarrow> LayerRef \<Rightarrow> DispatchState \<Rightarrow> Signal list" where
  "thaw_if_frozen tid ref s =
     (case state_in tid ref s of
        Some (Frozen a b c) \<Rightarrow> if pid_in tid ref s \<noteq> 0 then [SigCont (pid_in tid ref s)] else []
      | _ \<Rightarrow> [])"

definition op_cancel_worker :: "string \<Rightarrow> DispatchState \<Rightarrow> ControlEvent \<times> Signal list \<times> DispatchState" where
  "op_cancel_worker tid s =
     (case find_worker_layer s tid of
        None \<Rightarrow> (OpFailed ''cancel_worker'' (Some tid) (''unknown task_id: '' @ tid), [], s)
      | Some ref \<Rightarrow>
          (let sigs = thaw_if_frozen tid ref s
           in case token_in tid ref s of
                Some tok \<Rightarrow>
                  (OpAcked ''cancel_worker'' (Some tid), sigs,
                   upd_layer ref (terminate_worker tid (op_reason (''control.cancel_worker target='' @ tid))) s)
              | None \<Rightarrow>
                  (OpFailed ''cancel_worker'' (Some tid) (''no cancel token for task_id: '' @ tid), sigs, s)))"

text \<open>The frozen workers of a layer that \<^verbatim>\<open>cancel_run\<close> wakes: it reads the pid slots of the root.\<close>

definition thaw_layer :: "LayerState \<Rightarrow> LayerState \<Rightarrow> Signal list" where
  "thaw_layer rt l =
     concat (map (\<lambda>(tid, w). case w of
         Frozen a b c \<Rightarrow> if 0 < pid_of tid rt then [SigCont (pid_of tid rt)] else []
       | _ \<Rightarrow> []) (states (workers l)))"

definition terminate_all_workers :: "TerminateReason \<Rightarrow> LayerState \<Rightarrow> LayerState" where
  "terminate_all_workers why l =
     l\<lparr>workers := (workers l)\<lparr>cancels :=
        map (\<lambda>(tid, tok). (tid, terminate_with_reason why tok)) (cancels (workers l))\<rparr>\<rparr>"

definition cancel_subtree :: "TerminateReason \<Rightarrow> LayerState \<Rightarrow> LayerState" where
  "cancel_subtree why l = (terminate_all_workers why l)\<lparr>cancel := terminate_with_reason why (cancel l)\<rparr>"

definition op_cancel_run :: "DispatchState \<Rightarrow> ControlEvent \<times> Signal list \<times> DispatchState" where
  "op_cancel_run s =
     (let s = s\<lparr>root := (root s)\<lparr>cancel := cancel_drain (cancel (root s))\<rparr>\<rparr>;
          sigs = thaw_layer (root s) (root s) @
                 concat (map (\<lambda>(sid, l). thaw_layer (root s) l) (subleads s));
          why = op_reason ''control.cancel_run'';
          s = s\<lparr>root := terminate_all_workers why (root s)\<rparr>;
          s = s\<lparr>subleads := map (\<lambda>(sid, l). (sid, cancel_subtree why l)) (subleads s)\<rparr>;
          s = s\<lparr>root := (root s)\<lparr>cancel := terminate_with_reason why (cancel (root s))\<rparr>\<rparr>
      in (OpAcked ''cancel_run'' None, sigs, s))"

definition pause_done :: "string \<Rightarrow> int \<Rightarrow> LayerRef \<Rightarrow> DispatchState \<Rightarrow> ControlEvent \<times> DispatchState" where
  "pause_done tid now ref s =
     (OpAcked ''pause_worker'' (Some tid),
      upd_layer ref (bump_pauses tid) (append_event tid (TePause now None) s))"

definition op_pause_worker ::
  "(Signal \<Rightarrow> string option) \<Rightarrow> int \<Rightarrow> string \<Rightarrow> PauseMode \<Rightarrow> DispatchState \<Rightarrow>
     ControlEvent \<times> Signal list \<times> DispatchState" where
  "op_pause_worker sig_err now tid mode s =
     (case find_worker_layer s tid of
        None \<Rightarrow> (OpFailed ''pause_worker'' (Some tid) ''unknown task_id'', [], s)
      | Some ref \<Rightarrow>
          (case state_in tid ref s of
             None \<Rightarrow> (OpFailed ''pause_worker'' (Some tid) ''unknown task_id'', [], s)
           | Some (Running started (Some sid)) \<Rightarrow>
               (case mode of
                  PauseCancel \<Rightarrow>
                    (let (ev, s) = pause_done tid now ref (pause_cancel ''control'' tid sid now ref s)
                     in (ev, [], s))
                | PauseFreeze \<Rightarrow>
                    (case pause_freeze sig_err tid sid started now ref s of
                       (Inl (SignalFailed e), sigs, s) \<Rightarrow>
                         (OpFailed ''pause_worker'' (Some tid) (''freeze failed: '' @ e), sigs, s)
                     | (Inl e, sigs, s) \<Rightarrow>
                         (OpFailed ''pause_worker'' (Some tid) ''pid slot empty; cannot freeze'', sigs, s)
                     | (Inr _, sigs, s) \<Rightarrow>
                         (let (ev, s) = pause_done tid now ref s in (ev, sigs, s))))
           | Some (Running started None) \<Rightarrow> (OpUnknownState ''pause_worker'' tid ''spawning'', [], s)
           | Some (Paused a b c) \<Rightarrow> (OpUnknownState ''pause_worker'' tid ''paused'', [], s)
           | Some (Frozen a b c) \<Rightarrow> (OpUnknownState ''pause_worker'' tid ''frozen'', [], s)
           | Some Pending \<Rightarrow> (OpUnknownState ''pause_worker'' tid ''pending'', [], s)
           | Some (Done rec) \<Rightarrow> (OpUnknownState ''pause_worker'' tid ''done'', [], s)))"

definition life_error_text :: "LifeError \<Rightarrow> string" where
  "life_error_text e =
     (case e of
        UnknownTask tid \<Rightarrow> ''unknown task_id: '' @ tid
      | SignalFailed m \<Rightarrow> m
      | NotInitialized \<Rightarrow> ''worker not yet initialized (no session_id)''
      | AlreadyPaused \<Rightarrow> ''worker already paused''
      | AlreadyFrozen \<Rightarrow> ''worker already frozen''
      | NotPausable \<Rightarrow> ''worker not in a pausable state''
      | PidUnknown \<Rightarrow> ''pid unknown''
      | NotPaused \<Rightarrow> ''worker not paused''
      | FrozenFirst \<Rightarrow> ''worker is frozen; continue_worker (SIGCONT) it first before reprompting''
      | StillPending \<Rightarrow> ''worker is still pending''
      | AlreadyCompleted \<Rightarrow> ''worker already completed'')"

definition op_continue_worker ::
  "(Signal \<Rightarrow> string option) \<Rightarrow> string \<Rightarrow> int \<Rightarrow> string \<Rightarrow> string option \<Rightarrow> DispatchState \<Rightarrow>
     ControlEvent \<times> (LayerRef \<times> ResumeLaunch) option \<times> Signal list \<times> DispatchState" where
  "op_continue_worker sig_err uuid now tid prompt s =
     (case find_worker_layer s tid of
        None \<Rightarrow> (OpFailed ''continue_worker'' (Some tid) ''unknown task_id'', None, [], s)
      | Some ref \<Rightarrow>
          (case state_in tid ref s of
             Some (Paused sid a b) \<Rightarrow>
               (case spawn_resume_worker uuid now tid (continue_prompt prompt) sid s of
                  (Inl e, s') \<Rightarrow>
                    (OpFailed ''continue_worker'' (Some tid) (life_error_text e), None, [], s')
                | (Inr w, s') \<Rightarrow>
                    (OpAcked ''continue_worker'' (Some tid), Some w, [],
                     append_event tid (TeContinue now sid (take_chars 80 (continue_prompt prompt))) s'))
           | Some (Frozen sid a started) \<Rightarrow>
               (case thaw sig_err tid sid started ref s of
                  (Inl (SignalFailed e), sigs, s') \<Rightarrow>
                    (OpFailed ''continue_worker'' (Some tid) (''SIGCONT failed: '' @ e), None, sigs, s')
                | (Inl e, sigs, s') \<Rightarrow>
                    (OpFailed ''continue_worker'' (Some tid) ''pid slot empty; cannot thaw'', None, sigs, s')
                | (Inr _, sigs, s') \<Rightarrow> (OpAcked ''continue_worker'' (Some tid), None, sigs, s'))
           | Some w \<Rightarrow> (OpUnknownState ''continue_worker'' tid ''not_paused'', None, [], s)
           | None \<Rightarrow> (OpFailed ''continue_worker'' (Some tid) ''unknown task_id'', None, [], s)))"

text \<open>The operator's reprompt: a sub-lead gets the message on its channel, a worker is killed and resumed.\<close>

definition op_reprompt_kill ::
  "string \<Rightarrow> DispatchState \<Rightarrow> (ControlEvent + LayerRef \<times> string) \<times> DispatchState" where
  "op_reprompt_kill tid s =
     (case find_worker_layer s tid of
        None \<Rightarrow> (Inl (OpFailed ''reprompt_worker'' (Some tid) ''unknown task_id''), s)
      | Some ref \<Rightarrow>
          (case state_in tid ref s of
             Some (Running a (Some sid)) \<Rightarrow>
               (Inr (ref, sid), upd_layer ref (terminate_worker tid
                  (op_reason (''control.reprompt_worker (kill+respawn) target='' @ tid))) s)
           | Some (Paused sid a b) \<Rightarrow> (Inr (ref, sid), s)
           | Some w \<Rightarrow> (Inl (OpUnknownState ''reprompt_worker'' tid ''invalid''), s)
           | None \<Rightarrow> (Inl (OpFailed ''reprompt_worker'' (Some tid) ''unknown task_id''), s)))"

definition op_reprompt_worker ::
  "string \<Rightarrow> int \<Rightarrow> string \<Rightarrow> string \<Rightarrow> (DispatchState \<Rightarrow> DispatchState) \<Rightarrow> DispatchState \<Rightarrow>
     ControlEvent \<times> (LayerRef \<times> ResumeLaunch) option \<times> DispatchState" where
  "op_reprompt_worker uuid now tid prompt meanwhile s =
     (if hm_get plain tid (subleads s) \<noteq> None then
        (OpAcked ''reprompt_worker'' (Some tid), None,
         upd_layer (SubLayer tid) (send_synthetic_reprompt prompt)
           (append_event tid (TeReprompt now (take_chars 80 prompt) []) s))
      else
        (case op_reprompt_kill tid s of
           (Inl ev, s') \<Rightarrow> (ev, None, s')
         | (Inr (ref, sid), s') \<Rightarrow>
             (case reprompt_resume uuid now tid prompt ref sid (meanwhile s') of
                (Inl e, s'') \<Rightarrow>
                  (OpFailed ''reprompt_worker'' (Some tid) (life_error_text e), None, s'')
              | (Inr w, s'') \<Rightarrow> (OpAcked ''reprompt_worker'' (Some tid), Some w, s''))))"

end
