(* ===== verification/Worker_Wait.thy ===== *)
theory Worker_Wait
  imports Worker_Ops
begin

text \<open>
  The waits of \<^verbatim>\<open>mcp/tools/wait.rs\<close>: subscribe to the root's done channel, look whether the
  actor has finished, then receive. The channel keeps \<open>DONE_CAPACITY\<close> messages for a subscriber; one
  that is further behind gets an error. A loop runs on the state of one moment; when its
  channel is empty it blocks until the next message or its timeout, and goes on from there.
\<close>

section \<open>Waiting\<close>

datatype ActorTerminalRecord = WorkerRec TaskRecord | SubleadRec SubleadTerminalRecord

datatype WaitError =
    UnknownActor string
  | WaitTimedOut string
  | ChannelClosed
  | RecordMissing
  | IsSublead
  | NoTaskIds
  | NoneKnown "string list"

text \<open>\<open>BlockedAt cur\<close>: waiting for the message after the first \<open>cur\<close> of the channel.\<close>

datatype 'a WaitStep = Got 'a | WaitFailed WaitError | BlockedAt nat

definition DONE_CAPACITY :: nat where
  "DONE_CAPACITY = 1024"

definition terminal_record :: "DispatchState \<Rightarrow> string \<Rightarrow> ActorTerminalRecord option" where
  "terminal_record s actor =
     (case find_worker_across_layers s actor of
        Some (Done rec) \<Rightarrow> Some (WorkerRec rec)
      | _ \<Rightarrow> map_option SubleadRec (hm_get plain actor (sublead_results s)))"

definition subscribe_done :: "DispatchState \<Rightarrow> nat" where
  "subscribe_done s = length (done_tx (workers (root s)))"

definition wait_for_actor_start :: "DispatchState \<Rightarrow> string \<Rightarrow> ActorTerminalRecord WaitStep" where
  "wait_for_actor_start s actor =
     (case terminal_record s actor of
        Some rec \<Rightarrow> Got rec
      | None \<Rightarrow>
          if find_worker_across_layers s actor = None \<and> hm_get plain actor (subleads s) = None
          then WaitFailed (UnknownActor actor)
          else BlockedAt (subscribe_done s))"

definition recv_done :: "DispatchState \<Rightarrow> nat \<Rightarrow> (string \<Rightarrow> 'a WaitStep) \<Rightarrow> 'a WaitStep" where
  "recv_done s cur k =
     (let sent = done_tx (workers (root s))
      in if length sent \<le> cur then BlockedAt cur
         else if length sent - cur > DONE_CAPACITY then WaitFailed ChannelClosed
         else k (sent ! cur))"

lemma recv_done_cong [fundef_cong]:
  "s = s' \<Longrightarrow> cur = cur' \<Longrightarrow>
   (\<And>x. cur' < length (done_tx (workers (root s'))) \<Longrightarrow> k x = k' x) \<Longrightarrow>
   recv_done s cur k = recv_done s' cur' k'"
  by (auto simp: recv_done_def Let_def)

text \<open>The receive loop on the state of one moment, until an answer, an error or an empty channel.\<close>

function wait_for_actor_loop :: "DispatchState \<Rightarrow> string \<Rightarrow> nat \<Rightarrow> ActorTerminalRecord WaitStep" where
  "wait_for_actor_loop s actor cur =
     recv_done s cur (\<lambda>completed.
       case terminal_record s actor of
         Some rec \<Rightarrow> Got rec
       | None \<Rightarrow>
           if completed = actor then WaitFailed RecordMissing
           else wait_for_actor_loop s actor (Suc cur))"
  by pat_completeness auto
termination
  by (relation "measure (\<lambda>(s, a, cur). length (done_tx (workers (root s))) - cur)") auto

definition handle_wait_for_worker :: "ActorTerminalRecord WaitStep \<Rightarrow> TaskRecord WaitStep" where
  "handle_wait_for_worker r =
     (case r of
        Got (WorkerRec rec) \<Rightarrow> Got rec
      | Got (SubleadRec rec) \<Rightarrow> WaitFailed IsSublead
      | WaitFailed e \<Rightarrow> WaitFailed e
      | BlockedAt cur \<Rightarrow> BlockedAt cur)"

fun first_done :: "DispatchState \<Rightarrow> string list \<Rightarrow> (string \<times> TaskRecord) option" where
  "first_done s [] = None"
| "first_done s (tid # tids) =
     (case find_worker_across_layers s tid of
        Some (Done rec) \<Rightarrow> Some (tid, rec)
      | _ \<Rightarrow> first_done s tids)"

definition wait_for_any_start :: "DispatchState \<Rightarrow> string list \<Rightarrow> (string \<times> TaskRecord) WaitStep" where
  "wait_for_any_start s tids =
     (if tids = [] then WaitFailed NoTaskIds
      else case first_done s tids of
             Some r \<Rightarrow> Got r
           | None \<Rightarrow>
               if list_all (\<lambda>tid. find_worker_across_layers s tid = None) tids
               then WaitFailed (NoneKnown tids)
               else BlockedAt (subscribe_done s))"

function wait_for_any_loop :: "DispatchState \<Rightarrow> string list \<Rightarrow> nat \<Rightarrow> (string \<times> TaskRecord) WaitStep" where
  "wait_for_any_loop s tids cur =
     recv_done s cur (\<lambda>completed.
       case (if completed \<in> set tids then first_done s [completed] else None) of
         Some r \<Rightarrow> Got r
       | None \<Rightarrow>
           (case first_done s tids of
              Some r \<Rightarrow> Got r
            | None \<Rightarrow> wait_for_any_loop s tids (Suc cur)))"
  by pat_completeness auto
termination
  by (relation "measure (\<lambda>(s, a, cur). length (done_tx (workers (root s))) - cur)") auto

declare wait_for_actor_loop.simps [simp del] wait_for_any_loop.simps [simp del]

end
