(* ===== verification/Worker_Facts.thy ===== *)
theory Worker_Facts
  imports Worker_Wait
begin

text \<open>
  What the steps of a worker's life do to the layers and the run-wide tables, and the properties of a
  worker's end: it wakes the waiters, and what happens to a worker paused by cancel or reprompted.
\<close>

section \<open>Steps seen from a layer\<close>

lemma keeps_lead [layer_simps]:
  "lead_id (set_worker_state tid w l) = lead_id l"
  "lead_id (send_done tid l) = lead_id l"
  "lead_id (drop_pid tid l) = lead_id l"
  "lead_id (set_pid tid p l) = lead_id l"
  "lead_id (add_spent c l) = lead_id l"
  "lead_id (release_reservation_for_layer tid l) = lead_id l"
  "lead_id (terminate_worker tid why l) = lead_id l"
  "lead_id (bump_reprompts tid l) = lead_id l"
  "lead_id (bump_pauses tid l) = lead_id l"
  by (simp_all add: set_worker_state_def send_done_def drop_pid_def set_pid_def add_spent_def
      release_reservation_for_layer_def terminate_worker_def bump_reprompts_def bump_pauses_def Let_def)

lemma states_of_update [layer_simps]:
  "states (workers (set_worker_state tid w l)) = hm_insert plain tid w (states (workers l))"
  "states (workers (send_done tid l)) = states (workers l)"
  "states (workers (drop_pid tid l)) = states (workers l)"
  "states (workers (set_pid tid p l)) = states (workers l)"
  "states (workers (add_spent c l)) = states (workers l)"
  "states (workers (release_reservation_for_layer tid l)) = states (workers l)"
  "states (workers (terminate_worker tid why l)) = states (workers l)"
  "states (workers (bump_reprompts tid l)) = states (workers l)"
  "states (workers (bump_pauses tid l)) = states (workers l)"
  by (simp_all add: set_worker_state_def send_done_def drop_pid_def set_pid_def add_spent_def
      release_reservation_for_layer_def terminate_worker_def bump_reprompts_def bump_pauses_def Let_def)

lemma done_tx_of_update [layer_simps]:
  "done_tx (workers (set_worker_state tid w l)) = done_tx (workers l)"
  "done_tx (workers (send_done tid l)) = done_tx (workers l) @ [tid]"
  "done_tx (workers (drop_pid tid l)) = done_tx (workers l)"
  "done_tx (workers (set_pid tid p l)) = done_tx (workers l)"
  "done_tx (workers (add_spent c l)) = done_tx (workers l)"
  "done_tx (workers (release_reservation_for_layer tid l)) = done_tx (workers l)"
  "done_tx (workers (terminate_worker tid why l)) = done_tx (workers l)"
  "done_tx (workers (bump_reprompts tid l)) = done_tx (workers l)"
  "done_tx (workers (bump_pauses tid l)) = done_tx (workers l)"
  by (simp_all add: set_worker_state_def send_done_def drop_pid_def set_pid_def add_spent_def
      release_reservation_for_layer_def terminate_worker_def bump_reprompts_def bump_pauses_def Let_def)

lemma budget_of_update [layer_simps]:
  "budget (set_worker_state tid w l) = budget l"
  "budget (send_done tid l) = budget l"
  "budget (drop_pid tid l) = budget l"
  "budget (set_pid tid p l) = budget l"
  "budget (terminate_worker tid why l) = budget l"
  "budget (bump_reprompts tid l) = budget l"
  "budget (bump_pauses tid l) = budget l"
  by (simp_all add: set_worker_state_def send_done_def drop_pid_def set_pid_def
      terminate_worker_def bump_reprompts_def bump_pauses_def Let_def)

text \<open>A layer's view of the steps that only touch run-wide tables.\<close>

lemma layer_of_cong:
  "root s = root s' \<Longrightarrow> subleads s = subleads s' \<Longrightarrow>
   terminated_sublead_layers s = terminated_sublead_layers s' \<Longrightarrow> layer_of r s = layer_of r s'"
  by (cases r) (simp_all add: layer_of_def split: option.split)

lemma run_wide_steps [layer_simps]:
  "root (append_record rec s) = root s" "subleads (append_record rec s) = subleads s"
  "terminated_sublead_layers (append_record rec s) = terminated_sublead_layers s"
  "root (forget_worker_layer tid s) = root s" "subleads (forget_worker_layer tid s) = subleads s"
  "terminated_sublead_layers (forget_worker_layer tid s) = terminated_sublead_layers s"
  "root (note_failure now tid p path rec s) = root s" "subleads (note_failure now tid p path rec s) = subleads s"
  "terminated_sublead_layers (note_failure now tid p path rec s) = terminated_sublead_layers s"
  by (simp_all add: append_record_def forget_worker_layer_def note_failure_def broadcast_worker_failed_def
      broadcast_control_event_def next_seq_def split: option.splits)

lemma layer_of_run_wide [layer_simps]:
  "layer_of r (append_record rec s) = layer_of r s"
  "layer_of r (forget_worker_layer tid s) = layer_of r s"
  "layer_of r (note_failure now tid p path rec s) = layer_of r s"
  "layer_of r (s\<lparr>run_leases := m\<rparr>) = layer_of r s"
  "layer_of r (s\<lparr>actor_tokens := t\<rparr>) = layer_of r s"
  by (rule layer_of_cong; simp add: layer_simps)+


lemma layer_of_announce [layer_simps]:
  "layer_of r (announce_done ref tid s) =
     map_option (\<lambda>l. if r = ref \<or> r = RootLayer then send_done tid l else l) (layer_of r s)"
  by (cases "layer_of r s") (auto simp: announce_done_def Let_def layer_simps)

lemma root_layer: "layer_of RootLayer s = Some (root s)"
  by (simp add: layer_of_def)

definition charge_cost :: "f64 option \<Rightarrow> LayerState \<Rightarrow> LayerState" where
  "charge_cost c l = (case c of Some x \<Rightarrow> add_spent x l | None \<Rightarrow> l)"

lemma charge_cost_frame [layer_simps]:
  "lead_id (charge_cost c l) = lead_id l"
  "states (workers (charge_cost c l)) = states (workers l)"
  "done_tx (workers (charge_cost c l)) = done_tx (workers l)"
  by (simp_all add: charge_cost_def layer_simps split: option.splits)

text \<open>What each layer is after a worker's tail.\<close>

definition finished_record ::
  "WorkerLaunch \<Rightarrow> string \<Rightarrow> string \<Rightarrow> CancelToken \<Rightarrow> FailureReason option \<Rightarrow> int \<Rightarrow> SessionOutcome \<Rightarrow> LayerState \<Rightarrow>
     DispatchState \<Rightarrow> TaskRecord" where
  "finished_record w cwd log_path tok failure now o' l s =
     worker_record (wl_task_id w) (wl_lead_id w) (wl_model w) (wl_worker_type w)
       (if wl_use_worktree w then Some cwd else None) log_path (layer_counters (wl_task_id w) l)
       (reclassified_status (wl_task_id w) now (status_of_session (so_final_state o')) s) failure tok o'"

lemma layer_of_finish:
  assumes l: "layer_of ref s = Some l"
    and rec: "rec = finished_record w cwd log_path tok failure now o' l s"
  shows "layer_of r (finish_worker ref w cwd log_path token tok failure now o' s) =
     map_option (\<lambda>l. if r = ref then send_done (wl_task_id w) (set_worker_state (wl_task_id w) (Done rec)
          (charge_cost (cost_usd (wl_model w) (so_token_usage o'))
             (release_reservation_for_layer (wl_task_id w) (drop_pid (wl_task_id w) l))))
        else if r = RootLayer then send_done (wl_task_id w) l else l) (layer_of r s)"
  by (cases "layer_of r s"; cases "cost_usd (wl_model w) (so_token_usage o')")
    (simp_all add: finish_worker_def l rec Let_def layer_simps revoke_token_def charge_cost_def
      worker_record_def finished_record_def)

lemma hm_update_comp: "hm_update k f (hm_update k g m) = hm_update k (\<lambda>x. f (g x)) m"
  by (induction m) (auto simp: hm_update_def)

lemma subleads_upd_eq:
  "subleads (upd_layer RootLayer f s) = subleads s"
  "subleads (upd_layer (SubLayer sid) f s) = hm_update sid f (subleads s)"
  by (simp_all add: upd_layer_def)

lemma find_sublead_update:
  "find_sublead_with tid m = Some (sid, l) \<Longrightarrow> distinct (map fst m) \<Longrightarrow>
   hm_get plain tid (states (workers (f l))) \<noteq> None \<Longrightarrow>
   find_sublead_with tid (hm_update sid f m) = Some (sid, f l)"
proof (induction m)
  case (Cons p m)
  obtain k l' where p: "p = (k, l')" by (cases p)
  show ?case
  proof (cases "hm_get plain tid (states (workers l')) \<noteq> None")
    case False
    then have f: "find_sublead_with tid m = Some (sid, l)" using Cons.prems p by simp
    then have "sid \<in> fst ` set m"
      by (induction m) (auto split: if_splits)
    then show ?thesis using Cons False p f by (auto simp: hm_update_def)
  qed (use Cons p in \<open>auto simp: hm_update_def\<close>)
qed simp

lemma subleads_finish:
  assumes "layer_of ref s = Some l" "rec = finished_record w cwd log_path tok failure now o' l s"
  shows "subleads (finish_worker ref w cwd log_path token tok failure now o' s) =
     (case ref of RootLayer \<Rightarrow> subleads s
      | SubLayer sid \<Rightarrow> hm_update sid (\<lambda>l. send_done (wl_task_id w) (set_worker_state (wl_task_id w) (Done rec)
          (charge_cost (cost_usd (wl_model w) (so_token_usage o'))
             (release_reservation_for_layer (wl_task_id w) (drop_pid (wl_task_id w) l))))) (subleads s))"
  using assms by (cases ref; cases "cost_usd (wl_model w) (so_token_usage o')")
    (simp_all add: finish_worker_def Let_def layer_simps revoke_token_def charge_cost_def announce_done_def
      worker_record_def finished_record_def subleads_upd_eq hm_update_comp)

lemma root_finish:
  assumes "layer_of ref s = Some l" "rec = finished_record w cwd log_path tok failure now o' l s"
  shows "root (finish_worker ref w cwd log_path token tok failure now o' s) =
     (if ref = RootLayer
      then send_done (wl_task_id w) (set_worker_state (wl_task_id w) (Done rec)
          (charge_cost (cost_usd (wl_model w) (so_token_usage o'))
             (release_reservation_for_layer (wl_task_id w) (drop_pid (wl_task_id w) (root s)))))
      else send_done (wl_task_id w) (root s))"
  using layer_of_finish [OF assms, of RootLayer] by (simp add: root_layer)


lemma find_sublead_get:
  "find_sublead_with tid m = Some (sid, l) \<Longrightarrow> distinct (map fst m) \<Longrightarrow>
   hm_get plain sid m = Some l \<and> hm_get plain tid (states (workers l)) \<noteq> None"
proof (induction m)
  case (Cons p m)
  obtain k l' where p: "p = (k, l')" by (cases p)
  show ?case
  proof (cases "hm_get plain tid (states (workers l')) = None")
    case True
    then have f: "find_sublead_with tid m = Some (sid, l)" using Cons.prems p by simp
    then have "sid \<in> fst ` set m" by (induction m) (auto split: if_splits)
    then show ?thesis using Cons p f by auto
  qed (use Cons p in auto)
qed simp

lemma find_layer_state:
  assumes "find_worker_layer s tid = Some ref" "distinct (map fst (subleads s))"
  shows "\<exists>l. layer_of ref s = Some l \<and> hm_get plain tid (states (workers l)) \<noteq> None \<and>
     find_worker_across_layers s tid = hm_get plain tid (states (workers l))"
proof (cases "hm_get plain tid (states (workers (root s)))")
  case None
  then obtain sid l where f: "find_sublead_with tid (subleads s) = Some (sid, l)" "ref = SubLayer sid"
    using assms(1) by (auto simp: find_worker_layer_def)
  show ?thesis
    using find_sublead_get [OF f(1) assms(2)] None f by (simp add: layer_of_def find_worker_across_layers_def)
qed (use assms(1) in \<open>auto simp: find_worker_layer_def find_worker_across_layers_def layer_of_def\<close>)

section \<open>The end of a worker\<close>

text \<open>A finished worker is found as finished.\<close>

lemma finish_terminal:
  assumes found: "find_worker_layer s (wl_task_id w) = Some ref"
    and d: "distinct (map fst (subleads s))"
    and l: "layer_of ref s = Some l"
    and rec: "rec = finished_record w cwd log_path tok failure now o' l s"
  shows "terminal_record (finish_worker ref w cwd log_path token tok failure now o' s) (wl_task_id w) =
     Some (WorkerRec rec)"
proof (cases ref)
  case RootLayer
  then show ?thesis
    using root_finish [OF l rec]
    by (simp add: terminal_record_def find_worker_across_layers_def layer_simps hm_simps)
next
  case (SubLayer sid)
  have r: "hm_get plain (wl_task_id w) (states (workers (root s))) = None"
    and f: "\<exists>l. find_sublead_with (wl_task_id w) (subleads s) = Some (sid, l)"
    using found SubLayer by (auto simp: find_worker_layer_def split: if_splits)
  then show ?thesis
    using find_sublead_update [OF _ d] root_finish [OF l rec] subleads_finish [OF l rec] SubLayer r
    by (auto simp: terminal_record_def find_worker_across_layers_def layer_simps hm_simps)
qed

lemma finish_done_tx:
  assumes l: "layer_of ref s = Some l"
  shows "done_tx (workers (root (finish_worker ref w cwd log_path token tok failure now o' s))) =
     done_tx (workers (root s)) @ [wl_task_id w]"
  using root_finish [OF l refl] by (simp add: layer_simps)

text \<open>A run with one sub-lead and one running worker of its sub-tree.\<close>

definition life_layer :: LayerState where
  "life_layer = (layer_new ''run'' base_manifest new_cancel ''s'' PolicyBlock None new_store None)
     \<lparr>workers := new_workers\<lparr>states := [(''w'', Running 0 (Some ''ses''))], cancels := [(''w'', new_cancel)],
        models := [(''w'', ''claude-haiku-4-5'')]\<rparr>\<rparr>"

definition life_state :: DispatchState where
  "life_state = base_state\<lparr>subleads := [(''s'', life_layer)], worker_layer_index := [(''w'', Some ''s'')]\<rparr>"

definition life_launch :: WorkerLaunch where
  "life_launch = \<lparr>wl_task_id = ''w'', wl_lead_id = ''s'', wl_prompt = [], wl_directory = ''/tmp'', wl_branch = None,
     wl_model = ''claude-haiku-4-5'', wl_tools = [], wl_timeout_secs = 3600, wl_use_worktree = False,
     wl_cancel = new_cancel, wl_worker_type = None\<rparr>"

definition life_outcome :: "SessionState \<Rightarrow> SessionOutcome" where
  "life_outcome st = \<lparr>so_final_state = st, so_exit_code = Some 0, so_token_usage = zero_usage,
     so_claude_session_id = Some ''ses'', so_final_message_preview = None, so_final_message = None,
     so_started_at = 0, so_ended_at = 1000000000\<rparr>"

lemmas life_defs = life_state_def life_layer_def life_launch_def base_state_def new_dispatch_def layer_new_def
  new_workers_def

lemma life_facts:
  "find_worker_layer life_state ''w'' = Some (SubLayer ''s'')"
  "layer_for_worker life_state ''w'' = Some (SubLayer ''s'')"
  "distinct (map fst (subleads life_state))"
  "hm_get plain ''w'' (worker_layer_index life_state) = Some (Some ''s'')"
  "state_in ''w'' (SubLayer ''s'') life_state = Some (Running 0 (Some ''ses''))"
  "done_tx (workers (root life_state)) = []"
  "wl_task_id life_launch = ''w''"
  by (simp_all add: life_defs find_worker_layer_def layer_for_worker_def state_in_def layer_of_def)

lemma life_no_denial: "approval_driven_termination ''w'' now life_state = None"
  by (simp add: approval_driven_termination_def life_defs Let_def)

text \<open>
  C8: A worker's tail wakes its waiters. Let a worker be registered in the root layer or in that of a
  sub-lead that is still live, and let a \<^verbatim>\<open>wait_for_actor\<close> on it have subscribed at an earlier moment,
  since when fewer completions were announced than the 1024 the channel keeps. Whatever the
  subprocess's outcome, once the worker's task has run its tail the loop of that waiter returns the
  record the tail wrote. A worker that outlives its sub-lead is not covered: its layer is then no
  longer searched. The record carries the worker's id, parent, token usage and kill reason,
  and \<open>Success\<close> only when no recent refusal of an approval explains the exit.
\<close>

theorem finish_wakes_waiters:
  assumes found: "find_worker_layer s (wl_task_id w) = Some ref"
    and d: "distinct (map fst (subleads s))"
    and cur: "cur \<le> length (done_tx (workers (root s)))"
    and lag: "length (done_tx (workers (root s))) - cur < DONE_CAPACITY"
  shows "\<exists>rec. wait_for_actor_loop (finish_worker ref w cwd log_path token tok failure now o' s) (wl_task_id w) cur =
       Got (WorkerRec rec) \<and>
     tr_task_id rec = wl_task_id w \<and> tr_parent_task_id rec = Some (wl_lead_id w) \<and>
     tr_token_usage rec = so_token_usage o' \<and> tr_terminate_reason rec = ct_reason tok \<and>
     (tr_status rec = TsSuccess \<longleftrightarrow>
        so_final_state o' = SsCompleted \<and> approval_driven_termination (wl_task_id w) now s = None)"
proof -
  obtain l where l: "layer_of ref s = Some l" using find_layer_state [OF found d] by blast
  let ?rec = "finished_record w cwd log_path tok failure now o' l s"
  let ?s = "finish_worker ref w cwd log_path token tok failure now o' s"
  have t: "terminal_record ?s (wl_task_id w) = Some (WorkerRec ?rec)"
    by (rule finish_terminal [OF found d l refl])
  have "wait_for_actor_loop ?s (wl_task_id w) cur = Got (WorkerRec ?rec)"
    using cur lag by (subst wait_for_actor_loop.simps) (simp add: recv_done_def Let_def finish_done_tx [OF l] t)
  moreover have "tr_status ?rec = TsSuccess \<longleftrightarrow>
      so_final_state o' = SsCompleted \<and> approval_driven_termination (wl_task_id w) now s = None"
    by (cases "so_final_state o'")
      (auto simp: finished_record_def worker_record_def reclassified_status_def
        split: option.splits ApprovalTerminationKind.splits)
  ultimately show ?thesis by (auto simp: finished_record_def worker_record_def)
qed


theorem finish_wakes_waiters_witness:
  "find_worker_layer life_state ''w'' = Some (SubLayer ''s'') \<and> distinct (map fst (subleads life_state)) \<and>
   (\<exists>rec. wait_for_actor_loop (finish_worker (SubLayer ''s'') life_launch ''/d'' ''/l'' ''t'' new_cancel None 5
       (life_outcome SsCompleted) life_state) ''w'' 0 = Got (WorkerRec rec) \<and> tr_status rec = TsSuccess)"
  using finish_wakes_waiters [of life_state life_launch "SubLayer ''s''" 0 "''/d''" "''/l''" "''t''" new_cancel None 5
      "life_outcome SsCompleted"] life_facts life_no_denial [of 5]
  by (auto simp: DONE_CAPACITY_def life_outcome_def)

section \<open>Paused and reprompted workers\<close>

lemma find_layer_cong:
  "root s = root s' \<Longrightarrow> subleads s = subleads s' \<Longrightarrow> find_worker_layer s tid = find_worker_layer s' tid"
  by (simp add: find_worker_layer_def)

lemma find_layer_kept:
  assumes "find_worker_layer s tid = Some ref" "distinct (map fst (subleads s))"
    and keep: "\<And>l. hm_get plain tid (states (workers l)) \<noteq> None \<Longrightarrow> hm_get plain tid (states (workers (f l))) \<noteq> None"
  shows "find_worker_layer (upd_layer ref f s) tid = Some ref"
proof (cases ref)
  case RootLayer
  then show ?thesis using assms by (auto simp: find_worker_layer_def layer_simps split: if_splits)
next
  case (SubLayer sid)
  then obtain l where l: "find_sublead_with tid (subleads s) = Some (sid, l)"
      "hm_get plain tid (states (workers (root s))) = None"
    using assms(1) by (auto simp: find_worker_layer_def split: if_splits)
  then show ?thesis using find_sublead_get [OF l(1) assms(2)]
    find_sublead_update [of tid "subleads s" sid l f] assms(2) keep [of l] SubLayer
    by (simp add: find_worker_layer_def layer_simps subleads_upd_eq)
qed

lemma distinct_upd: "distinct (map fst (subleads (upd_layer r f s))) = distinct (map fst (subleads s))"
  by (cases r) (simp_all add: subleads_upd_eq)

lemma find_layer_finish:
  assumes f: "find_worker_layer s (wl_task_id w) = Some ref" and d: "distinct (map fst (subleads s))"
  shows "find_worker_layer (finish_worker ref w cwd log_path token tok failure now o' s) (wl_task_id w) = Some ref \<and>
     distinct (map fst (subleads (finish_worker ref w cwd log_path token tok failure now o' s)))"
proof -
  obtain l where l: "layer_of ref s = Some l" using find_layer_state [OF f d] by blast
  show ?thesis
  proof (cases ref)
    case RootLayer
    then show ?thesis
      using root_finish [OF l refl] subleads_finish [OF l refl] d
      by (simp add: find_worker_layer_def layer_simps hm_simps)
  next
    case (SubLayer sid)
    then show ?thesis
      using root_finish [OF l refl] subleads_finish [OF l refl] d f find_sublead_update [OF _ d]
      by (auto simp: find_worker_layer_def layer_simps hm_simps split: if_splits)
  qed
qed


lemma run_wide_index [layer_simps]:
  "worker_layer_index (append_record rec s) = worker_layer_index s"
  "worker_layer_index (note_failure now tid p path rec s) = worker_layer_index s"
  "worker_layer_index (forget_worker_layer tid s) = hm_remove plain tid (worker_layer_index s)"
  "worker_layer_index (announce_done ref tid s) = worker_layer_index s"
  by (simp_all add: append_record_def note_failure_def broadcast_worker_failed_def broadcast_control_event_def
      next_seq_def forget_worker_layer_def announce_done_def Let_def layer_simps split: option.splits)

lemma index_finish:
  "layer_of ref s = Some l \<Longrightarrow>
   worker_layer_index (finish_worker ref w cwd log_path token tok failure now o' s) =
     hm_remove plain (wl_task_id w) (worker_layer_index s)"
  by (cases "cost_usd (wl_model w) (so_token_usage o')")
    (simp_all add: finish_worker_def Let_def layer_simps revoke_token_def worker_record_def)

lemma finish_layer_for:
  assumes "find_worker_layer s (wl_task_id w) = Some ref" "distinct (map fst (subleads s))"
  shows "layer_for_worker (finish_worker ref w cwd log_path token tok failure now o' s) (wl_task_id w) = Some ref"
proof -
  obtain l where l: "layer_of ref s = Some l" using find_layer_state [OF assms] by blast
  show ?thesis
    using find_layer_finish [OF assms] by (simp add: layer_for_worker_def index_finish [OF l] hm_simps)
qed

lemma state_finish:
  assumes "layer_of ref s = Some l"
  shows "\<exists>rec. state_in (wl_task_id w) ref (finish_worker ref w cwd log_path token tok failure now o' s) =
     Some (Done rec) \<and> tr_status rec = reclassified_status (wl_task_id w) now (status_of_session (so_final_state o')) s"
  using layer_of_finish [OF assms refl, of ref] assms
  by (simp add: state_in_def layer_simps hm_simps finished_record_def worker_record_def)

lemma pause_cancel_layers:
  assumes "find_worker_layer s tid = Some ref" "distinct (map fst (subleads s))"
  shows "find_worker_layer (pause_cancel site tid sid now ref s) tid = Some ref"
    "distinct (map fst (subleads (pause_cancel site tid sid now ref s)))"
    "state_in tid ref (pause_cancel site tid sid now ref s) = Some (Paused sid now zero_usage)"
proof -
  obtain l where "layer_of ref s = Some l" using find_layer_state [OF assms] by blast
  then show "state_in tid ref (pause_cancel site tid sid now ref s) = Some (Paused sid now zero_usage)"
    by (simp add: pause_cancel_def state_in_def layer_simps hm_simps)
qed (use assms in \<open>auto simp: pause_cancel_def distinct_upd layer_simps hm_simps intro!: find_layer_kept\<close>)

text \<open>
  C36: Pausing a worker by cancelling it does not leave it paused. The pause answers success and puts
  the worker in state \<open>Paused\<close>; but the task that ran the killed subprocess still runs its tail,
  which overwrites that state with \<open>Done\<close> whatever it finds. From then on neither the lead's nor the
  operator's continue resumes the worker: both refuse because it is not paused, and nothing is
  started. The documentation of the mode promises that a continue resumes it after an arbitrarily
  long pause.
\<close>

theorem paused_worker_lost:
  assumes f: "find_worker_layer s (wl_task_id w) = Some ref" and d: "distinct (map fst (subleads s))"
    and lf: "layer_for_worker s (wl_task_id w) = Some ref"
    and run: "state_in (wl_task_id w) ref s = Some (Running started (Some sid))"
  shows "\<exists>s1. handle_pause_worker sig_err t1 (wl_task_id w) PauseCancel s = (Inr (), [], s1) \<and>
     state_in (wl_task_id w) ref s1 = Some (Paused sid t1 zero_usage) \<and>
     (let s2 = finish_worker ref w cwd log_path token tok failure t2 o' s1
      in handle_continue_worker sig_err uuid t3 (wl_task_id w) prompt s2 = (Inl NotPaused, [], s2) \<and>
         op_continue_worker sig_err uuid t3 (wl_task_id w) prompt s2 =
           (OpUnknownState ''continue_worker'' (wl_task_id w) ''not_paused'', None, [], s2))"
proof -
  let ?s1 = "pause_cancel ''mcp'' (wl_task_id w) sid t1 ref s"
  let ?s2 = "finish_worker ref w cwd log_path token tok failure t2 o' ?s1"
  have p: "handle_pause_worker sig_err t1 (wl_task_id w) PauseCancel s = (Inr (), [], ?s1)"
    by (simp add: handle_pause_worker_def lf run)
  note s1 = pause_cancel_layers [OF f d, of "''mcp''" sid t1]
  obtain l where "layer_of ref ?s1 = Some l" using find_layer_state [OF s1(1,2)] by blast
  then obtain rec where "state_in (wl_task_id w) ref ?s2 = Some (Done rec)" using state_finish by blast
  then show ?thesis
    using p s1 finish_layer_for [OF s1(1,2)] find_layer_finish [OF s1(1,2)]
    by (simp add: Let_def handle_continue_worker_def op_continue_worker_def)
qed


theorem paused_worker_lost_witness:
  "state_in ''w'' (SubLayer ''s'') life_state = Some (Running 0 (Some ''ses'')) \<and>
   (\<exists>s1. handle_pause_worker (\<lambda>_. None) 1 ''w'' PauseCancel life_state = (Inr (), [], s1) \<and>
      (let s2 = finish_worker (SubLayer ''s'') life_launch ''/d'' ''/l'' ''t'' new_cancel None 2
                  (life_outcome SsCancelled) s1
       in handle_continue_worker (\<lambda>_. None) ''u'' 3 ''w'' None s2 = (Inl NotPaused, [], s2)))"
  using paused_worker_lost [of life_state life_launch "SubLayer ''s''" 0 "''ses''" "\<lambda>_. None" 1 "''/d''" "''/l''"
      "''t''" new_cancel None 2 "life_outcome SsCancelled" "''u''" 3 None] life_facts
  by (auto simp: Let_def)

lemma mint_layers [layer_simps]:
  "layer_of r (snd (mint_token u a ro s)) = layer_of r s"
  "root (snd (mint_token u a ro s)) = root s" "subleads (snd (mint_token u a ro s)) = subleads s"
  "worker_layer_index (snd (mint_token u a ro s)) = worker_layer_index s"
  by (simp_all add: mint_token_def layer_simps)

lemma append_event_layers [layer_simps]:
  "layer_of r (append_event t e s) = layer_of r s"
  "root (append_event t e s) = root s" "subleads (append_event t e s) = subleads s"
  "worker_layer_index (append_event t e s) = worker_layer_index s"
  by (auto simp: append_event_def intro!: layer_of_cong)

lemma layer_for_cong:
  "root s = root s' \<Longrightarrow> subleads s = subleads s' \<Longrightarrow> worker_layer_index s = worker_layer_index s' \<Longrightarrow>
   layer_for_worker s tid = layer_for_worker s' tid"
  using find_layer_cong [of s s' tid] by (simp add: layer_for_worker_def split: option.split)

lemma run_wide_leases [layer_simps]:
  "run_leases (append_record rec s) = run_leases s"
  "run_leases (note_failure now tid p path rec s) = run_leases s"
  "run_leases (forget_worker_layer tid s) = run_leases s"
  by (simp_all add: append_record_def note_failure_def broadcast_worker_failed_def broadcast_control_event_def
      next_seq_def forget_worker_layer_def split: option.splits)

lemma resume_in_subtree:
  assumes "layer_for_worker s tid = Some (SubLayer k)" "layer_of (SubLayer k) s = Some l"
  shows "\<exists>rw s' l'. spawn_resume_worker uuid now tid prompt sid s = (Inr (SubLayer k, rw), s') \<and>
     rw_task_id rw = tid \<and> root s' = root s \<and> worker_layer_index s' = worker_layer_index s \<and>
     layer_of (SubLayer k) s' = Some l'"
  using assms by (simp add: spawn_resume_worker_def Let_def split_beta layer_simps mint_token_def)

lemma finish_resumed_in_subtree:
  assumes "layer_of (SubLayer k) s = Some l"
  shows "\<exists>rec l'. layer_of (SubLayer k) (finish_resumed (SubLayer k) rw log_path tok failure now o' s) = Some l' \<and>
     hm_get plain (rw_task_id rw) (states (workers l')) = Some (Done rec) \<and>
     tr_token_usage rec = so_token_usage o' \<and> budget l' = budget l \<and>
     root (finish_resumed (SubLayer k) rw log_path tok failure now o' s) = root s \<and>
     run_leases (finish_resumed (SubLayer k) rw log_path tok failure now o' s) = run_leases s"
  using assms
  by (simp add: finish_resumed_def Let_def layer_simps revoke_token_def worker_record_def hm_simps)

lemma keep_state:
  "hm_get plain tid (states (workers (terminate_worker tid why l))) = hm_get plain tid (states (workers l))"
  by (simp add: layer_simps)

text \<open>
  A reprompted worker of a sub-tree leaves its sub-tree and its bill behind. While the reprompt
  sleeps, the killed subprocess's tail removes the worker from the layer index, and the resume does
  not put it back: store calls of the resumed worker, which were served by its sub-tree before, are
  served by the root's store. When the resumed subprocess ends, its tail stores the record but charges
  nothing to the layer, keeps the run-wide leases the worker holds and announces the end only on the
  sub-tree's channel: a waiter subscribed at the root stays blocked although the worker is done.
\<close>

theorem reprompted_worker_strays:
  assumes f: "find_worker_layer s (wl_task_id w) = Some (SubLayer k)" and d: "distinct (map fst (subleads s))"
    and idx: "hm_get plain (wl_task_id w) (worker_layer_index s) = Some (Some k)"
    and run: "state_in (wl_task_id w) (SubLayer k) s = Some (Running started (Some sid))"
  shows "\<exists>rw s1 l1. handle_reprompt_worker uuid t1 (wl_task_id w) prompt
       (finish_worker (SubLayer k) w cwd log_path token tok failure t0 o1) s = (Inr (SubLayer k, rw), s1) \<and>
     layer_of (SubLayer k) s1 = Some l1 \<and>
     (\<exists>l. layer_of (SubLayer k) s = Some l \<and> resolve_layer_for_caller s (wl_task_id w) Worker = Inr l) \<and>
     resolve_layer_for_caller s1 (wl_task_id w) Worker = Inr (root s1) \<and>
     (let s2 = finish_resumed (SubLayer k) rw log_path tok' failure' t2 o2 s1
      in \<exists>rec l2. layer_of (SubLayer k) s2 = Some l2 \<and>
           hm_get plain (wl_task_id w) (states (workers l2)) = Some (Done rec) \<and>
           tr_token_usage rec = so_token_usage o2 \<and> spent_usd (budget l2) = spent_usd (budget l1) \<and>
           run_leases s2 = run_leases s1 \<and>
           wait_for_actor_loop s2 (wl_task_id w) (subscribe_done s1) = BlockedAt (subscribe_done s1))"
proof -
  let ?tid = "wl_task_id w"
  define sk where "sk = upd_layer (SubLayer k) (terminate_worker ?tid
      (op_reason (''mcp.reprompt_worker (kill+respawn) target='' @ ?tid))) s"
  let ?sf = "finish_worker (SubLayer k) w cwd log_path token tok failure t0 o1 sk"
  let ?sa = "append_event ?tid (TeReprompt t1 (take_chars 80 prompt) sid) ?sf"
  obtain l where l: "hm_get plain k (subleads s) = Some l"
    using f find_sublead_get [OF _ d] by (auto simp: find_worker_layer_def split: if_splits)
  have kill: "reprompt_kill ?tid s = (Inr (SubLayer k, sid), sk)"
    using l idx run by (simp add: reprompt_kill_def layer_for_worker_def sk_def)
  have fk: "find_worker_layer sk ?tid = Some (SubLayer k)" "distinct (map fst (subleads sk))"
    using find_layer_kept [OF f d, of "terminate_worker ?tid _"] d by (simp_all add: keep_state distinct_upd sk_def)
  obtain lk where lk: "layer_of (SubLayer k) sk = Some lk" using find_layer_state [OF fk] by blast
  have fa: "layer_for_worker ?sa ?tid = Some (SubLayer k)"
    using finish_layer_for [OF fk] layer_for_cong [of ?sa ?sf ?tid] by (simp add: layer_simps)
  obtain la where la: "layer_of (SubLayer k) ?sa = Some la"
    using layer_of_finish [OF lk refl, of "SubLayer k"] lk by (simp add: layer_simps)
  obtain rw sr lr where rw: "spawn_resume_worker uuid t1 ?tid prompt sid ?sa = (Inr (SubLayer k, rw), sr)"
      "rw_task_id rw = ?tid" "root sr = root ?sa" "worker_layer_index sr = worker_layer_index ?sa"
      "layer_of (SubLayer k) sr = Some lr"
    using resume_in_subtree [OF fa la] by metis
  let ?s1 = "upd_layer (SubLayer k) (bump_reprompts ?tid) sr"
  let ?l1 = "bump_reprompts ?tid lr"
  have h: "handle_reprompt_worker uuid t1 ?tid prompt
      (finish_worker (SubLayer k) w cwd log_path token tok failure t0 o1) s = (Inr (SubLayer k, rw), ?s1)"
    using rw(1) by (simp add: handle_reprompt_worker_def kill reprompt_resume_def Let_def)
  have l1: "layer_of (SubLayer k) ?s1 = Some ?l1" using rw(5) by (simp add: layer_simps)
  have i1: "hm_get plain ?tid (worker_layer_index ?s1) = None"
    using rw(4) index_finish [OF lk] by (simp add: layer_simps hm_simps)
  let ?s2 = "finish_resumed (SubLayer k) rw log_path tok' failure' t2 o2 ?s1"
  have s2: "\<exists>rec l2. layer_of (SubLayer k) ?s2 = Some l2 \<and>
      hm_get plain ?tid (states (workers l2)) = Some (Done rec) \<and>
      tr_token_usage rec = so_token_usage o2 \<and> budget l2 = budget ?l1 \<and> root ?s2 = root ?s1 \<and>
      run_leases ?s2 = run_leases ?s1"
    using finish_resumed_in_subtree [OF l1, of rw log_path tok' failure' t2 o2] rw(2) by simp
  then have w: "wait_for_actor_loop ?s2 ?tid (subscribe_done ?s1) = BlockedAt (subscribe_done ?s1)"
    by (subst wait_for_actor_loop.simps) (auto simp: recv_done_def subscribe_done_def)
  show ?thesis
    using h l1 i1 s2 w idx l
    by (intro exI [of _ rw] exI [of _ ?s1] exI [of _ ?l1])
      (auto simp: Let_def resolve_layer_for_caller_def layer_of_def)
qed

theorem reprompted_worker_strays_witness:
  "hm_get plain ''w'' (worker_layer_index life_state) = Some (Some ''s'') \<and>
   (\<exists>rw s1. handle_reprompt_worker ''u'' 1 ''w'' ''go'' (finish_worker (SubLayer ''s'') life_launch ''/d'' ''/l'' ''t''
       new_cancel None 1 (life_outcome SsCancelled)) life_state = (Inr (SubLayer ''s'', rw), s1) \<and>
     resolve_layer_for_caller s1 ''w'' Worker = Inr (root s1))"
  using reprompted_worker_strays [of life_state life_launch "''s''" 0 "''ses''" "''u''" 1 "''go''" "''/d''" "''/l''" "''t''"
      new_cancel None 1 "life_outcome SsCancelled" new_cancel None 2 "life_outcome SsCompleted"] life_facts
  by auto

end
