(* ===== verification/Sublead.thy ===== *)
theory Sublead
  imports Worker_Ops
begin

text \<open>
  Sub-leads (\<^verbatim>\<open>dispatch/sublead.rs\<close>, the \<^verbatim>\<open>spawn_sublead\<close> tool of
  \<^verbatim>\<open>mcp/server.rs\<close>, the kill-and-resume loop of \<^verbatim>\<open>dispatch/kill_resume.rs\<close>): envelope
  resolution against the manifest's caps, the spawn with its reservation and rollback, the session's
  end and the reconciliation of the sub-tree's spend. Whether the sub-lead's configuration file could
  be written is an argument; \<^verbatim>\<open>u32\<close> arithmetic wraps as in a release build.
\<close>

section \<open>Outcomes, requests, envelopes\<close>

datatype SubleadOutcome =
    SoSuccess | SoCancel | SoTimeout | SoError string | SoApprovalRejected | SoApprovalTimedOut

fun to_termination :: "SubleadOutcome \<Rightarrow> TerminationOutcome" where
  "to_termination SoSuccess = OutSuccess"
| "to_termination SoCancel = OutCancel"
| "to_termination SoTimeout = OutTimeout"
| "to_termination (SoError m) = OutError"
| "to_termination SoApprovalRejected = OutApprovalRejected"
| "to_termination SoApprovalTimedOut = OutApprovalTimedOut"

fun to_task_status :: "SubleadOutcome \<Rightarrow> TaskStatus" where
  "to_task_status SoSuccess = TsSuccess"
| "to_task_status SoCancel = TsCancelled"
| "to_task_status SoTimeout = TsTimedOut"
| "to_task_status (SoError m) = TsFailed"
| "to_task_status SoApprovalRejected = TsApprovalRejected"
| "to_task_status SoApprovalTimedOut = TsApprovalTimedOut"

text \<open>\<^verbatim>\<open>initial_ref\<close> holds the serialised values.\<close>

record SubleadSpawnRequest =
  sr_prompt :: string
  sr_model :: string
  sr_budget_usd :: "f64 option"
  sr_lead_budget_usd :: "f64 option"
  sr_max_workers :: "u32 option"
  sr_lead_timeout_secs :: "u64 option"
  sr_initial_ref :: "(string \<times> bytes) list"
  sr_read_down :: bool
  sr_env :: "(string \<times> string) list"
  sr_tools :: "string list"
  sr_resume_session_id :: "string option"
  sr_sublead_type :: "string option"

datatype ResolvedEnvelope = Owned f64 "f64 option" u32 u64 | SharedPool

datatype SubleadError =
    SlDepth DepthError
  | SlMissingMeta
  | SlProfile ProfileError
  | SlApiGate SpawnGateReason
  | SlBudgetRequired
  | SlMaxWorkersRequired
  | SlBudgetCap f64 f64
  | SlMaxSubleads u32 u32
  | SlMaxTotalWorkers u32 u32 u32
  | SlBudgetExceeded f64 f64 f64 f64
  | SlSeedFailed string StoreError
  | SlSessionFailed

section \<open>The envelope\<close>

definition defaults_of :: "DispatchState \<Rightarrow> ResolvedSubleadDefaults option" where
  "defaults_of s = Option.bind (lead (manifest (root s))) sublead_defaults"

definition effective_budget_usd :: "DispatchState \<Rightarrow> SubleadSpawnRequest \<Rightarrow> f64 option" where
  "effective_budget_usd s req = first_some (sr_budget_usd req) (Option.bind (defaults_of s) sd_budget_usd)"

definition effective_max_workers :: "DispatchState \<Rightarrow> SubleadSpawnRequest \<Rightarrow> u32 option" where
  "effective_max_workers s req = first_some (sr_max_workers req) (Option.bind (defaults_of s) sd_max_workers)"

definition effective_lead_timeout :: "DispatchState \<Rightarrow> SubleadSpawnRequest \<Rightarrow> u64 option" where
  "effective_lead_timeout s req =
     first_some (sr_lead_timeout_secs req) (Option.bind (defaults_of s) sd_lead_timeout_secs)"

definition effective_read_down :: "DispatchState \<Rightarrow> SubleadSpawnRequest \<Rightarrow> bool" where
  "effective_read_down s req =
     (sr_read_down req \<or> (case defaults_of s of Some d \<Rightarrow> sd_read_down d | None \<Rightarrow> False))"

definition u32_len :: "'a list \<Rightarrow> u32" where
  "u32_len xs = of_nat (length xs)"

definition check_sublead_budget_cap :: "DispatchState \<Rightarrow> f64 \<Rightarrow> SubleadError + unit" where
  "check_sublead_budget_cap s b =
     (case Option.bind (lead (manifest (root s))) max_sublead_budget_usd of
        Some cap \<Rightarrow> if f_gt b cap then Inl (SlBudgetCap b cap) else Inr ()
      | None \<Rightarrow> Inr ())"

definition check_max_subleads :: "DispatchState \<Rightarrow> SubleadError + unit" where
  "check_max_subleads s =
     (case Option.bind (lead (manifest (root s))) max_subleads of
        Some cap \<Rightarrow>
          (let current = u32_len (subleads s)
           in if current + 1 > cap then Inl (SlMaxSubleads cap current) else Inr ())
      | None \<Rightarrow> Inr ())"

definition current_workers :: "DispatchState \<Rightarrow> u32" where
  "current_workers s =
     u32_len (states (workers (root s))) +
     sum_list (map (\<lambda>(sid, l). u32_len (states (workers l))) (subleads s))"

definition check_max_total_workers :: "DispatchState \<Rightarrow> u32 \<Rightarrow> SubleadError + unit" where
  "check_max_total_workers s requested =
     (case Option.bind (lead (manifest (root s))) max_total_workers of
        Some cap \<Rightarrow>
          if current_workers s + requested > cap
          then Inl (SlMaxTotalWorkers cap (current_workers s) requested) else Inr ()
      | None \<Rightarrow> Inr ())"

definition resolve_envelope :: "DispatchState \<Rightarrow> SubleadSpawnRequest \<Rightarrow> SubleadError + ResolvedEnvelope" where
  "resolve_envelope s req =
     (if effective_read_down s req \<and> effective_budget_usd s req = None \<and> effective_max_workers s req = None
      then Inr SharedPool
      else case effective_budget_usd s req of
             None \<Rightarrow> Inl SlBudgetRequired
           | Some b \<Rightarrow>
               (case effective_max_workers s req of
                  None \<Rightarrow> Inl SlMaxWorkersRequired
                | Some mw \<Rightarrow>
                    (case check_sublead_budget_cap s b of
                       Inl e \<Rightarrow> Inl e
                     | Inr _ \<Rightarrow>
                         (case check_max_subleads s of
                            Inl e \<Rightarrow> Inl e
                          | Inr _ \<Rightarrow>
                              (case check_max_total_workers s mw of
                                 Inl e \<Rightarrow> Inl e
                               | Inr _ \<Rightarrow>
                                   Inr (Owned b
                                     (first_some (sr_lead_budget_usd req)
                                        (Option.bind (defaults_of s) sd_lead_budget_usd))
                                     mw
                                     (case effective_lead_timeout s req of Some t \<Rightarrow> t | None \<Rightarrow> 3600)))))))"

definition derive_sublead_manifest :: "ResolvedManifest \<Rightarrow> ResolvedEnvelope \<Rightarrow> ResolvedManifest" where
  "derive_sublead_manifest mf env =
     (let sub = mf\<lparr>lead := None, tasks := [], notifications := [], dump_shared_store := False\<rparr>
      in case env of
           Owned b lb mw t \<Rightarrow>
             sub\<lparr>budget_usd := Some b, lead_budget_usd := lb, max_workers := Some mw, lead_timeout_secs := Some t\<rparr>
         | SharedPool \<Rightarrow> sub)"

section \<open>Environment\<close>

definition env_extend :: "(string \<times> string) list \<Rightarrow> (string \<times> string) list \<Rightarrow> (string \<times> string) list" where
  "env_extend base extra = fold (\<lambda>(k, v) m. hm_insert plain k v m) extra base"

definition apply_pitboss_env_defaults ::
  "(string \<times> string) list \<Rightarrow> string \<Rightarrow> PermissionRouting \<Rightarrow> (string \<times> string) list" where
  "apply_pitboss_env_defaults env rid routing =
     (let env = hm_insert plain ''PITBOSS_RUN_ID'' rid env
      in case routing of
           PathA \<Rightarrow>
             (case hm_get plain ''CLAUDE_CODE_ENTRYPOINT'' env of
                Some v \<Rightarrow> env
              | None \<Rightarrow> hm_insert plain ''CLAUDE_CODE_ENTRYPOINT'' ''sdk-ts'' env)
         | PathB \<Rightarrow>
             if hm_get plain ''CLAUDE_CODE_ENTRYPOINT'' env = Some ''sdk-ts''
             then hm_remove plain ''CLAUDE_CODE_ENTRYPOINT'' env else env)"

definition compose_sublead_env ::
  "(string \<times> string) list \<Rightarrow> (string \<times> string) list \<Rightarrow> string \<Rightarrow> PermissionRouting \<Rightarrow> (string \<times> string) list" where
  "compose_sublead_env lead_env operator_env rid routing =
     apply_pitboss_env_defaults (env_extend lead_env operator_env) rid routing"

section \<open>Spawning\<close>

record SubleadLaunch =
  sl_sublead_id :: string
  sl_prompt :: string
  sl_model :: string
  sl_tools_override :: "string list"
  sl_env :: "(string \<times> string) list"
  sl_directory :: "string option"
  sl_timeout_secs :: u64
  sl_resume_session_id :: "string option"
  sl_sublead_type :: "string option"
  sl_lead_budget_usd :: "f64 option"

text \<open>The reservation at the root, under its lock.\<close>

definition reserve_sublead :: "f64 \<Rightarrow> LayerState \<Rightarrow> SubleadError + LayerState" where
  "reserve_sublead amount l =
     (let l' = l\<lparr>budget := (budget l)\<lparr>reserved_usd := fadd (reserved_usd (budget l)) amount\<rparr>\<rparr>
      in case budget_usd (manifest l) of
           Some cap \<Rightarrow>
             if f_gt (fadd (fadd (spent_usd (budget l)) (reserved_usd (budget l))) amount) cap
             then Inl (SlBudgetExceeded (spent_usd (budget l)) (reserved_usd (budget l)) amount cap)
             else Inr l'
         | None \<Rightarrow> Inr l')"

definition unreserve :: "f64 \<Rightarrow> LayerState \<Rightarrow> LayerState" where
  "unreserve amount l =
     l\<lparr>budget := (budget l)\<lparr>reserved_usd := fmax (fsub (reserved_usd (budget l)) amount) (Fin 0)\<rparr>\<rparr>"

fun seed_refs :: "string \<Rightarrow> int \<Rightarrow> (string \<times> bytes) list \<Rightarrow> SharedStore \<Rightarrow> SubleadError + SharedStore" where
  "seed_refs sid now [] st = Inr st"
| "seed_refs sid now ((k, v) # refs) st =
     (case store_set st (''/ref/'' @ k) v sid now of
        (Inl e, st') \<Rightarrow> Inl (SlSeedFailed k e)
      | (Inr ver, st') \<Rightarrow> seed_refs sid now refs st')"

definition sublead_profile_of :: "DispatchState \<Rightarrow> string option \<Rightarrow> AgentProfile option" where
  "sublead_profile_of s stype =
     sublead_agent_profile (Option.bind stype (\<lambda>i. find (\<lambda>st. st_id st = i) (sublead_types (manifest (root s)))))
       (agent_profiles (manifest (root s)))"

definition sublead_launch ::
  "DispatchState \<Rightarrow> string \<Rightarrow> SubleadSpawnRequest \<Rightarrow> ResolvedEnvelope \<Rightarrow> LayerState \<Rightarrow> SubleadLaunch" where
  "sublead_launch s sid req env l =
     (let ap = sublead_profile_of s (sr_sublead_type req);
          rlead = lead (manifest (root s));
          routing = (case rlead of Some r \<Rightarrow> rl_permission_routing r | None \<Rightarrow> PathB)
      in \<lparr>sl_sublead_id = sid, sl_prompt = compose_prompt ap (sr_prompt req), sl_model = sr_model req,
          sl_tools_override = sr_tools req,
          sl_env = compose_sublead_env
             (env_extend (case ap of Some p \<Rightarrow> ap_env p | None \<Rightarrow> [])
                (case rlead of Some r \<Rightarrow> rl_env r | None \<Rightarrow> []))
             (sr_env req) (run_id l) routing,
          sl_directory = map_option rl_directory rlead,
          sl_timeout_secs = (case env of Owned b lb mw t \<Rightarrow> t
             | SharedPool \<Rightarrow> (case lead_timeout_secs (manifest l) of Some t \<Rightarrow> t | None \<Rightarrow> 3600)),
          sl_resume_session_id = sr_resume_session_id req, sl_sublead_type = sr_sublead_type req,
          sl_lead_budget_usd = (case env of Owned b lb mw t \<Rightarrow> lb | SharedPool \<Rightarrow> None)\<rparr>)"

definition spawned_event :: "string \<Rightarrow> SubleadSpawnRequest \<Rightarrow> ResolvedEnvelope \<Rightarrow> EventEnvelope" where
  "spawned_event sid req env =
     \<lparr>env_actor_path = [''root'', sid], env_seq = 0,
      env_event = (case env of
          Owned b lb mw t \<Rightarrow> SubleadSpawned sid (Some b) lb (Some mw) (sr_read_down req)
        | SharedPool \<Rightarrow> SubleadSpawned sid None None None (sr_read_down req))\<rparr>"

text \<open>
  The steps after the reservation: seed the store, build and register the layer, announce it, mint
  the token and write the configuration, then hand over to the background task.
\<close>

definition launch_sublead ::
  "string \<Rightarrow> string \<Rightarrow> int \<Rightarrow> bool \<Rightarrow> SubleadSpawnRequest \<Rightarrow> ResolvedEnvelope \<Rightarrow> f64 option \<Rightarrow> DispatchState \<Rightarrow>
     (SubleadError + SubleadLaunch) \<times> DispatchState" where
  "launch_sublead sid token_uuid now cfg_ok req env reserved s =
     (case seed_refs sid now (sr_initial_ref req) new_store of
        Inl e \<Rightarrow> (Inl e, s)
      | Inr st \<Rightarrow>
          (let l = layer_new (run_id (root s)) (derive_sublead_manifest (manifest (root s)) env) new_cancel sid
                     (policy (approvals (root s))) None st reserved;
               s = register_sublead sid l s;
               s = (case sr_sublead_type req of
                      Some t \<Rightarrow> s\<lparr>sublead_actor_types := hm_insert plain sid t (sublead_actor_types s)\<rparr>
                    | None \<Rightarrow> s);
               s = broadcast_control_event (spawned_event sid req env) s;
               (_, s) = mint_token token_uuid sid ''sublead'' s
           in if \<not> cfg_ok then (Inl SlSessionFailed, s)
              else (Inr (sublead_launch s sid req env l),
                    upd_layer (SubLayer sid) (\<lambda>l. set_pid sid 0 (l\<lparr>reprompt_tx := Some []\<rparr>)) s)))"

definition spawn_sublead ::
  "string \<Rightarrow> string \<Rightarrow> int \<Rightarrow> bool \<Rightarrow> SubleadSpawnRequest \<Rightarrow> DispatchState \<Rightarrow>
     (SubleadError + SubleadLaunch) \<times> DispatchState" where
  "spawn_sublead uuid token_uuid now cfg_ok req s =
     (case check_can_spawn now (api_health s) of
        Inl gate \<Rightarrow> (Inl (SlApiGate gate), s)
      | Inr _ \<Rightarrow>
          (case resolve_envelope s req of
             Inl e \<Rightarrow> (Inl e, s)
           | Inr env \<Rightarrow>
               (let sid = ''sublead-'' @ uuid
                in case env of
                     SharedPool \<Rightarrow> launch_sublead sid token_uuid now cfg_ok req env None s
                   | Owned b lb mw t \<Rightarrow>
                       (case reserve_sublead b (root s) of
                          Inl e \<Rightarrow> (Inl e, s)
                        | Inr rt \<Rightarrow>
                            (case launch_sublead sid token_uuid now cfg_ok req env (Some b) (s\<lparr>root := rt\<rparr>) of
                               (Inl e, s') \<Rightarrow> (Inl e, s'\<lparr>root := unreserve b (root s')\<rparr>)
                             | (Inr w, s') \<Rightarrow> (Inr w, s'))))))"

section \<open>The tool\<close>

record CallerMeta =
  cm_actor_id :: string
  cm_actor_role :: string

definition extract_and_check_root_lead :: "CallerMeta option \<Rightarrow> SubleadError + unit" where
  "extract_and_check_root_lead meta =
     (case meta of
        None \<Rightarrow> Inl SlMissingMeta
      | Some m \<Rightarrow>
          (case validate_spawn_sublead_caller (cm_actor_role m) of Inl e \<Rightarrow> Inl (SlDepth e) | Inr _ \<Rightarrow> Inr ()))"

text \<open>The request with the caps of its profile applied.\<close>

definition typed_request :: "ResolvedManifest \<Rightarrow> SubleadSpawnRequest \<Rightarrow> SubleadError + SubleadSpawnRequest" where
  "typed_request mf req =
     (case resolve_sublead_profile (sr_sublead_type req) (sublead_types mf) (require_actor_type mf) of
        Inl e \<Rightarrow> Inl (SlProfile e)
      | Inr SpUntyped \<Rightarrow> Inr (req\<lparr>sr_sublead_type := None\<rparr>)
      | Inr (SpTyped p) \<Rightarrow>
          (case (if sr_tools req \<noteq> [] then check_tool_subset ''spawn_sublead'' (st_id p) (st_tools p) (sr_tools req)
                 else Inr ()) of
             Inl e \<Rightarrow> Inl (SlProfile e)
           | Inr _ \<Rightarrow>
               (case check_model_allowed ''spawn_sublead'' (st_id p) (st_allowed_models p) (sr_model req) of
                  Inl e \<Rightarrow> Inl (SlProfile e)
                | Inr _ \<Rightarrow>
                    Inr (req\<lparr>sr_tools := (if sr_tools req = [] then st_tools p else sr_tools req),
                             sr_budget_usd := clamp_down_f64 (sr_budget_usd req) (st_max_budget_usd p),
                             sr_lead_timeout_secs :=
                               map_option (\<lambda>t. clamp_down_u64 t (st_max_timeout_secs p)) (sr_lead_timeout_secs req),
                             sr_sublead_type := Some (st_id p)\<rparr>))))"

definition spawn_sublead_tool ::
  "string \<Rightarrow> string \<Rightarrow> int \<Rightarrow> bool \<Rightarrow> CallerMeta option \<Rightarrow> SubleadSpawnRequest \<Rightarrow> DispatchState \<Rightarrow>
     (SubleadError + SubleadLaunch) \<times> DispatchState" where
  "spawn_sublead_tool uuid token_uuid now cfg_ok meta req s =
     (case validate_spawn_sublead_capability (manifest (root s)) of
        Inl e \<Rightarrow> (Inl (SlDepth e), s)
      | Inr _ \<Rightarrow>
          (case extract_and_check_root_lead meta of
             Inl e \<Rightarrow> (Inl e, s)
           | Inr _ \<Rightarrow>
               (case typed_request (manifest (root s)) req of
                  Inl e \<Rightarrow> (Inl e, s)
                | Inr req' \<Rightarrow> spawn_sublead uuid token_uuid now cfg_ok req' s)))"

section \<open>The kill-and-resume loop\<close>

definition u64_saturating_add :: "u64 \<Rightarrow> u64 \<Rightarrow> u64" where
  "u64_saturating_add a b = (if unat a + unat b < 2 ^ 64 then a + b else - 1)"

definition usage_add :: "TokenUsage \<Rightarrow> TokenUsage \<Rightarrow> TokenUsage" where
  "usage_add a b =
     \<lparr>tu_input = u64_saturating_add (tu_input a) (tu_input b),
      tu_output = u64_saturating_add (tu_output a) (tu_output b),
      tu_cache_read = u64_saturating_add (tu_cache_read a) (tu_cache_read b),
      tu_cache_creation = u64_saturating_add (tu_cache_creation a) (tu_cache_creation b)\<rparr>"

text \<open>
  One iteration of the outside world: how the subprocess ended, the session id it reported on the
  channel, and the reprompts sent while it ran.
\<close>

record Iteration =
  it_outcome :: SessionOutcome
  it_session :: "string option"
  it_arrivals :: "string list"

record KillResume =
  kr_layer :: LayerState
  kr_pending :: "string list"
  kr_last_session :: "string option"
  kr_usage :: TokenUsage
  kr_reprompts :: u32
  kr_commands :: "(string \<times> string) list"

record KillResumeResult =
  krr_final_outcome :: SessionOutcome
  krr_total_token_usage :: TokenUsage
  krr_reprompt_count :: u32
  krr_last_session_id :: "string option"
  krr_overall_started_at :: int

definition kr_start :: "string \<Rightarrow> int \<Rightarrow> LayerState \<Rightarrow> KillResume" where
  "kr_start actor now l =
     \<lparr>kr_layer = set_worker_state actor (Running now None) l, kr_pending = [], kr_last_session = None,
      kr_usage = zero_usage, kr_reprompts = 0, kr_commands = []\<rparr>"

text \<open>The bookkeeping after a subprocess returned.\<close>

definition kr_collect :: "string \<Rightarrow> int \<Rightarrow> Iteration \<Rightarrow> KillResume \<Rightarrow> KillResume" where
  "kr_collect actor started it k =
     (let k = (case it_session it of
                 Some sid \<Rightarrow> k\<lparr>kr_layer := set_worker_state actor (Running started (Some sid)) (kr_layer k),
                              kr_last_session := Some sid\<rparr>
               | None \<Rightarrow>
                   (case so_claude_session_id (it_outcome it) of
                      Some sid \<Rightarrow> k\<lparr>kr_last_session := Some sid\<rparr>
                    | None \<Rightarrow> k))
      in k\<lparr>kr_usage := usage_add (kr_usage k) (so_token_usage (it_outcome it)),
           kr_pending := kr_pending k @ it_arrivals it\<rparr>)"

text \<open>
  The loop on the iterations the world provides; \<open>None\<close> is a run whose next subprocess has not
  returned. \<open>kr_commands\<close> keeps the session and prompt of every resume command.
\<close>

fun run_kill_resume_loop ::
  "string \<Rightarrow> int \<Rightarrow> Iteration list \<Rightarrow> KillResume \<Rightarrow> (KillResumeResult \<times> KillResume) option" where
  "run_kill_resume_loop actor started [] k = None"
| "run_kill_resume_loop actor started (it # its) k =
     (let k = kr_collect actor started it k;
          result = \<lparr>krr_final_outcome = it_outcome it, krr_total_token_usage = kr_usage k,
             krr_reprompt_count = kr_reprompts k, krr_last_session_id = kr_last_session k,
             krr_overall_started_at = started\<rparr>
      in case kr_pending k of
           [] \<Rightarrow> Some (result, k)
         | prompt # rest \<Rightarrow>
             (case kr_last_session k of
                None \<Rightarrow> Some (result, k\<lparr>kr_pending := rest\<rparr>)
              | Some sid \<Rightarrow>
                  run_kill_resume_loop actor started its
                    (k\<lparr>kr_layer := set_worker_state actor (Running started None) (kr_layer k),
                       kr_pending := rest, kr_reprompts := kr_reprompts k + 1,
                       kr_commands := kr_commands k @ [(sid, prompt)]\<rparr>)))"

section \<open>The end of a sub-lead\<close>

fun outcome_of_session :: "SessionState \<Rightarrow> SubleadOutcome" where
  "outcome_of_session SsCompleted = SoSuccess"
| "outcome_of_session SsCancelled = SoCancel"
| "outcome_of_session SsTimedOut = SoTimeout"
| "outcome_of_session (SsSpawnFailed m) = SoError m"
| "outcome_of_session (SsFailed m) = SoError m"
| "outcome_of_session SsInitializing = SoError ''unknown terminal state''"
| "outcome_of_session (SsRunning t) = SoError ''unknown terminal state''"

definition reclassified_outcome :: "string \<Rightarrow> int \<Rightarrow> SubleadOutcome \<Rightarrow> DispatchState \<Rightarrow> SubleadOutcome" where
  "reclassified_outcome sid now out s =
     (if out = SoSuccess then
        (case approval_driven_termination sid now s of
           Some KindRejected \<Rightarrow> SoApprovalRejected
         | Some KindTimedOut \<Rightarrow> SoApprovalTimedOut
         | None \<Rightarrow> out)
      else out)"

definition sublead_record ::
  "SubleadLaunch \<Rightarrow> string \<Rightarrow> SubleadOutcome \<Rightarrow> FailureReason option \<Rightarrow> CancelToken \<Rightarrow> KillResumeResult \<Rightarrow> string \<Rightarrow>
     TaskRecord" where
  "sublead_record w parent out failure tok r log_path =
     (let o' = krr_final_outcome r
      in \<lparr>tr_task_id = sl_sublead_id w, tr_status = to_task_status out, tr_exit_code = so_exit_code o',
          tr_started_at = krr_overall_started_at r, tr_ended_at = so_ended_at o',
          tr_duration_ms = max (num_milliseconds (so_ended_at o' - krr_overall_started_at r)) 0,
          tr_worktree_path = None, tr_log_path = log_path, tr_token_usage = krr_total_token_usage r,
          tr_claude_session_id = so_claude_session_id o',
          tr_final_message_preview = so_final_message_preview o', tr_final_message = so_final_message o',
          tr_parent_task_id = Some parent, tr_pause_count = 0, tr_reprompt_count = krr_reprompt_count r,
          tr_approvals_requested = 0, tr_approvals_approved = 0, tr_approvals_rejected = 0,
          tr_model = Some (sl_model w), tr_failure_reason = failure,
          tr_cost_usd = cost_usd (sl_model w) (krr_total_token_usage r),
          tr_actor_type = sl_sublead_type w, tr_terminate_reason = ct_reason tok\<rparr>)"

definition close_sublead_row :: "string \<Rightarrow> int \<Rightarrow> SubleadOutcome \<Rightarrow> string \<Rightarrow> DispatchState \<Rightarrow> LayerState \<Rightarrow> LayerState" where
  "close_sublead_row sid now out log_path s l =
     (case hm_get plain sid (states (workers l)) of
        Some (Done rec) \<Rightarrow> l
      | w \<Rightarrow>
          (let (started, ses) = (case w of
                 Some (Running t ses) \<Rightarrow> (t, ses)
               | Some (Paused ses t u) \<Rightarrow> (t, Some ses)
               | Some (Frozen ses t0 t) \<Rightarrow> (t, Some ses)
               | _ \<Rightarrow> (now, None));
               spend = spent_usd (budget l)
           in set_worker_state sid (Done
                \<lparr>tr_task_id = sid, tr_status = to_task_status out, tr_exit_code = None,
                 tr_started_at = started, tr_ended_at = now,
                 tr_duration_ms = max (num_milliseconds (now - started)) 0, tr_worktree_path = None,
                 tr_log_path = log_path, tr_token_usage = zero_usage, tr_claude_session_id = ses,
                 tr_final_message_preview = None, tr_final_message = None,
                 tr_parent_task_id = Some (lead_id (root s)), tr_pause_count = 0, tr_reprompt_count = 0,
                 tr_approvals_requested = 0, tr_approvals_approved = 0, tr_approvals_rejected = 0,
                 tr_model = None, tr_failure_reason = None,
                 tr_cost_usd = (if f_gt spend (Fin 0) then Some spend else None),
                 tr_actor_type = hm_get plain sid (sublead_actor_types s),
                 tr_terminate_reason = ct_reason (cancel l)\<rparr>) l))"

definition reservation_of :: "LayerState \<Rightarrow> f64" where
  "reservation_of l = (case original_reservation_usd l of Some r \<Rightarrow> r | None \<Rightarrow> Fin 0)"

definition unspent_of :: "LayerState \<Rightarrow> f64" where
  "unspent_of l = fmax (fsub (reservation_of l) (spent_usd (budget l))) (Fin 0)"

definition terminal_of :: "string \<Rightarrow> int \<Rightarrow> SubleadOutcome \<Rightarrow> LayerState \<Rightarrow> SubleadTerminalRecord" where
  "terminal_of sid now out l =
     \<lparr>str_sublead_id = sid, str_outcome = to_termination out, str_spent_usd = spent_usd (budget l),
      str_unspent_usd = unspent_of l, str_terminated_at = now\<rparr>"

definition reconcile_terminated_sublead ::
  "string \<Rightarrow> int \<Rightarrow> SubleadOutcome \<Rightarrow> string \<Rightarrow> DispatchState \<Rightarrow> DispatchState" where
  "reconcile_terminated_sublead sid now out log_path s =
     (case hm_get plain sid (subleads s) of
        None \<Rightarrow> s
      | Some l \<Rightarrow>
          (let spend = spent_usd (budget l);
               l' = close_sublead_row sid now out log_path s l;
               s = s\<lparr>subleads := hm_remove plain sid (subleads s),
                    terminated_sublead_layers := terminated_sublead_layers s @ [l']\<rparr>;
               s = s\<lparr>root := add_spent spend (unreserve (reservation_of l) (root s))\<rparr>;
               s = broadcast_control_event
                     \<lparr>env_actor_path = [''root'', sid], env_seq = 0,
                      env_event = SubleadTerminated sid spend (unspent_of l) (to_termination out)\<rparr> s;
               s = s\<lparr>run_leases := snd (run_release_all sid (run_leases s))\<rparr>;
               (_, s) = revoke_tokens_for_actor sid s;
               s = s\<lparr>sublead_results := hm_insert plain sid (terminal_of sid now out l) (sublead_results s)\<rparr>
           in upd_layer RootLayer (send_done sid) s))"

text \<open>The background task after the loop: charge the sub-tree, close the channel, record, reconcile.\<close>

definition finish_sublead ::
  "SubleadLaunch \<Rightarrow> string \<Rightarrow> FailureReason option \<Rightarrow> int \<Rightarrow> KillResumeResult \<Rightarrow> DispatchState \<Rightarrow> DispatchState" where
  "finish_sublead w log_path failure now r s =
     (let sid = sl_sublead_id w; ref = SubLayer sid;
          s = upd_layer ref (drop_pid sid) s;
          s = (case cost_usd (sl_model w) (krr_total_token_usage r) of
                 Some cost \<Rightarrow> upd_layer ref (add_spent cost) s | None \<Rightarrow> s);
          s = upd_layer ref (\<lambda>l. l\<lparr>reprompt_tx := None\<rparr>) s;
          out = reclassified_outcome sid now (outcome_of_session (so_final_state (krr_final_outcome r))) s;
          tok = (case layer_of ref s of Some l \<Rightarrow> cancel l | None \<Rightarrow> new_cancel);
          rec = sublead_record w (lead_id (root s)) out failure tok r log_path;
          s = append_record rec s;
          s = note_failure now sid ''root'' [''root'', sid] rec s
      in reconcile_terminated_sublead sid now out log_path s)"

end
