(* ===== verification/Budget_Bounds.thy ===== *)
theory Budget_Bounds
  imports Sublead Worker_Facts
begin

text \<open>
  The reservation invariant of a run: in every layer the counters are non-negative amounts and what is
  reserved never exceeds the layer's budget, however spawns, ends, resumes, sub-leads and usage reports
  interleave.
\<close>

section \<open>The invariant\<close>

definition money :: "f64 \<Rightarrow> bool" where
  "money x \<longleftrightarrow> fnn x \<and> frepr x"

definition layer_inv :: "LayerState \<Rightarrow> bool" where
  "layer_inv l \<longleftrightarrow>
     money (spent_usd (budget l)) \<and> money (lead_spent_usd (budget l)) \<and> money (reserved_usd (budget l)) \<and>
     (\<forall>p \<in> set (reservations (workers l)). money (snd p)) \<and>
     (\<forall>r. original_reservation_usd l = Some r \<longrightarrow> money r) \<and>
     (\<forall>c. budget_usd (manifest l) = Some c \<longrightarrow> money c \<and> f_le (reserved_usd (budget l)) c)"

definition budget_inv :: "DispatchState \<Rightarrow> bool" where
  "budget_inv s \<longleftrightarrow>
     layer_inv (root s) \<and> (\<forall>p \<in> set (subleads s). layer_inv (snd p)) \<and>
     (\<forall>l \<in> set (terminated_sublead_layers s). layer_inv l)"

lemma money_zero [simp]: "money (Fin 0)"
  by (simp add: money_def)

lemma money_add: "money x \<Longrightarrow> money y \<Longrightarrow> money (fadd x y)"
  by (simp add: money_def fadd_nn frepr_fadd)

lemma money_release: "money r \<Longrightarrow> money a \<Longrightarrow> money (fmax (fsub r a) (Fin 0))"
  by (simp add: money_def release_le frepr_release)

lemma money_cost: "cost_usd m u = Some c \<Longrightarrow> money c"
  by (simp add: money_def cost_usd_nn cost_usd_repr)

lemma money_estimate: "money (estimate_new_worker_cost_for_layer l m)"
  by (simp add: money_def estimate_nn)

text \<open>The invariant reads four parts of a layer and three of the run.\<close>

lemma layer_inv_cong:
  "layer_inv l \<Longrightarrow> budget l' = budget l \<Longrightarrow> reservations (workers l') = reservations (workers l) \<Longrightarrow>
   original_reservation_usd l' = original_reservation_usd l \<Longrightarrow> manifest l' = manifest l \<Longrightarrow> layer_inv l'"
  by (simp add: layer_inv_def)

lemma budget_inv_cong:
  "budget_inv s \<Longrightarrow> root s' = root s \<Longrightarrow> subleads s' = subleads s \<Longrightarrow>
   terminated_sublead_layers s' = terminated_sublead_layers s \<Longrightarrow> budget_inv s'"
  by (simp add: budget_inv_def)

lemma budget_inv_upd:
  "budget_inv s \<Longrightarrow> (\<And>l. layer_inv l \<Longrightarrow> layer_inv (f l)) \<Longrightarrow> budget_inv (upd_layer ref f s)"
  by (cases ref) (fastforce simp: budget_inv_def upd_layer_def hm_update_mem)+

lemma budget_inv_layer: "budget_inv s \<Longrightarrow> layer_of ref s = Some l \<Longrightarrow> layer_inv l"
  by (auto simp: budget_inv_def layer_of_def find_Some_iff split: LayerRef.splits option.splits
      dest!: hm_plain_get_in nth_mem)

lemma hm_mem_insert: "p \<in> set (hm_insert f k v m) \<Longrightarrow> p \<in> set m \<or> snd p = v"
  by (induction m) (auto split: if_splits)

lemma hm_mem_remove: "p \<in> set (hm_remove f k m) \<Longrightarrow> p \<in> set m"
  by (auto simp: hm_remove_def)

section \<open>Operations on a layer\<close>

lemma layer_inv_neutral:
  "layer_inv l \<Longrightarrow> layer_inv (set_worker_state tid w l)"
  "layer_inv l \<Longrightarrow> layer_inv (send_done tid l)"
  "layer_inv l \<Longrightarrow> layer_inv (drop_pid tid l)"
  "layer_inv l \<Longrightarrow> layer_inv (set_pid tid p l)"
  "layer_inv l \<Longrightarrow> layer_inv (register_worker tid prompt model wtype l)"
  "layer_inv l \<Longrightarrow> layer_inv (notify_budget_exceeded rid a b l)"
  by (erule layer_inv_cong; simp add: set_worker_state_def send_done_def drop_pid_def set_pid_def
      register_worker_def register_worker_cancel_def notify_budget_exceeded_def Let_def split: option.splits)+

lemma layer_inv_spent: "layer_inv l \<Longrightarrow> money c \<Longrightarrow> layer_inv (add_spent c l)"
  by (auto simp: layer_inv_def add_spent_def counter_add_def money_add)

lemma layer_inv_unreserve: "layer_inv l \<Longrightarrow> money a \<Longrightarrow> layer_inv (unreserve a l)"
  using release_le [of "reserved_usd (budget l)" a] f_le_trans
  by (auto simp: layer_inv_def unreserve_def money_release) (auto simp: money_def intro: f_le_trans)

lemma layer_inv_release: "layer_inv l \<Longrightarrow> layer_inv (release_reservation_for_layer tid l)"
proof -
  assume i: "layer_inv l"
  let ?a = "case hm_get plain tid (reservations (workers l)) of Some a \<Rightarrow> a | None \<Rightarrow> Fin 0"
  let ?l = "l\<lparr>workers := (workers l)\<lparr>reservations := hm_remove plain tid (reservations (workers l))\<rparr>\<rparr>"
  have a: "money ?a" using i by (auto simp: layer_inv_def split: option.splits dest!: hm_plain_get_in)
  have "layer_inv ?l" using i by (auto simp: layer_inv_def dest!: hm_mem_remove)
  then show ?thesis using layer_inv_unreserve [OF _ a, of ?l]
    by (simp add: release_reservation_for_layer_def unreserve_def Let_def)
qed

text \<open>
  The contract of a reservation: an amount is added to what is reserved only when what is committed
  (at least what is reserved) plus the amount is not above the layer's budget. Spawning a worker and
  spawning a sub-lead provide it, with different notions of what is committed.
\<close>

locale reservation =
  fixes amount :: "LayerState \<Rightarrow> f64"
    and committed :: "LayerState \<Rightarrow> f64"
    and reserve :: "LayerState \<Rightarrow> 'e + LayerState"
  assumes guard: "reserve l = Inr l' \<Longrightarrow> budget_usd (manifest l) = Some c \<Longrightarrow>
      \<not> f_gt (fadd (committed l) (amount l)) c"
    and covers: "layer_inv l \<Longrightarrow> money (committed l) \<and> f_le (reserved_usd (budget l)) (committed l)"
    and effect: "reserve l = Inr l' \<Longrightarrow>
      l' = l \<or> reserved_usd (budget l') = fadd (reserved_usd (budget l)) (amount l) \<and>
        spent_usd (budget l') = spent_usd (budget l) \<and> lead_spent_usd (budget l') = lead_spent_usd (budget l) \<and>
        original_reservation_usd l' = original_reservation_usd l \<and> manifest l' = manifest l \<and>
        (\<forall>p \<in> set (reservations (workers l')). p \<in> set (reservations (workers l)) \<or> snd p = amount l)"
begin

lemma reserve_bounded:
  assumes i: "layer_inv l" and a: "money (amount l)" and r: "reserve l = Inr l'"
    and c: "budget_usd (manifest l) = Some c"
  shows "f_le (fadd (reserved_usd (budget l)) (amount l)) c"
proof -
  have m: "money (committed l)" "money c" using i c covers by (auto simp: layer_inv_def)
  then have "f_le (fadd (committed l) (amount l)) c"
    using guard [OF r c] a by (intro not_gt_le) (auto simp: money_def dest: fnn_not_NaN intro!: fnn_not_NaN fadd_nn)
  moreover have "f_le (fadd (reserved_usd (budget l)) (amount l)) (fadd (committed l) (amount l))"
    using covers [OF i] i a by (intro fadd_mono) (auto simp: layer_inv_def money_def)
  ultimately show ?thesis using f_le_trans by blast
qed

lemma reserve_inv:
  assumes "layer_inv l" and "money (amount l)" and "reserve l = Inr l'"
  shows "layer_inv l'"
  using effect [OF assms(3)] reserve_bounded [OF assms] assms money_add
  by (auto simp: layer_inv_def)

end

interpretation wk: reservation "\<lambda>l. estimate_new_worker_cost_for_layer l model"
  "\<lambda>l. fadd (fadd (spent_usd (budget l)) (reserved_usd (budget l))) (lead_spent_usd (budget l))"
  "reserve_worker tid model" for tid model
proof
  fix l
  assume i: "layer_inv l"
  let ?s = "spent_usd (budget l)" and ?r = "reserved_usd (budget l)" and ?p = "lead_spent_usd (budget l)"
  have m: "money ?s" "money ?r" "money ?p" using i by (auto simp: layer_inv_def)
  have "f_le ?r (fadd (fadd ?s ?r) ?p)"
    using fadd_ge_right [of ?s ?r] fadd_ge_left [of "fadd ?s ?r" ?p] m f_le_trans
    by (meson fadd_nn frepr_fadd money_def)
  then show "money (fadd (fadd ?s ?r) ?p) \<and> f_le ?r (fadd (fadd ?s ?r) ?p)" using m money_add by auto
next
  fix l l' :: LayerState
  assume "reserve_worker tid model l = Inr l'"
  then show "l' = l \<or> reserved_usd (budget l') =
        fadd (reserved_usd (budget l)) (estimate_new_worker_cost_for_layer l model) \<and>
      spent_usd (budget l') = spent_usd (budget l) \<and> lead_spent_usd (budget l') = lead_spent_usd (budget l) \<and>
      original_reservation_usd l' = original_reservation_usd l \<and> manifest l' = manifest l \<and>
      (\<forall>p \<in> set (reservations (workers l')). p \<in> set (reservations (workers l)) \<or>
         snd p = estimate_new_worker_cost_for_layer l model)"
    by (auto simp: reserve_worker_def Let_def split: option.splits if_splits dest!: hm_mem_insert)
qed (auto simp: reserve_worker_def Let_def split: option.splits if_splits)

interpretation sl: reservation "\<lambda>_. a" "\<lambda>l. fadd (spent_usd (budget l)) (reserved_usd (budget l))"
  "reserve_sublead a" for a
proof
  fix l
  assume "layer_inv l"
  then show "money (fadd (spent_usd (budget l)) (reserved_usd (budget l))) \<and>
      f_le (reserved_usd (budget l)) (fadd (spent_usd (budget l)) (reserved_usd (budget l)))"
    using fadd_ge_right [of "spent_usd (budget l)" "reserved_usd (budget l)"] money_add
    by (auto simp: layer_inv_def money_def)
qed (auto simp: reserve_sublead_def Let_def split: option.splits if_splits)

section \<open>Operations on the run\<close>

lemma inv_run_wide:
  "budget_inv s \<Longrightarrow> budget_inv (append_record rec s)"
  "budget_inv s \<Longrightarrow> budget_inv (forget_worker_layer tid s)"
  "budget_inv s \<Longrightarrow> budget_inv (note_failure now tid p path rec s)"
  "budget_inv s \<Longrightarrow> budget_inv (snd (mint_token u a ro s))"
  "budget_inv s \<Longrightarrow> budget_inv (snd (revoke_token t s))"
  "budget_inv s \<Longrightarrow> budget_inv (snd (revoke_tokens_for_actor a s))"
  "budget_inv s \<Longrightarrow> budget_inv (broadcast_control_event ev s)"
  "budget_inv s \<Longrightarrow> budget_inv (s\<lparr>run_leases := m\<rparr>)"
  "budget_inv s \<Longrightarrow> budget_inv (s\<lparr>worker_layer_index := i\<rparr>)"
  "budget_inv s \<Longrightarrow> budget_inv (s\<lparr>sublead_actor_types := ts\<rparr>)"
  "budget_inv s \<Longrightarrow> budget_inv (s\<lparr>sublead_results := rs\<rparr>)"
  by (erule budget_inv_cong; simp add: layer_simps mint_token_def revoke_token_def revoke_tokens_for_actor_def
      broadcast_control_event_def next_seq_def Let_def)+

lemma inv_announce: "budget_inv s \<Longrightarrow> budget_inv (announce_done ref tid s)"
  by (simp add: announce_done_def Let_def budget_inv_upd layer_inv_neutral)

lemma inv_admit:
  "budget_inv s \<Longrightarrow> layer_inv l \<Longrightarrow> budget_inv (snd (admit_worker tid args ref i wt ap model l s))"
  by (auto simp: admit_worker_def split: sum.splits
      intro!: budget_inv_upd inv_run_wide layer_inv_neutral dest: wk.reserve_inv [OF _ money_estimate])

lemma inv_spawn_worker: "budget_inv s \<Longrightarrow> budget_inv (snd (handle_spawn_worker uuid now args s))"
  unfolding handle_spawn_worker_def
  by (auto split: prod.splits sum.splits option.splits intro!: inv_admit elim: budget_inv_layer)

lemma inv_worktree_failed: "budget_inv s \<Longrightarrow> budget_inv (worktree_failed ref w lp err now s)"
  by (auto simp: worktree_failed_def Let_def
      intro!: inv_announce inv_run_wide budget_inv_upd layer_inv_neutral layer_inv_release)

lemma inv_worker_started: "budget_inv s \<Longrightarrow> budget_inv (snd (worker_started ref tid uuid now s))"
  unfolding worker_started_def
  by (auto simp: Let_def split_beta intro!: inv_run_wide budget_inv_upd layer_inv_neutral)

lemma inv_finish_worker:
  "budget_inv s \<Longrightarrow> budget_inv (finish_worker ref w cwd lp token tok failure now o' s)"
  unfolding finish_worker_def
  by (auto simp: Let_def split_beta split: option.splits
      intro!: inv_announce inv_run_wide budget_inv_upd layer_inv_neutral layer_inv_release layer_inv_spent
      dest: money_cost)

lemma inv_resume: "budget_inv s \<Longrightarrow> budget_inv (snd (spawn_resume_worker uuid now tid prompt sid s))"
  unfolding spawn_resume_worker_def
  by (auto simp: Let_def split_beta split: option.splits
      intro!: inv_run_wide budget_inv_upd layer_inv_neutral elim!: layer_inv_cong)

lemma inv_finish_resumed: "budget_inv s \<Longrightarrow> budget_inv (finish_resumed ref w lp tok failure now o' s)"
  unfolding finish_resumed_def
  by (auto simp: Let_def split_beta split: option.splits
      intro!: inv_run_wide budget_inv_upd layer_inv_neutral)

lemma layer_inv_new:
  assumes "layer_inv (root s)" and env: "\<And>b lb mw t. env = Owned b lb mw t \<Longrightarrow> money b"
    and r: "\<And>x. r = Some x \<Longrightarrow> money x"
  shows "layer_inv (layer_new rid (derive_sublead_manifest (manifest (root s)) env) tok sid pol router st r)"
  using assms
  by (cases env) (auto simp: layer_inv_def layer_new_def new_budget_def new_workers_def derive_sublead_manifest_def
      money_def fnn_def Let_def)

lemma layer_inv_channel: "layer_inv l \<Longrightarrow> layer_inv (l\<lparr>reprompt_tx := x\<rparr>)"
  by (erule layer_inv_cong) simp_all

lemma inv_register:
  "budget_inv s \<Longrightarrow> layer_inv l \<Longrightarrow> budget_inv (register_sublead sid l s)"
  using layer_inv_cong [of l "l\<lparr>cancel := _\<rparr>"]
  by (auto simp: budget_inv_def register_sublead_def dest!: hm_mem_insert)

lemma inv_launch_sublead:
  assumes "budget_inv s" "\<And>b lb mw t. env = Owned b lb mw t \<Longrightarrow> money b" "\<And>x. r = Some x \<Longrightarrow> money x"
  shows "budget_inv (snd (launch_sublead sid tu now ok req env r s))"
  using assms layer_inv_new [of s env r] budget_inv_def [of s]
  unfolding launch_sublead_def
  by (auto simp: Let_def split_beta split: sum.splits option.splits
      intro!: inv_run_wide budget_inv_upd inv_register layer_inv_neutral layer_inv_channel)

lemma budget_inv_root: "budget_inv s \<Longrightarrow> layer_inv l \<Longrightarrow> budget_inv (s\<lparr>root := l\<rparr>)"
  by (simp add: budget_inv_def)

lemma inv_spawn_sublead:
  assumes i: "budget_inv s" and pays: "\<And>b. effective_budget_usd s req = Some b \<Longrightarrow> money b"
  shows "budget_inv (snd (spawn_sublead uuid tu now ok req s))"
proof (cases "check_can_spawn now (api_health s)")
  case (Inr u)
  note gate = Inr
  show ?thesis
  proof (cases "resolve_envelope s req")
    case (Inr env)
    show ?thesis
    proof (cases env)
      case SharedPool
      then show ?thesis
        using i Inr gate inv_launch_sublead [of s env None] by (simp add: spawn_sublead_def)
    next
      case (Owned b lb mw t)
      have b: "money b"
        using Inr Owned pays by (auto simp: resolve_envelope_def split: if_splits option.splits sum.splits)
      show ?thesis
      proof (cases "reserve_sublead b (root s)")
        case (Inr rt)
        let ?s = "s\<lparr>root := rt\<rparr>"
        have s: "budget_inv ?s"
          using i sl.reserve_inv [OF _ b Inr] by (auto simp: budget_inv_def)
        let ?r = "launch_sublead (''sublead-'' @ uuid) tu now ok req env (Some b) ?s"
        have l: "budget_inv (snd ?r)" by (rule inv_launch_sublead [OF s]) (use Owned b in auto)
        then have "budget_inv (snd ?r\<lparr>root := unreserve b (root (snd ?r))\<rparr>)"
          using layer_inv_unreserve b by (auto simp: budget_inv_def)
        then show ?thesis
          using l gate \<open>resolve_envelope s req = Inr env\<close> Owned Inr
          by (auto simp: spawn_sublead_def Let_def split: prod.splits sum.splits)
      qed (use i gate Inr Owned in \<open>simp add: spawn_sublead_def Let_def\<close>)
    qed
  qed (use i gate in \<open>simp add: spawn_sublead_def\<close>)
qed (use i in \<open>simp add: spawn_sublead_def\<close>)

lemma layer_inv_close: "layer_inv l \<Longrightarrow> layer_inv (close_sublead_row sid now out lp s l)"
  by (auto simp: close_sublead_row_def Let_def split: option.splits WorkerState.splits intro: layer_inv_neutral)

lemma layer_inv_fields:
  "layer_inv l \<Longrightarrow> money (spent_usd (budget l))" "layer_inv l \<Longrightarrow> money (reservation_of l)"
  by (auto simp: layer_inv_def reservation_of_def split: option.splits)

lemma inv_reconcile: "budget_inv s \<Longrightarrow> budget_inv (reconcile_terminated_sublead sid now out lp s)"
proof (cases "hm_get plain sid (subleads s)")
  case (Some l)
  assume i: "budget_inv s"
  have l: "layer_inv l" using i hm_plain_get_in [OF Some] by (auto simp: budget_inv_def)
  let ?l = "close_sublead_row sid now out lp s l"
  let ?s = "s\<lparr>subleads := hm_remove plain sid (subleads s),
      terminated_sublead_layers := terminated_sublead_layers s @ [?l]\<rparr>"
  have s1: "budget_inv ?s"
    using i layer_inv_close [OF l] by (auto simp: budget_inv_def dest!: hm_mem_remove)
  then have "budget_inv (?s\<lparr>root := add_spent (spent_usd (budget l)) (unreserve (reservation_of l) (root ?s))\<rparr>)"
    using layer_inv_fields [OF l]
    by (intro budget_inv_root layer_inv_spent layer_inv_unreserve) (auto simp: budget_inv_def)
  then show ?thesis using Some
    by (auto simp: reconcile_terminated_sublead_def Let_def split_beta
        intro!: budget_inv_upd layer_inv_neutral inv_run_wide)
qed (simp add: reconcile_terminated_sublead_def)

lemma inv_finish_sublead: "budget_inv s \<Longrightarrow> budget_inv (finish_sublead w lp failure now r s)"
  unfolding finish_sublead_def
  by (auto simp: Let_def split: option.splits
      intro!: inv_reconcile inv_run_wide budget_inv_upd layer_inv_neutral layer_inv_channel layer_inv_spent
      dest: money_cost)

lemma layer_inv_trip: "layer_inv l \<Longrightarrow> layer_inv (trip_budget_abort why l)"
  by (simp add: layer_inv_def trip_budget_abort_def)

lemma inv_usage:
  assumes "budget_inv s" "money baseline"
  shows "budget_inv (lead_usage_observer fmt4 ref model actor baseline bc lc usage s)"
proof -
  let ?c = "case cost_usd model usage of Some c \<Rightarrow> c | None \<Rightarrow> Fin 0"
  have "money ?c" using money_cost by (auto split: option.splits)
  then have "money (fadd baseline ?c)" using assms(2) by (rule money_add [rotated])
  then have "budget_inv (upd_layer ref (\<lambda>l. l\<lparr>budget := (budget l)\<lparr>lead_spent_usd := fadd baseline ?c\<rparr>\<rparr>) s)"
    using assms(1) by (intro budget_inv_upd) (auto simp: layer_inv_def)
  then show ?thesis
    unfolding lead_usage_observer_def Let_def
    by (auto split: option.splits intro!: budget_inv_upd layer_inv_trip)
qed

section \<open>Runs\<close>

text \<open>
  A step of a run as far as money is concerned. A sub-lead's budget, from its request or from the
  manifest's defaults, and the baseline of a usage report are amounts; everything else is arbitrary.
\<close>

inductive money_step :: "DispatchState \<Rightarrow> DispatchState \<Rightarrow> bool" where
  spawn: "money_step s (snd (handle_spawn_worker uuid now args s))"
| no_worktree: "money_step s (worktree_failed ref w lp err now s)"
| started: "money_step s (snd (worker_started ref tid uuid now s))"
| finished: "money_step s (finish_worker ref w cwd lp token tok failure now o' s)"
| resumed: "money_step s (snd (spawn_resume_worker uuid now tid prompt sid s))"
| resume_finished: "money_step s (finish_resumed ref rw lp tok failure now o' s)"
| sublead: "(\<And>b. effective_budget_usd s req = Some b \<Longrightarrow> money b) \<Longrightarrow>
    money_step s (snd (spawn_sublead uuid tu now ok req s))"
| sublead_finished: "money_step s (finish_sublead sw lp failure now r s)"
| reconciled: "money_step s (reconcile_terminated_sublead sid now out lp s)"
| usage: "money baseline \<Longrightarrow> money_step s (lead_usage_observer fmt4 ref model actor baseline bc lc u s)"

inductive_cases money_stepE: "money_step s s'"

lemma money_step_inv: "money_step s s' \<Longrightarrow> budget_inv s \<Longrightarrow> budget_inv s'"
  by (induction rule: money_step.induct)
    (auto intro: inv_spawn_worker inv_worktree_failed inv_worker_started inv_finish_worker inv_resume
      inv_finish_resumed inv_spawn_sublead inv_finish_sublead inv_reconcile inv_usage)

lemma money_steps_inv: "money_step\<^sup>*\<^sup>* s s' \<Longrightarrow> budget_inv s \<Longrightarrow> budget_inv s'"
  by (induction rule: rtranclp_induct) (auto intro: money_step_inv)

lemma new_dispatch_inv:
  "(\<And>c. budget_usd mf = Some c \<Longrightarrow> money c) \<Longrightarrow> budget_inv (new_dispatch rid mf lid pol router st)"
  by (auto simp: budget_inv_def layer_inv_def new_dispatch_def layer_new_def new_budget_def new_workers_def
      money_def fnn_def)

text \<open>
  C5: Reservations stay within the budget. Start a run whose budget, if it has one, is a non-negative
  amount, and let worker spawns, failures, ends, pauses and resumes, sub-lead spawns (with non-negative
  budgets), their rollbacks and reconciliations and usage reports happen in any order and number. Then
  in every layer, the root's, every live sub-lead's and every terminated one, the reserved amount is
  between zero and that layer's own budget, and spent amounts are never negative. Amounts are
  double-precision numbers and every addition rounds. Budgets that are negative or not a number, which
  the code accepts, are excluded.
\<close>

theorem reserved_within_budget:
  assumes "\<And>c. budget_usd mf = Some c \<Longrightarrow> money c"
    and "money_step\<^sup>*\<^sup>* (new_dispatch rid mf lid pol router st) s"
    and "layer_of ref s = Some l"
  shows "f_le (Fin 0) (reserved_usd (budget l)) \<and> f_le (Fin 0) (spent_usd (budget l)) \<and>
     (\<forall>c. budget_usd (manifest l) = Some c \<longrightarrow> f_le (reserved_usd (budget l)) c)"
proof -
  have "budget_inv (new_dispatch rid mf lid pol router st)" by (rule new_dispatch_inv [OF assms(1)])
  then have "layer_inv l" using budget_inv_layer [OF money_steps_inv [OF assms(2)] assms(3)] by blast
  then show ?thesis by (simp add: layer_inv_def money_def fnn_def)
qed

text \<open>A run with a budget of eight dollars that spawns one worker.\<close>

definition paid_manifest :: ResolvedManifest where
  "paid_manifest = base_manifest\<lparr>budget_usd := Some (Fin 8)\<rparr>"

definition plain_spawn :: SpawnWorkerArgs where
  "plain_spawn = \<lparr>sw_prompt = ''go'', sw_directory = None, sw_branch = None, sw_tools = None,
     sw_timeout_secs = None, sw_model = None, sw_worker_type = None, sw_meta = None\<rparr>"

definition paid_start :: DispatchState where
  "paid_start = new_dispatch ''run'' paid_manifest ''lead'' PolicyBlock None new_store"

definition paid_state :: DispatchState where
  "paid_state = snd (handle_spawn_worker ''1'' 0 plain_spawn paid_start)"

lemma money_eight: "money (Fin 8)"
proof -
  have "(8 :: rat) < 2 ^ 1024" "- (2 ^ 1024) < (8 :: rat)" by simp_all
  then show ?thesis using rn_pow2 [of 3] by (simp add: money_def frepr_def power_int_def)
qed

lemma reserve_worker_manifest: "reserve_worker tid model l = Inr l' \<Longrightarrow> manifest l' = manifest l"
  by (auto simp: reserve_worker_def Let_def split: option.splits if_splits)

lemma register_worker_manifest:
  "manifest (register_worker tid prompt model wtype l) = manifest l"
  "manifest (notify_budget_exceeded rid a b l) = manifest l"
  by (simp_all add: register_worker_def register_worker_cancel_def notify_budget_exceeded_def Let_def
      split: option.splits)

lemma admit_keeps_manifest:
  "layer_of ref s = Some l \<Longrightarrow>
   manifest (root (snd (admit_worker tid args ref i wt ap model l s))) = manifest (root s)"
  by (auto simp: admit_worker_def root_upd root_layer register_worker_manifest
      dest: reserve_worker_manifest split: sum.splits)

lemma spawn_keeps_manifest:
  "manifest (root (snd (handle_spawn_worker uuid now args s))) = manifest (root s)"
  unfolding handle_spawn_worker_def
  by (auto simp: admit_keeps_manifest split: prod.splits sum.splits option.splits)

theorem reserved_within_budget_witness:
  "money_step\<^sup>*\<^sup>* (new_dispatch ''run'' paid_manifest ''lead'' PolicyBlock None new_store) paid_state \<and>
   budget_usd paid_manifest = Some (Fin 8) \<and>
   f_le (Fin 0) (reserved_usd (budget (root paid_state))) \<and> f_le (reserved_usd (budget (root paid_state))) (Fin 8)"
proof -
  have b: "budget_usd paid_manifest = Some (Fin 8)" by (simp add: paid_manifest_def)
  have r: "money_step\<^sup>*\<^sup>* (new_dispatch ''run'' paid_manifest ''lead'' PolicyBlock None new_store) paid_state"
    using money_step.spawn by (simp add: paid_state_def paid_start_def r_into_rtranclp)
  have "manifest (root paid_state) = paid_manifest"
    by (simp add: paid_state_def spawn_keeps_manifest) (simp add: paid_start_def new_dispatch_def layer_new_def)
  then show ?thesis
    using reserved_within_budget [of paid_manifest, OF _ r root_layer] b money_eight r by auto
qed

end
