(* ===== verification/Cancel_Cascade.thy ===== *)
theory Cancel_Cascade
  imports Dispatch_Ops
begin

text \<open>
  Cancellation (\<^verbatim>\<open>dispatch/signals.rs\<close>, \<^verbatim>\<open>session/cancel.rs\<close>): killing one actor by
  id, and the background watcher that fans a layer's drain or terminate signal out to the tokens
  registered under it. The watcher, the signals and the registrations interleave, so the watcher is a
  step function over an explicit phase and reachability is an inductive predicate. The same watcher
  runs on the root layer with the sub-lead layers' tokens as children
  (\<^verbatim>\<open>install_cascade_cancel_watcher\<close>) and on each sub-lead layer with its workers' tokens
  (\<^verbatim>\<open>install_sublead_cancel_watcher\<close>).
\<close>

section \<open>Killing one actor\<close>

definition operator_reason :: "string \<Rightarrow> TerminateReason" where
  "operator_reason target = OperatorRequest (Some (''cancel_actor_with_reason target='' @ target))"

definition cancel_and_find_parent ::
  "DispatchState \<Rightarrow> string \<Rightarrow> (string + LayerRef) \<times> DispatchState" where
  "cancel_and_find_parent s target =
     (if hm_get plain target (cancels (workers (root s))) \<noteq> None then
        (Inr RootLayer,
         s\<lparr>root := (root s)\<lparr>workers := (workers (root s))\<lparr>cancels :=
           hm_update target (terminate_with_reason (operator_reason target))
             (cancels (workers (root s)))\<rparr>\<rparr>\<rparr>)
      else if hm_get plain target (subleads s) \<noteq> None then
        (Inr RootLayer,
         s\<lparr>subleads := hm_update target
           (\<lambda>l. l\<lparr>cancel := terminate_with_reason (operator_reason target) (cancel l)\<rparr>) (subleads s)\<rparr>)
      else
        (case hm_get plain target (worker_layer_index s) of
           Some (Some sid) \<Rightarrow>
             (case hm_get plain sid (subleads s) of
                Some sub_layer \<Rightarrow>
                  if hm_get plain target (cancels (workers sub_layer)) \<noteq> None then
                    (Inr (SubLayer sid),
                     s\<lparr>subleads := hm_update sid
                       (\<lambda>l. l\<lparr>workers := (workers l)\<lparr>cancels :=
                          hm_update target (terminate_with_reason (operator_reason target))
                            (cancels (workers l))\<rparr>\<rparr>) (subleads s)\<rparr>)
                  else (Inl (''cancel_actor_with_reason: unknown actor id: '' @ target), s)
              | None \<Rightarrow> (Inl (''cancel_actor_with_reason: unknown actor id: '' @ target), s))
         | _ \<Rightarrow> (Inl (''cancel_actor_with_reason: unknown actor id: '' @ target), s)))"

definition kill_message :: "string \<Rightarrow> string \<Rightarrow> string" where
  "kill_message target reason_text =
     ''[SYSTEM] Actor '' @ target @ '' was killed by operator.'' @ [CHR 0x0A] @ ''Reason: '' @
     reason_text @ [CHR 0x0A] @ ''Adjust your plan accordingly.''"

definition cancel_actor_with_reason ::
  "DispatchState \<Rightarrow> string \<Rightarrow> string option \<Rightarrow> (string + unit) \<times> DispatchState" where
  "cancel_actor_with_reason s target reason =
     (case cancel_and_find_parent s target of
        (Inl e, s') \<Rightarrow> (Inl e, s')
      | (Inr parent, s') \<Rightarrow>
          (case reason of
             None \<Rightarrow> (Inr (), s')
           | Some reason_text \<Rightarrow>
               (case parent of
                  RootLayer \<Rightarrow>
                    (Inr (), s'\<lparr>root := send_synthetic_reprompt (kill_message target reason_text) (root s')\<rparr>)
                | SubLayer sid \<Rightarrow>
                    (Inr (), s'\<lparr>subleads := hm_update sid
                       (send_synthetic_reprompt (kill_message target reason_text)) (subleads s')\<rparr>))))"

section \<open>The cascade watcher\<close>

datatype WatcherPhase =
    WaitFirst
  | FanOut "string list"
  | CheckTerminated
  | WaitTerminate
  | FanOutAgain "string list"
  | Exited

text \<open>
  The watcher of a sub-lead's layer with the tokens of its workers, or the watcher of the root with the tokens of
  the sub-leads; the root's own workers have no such watcher. \<open>registering\<close> holds the children inserted by
  \<^verbatim>\<open>register_worker_cancel\<close> or \<^verbatim>\<open>register_sublead\<close> whose eager \<^verbatim>\<open>cascade_to\<close> has not run yet.
  \<^verbatim>\<open>spawn_resume_worker\<close> does it the other way round: it asks whether the layer is terminated (\<open>asked\<close> holds the
  answer), then whether it is draining, prepares the token accordingly (\<open>prepared\<close>) and inserts it, over the
  token the worker had. \<open>overtaken\<close> records which children got, after the watcher had woken, a token that was prepared
  before the drain; the code does not keep it.
\<close>

record Cascade =
  parent_token :: CancelToken
  child_tokens :: "(string \<times> CancelToken) list"
  registering :: "string list"
  asked :: "(string \<times> bool) list"
  prepared :: "(string \<times> CancelToken) list"
  overtaken :: "string list"
  phase :: WatcherPhase

definition watcher_step :: "Cascade \<Rightarrow> Cascade option" where
  "watcher_step c =
     (case phase c of
        WaitFirst \<Rightarrow>
          if ct_drain (parent_token c) \<or> ct_terminate (parent_token c)
          then Some (c\<lparr>phase := FanOut (map fst (child_tokens c))\<rparr>) else None
      | FanOut [] \<Rightarrow> Some (c\<lparr>phase := CheckTerminated\<rparr>)
      | FanOut (k # ks) \<Rightarrow>
          Some (c\<lparr>child_tokens := hm_update k (cascade_to (parent_token c)) (child_tokens c),
                  phase := FanOut ks\<rparr>)
      | CheckTerminated \<Rightarrow>
          if ct_terminate (parent_token c) then Some (c\<lparr>phase := Exited\<rparr>)
          else Some (c\<lparr>phase := WaitTerminate\<rparr>)
      | WaitTerminate \<Rightarrow>
          if ct_terminate (parent_token c)
          then Some (c\<lparr>phase := FanOutAgain (map fst (child_tokens c))\<rparr>) else None
      | FanOutAgain [] \<Rightarrow> Some (c\<lparr>phase := Exited\<rparr>)
      | FanOutAgain (k # ks) \<Rightarrow>
          Some (c\<lparr>child_tokens := hm_update k (cascade_to (parent_token c)) (child_tokens c),
                  phase := FanOutAgain ks\<rparr>)
      | Exited \<Rightarrow> None)"

text \<open>The fan-out holds the read lock of the child table, so nothing is inserted while it runs.\<close>

fun fanning :: "WatcherPhase \<Rightarrow> bool" where
  "fanning (FanOut _) = True"
| "fanning (FanOutAgain _) = True"
| "fanning _ = False"

definition new_cascade :: Cascade where
  "new_cascade = \<lparr>parent_token = new_cancel, child_tokens = [], registering = [], asked = [], prepared = [],
     overtaken = [], phase = WaitFirst\<rparr>"

datatype Action =
    Drain | TerminateWith TerminateReason | Insert string | EagerCascade string | Watcher
  | AskTerminated string | PrepareToken string bool | InsertPrepared string CancelToken

text \<open>The token of a resumed worker, given the answer to the first question and the layer's token at the second.\<close>

definition resume_token :: "bool \<Rightarrow> CancelToken \<Rightarrow> CancelToken" where
  "resume_token terminated p =
     (if terminated then cancel_terminate new_cancel
      else if ct_drain p then cancel_drain new_cancel else new_cancel)"

inductive cascade_step :: "Action \<Rightarrow> Cascade \<Rightarrow> Cascade \<Rightarrow> bool" where
  drain: "cascade_step Drain c (c\<lparr>parent_token := cancel_drain (parent_token c)\<rparr>)"
| terminate: "cascade_step (TerminateWith r) c
     (c\<lparr>parent_token := terminate_with_reason r (parent_token c)\<rparr>)"
| insert: "\<not> fanning (phase c) \<Longrightarrow> hm_get plain k (child_tokens c) = None \<Longrightarrow>
     cascade_step (Insert k) c
       (c\<lparr>child_tokens := hm_insert plain k new_cancel (child_tokens c),
         registering := k # registering c\<rparr>)"
| eager: "k \<in> set (registering c) \<Longrightarrow>
     cascade_step (EagerCascade k) c
       (c\<lparr>child_tokens := hm_update k (cascade_to (parent_token c)) (child_tokens c),
         registering := remove1 k (registering c)\<rparr>)"
| watch: "watcher_step c = Some c' \<Longrightarrow> cascade_step Watcher c c'"
| ask: "cascade_step (AskTerminated k) c (c\<lparr>asked := (k, ct_terminate (parent_token c)) # asked c\<rparr>)"
| prepare: "(k, b) \<in> set (asked c) \<Longrightarrow>
     cascade_step (PrepareToken k b) c
       (c\<lparr>asked := remove1 (k, b) (asked c), prepared := (k, resume_token b (parent_token c)) # prepared c\<rparr>)"
| insert_prepared: "\<not> fanning (phase c) \<Longrightarrow> (k, t) \<in> set (prepared c) \<Longrightarrow>
     cascade_step (InsertPrepared k t) c
       (c\<lparr>child_tokens := hm_insert plain k t (child_tokens c), prepared := remove1 (k, t) (prepared c),
         overtaken := (if phase c \<noteq> WaitFirst \<and> \<not> ct_drain t then k # overtaken c else overtaken c)\<rparr>)"

inductive_cases cascade_stepE: "cascade_step a c c'"

inductive cascade_reach :: "Cascade \<Rightarrow> bool" where
  start: "cascade_reach new_cascade"
| step: "cascade_reach c \<Longrightarrow> cascade_step a c c' \<Longrightarrow> cascade_reach c'"

text \<open>
  A terminate signal that arrives while the first fan-out runs, or between its end and the check
  that follows it; and a resumed worker whose token was prepared before the terminate.
\<close>

fun in_window :: "WatcherPhase \<Rightarrow> bool" where
  "in_window (FanOut _) = True"
| "in_window CheckTerminated = True"
| "in_window _ = False"

definition quiet :: "Action \<Rightarrow> Cascade \<Rightarrow> bool" where
  "quiet a c \<longleftrightarrow>
     ((\<exists>r. a = TerminateWith r) \<longrightarrow> in_window (phase c) \<longrightarrow> ct_terminate (parent_token c)) \<and>
     (\<forall>k t. a = InsertPrepared k t \<longrightarrow> ct_terminate (parent_token c) \<longrightarrow> ct_terminate t)"

inductive quiet_reach :: "Cascade \<Rightarrow> bool" where
  start: "quiet_reach new_cascade"
| step: "quiet_reach c \<Longrightarrow> cascade_step a c c' \<Longrightarrow> quiet a c \<Longrightarrow> quiet_reach c'"


section \<open>Invariants\<close>

lemma cascade_to_drain: "ct_drain p \<Longrightarrow> ct_drain (cascade_to p t)"
  and cascade_to_terminate: "ct_terminate p \<Longrightarrow> ct_terminate (cascade_to p t)"
  and cascade_keeps_drain: "ct_drain t \<Longrightarrow> ct_drain (cascade_to p t)"
  and cascade_keeps_terminate: "ct_terminate t \<Longrightarrow> ct_terminate (cascade_to p t)"
  by (auto simp: cascade_to_def terminate_with_reason_def cancel_terminate_def cancel_drain_def
      split: option.splits)

text \<open>The children the current fan-out still has to visit.\<close>

fun unvisited :: "WatcherPhase \<Rightarrow> string set" where
  "unvisited (FanOut ks) = set ks"
| "unvisited (FanOutAgain ks) = set ks"
| "unvisited _ = {}"

text \<open>
  The shape of both invariants: a settled child, one that is neither being registered nor still to
  be visited nor exempt, has received the parent's signal \<open>sig\<close> whenever the phase is one that promises it.
\<close>

definition settled :: "(CancelToken \<Rightarrow> bool) \<Rightarrow> (WatcherPhase \<Rightarrow> bool) \<Rightarrow> string set \<Rightarrow> Cascade \<Rightarrow> bool" where
  "settled sig promised exempt c \<longleftrightarrow>
     (sig (parent_token c) \<longrightarrow> promised (phase c) \<longrightarrow>
        (\<forall>(k, t)\<in>set (child_tokens c).
           k \<notin> set (registering c) \<longrightarrow> k \<notin> unvisited (phase c) \<longrightarrow> k \<notin> exempt \<longrightarrow> sig t))"

definition past_first :: "WatcherPhase \<Rightarrow> bool" where
  "past_first ph \<longleftrightarrow> ph \<noteq> WaitFirst"

definition term_promised :: "WatcherPhase \<Rightarrow> bool" where
  "term_promised ph \<longleftrightarrow> ph \<noteq> WaitFirst \<and> ph \<noteq> WaitTerminate"

definition reg_ok :: "Cascade \<Rightarrow> bool" where
  "reg_ok c \<longleftrightarrow> distinct (registering c) \<and> set (registering c) \<subseteq> fst ` set (child_tokens c) \<and>
     (ct_terminate (parent_token c) \<longrightarrow> ct_drain (parent_token c)) \<and>
     (past_first (phase c) \<longrightarrow> ct_drain (parent_token c)) \<and>
     ((\<exists>ks. phase c = FanOutAgain ks) \<or> phase c = Exited \<longrightarrow> ct_terminate (parent_token c))"

lemma settled_eager:
  assumes "settled sig pr ex c" and "distinct (registering c)"
    and "\<And>p t. sig p \<Longrightarrow> sig (cascade_to p t)" and "\<And>p t. sig t \<Longrightarrow> sig (cascade_to p t)"
  shows "settled sig pr ex (c\<lparr>child_tokens := hm_update k (cascade_to (parent_token c)) (child_tokens c),
     registering := remove1 k (registering c)\<rparr>)"
  using assms by (fastforce simp: settled_def hm_update_mem)

lemma settled_insert:
  assumes "settled sig pr ex c" and "hm_get plain k (child_tokens c) = None"
  shows "settled sig pr ex (c\<lparr>child_tokens := hm_insert plain k new_cancel (child_tokens c),
     registering := k # registering c\<rparr>)"
  using assms by (fastforce simp: settled_def hm_insert_new)

lemma settled_insert_prepared:
  assumes "settled sig pr ex c" and "\<not> fanning (phase c)" and "ex \<subseteq> ex'"
    and "sig (parent_token c) \<Longrightarrow> pr (phase c) \<Longrightarrow> sig t \<or> k \<in> ex'"
  shows "settled sig pr ex' (c\<lparr>child_tokens := hm_insert plain k t (child_tokens c), prepared := ps, overtaken := ov\<rparr>)"
  unfolding settled_def
proof (intro impI ballI, clarify)
  fix k' t'
  assume a: "sig (parent_token (c\<lparr>child_tokens := hm_insert plain k t (child_tokens c), prepared := ps, overtaken := ov\<rparr>))"
    "pr (phase (c\<lparr>child_tokens := hm_insert plain k t (child_tokens c), prepared := ps, overtaken := ov\<rparr>))"
    "(k', t') \<in> set (child_tokens (c\<lparr>child_tokens := hm_insert plain k t (child_tokens c), prepared := ps, overtaken := ov\<rparr>))"
    "k' \<notin> set (registering (c\<lparr>child_tokens := hm_insert plain k t (child_tokens c), prepared := ps, overtaken := ov\<rparr>))"
    "k' \<notin> unvisited (phase (c\<lparr>child_tokens := hm_insert plain k t (child_tokens c), prepared := ps, overtaken := ov\<rparr>))"
    "k' \<notin> ex'"
  then have "(k', t') \<in> set (child_tokens c) \<or> k' = k \<and> t' = t"
    using hm_insert_in [of k' t' plain k t "child_tokens c"] by simp
  then show "sig t'" using a assms by (auto simp: settled_def)
qed

lemma settled_visit:
  assumes "settled sig pr ex c" and "sig (parent_token c) \<Longrightarrow> pr (phase c)"
    and "\<And>p t. sig p \<Longrightarrow> sig (cascade_to p t)" and "unvisited (phase c) \<subseteq> insert k (unvisited ph)"
  shows "settled sig pr ex (c\<lparr>child_tokens := hm_update k (cascade_to (parent_token c)) (child_tokens c),
     phase := ph\<rparr>)"
  unfolding settled_def
proof (intro impI ballI, clarify)
  fix k' t
  assume a: "sig (parent_token (c\<lparr>child_tokens := hm_update k (cascade_to (parent_token c)) (child_tokens c),
     phase := ph\<rparr>))" "(k', t) \<in> set (child_tokens (c\<lparr>child_tokens :=
       hm_update k (cascade_to (parent_token c)) (child_tokens c), phase := ph\<rparr>))"
    "k' \<notin> set (registering (c\<lparr>child_tokens := hm_update k (cascade_to (parent_token c)) (child_tokens c),
     phase := ph\<rparr>))" "k' \<notin> unvisited (phase (c\<lparr>child_tokens :=
       hm_update k (cascade_to (parent_token c)) (child_tokens c), phase := ph\<rparr>))" "k' \<notin> ex"
  then obtain w where w: "(k', w) \<in> set (child_tokens c)"
    and t: "t = (if k' = k then cascade_to (parent_token c) w else w)" by (auto simp: hm_update_mem)
  show "sig t"
  proof (cases "k' = k")
    case True
    then show ?thesis using a(1) t assms(3) by simp
  next
    case False
    then have "k' \<notin> unvisited (phase c)" using a(4) assms(4) by auto
    then show ?thesis using assms(1,2) a w t False by (auto simp: settled_def)
  qed
qed

lemma reg_ok_watcher: "reg_ok c \<Longrightarrow> watcher_step c = Some c' \<Longrightarrow> reg_ok c'"
  by (cases "phase c") (auto simp: reg_ok_def watcher_step_def past_first_def split: list.splits if_splits)

lemma reg_ok_step:
  assumes "cascade_step a c c'" and "reg_ok c"
  shows "reg_ok c'"
  using assms
proof (cases rule: cascade_step.cases)
  case (insert k)
  then show ?thesis using assms(2)
    by (auto simp: reg_ok_def hm_insert_new hm_get_None_iff)
next
  case (eager k)
  then show ?thesis using assms(2) by (auto simp: reg_ok_def dest: notin_set_remove1)
next
  case watch
  then show ?thesis using assms(2) reg_ok_watcher by blast
next
  case (insert_prepared k t)
  then show ?thesis using assms(2) hm_keys_insert [of plain k t "child_tokens c"] by (auto simp: reg_ok_def)
qed (use assms(2) in \<open>auto simp: reg_ok_def cancel_drain_def terminate_with_reason_def\<close>)

lemma key_mem: "(a, b) \<in> set m \<Longrightarrow> a \<in> fst ` set m"
  by force

lemma settled_watcher_drain:
  assumes "reg_ok c" and "settled ct_drain past_first (set (overtaken c)) c" and "watcher_step c = Some c'"
  shows "settled ct_drain past_first (set (overtaken c')) c'"
proof (cases "phase c")
  case (FanOut ks)
  then show ?thesis using assms(2,3)
    by (cases ks) (auto simp: watcher_step_def past_first_def settled_def [of _ _ _ "c\<lparr>phase := _\<rparr>"]
        settled_def [of _ _ _ c] intro!: settled_visit [OF assms(2)] cascade_to_drain)
next
  case (FanOutAgain ks)
  then show ?thesis using assms(2,3)
    by (cases ks) (auto simp: watcher_step_def past_first_def settled_def [of _ _ _ "c\<lparr>phase := _\<rparr>"]
        settled_def [of _ _ _ c] intro!: settled_visit [OF assms(2)] cascade_to_drain)
qed (use assms in \<open>auto simp: watcher_step_def settled_def past_first_def dest: key_mem split: if_splits\<close>)

lemma settled_watcher_term:
  assumes "reg_ok c" and "settled ct_terminate term_promised {} c" and "watcher_step c = Some c'"
  shows "settled ct_terminate term_promised {} c'"
proof (cases "phase c")
  case (FanOut ks)
  then show ?thesis using assms(2,3)
    by (cases ks) (auto simp: watcher_step_def term_promised_def settled_def [of _ _ _ "c\<lparr>phase := _\<rparr>"]
        settled_def [of _ _ _ c] intro!: settled_visit [OF assms(2)] cascade_to_terminate)
next
  case (FanOutAgain ks)
  then show ?thesis using assms(2,3)
    by (cases ks) (auto simp: watcher_step_def term_promised_def settled_def [of _ _ _ "c\<lparr>phase := _\<rparr>"]
        settled_def [of _ _ _ c] intro!: settled_visit [OF assms(2)] cascade_to_terminate)
qed (use assms in \<open>auto simp: watcher_step_def settled_def term_promised_def dest: key_mem split: if_splits\<close>)

lemma drain_inv: "cascade_reach c \<Longrightarrow> reg_ok c \<and> settled ct_drain past_first (set (overtaken c)) c"
proof (induction rule: cascade_reach.induct)
  case start
  then show ?case by (simp add: reg_ok_def settled_def new_cascade_def new_cancel_def past_first_def)
next
  case (step c a c')
  from step.hyps(2) have "settled ct_drain past_first (set (overtaken c')) c'"
  proof (cases rule: cascade_step.cases)
    case (eager k)
    then show ?thesis using step.IH settled_eager [of ct_drain]
      by (simp add: reg_ok_def cascade_to_drain cascade_keeps_drain)
  next
    case (insert k)
    then show ?thesis using step.IH settled_insert [of ct_drain] by simp
  next
    case watch
    then show ?thesis using step.IH settled_watcher_drain by blast
  next
    case (insert_prepared k t)
    show ?thesis
      unfolding insert_prepared(2)
      by (rule settled_insert_prepared [OF conjunct2 [OF step.IH]])
        (use insert_prepared in \<open>auto simp: past_first_def\<close>)
  qed (use step.IH in \<open>auto simp: settled_def reg_ok_def\<close>)
  then show ?case using reg_ok_step [OF step.hyps(2)] step.IH by blast
qed

lemma term_inv: "quiet_reach c \<Longrightarrow> reg_ok c \<and> settled ct_terminate term_promised {} c"
proof (induction rule: quiet_reach.induct)
  case start
  then show ?case
    by (simp add: reg_ok_def settled_def new_cascade_def new_cancel_def past_first_def)
next
  case (step c a c')
  from step.hyps(2) have "settled ct_terminate term_promised {} c'"
  proof (cases rule: cascade_step.cases)
    case drain
    then show ?thesis using step.IH by (simp add: settled_def cancel_drain_def)
  next
    case (terminate r)
    then have "term_promised (phase c) \<Longrightarrow> ct_terminate (parent_token c)"
      using step.hyps(3) step.IH by (cases "phase c") (auto simp: quiet_def reg_ok_def term_promised_def)
    then show ?thesis using step.IH terminate by (auto simp: settled_def)
  next
    case (eager k)
    then show ?thesis using step.IH settled_eager [of ct_terminate]
      by (simp add: reg_ok_def cascade_to_terminate cascade_keeps_terminate)
  next
    case (insert k)
    then show ?thesis using step.IH settled_insert [of ct_terminate] by simp
  next
    case watch
    then show ?thesis using step.IH settled_watcher_term by blast
  next
    case (insert_prepared k t)
    show ?thesis
      unfolding insert_prepared(2)
      by (rule settled_insert_prepared [OF conjunct2 [OF step.IH]])
        (use insert_prepared step.hyps(3) in \<open>auto simp: quiet_def\<close>)
  qed (use step.IH in \<open>auto simp: settled_def\<close>)
  then show ?case using reg_ok_step [OF step.hyps(2)] step.IH by blast
qed


section \<open>What the cascade delivers\<close>


text \<open>Without a resume that is overtaken nobody is exempt.\<close>

inductive orderly_reach :: "Cascade \<Rightarrow> bool" where
  start: "orderly_reach new_cascade"
| step: "orderly_reach c \<Longrightarrow> cascade_step a c c' \<Longrightarrow>
    (\<And>k t. a = InsertPrepared k t \<Longrightarrow> ct_drain (parent_token c) \<Longrightarrow> ct_drain t) \<Longrightarrow> orderly_reach c'"

lemma watcher_keeps: "watcher_step c = Some c' \<Longrightarrow> overtaken c' = overtaken c \<and> parent_token c' = parent_token c"
  by (auto simp: watcher_step_def split: WatcherPhase.splits list.splits if_splits)

lemma orderly_none_overtaken: "orderly_reach c \<Longrightarrow> cascade_reach c \<and> overtaken c = []"
proof (induction rule: orderly_reach.induct)
  case start
  show ?case using cascade_reach.start by (simp add: new_cascade_def)
next
  case (step c a c')
  then have reach: "cascade_reach c'" using cascade_reach.step by blast
  have drained: "phase c \<noteq> WaitFirst \<Longrightarrow> ct_drain (parent_token c)"
    using drain_inv step.IH by (auto simp: reg_ok_def past_first_def)
  from step.hyps(2) have "overtaken c' = []"
  proof cases
    case watch
    then show ?thesis using step.IH watcher_keeps by simp
  next
    case (insert_prepared k t)
    then have "phase c \<noteq> WaitFirst \<Longrightarrow> ct_drain t" using drained step.hyps(3) by blast
    then show ?thesis using step.IH insert_prepared by auto
  qed (use step.IH in simp_all)
  with reach show ?case ..
qed

fun run_watcher :: "nat \<Rightarrow> Cascade \<Rightarrow> Cascade" where
  "run_watcher 0 c = c"
| "run_watcher (Suc n) c = (case watcher_step c of None \<Rightarrow> c | Some c' \<Rightarrow> run_watcher n c')"

text \<open>The watcher steps left to a terminated parent.\<close>

definition steps_left :: "Cascade \<Rightarrow> nat" where
  "steps_left c =
     (case phase c of
        WaitFirst \<Rightarrow> length (child_tokens c) + 3
      | FanOut ks \<Rightarrow> length ks + 2
      | CheckTerminated \<Rightarrow> 1
      | WaitTerminate \<Rightarrow> length (child_tokens c) + 2
      | FanOutAgain ks \<Rightarrow> length ks + 1
      | Exited \<Rightarrow> 0)"

lemma watcher_progress:
  assumes "ct_terminate (parent_token c)" and "steps_left c = Suc n"
  shows "\<exists>c'. watcher_step c = Some c' \<and> steps_left c' = n \<and> parent_token c' = parent_token c \<and>
    registering c' = registering c"
  using assms by (auto simp: steps_left_def watcher_step_def split: WatcherPhase.splits list.splits)

lemma run_watcher_exits:
  assumes "quiet_reach c" and "ct_terminate (parent_token c)" and "registering c = []"
    and "steps_left c = n"
  shows "quiet_reach (run_watcher n c) \<and> phase (run_watcher n c) = Exited \<and>
    ct_terminate (parent_token (run_watcher n c)) \<and> registering (run_watcher n c) = []"
  using assms
proof (induction n arbitrary: c)
  case 0
  then show ?case by (auto simp: steps_left_def split: WatcherPhase.splits)
next
  case (Suc n)
  obtain c' where c': "watcher_step c = Some c'" "steps_left c' = n" "parent_token c' = parent_token c"
    "registering c' = registering c"
    using watcher_progress [OF Suc.prems(2,4)] by blast
  have "quiet_reach c'"
    using quiet_reach.step [OF Suc.prems(1) cascade_step.watch [OF c'(1)]] by (simp add: quiet_def)
  then show ?case using Suc.IH [of c'] Suc.prems c' by simp
qed

text \<open>
  If no terminate signal arrives between the start of the watcher's first fan-out and the check
  that follows it, then from every reachable state with a terminated parent and no registration in
  the middle the watcher runs to its end in a bounded number of its own steps, and every child is
  then terminated.
\<close>

theorem terminate_reaches_all:
  assumes "quiet_reach c" and "ct_terminate (parent_token c)" and "registering c = []"
  shows "phase (run_watcher (steps_left c) c) = Exited \<and>
    (\<forall>(k, t)\<in>set (child_tokens (run_watcher (steps_left c) c)). ct_terminate t)"
  using run_watcher_exits [OF assms refl] term_inv [of "run_watcher (steps_left c) c"]
  by (auto simp: settled_def term_promised_def)


section \<open>Schedules\<close>

text \<open>An action performed when it is enabled, and a whole schedule of them.\<close>

fun perform :: "Action \<Rightarrow> Cascade \<Rightarrow> Cascade option" where
  "perform Drain c = Some (c\<lparr>parent_token := cancel_drain (parent_token c)\<rparr>)"
| "perform (TerminateWith r) c = Some (c\<lparr>parent_token := terminate_with_reason r (parent_token c)\<rparr>)"
| "perform (Insert k) c =
     (if \<not> fanning (phase c) \<and> hm_get plain k (child_tokens c) = None
      then Some (c\<lparr>child_tokens := hm_insert plain k new_cancel (child_tokens c),
        registering := k # registering c\<rparr>) else None)"
| "perform (EagerCascade k) c =
     (if k \<in> set (registering c)
      then Some (c\<lparr>child_tokens := hm_update k (cascade_to (parent_token c)) (child_tokens c),
        registering := remove1 k (registering c)\<rparr>) else None)"
| "perform Watcher c = watcher_step c"
| "perform (AskTerminated k) c = Some (c\<lparr>asked := (k, ct_terminate (parent_token c)) # asked c\<rparr>)"
| "perform (PrepareToken k b) c =
     (if (k, b) \<in> set (asked c)
      then Some (c\<lparr>asked := remove1 (k, b) (asked c), prepared := (k, resume_token b (parent_token c)) # prepared c\<rparr>) else None)"
| "perform (InsertPrepared k t) c =
     (if \<not> fanning (phase c) \<and> (k, t) \<in> set (prepared c)
      then Some (c\<lparr>child_tokens := hm_insert plain k t (child_tokens c), prepared := remove1 (k, t) (prepared c),
        overtaken := (if phase c \<noteq> WaitFirst \<and> \<not> ct_drain t then k # overtaken c else overtaken c)\<rparr>) else None)"

fun schedule :: "Action list \<Rightarrow> Cascade \<Rightarrow> Cascade option" where
  "schedule [] c = Some c"
| "schedule (a # as) c = Option.bind (perform a c) (schedule as)"

fun quiet_schedule :: "Action list \<Rightarrow> Cascade \<Rightarrow> bool" where
  "quiet_schedule [] c = True"
| "quiet_schedule (a # as) c =
     (quiet a c \<and> (case perform a c of None \<Rightarrow> False | Some c' \<Rightarrow> quiet_schedule as c'))"

lemma perform_step: "perform a c = Some c' \<Longrightarrow> cascade_step a c c'"
proof (cases a)
  case (InsertPrepared k t)
  assume "perform a c = Some c'"
  then have "\<not> fanning (phase c)" "(k, t) \<in> set (prepared c)"
    "c' = c\<lparr>child_tokens := hm_insert plain k t (child_tokens c), prepared := remove1 (k, t) (prepared c),
       overtaken := (if phase c \<noteq> WaitFirst \<and> \<not> ct_drain t then k # overtaken c else overtaken c)\<rparr>"
    using InsertPrepared by (auto split: if_split_asm)
  then show ?thesis using InsertPrepared cascade_step.insert_prepared by blast
qed (auto intro: cascade_step.intros split: if_splits)

lemma schedule_reach: "schedule as c = Some c' \<Longrightarrow> cascade_reach c \<Longrightarrow> cascade_reach c'"
  by (induction as arbitrary: c)
    (auto simp: bind_eq_Some_conv intro: cascade_reach.step perform_step)

lemma quiet_schedule_reach:
  "schedule as c = Some c' \<Longrightarrow> quiet_schedule as c \<Longrightarrow> quiet_reach c \<Longrightarrow> quiet_reach c'"
proof (induction as arbitrary: c)
  case (Cons a as)
  then obtain d where "perform a c = Some d" "schedule as d = Some c'" "quiet a c" "quiet_schedule as d"
    by (auto simp: bind_eq_Some_conv)
  then show ?case using Cons.IH Cons.prems(3) quiet_reach.step perform_step by blast
qed simp

lemmas schedule_eval = new_cascade_def new_cancel_def watcher_step_def cascade_to_def cancel_drain_def
  terminate_with_reason_def hm_update_def quiet_def cancel_terminate_def resume_token_def

text \<open>A worker registered before the drain, one registered after the fan-out.\<close>

definition drained_example :: Cascade where
  "drained_example =
     \<lparr>parent_token = \<lparr>ct_drain = True, ct_terminate = False, ct_reason = None\<rparr>,
      child_tokens = [(''w1'', \<lparr>ct_drain = True, ct_terminate = False, ct_reason = None\<rparr>),
        (''w2'', \<lparr>ct_drain = True, ct_terminate = False, ct_reason = None\<rparr>)],
      registering = [], asked = [], prepared = [], overtaken = [], phase = WaitTerminate\<rparr>"



theorem terminate_reaches_all_witness:
  "\<exists>c. quiet_reach c \<and> ct_terminate (parent_token c) \<and> phase c = WaitTerminate \<and>
     length (child_tokens c) = 2 \<and> phase (run_watcher (steps_left c) c) = Exited"
proof -
  let ?as = "[Insert ''w1'', EagerCascade ''w1'', Drain, Watcher, Watcher, Watcher, Watcher,
     Insert ''w2'', EagerCascade ''w2'', TerminateWith OperatorCtrlC]"
  let ?c = "drained_example\<lparr>parent_token := terminate_with_reason OperatorCtrlC (parent_token drained_example)\<rparr>"
  have r: "schedule ?as new_cascade = Some ?c"
    by (simp add: schedule_eval drained_example_def)
  have q: "quiet_reach ?c"
    by (rule quiet_schedule_reach [OF r _ quiet_reach.start]) (simp add: schedule_eval)
  have "phase (run_watcher (steps_left ?c) ?c) = Exited"
    using terminate_reaches_all [OF q] by (simp add: drained_example_def terminate_with_reason_def)
  then show ?thesis using q by (intro exI [of _ ?c]) (simp add: drained_example_def terminate_with_reason_def)
qed

section \<open>A terminate signal can be lost\<close>

definition lost_example :: Cascade where
  "lost_example =
     \<lparr>parent_token = \<lparr>ct_drain = True, ct_terminate = True, ct_reason = Some OperatorCtrlC\<rparr>,
      child_tokens = [(''w1'', \<lparr>ct_drain = True, ct_terminate = False, ct_reason = None\<rparr>)],
      registering = [], asked = [], prepared = [], overtaken = [], phase = Exited\<rparr>"

text \<open>A child whose token no step changes any more, unless the worker is resumed again.\<close>

definition stuck :: "string \<Rightarrow> CancelToken \<Rightarrow> Cascade \<Rightarrow> bool" where
  "stuck k t c \<longleftrightarrow> phase c = Exited \<and> k \<notin> set (registering c) \<and> k \<notin> fst ` set (asked c) \<and> k \<notin> fst ` set (prepared c) \<and>
     hm_get plain k (child_tokens c) = Some t"

lemma key_remove1: "k \<notin> fst ` set m \<Longrightarrow> k \<notin> fst ` set (remove1 x m)"
  using set_remove1_subset [of x m] by blast

lemma stuck_step:
  assumes "cascade_step a c c'" and "stuck k t c" and "a \<noteq> AskTerminated k"
  shows "stuck k t c'"
  using assms(1)
proof (cases rule: cascade_step.cases)
  case (eager j)
  then show ?thesis using assms(2) by (auto simp: stuck_def hm_get_update dest: notin_set_remove1)
next
  case (prepare j b)
  then have "j \<noteq> k" using assms(2) by (auto simp: stuck_def dest: key_mem)
  then show ?thesis using assms(2) prepare by (simp add: stuck_def key_remove1)
next
  case (insert_prepared j u)
  then have "j \<noteq> k" using assms(2) by (auto simp: stuck_def dest: key_mem)
  then show ?thesis using assms(2) insert_prepared by (simp add: stuck_def key_remove1 hm_get_insert)
qed (use assms(2,3) in \<open>auto simp: stuck_def hm_get_insert watcher_step_def\<close>)

lemma stuck_steps:
  assumes "(\<lambda>x y. \<exists>a. a \<noteq> AskTerminated k \<and> cascade_step a x y)\<^sup>*\<^sup>* c c'" "stuck k t c"
  shows "stuck k t c'"
  using assms by (induction rule: rtranclp_induct) (auto dest: stuck_step)

text \<open>
  A terminate signal that arrives after the watcher's first fan-out of a drain and before its
  check of the terminate flag is lost: the watcher exits, the parent is terminated, and a worker
  registered all along stays merely draining in every continuation in which it is not resumed, whatever signals
  follow.
\<close>

theorem terminate_lost:
  "\<exists>c. cascade_reach c \<and> ct_terminate (parent_token c) \<and> registering c = [] \<and> phase c = Exited \<and>
     (\<forall>c'. (\<lambda>x y. \<exists>a. a \<noteq> AskTerminated ''w1'' \<and> cascade_step a x y)\<^sup>*\<^sup>* c c' \<longrightarrow>
        hm_get plain ''w1'' (child_tokens c') = Some \<lparr>ct_drain = True, ct_terminate = False, ct_reason = None\<rparr>)"
proof -
  have "schedule [Insert ''w1'', EagerCascade ''w1'', Drain, Watcher, Watcher, Watcher,
     TerminateWith OperatorCtrlC, Watcher] new_cascade = Some lost_example"
    by (simp add: schedule_eval lost_example_def)
  then have r: "cascade_reach lost_example" using schedule_reach cascade_reach.start by blast
  have "stuck ''w1'' \<lparr>ct_drain = True, ct_terminate = False, ct_reason = None\<rparr> lost_example"
    by (simp add: stuck_def lost_example_def)
  from stuck_steps [OF _ this] show ?thesis
    using r by (intro exI [of _ lost_example]) (auto simp: lost_example_def stuck_def)
qed

text \<open>
  A resume that is overtaken: the call asks for the layer's state, a terminate arrives, the watcher fans out and
  exits, and only then does the call insert the token it had prepared. The layer is terminated, the worker runs under
  a token that no signal has reached and that none reaches in any continuation in which it is not resumed again.
\<close>

definition escaped_example :: Cascade where
  "escaped_example =
     \<lparr>parent_token = \<lparr>ct_drain = True, ct_terminate = True, ct_reason = Some OperatorCtrlC\<rparr>,
      child_tokens = [(''w1'', new_cancel)], registering = [], asked = [], prepared = [], overtaken = [''w1''], phase = Exited\<rparr>"

theorem resume_escapes:
  "\<exists>c. cascade_reach c \<and> ct_terminate (parent_token c) \<and> registering c = [] \<and> prepared c = [] \<and> phase c = Exited \<and>
     (\<forall>c'. (\<lambda>x y. \<exists>a. a \<noteq> AskTerminated ''w1'' \<and> cascade_step a x y)\<^sup>*\<^sup>* c c' \<longrightarrow>
        hm_get plain ''w1'' (child_tokens c') = Some new_cancel)"
proof -
  have "schedule [Insert ''w1'', EagerCascade ''w1'', AskTerminated ''w1'', PrepareToken ''w1'' False,
     TerminateWith OperatorCtrlC, Watcher, Watcher, Watcher, Watcher, InsertPrepared ''w1'' new_cancel] new_cascade =
     Some escaped_example"
    by (simp add: schedule_eval escaped_example_def)
  then have r: "cascade_reach escaped_example" using schedule_reach cascade_reach.start by blast
  have "stuck ''w1'' new_cancel escaped_example" by (simp add: stuck_def escaped_example_def)
  from stuck_steps [OF _ this] show ?thesis
    using r by (intro exI [of _ escaped_example]) (auto simp: escaped_example_def stuck_def)
qed


section \<open>A kill hits its target and informs its parent\<close>

text \<open>The token of an actor, and the reprompt channel of a layer.\<close>

definition actor_token :: "DispatchState \<Rightarrow> string \<Rightarrow> CancelToken option" where
  "actor_token s a =
     (case hm_get plain a (cancels (workers (root s))) of
        Some t \<Rightarrow> Some t
      | None \<Rightarrow>
          (case hm_get plain a (subleads s) of
             Some l \<Rightarrow> Some (cancel l)
           | None \<Rightarrow>
               (case hm_get plain a (worker_layer_index s) of
                  Some (Some sid) \<Rightarrow>
                    Option.bind (hm_get plain sid (subleads s)) (\<lambda>l. hm_get plain a (cancels (workers l)))
                | _ \<Rightarrow> None)))"

definition reprompts :: "DispatchState \<Rightarrow> LayerRef \<Rightarrow> string list option" where
  "reprompts s p =
     (case p of RootLayer \<Rightarrow> reprompt_tx (root s)
      | SubLayer sid \<Rightarrow> Option.bind (hm_get plain sid (subleads s)) reprompt_tx)"

definition parent_of :: "DispatchState \<Rightarrow> string \<Rightarrow> LayerRef" where
  "parent_of s a =
     (if hm_get plain a (cancels (workers (root s))) \<noteq> None \<or> hm_get plain a (subleads s) \<noteq> None
      then RootLayer
      else case hm_get plain a (worker_layer_index s) of Some (Some sid) \<Rightarrow> SubLayer sid | _ \<Rightarrow> RootLayer)"

lemma send_reprompt_simps [simp]:
  "cancel (send_synthetic_reprompt m l) = cancel l" "workers (send_synthetic_reprompt m l) = workers l"
  "reprompt_tx (send_synthetic_reprompt m l) = map_option (\<lambda>sent. sent @ [m]) (reprompt_tx l)"
  by (simp_all add: send_synthetic_reprompt_def split: option.splits)

lemmas kill_defs = cancel_actor_with_reason_def cancel_and_find_parent_def actor_token_def

lemma kill_root_worker:
  assumes "hm_get plain target (cancels (workers (root s))) = Some t"
  shows "fst (cancel_actor_with_reason s target reason) = Inr ()"
    and "actor_token (snd (cancel_actor_with_reason s target reason)) a =
      (if a = target then Some (terminate_with_reason (operator_reason target) t) else actor_token s a)"
  using assms by (auto simp: kill_defs hm_simps option.map_ident split: option.splits bind_splits)

lemma kill_sublead:
  assumes "hm_get plain target (cancels (workers (root s))) = None"
    and "hm_get plain target (subleads s) = Some l"
  shows "fst (cancel_actor_with_reason s target reason) = Inr ()"
    and "actor_token (snd (cancel_actor_with_reason s target reason)) a =
      (if a = target then Some (terminate_with_reason (operator_reason target) (cancel l))
       else actor_token s a)"
  using assms by (auto simp: kill_defs hm_simps option.map_ident split: option.splits bind_splits)

lemma kill_subtree_worker:
  assumes "hm_get plain target (cancels (workers (root s))) = None"
    and "hm_get plain target (subleads s) = None"
    and "hm_get plain target (worker_layer_index s) = Some (Some sid)"
    and "hm_get plain sid (subleads s) = Some l"
    and "hm_get plain target (cancels (workers l)) = Some t"
  shows "fst (cancel_actor_with_reason s target reason) = Inr ()"
    and "actor_token (snd (cancel_actor_with_reason s target reason)) a =
      (if a = target then Some (terminate_with_reason (operator_reason target) t) else actor_token s a)"
  using assms by (auto simp: kill_defs hm_simps option.map_ident split: option.splits bind_splits)


lemma kill_unknown:
  assumes "actor_token s target = None"
  shows "\<exists>e. cancel_actor_with_reason s target reason = (Inl e, s)"
  using assms by (auto simp: kill_defs split: option.splits bind_splits)

lemma kill_reprompt:
  assumes "actor_token s target \<noteq> None" and "reason = Some m"
  shows "reprompts (snd (cancel_actor_with_reason s target reason)) p =
    (if p = parent_of s target then map_option (\<lambda>sent. sent @ [kill_message target m]) (reprompts s p)
     else reprompts s p)"
  using assms
  by (cases p) (auto simp: kill_defs reprompts_def parent_of_def hm_simps option.map_ident
      split: option.splits bind_splits if_splits)

text \<open>
  A kill by actor id succeeds exactly when the id has a token as a root worker, a sub-lead or a
  worker of a live sub-tree; it then terminates that token with the operator's reason and no other
  actor's, and appends the reason once to the reprompt channel of the target's direct parent, to no
  other layer's. An unknown id changes nothing.
\<close>

theorem kill_hits_target_only:
  "(actor_token s target = None \<longrightarrow>
      (\<exists>e. cancel_actor_with_reason s target reason = (Inl e, s))) \<and>
   (\<forall>t. actor_token s target = Some t \<longrightarrow>
      fst (cancel_actor_with_reason s target reason) = Inr () \<and>
      (\<forall>a. actor_token (snd (cancel_actor_with_reason s target reason)) a =
         (if a = target then Some (terminate_with_reason (operator_reason target) t)
          else actor_token s a)) \<and>
      (\<forall>m p. reason = Some m \<longrightarrow>
         reprompts (snd (cancel_actor_with_reason s target reason)) p =
           (if p = parent_of s target
            then map_option (\<lambda>sent. sent @ [kill_message target m]) (reprompts s p)
            else reprompts s p)))"
proof (intro conjI impI allI)
  fix t
  assume t: "actor_token s target = Some t"
  then consider (worker) "hm_get plain target (cancels (workers (root s))) = Some t"
    | (sublead) l where "hm_get plain target (cancels (workers (root s))) = None"
        "hm_get plain target (subleads s) = Some l" "cancel l = t"
    | (subtree) sid l where "hm_get plain target (cancels (workers (root s))) = None"
        "hm_get plain target (subleads s) = None"
        "hm_get plain target (worker_layer_index s) = Some (Some sid)"
        "hm_get plain sid (subleads s) = Some l" "hm_get plain target (cancels (workers l)) = Some t"
    unfolding actor_token_def by (auto split: option.splits simp: bind_eq_Some_conv)
  note cases = this
  show "fst (cancel_actor_with_reason s target reason) = Inr ()"
    using cases by cases (auto intro: kill_root_worker kill_sublead kill_subtree_worker)
  show "actor_token (snd (cancel_actor_with_reason s target reason)) a =
      (if a = target then Some (terminate_with_reason (operator_reason target) t)
       else actor_token s a)" for a
    using cases by cases (auto simp only: kill_root_worker kill_sublead kill_subtree_worker)
qed (use kill_unknown kill_reprompt in \<open>auto\<close>)


definition s1_layer :: LayerState where
  "s1_layer = (layer_new ''run'' base_manifest new_cancel ''S1'' PolicyBlock None new_store None)
     \<lparr>workers := new_workers\<lparr>cancels := [(''w1'', new_cancel), (''w2'', new_cancel)]\<rparr>,
      reprompt_tx := Some []\<rparr>"

definition s1_state :: DispatchState where
  "s1_state = base_state\<lparr>subleads := [(''S1'', s1_layer)],
     worker_layer_index := [(''w1'', Some ''S1''), (''w2'', Some ''S1'')]\<rparr>"

lemmas s1_defs = s1_state_def s1_layer_def base_state_def new_dispatch_def layer_new_def new_workers_def

theorem kill_hits_target_only_witness:
  "actor_token s1_state ''w1'' = Some new_cancel \<and>
   fst (cancel_actor_with_reason s1_state ''w1'' (Some ''stuck'')) = Inr () \<and>
   actor_token (snd (cancel_actor_with_reason s1_state ''w1'' (Some ''stuck''))) ''w2'' = Some new_cancel \<and>
   reprompts (snd (cancel_actor_with_reason s1_state ''w1'' (Some ''stuck''))) (SubLayer ''S1'') =
     Some [kill_message ''w1'' ''stuck''] \<and>
   fst (cancel_actor_with_reason s1_state ''w9'' None) \<noteq> Inr ()"
proof -
  have t: "actor_token s1_state ''w1'' = Some new_cancel"
    and t2: "actor_token s1_state ''w2'' = Some new_cancel"
    and t9: "actor_token s1_state ''w9'' = None"
    and p: "parent_of s1_state ''w1'' = SubLayer ''S1''"
    and r: "reprompts s1_state (SubLayer ''S1'') = Some []"
    by (simp_all add: actor_token_def parent_of_def reprompts_def s1_defs)
  show ?thesis
    using kill_hits_target_only [of s1_state "''w1''" "Some ''stuck''"]
      kill_hits_target_only [of s1_state "''w9''" None] t t2 t9 p r by auto
qed

end
