(* ===== verification/Approval_Ttl.thy ===== *)
theory Approval_Ttl
  imports Approval
begin

text \<open>
  What the TTL watcher does to the approvals of a layer, and when a connecting client's approval
  hand-over returns. The frame lemmas say which part of the run state each helper leaves alone.
\<close>

section \<open>Frames\<close>

named_theorems frame \<open>parts of the run state an approval helper does not touch\<close>

lemma upd_counters_frame [frame]:
  "approvals (root (upd_counters a f s)) = approvals (root s)"
  "control_writer (root (upd_counters a f s)) = control_writer (root s)"
  "oneshots (upd_counters a f s) = oneshots s" "subleads (upd_counters a f s) = subleads s"
  "event_log (upd_counters a f s) = event_log s" "audit (upd_counters a f s) = audit s"
  by (simp_all add: upd_counters_def)

lemma record_outcome_frame [frame]:
  "approvals (root (record_approval_outcome a ok s)) = approvals (root s)"
  "control_writer (root (record_approval_outcome a ok s)) = control_writer (root s)"
  "oneshots (record_approval_outcome a ok s) = oneshots s"
  "subleads (record_approval_outcome a ok s) = subleads s"
  by (simp_all add: record_approval_outcome_def frame)

lemma bump_frame [frame]:
  "approvals (root (bump_approval_requested a s)) = approvals (root s)"
  "control_writer (root (bump_approval_requested a s)) = control_writer (root s)"
  "oneshots (bump_approval_requested a s) = oneshots s"
  "subleads (bump_approval_requested a s) = subleads s"
  by (simp_all add: bump_approval_requested_def frame)

lemma record_last_frame [frame]:
  "root (record_last_approval_response a ok ttl now s) = root s"
  "oneshots (record_last_approval_response a ok ttl now s) = oneshots s"
  "subleads (record_last_approval_response a ok ttl now s) = subleads s"
  by (simp_all add: record_last_approval_response_def)

lemma oneshot_send_frame [frame]:
  "root (snd (oneshot_send ch r s)) = root s" "subleads (snd (oneshot_send ch r s)) = subleads s"
  by (simp_all add: oneshot_send_def split: option.splits)

lemma append_event_frame [frame]:
  "root (append_event t e s) = root s" "oneshots (append_event t e s) = oneshots s"
  by (simp_all add: append_event_def)

lemma notify_root_frame [frame]:
  "approvals (root (notify_root sev ev s)) = approvals (root s)"
  "control_writer (root (notify_root sev ev s)) = control_writer (root s)"
  "workers (root (notify_root sev ev s)) = workers (root s)"
  "oneshots (notify_root sev ev s) = oneshots s"
  by (simp_all add: notify_root_def split: option.splits)

lemma upd_approvals_frame [frame]:
  "approvals (root (upd_approvals f s)) = f (approvals (root s))"
  "control_writer (root (upd_approvals f s)) = control_writer (root s)"
  "workers (root (upd_approvals f s)) = workers (root s)"
  "oneshots (upd_approvals f s) = oneshots s" "subleads (upd_approvals f s) = subleads s"
  by (simp_all add: upd_approvals_def)

lemma wrap_frame [frame]:
  "root (snd (wrap_and_persist ev s)) = root s" "oneshots (snd (wrap_and_persist ev s)) = oneshots s"
  by (simp_all add: wrap_and_persist_def next_seq_def Let_def)

text \<open>The channel a send answers.\<close>

definition channel :: "string \<Rightarrow> DispatchState \<Rightarrow> Oneshot option" where
  "channel ch s = hm_get plain ch (oneshots s)"

definition answer_if_open :: "ApprovalResponse \<Rightarrow> Oneshot \<Rightarrow> Oneshot" where
  "answer_if_open resp c = (if os_open c then c\<lparr>os_sent := Some resp\<rparr> else c)"

lemma channel_send:
  "channel ch (snd (oneshot_send ch' resp s)) =
     (if ch = ch' then map_option (answer_if_open resp) (channel ch s) else channel ch s)"
  by (simp add: channel_def oneshot_send_def answer_if_open_def hm_simps split: option.splits)

lemma channel_frame [frame]:
  "channel ch (record_approval_outcome a ok s) = channel ch s"
  "channel ch (bump_approval_requested a s) = channel ch s"
  "channel ch (record_last_approval_response a ok ttl now s) = channel ch s"
  "channel ch (append_event t e s) = channel ch s" "channel ch (upd_approvals f s) = channel ch s"
  by (simp_all add: channel_def frame)

lemma apply_ttl_frame [frame]:
  "approvals (root (apply_ttl_fallback now r md s)) = approvals (root s)"
  "subleads (apply_ttl_fallback now r md s) = subleads s"
  "channel ch (apply_ttl_fallback now r md s) =
     (if ch = r then map_option (answer_if_open (ttl_response (fallback_of md))) (channel ch s)
      else channel ch s)"
  by (simp_all add: apply_ttl_fallback_def Let_def frame channel_send)

section \<open>The expiry scan\<close>

lemma scan_queue_spec:
  "scan_queue now qs = (filter (\<lambda>q. md_expired now (q_metadata q)) qs,
     filter (\<lambda>q. \<not> md_expired now (q_metadata q)) qs)"
  by (induction qs) auto

lemma expire_queue_entries_frame [frame]:
  "approvals (root (expire_queue_entries now qs s)) = approvals (root s)"
  by (induction qs arbitrary: s) (simp_all add: frame)

lemma find_absent: "k \<notin> f ` set xs \<Longrightarrow> find (\<lambda>x. f x = k) xs = None"
  by (induction xs) auto

lemma expire_queue_entries_channel:
  assumes "distinct (map q_responder qs)"
  shows "channel ch (expire_queue_entries now qs s) =
    (case find (\<lambda>q. q_responder q = ch) qs of
       Some q \<Rightarrow> map_option (answer_if_open (ttl_response (fallback_of (q_metadata q)))) (channel ch s)
     | None \<Rightarrow> channel ch s)"
  using assms
proof (induction qs arbitrary: s)
  case (Cons q qs)
  show ?case
  proof (cases "q_responder q = ch")
    case True
    then have "find (\<lambda>q. q_responder q = ch) qs = None" using Cons.prems by (intro find_absent) auto
    then show ?thesis using Cons True by (simp add: frame)
  next
    case False
    then show ?thesis using Cons by (simp add: frame split: option.splits)
  qed
qed simp

lemma root_bridge_remove:
  "layer_approvals RootLayer s = Some (approvals (root s))"
  "set_layer_approvals RootLayer a s = upd_approvals (\<lambda>_. a) s"
  by (simp_all add: layer_approvals_def set_layer_approvals_def upd_approvals_def)

lemma expire_bridge_queue [frame]:
  "queue (approvals (root (expire_bridge_entries RootLayer now ids s))) = queue (approvals (root s))"
  by (induction ids arbitrary: s)
    (simp_all add: root_bridge_remove frame split: option.splits)

lemma expire_bridge_entries_bridge:
  "bridge (approvals (root (expire_bridge_entries RootLayer now ids s))) =
     filter (\<lambda>e. fst e \<notin> set ids) (bridge (approvals (root s)))"
proof (induction ids arbitrary: s)
  case (Cons i ids)
  have none: "filter (\<lambda>e. fst e \<notin> set (i # ids)) b = filter (\<lambda>e. fst e \<notin> set ids) b"
    if "hm_get plain i b = None" for b :: "(string \<times> BridgeEntry) list"
    using that by (intro filter_cong) (auto simp: hm_get_None_iff)
  show ?case
    using Cons.IH none
    by (auto simp: root_bridge_remove frame hm_remove_def split: option.splits intro: filter_cong)
qed simp


text \<open>
  Well-formed approvals: every responder is that of its request, and a request is at most once in
  the queue and the bridge together.
\<close>

definition wf_approvals :: "ApprovalState \<Rightarrow> bool" where
  "wf_approvals a \<longleftrightarrow> hm_wf plain (bridge a) \<and> distinct (map q_request_id (queue a)) \<and>
     (\<forall>q\<in>set (queue a). q_responder q = q_request_id q \<and> hm_get plain (q_request_id q) (bridge a) = None) \<and>
     (\<forall>(rid, e)\<in>set (bridge a). be_responder e = rid)"

lemma expire_bridge_entries_channel:
  assumes "\<forall>(rid, e)\<in>set (bridge (approvals (root s))). be_responder e = rid" and "distinct ids"
  shows "channel ch (expire_bridge_entries RootLayer now ids s) =
    (case hm_get plain ch (bridge (approvals (root s))) of
       Some e \<Rightarrow> if ch \<in> set ids
                then map_option (answer_if_open (ttl_response (fallback_of (be_metadata e)))) (channel ch s)
                else channel ch s
     | None \<Rightarrow> channel ch s)"
  using assms
proof (induction ids arbitrary: s)
  case (Cons i ids)
  show ?case
  proof (cases "hm_get plain i (bridge (approvals (root s)))")
    case None
    then show ?thesis using Cons by (auto simp: root_bridge_remove split: option.splits)
  next
    case (Some e)
    let ?s = "apply_ttl_fallback now (be_responder e) (be_metadata e)
      (upd_approvals (\<lambda>_. (approvals (root s))\<lparr>bridge := hm_remove plain i (bridge (approvals (root s)))\<rparr>) s)"
    have r: "be_responder e = i" using hm_plain_get_in [OF Some] Cons.prems(1) by auto
    have b: "bridge (approvals (root ?s)) = hm_remove plain i (bridge (approvals (root s)))"
      by (simp add: frame)
    have "\<forall>(rid, e)\<in>set (bridge (approvals (root ?s))). be_responder e = rid"
      using Cons.prems(1) unfolding b by (auto simp: hm_remove_def)
    note IH = Cons.IH [OF this]
    have "expire_bridge_entries RootLayer now (i # ids) s = expire_bridge_entries RootLayer now ids ?s"
      using Some by (simp add: root_bridge_remove)
    then show ?thesis using IH Cons.prems(2) Some r unfolding b
      by (auto simp: frame hm_simps split: option.splits)
  qed
qed (auto split: option.splits)

lemma expired_bridge_ids_mem:
  assumes "hm_wf plain br"
  shows "rid \<in> set (expired_bridge_ids now br) \<longleftrightarrow>
    (\<exists>e. hm_get plain rid br = Some e \<and> md_expired now (be_metadata e))"
  using assms by (auto simp: expired_bridge_ids_def image_iff dest: hm_in_get hm_plain_get_in)

text \<open>The answer that an expiry at \<open>now\<close> owes a request, if any.\<close>

definition owed :: "int \<Rightarrow> ApprovalState \<Rightarrow> string \<Rightarrow> ApprovalResponse option" where
  "owed now a rid =
     (case hm_get plain rid (bridge a) of
        Some e \<Rightarrow> if md_expired now (be_metadata e) then Some (ttl_response (fallback_of (be_metadata e))) else None
      | None \<Rightarrow>
          (case find (\<lambda>q. q_request_id q = rid) (queue a) of
             Some q \<Rightarrow> if md_expired now (q_metadata q) then Some (ttl_response (fallback_of (q_metadata q))) else None
           | None \<Rightarrow> None))"

lemma find_filter_distinct:
  "distinct (map f xs) \<Longrightarrow> find (\<lambda>x. f x = k) (filter P xs) =
     (case find (\<lambda>x. f x = k) xs of Some x \<Rightarrow> if P x then Some x else None | None \<Rightarrow> None)"
proof (induction xs)
  case (Cons x xs)
  have "find (\<lambda>x. f x = k) (filter P xs) = None" if "f x = k"
    using Cons.prems that by (intro find_absent) auto
  then show ?case using Cons by (auto split: option.splits)
qed simp


text \<open>
  One pass of the TTL watcher over the root layer removes from the queue and from the bridge
  exactly the entries whose age has reached their TTL and whose fallback is not to block, answers
  each of their requests that still listens with its fallback marked as a TTL response, and leaves
  every other entry and every other channel alone.
\<close>

theorem ttl_watcher_spec:
  assumes "wf_approvals (approvals (root s))"
  shows "queue (approvals (root (expire_layer_approvals RootLayer now s))) =
      filter (\<lambda>q. \<not> md_expired now (q_metadata q)) (queue (approvals (root s))) \<and>
    bridge (approvals (root (expire_layer_approvals RootLayer now s))) =
      filter (\<lambda>(_, e). \<not> md_expired now (be_metadata e)) (bridge (approvals (root s))) \<and>
    (\<forall>rid. channel rid (expire_layer_approvals RootLayer now s) =
      (case owed now (approvals (root s)) rid of
         Some resp \<Rightarrow> map_option (answer_if_open resp) (channel rid s)
       | None \<Rightarrow> channel rid s))"
proof -
  let ?a = "approvals (root s)"
  let ?kept = "filter (\<lambda>q. \<not> md_expired now (q_metadata q)) (queue ?a)"
  let ?gone = "filter (\<lambda>q. md_expired now (q_metadata q)) (queue ?a)"
  let ?ids = "expired_bridge_ids now (bridge ?a)"
  let ?s1 = "expire_queue_entries now ?gone (upd_approvals (\<lambda>_. ?a\<lparr>queue := ?kept\<rparr>) s)"
  have wf: "hm_wf plain (bridge ?a)" "distinct (map q_request_id (queue ?a))"
    "\<forall>q\<in>set (queue ?a). q_responder q = q_request_id q \<and> hm_get plain (q_request_id q) (bridge ?a) = None"
    "\<forall>(rid, e)\<in>set (bridge ?a). be_responder e = rid"
    using assms unfolding wf_approvals_def by auto
  have a1: "approvals (root ?s1) = ?a\<lparr>queue := ?kept\<rparr>" by (simp add: frame)
  have e: "expire_layer_approvals RootLayer now s = expire_bridge_entries RootLayer now ?ids ?s1"
    by (simp add: expire_layer_approvals_def root_bridge_remove scan_queue_spec a1)
  have q: "queue (approvals (root (expire_layer_approvals RootLayer now s))) = ?kept"
    unfolding e by (simp add: frame)
  have b: "bridge (approvals (root (expire_layer_approvals RootLayer now s))) =
      filter (\<lambda>(_, e). \<not> md_expired now (be_metadata e)) (bridge ?a)"
    unfolding e expire_bridge_entries_bridge a1
    using wf(1) by (auto simp: expired_bridge_ids_mem dest: hm_in_get intro!: filter_cong)
  have ids: "distinct ?ids" using wf(1)
    unfolding expired_bridge_ids_def hm_wf_def
    by (intro distinct_map_filter) (simp add: comp_def)
  have resp: "q_responder q = q_request_id q" if "q \<in> set (queue ?a)" for q using wf(3) that by blast
  have dq: "distinct (map q_responder ?gone)"
    using wf(2) resp by (auto simp: distinct_map inj_on_def)
  have fr: "find (\<lambda>q. q_responder q = rid) ?gone = find (\<lambda>q. q_request_id q = rid) ?gone" for rid
    using resp by (intro find_cong) auto
  have fq: "find (\<lambda>q. q_responder q = rid) ?gone =
      (case find (\<lambda>q. q_request_id q = rid) (queue ?a) of
         Some q \<Rightarrow> if md_expired now (q_metadata q) then Some q else None | None \<Rightarrow> None)" for rid
    unfolding fr by (rule find_filter_distinct [OF wf(2)])
  have "channel rid (expire_layer_approvals RootLayer now s) =
      (case owed now ?a rid of
         Some resp \<Rightarrow> map_option (answer_if_open resp) (channel rid s) | None \<Rightarrow> channel rid s)" for rid
  proof -
    have c1: "channel rid ?s1 =
      (case find (\<lambda>q. q_responder q = rid) ?gone of
         Some q \<Rightarrow> map_option (answer_if_open (ttl_response (fallback_of (q_metadata q)))) (channel rid s)
       | None \<Rightarrow> channel rid s)"
      unfolding expire_queue_entries_channel [OF dq] by (simp add: frame split: option.splits)
    have c2: "channel rid (expire_layer_approvals RootLayer now s) =
      (case hm_get plain rid (bridge ?a) of
         Some e \<Rightarrow> if rid \<in> set ?ids
                  then map_option (answer_if_open (ttl_response (fallback_of (be_metadata e)))) (channel rid ?s1)
                  else channel rid ?s1
       | None \<Rightarrow> channel rid ?s1)"
      using expire_bridge_entries_channel [of ?s1 ?ids rid now] wf(4) ids a1 unfolding e by simp
    show ?thesis
    proof (cases "hm_get plain rid (bridge ?a)")
      case None
      then show ?thesis unfolding c2 c1 fq owed_def by (auto split: option.splits)
    next
      case (Some x)
      have "find (\<lambda>q. q_request_id q = rid) (queue ?a) = None"
        using wf(3) Some by (intro find_absent) auto
      then show ?thesis using Some wf(1) unfolding c2 c1 fq owed_def
        by (simp add: expired_bridge_ids_mem)
    qed
  qed
  then show ?thesis using q b by blast
qed


text \<open>One approval in the queue past its TTL, one in the bridge that blocks for ever.\<close>

definition ttl_state :: DispatchState where
  "ttl_state = base_state
     \<lparr>root := (root base_state)\<lparr>approvals := (new_approvals PolicyBlock)
        \<lparr>queue := [\<lparr>q_request_id = ''r1'', q_responder = ''r1'',
           q_metadata = \<lparr>md_task_id = ''w1'', md_summary = ''rm'', md_plan = None, md_kind = KindAction,
             md_ttl_secs = Some 5, md_fallback = Some FallbackAutoReject, md_created_at = 0\<rparr>\<rparr>],
         bridge := [(''r2'', \<lparr>be_responder = ''r2'',
           be_metadata = \<lparr>md_task_id = ''w2'', md_summary = ''ls'', md_plan = None, md_kind = KindAction,
             md_ttl_secs = Some 5, md_fallback = None, md_created_at = 0\<rparr>\<rparr>)]\<rparr>\<rparr>,
      oneshots := [(''r1'', \<lparr>os_open = True, os_sent = None\<rparr>),
        (''r2'', \<lparr>os_open = True, os_sent = None\<rparr>)]\<rparr>"

theorem ttl_watcher_spec_witness:
  "wf_approvals (approvals (root ttl_state)) \<and>
   queue (approvals (root (expire_layer_approvals RootLayer (6 * ns_per_sec) ttl_state))) = [] \<and>
   length (bridge (approvals (root (expire_layer_approvals RootLayer (6 * ns_per_sec) ttl_state)))) = 1 \<and>
   channel ''r1'' (expire_layer_approvals RootLayer (6 * ns_per_sec) ttl_state) =
     Some \<lparr>os_open = True, os_sent = Some (ttl_response FallbackAutoReject)\<rparr> \<and>
   channel ''r2'' (expire_layer_approvals RootLayer (6 * ns_per_sec) ttl_state) =
     Some \<lparr>os_open = True, os_sent = None\<rparr>"
proof -
  have wf: "wf_approvals (approvals (root ttl_state))"
    by (simp add: wf_approvals_def ttl_state_def new_approvals_def hm_wf_def)
  have age: "clamped_age_secs (6 * ns_per_sec) 0 = 6"
    by (simp add: clamped_age_secs_def num_seconds_def ns_per_sec_def)
  show ?thesis
    using ttl_watcher_spec [OF wf, of "6 * ns_per_sec"] wf age
    by (simp add: ttl_state_def new_approvals_def owed_def md_expired_def fallback_of_def channel_def
        answer_if_open_def)
qed


section \<open>The hand-over to a connecting client\<close>

definition chan_len :: "DispatchState \<Rightarrow> nat \<Rightarrow> bool" where
  "chan_len s n \<longleftrightarrow>
     (\<exists>w. control_writer (root s) = Some w \<and> cw_open w \<and> length (cw_queue w) = n) \<and>
     n \<le> CONTROL_EVENT_QUEUE_CAP"

definition same_approvals :: "DispatchState \<Rightarrow> DispatchState \<Rightarrow> bool" where
  "same_approvals s s' \<longleftrightarrow> approvals (root s') = approvals (root s) \<and> oneshots s' = oneshots s"

lemma enqueue_full: "chan_len s n \<Longrightarrow> enqueue_envelope ev s = None \<longleftrightarrow> n = CONTROL_EVENT_QUEUE_CAP"
  by (auto simp: chan_len_def enqueue_envelope_def try_send_def wrap_and_persist_def next_seq_def Let_def
      split: if_splits)

lemma enqueue_Some:
  "chan_len s n \<Longrightarrow> enqueue_envelope ev s = Some s' \<Longrightarrow> chan_len s' (Suc n) \<and> same_approvals s s'"
  by (auto simp: chan_len_def enqueue_envelope_def try_send_def wrap_and_persist_def next_seq_def Let_def
      same_approvals_def split: if_splits)

lemma replay_full:
  "chan_len s n \<Longrightarrow> replay evs s = None \<longleftrightarrow> n + length evs > CONTROL_EVENT_QUEUE_CAP"
proof (induction evs arbitrary: s n)
  case Nil
  then show ?case by (simp add: chan_len_def)
next
  case (Cons ev evs)
  show ?case
  proof (cases "enqueue_envelope ev s")
    case None
    then show ?thesis using enqueue_full [OF Cons.prems] by simp
  next
    case (Some s')
    then have "n \<noteq> CONTROL_EVENT_QUEUE_CAP" using enqueue_full [OF Cons.prems, of ev] by auto
    then show ?thesis using Cons.IH [of s' "Suc n"] enqueue_Some [OF Cons.prems Some] Some by simp
  qed
qed

lemma upd_chan_len: "chan_len (upd_approvals f s) n = chan_len s n"
  by (simp add: chan_len_def frame)

definition entry_of :: "QueuedApproval \<Rightarrow> BridgeEntry" where
  "entry_of q = \<lparr>be_responder = q_responder q, be_metadata = q_metadata q\<rparr>"

lemma drain_full:
  "chan_len s n \<Longrightarrow> drain_queue qs s = None \<longleftrightarrow> n + length qs > CONTROL_EVENT_QUEUE_CAP"
proof (induction qs arbitrary: s n)
  case Nil
  then show ?case by (simp add: chan_len_def)
next
  case (Cons q qs)
  let ?s = "bridge_insert (q_request_id q) (entry_of q) (upd_approvals (\<lambda>a. a\<lparr>queue := qs\<rparr>) s)"
  have c: "chan_len ?s n" using Cons.prems by (simp add: bridge_insert_def upd_chan_len)
  show ?case
  proof (cases "enqueue_envelope (request_event (q_request_id q) (q_metadata q)) ?s")
    case None
    then show ?thesis using enqueue_full [OF c] by (simp add: entry_of_def Let_def)
  next
    case (Some s')
    then have "n \<noteq> CONTROL_EVENT_QUEUE_CAP"
      using enqueue_full [OF c, of "request_event (q_request_id q) (q_metadata q)"] by auto
    then show ?thesis using Cons.IH [of s' "Suc n"] enqueue_Some [OF c Some] Some
      by (simp add: entry_of_def Let_def)
  qed
qed

lemma drain_Some:
  assumes "chan_len s n" and "drain_queue qs s = Some s'" and "distinct (map q_request_id qs)"
    and "\<forall>q\<in>set qs. hm_get plain (q_request_id q) (bridge (approvals (root s))) = None"
  shows "chan_len s' (n + length qs) \<and> oneshots s' = oneshots s \<and>
    bridge (approvals (root s')) =
      bridge (approvals (root s)) @ map (\<lambda>q. (q_request_id q, entry_of q)) qs"
  using assms
proof (induction qs arbitrary: s n)
  case (Cons q qs)
  let ?s = "bridge_insert (q_request_id q) (entry_of q) (upd_approvals (\<lambda>a. a\<lparr>queue := qs\<rparr>) s)"
  have c: "chan_len ?s n" using Cons.prems(1) by (simp add: bridge_insert_def upd_chan_len)
  obtain s1 where s1: "enqueue_envelope (request_event (q_request_id q) (q_metadata q)) ?s = Some s1"
    and d: "drain_queue qs s1 = Some s'"
    using Cons.prems(2) by (auto simp: entry_of_def Let_def split: option.splits)
  have n: "hm_get plain (q_request_id q) (bridge (approvals (root s))) = None" using Cons.prems(4) by simp
  have b: "bridge (approvals (root s1)) = bridge (approvals (root s)) @ [(q_request_id q, entry_of q)]"
    using enqueue_Some [OF c s1] hm_insert_new [OF n]
    by (simp add: same_approvals_def bridge_insert_def frame)
  have o: "oneshots s1 = oneshots s"
    using enqueue_Some [OF c s1] by (simp add: same_approvals_def bridge_insert_def frame)
  have "\<forall>x\<in>set qs. hm_get plain (q_request_id x) (bridge (approvals (root s1))) = None"
  proof
    fix x
    assume "x \<in> set qs"
    then have "q_request_id x \<noteq> q_request_id q"
      "hm_get plain (q_request_id x) (bridge (approvals (root s))) = None"
      using Cons.prems(3,4) by (auto simp: image_iff)
    then show "hm_get plain (q_request_id x) (bridge (approvals (root s1))) = None"
      unfolding b by (simp add: hm_get_None_iff)
  qed
  then have "chan_len s' (Suc n + length qs) \<and> oneshots s' = oneshots s1 \<and>
      bridge (approvals (root s')) =
        bridge (approvals (root s1)) @ map (\<lambda>q. (q_request_id q, entry_of q)) qs"
    using Cons.IH [OF conjunct1 [OF enqueue_Some [OF c s1]] d] Cons.prems(3) by simp
  then show ?case unfolding o b by simp
qed simp

text \<open>The requests whose caller still waits.\<close>

definition listening :: "string \<Rightarrow> DispatchState \<Rightarrow> bool" where
  "listening rid s \<longleftrightarrow> \<not> oneshot_closed rid s"

lemma install_frame:
  "approvals (root (snd (install_writer wid s))) = approvals (root s)"
  "oneshots (snd (install_writer wid s)) = oneshots s" "chan_len (snd (install_writer wid s)) 0"
  by (cases "control_writer (root s)";
      simp add: install_writer_def chan_len_def Let_def wrap_and_persist_def next_seq_def)+


definition handover_size :: "DispatchState \<Rightarrow> nat" where
  "handover_size s =
     length (queue (approvals (root s))) +
     length (filter (\<lambda>q. listening (q_request_id q) s) (queue (approvals (root s)))) +
     length (filter (\<lambda>(rid, _). listening rid s) (bridge (approvals (root s))))"

text \<open>
  The approval hand-over of a connecting client returns exactly when the envelopes it sends fit
  the connection's channel of 512: one per queued request, one more for each of them whose caller
  still waits (they are replayed from the bridge they were just moved to), and one per waiting bridge
  entry. With more, the call blocks for good with the queue lock held, because the task that empties
  the channel is spawned only afterwards.
\<close>

theorem connect_blocks_iff:
  assumes "wf_approvals (approvals (root s))"
  shows "connect_writer wid s = None \<longleftrightarrow> handover_size s > CONTROL_EVENT_QUEUE_CAP"
proof -
  let ?i = "snd (install_writer wid s)"
  let ?q = "queue (approvals (root s))"
  let ?b = "bridge (approvals (root s))"
  have wf: "distinct (map q_request_id ?q)"
    "\<forall>q\<in>set ?q. q_responder q = q_request_id q \<and> hm_get plain (q_request_id q) ?b = None"
    "\<forall>(rid, e)\<in>set ?b. be_responder e = rid"
    using assms unfolding wf_approvals_def by auto
  have i: "chan_len ?i 0" "approvals (root ?i) = approvals (root s)" "oneshots ?i = oneshots s"
    by (simp_all add: install_frame)
  show ?thesis
  proof (cases "drain_queue ?q ?i")
    case None
    then have "length ?q > CONTROL_EVENT_QUEUE_CAP" using drain_full [OF i(1), of ?q] by simp
    then show ?thesis using None by (simp add: connect_writer_def i(2) handover_size_def Let_def)
  next
    case (Some s1)
    then have d: "chan_len s1 (length ?q)" "oneshots s1 = oneshots s"
      "bridge (approvals (root s1)) = ?b @ map (\<lambda>q. (q_request_id q, entry_of q)) ?q"
      using drain_Some [OF i(1) Some wf(1)] wf(2) i by simp_all
    have l: "\<not> oneshot_closed rid s1 \<longleftrightarrow> listening rid s" for rid
      by (simp add: listening_def oneshot_closed_def d(2))
    have b: "filter (\<lambda>(_, e). listening (be_responder e) s) ?b = filter (\<lambda>(rid, _). listening rid s) ?b"
      using wf(3) by (intro filter_cong) auto
    have q: "filter (\<lambda>q. listening (q_responder q) s) ?q = filter (\<lambda>q. listening (q_request_id q) s) ?q"
      using wf(2) by (intro filter_cong) auto
    have live: "length (live_bridge s1) =
        length (filter (\<lambda>(rid, _). listening rid s) ?b) +
        length (filter (\<lambda>q. listening (q_request_id q) s) ?q)"
      unfolding live_bridge_def d(3) by (simp add: b filter_map comp_def entry_of_def l q)
    have "connect_writer wid s = None \<longleftrightarrow> length ?q + length (live_bridge s1) > CONTROL_EVENT_QUEUE_CAP"
      using replay_full [OF d(1)] Some by (simp add: connect_writer_def i(2) Let_def)
    then show ?thesis unfolding live handover_size_def by (simp add: ac_simps)
  qed
qed

text \<open>A run with \<open>n\<close> approvals queued before any client connected.\<close>

definition nth_rid :: "nat \<Rightarrow> string" where
  "nth_rid i = replicate i CHR ''r''"

definition queued_state :: "nat \<Rightarrow> DispatchState" where
  "queued_state n = base_state
     \<lparr>root := (root base_state)\<lparr>approvals := (new_approvals PolicyBlock)
        \<lparr>queue := map (\<lambda>i. \<lparr>q_request_id = nth_rid i, q_responder = nth_rid i,
           q_metadata = \<lparr>md_task_id = ''w'', md_summary = [], md_plan = None, md_kind = KindAction,
             md_ttl_secs = Some 3600, md_fallback = Some FallbackAutoReject, md_created_at = 0\<rparr>\<rparr>)
           [0..<n]\<rparr>\<rparr>,
      oneshots := map (\<lambda>i. (nth_rid i, \<lparr>os_open = True, os_sent = None\<rparr>)) [0..<n]\<rparr>"

lemma nth_rid_inj: "nth_rid i = nth_rid j \<longleftrightarrow> i = j"
  unfolding nth_rid_def by (metis length_replicate)

lemma queued_wf: "wf_approvals (approvals (root (queued_state n)))"
  by (auto simp: wf_approvals_def queued_state_def new_approvals_def hm_wf_def distinct_map inj_on_def
      nth_rid_inj)

lemma queued_listening: "i < n \<Longrightarrow> listening (nth_rid i) (queued_state n)"
proof -
  assume "i < n"
  then have "(nth_rid i, \<lparr>os_open = True, os_sent = None\<rparr>) \<in> set (oneshots (queued_state n))"
    by (auto simp: queued_state_def)
  moreover have "hm_wf plain (oneshots (queued_state n))"
    by (auto simp: queued_state_def hm_wf_def distinct_map comp_def inj_on_def nth_rid_inj)
  ultimately show ?thesis by (simp add: listening_def oneshot_closed_def hm_in_get)
qed

lemma queued_handover: "handover_size (queued_state n) = 2 * n"
proof -
  have q: "queue (approvals (root (queued_state n))) = map (\<lambda>i. \<lparr>q_request_id = nth_rid i, q_responder = nth_rid i,
           q_metadata = \<lparr>md_task_id = ''w'', md_summary = [], md_plan = None, md_kind = KindAction,
             md_ttl_secs = Some 3600, md_fallback = Some FallbackAutoReject, md_created_at = 0\<rparr>\<rparr>) [0..<n]"
    "bridge (approvals (root (queued_state n))) = []"
    by (simp_all add: queued_state_def new_approvals_def)
  have "filter (\<lambda>i. listening (nth_rid i) (queued_state n)) [0..<n] = [0..<n]"
    by (simp add: filter_id_conv queued_listening)
  then show ?thesis unfolding handover_size_def q by (simp add: filter_map comp_def)
qed

theorem connect_blocks_iff_witness:
  "wf_approvals (approvals (root (queued_state 257))) \<and>
   connect_writer ''c1'' (queued_state 257) = None \<and>
   connect_writer ''c1'' (queued_state 256) \<noteq> None"
  using connect_blocks_iff [OF queued_wf, of "''c1''" 257] connect_blocks_iff [OF queued_wf, of "''c1''" 256]
    queued_wf [of 257]
  by (simp only: queued_handover) (simp add: CONTROL_EVENT_QUEUE_CAP_def)

end
