(* ===== verification/Communication.thy ===== *)
theory Communication
  imports Dispatch_Ops "HOL-Library.Product_Lexorder"
begin

text \<open>
  The directional communication plane (\<^verbatim>\<open>communication.rs\<close>): mailbox messages, artifacts with
  grants, activity counters, the append-only journal and its replay when a run is resumed. The store
  is a record of its own; the topology it consults (who is whose parent) is the run state. What the
  environment decides is an argument: the fresh identifier, the clock, whether the file system calls
  fail, and whether a journal line is written, skipped or torn. Base64 and SHA-256 are functions the
  handlers take as parameters. Artifact files are a table from artifact id to bytes.
\<close>

section \<open>Data\<close>

datatype CommunicationError =
    CommDisabled_e
  | MissingIdentity
  | UnknownActor string
  | CommNotFound string
  | CommForbidden string
  | MessageTooLarge nat nat
  | ArtifactTooLarge nat nat
  | ArtifactCountExceeded string nat
  | InvalidBase64 string
  | Storage string
  | InvalidScope string

record Message =
  message_id :: string
  msg_from :: string
  msg_to :: string
  subject :: string
  body :: string
  refs :: "string list"
  msg_created_at :: int
  acked_by :: "string list"

record MessageSummary =
  ms_message_id :: string
  ms_from :: string
  ms_to :: string
  ms_subject :: string
  ms_refs :: "string list"
  ms_created_at :: int
  ms_acked_by :: "string list"

record StoredMessage =
  sm_message_id :: string
  sm_from :: string
  sm_to :: string
  sm_subject :: string
  sm_body :: string
  sm_refs :: "string list"
  sm_created_at :: int
  sm_acked_by :: "string set"

definition message_summary :: "StoredMessage \<Rightarrow> MessageSummary" where
  "message_summary m =
     \<lparr>ms_message_id = sm_message_id m, ms_from = sm_from m, ms_to = sm_to m,
      ms_subject = sm_subject m, ms_refs = sm_refs m, ms_created_at = sm_created_at m,
      ms_acked_by = sorted_list_of_set (sm_acked_by m)\<rparr>"

definition message_full :: "StoredMessage \<Rightarrow> Message" where
  "message_full m =
     \<lparr>message_id = sm_message_id m, msg_from = sm_from m, msg_to = sm_to m, subject = sm_subject m,
      body = sm_body m, refs = sm_refs m, msg_created_at = sm_created_at m,
      acked_by = sorted_list_of_set (sm_acked_by m)\<rparr>"

record ArtifactMetadata =
  artifact_id :: string
  uri :: string
  art_owner :: string
  art_name :: string
  mime_type :: "string option"
  size_bytes :: u64
  sha256 :: string
  art_created_at :: int
  meta_grants :: "string list"

record StoredArtifact =
  sa_metadata :: ArtifactMetadata
  sa_path :: string
  sa_grants :: "string set"

definition artifact_metadata :: "StoredArtifact \<Rightarrow> ArtifactMetadata" where
  "artifact_metadata a = (sa_metadata a)\<lparr>meta_grants := sorted_list_of_set (sa_grants a)\<rparr>"

datatype JournalRecord =
    MessageSend Message
  | MessageAck string string
  | ArtifactPut ArtifactMetadata
  | ArtifactGrant string string string

record CommunicationActivityCounters =
  message_ops :: u64
  artifact_ops :: u64

definition zero_comm_counters :: CommunicationActivityCounters where
  "zero_comm_counters = \<lparr>message_ops = 0, artifact_ops = 0\<rparr>"

text \<open>
  The journal: one entry per line, \<open>None\<close> for a line that does not parse; \<open>torn_tail\<close> when the
  file ends in a partial line.
\<close>

record Journal =
  lines :: "JournalRecord option list"
  torn_tail :: bool

record CommunicationStore =
  messages :: "(string \<times> StoredMessage) list"
  artifacts :: "(string \<times> StoredArtifact) list"
  activity :: "(string \<times> CommunicationActivityCounters) list"
  journal :: Journal
  artifact_files :: "(string \<times> bytes) list"

datatype AppendIo = Written | Skipped | Torn

text \<open>What the environment contributes to one call.\<close>

record CallIo =
  io_uuid :: string
  io_now :: int
  io_mkdir_error :: "string option"
  io_write_error :: "string option"
  io_append :: AppendIo

section \<open>Activity and journal\<close>

definition upd_activity ::
  "string \<Rightarrow> (CommunicationActivityCounters \<Rightarrow> CommunicationActivityCounters) \<Rightarrow>
     (string \<times> CommunicationActivityCounters) list \<Rightarrow> (string \<times> CommunicationActivityCounters) list" where
  "upd_activity actor f m =
     (if actor = [] then m
      else hm_insert plain actor
        (f (case hm_get plain actor m of Some c \<Rightarrow> c | None \<Rightarrow> zero_comm_counters)) m)"

definition bump_message_ops :: "CommunicationActivityCounters \<Rightarrow> CommunicationActivityCounters" where
  "bump_message_ops c = c\<lparr>message_ops := message_ops c + 1\<rparr>"

definition bump_artifact_ops :: "CommunicationActivityCounters \<Rightarrow> CommunicationActivityCounters" where
  "bump_artifact_ops c = c\<lparr>artifact_ops := artifact_ops c + 1\<rparr>"

definition note_message_op :: "string \<Rightarrow> CommunicationStore \<Rightarrow> CommunicationStore" where
  "note_message_op actor c = c\<lparr>activity := upd_activity actor bump_message_ops (activity c)\<rparr>"

definition note_artifact_op :: "string \<Rightarrow> CommunicationStore \<Rightarrow> CommunicationStore" where
  "note_artifact_op actor c = c\<lparr>activity := upd_activity actor bump_artifact_ops (activity c)\<rparr>"

text \<open>\<^verbatim>\<open>journal_append\<close>: a record written after a torn one continues its line and is lost with it.\<close>

definition journal_append :: "AppendIo \<Rightarrow> JournalRecord \<Rightarrow> CommunicationStore \<Rightarrow> CommunicationStore" where
  "journal_append io r c =
     c\<lparr>journal :=
       (let j = journal c in
        case io of
          Skipped \<Rightarrow> j
        | Torn \<Rightarrow> j\<lparr>torn_tail := True\<rparr>
        | Written \<Rightarrow>
            if torn_tail j then \<lparr>lines = lines j @ [None], torn_tail = False\<rparr>
            else j\<lparr>lines := lines j @ [Some r]\<rparr>)\<rparr>"

definition apply_journal_record :: "JournalRecord \<Rightarrow> CommunicationStore \<Rightarrow> CommunicationStore" where
  "apply_journal_record r c =
     (case r of
        MessageSend m \<Rightarrow>
          c\<lparr>activity := upd_activity (msg_from m) bump_message_ops (activity c),
            messages := hm_insert plain (message_id m)
              \<lparr>sm_message_id = message_id m, sm_from = msg_from m, sm_to = msg_to m,
               sm_subject = subject m, sm_body = body m, sm_refs = refs m,
               sm_created_at = msg_created_at m, sm_acked_by = set (acked_by m)\<rparr> (messages c)\<rparr>
      | MessageAck mid who \<Rightarrow>
          c\<lparr>messages := hm_update mid (\<lambda>m. m\<lparr>sm_acked_by := insert who (sm_acked_by m)\<rparr>) (messages c),
            activity := upd_activity who bump_message_ops (activity c)\<rparr>
      | ArtifactPut md \<Rightarrow>
          c\<lparr>activity := upd_activity (art_owner md) bump_artifact_ops (activity c),
            artifacts := hm_insert plain (artifact_id md)
              \<lparr>sa_metadata = md, sa_path = artifact_id md, sa_grants = set (meta_grants md)\<rparr>
              (artifacts c)\<rparr>
      | ArtifactGrant aid dst who \<Rightarrow>
          c\<lparr>artifacts := hm_update aid (\<lambda>a. a\<lparr>sa_grants := insert dst (sa_grants a)\<rparr>) (artifacts c),
            activity := upd_activity who bump_artifact_ops (activity c)\<rparr>)"

fun replay_journal :: "JournalRecord option list \<Rightarrow> CommunicationStore \<Rightarrow> CommunicationStore" where
  "replay_journal [] c = c"
| "replay_journal (None # ls) c = replay_journal ls c"
| "replay_journal (Some r # ls) c = replay_journal ls (apply_journal_record r c)"

text \<open>\<^verbatim>\<open>CommunicationStore::new\<close> over what a previous dispatcher left in the run directory.\<close>

definition comm_new :: "Journal \<Rightarrow> (string \<times> bytes) list \<Rightarrow> CommunicationStore" where
  "comm_new j files =
     replay_journal (lines j)
       \<lparr>messages = [], artifacts = [], activity = [], journal = j, artifact_files = files\<rparr>"

definition empty_journal :: Journal where
  "empty_journal = \<lparr>lines = [], torn_tail = False\<rparr>"

section \<open>Topology\<close>

definition worker_parent :: "DispatchState \<Rightarrow> string \<Rightarrow> string option" where
  "worker_parent s actor =
     (case hm_get plain actor (worker_layer_index s) of
        Some owner \<Rightarrow> Some (case owner of Some sid \<Rightarrow> sid | None \<Rightarrow> lead_id (root s))
      | None \<Rightarrow>
          if hm_get plain actor (states (workers (root s))) \<noteq> None then Some (lead_id (root s))
          else
            (case find (\<lambda>(_, l). hm_get plain actor (states (workers l)) \<noteq> None) (subleads s) of
               Some (sid, _) \<Rightarrow> Some sid
             | None \<Rightarrow>
                 map_option lead_id
                   (find (\<lambda>l. hm_get plain actor (states (workers l)) \<noteq> None)
                     (terminated_sublead_layers s))))"

definition actor_exists :: "DispatchState \<Rightarrow> string \<Rightarrow> bool" where
  "actor_exists s actor =
     (if actor = lead_id (root s) then True
      else if hm_get plain actor (states (workers (root s))) \<noteq> None then True
      else if hm_get plain actor (subleads s) \<noteq> None then True
      else if list_ex (\<lambda>(_, l). hm_get plain actor (states (workers l)) \<noteq> None) (subleads s) then True
      else list_ex (\<lambda>l. lead_id l = actor \<or> hm_get plain actor (states (workers l)) \<noteq> None)
             (terminated_sublead_layers s))"

definition parent_for_actor :: "DispatchState \<Rightarrow> CallerIdentity \<Rightarrow> string option" where
  "parent_for_actor s actor =
     (case caller_role actor of
        Lead \<Rightarrow> None
      | Sublead \<Rightarrow> Some (lead_id (root s))
      | Worker \<Rightarrow> worker_parent s (caller_id actor))"

definition can_observe_actor :: "DispatchState \<Rightarrow> CallerIdentity \<Rightarrow> string \<Rightarrow> bool" where
  "can_observe_actor s caller target =
     (if caller_id caller = target then True
      else case caller_role caller of
             Lead \<Rightarrow> True
           | Sublead \<Rightarrow> worker_parent s target = Some (caller_id caller)
           | Worker \<Rightarrow> False)"

definition can_read_message :: "DispatchState \<Rightarrow> CallerIdentity \<Rightarrow> StoredMessage \<Rightarrow> bool" where
  "can_read_message s caller m \<longleftrightarrow>
     sm_from m = caller_id caller \<or> sm_to m = caller_id caller \<or>
     can_observe_actor s caller (sm_from m) \<or> can_observe_actor s caller (sm_to m)"

definition can_read_artifact :: "DispatchState \<Rightarrow> CallerIdentity \<Rightarrow> StoredArtifact \<Rightarrow> bool" where
  "can_read_artifact s caller a \<longleftrightarrow>
     art_owner (sa_metadata a) = caller_id caller \<or> caller_id caller \<in> sa_grants a \<or>
     can_observe_actor s caller (art_owner (sa_metadata a))"

definition ensure_enabled :: "DispatchState \<Rightarrow> CommunicationError + unit" where
  "ensure_enabled s =
     (if comm_mode (communication (manifest (root s))) = CommDisabled then Inl CommDisabled_e else Inr ())"

definition resolve_recipient :: "DispatchState \<Rightarrow> CallerIdentity \<Rightarrow> string \<Rightarrow> CommunicationError + string" where
  "resolve_recipient s caller raw =
     (let resolved =
        (if raw = ''self'' then Inr (caller_id caller)
         else if raw = ''root'' then Inr (lead_id (root s))
         else if raw = ''parent'' then
           (case parent_for_actor s caller of
              Some p \<Rightarrow> Inr p | None \<Rightarrow> Inl (UnknownActor ''parent''))
         else Inr raw)
      in case resolved of
           Inl e \<Rightarrow> Inl e
         | Inr r \<Rightarrow> if \<not> actor_exists s r then Inl (UnknownActor r) else Inr r)"

definition ensure_can_send :: "DispatchState \<Rightarrow> CallerIdentity \<Rightarrow> string \<Rightarrow> CommunicationError + unit" where
  "ensure_can_send s caller dst =
     (case caller_role caller of
        Lead \<Rightarrow> Inr ()
      | Sublead \<Rightarrow>
          if dst = lead_id (root s) \<or> dst = caller_id caller \<or>
             worker_parent s dst = Some (caller_id caller)
          then Inr ()
          else Inl (CommForbidden (''sublead '' @ caller_id caller @
                 '' can only address root or its own workers''))
      | Worker \<Rightarrow>
          if parent_for_actor s caller = Some dst \<or> dst = caller_id caller then Inr ()
          else Inl (CommForbidden (''worker '' @ caller_id caller @ '' can only address its parent'')))"

section \<open>Handlers\<close>

definition handle_message_send ::
  "DispatchState \<Rightarrow> CallIo \<Rightarrow> CallerIdentity \<Rightarrow> string \<Rightarrow> string \<Rightarrow> string \<Rightarrow> string list \<Rightarrow>
     CommunicationStore \<Rightarrow> (CommunicationError + string) \<times> CommunicationStore" where
  "handle_message_send s io caller dst subj bod rfs c =
     (case ensure_enabled s of
        Inl e \<Rightarrow> (Inl e, c)
      | Inr _ \<Rightarrow>
          (let c = note_message_op (caller_id caller) c;
               limit = unat (max_message_bytes (communication (manifest (root s))))
           in if length bod > limit then (Inl (MessageTooLarge (length bod) limit), c)
              else case resolve_recipient s caller dst of
                     Inl e \<Rightarrow> (Inl e, c)
                   | Inr dst \<Rightarrow>
                       (case ensure_can_send s caller dst of
                          Inl e \<Rightarrow> (Inl e, c)
                        | Inr _ \<Rightarrow>
                            (let m = \<lparr>sm_message_id = io_uuid io, sm_from = caller_id caller,
                                   sm_to = dst, sm_subject = subj, sm_body = bod, sm_refs = rfs,
                                   sm_created_at = io_now io, sm_acked_by = {}\<rparr>;
                                 c = c\<lparr>messages := hm_insert plain (io_uuid io) m (messages c)\<rparr>
                             in (Inr (io_uuid io),
                                 journal_append (io_append io) (MessageSend (message_full m)) c)))))"

text \<open>The listing loop; an error of one step is returned at once.\<close>

fun list_messages ::
  "DispatchState \<Rightarrow> CallerIdentity \<Rightarrow> string \<Rightarrow> StoredMessage list \<Rightarrow>
     CommunicationError + MessageSummary list" where
  "list_messages s caller scope [] = Inr []"
| "list_messages s caller scope (m # ms) =
     (let visible =
        (if scope = ''inbox'' then Inr (sm_to m = caller_id caller)
         else if scope = ''sent'' then Inr (sm_from m = caller_id caller)
         else if scope = ''visible'' then Inr (can_read_message s caller m)
         else if scope = ''all'' then
           (if caller_role caller \<noteq> Lead
            then Inl (CommForbidden ''message_list scope=all is root-lead only'') else Inr True)
         else Inl (InvalidScope scope))
      in case visible of
           Inl e \<Rightarrow> Inl e
         | Inr v \<Rightarrow>
             (case list_messages s caller scope ms of
                Inl e \<Rightarrow> Inl e
              | Inr out \<Rightarrow> Inr (if v then message_summary m # out else out)))"

definition handle_message_list ::
  "DispatchState \<Rightarrow> CallerIdentity \<Rightarrow> string option \<Rightarrow> CommunicationStore \<Rightarrow>
     (CommunicationError + MessageSummary list) \<times> CommunicationStore" where
  "handle_message_list s caller scope c =
     (case ensure_enabled s of
        Inl e \<Rightarrow> (Inl e, c)
      | Inr _ \<Rightarrow>
          (let c = note_message_op (caller_id caller) c
           in case list_messages s caller (case scope of Some x \<Rightarrow> x | None \<Rightarrow> ''inbox'')
                     (map snd (messages c)) of
                Inl e \<Rightarrow> (Inl e, c)
              | Inr out \<Rightarrow> (Inr (sort_key (\<lambda>m. (ms_created_at m, ms_message_id m)) out), c)))"

definition handle_message_read ::
  "DispatchState \<Rightarrow> CallerIdentity \<Rightarrow> string \<Rightarrow> CommunicationStore \<Rightarrow>
     (CommunicationError + Message) \<times> CommunicationStore" where
  "handle_message_read s caller mid c =
     (case ensure_enabled s of
        Inl e \<Rightarrow> (Inl e, c)
      | Inr _ \<Rightarrow>
          (let c = note_message_op (caller_id caller) c
           in case hm_get plain mid (messages c) of
                None \<Rightarrow> (Inl (CommNotFound mid), c)
              | Some m \<Rightarrow>
                  if \<not> can_read_message s caller m
                  then (Inl (CommForbidden (caller_id caller @ '' cannot read message '' @ mid)), c)
                  else (Inr (message_full m), c)))"

definition handle_message_ack ::
  "DispatchState \<Rightarrow> CallIo \<Rightarrow> CallerIdentity \<Rightarrow> string \<Rightarrow> CommunicationStore \<Rightarrow>
     (CommunicationError + unit) \<times> CommunicationStore" where
  "handle_message_ack s io caller mid c =
     (case ensure_enabled s of
        Inl e \<Rightarrow> (Inl e, c)
      | Inr _ \<Rightarrow>
          (let c = note_message_op (caller_id caller) c
           in case hm_get plain mid (messages c) of
                None \<Rightarrow> (Inl (CommNotFound mid), c)
              | Some m \<Rightarrow>
                  if \<not> can_read_message s caller m
                  then (Inl (CommForbidden (caller_id caller @ '' cannot ack message '' @ mid)), c)
                  else
                    (Inr (),
                     journal_append (io_append io) (MessageAck mid (caller_id caller))
                       (c\<lparr>messages := hm_update mid
                          (\<lambda>m. m\<lparr>sm_acked_by := insert (caller_id caller) (sm_acked_by m)\<rparr>)
                          (messages c)\<rparr>))))"

record ArtifactPutResult =
  apr_artifact_id :: string
  apr_uri :: string
  apr_size_bytes :: u64
  apr_sha256 :: string

definition artifact_uri :: "DispatchState \<Rightarrow> string \<Rightarrow> string" where
  "artifact_uri s aid = ''pitboss://run/'' @ run_id (root s) @ ''/artifact/'' @ aid"

definition owned_count :: "string \<Rightarrow> (string \<times> StoredArtifact) list \<Rightarrow> nat" where
  "owned_count actor m = length (filter (\<lambda>(_, a). art_owner (sa_metadata a) = actor) m)"

definition handle_artifact_put ::
  "(string \<Rightarrow> string + bytes) \<Rightarrow> (bytes \<Rightarrow> string) \<Rightarrow> DispatchState \<Rightarrow> CallIo \<Rightarrow> CallerIdentity \<Rightarrow>
     string \<Rightarrow> string option \<Rightarrow> string \<Rightarrow> CommunicationStore \<Rightarrow>
     (CommunicationError + ArtifactPutResult) \<times> CommunicationStore" where
  "handle_artifact_put b64_decode sha s io caller nam mime content_base64 c =
     (case ensure_enabled s of
        Inl e \<Rightarrow> (Inl e, c)
      | Inr _ \<Rightarrow>
          (let c = note_artifact_op (caller_id caller) c
           in case b64_decode content_base64 of
                Inl e \<Rightarrow> (Inl (InvalidBase64 e), c)
              | Inr content \<Rightarrow>
                  (let limit = unat (max_artifact_bytes (communication (manifest (root s))));
                       per_actor_limit = unat (max_artifacts_per_actor (communication (manifest (root s))))
                   in if length content > limit
                      then (Inl (ArtifactTooLarge (length content) limit), c)
                      else case io_mkdir_error io of
                        Some e \<Rightarrow> (Inl (Storage e), c)
                      | None \<Rightarrow>
                          (case io_write_error io of
                             Some e \<Rightarrow> (Inl (Storage e), c)
                           | None \<Rightarrow>
                               (let aid = io_uuid io;
                                    c = c\<lparr>artifact_files := hm_insert plain aid content (artifact_files c)\<rparr>;
                                    md = \<lparr>artifact_id = aid, uri = artifact_uri s aid,
                                      art_owner = caller_id caller, art_name = nam, mime_type = mime,
                                      size_bytes = word_of_nat (length content), sha256 = sha content,
                                      art_created_at = io_now io, meta_grants = []\<rparr>
                                in if owned_count (caller_id caller) (artifacts c) \<ge> per_actor_limit
                                   then (Inl (ArtifactCountExceeded (caller_id caller) per_actor_limit),
                                         c\<lparr>artifact_files := hm_remove plain aid (artifact_files c)\<rparr>)
                                   else
                                     (Inr \<lparr>apr_artifact_id = aid, apr_uri = artifact_uri s aid,
                                           apr_size_bytes = word_of_nat (length content),
                                           apr_sha256 = sha content\<rparr>,
                                      journal_append (io_append io) (ArtifactPut md)
                                        (c\<lparr>artifacts := hm_insert plain aid
                                           \<lparr>sa_metadata = md, sa_path = aid, sa_grants = {}\<rparr>
                                           (artifacts c)\<rparr>)))))))"

fun list_artifacts ::
  "DispatchState \<Rightarrow> CallerIdentity \<Rightarrow> string \<Rightarrow> StoredArtifact list \<Rightarrow>
     CommunicationError + ArtifactMetadata list" where
  "list_artifacts s caller scope [] = Inr []"
| "list_artifacts s caller scope (a # as) =
     (let visible =
        (if scope = ''owned'' then Inr (art_owner (sa_metadata a) = caller_id caller)
         else if scope = ''granted'' then Inr (caller_id caller \<in> sa_grants a)
         else if scope = ''visible'' then Inr (can_read_artifact s caller a)
         else if scope = ''all'' then
           (if caller_role caller \<noteq> Lead
            then Inl (CommForbidden ''artifact_list scope=all is root-lead only'') else Inr True)
         else Inl (InvalidScope scope))
      in case visible of
           Inl e \<Rightarrow> Inl e
         | Inr v \<Rightarrow>
             (case list_artifacts s caller scope as of
                Inl e \<Rightarrow> Inl e
              | Inr out \<Rightarrow> Inr (if v then artifact_metadata a # out else out)))"

definition handle_artifact_list ::
  "DispatchState \<Rightarrow> CallerIdentity \<Rightarrow> string option \<Rightarrow> CommunicationStore \<Rightarrow>
     (CommunicationError + ArtifactMetadata list) \<times> CommunicationStore" where
  "handle_artifact_list s caller scope c =
     (case ensure_enabled s of
        Inl e \<Rightarrow> (Inl e, c)
      | Inr _ \<Rightarrow>
          (let c = note_artifact_op (caller_id caller) c
           in case list_artifacts s caller (case scope of Some x \<Rightarrow> x | None \<Rightarrow> ''visible'')
                     (map snd (artifacts c)) of
                Inl e \<Rightarrow> (Inl e, c)
              | Inr out \<Rightarrow> (Inr (sort_key (\<lambda>a. (art_created_at a, artifact_id a)) out), c)))"

definition handle_artifact_read ::
  "(bytes \<Rightarrow> string) \<Rightarrow> DispatchState \<Rightarrow> CallerIdentity \<Rightarrow> string \<Rightarrow> CommunicationStore \<Rightarrow>
     (CommunicationError + ArtifactMetadata \<times> string) \<times> CommunicationStore" where
  "handle_artifact_read b64_encode s caller aid c =
     (case ensure_enabled s of
        Inl e \<Rightarrow> (Inl e, c)
      | Inr _ \<Rightarrow>
          (let c = note_artifact_op (caller_id caller) c
           in case hm_get plain aid (artifacts c) of
                None \<Rightarrow> (Inl (CommNotFound aid), c)
              | Some a \<Rightarrow>
                  if \<not> can_read_artifact s caller a
                  then (Inl (CommForbidden (caller_id caller @ '' cannot read artifact '' @ aid)), c)
                  else case hm_get plain (sa_path a) (artifact_files c) of
                         None \<Rightarrow> (Inl (Storage ''No such file or directory (os error 2)''), c)
                       | Some content \<Rightarrow> (Inr (artifact_metadata a, b64_encode content), c)))"

definition handle_artifact_grant ::
  "DispatchState \<Rightarrow> CallIo \<Rightarrow> CallerIdentity \<Rightarrow> string \<Rightarrow> string \<Rightarrow> CommunicationStore \<Rightarrow>
     (CommunicationError + unit) \<times> CommunicationStore" where
  "handle_artifact_grant s io caller aid dst c =
     (case ensure_enabled s of
        Inl e \<Rightarrow> (Inl e, c)
      | Inr _ \<Rightarrow>
          (let c = note_artifact_op (caller_id caller) c
           in case resolve_recipient s caller dst of
                Inl e \<Rightarrow> (Inl e, c)
              | Inr dst \<Rightarrow>
                  (case ensure_can_send s caller dst of
                     Inl e \<Rightarrow> (Inl e, c)
                   | Inr _ \<Rightarrow>
                       (case hm_get plain aid (artifacts c) of
                          None \<Rightarrow> (Inl (CommNotFound aid), c)
                        | Some a \<Rightarrow>
                            if \<not> can_read_artifact s caller a
                            then (Inl (CommForbidden (caller_id caller @ '' cannot grant artifact '' @ aid)), c)
                            else
                              (Inr (),
                               journal_append (io_append io) (ArtifactGrant aid dst (caller_id caller))
                                 (c\<lparr>artifacts := hm_update aid
                                    (\<lambda>a. a\<lparr>sa_grants := insert dst (sa_grants a)\<rparr>) (artifacts c)\<rparr>))))))"

section \<open>An example run\<close>

text \<open>A lead with worker \<open>w0\<close> and two sub-leads, each with one worker.\<close>

definition comm_layer :: "string \<Rightarrow> string \<Rightarrow> LayerState" where
  "comm_layer sid w = (layer_new ''run'' base_manifest new_cancel sid PolicyBlock None new_store None)
     \<lparr>workers := new_workers\<lparr>states := [(w, Pending)]\<rparr>\<rparr>"

definition comm_run :: DispatchState where
  "comm_run = base_state
     \<lparr>root := (root base_state)
        \<lparr>manifest := base_manifest\<lparr>communication := (communication base_manifest)\<lparr>comm_mode := ParentChild\<rparr>\<rparr>,
         workers := new_workers\<lparr>states := [(''w0'', Pending)]\<rparr>\<rparr>,
      subleads := [(''S1'', comm_layer ''S1'' ''w1''), (''S2'', comm_layer ''S2'' ''w2'')],
      worker_layer_index := [(''w0'', None), (''w1'', Some ''S1''), (''w2'', Some ''S2'')]\<rparr>"

definition comm_io :: "string \<Rightarrow> AppendIo \<Rightarrow> CallIo" where
  "comm_io uuid io = \<lparr>io_uuid = uuid, io_now = 0, io_mkdir_error = None, io_write_error = None, io_append = io\<rparr>"

definition comm_lead :: CallerIdentity where
  "comm_lead = \<lparr>caller_id = ''lead'', caller_role = Lead\<rparr>"

definition comm_worker :: "string \<Rightarrow> CallerIdentity" where
  "comm_worker w = \<lparr>caller_id = w, caller_role = Worker\<rparr>"

lemmas comm_run_defs = comm_run_def comm_layer_def comm_io_def comm_lead_def comm_worker_def
  base_state_def new_dispatch_def layer_new_def base_manifest_def new_workers_def

lemma comm_run_facts:
  "ensure_enabled comm_run = Inr ()"
  "max_message_bytes (communication (manifest (root comm_run))) = 8192"
  "max_artifact_bytes (communication (manifest (root comm_run))) = 1048576"
  "max_artifacts_per_actor (communication (manifest (root comm_run))) = 64"
  "run_id (root comm_run) = ''run''"
  "lead_id (root comm_run) = ''lead''"
  "worker_parent comm_run a =
     (if a = ''w0'' then Some ''lead'' else if a = ''w1'' then Some ''S1'' else if a = ''w2'' then Some ''S2''
      else None)"
  "actor_exists comm_run a \<longleftrightarrow> a \<in> {''lead'', ''w0'', ''S1'', ''S2'', ''w1'', ''w2''}"
  by (auto simp: comm_run_defs ensure_enabled_def worker_parent_def actor_exists_def)

end
