(* ===== verification/Comm_Journal.thy ===== *)
theory Comm_Journal
  imports Communication "HOL-Library.Multiset"
begin

text \<open>
  What the journal of the communication plane is worth: replaying it rebuilds the mailbox and the
  artifact table as they stood after a prefix of the calls when the appends reach the file in the
  order of the table writes, a failed append is never made good, and appends that overtake each other
  lose acknowledgements and grants. The first result is proved once for any store that logs its
  writes, as a locale.
\<close>

section \<open>Stores that log their writes\<close>

locale logged_store =
  fixes mem :: "'c \<Rightarrow> 'm"
    and log :: "'c \<Rightarrow> 'r list"
    and app :: "'r \<Rightarrow> 'm \<Rightarrow> 'm"
    and step :: "'x \<Rightarrow> 'c \<Rightarrow> 'c"
    and ok :: "'x \<Rightarrow> bool"
    and inv :: "'c \<Rightarrow> bool"
  assumes step_inv: "ok x \<Longrightarrow> inv c \<Longrightarrow> inv (step x c)"
    and step_logged: "ok x \<Longrightarrow> inv c \<Longrightarrow>
      \<exists>rs. log (step x c) = log c @ rs \<and> mem (step x c) = fold app rs (mem c)"
begin

lemma steps_logged:
  "\<forall>x\<in>set xs. ok x \<Longrightarrow> inv c \<Longrightarrow>
     inv (fold step xs c) \<and>
     (\<exists>rs. log (fold step xs c) = log c @ rs \<and> mem (fold step xs c) = fold app rs (mem c))"
proof (induction xs arbitrary: c)
  case (Cons x xs)
  obtain rs where r: "log (step x c) = log c @ rs" "mem (step x c) = fold app rs (mem c)"
    using step_logged [of x c] Cons.prems by auto
  have i: "inv (fold step xs (step x c)) \<and>
      (\<exists>rs. log (fold step xs (step x c)) = log (step x c) @ rs \<and>
        mem (fold step xs (step x c)) = fold app rs (mem (step x c)))"
    using Cons.IH [of "step x c"] Cons.prems step_inv [of x c] by simp
  then obtain rs' where r': "log (fold step xs (step x c)) = log (step x c) @ rs'"
    "mem (fold step xs (step x c)) = fold app rs' (mem (step x c))" by blast
  show ?case using i by (auto intro!: exI [of _ "rs @ rs'"] simp: r r')
qed simp

lemma replay_log:
  "\<forall>x\<in>set xs. ok x \<Longrightarrow> inv c \<Longrightarrow> log c = [] \<Longrightarrow>
   fold app (log (fold step xs c)) (mem c) = mem (fold step xs c)"
  using steps_logged [of xs c] by auto

end

text \<open>Steps that log one record at most: every prefix of the log is the log of an earlier moment.\<close>

locale single_logged = logged_store +
  assumes single: "ok x \<Longrightarrow> inv c \<Longrightarrow> length (log (step x c)) \<le> Suc (length (log c))"
begin

lemma log_prefix:
  "\<forall>x\<in>set xs. ok x \<Longrightarrow> inv c \<Longrightarrow> log c = [] \<Longrightarrow> i \<le> length (log (fold step xs c)) \<Longrightarrow>
   \<exists>n\<le>length xs. log (fold step (take n xs) c) = take i (log (fold step xs c))"
proof (induction xs rule: rev_induct)
  case (snoc x xs)
  let ?c = "fold step xs c"
  have inv: "inv ?c" using steps_logged [of xs c] snoc.prems by simp
  obtain rs where rs: "log (step x ?c) = log ?c @ rs" using step_logged [of x ?c] inv snoc.prems(1) by auto
  show ?case
  proof (cases "i \<le> length (log ?c)")
    case True
    then obtain n where "n \<le> length xs" "log (fold step (take n xs) c) = take i (log ?c)"
      using snoc.IH snoc.prems by auto
    then show ?thesis using rs True by (intro exI [of _ n]) simp
  next
    case False
    then have "length (log (step x ?c)) \<le> i" using single [of x ?c] inv snoc.prems(1) by auto
    then show ?thesis by (intro exI [of _ "length (xs @ [x])"]) simp
  qed
qed simp

lemma replay_prefix:
  assumes "\<forall>x\<in>set xs. ok x" and "inv c" and "log c = []" and "log (fold step xs c) = rs @ rs'"
  shows "\<exists>n\<le>length xs. log (fold step (take n xs) c) = rs \<and> fold app rs (mem c) = mem (fold step (take n xs) c)"
proof -
  obtain n where n: "n \<le> length xs" "log (fold step (take n xs) c) = rs"
    using log_prefix [of xs c "length rs"] assms by auto
  have "\<forall>x\<in>set (take n xs). ok x" using assms(1) by (meson in_set_takeD)
  from replay_log [OF this assms(2,3)] show ?thesis using n by (intro exI [of _ n]) simp
qed

end

section \<open>Calls\<close>

datatype CommOp =
    OpSend string string string "string list"
  | OpMessages "string option"
  | OpReadMessage string
  | OpAck string
  | OpPut string "string option" string
  | OpArtifacts "string option"
  | OpReadArtifact string
  | OpGrant string string

record CommCall =
  call_state :: DispatchState
  call_io :: CallIo
  call_by :: CallerIdentity
  call_op :: CommOp

text \<open>The external codecs, gathered: base64 both ways and the hex digest.\<close>

record Codecs =
  b64_decode :: "string \<Rightarrow> string + bytes"
  b64_encode :: "bytes \<Rightarrow> string"
  sha_hex :: "bytes \<Rightarrow> string"

text \<open>
  A call with its journal append right behind it. The handlers append after releasing the lock of the
  tables; the section on appends that overtake each other takes the two apart.
\<close>

definition comm_call :: "Codecs \<Rightarrow> CommCall \<Rightarrow> CommunicationStore \<Rightarrow> CommunicationStore" where
  "comm_call k x c =
     (let s = call_state x; io = call_io x; who = call_by x
      in case call_op x of
           OpSend dst subj bod rfs \<Rightarrow> snd (handle_message_send s io who dst subj bod rfs c)
         | OpMessages scope \<Rightarrow> snd (handle_message_list s who scope c)
         | OpReadMessage mid \<Rightarrow> snd (handle_message_read s who mid c)
         | OpAck mid \<Rightarrow> snd (handle_message_ack s io who mid c)
         | OpPut nam mime b \<Rightarrow> snd (handle_artifact_put (b64_decode k) (sha_hex k) s io who nam mime b c)
         | OpArtifacts scope \<Rightarrow> snd (handle_artifact_list s who scope c)
         | OpReadArtifact aid \<Rightarrow> snd (handle_artifact_read (b64_encode k) s who aid c)
         | OpGrant aid dst \<Rightarrow> snd (handle_artifact_grant s io who aid dst c))"

lemmas comm_handler_defs = handle_message_send_def handle_message_list_def handle_message_read_def
  handle_message_ack_def handle_artifact_put_def handle_artifact_list_def handle_artifact_read_def
  handle_artifact_grant_def

text \<open>The part of the store a journal record acts on.\<close>

type_synonym Tables = "(string \<times> StoredMessage) list \<times> (string \<times> StoredArtifact) list"

definition tables :: "CommunicationStore \<Rightarrow> Tables" where
  "tables c = (messages c, artifacts c)"

definition app_record :: "JournalRecord \<Rightarrow> Tables \<Rightarrow> Tables" where
  "app_record r t = tables (apply_journal_record r
     \<lparr>messages = fst t, artifacts = snd t, activity = [], journal = empty_journal, artifact_files = []\<rparr>)"

lemma app_record_tables: "tables (apply_journal_record r c) = app_record r (tables c)"
  by (cases r) (simp_all add: app_record_def tables_def apply_journal_record_def)

definition records_of :: "CommunicationStore \<Rightarrow> JournalRecord list" where
  "records_of c = List.map_filter (\<lambda>l. l) (lines (journal c))"

lemma replay_tables: "tables (replay_journal ls c) = fold app_record (List.map_filter (\<lambda>l. l) ls) (tables c)"
  by (induction ls c rule: replay_journal.induct) (simp_all add: app_record_tables map_filter_simps)

lemma replay_files [simp]: "artifact_files (replay_journal ls c) = artifact_files c"
  by (induction ls c rule: replay_journal.induct)
    (auto simp: apply_journal_record_def split: JournalRecord.splits)

lemma comm_new_tables: "tables (comm_new j files) = fold app_record (List.map_filter (\<lambda>l. l) (lines j)) ([], [])"
  by (simp add: comm_new_def replay_tables) (simp add: tables_def)

lemma note_frame [simp]:
  "messages (note_message_op a c) = messages c" "artifacts (note_message_op a c) = artifacts c"
  "journal (note_message_op a c) = journal c" "artifact_files (note_message_op a c) = artifact_files c"
  "messages (note_artifact_op a c) = messages c" "artifacts (note_artifact_op a c) = artifacts c"
  "journal (note_artifact_op a c) = journal c" "artifact_files (note_artifact_op a c) = artifact_files c"
  by (simp_all add: note_message_op_def note_artifact_op_def)

lemma append_frame [simp]:
  "messages (journal_append io r c) = messages c" "artifacts (journal_append io r c) = artifacts c"
  "artifact_files (journal_append io r c) = artifact_files c"
  by (simp_all add: journal_append_def)

text \<open>
  The effect of a call on the store, one rule per way it can end: no change but counters, a put over
  the quota (its file is gone again), and the four writes, each with the checks that let it through
  and the journal record it hands over.
\<close>

inductive comm_effect :: "Codecs \<Rightarrow> CommCall \<Rightarrow> CommunicationStore \<Rightarrow> CommunicationStore \<Rightarrow> bool"
  for k x c where
  quiet: "tables c' = tables c \<Longrightarrow> journal c' = journal c \<Longrightarrow> artifact_files c' = artifact_files c \<Longrightarrow>
     comm_effect k x c c'"
| over_quota: "tables c' = tables c \<Longrightarrow> journal c' = journal c \<Longrightarrow>
     artifact_files c' = hm_remove plain (io_uuid (call_io x))
       (hm_insert plain (io_uuid (call_io x)) content (artifact_files c)) \<Longrightarrow>
     comm_effect k x c c'"
| sent: "call_op x = OpSend dst subj bod rfs \<Longrightarrow>
     length bod \<le> unat (max_message_bytes (communication (manifest (root (call_state x))))) \<Longrightarrow>
     ensure_can_send (call_state x) (call_by x) to' = Inr () \<Longrightarrow>
     m = \<lparr>sm_message_id = io_uuid (call_io x), sm_from = caller_id (call_by x), sm_to = to',
       sm_subject = subj, sm_body = bod, sm_refs = rfs, sm_created_at = io_now (call_io x),
       sm_acked_by = {}\<rparr> \<Longrightarrow>
     tables d = (hm_insert plain (io_uuid (call_io x)) m (messages c), artifacts c) \<Longrightarrow>
     journal d = journal c \<Longrightarrow> artifact_files d = artifact_files c \<Longrightarrow>
     c' = journal_append (io_append (call_io x)) (MessageSend (message_full m)) d \<Longrightarrow>
     comm_effect k x c c'"
| acked: "call_op x = OpAck mid \<Longrightarrow> hm_get plain mid (messages c) = Some m \<Longrightarrow>
     can_read_message (call_state x) (call_by x) m \<Longrightarrow>
     tables d = (hm_update mid (\<lambda>m. m\<lparr>sm_acked_by := insert (caller_id (call_by x)) (sm_acked_by m)\<rparr>)
       (messages c), artifacts c) \<Longrightarrow>
     journal d = journal c \<Longrightarrow> artifact_files d = artifact_files c \<Longrightarrow>
     c' = journal_append (io_append (call_io x)) (MessageAck mid (caller_id (call_by x))) d \<Longrightarrow>
     comm_effect k x c c'"
| stored: "call_op x = OpPut nam mime b \<Longrightarrow> b64_decode k b = Inr content \<Longrightarrow>
     length content \<le> unat (max_artifact_bytes (communication (manifest (root (call_state x))))) \<Longrightarrow>
     owned_count (caller_id (call_by x)) (artifacts c) <
       unat (max_artifacts_per_actor (communication (manifest (root (call_state x))))) \<Longrightarrow>
     md = \<lparr>artifact_id = io_uuid (call_io x), uri = artifact_uri (call_state x) (io_uuid (call_io x)),
       art_owner = caller_id (call_by x), art_name = nam, mime_type = mime,
       size_bytes = word_of_nat (length content), sha256 = sha_hex k content,
       art_created_at = io_now (call_io x), meta_grants = []\<rparr> \<Longrightarrow>
     tables d = (messages c, hm_insert plain (io_uuid (call_io x))
       \<lparr>sa_metadata = md, sa_path = io_uuid (call_io x), sa_grants = {}\<rparr> (artifacts c)) \<Longrightarrow>
     journal d = journal c \<Longrightarrow>
     artifact_files d = hm_insert plain (io_uuid (call_io x)) content (artifact_files c) \<Longrightarrow>
     c' = journal_append (io_append (call_io x)) (ArtifactPut md) d \<Longrightarrow>
     comm_effect k x c c'"
| granted: "call_op x = OpGrant aid dst \<Longrightarrow> hm_get plain aid (artifacts c) = Some a \<Longrightarrow>
     can_read_artifact (call_state x) (call_by x) a \<Longrightarrow>
     ensure_can_send (call_state x) (call_by x) to' = Inr () \<Longrightarrow>
     tables d = (messages c, hm_update aid (\<lambda>a. a\<lparr>sa_grants := insert to' (sa_grants a)\<rparr>) (artifacts c)) \<Longrightarrow>
     journal d = journal c \<Longrightarrow> artifact_files d = artifact_files c \<Longrightarrow>
     c' = journal_append (io_append (call_io x)) (ArtifactGrant aid to' (caller_id (call_by x))) d \<Longrightarrow>
     comm_effect k x c c'"

lemma quietI:
  "messages c' = messages c \<Longrightarrow> artifacts c' = artifacts c \<Longrightarrow> journal c' = journal c \<Longrightarrow>
   artifact_files c' = artifact_files c \<Longrightarrow> comm_effect k x c c'"
  by (rule quiet) (simp_all add: tables_def)

lemmas comm_call_simps = comm_call_def comm_handler_defs Let_def

lemma send_effect:
  assumes op: "call_op x = OpSend dst subj bod rfs"
  shows "comm_effect k x c (comm_call k x c)"
proof -
  let ?s = "call_state x" let ?w = "call_by x" let ?c = "note_message_op (caller_id (call_by x)) c"
  let ?lim = "unat (max_message_bytes (communication (manifest (root ?s))))"
  show ?thesis
  proof (cases "\<exists>to'. ensure_enabled ?s = Inr () \<and> resolve_recipient ?s ?w dst = Inr to' \<and>
      ensure_can_send ?s ?w to' = Inr () \<and> length bod \<le> ?lim")
    case True
    then obtain to' where t: "ensure_enabled ?s = Inr ()" "resolve_recipient ?s ?w dst = Inr to'"
      "ensure_can_send ?s ?w to' = Inr ()" "length bod \<le> ?lim" by blast
    let ?m = "\<lparr>sm_message_id = io_uuid (call_io x), sm_from = caller_id ?w, sm_to = to',
       sm_subject = subj, sm_body = bod, sm_refs = rfs, sm_created_at = io_now (call_io x),
       sm_acked_by = {}\<rparr>"
    show ?thesis
      by (rule sent [where m = ?m and
            d = "?c\<lparr>messages := hm_insert plain (io_uuid (call_io x)) ?m (messages ?c)\<rparr>", OF op t(4,3) refl])
        (use t op in \<open>simp_all add: comm_call_simps tables_def\<close>)
  next
    case False
    then show ?thesis using op
      by (intro quietI) (auto simp: comm_call_simps split: sum.splits)
  qed
qed

lemma ack_effect:
  assumes op: "call_op x = OpAck mid"
  shows "comm_effect k x c (comm_call k x c)"
proof -
  let ?s = "call_state x" let ?w = "call_by x" let ?c = "note_message_op (caller_id (call_by x)) c"
  show ?thesis
  proof (cases "\<exists>m. ensure_enabled ?s = Inr () \<and> hm_get plain mid (messages c) = Some m \<and>
      can_read_message ?s ?w m")
    case True
    then obtain m where t: "ensure_enabled ?s = Inr ()" "hm_get plain mid (messages c) = Some m"
      "can_read_message ?s ?w m" by blast
    show ?thesis
      by (rule acked [where d = "?c\<lparr>messages := hm_update mid
             (\<lambda>m. m\<lparr>sm_acked_by := insert (caller_id ?w) (sm_acked_by m)\<rparr>) (messages ?c)\<rparr>", OF op t(2,3)])
        (use t op in \<open>simp_all add: comm_call_simps tables_def\<close>)
  next
    case False
    then show ?thesis using op
      by (intro quietI) (auto simp: comm_call_simps split: sum.splits option.splits)
  qed
qed

lemma grant_effect:
  assumes op: "call_op x = OpGrant aid dst"
  shows "comm_effect k x c (comm_call k x c)"
proof -
  let ?s = "call_state x" let ?w = "call_by x" let ?c = "note_artifact_op (caller_id (call_by x)) c"
  show ?thesis
  proof (cases "\<exists>to' a. ensure_enabled ?s = Inr () \<and> resolve_recipient ?s ?w dst = Inr to' \<and>
      ensure_can_send ?s ?w to' = Inr () \<and> hm_get plain aid (artifacts c) = Some a \<and>
      can_read_artifact ?s ?w a")
    case True
    then obtain to' a where t: "ensure_enabled ?s = Inr ()" "resolve_recipient ?s ?w dst = Inr to'"
      "ensure_can_send ?s ?w to' = Inr ()" "hm_get plain aid (artifacts c) = Some a"
      "can_read_artifact ?s ?w a" by blast
    show ?thesis
      by (rule granted [where d = "?c\<lparr>artifacts := hm_update aid
             (\<lambda>a. a\<lparr>sa_grants := insert to' (sa_grants a)\<rparr>) (artifacts ?c)\<rparr>", OF op t(4,5,3)])
        (use t op in \<open>simp_all add: comm_call_simps tables_def\<close>)
  next
    case False
    then show ?thesis using op
      by (intro quietI) (auto simp: comm_call_simps split: sum.splits option.splits)
  qed
qed

lemma put_effect:
  assumes op: "call_op x = OpPut nam mime b"
  shows "comm_effect k x c (comm_call k x c)"
proof -
  let ?s = "call_state x" let ?w = "call_by x" let ?c = "note_artifact_op (caller_id (call_by x)) c"
  let ?cfg = "communication (manifest (root ?s))"
  let ?io = "call_io x"
  show ?thesis
  proof (cases "\<exists>content. ensure_enabled ?s = Inr () \<and> b64_decode k b = Inr content \<and>
      length content \<le> unat (max_artifact_bytes ?cfg) \<and> io_mkdir_error ?io = None \<and> io_write_error ?io = None")
    case True
    then obtain content where t: "ensure_enabled ?s = Inr ()" "b64_decode k b = Inr content"
      "length content \<le> unat (max_artifact_bytes ?cfg)" "io_mkdir_error ?io = None"
      "io_write_error ?io = None" by blast
    let ?id = "io_uuid ?io"
    let ?md = "\<lparr>artifact_id = ?id, uri = artifact_uri ?s ?id, art_owner = caller_id ?w,
       art_name = nam, mime_type = mime, size_bytes = word_of_nat (length content),
       sha256 = sha_hex k content, art_created_at = io_now ?io, meta_grants = []\<rparr>"
    show ?thesis
    proof (cases "owned_count (caller_id ?w) (artifacts c) < unat (max_artifacts_per_actor ?cfg)")
      case True
      show ?thesis
        by (rule stored [where md = ?md and d = "?c\<lparr>artifact_files := hm_insert plain ?id content (artifact_files ?c),
                artifacts := hm_insert plain ?id \<lparr>sa_metadata = ?md, sa_path = ?id, sa_grants = {}\<rparr> (artifacts ?c)\<rparr>",
              OF op t(2,3) True refl])
          (use t op True in \<open>simp_all add: comm_call_simps tables_def\<close>)
    next
      case False
      show ?thesis
        by (rule over_quota [where content = content])
          (use t op False in \<open>simp_all add: comm_call_simps tables_def\<close>)
    qed
  next
    case False
    then show ?thesis using op
      by (intro quietI) (auto simp: comm_call_simps not_less split: sum.splits option.splits)
  qed
qed

lemma comm_call_effect: "comm_effect k x c (comm_call k x c)"
proof (cases "call_op x")
  case (OpSend dst subj bod rfs)
  then show ?thesis by (rule send_effect)
next
  case (OpAck mid)
  then show ?thesis by (rule ack_effect)
next
  case (OpPut nam mime b)
  then show ?thesis by (rule put_effect)
next
  case (OpGrant aid dst)
  then show ?thesis by (rule grant_effect)
qed (intro quietI; simp add: comm_call_def comm_handler_defs Let_def split: sum.splits option.splits)+

definition mentions_send :: "string \<Rightarrow> JournalRecord \<Rightarrow> bool" where
  "mentions_send mid r = (case r of MessageSend m \<Rightarrow> message_id m = mid | _ \<Rightarrow> False)"

text \<open>A record a call may hand over: a send is fresh and unacknowledged, an ack names a known message.\<close>

definition record_ok :: "CommCall \<Rightarrow> CommunicationStore \<Rightarrow> JournalRecord \<Rightarrow> bool" where
  "record_ok x c r =
     (case r of
        MessageSend m \<Rightarrow> message_id m = io_uuid (call_io x) \<and> acked_by m = []
      | MessageAck mid who \<Rightarrow> hm_get plain mid (messages c) \<noteq> None
      | _ \<Rightarrow> True)"

lemma comm_call_cases:
  obtains (same) "tables (comm_call k x c) = tables c" "journal (comm_call k x c) = journal c"
  | (logged) r d where "comm_call k x c = journal_append (io_append (call_io x)) r d"
      "tables d = app_record r (tables c)" "journal d = journal c"
      "record_ok x c r"
  using comm_call_effect [of k x c]
proof (cases rule: comm_effect.cases)
  case (sent dst subj bod rfs to' m d)
  then show ?thesis
    by (intro logged [of "MessageSend (message_full m)" d])
      (auto simp: tables_def app_record_def apply_journal_record_def record_ok_def message_full_def)
next
  case (acked mid m d)
  then show ?thesis
    by (intro logged [of "MessageAck mid (caller_id (call_by x))" d])
      (auto simp: tables_def app_record_def apply_journal_record_def record_ok_def)
next
  case (stored nam mime b content md d)
  then show ?thesis
    by (intro logged [of "ArtifactPut md" d])
      (auto simp: tables_def app_record_def apply_journal_record_def record_ok_def)
next
  case (granted aid dst a to' d)
  then show ?thesis
    by (intro logged [of "ArtifactGrant aid to' (caller_id (call_by x))" d])
      (auto simp: tables_def app_record_def apply_journal_record_def record_ok_def)
qed (auto intro: same)

section \<open>Replay\<close>

definition no_gap :: "CommunicationStore \<Rightarrow> bool" where
  "no_gap c \<longleftrightarrow> \<not> torn_tail (journal c)"

lemma records_append:
  "no_gap c \<Longrightarrow> records_of (journal_append Written r c) = records_of c @ [r]"
  "no_gap c \<Longrightarrow> no_gap (journal_append Written r c)"
  by (simp_all add: records_of_def journal_append_def no_gap_def List.map_filter_def Let_def)

lemma same_journal: "journal d = journal c \<Longrightarrow> records_of d = records_of c \<and> no_gap d = no_gap c"
  by (simp add: records_of_def no_gap_def)

definition comm_empty :: CommunicationStore where
  "comm_empty = comm_new empty_journal []"

lemma comm_empty_facts:
  "no_gap comm_empty" "records_of comm_empty = []" "tables comm_empty = ([], [])"
  "messages comm_empty = []" "artifacts comm_empty = []" "artifact_files comm_empty = []"
  by (simp_all add: comm_empty_def comm_new_def empty_journal_def no_gap_def records_of_def tables_def
      map_filter_simps)

text \<open>Codecs for the examples: base64 replaced by one character per byte.\<close>

definition raw_codecs :: Codecs where
  "raw_codecs = \<lparr>b64_decode = (\<lambda>s. Inr (map (\<lambda>c. word_of_nat (of_char c)) s)),
     b64_encode = map (\<lambda>b. char_of (unat b)), sha_hex = (\<lambda>_. ''00'')\<rparr>"

definition example_calls :: "CommCall list" where
  "example_calls =
     [\<lparr>call_state = comm_run, call_io = comm_io ''m1'' Written, call_by = comm_lead,
       call_op = OpSend ''w0'' ''hi'' ''go'' []\<rparr>,
      \<lparr>call_state = comm_run, call_io = comm_io ''x'' Written, call_by = comm_worker ''w0'', call_op = OpAck ''m1''\<rparr>,
      \<lparr>call_state = comm_run, call_io = comm_io ''a1'' Written, call_by = comm_worker ''w1'',
       call_op = OpPut ''log'' None ''abc''\<rparr>]"

lemmas comm_eval = comm_call_simps comm_run_facts comm_empty_facts comm_io_def comm_lead_def comm_worker_def
  resolve_recipient_def ensure_can_send_def can_read_message_def can_read_artifact_def can_observe_actor_def
  parent_for_actor_def owned_count_def

lemma example_messages:
  "messages (fold (comm_call raw_codecs) example_calls comm_empty) =
     [(''m1'', \<lparr>sm_message_id = ''m1'', sm_from = ''lead'', sm_to = ''w0'', sm_subject = ''hi'',
        sm_body = ''go'', sm_refs = [], sm_created_at = 0, sm_acked_by = {''w0''}\<rparr>)]"
  by (simp add: example_calls_def comm_eval raw_codecs_def hm_update_def)

section \<open>Gaps\<close>

lemma app_other_send:
  "\<not> mentions_send mid r \<Longrightarrow> hm_get plain mid (fst t) = None \<Longrightarrow> hm_get plain mid (fst (app_record r t)) = None"
  by (cases r) (auto simp: mentions_send_def app_record_def apply_journal_record_def tables_def hm_simps)

lemma replay_without_send:
  "\<forall>r\<in>set rs. \<not> mentions_send mid r \<Longrightarrow> hm_get plain mid (fst t) = None \<Longrightarrow>
   hm_get plain mid (fst (fold app_record rs t)) = None"
  by (induction rs arbitrary: t) (simp_all add: app_other_send)

lemma records_append_subset: "set (records_of (journal_append io r c)) \<subseteq> insert r (set (records_of c))"
  by (cases io) (auto simp: records_of_def journal_append_def List.map_filter_def Let_def)

lemma call_keeps_message:
  assumes "hm_get plain mid (messages c) \<noteq> None"
  shows "hm_get plain mid (messages (comm_call k x c)) \<noteq> None"
  using comm_call_effect [of k x c]
  by (cases rule: comm_effect.cases) (use assms in \<open>auto simp: tables_def hm_simps\<close>)

lemma call_records:
  assumes "r \<in> set (records_of (comm_call k x c))" and "mentions_send mid r"
    and "io_uuid (call_io x) \<noteq> mid"
  shows "r \<in> set (records_of c)"
proof (cases k x c rule: comm_call_cases)
  case same
  then show ?thesis using assms(1) same_journal [of "comm_call k x c" c] by simp
next
  case (logged r' d)
  then have "r \<in> insert r' (set (records_of c))"
    using assms(1) records_append_subset [of "io_append (call_io x)" r' d] same_journal [of d c] by auto
  then show ?thesis using logged(4) assms(2,3)
    by (auto simp: record_ok_def mentions_send_def split: JournalRecord.splits)
qed

lemma calls_keep_gap:
  assumes "\<forall>x\<in>set xs. io_uuid (call_io x) \<noteq> mid"
    and "hm_get plain mid (messages c) \<noteq> None" and "\<forall>r\<in>set (records_of c). \<not> mentions_send mid r"
  shows "hm_get plain mid (messages (fold (comm_call k) xs c)) \<noteq> None \<and>
    (\<forall>r\<in>set (records_of (fold (comm_call k) xs c)). \<not> mentions_send mid r)"
  using assms
proof (induction xs arbitrary: c)
  case (Cons x xs)
  have "hm_get plain mid (messages (comm_call k x c)) \<noteq> None"
    using Cons.prems(2) by (rule call_keeps_message)
  moreover have "\<forall>r\<in>set (records_of (comm_call k x c)). \<not> mentions_send mid r"
    using Cons.prems(1,3) call_records [of _ k x c mid] by (metis list.set_intros(1))
  ultimately show ?case using Cons.IH [of "comm_call k x c"] Cons.prems(1) by simp
qed simp

text \<open>
  A journal append that fails is never made good. When the append of a sent message is skipped
  or torn, then after any later calls the message is still in the running store and is missing from
  the store rebuilt from the journal; and after a torn append the next record that is written in
  full continues the torn line and is lost as well.
\<close>

theorem journal_gap_permanent:
  assumes "hm_get plain mid (messages c) = None" and "\<forall>r\<in>set (records_of c). \<not> mentions_send mid r"
    and "io_uuid io = mid" and "io_append io \<noteq> Written"
    and "handle_message_send s io who dst subj bod rfs c = (Inr mid, c')"
    and "\<forall>x\<in>set xs. io_uuid (call_io x) \<noteq> mid"
    and "c'' = fold (comm_call k) xs c'"
  shows "hm_get plain mid (messages c'') \<noteq> None \<and>
    hm_get plain mid (messages (comm_new (journal c'') (artifact_files c''))) = None \<and>
    records_of (journal_append Written r (journal_append Torn r' c)) = records_of c"
proof -
  let ?x = "\<lparr>call_state = s, call_io = io, call_by = who, call_op = OpSend dst subj bod rfs\<rparr>"
  have c': "c' = comm_call k ?x c" using assms(5) by (simp add: comm_call_def)
  have "hm_get plain mid (messages c') \<noteq> None"
    using assms(3,5) by (auto simp: handle_message_send_def Let_def hm_simps split: sum.splits if_splits)
  moreover have "records_of c' = records_of c"
    using assms(4,5) by (cases "io_append io")
      (auto simp: handle_message_send_def Let_def records_of_def journal_append_def
        note_message_op_def split: sum.splits if_splits)
  ultimately have g: "hm_get plain mid (messages c'') \<noteq> None"
    "\<forall>r\<in>set (records_of c''). \<not> mentions_send mid r"
    using calls_keep_gap [OF assms(6), of c' k] assms(2,7) by auto
  have "hm_get plain mid (fst (tables (comm_new (journal c'') (artifact_files c'')))) = None"
    unfolding comm_new_tables using g(2) by (intro replay_without_send) (simp_all add: records_of_def)
  moreover have "records_of (journal_append Written r (journal_append Torn r' c)) = records_of c"
    by (simp add: records_of_def journal_append_def List.map_filter_def Let_def)
  ultimately show ?thesis using g(1) by (simp add: tables_def)
qed

definition gap_store :: CommunicationStore where
  "gap_store = snd (handle_message_send comm_run (comm_io ''m1'' Skipped) comm_lead ''w0'' ''hi'' ''go'' [] comm_empty)"

theorem journal_gap_permanent_witness:
  "\<exists>c. c = fold (comm_call raw_codecs) (tl example_calls) gap_store \<and>
     hm_get plain ''m1'' (messages c) \<noteq> None \<and>
     hm_get plain ''m1'' (messages (comm_new (journal c) (artifact_files c))) = None"
proof -
  have s: "handle_message_send comm_run (comm_io ''m1'' Skipped) comm_lead ''w0'' ''hi'' ''go'' [] comm_empty =
      (Inr ''m1'', gap_store)"
    by (simp add: gap_store_def comm_eval)
  have "\<forall>x\<in>set (tl example_calls). io_uuid (call_io x) \<noteq> ''m1''"
    by (simp add: example_calls_def comm_io_def)
  from journal_gap_permanent [OF _ _ _ _ s this refl, of raw_codecs] show ?thesis
    by (simp add: comm_empty_facts comm_io_def)
qed

section \<open>Appends that overtake each other\<close>

text \<open>
  The handlers release the table lock before they append, so records of different calls reach the
  journal in any order. A call's record, once handed over, is pending until a flush step writes it.
\<close>

record Racing =
  live :: CommunicationStore
  pending :: "JournalRecord list"

definition with_append :: "AppendIo \<Rightarrow> CommCall \<Rightarrow> CommCall" where
  "with_append io x = x\<lparr>call_io := (call_io x)\<lparr>io_append := io\<rparr>\<rparr>"

text \<open>The record a call hands to the journal, if any.\<close>

definition handed :: "Codecs \<Rightarrow> CommCall \<Rightarrow> CommunicationStore \<Rightarrow> JournalRecord list" where
  "handed k x c = records_of (comm_call k (with_append Written x) (c\<lparr>journal := empty_journal\<rparr>))"

inductive racing :: "Codecs \<Rightarrow> Racing \<Rightarrow> bool" for k where
  start: "racing k \<lparr>live = comm_empty, pending = []\<rparr>"
| call: "racing k r \<Longrightarrow> hm_get plain (io_uuid (call_io x)) (messages (live r)) = None \<Longrightarrow>
     racing k \<lparr>live = comm_call k (with_append Skipped x) (live r),
       pending = pending r @ handed k x (live r)\<rparr>"
| flush: "racing k r \<Longrightarrow> pending r = xs @ j # ys \<Longrightarrow>
     racing k \<lparr>live = journal_append Written j (live r), pending = xs @ ys\<rparr>"

definition acks_of :: "string \<Rightarrow> JournalRecord list \<Rightarrow> string set" where
  "acks_of mid rs = {who. MessageAck mid who \<in> set rs}"

definition sends_of :: "string \<Rightarrow> JournalRecord list \<Rightarrow> JournalRecord list" where
  "sends_of mid rs = filter (mentions_send mid) rs"

text \<open>
  Every message of the running store has one send record, in the journal or pending, and the
  acknowledgements are those of the records; an unknown id has no record.
\<close>

definition accounted :: "CommunicationStore \<Rightarrow> JournalRecord list \<Rightarrow> bool" where
  "accounted c rs \<longleftrightarrow>
     (\<forall>mid. case hm_get plain mid (messages c) of
        None \<Rightarrow> sends_of mid rs = [] \<and> acks_of mid rs = {}
      | Some m \<Rightarrow> sends_of mid rs = [MessageSend (message_full (m\<lparr>sm_acked_by := {}\<rparr>))] \<and>
          sm_message_id m = mid \<and> sm_acked_by m = acks_of mid rs)"

lemma call_tables_indep:
  "tables (comm_call k (with_append io x) (c\<lparr>journal := j\<rparr>)) = tables (comm_call k x c)"
  by (cases "call_op x")
    (auto simp: comm_call_simps with_append_def tables_def note_message_op_def note_artifact_op_def
      split: sum.splits option.splits)

lemma handed_cases:
  obtains (none) "handed k x c = []" "tables (comm_call k (with_append Skipped x) c) = tables c"
  | (one) r where "handed k x c = [r]"
      "tables (comm_call k (with_append Skipped x) c) = app_record r (tables c)" "record_ok x c r"
proof -
  let ?x = "with_append Written x" let ?c = "c\<lparr>journal := empty_journal\<rparr>"
  have t: "tables (comm_call k (with_append Skipped x) c) = tables (comm_call k ?x ?c)"
    using call_tables_indep [of k Skipped x "journal c" c] call_tables_indep [of k Written x empty_journal c]
    by simp
  have e: "records_of ?c = []" "no_gap ?c" "tables ?c = tables c" "messages ?c = messages c"
    by (simp_all add: records_of_def no_gap_def empty_journal_def tables_def map_filter_simps)
  show ?thesis
  proof (cases k ?x ?c rule: comm_call_cases)
    case same
    then show ?thesis using t e same_journal [of "comm_call k ?x ?c" ?c]
      by (intro none) (simp_all add: handed_def)
  next
    case (logged r d)
    have "handed k x c = [r]"
      using logged(1,3) e same_journal [of d ?c] records_append(1) [of d r]
      by (simp add: handed_def with_append_def)
    moreover have "tables (comm_call k (with_append Skipped x) c) = app_record r (tables c)"
      using t logged(1,2) e(3) by (simp add: tables_def)
    moreover have "record_ok x c r"
      using logged(4) e(4) by (simp add: record_ok_def with_append_def split: JournalRecord.splits)
    ultimately show ?thesis by (rule one)
  qed
qed

lemma skipped_journal: "journal (comm_call k (with_append Skipped x) c) = journal c"
  by (cases k "with_append Skipped x" c rule: comm_call_cases)
    (simp_all add: with_append_def journal_append_def)

text \<open>
  Executions whose records reach the journal in the order of the table writes, however late: a step
  is a handler, which writes the tables and hands over its record, or the append of the oldest record
  still pending.
\<close>

datatype RaceStep = Handle CommCall | WriteNext

fun race_step :: "Codecs \<Rightarrow> RaceStep \<Rightarrow> Racing \<Rightarrow> Racing" where
  "race_step k (Handle x) r =
     \<lparr>live = comm_call k (with_append Skipped x) (live r), pending = pending r @ handed k x (live r)\<rparr>"
| "race_step k WriteNext r =
     (case pending r of
        [] \<Rightarrow> r
      | j # js \<Rightarrow> \<lparr>live = journal_append Written j (live r), pending = js\<rparr>)"

definition race_start :: Racing where
  "race_start = \<lparr>live = comm_empty, pending = []\<rparr>"

interpretation rc: single_logged "\<lambda>r. tables (live r)" "\<lambda>r. records_of (live r) @ pending r" app_record
  "race_step k" "\<lambda>_. True" "\<lambda>r. no_gap (live r)"
  for k
proof
  fix x :: RaceStep and r :: Racing
  assume gap: "no_gap (live r)"
  have call: "no_gap (live r') \<and> records_of (live r') = records_of (live r) \<and> pending r' = pending r @ handed k c (live r)"
    if "x = Handle c" "r' = race_step k x r" for c r'
    using that same_journal [OF skipped_journal, of k c "live r"] gap by simp
  have "no_gap (live (race_step k x r)) \<and>
      (\<exists>rs. records_of (live (race_step k x r)) @ pending (race_step k x r) = (records_of (live r) @ pending r) @ rs \<and>
        tables (live (race_step k x r)) = fold app_record rs (tables (live r)) \<and> length rs \<le> 1)"
  proof (cases x)
    case (Handle c)
    show ?thesis using call [OF Handle refl]
      by (cases k c "live r" rule: handed_cases)
        (auto simp: Handle intro!: exI [of _ "[]"] exI [of _ "[_]"])
  next
    case WriteNext
    then show ?thesis using gap records_append [OF gap] by (auto simp: tables_def split: list.splits)
  qed
  then show "no_gap (live (race_step k x r))"
    "\<exists>rs. records_of (live (race_step k x r)) @ pending (race_step k x r) = (records_of (live r) @ pending r) @ rs \<and>
        tables (live (race_step k x r)) = fold app_record rs (tables (live r))"
    "length (records_of (live (race_step k x r)) @ pending (race_step k x r)) \<le>
       Suc (length (records_of (live r) @ pending r))"
    by (auto simp del: length_append) (auto simp: length_append)
qed

text \<open>
  C39: Resuming a run gives back its mailbox and its artifacts as they stood after a prefix of the
  calls. For calls by any actors, on whatever topology each of them saw, whose journal records are
  written in the order of the table writes, at whatever delay: the store rebuilt from the journal
  has the messages with their acknowledgements and the artifacts with their grants that the crashed
  dispatcher held at the moment when the records handed over were exactly those now in the journal.
  So a crash loses the calls whose records are still pending, all of each and nothing else, and
  with none pending the rebuilt tables are the tables of the dispatcher. Records that overtake each
  other are excluded here; what they lose is the subject of \<open>overtaken_acks_lost\<close>.
\<close>

theorem resume_roundtrip:
  assumes "r = fold (race_step k) steps race_start"
    and "rebuilt = comm_new (journal (live r)) (artifact_files (live r))"
  shows "(\<exists>n r'. n \<le> length steps \<and> r' = fold (race_step k) (take n steps) race_start \<and>
      records_of (live r') @ pending r' = records_of (live r) \<and>
      messages rebuilt = messages (live r') \<and> artifacts rebuilt = artifacts (live r')) \<and>
    (pending r = [] \<longrightarrow> messages rebuilt = messages (live r) \<and> artifacts rebuilt = artifacts (live r))"
proof -
  have start: "no_gap (live race_start)" "records_of (live race_start) @ pending race_start = []"
    "tables (live race_start) = ([], [])"
    by (simp_all add: race_start_def comm_empty_facts)
  have t: "tables rebuilt = fold app_record (records_of (live r)) (tables (live race_start))"
    by (simp add: assms(2) comm_new_tables records_of_def start(3))
  obtain n where n: "n \<le> length steps"
    "records_of (live (fold (race_step k) (take n steps) race_start)) @
       pending (fold (race_step k) (take n steps) race_start) = records_of (live r)"
    "tables rebuilt = tables (live (fold (race_step k) (take n steps) race_start))"
    using rc.replay_prefix [of steps race_start k "records_of (live r)" "pending r"] start t assms(1) by auto
  have "tables rebuilt = tables (live r)" if "pending r = []"
    using rc.replay_log [of steps race_start k] start t that assms(1) by simp
  then show ?thesis using n by (auto simp: tables_def)
qed

lemma accounted_one:
  assumes acc: "accounted c rs" and new: "hm_get plain (io_uuid (call_io x)) (messages c) = None"
    and ok: "record_ok x c r" and m: "messages c' = fst (app_record r (tables c))"
  shows "accounted c' (rs @ [r])"
  unfolding accounted_def
proof
  fix mid
  note d = accounted_def sends_of_def acks_of_def mentions_send_def
  show "case hm_get plain mid (messages c') of
        None \<Rightarrow> sends_of mid (rs @ [r]) = [] \<and> acks_of mid (rs @ [r]) = {}
      | Some m \<Rightarrow> sends_of mid (rs @ [r]) = [MessageSend (message_full (m\<lparr>sm_acked_by := {}\<rparr>))] \<and>
          sm_message_id m = mid \<and> sm_acked_by m = acks_of mid (rs @ [r])"
    using acc [unfolded accounted_def, rule_format, of mid] ok m new
    by (cases r)
      (auto simp: d record_ok_def app_record_def apply_journal_record_def tables_def hm_simps
        message_full_def split: option.splits if_splits)
qed

lemma accounted_perm:
  assumes "accounted c rs" and "mset rs' = mset rs" and "messages c' = messages c"
  shows "accounted c' rs'"
proof -
  have s: "set rs' = set rs" using assms(2) by (metis set_mset_mset)
  have f: "mset (sends_of mid rs') = mset (sends_of mid rs)" for mid
    unfolding sends_of_def using assms(2) by (simp add: mset_filter)
  then have "sends_of mid rs = [] \<Longrightarrow> sends_of mid rs' = []" for mid by (metis mset_zero_iff)
  moreover have "sends_of mid rs = [y] \<Longrightarrow> sends_of mid rs' = [y]" for mid y
    using f [of mid] by (simp add: mset_single_iff_right)
  moreover have "acks_of mid rs' = acks_of mid rs" for mid by (simp add: acks_of_def s)
  ultimately have "case hm_get plain mid (messages c) of
        None \<Rightarrow> sends_of mid rs' = [] \<and> acks_of mid rs' = {}
      | Some m \<Rightarrow> sends_of mid rs' = [MessageSend (message_full (m\<lparr>sm_acked_by := {}\<rparr>))] \<and>
          sm_message_id m = mid \<and> sm_acked_by m = acks_of mid rs'" for mid
    using assms(1) [unfolded accounted_def, rule_format, of mid]
    by (cases "hm_get plain mid (messages c)") simp_all
  then show ?thesis unfolding accounted_def assms(3) by blast
qed

lemma racing_inv:
  "racing k r \<Longrightarrow> no_gap (live r) \<and> accounted (live r) (records_of (live r) @ pending r)"
proof (induction rule: racing.induct)
  case start
  then show ?case by (simp add: comm_empty_facts accounted_def sends_of_def acks_of_def)
next
  case (call r x)
  let ?c' = "comm_call k (with_append Skipped x) (live r)"
  have g: "no_gap ?c'" "records_of ?c' = records_of (live r)"
    using same_journal [OF skipped_journal, of k x "live r"] call.IH by simp_all
  have "accounted ?c' (records_of (live r) @ pending r @ handed k x (live r))"
  proof (cases k x "live r" rule: handed_cases)
    case none
    then show ?thesis using call.IH by (simp add: accounted_def tables_def)
  next
    case (one j)
    have "messages ?c' = fst (app_record j (tables (live r)))" using one(2) by (simp add: tables_def) (metis fst_conv)
    then show ?thesis
      using accounted_one [OF conjunct2 [OF call.IH] call.hyps(2) one(3)] by (simp add: one(1))
  qed
  then show ?case using g by simp
next
  case (flush r xs j ys)
  have "accounted (journal_append Written j (live r)) (records_of (live r) @ [j] @ xs @ ys)"
    using flush.hyps by (intro accounted_perm [OF conjunct2 [OF flush.IH]]) simp_all
  then show ?case using flush.IH records_append [of "live r" j] by simp
qed

lemma replay_acks:
  assumes "hm_get plain mid (fst t) = Some m" and "sends_of mid rs = []"
  shows "hm_get plain mid (fst (fold app_record rs t)) =
    Some (m\<lparr>sm_acked_by := sm_acked_by m \<union> acks_of mid rs\<rparr>)"
  using assms
proof (induction rs arbitrary: t m)
  case Nil
  then show ?case by (cases m) (simp add: acks_of_def)
next
  case (Cons r rs)
  let ?t = "app_record r t"
  have s: "sends_of mid rs = []" "\<not> mentions_send mid r"
    using Cons.prems(2) by (auto simp: sends_of_def split: if_splits)
  have "hm_get plain mid (fst ?t) = Some (m\<lparr>sm_acked_by := sm_acked_by m \<union> acks_of mid [r]\<rparr>)"
    using Cons.prems(1) s(2)
    by (cases r; cases m)
      (auto simp: app_record_def apply_journal_record_def tables_def hm_simps acks_of_def mentions_send_def)
  then show ?case using Cons.IH [OF _ s(1)]
    by (simp add: acks_of_def) (auto intro!: arg_cong [of _ _ "\<lambda>A. m\<lparr>sm_acked_by := A\<rparr>"])
qed

lemma sends_split:
  assumes "sends_of mid rs = [MessageSend msg]"
  obtains xs ys where "rs = xs @ MessageSend msg # ys" "sends_of mid xs = []" "sends_of mid ys = []"
  using assms unfolding sends_of_def
  by (metis Cons_eq_filterD filter_empty_conv)

text \<open>
  C40: Replay loses exactly the acknowledgements that overtook their message. Whatever the order in
  which the records of interleaved calls reach the journal, once all of them are written the rebuilt
  store has every message of the running store, unchanged but for the acknowledgements whose record
  was written before the record of the message itself: those are gone. With no overtaking the rebuilt
  message is the message.
\<close>

theorem overtaken_acks_lost:
  assumes "racing k r" and "pending r = []" and "hm_get plain mid (messages (live r)) = Some m"
  shows "\<exists>xs msg ys. records_of (live r) = xs @ MessageSend msg # ys \<and> message_id msg = mid \<and>
    sm_acked_by m = acks_of mid xs \<union> acks_of mid ys \<and>
    hm_get plain mid (messages (comm_new (journal (live r)) (artifact_files (live r)))) =
      Some (m\<lparr>sm_acked_by := acks_of mid ys\<rparr>) \<and>
    (acks_of mid xs = {} \<longrightarrow>
      hm_get plain mid (messages (comm_new (journal (live r)) (artifact_files (live r)))) = Some m)"
proof -
  let ?rs = "records_of (live r)" let ?msg = "message_full (m\<lparr>sm_acked_by := {}\<rparr>)"
  have a: "sends_of mid ?rs = [MessageSend ?msg]" "sm_message_id m = mid" "sm_acked_by m = acks_of mid ?rs"
    using racing_inv [OF assms(1)] assms(2,3) unfolding accounted_def by (auto split: option.splits)
  obtain xs ys where r: "?rs = xs @ MessageSend ?msg # ys" "sends_of mid xs = []" "sends_of mid ys = []"
    using a(1) by (rule sends_split)
  have acks: "sm_acked_by m = acks_of mid xs \<union> acks_of mid ys"
    unfolding a(3) r(1) by (auto simp: acks_of_def)
  have id: "message_id ?msg = mid" using a(2) by (simp add: message_full_def)
  have "hm_get plain mid (fst (app_record (MessageSend ?msg) t)) = Some (m\<lparr>sm_acked_by := {}\<rparr>)" for t
    using a(2) by (cases m)
      (simp add: app_record_def apply_journal_record_def tables_def hm_simps message_full_def)
  then have "hm_get plain mid (fst (fold app_record ?rs ([], []))) = Some (m\<lparr>sm_acked_by := acks_of mid ys\<rparr>)"
    unfolding r(1) using replay_acks [OF _ r(3)] by simp
  then have g: "hm_get plain mid (messages (comm_new (journal (live r)) (artifact_files (live r)))) =
      Some (m\<lparr>sm_acked_by := acks_of mid ys\<rparr>)"
    unfolding records_of_def
    using comm_new_tables [of "journal (live r)" "artifact_files (live r)", symmetric]
    by (simp add: tables_def)
  have "acks_of mid xs = {} \<Longrightarrow> m\<lparr>sm_acked_by := acks_of mid ys\<rparr> = m"
    using acks by (cases m) simp
  then show ?thesis using r(1) id acks g by (intro exI [of _ xs] exI [of _ ?msg] exI [of _ ys]) simp
qed

text \<open>The acknowledgement of \<open>w0\<close> is appended before the message it acknowledges.\<close>

definition race_send :: CommCall where
  "race_send = example_calls ! 0"

definition race_ack :: CommCall where
  "race_ack = example_calls ! 1"

definition race_end :: Racing where
  "race_end =
     (let c = comm_call raw_codecs (with_append Skipped race_ack)
            (comm_call raw_codecs (with_append Skipped race_send) comm_empty);
          m = hd (handed raw_codecs race_send comm_empty);
          a = hd (handed raw_codecs race_ack (comm_call raw_codecs (with_append Skipped race_send) comm_empty))
      in \<lparr>live = journal_append Written m (journal_append Written a c), pending = []\<rparr>)"

lemma race_handed:
  "\<exists>m. message_id m = ''m1'' \<and> handed raw_codecs race_send comm_empty = [MessageSend m]"
  "handed raw_codecs race_ack (comm_call raw_codecs (with_append Skipped race_send) comm_empty) =
     [MessageAck ''m1'' ''w0'']"
  by (auto simp: handed_def race_send_def race_ack_def example_calls_def with_append_def comm_eval raw_codecs_def
      records_of_def journal_append_def empty_journal_def map_filter_simps message_full_def note_message_op_def)

lemma race_end_racing: "racing raw_codecs race_end"
proof -
  let ?s = "comm_call raw_codecs (with_append Skipped race_send) comm_empty"
  obtain m where m: "handed raw_codecs race_send comm_empty = [MessageSend m]" using race_handed(1) by blast
  have 1: "racing raw_codecs \<lparr>live = ?s, pending = [MessageSend m]\<rparr>"
    using racing.call [OF racing.start, of race_send raw_codecs] m by (simp add: comm_empty_facts)
  have "hm_get plain (io_uuid (call_io race_ack)) (messages ?s) = None"
    by (simp add: race_send_def race_ack_def example_calls_def with_append_def comm_eval raw_codecs_def)
  then have 2: "racing raw_codecs \<lparr>live = comm_call raw_codecs (with_append Skipped race_ack) ?s,
      pending = [MessageSend m, MessageAck ''m1'' ''w0'']\<rparr>"
    using racing.call [OF 1, of race_ack] race_handed(2) by simp
  have 3: "racing raw_codecs \<lparr>live = journal_append Written (MessageAck ''m1'' ''w0'')
      (comm_call raw_codecs (with_append Skipped race_ack) ?s), pending = [MessageSend m]\<rparr>"
    using racing.flush [OF 2, of "[MessageSend m]" _ "[]"] by simp
  show ?thesis using racing.flush [OF 3, of "[]" _ "[]"] m race_handed(2)
    by (simp add: race_end_def Let_def)
qed

lemma race_end_facts:
  "pending race_end = []"
  "\<exists>m. hm_get plain ''m1'' (messages (live race_end)) = Some m \<and> sm_acked_by m = {''w0''}"
  "\<exists>m. message_id m = ''m1'' \<and> records_of (live race_end) = [MessageAck ''m1'' ''w0'', MessageSend m]"
proof -
  show "pending race_end = []" by (simp add: race_end_def Let_def)
  show "\<exists>m. hm_get plain ''m1'' (messages (live race_end)) = Some m \<and> sm_acked_by m = {''w0''}"
    by (simp add: race_end_def Let_def race_send_def race_ack_def example_calls_def with_append_def comm_eval
        raw_codecs_def hm_update_def)
  let ?c = "comm_call raw_codecs (with_append Skipped race_ack)
    (comm_call raw_codecs (with_append Skipped race_send) comm_empty)"
  have "journal ?c = journal comm_empty"
    by (simp add: race_send_def race_ack_def example_calls_def with_append_def comm_eval raw_codecs_def
        journal_append_def)
  then have "records_of ?c = []" "no_gap ?c" using same_journal [of ?c comm_empty] comm_empty_facts by auto
  then show "\<exists>m. message_id m = ''m1'' \<and> records_of (live race_end) = [MessageAck ''m1'' ''w0'', MessageSend m]"
    using race_handed records_append by (auto simp: race_end_def Let_def)
qed

theorem overtaken_acks_lost_witness:
  "\<exists>m m'. racing raw_codecs race_end \<and> hm_get plain ''m1'' (messages (live race_end)) = Some m \<and>
     sm_acked_by m = {''w0''} \<and>
     hm_get plain ''m1'' (messages (comm_new (journal (live race_end)) (artifact_files (live race_end)))) =
       Some m' \<and> sm_acked_by m' = {}"
proof -
  obtain m where m: "hm_get plain ''m1'' (messages (live race_end)) = Some m" "sm_acked_by m = {''w0''}"
    using race_end_facts(2) by blast
  obtain s where s: "records_of (live race_end) = [MessageAck ''m1'' ''w0'', MessageSend s]"
    using race_end_facts(3) by blast
  obtain xs msg ys where l: "records_of (live race_end) = xs @ MessageSend msg # ys"
    "hm_get plain ''m1'' (messages (comm_new (journal (live race_end)) (artifact_files (live race_end)))) =
      Some (m\<lparr>sm_acked_by := acks_of ''m1'' ys\<rparr>)"
    using overtaken_acks_lost [OF race_end_racing race_end_facts(1) m(1)] by blast
  have "ys = []" using l(1) s by (auto simp: Cons_eq_append_conv)
  then show ?thesis using race_end_racing m l(2) by (simp add: acks_of_def)
qed

text \<open>The same two calls with their records written in order, the second one not yet.\<close>

theorem resume_roundtrip_witness:
  "\<exists>n r r'. r = fold (race_step raw_codecs) [Handle race_send, Handle race_ack, WriteNext] race_start \<and>
     r' = fold (race_step raw_codecs) (take n [Handle race_send, Handle race_ack, WriteNext]) race_start \<and>
     pending r = [MessageAck ''m1'' ''w0''] \<and> length (records_of (live r)) = 1 \<and>
     length (records_of (live r') @ pending r') = 1 \<and>
     messages (comm_new (journal (live r)) (artifact_files (live r))) = messages (live r')"
proof -
  let ?steps = "[Handle race_send, Handle race_ack, WriteNext]"
  let ?r = "fold (race_step raw_codecs) ?steps race_start"
  obtain m where m: "handed raw_codecs race_send comm_empty = [MessageSend m]" using race_handed(1) by blast
  let ?c = "comm_call raw_codecs (with_append Skipped race_ack)
    (comm_call raw_codecs (with_append Skipped race_send) comm_empty)"
  have "records_of ?c = []" "no_gap ?c"
    using same_journal [OF skipped_journal] comm_empty_facts by metis+
  then have r: "pending ?r = [MessageAck ''m1'' ''w0'']" "length (records_of (live ?r)) = 1"
    using m race_handed(2) records_append by (simp_all add: race_start_def)
  obtain n r' where "r' = fold (race_step raw_codecs) (take n ?steps) race_start"
    "records_of (live r') @ pending r' = records_of (live ?r)"
    "messages (comm_new (journal (live ?r)) (artifact_files (live ?r))) = messages (live r')"
    using resume_roundtrip [OF refl refl, of ?steps raw_codecs] by blast
  then show ?thesis using r by (intro exI [of _ n] exI [of _ ?r] exI [of _ r']) simp
qed

end
