(* ===== verification/Comm_Safety.thy ===== *)
theory Comm_Safety
  imports Comm_Journal Sublead
begin

text \<open>
  What actors can reach through the communication plane: limits and stored bytes hold in every
  reachable store, an artifact reads back as it was put, and without the root lead's help nothing
  crosses from one sub-tree to another.
\<close>

section \<open>Limits and stored bytes\<close>

text \<open>Stores reached by calls of any actors under one configuration, each with a fresh identifier.\<close>

inductive comm_reach :: "Codecs \<Rightarrow> CommunicationConfig \<Rightarrow> CommunicationStore \<Rightarrow> bool" for k cfg where
  start: "comm_reach k cfg comm_empty"
| step: "comm_reach k cfg c \<Longrightarrow> communication (manifest (root (call_state x))) = cfg \<Longrightarrow>
     hm_get plain (io_uuid (call_io x)) (artifacts c) = None \<Longrightarrow> comm_reach k cfg (comm_call k x c)"

definition artifact_ok :: "Codecs \<Rightarrow> CommunicationConfig \<Rightarrow> (string \<times> bytes) list \<Rightarrow> string \<Rightarrow> StoredArtifact \<Rightarrow> bool" where
  "artifact_ok k cfg files aid a \<longleftrightarrow>
     artifact_id (sa_metadata a) = aid \<and> sa_path a = aid \<and>
     (\<exists>content. hm_get plain aid files = Some content \<and>
        length content \<le> unat (max_artifact_bytes cfg) \<and>
        unat (size_bytes (sa_metadata a)) = length content \<and> sha256 (sa_metadata a) = sha_hex k content)"

definition comm_inv :: "Codecs \<Rightarrow> CommunicationConfig \<Rightarrow> CommunicationStore \<Rightarrow> bool" where
  "comm_inv k cfg c \<longleftrightarrow>
     hm_wf plain (artifacts c) \<and>
     (\<forall>mid m. (mid, m) \<in> set (messages c) \<longrightarrow> length (sm_body m) \<le> unat (max_message_bytes cfg)) \<and>
     (\<forall>actor. owned_count actor (artifacts c) \<le> unat (max_artifacts_per_actor cfg)) \<and>
     (\<forall>aid a. (aid, a) \<in> set (artifacts c) \<longrightarrow> artifact_ok k cfg (artifact_files c) aid a)"

lemma hm_update_wf [simp]: "hm_wf plain (hm_update k f m) = hm_wf plain m"
  by (simp add: hm_wf_def comp_def)

lemma hm_insert_fresh_set: "hm_get plain k m = None \<Longrightarrow> set (hm_insert plain k v m) = insert (k, v) (set m)"
  by (simp add: hm_insert_new)

lemma owned_count_update:
  "(\<And>a. art_owner (sa_metadata (f a)) = art_owner (sa_metadata a)) \<Longrightarrow>
   owned_count actor (hm_update aid f m) = owned_count actor m"
  by (simp add: owned_count_def hm_update_def filter_map comp_def case_prod_unfold)

lemma owned_count_insert:
  "hm_get plain aid m = None \<Longrightarrow>
   owned_count actor (hm_insert plain aid a m) =
     owned_count actor m + (if art_owner (sa_metadata a) = actor then 1 else 0)"
  by (simp add: owned_count_def hm_insert_new)

lemma artifact_ok_files:
  "aid \<noteq> u \<Longrightarrow> artifact_ok k cfg (hm_insert plain u v files) aid a = artifact_ok k cfg files aid a"
  "aid \<noteq> u \<Longrightarrow> artifact_ok k cfg (hm_remove plain u (hm_insert plain u v files)) aid a =
     artifact_ok k cfg files aid a"
  by (simp_all add: artifact_ok_def hm_simps)

lemma fresh_key: "hm_get plain u m = None \<Longrightarrow> (aid, a) \<in> set m \<Longrightarrow> aid \<noteq> u"
  by (auto simp: hm_get_None_iff image_iff)

lemma unat_len: "length (content :: bytes) \<le> unat (n :: u64) \<Longrightarrow> unat (word_of_nat (length content) :: u64) = length content"
  using unsigned_less [where ?'a = nat, of n] by (simp add: unat_of_nat take_bit_nat_eq_self)

lemma comm_inv_call:
  assumes inv: "comm_inv k cfg c" and cfg: "communication (manifest (root (call_state x))) = cfg"
    and fresh: "hm_get plain (io_uuid (call_io x)) (artifacts c) = None"
  shows "comm_inv k cfg (comm_call k x c)"
  using comm_call_effect [of k x c]
proof (cases rule: comm_effect.cases)
  case quiet
  then show ?thesis using inv by (simp add: comm_inv_def tables_def)
next
  case (over_quota content)
  then show ?thesis using inv fresh_key [OF fresh]
    by (auto simp: comm_inv_def tables_def artifact_ok_files)
next
  case (sent dst subj bod rfs to' m d)
  then show ?thesis using inv cfg
    by (auto simp: comm_inv_def tables_def dest!: hm_insert_in)
next
  case (acked mid m d)
  then show ?thesis using inv
    by (auto simp: comm_inv_def tables_def hm_update_mem)
next
  case (stored nam mime b content md d)
  have new: "artifact_ok k cfg (artifact_files d) (io_uuid (call_io x))
      \<lparr>sa_metadata = md, sa_path = io_uuid (call_io x), sa_grants = {}\<rparr>"
    using stored cfg unat_len [of content] by (simp add: artifact_ok_def hm_simps)
  have old: "artifact_ok k cfg (artifact_files d) aid a" if "(aid, a) \<in> set (artifacts c)" for aid a
    using stored that inv fresh_key [OF fresh that] by (simp add: comm_inv_def artifact_ok_files)
  have cnt: "owned_count actor (artifacts c) \<le> unat (max_artifacts_per_actor cfg)" for actor
    using inv by (simp add: comm_inv_def)
  show ?thesis using stored inv cfg fresh new old cnt
    by (auto simp: comm_inv_def tables_def owned_count_insert hm_insert_fresh_set simp del: One_nat_def)
next
  case (granted aid dst a to' d)
  then show ?thesis using inv
    by (auto simp: comm_inv_def tables_def hm_update_mem owned_count_update artifact_ok_def split: if_splits)
qed


lemma comm_reach_inv: "comm_reach k cfg c \<Longrightarrow> comm_inv k cfg c"
proof (induction rule: comm_reach.induct)
  case start
  then show ?case by (simp add: comm_inv_def comm_empty_facts owned_count_def)
qed (rule comm_inv_call)

text \<open>What an existing artifact keeps through a call: its owner, its file and the grants it has.\<close>

lemma artifact_kept:
  assumes "hm_get plain aid (artifacts c) = Some a"
    and "hm_get plain (io_uuid (call_io x)) (artifacts c) = None"
  shows "\<exists>a'. hm_get plain aid (artifacts (comm_call k x c)) = Some a' \<and>
    sa_metadata a' = sa_metadata a \<and> sa_path a' = sa_path a \<and> sa_grants a \<subseteq> sa_grants a' \<and>
    hm_get plain aid (artifact_files (comm_call k x c)) = hm_get plain aid (artifact_files c)"
proof -
  have ne: "aid \<noteq> io_uuid (call_io x)" using assms by auto
  show ?thesis
    using comm_call_effect [of k x c]
    by (cases rule: comm_effect.cases)
      (use assms(1) ne in \<open>auto simp: tables_def hm_simps\<close>)
qed

text \<open>Later stores: more calls, each with an identifier that no artifact has.\<close>

inductive comm_later :: "Codecs \<Rightarrow> CommunicationStore \<Rightarrow> CommunicationStore \<Rightarrow> bool" for k c where
  later_here: "comm_later k c c"
| later_call: "comm_later k c d \<Longrightarrow> hm_get plain (io_uuid (call_io x)) (artifacts d) = None \<Longrightarrow>
     comm_later k c (comm_call k x d)"

lemma artifact_kept_later:
  assumes "comm_later k c d" and "hm_get plain aid (artifacts c) = Some a"
  shows "\<exists>a'. hm_get plain aid (artifacts d) = Some a' \<and> sa_metadata a' = sa_metadata a \<and>
    sa_path a' = sa_path a \<and> sa_grants a \<subseteq> sa_grants a' \<and>
    hm_get plain aid (artifact_files d) = hm_get plain aid (artifact_files c)"
  using assms
proof (induction rule: comm_later.induct)
  case (later_call d x)
  then obtain a' where "hm_get plain aid (artifacts d) = Some a'" "sa_metadata a' = sa_metadata a"
    "sa_path a' = sa_path a" "sa_grants a \<subseteq> sa_grants a'"
    "hm_get plain aid (artifact_files d) = hm_get plain aid (artifact_files c)" by blast
  then show ?case using artifact_kept [of aid d a' x k] later_call.hyps(2) by fastforce
qed simp

text \<open>
  In every store reached by calls of any actors under one configuration, no message body is longer
  than the configured limit, no actor owns more artifacts than its quota, and every artifact has its
  bytes on disk, within the size limit, with the recorded size and digest those of the bytes.
\<close>

theorem comm_limits:
  assumes "comm_reach k cfg c"
  shows "(\<forall>mid m. hm_get plain mid (messages c) = Some m \<longrightarrow> length (sm_body m) \<le> unat (max_message_bytes cfg)) \<and>
    (\<forall>actor. owned_count actor (artifacts c) \<le> unat (max_artifacts_per_actor cfg)) \<and>
    (\<forall>aid a. hm_get plain aid (artifacts c) = Some a \<longrightarrow>
       (\<exists>content. hm_get plain (sa_path a) (artifact_files c) = Some content \<and>
          length content \<le> unat (max_artifact_bytes cfg) \<and>
          unat (size_bytes (sa_metadata a)) = length content \<and> sha256 (sa_metadata a) = sha_hex k content))"
  using comm_reach_inv [OF assms] unfolding comm_inv_def artifact_ok_def
  by (auto dest!: hm_plain_get_in)

text \<open>
  What an actor stores as an artifact it reads back, byte for byte, after any further calls by
  anybody, with the size and digest it was told when it stored them, provided base64 decoding inverts
  encoding.
\<close>

theorem artifact_roundtrip:
  assumes "comm_reach k cfg c" and "communication (manifest (root s)) = cfg"
    and "hm_get plain (io_uuid io) (artifacts c) = None"
    and "handle_artifact_put (b64_decode k) (sha_hex k) s io who nam mime b c = (Inr r, c')"
    and "comm_later k c' d"
    and "ensure_enabled s' = Inr ()" and "caller_id who' = caller_id who"
    and "\<forall>bs. b64_decode k (b64_encode k bs) = Inr bs"
  shows "\<exists>md b'. fst (handle_artifact_read (b64_encode k) s' who' (apr_artifact_id r) d) = Inr (md, b') \<and>
    b64_decode k b' = b64_decode k b \<and> size_bytes md = apr_size_bytes r \<and> sha256 md = apr_sha256 r \<and>
    art_owner md = caller_id who"
proof -
  obtain content where content: "b64_decode k b = Inr content"
    using assms(4) by (cases "b64_decode k b")
      (auto simp: handle_artifact_put_def Let_def split: sum.splits)
  have aid: "apr_artifact_id r = io_uuid io"
    and put: "hm_get plain (io_uuid io) (artifacts c') = Some \<lparr>sa_metadata =
        \<lparr>artifact_id = io_uuid io, uri = artifact_uri s (io_uuid io), art_owner = caller_id who,
         art_name = nam, mime_type = mime, size_bytes = apr_size_bytes r, sha256 = apr_sha256 r,
         art_created_at = io_now io, meta_grants = []\<rparr>, sa_path = io_uuid io, sa_grants = {}\<rparr>"
    and fil: "hm_get plain (io_uuid io) (artifact_files c') = Some content"
    using assms(4) content
    by (auto simp: handle_artifact_put_def Let_def hm_simps split: sum.splits if_splits option.splits)
  obtain a where a: "hm_get plain (io_uuid io) (artifacts d) = Some a"
    "art_owner (sa_metadata a) = caller_id who" "size_bytes (sa_metadata a) = apr_size_bytes r"
    "sha256 (sa_metadata a) = apr_sha256 r" "sa_path a = io_uuid io"
    "hm_get plain (io_uuid io) (artifact_files d) = Some content"
    using artifact_kept_later [OF assms(5) put] fil by auto
  have "fst (handle_artifact_read (b64_encode k) s' who' (apr_artifact_id r) d) =
      Inr (artifact_metadata a, b64_encode k content)"
    using a assms(6,7) aid by (simp add: handle_artifact_read_def Let_def can_read_artifact_def)
  then show ?thesis using a content assms(8) by (simp add: artifact_metadata_def)
qed

definition put_call :: CommCall where
  "put_call = \<lparr>call_state = comm_run, call_io = comm_io ''a1'' Written, call_by = comm_worker ''w1'',
     call_op = OpPut ''log'' None ''abc''\<rparr>"

definition put_store :: CommunicationStore where
  "put_store = comm_call raw_codecs put_call comm_empty"

lemma put_reach: "comm_reach raw_codecs (communication (manifest (root comm_run))) put_store"
  unfolding put_store_def
  by (rule comm_reach.step [OF comm_reach.start]) (simp_all add: put_call_def comm_empty_facts)

lemma put_store_artifact:
  "\<exists>a. hm_get plain ''a1'' (artifacts put_store) = Some a \<and> sa_path a = ''a1'' \<and>
     art_owner (sa_metadata a) = ''w1'' \<and> sa_grants a = {}"
  "artifact_files put_store = [(''a1'', [97, 98, 99])]"
  by (simp_all add: put_store_def put_call_def comm_eval raw_codecs_def)

theorem comm_limits_witness:
  "comm_reach raw_codecs (communication (manifest (root comm_run))) put_store \<and>
   owned_count ''w1'' (artifacts put_store) \<le> 64 \<and>
   (\<exists>a. hm_get plain ''a1'' (artifacts put_store) = Some a \<and> unat (size_bytes (sa_metadata a)) = 3)"
proof -
  obtain a where a: "hm_get plain ''a1'' (artifacts put_store) = Some a" "sa_path a = ''a1''"
    using put_store_artifact(1) by blast
  have f: "hm_get plain (sa_path a) (artifact_files put_store) = Some [97, 98, 99]"
    using put_store_artifact(2) a(2) by simp
  have "unat (size_bytes (sa_metadata a)) = 3"
    using comm_limits [OF put_reach, THEN conjunct2, THEN conjunct2, rule_format, OF a(1)] f by auto
  then show ?thesis using put_reach a(1) comm_limits [OF put_reach]
    by (simp add: comm_run_facts)
qed

lemma raw_codecs_inverse: "\<forall>bs. b64_decode raw_codecs (b64_encode raw_codecs bs) = Inr bs"
proof
  fix bs :: bytes
  have "word_of_nat (of_char (char_of (unat b) :: char)) = b" for b :: u8
    using unsigned_less [where ?'a = nat, of b] by (simp add: of_char_of)
  then show "b64_decode raw_codecs (b64_encode raw_codecs bs) = Inr bs"
    by (simp add: raw_codecs_def comp_def)
qed

theorem artifact_roundtrip_witness:
  "\<exists>md b'. fst (handle_artifact_read (b64_encode raw_codecs) comm_run (comm_worker ''w1'') ''a1''
       (comm_call raw_codecs (example_calls ! 0) put_store)) = Inr (md, b') \<and>
     b64_decode raw_codecs b' = Inr [97, 98, 99] \<and> size_bytes md = 3"
proof -
  have p: "handle_artifact_put (b64_decode raw_codecs) (sha_hex raw_codecs) comm_run (comm_io ''a1'' Written)
      (comm_worker ''w1'') ''log'' None ''abc'' comm_empty =
      (Inr \<lparr>apr_artifact_id = ''a1'', apr_uri = artifact_uri comm_run ''a1'', apr_size_bytes = 3,
        apr_sha256 = ''00''\<rparr>, put_store)"
    by (simp add: put_store_def put_call_def comm_eval raw_codecs_def)
  have l: "comm_later raw_codecs put_store (comm_call raw_codecs (example_calls ! 0) put_store)"
    by (rule comm_later.later_call [OF comm_later.later_here])
      (simp add: example_calls_def comm_io_def put_store_def put_call_def comm_eval raw_codecs_def)
  have "b64_decode raw_codecs ''abc'' = Inr [97, 98, 99]" by (simp add: raw_codecs_def)
  then show ?thesis
    using artifact_roundtrip [OF comm_reach.start refl _ p l comm_run_facts(1) refl raw_codecs_inverse]
    by (simp add: comm_empty_facts) blast
qed

section \<open>Isolation of sub-trees\<close>

text \<open>
  The sub-tree of every actor, fixed for the run: a sub-lead and its workers form one, named after
  the sub-lead, and a worker of the root is on its own. A run state fits the assignment \<open>z\<close> with
  lead \<open>L\<close> when the parent it knows for an actor, if any, is the one of the actor's sub-tree. The
  lead and the sub-leads have entries of their own in the state tables, which name themselves
  (\<open>run_kill_resume_loop\<close> writes them before the first session); actors may come and go between
  calls, and a terminated sub-lead keeps its workers.
\<close>

definition topology :: "string \<Rightarrow> (string \<Rightarrow> string) \<Rightarrow> DispatchState \<Rightarrow> bool" where
  "topology L z s \<longleftrightarrow> lead_id (root s) = L \<and> z L = L \<and>
     (\<forall>a p. worker_parent s a = Some p \<longrightarrow>
        z a = (if p = L then a else p) \<and> (a = L \<longrightarrow> p = L) \<and> z p = p)"

text \<open>The same over the tables the parent is read from.\<close>

definition tables_fit :: "string \<Rightarrow> (string \<Rightarrow> string) \<Rightarrow> DispatchState \<Rightarrow> bool" where
  "tables_fit L z s \<longleftrightarrow> lead_id (root s) = L \<and> z L = L \<and>
     (\<forall>a. hm_get plain a (worker_layer_index s) = Some None \<or> hm_get plain a (states (workers (root s))) \<noteq> None \<longrightarrow>
        z a = a) \<and>
     (\<forall>a sid. hm_get plain a (worker_layer_index s) = Some (Some sid) \<longrightarrow>
        z a = sid \<and> a \<noteq> L \<and> sid \<noteq> L \<and> z sid = sid) \<and>
     (\<forall>(sid, l)\<in>set (subleads s). \<forall>a. hm_get plain a (states (workers l)) \<noteq> None \<longrightarrow>
        z a = sid \<and> a \<noteq> L \<and> sid \<noteq> L \<and> z sid = sid) \<and>
     (\<forall>l\<in>set (terminated_sublead_layers s). \<forall>a. hm_get plain a (states (workers l)) \<noteq> None \<longrightarrow>
        z a = lead_id l \<and> a \<noteq> L \<and> lead_id l \<noteq> L \<and> z (lead_id l) = lead_id l)"

lemma find_in: "find P xs = Some x \<Longrightarrow> x \<in> set xs \<and> P x"
  by (auto simp: find_Some_iff)

lemma tables_fit_topology: "tables_fit L z s \<Longrightarrow> topology L z s"
  unfolding topology_def
proof (intro conjI allI impI)
  fix a p
  assume fit: "tables_fit L z s" and "worker_parent s a = Some p"
  then have "p = L \<and> z a = a \<or> z a = p \<and> a \<noteq> L \<and> p \<noteq> L \<and> z p = p"
    unfolding worker_parent_def tables_fit_def
    by (force split: option.splits if_splits dest!: find_in)
  then show "z a = (if p = L then a else p)" "a = L \<Longrightarrow> p = L" "z p = p"
    using fit by (auto simp: tables_fit_def)
qed (simp_all add: tables_fit_def)

lemma fit_sublead:
  assumes "tables_fit L z s" and "(sid, l) \<in> set (subleads s)" and "hm_get plain a (states (workers l)) \<noteq> None"
  shows "z a = sid \<and> a \<noteq> L \<and> sid \<noteq> L \<and> z sid = sid"
proof -
  have "\<forall>(sid, l)\<in>set (subleads s). \<forall>a. hm_get plain a (states (workers l)) \<noteq> None \<longrightarrow>
      z a = sid \<and> a \<noteq> L \<and> sid \<noteq> L \<and> z sid = sid"
    using assms(1) unfolding tables_fit_def by (elim conjE)
  from bspec [OF this assms(2)] show ?thesis using assms(3) by simp
qed

text \<open>The entries of a new session keep the fit: the lead's in the root, a sub-lead's in its layer.\<close>

lemma session_entry_fits:
  assumes "tables_fit L z s"
  shows "tables_fit L z (s\<lparr>root := kr_layer (kr_start L now (root s))\<rparr>)"
    and "sid \<noteq> L \<Longrightarrow> z sid = sid \<Longrightarrow> (sid, l) \<in> set (subleads s) \<Longrightarrow>
      tables_fit L z (s\<lparr>subleads := hm_insert plain sid (kr_layer (kr_start sid now l)) (subleads s)\<rparr>)"
proof -
  show "tables_fit L z (s\<lparr>root := kr_layer (kr_start L now (root s))\<rparr>)"
    using assms by (auto simp: tables_fit_def kr_start_def set_worker_state_def hm_simps)
next
  let ?s' = "s\<lparr>subleads := hm_insert plain sid (kr_layer (kr_start sid now l)) (subleads s)\<rparr>"
  assume new: "sid \<noteq> L" "z sid = sid" "(sid, l) \<in> set (subleads s)"
  have "z a = k \<and> a \<noteq> L \<and> k \<noteq> L \<and> z k = k"
    if "(k, m) \<in> set (subleads ?s')" "hm_get plain a (states (workers m)) \<noteq> None" for k m a
  proof (cases "(k, m) \<in> set (subleads s)")
    case True
    then show ?thesis using fit_sublead [OF assms] that(2) by blast
  next
    case False
    then have km: "k = sid" "m = kr_layer (kr_start sid now l)"
      using that(1) by (auto dest!: hm_insert_in)
    show ?thesis
    proof (cases "a = sid")
      case False
      then have "hm_get plain a (states (workers l)) \<noteq> None"
        using that(2) by (simp add: km kr_start_def set_worker_state_def hm_simps)
      then show ?thesis using fit_sublead [OF assms new(3)] km(1) by blast
    qed (use new km in simp)
  qed
  then have "\<forall>(k, m)\<in>set (subleads ?s'). \<forall>a. hm_get plain a (states (workers m)) \<noteq> None \<longrightarrow>
      z a = k \<and> a \<noteq> L \<and> k \<noteq> L \<and> z k = k" by blast
  then show "tables_fit L z ?s'" using assms unfolding tables_fit_def
    by (elim conjE, intro conjI) simp_all
qed

text \<open>A caller below the lead, with the role the sub-trees give it.\<close>

definition below_caller :: "string \<Rightarrow> (string \<Rightarrow> string) \<Rightarrow> CallerIdentity \<Rightarrow> bool" where
  "below_caller L z who \<longleftrightarrow> caller_role who \<noteq> Lead \<and> caller_id who \<noteq> L \<and>
     (caller_role who = Sublead \<longrightarrow> z (caller_id who) = caller_id who)"

text \<open>Stores reached by calls from below the lead, each on a state of its own that fits.\<close>

inductive below_reach :: "Codecs \<Rightarrow> string \<Rightarrow> (string \<Rightarrow> string) \<Rightarrow> CommunicationStore \<Rightarrow> bool" for k L z where
  below_start: "below_reach k L z comm_empty"
| below_step: "below_reach k L z c \<Longrightarrow> topology L z (call_state x) \<Longrightarrow> below_caller L z (call_by x) \<Longrightarrow>
     below_reach k L z (comm_call k x c)"

definition in_zone :: "string \<Rightarrow> (string \<Rightarrow> string) \<Rightarrow> string \<Rightarrow> string \<Rightarrow> bool" where
  "in_zone L z o' a \<longleftrightarrow> a = L \<or> z a = z o'"

definition zone_inv :: "string \<Rightarrow> (string \<Rightarrow> string) \<Rightarrow> CommunicationStore \<Rightarrow> bool" where
  "zone_inv L z c \<longleftrightarrow> hm_wf plain (artifacts c) \<and>
     (\<forall>mid m. (mid, m) \<in> set (messages c) \<longrightarrow> in_zone L z (sm_from m) (sm_to m) \<and> sm_from m \<noteq> L) \<and>
     (\<forall>aid a. (aid, a) \<in> set (artifacts c) \<longrightarrow>
        art_owner (sa_metadata a) \<noteq> L \<and> (\<forall>g\<in>sa_grants a. in_zone L z (art_owner (sa_metadata a)) g))"

lemma can_send_zone:
  assumes "topology L z s" and "below_caller L z who" and "ensure_can_send s who dst = Inr ()"
  shows "in_zone L z (caller_id who) dst"
  using assms
  by (fastforce simp: ensure_can_send_def below_caller_def in_zone_def topology_def parent_for_actor_def
      split: ActorRole.splits if_splits option.splits)

lemma observe_zone:
  assumes "topology L z s" and "below_caller L z who" and "can_observe_actor s who a"
  shows "z a = z (caller_id who)" and "a \<noteq> L"
  using assms
  by (fastforce simp: can_observe_actor_def below_caller_def topology_def split: ActorRole.splits if_splits)+

lemma read_artifact_zone:
  assumes "topology L z s" and "below_caller L z who" and "can_read_artifact s who a"
    and "\<forall>g\<in>sa_grants a. in_zone L z (art_owner (sa_metadata a)) g"
  shows "z (art_owner (sa_metadata a)) = z (caller_id who)"
  using assms observe_zone(1) [OF assms(1,2)]
  by (auto simp: can_read_artifact_def in_zone_def below_caller_def)

lemma read_message_zone:
  assumes "topology L z s" and "below_caller L z who" and "can_read_message s who m"
    and "in_zone L z (sm_from m) (sm_to m)"
  shows "z (sm_from m) = z (caller_id who)"
  using assms observe_zone [OF assms(1,2)]
  by (auto simp: can_read_message_def in_zone_def below_caller_def)

lemma zone_inv_call:
  assumes inv: "zone_inv L z c" and d2: "topology L z (call_state x)" and x: "below_caller L z (call_by x)"
  shows "zone_inv L z (comm_call k x c)"
  using comm_call_effect [of k x c]
proof (cases rule: comm_effect.cases)
  case (sent dst subj bod rfs to' m d)
  then have "in_zone L z (caller_id (call_by x)) to'" using can_send_zone [OF d2 x] by simp
  then show ?thesis using sent inv x
    by (auto simp: zone_inv_def tables_def below_caller_def dest!: hm_insert_in)
next
  case (acked mid m d)
  then show ?thesis using inv by (fastforce simp: zone_inv_def tables_def hm_update_mem)
next
  case (stored nam mime b content md d)
  then show ?thesis using inv x
    by (auto simp: zone_inv_def tables_def below_caller_def dest!: hm_insert_in)
next
  case (granted aid dst a to' d)
  have "(aid, a) \<in> set (artifacts c)" using granted by (auto dest: hm_plain_get_in)
  then have "z (art_owner (sa_metadata a)) = z (caller_id (call_by x))"
    using read_artifact_zone [OF d2 x, of a] granted inv by (auto simp: zone_inv_def)
  then have g: "in_zone L z (art_owner (sa_metadata a)) to'"
    using can_send_zone [OF d2 x, of to'] granted by (simp add: in_zone_def)
  have only: "b = a" if "(aid, b) \<in> set (artifacts c)" for b
    using hm_in_get [of plain "artifacts c" aid b] that granted inv by (simp add: zone_inv_def)
  have art: "artifacts (comm_call k x c) = hm_update aid (\<lambda>a. a\<lparr>sa_grants := insert to' (sa_grants a)\<rparr>) (artifacts c)"
    and msg: "messages (comm_call k x c) = messages c" using granted by (simp_all add: tables_def)
  show ?thesis unfolding zone_inv_def art msg
  proof (intro conjI allI impI)
    fix i b
    assume "(i, b) \<in> set (hm_update aid (\<lambda>a. a\<lparr>sa_grants := insert to' (sa_grants a)\<rparr>) (artifacts c))"
    then obtain w where w: "(i, w) \<in> set (artifacts c)"
      "b = (if i = aid then w\<lparr>sa_grants := insert to' (sa_grants w)\<rparr> else w)" by (auto simp: hm_update_mem)
    then show "art_owner (sa_metadata b) \<noteq> L"
      "\<forall>g\<in>sa_grants b. in_zone L z (art_owner (sa_metadata b)) g"
      using inv g only by (auto simp: zone_inv_def)
  qed (use inv in \<open>auto simp: zone_inv_def\<close>)
qed (use inv in \<open>auto simp: zone_inv_def tables_def\<close>)

lemma below_reach_inv: "below_reach k L z c \<Longrightarrow> zone_inv L z c"
proof (induction rule: below_reach.induct)
  case below_start
  then show ?case by (simp add: zone_inv_def comm_empty_facts)
qed (rule zone_inv_call)

lemma list_messages_mem:
  "list_messages s who scope ms = Inr out \<Longrightarrow> y \<in> set out \<Longrightarrow> caller_role who \<noteq> Lead \<Longrightarrow>
   \<exists>m\<in>set ms. y = message_summary m \<and> can_read_message s who m"
proof (induction ms arbitrary: out)
  case (Cons m ms)
  then show ?case
    by (auto simp: Let_def can_read_message_def split: sum.splits if_splits)
qed simp

lemma list_artifacts_mem:
  "list_artifacts s who scope as = Inr out \<Longrightarrow> y \<in> set out \<Longrightarrow> caller_role who \<noteq> Lead \<Longrightarrow>
   \<exists>a\<in>set as. y = artifact_metadata a \<and> can_read_artifact s who a"
proof (induction as arbitrary: out)
  case (Cons a as)
  then show ?case
    by (auto simp: Let_def can_read_artifact_def split: sum.splits if_splits)
qed simp

text \<open>
  C38: Sub-trees are isolated. Fix the lead and the sub-tree of every actor; after any sequence of
  calls by actors below the root lead, each on a run state that fits this assignment (the tables may
  grow and shrink between calls), whatever such an actor reads or lists, a message or an artifact, was
  sent or stored by an actor of its own sub-tree: a grant or a message never leaves the sub-tree
  except to the lead. The checks and the table write of a call are one step here: messages keep their
  ends and artifacts their owner, so a call in between changes nothing that was checked, and when the
  journal record is written does not matter.
\<close>

theorem subtrees_isolated:
  assumes "topology L z s" and "below_reach k L z c" and "below_caller L z who"
  shows "(\<forall>mid m c'. handle_message_read s who mid c = (Inr m, c') \<longrightarrow>
      z (msg_from m) = z (caller_id who)) \<and>
    (\<forall>aid md b c'. handle_artifact_read (b64_encode k) s who aid c = (Inr (md, b), c') \<longrightarrow>
      z (art_owner md) = z (caller_id who)) \<and>
    (\<forall>scope ms c'. handle_message_list s who scope c = (Inr ms, c') \<longrightarrow>
      (\<forall>m\<in>set ms. z (ms_from m) = z (caller_id who))) \<and>
    (\<forall>scope as c'. handle_artifact_list s who scope c = (Inr as, c') \<longrightarrow>
      (\<forall>a\<in>set as. z (art_owner a) = z (caller_id who)))"
proof -
  have inv: "zone_inv L z c" using assms(2) by (rule below_reach_inv)
  have role: "caller_role who \<noteq> Lead" using assms(3) by (simp add: below_caller_def)
  have m: "z (sm_from m) = z (caller_id who)"
    if "(mid, m) \<in> set (messages c)" "can_read_message s who m" for mid m
    using read_message_zone [OF assms(1,3) that(2)] that(1) inv by (auto simp: zone_inv_def)
  have a: "z (art_owner (sa_metadata a)) = z (caller_id who)"
    if "(aid, a) \<in> set (artifacts c)" "can_read_artifact s who a" for aid a
    using read_artifact_zone [OF assms(1,3) that(2)] that(1) inv by (auto simp: zone_inv_def)
  show ?thesis
  proof (intro conjI allI impI ballI)
    fix mid msg c'
    assume "handle_message_read s who mid c = (Inr msg, c')"
    then show "z (msg_from msg) = z (caller_id who)"
      by (auto simp: handle_message_read_def Let_def message_full_def split: sum.splits option.splits if_splits
          dest!: hm_plain_get_in intro: m)
  next
    fix aid md b c'
    assume "handle_artifact_read (b64_encode k) s who aid c = (Inr (md, b), c')"
    then show "z (art_owner md) = z (caller_id who)"
      by (auto simp: handle_artifact_read_def Let_def artifact_metadata_def
          split: sum.splits option.splits if_splits dest!: hm_plain_get_in intro: a)
  next
    fix scope ms c' y
    assume "handle_message_list s who scope c = (Inr ms, c')" "y \<in> set ms"
    then obtain out sc where "list_messages s who sc (map snd (messages c)) = Inr out" "y \<in> set out"
      by (auto simp: handle_message_list_def Let_def split: sum.splits)
    then show "z (ms_from y) = z (caller_id who)"
      using list_messages_mem [OF _ _ role] m by (fastforce simp: message_summary_def)
  next
    fix scope as c' y
    assume "handle_artifact_list s who scope c = (Inr as, c')" "y \<in> set as"
    then obtain out sc where "list_artifacts s who sc (map snd (artifacts c)) = Inr out" "y \<in> set out"
      by (auto simp: handle_artifact_list_def Let_def split: sum.splits)
    then show "z (art_owner y) = z (caller_id who)"
      using list_artifacts_mem [OF _ _ role] a by (fastforce simp: artifact_metadata_def)
  qed
qed

text \<open>
  The example run once its sessions have started: the lead and both sub-leads are in the state tables
  of their own layers.
\<close>

definition live_run :: DispatchState where
  "live_run = comm_run
     \<lparr>root := kr_layer (kr_start ''lead'' 0 (root comm_run)),
      subleads := [(''S1'', kr_layer (kr_start ''S1'' 0 (comm_layer ''S1'' ''w1''))),
        (''S2'', kr_layer (kr_start ''S2'' 0 (comm_layer ''S2'' ''w2'')))]\<rparr>"

definition live_trees :: "string \<Rightarrow> string" where
  "live_trees = id(''w1'' := ''S1'', ''w2'' := ''S2'')"

lemmas live_run_defs = live_run_def kr_start_def set_worker_state_def comm_run_defs

lemma live_run_facts:
  "ensure_enabled live_run = Inr ()"
  "max_message_bytes (communication (manifest (root live_run))) = 8192"
  "max_artifact_bytes (communication (manifest (root live_run))) = 1048576"
  "max_artifacts_per_actor (communication (manifest (root live_run))) = 64"
  "run_id (root live_run) = ''run''"
  "lead_id (root live_run) = ''lead''"
  "worker_parent live_run a =
     (if a \<in> {''lead'', ''w0''} then Some ''lead'' else if a \<in> {''S1'', ''w1''} then Some ''S1''
      else if a \<in> {''S2'', ''w2''} then Some ''S2'' else None)"
  by (auto simp: live_run_defs ensure_enabled_def worker_parent_def hm_simps)

lemma live_topology: "topology ''lead'' live_trees live_run"
  by (auto simp: topology_def live_run_facts live_trees_def)

definition live_put :: CommCall where
  "live_put = put_call\<lparr>call_state := live_run\<rparr>"

definition live_store :: CommunicationStore where
  "live_store = comm_call raw_codecs live_put comm_empty"

lemma live_store_artifact:
  "\<exists>a. hm_get plain ''a1'' (artifacts live_store) = Some a \<and> sa_path a = ''a1'' \<and>
     art_owner (sa_metadata a) = ''w1'' \<and> sa_grants a = {}"
  "artifact_files live_store = [(''a1'', [97, 98, 99])]"
  by (simp_all add: live_store_def live_put_def put_call_def comm_eval live_run_facts raw_codecs_def)

theorem subtrees_isolated_witness:
  "topology ''lead'' live_trees live_run \<and> below_reach raw_codecs ''lead'' live_trees live_store \<and>
   (\<exists>md b c'. handle_artifact_read (b64_encode raw_codecs) live_run
        \<lparr>caller_id = ''S1'', caller_role = Sublead\<rparr> ''a1'' live_store = (Inr (md, b), c') \<and>
      live_trees (art_owner md) = ''S1'') \<and>
   fst (handle_artifact_read (b64_encode raw_codecs) live_run
        \<lparr>caller_id = ''S2'', caller_role = Sublead\<rparr> ''a1'' live_store) =
     Inl (CommForbidden ''S2 cannot read artifact a1'')"
proof -
  let ?S1 = "\<lparr>caller_id = ''S1'', caller_role = Sublead\<rparr>"
  have r: "below_reach raw_codecs ''lead'' live_trees live_store" unfolding live_store_def
    by (rule below_reach.below_step [OF below_reach.below_start])
      (simp_all add: live_put_def put_call_def below_caller_def comm_worker_def live_topology)
  have b: "below_caller ''lead'' live_trees ?S1" by (simp add: below_caller_def live_trees_def)
  obtain md x c' where "handle_artifact_read (b64_encode raw_codecs) live_run ?S1 ''a1'' live_store = (Inr (md, x), c')"
    using live_store_artifact by (auto simp: handle_artifact_read_def comm_eval live_run_facts)
  moreover from this have "live_trees (art_owner md) = ''S1''"
    using subtrees_isolated [OF live_topology r b, THEN conjunct2, THEN conjunct1]
    by (fastforce simp: live_trees_def)
  moreover have "fst (handle_artifact_read (b64_encode raw_codecs) live_run
        \<lparr>caller_id = ''S2'', caller_role = Sublead\<rparr> ''a1'' live_store) =
     Inl (CommForbidden ''S2 cannot read artifact a1'')"
    using live_store_artifact(1) by (auto simp: handle_artifact_read_def comm_eval live_run_facts)
  ultimately show ?thesis using r live_topology by blast
qed

end
