(* ===== verification/Spawn_Spec.thy ===== *)
theory Spawn_Spec
  imports Budget_Bounds
begin

text \<open>
  What an accepted worker spawn guarantees and what a refused one leaves behind; what the envelope and
  the profile of a sub-lead cap, and where they do not; the termination of the kill-and-resume loop;
  the reconciliation of a sub-lead.
\<close>

section \<open>Workers\<close>

lemma active_after_insert:
  "length (filter (\<lambda>(wid, w). wid \<noteq> lid \<and> is_active w) (hm_insert plain tid w ws)) \<le>
     Suc (length (filter (\<lambda>(wid, w). wid \<noteq> lid \<and> is_active w) ws))"
proof (induction ws)
  case (Cons p ws)
  then show ?case by (cases p) auto
qed simp

lemma typing_spec:
  assumes "resolve_worker_typing mf lm args = Inr (wt, ap, model)"
  shows "(case sw_worker_type args of
       Some t \<Rightarrow> \<exists>p. wt = Some p \<and> p \<in> set (worker_types mf) \<and> wt_id p = t \<and>
         (\<forall>ts. sw_tools args = Some ts \<longrightarrow> set ts \<subseteq> set (wt_tools p)) \<and>
         (wt_allowed_models p = [] \<or> model \<in> set (wt_allowed_models p))
     | None \<Rightarrow> wt = None \<and> \<not> require_actor_type mf)"
  using assms
  by (auto simp: resolve_worker_typing_def resolve_worker_profile_def Let_def check_tool_subset_ok
      check_model_allowed_ok find_Some_iff split: option.splits sum.splits if_splits)

lemma launch_fields:
  "wl_task_id (worker_launch tid args wt ap model l rl) = tid"
  "wl_model (worker_launch tid args wt ap model l rl) = model"
  by (simp_all add: worker_launch_def Let_def)

lemma launch_in_profile:
  assumes "resolve_worker_typing mf lm args = Inr (wt, ap, model)"
  shows "case sw_worker_type args of
      Some ty \<Rightarrow> \<exists>p\<in>set (worker_types mf). wt_id p = ty \<and>
        set (wl_tools (worker_launch tid args wt ap model l rl)) \<subseteq> set (wt_tools p) \<and>
        (wt_allowed_models p = [] \<or> wl_model (worker_launch tid args wt ap model l rl) \<in> set (wt_allowed_models p)) \<and>
        (\<forall>m. wt_max_timeout_secs p = Some m \<longrightarrow> wl_timeout_secs (worker_launch tid args wt ap model l rl) \<le> m)
    | None \<Rightarrow> \<not> require_actor_type mf"
proof (cases "sw_worker_type args")
  case (Some ty)
  then obtain p where p: "wt = Some p" "p \<in> set (worker_types mf)" "wt_id p = ty"
      "\<And>ts. sw_tools args = Some ts \<Longrightarrow> set ts \<subseteq> set (wt_tools p)"
      "wt_allowed_models p = [] \<or> model \<in> set (wt_allowed_models p)"
    using typing_spec [OF assms] by auto
  then show ?thesis using Some clamp_down_u64_le(2)
    by (auto simp: worker_launch_def worker_tools_for_def worker_timeout_for_def Let_def
        split: option.splits intro!: bexI [of _ p])
qed (use typing_spec [OF assms] in simp)

lemma register_layer:
  "states (workers (register_worker tid prompt model wtype l)) = hm_insert plain tid Pending (states (workers l))"
  "lead_id (register_worker tid prompt model wtype l) = lead_id l"
  "budget (register_worker tid prompt model wtype l) = budget l"
  "reservations (workers (register_worker tid prompt model wtype l)) = reservations (workers l)"
  "hm_get plain tid (cancels (workers (register_worker tid prompt model wtype l))) =
     Some (cascade_to (cancel l) new_cancel)"
  by (simp_all add: register_worker_def register_worker_cancel_def Let_def hm_simps split: option.splits)

lemma reserve_layer:
  assumes "reserve_worker tid model l = Inr l'"
  shows "states (workers l') = states (workers l)" "lead_id l' = lead_id l" "cancel l' = cancel l"
    "(case budget_usd (manifest l) of None \<Rightarrow> l' = l
      | Some cap \<Rightarrow> hm_get plain tid (reservations (workers l')) = Some (estimate_new_worker_cost_for_layer l model) \<and>
          \<not> f_gt (fadd (fadd (fadd (spent_usd (budget l)) (reserved_usd (budget l))) (lead_spent_usd (budget l)))
             (estimate_new_worker_cost_for_layer l model)) cap)"
  using assms by (auto simp: reserve_worker_def Let_def hm_simps split: option.splits if_splits)

lemma gates_spec:
  "spawn_worker_gates now s l = Inr () \<longleftrightarrow>
     \<not> ct_drain (cancel (root s)) \<and> \<not> ct_terminate (cancel (root s)) \<and>
     check_can_spawn now (api_health s) = Inr () \<and>
     (require_plan_approval (manifest (root s)) \<longrightarrow> plan_approved (approvals l)) \<and>
     (\<forall>cap. max_workers (manifest l) = Some cap \<longrightarrow> active_worker_count l < unat cap)"
  by (auto simp: spawn_worker_gates_def not_le split: sum.splits option.splits if_splits)

text \<open>The layer a caller spawns into.\<close>

definition spawn_target :: "string \<Rightarrow> ActorRole \<Rightarrow> LayerRef" where
  "spawn_target cid role = (if role = Sublead then SubLayer cid else RootLayer)"

lemma target_layer_spec:
  "resolve_target_layer s cid role = Inr ref \<Longrightarrow>
   role \<noteq> Worker \<and> ref = spawn_target cid role \<and>
   (\<exists>l. layer_of ref s = Some l \<and> (\<forall>f. layer_of ref (upd_layer ref f s) = Some (f l)))"
  by (cases role) (auto simp: resolve_target_layer_def spawn_target_def layer_of_def upd_layer_def hm_simps
      split: if_splits)

lemma layer_of_index: "layer_of ref (s\<lparr>worker_layer_index := i\<rparr>) = layer_of ref s"
  by (rule layer_of_cong) simp_all

lemma upd_layer_index:
  "upd_layer ref f (s\<lparr>worker_layer_index := i\<rparr>) = (upd_layer ref f s)\<lparr>worker_layer_index := i\<rparr>"
  by (cases ref) (simp_all add: upd_layer_def)

lemma spawn_phases:
  "handle_spawn_worker uuid now args s =
     (case check_spawn_worker now args s of
        Inl e \<Rightarrow> (Inl e, s)
      | Inr p \<Rightarrow> commit_spawn_worker (''worker-'' @ uuid) args p (the (layer_of (pl_target p) s)) s)"
  by (auto simp: handle_spawn_worker_def check_spawn_worker_def commit_spawn_worker_def
      split: prod.splits sum.splits option.splits)

lemma check_accepted:
  assumes "check_spawn_worker now args s = Inr p" "caller_of_spawn s args = (cid, role)"
    and "layer_of (spawn_target cid role) s = Some l"
  shows "role \<noteq> Worker" "pl_target p = spawn_target cid role" "spawn_worker_gates now s l = Inr ()"
    "resolve_worker_typing (manifest (root s)) (lead (manifest l)) args = Inr (pl_type p, pl_profile p, pl_model p)"
    "pl_index p = (if role = Sublead then Some cid else None)"
  using assms
  by (auto simp: check_spawn_worker_def dest!: target_layer_spec split: sum.splits option.splits prod.splits)

lemma find_mapped_const:
  "find (\<lambda>l. lead_id l = sid) ls = Some l \<Longrightarrow> lead_id l' = sid \<Longrightarrow>
   find (\<lambda>l. lead_id l = sid) (map (\<lambda>l. if lead_id l = sid then l' else l) ls) = Some l'"
  by (induction ls) (auto split: if_splits)

lemma layer_of_set:
  "layer_of ref s = Some l \<Longrightarrow> lead_id l' = lead_id l \<Longrightarrow> layer_of ref (upd_layer ref (\<lambda>_. l') s) = Some l'"
  by (cases ref) (auto simp: layer_of_def upd_layer_def hm_simps find_mapped_const find_Some_iff
      split: option.splits intro!: find_mapped_const)

lemma commit_cases:
  assumes l: "layer_of (pl_target p) s = Some l"
  obtains (refused) sp rv ls es cap where
      "commit_spawn_worker tid args p l s = (Inl (WorkerBudgetExceeded sp rv ls es cap),
         upd_layer (pl_target p) (notify_budget_exceeded (run_id (root s)) (fadd sp ls) cap) s)"
      "budget_usd (manifest l) = Some cap" "sp = spent_usd (budget l)" "rv = reserved_usd (budget l)"
      "ls = lead_spent_usd (budget l)" "es = estimate_new_worker_cost_for_layer l (pl_model p)"
      "f_gt (fadd (fadd (fadd sp rv) ls) es) cap"
  | (admitted) l' s' where
      "commit_spawn_worker tid args p l s =
         (Inr (worker_launch tid args (pl_type p) (pl_profile p) (pl_model p) l (lead (manifest (root s)))), s')"
      "reserve_worker tid (pl_model p) l = Inr l'"
      "layer_of (pl_target p) s' =
         Some (register_worker tid (sw_prompt args) (pl_model p) (map_option wt_id (pl_type p)) l')"
      "worker_layer_index s' = hm_insert plain tid (pl_index p) (worker_layer_index s)"
proof (cases "reserve_worker tid (pl_model p) l")
  case (Inl e)
  then obtain cap where "budget_usd (manifest l) = Some cap"
    by (auto simp: reserve_worker_def split: option.splits)
  then show ?thesis using Inl
    by (intro refused [OF _ _ refl refl refl refl])
      (auto simp: commit_spawn_worker_def admit_worker_def reserve_worker_def Let_def split: if_splits)
next
  case (Inr l')
  have id: "lead_id (register_worker tid (sw_prompt args) (pl_model p) (map_option wt_id (pl_type p)) l') = lead_id l"
    using reserve_layer(2) [OF Inr] by (simp add: register_layer)
  let ?s' = "upd_layer (pl_target p) (\<lambda>_. register_worker tid (sw_prompt args) (pl_model p) (map_option wt_id (pl_type p)) l')
    (s\<lparr>worker_layer_index := hm_insert plain tid (pl_index p) (worker_layer_index s)\<rparr>)"
  have "commit_spawn_worker tid args p l s =
      (Inr (worker_launch tid args (pl_type p) (pl_profile p) (pl_model p) l (lead (manifest (root s)))), ?s')"
    using Inr by (simp add: commit_spawn_worker_def admit_worker_def)
  moreover have "layer_of (pl_target p) ?s' =
      Some (register_worker tid (sw_prompt args) (pl_model p) (map_option wt_id (pl_type p)) l')"
    by (simp only: upd_layer_index layer_of_index layer_of_set [OF l id])
  moreover have "worker_layer_index ?s' = hm_insert plain tid (pl_index p) (worker_layer_index s)"
    by (simp add: layer_simps)
  ultimately show ?thesis using Inr by (intro admitted)
qed

lemma commit_active:
  assumes "layer_of (pl_target p) s = Some l"
  shows "\<exists>l'. layer_of (pl_target p) (snd (commit_spawn_worker tid args p l s)) = Some l' \<and>
    manifest l' = manifest l \<and> active_worker_count l' \<le> Suc (active_worker_count l)"
  using assms
proof (cases rule: commit_cases [of p s l tid args])
  case (refused sp rv ls es cap)
  then show ?thesis using assms
    by (simp add: layer_of_upd register_worker_manifest active_worker_count_def notify_budget_exceeded_def split: option.splits)
next
  case (admitted l' s')
  note r = reserve_layer [OF admitted(2)]
  show ?thesis using admitted active_after_insert [of "lead_id l" tid Pending "states (workers l)"]
    by (simp add: active_worker_count_def register_layer r register_worker_manifest
        reserve_worker_manifest [OF admitted(2)])
qed

text \<open>
  C6: Worker admission. A spawn that passes the guards, on the state it finds, comes from a lead or a
  sub-lead, for the caller's own layer, while the run is not draining, no API outage is in force, the
  layer's plan is approved when the manifest demands it, and the layer has a free worker slot. The
  worker is registered later, on the layer as it is by then: other calls may have changed everything
  but the manifests. It is refused there only for lack of budget, which changes nothing but the
  layer's notification router. Otherwise it is pending in that layer, indexed to the caller's
  sub-tree, holds a cancel token that already carries the layer's signal and, when the layer has a
  budget, a reservation of its estimated cost that fits what is left; it takes one slot. With a
  profile, its tools, model and timeout are within the profile; without one, the manifest does not
  require one. The slot is not held from the check to the registration, so calls in flight together
  can exceed the cap: \<open>worker_cap_bound\<close> says by how much. With nothing in between, the two parts
  are the handler.
\<close>

theorem spawn_worker_spec:
  assumes c: "caller_of_spawn s args = (cid, role)" and chk: "check_spawn_worker now args s = Inr p"
    and l0: "layer_of (spawn_target cid role) s = Some l0"
    and l: "layer_of (spawn_target cid role) t = Some l"
    and mf: "manifest l = manifest l0" "manifest (root t) = manifest (root s)"
  shows "handle_spawn_worker uuid now args s = commit_spawn_worker (''worker-'' @ uuid) args p l0 s \<and>
    role \<noteq> Worker \<and> \<not> ct_drain (cancel (root s)) \<and> \<not> ct_terminate (cancel (root s)) \<and>
    check_can_spawn now (api_health s) = Inr () \<and>
    (require_plan_approval (manifest (root s)) \<longrightarrow> plan_approved (approvals l0)) \<and>
    (\<forall>cap. max_workers (manifest l0) = Some cap \<longrightarrow> active_worker_count l0 < unat cap) \<and>
    (case commit_spawn_worker (''worker-'' @ uuid) args p l t of
       (Inl e, t') \<Rightarrow>
         \<exists>sp rv ls es cap. e = WorkerBudgetExceeded sp rv ls es cap \<and> budget_usd (manifest l) = Some cap \<and>
           sp = spent_usd (budget l) \<and> rv = reserved_usd (budget l) \<and> ls = lead_spent_usd (budget l) \<and>
           es = estimate_new_worker_cost_for_layer l (pl_model p) \<and>
           f_gt (fadd (fadd (fadd sp rv) ls) es) cap \<and>
           t' = upd_layer (spawn_target cid role) (notify_budget_exceeded (run_id (root t)) (fadd sp ls) cap) t
     | (Inr w, t') \<Rightarrow>
         \<exists>l'. layer_of (spawn_target cid role) t' = Some l' \<and>
           active_worker_count l' \<le> Suc (active_worker_count l) \<and>
           (case sw_worker_type args of
              Some ty \<Rightarrow> \<exists>wt\<in>set (worker_types (manifest (root s))). wt_id wt = ty \<and>
                set (wl_tools w) \<subseteq> set (wt_tools wt) \<and>
                (wt_allowed_models wt = [] \<or> wl_model w \<in> set (wt_allowed_models wt)) \<and>
                (\<forall>m. wt_max_timeout_secs wt = Some m \<longrightarrow> wl_timeout_secs w \<le> m)
            | None \<Rightarrow> \<not> require_actor_type (manifest (root s))) \<and>
           hm_get plain (wl_task_id w) (states (workers l')) = Some Pending \<and>
           hm_get plain (wl_task_id w) (worker_layer_index t') = Some (if role = Sublead then Some cid else None) \<and>
           hm_get plain (wl_task_id w) (cancels (workers l')) = Some (cascade_to (cancel l) new_cancel) \<and>
           (\<forall>cap. budget_usd (manifest l) = Some cap \<longrightarrow>
              (let est = estimate_new_worker_cost_for_layer l (wl_model w)
               in hm_get plain (wl_task_id w) (reservations (workers l')) = Some est \<and>
                  \<not> f_gt (fadd (fadd (fadd (spent_usd (budget l)) (reserved_usd (budget l)))
                       (lead_spent_usd (budget l))) est) cap)))"
proof -
  note a = check_accepted [OF chk c l0]
  let ?tid = "''worker-'' @ uuid"
  have lt: "layer_of (pl_target p) t = Some l" using l a(2) by simp
  have h: "handle_spawn_worker uuid now args s = commit_spawn_worker ?tid args p l0 s"
    using l0 a(2) by (simp add: spawn_phases chk)
  show ?thesis
    using lt
  proof (cases rule: commit_cases [of p t l ?tid args])
    case (refused sp rv ls es cap)
    then show ?thesis using h a(1-3) by (simp add: gates_spec)
  next
    case (admitted l' t')
    let ?w = "worker_launch ?tid args (pl_type p) (pl_profile p) (pl_model p) l (lead (manifest (root t)))"
    note r = reserve_layer [OF admitted(2)]
    note w = launch_fields
    have act: "active_worker_count (register_worker ?tid (sw_prompt args) (pl_model p)
        (map_option wt_id (pl_type p)) l') \<le> Suc (active_worker_count l)"
      using commit_active [OF lt, of ?tid args] admitted(1,3) by simp
    have prof: "case sw_worker_type args of
        Some ty \<Rightarrow> \<exists>wt\<in>set (worker_types (manifest (root s))). wt_id wt = ty \<and>
          set (wl_tools ?w) \<subseteq> set (wt_tools wt) \<and>
          (wt_allowed_models wt = [] \<or> wl_model ?w \<in> set (wt_allowed_models wt)) \<and>
          (\<forall>m. wt_max_timeout_secs wt = Some m \<longrightarrow> wl_timeout_secs ?w \<le> m)
      | None \<Rightarrow> \<not> require_actor_type (manifest (root s))"
      by (rule launch_in_profile [OF a(4)])
    have bud: "\<forall>cap. budget_usd (manifest l) = Some cap \<longrightarrow>
        (let est = estimate_new_worker_cost_for_layer l (wl_model ?w)
         in hm_get plain (wl_task_id ?w) (reservations (workers l')) = Some est \<and>
            \<not> f_gt (fadd (fadd (fadd (spent_usd (budget l)) (reserved_usd (budget l)))
                 (lead_spent_usd (budget l))) est) cap)"
      using r(4) by (simp add: w Let_def split: option.splits)
    have gates: "\<not> ct_drain (cancel (root s)) \<and> \<not> ct_terminate (cancel (root s)) \<and>
        check_can_spawn now (api_health s) = Inr () \<and>
        (require_plan_approval (manifest (root s)) \<longrightarrow> plan_approved (approvals l0)) \<and>
        (\<forall>cap. max_workers (manifest l0) = Some cap \<longrightarrow> active_worker_count l0 < unat cap)"
      using a(3) by (rule gates_spec [THEN iffD1])
    have l': "layer_of (spawn_target cid role) t' = Some (register_worker ?tid (sw_prompt args) (pl_model p)
        (map_option wt_id (pl_type p)) l')" using admitted(3) a(2) by simp
    show ?thesis unfolding admitted(1) prod.case sum.case
      by (intro conjI exI [of _ "register_worker ?tid (sw_prompt args) (pl_model p) (map_option wt_id (pl_type p)) l'"])
        (use h a(1,5) gates l' act prof bud admitted(4) in
          \<open>simp_all add: register_layer r w hm_simps\<close>)
  qed
qed

section \<open>Calls in flight\<close>

text \<open>
  A run with the calls for one layer that have passed their guards and not yet registered their
  worker. Any other change of the run may happen in between as long as it does not add active workers
  to the layer.
\<close>

record SpawnRun =
  sr_state :: DispatchState
  sr_flying :: "(string \<times> SpawnWorkerArgs \<times> SpawnPlan) list"

inductive spawn_runs :: "nat \<Rightarrow> LayerRef \<Rightarrow> SpawnRun \<Rightarrow> bool" for m ref where
  start: "layer_of ref s = Some l \<Longrightarrow> active_worker_count l = 0 \<Longrightarrow> spawn_runs m ref \<lparr>sr_state = s, sr_flying = []\<rparr>"
| checked: "spawn_runs m ref r \<Longrightarrow> check_spawn_worker now args (sr_state r) = Inr p \<Longrightarrow> pl_target p = ref \<Longrightarrow>
     length (sr_flying r) < m \<Longrightarrow> spawn_runs m ref (r\<lparr>sr_flying := (tid, args, p) # sr_flying r\<rparr>)"
| committed: "spawn_runs m ref r \<Longrightarrow> sr_flying r = xs @ (tid, args, p) # ys \<Longrightarrow>
     layer_of ref (sr_state r) = Some l \<Longrightarrow>
     spawn_runs m ref \<lparr>sr_state = snd (commit_spawn_worker tid args p l (sr_state r)), sr_flying = xs @ ys\<rparr>"
| dropped: "spawn_runs m ref r \<Longrightarrow> sr_flying r = xs @ y # ys \<Longrightarrow> spawn_runs m ref (r\<lparr>sr_flying := xs @ ys\<rparr>)"
| elsewhere: "spawn_runs m ref r \<Longrightarrow> layer_of ref (sr_state r) = Some l \<Longrightarrow> layer_of ref s' = Some l' \<Longrightarrow>
     manifest l' = manifest l \<Longrightarrow> active_worker_count l' \<le> active_worker_count l \<Longrightarrow>
     spawn_runs m ref (r\<lparr>sr_state := s'\<rparr>)"

lemma spawn_runs_inv:
  assumes "spawn_runs m ref r" and "0 < m"
  shows "(\<forall>(tid, args, p)\<in>set (sr_flying r). pl_target p = ref) \<and>
    (\<exists>l. layer_of ref (sr_state r) = Some l \<and>
      (\<forall>cap. max_workers (manifest l) = Some cap \<longrightarrow>
         active_worker_count l + length (sr_flying r) < unat cap + m))"
  using assms(1)
proof (induction rule: spawn_runs.induct)
  case (checked r now args p tid)
  obtain l where l: "layer_of ref (sr_state r) = Some l"
      "\<And>cap. max_workers (manifest l) = Some cap \<Longrightarrow> active_worker_count l + length (sr_flying r) < unat cap + m"
    using checked.IH by auto
  obtain cid role where c: "caller_of_spawn (sr_state r) args = (cid, role)" by fastforce
  have "ref = spawn_target cid role" using checked.hyps(2,3) c
    by (auto simp: check_spawn_worker_def dest!: target_layer_spec split: sum.splits option.splits prod.splits)
  then have "spawn_worker_gates now (sr_state r) l = Inr ()"
    using check_accepted(3) [OF checked.hyps(2) c] l(1) by simp
  then show ?case using checked.IH checked.hyps(3,4) l(1) by (fastforce simp: gates_spec)
next
  case (committed r xs tid args p ys l)
  then have p: "pl_target p = ref" by simp
  show ?case using commit_active [of p "sr_state r" l tid args] committed p by fastforce
next
  case (elsewhere r l s' l')
  then show ?case by fastforce
qed (use assms(2) in auto)

text \<open>
  The worker cap under concurrency: with at most \<open>m\<close> calls for a layer in flight at a time, whatever
  their interleaving, the layer never holds more than \<open>m - 1\<close> active workers over its cap; calls one
  at a time never exceed it.
\<close>

theorem worker_cap_bound:
  assumes "spawn_runs m ref r" and "0 < m" and "layer_of ref (sr_state r) = Some l"
    and "max_workers (manifest l) = Some cap"
  shows "active_worker_count l \<le> unat cap + (m - 1)"
  using spawn_runs_inv [OF assms(1,2)] assms by fastforce

lemma base_fields:
  "cancel (root base_state) = new_cancel" "manifest (root base_state) = base_manifest"
  "api_health base_state = \<lparr>rate_limit = None, auth_failure = None\<rparr>" "lead_id (root base_state) = ''lead''"
  by (simp_all add: base_state_def new_dispatch_def layer_new_def)

theorem spawn_worker_spec_witness:
  "caller_of_spawn base_state plain_spawn = (''lead'', Lead) \<and>
   (\<exists>p w s' l'. check_spawn_worker 0 plain_spawn base_state = Inr p \<and>
      commit_spawn_worker ''worker-1'' plain_spawn p (root base_state) base_state = (Inr w, s') \<and>
      layer_of RootLayer s' = Some l' \<and> hm_get plain (wl_task_id w) (states (workers l')) = Some Pending)"
proof -
  have c: "caller_of_spawn base_state plain_spawn = (''lead'', Lead)"
    by (simp add: caller_of_spawn_def plain_spawn_def base_fields)
  have g: "spawn_worker_gates 0 base_state (root base_state) = Inr ()"
    by (simp add: gates_spec base_fields base_manifest_def new_cancel_def check_can_spawn_def)
  have t: "resolve_worker_typing base_manifest None plain_spawn = Inr (None, None, ''claude-haiku-4-5'')"
    by (simp add: resolve_worker_typing_def resolve_worker_profile_def base_manifest_def plain_spawn_def
        worker_agent_profile_def first_some_def)
  have m: "lead base_manifest = None" "budget_usd base_manifest = None" by (simp_all add: base_manifest_def)
  obtain p where p: "check_spawn_worker 0 plain_spawn base_state = Inr p"
    using t by (simp add: check_spawn_worker_def c resolve_target_layer_def root_layer g base_fields m)
  have tg: "spawn_target ''lead'' Lead = RootLayer" by (simp add: spawn_target_def)
  have "\<exists>w s'. commit_spawn_worker ''worker-1'' plain_spawn p (root base_state) base_state = (Inr w, s')"
    by (simp add: commit_spawn_worker_def admit_worker_def reserve_worker_def base_fields m)
  then show ?thesis
    using spawn_worker_spec [OF c p, unfolded tg, OF root_layer root_layer refl refl, of "''1''"] c p by auto
qed

text \<open>Two calls that pass the guards before either registers: two workers under a cap of one.\<close>

definition capped_state :: DispatchState where
  "capped_state = base_state\<lparr>root := (root base_state)\<lparr>manifest := base_manifest\<lparr>max_workers := Some 1\<rparr>\<rparr>\<rparr>"

definition plain_plan :: SpawnPlan where
  "plain_plan = \<lparr>pl_target = RootLayer, pl_index = None, pl_type = None, pl_profile = None,
     pl_model = ''claude-haiku-4-5''\<rparr>"

definition overshot :: DispatchState where
  "overshot = (let s = snd (commit_spawn_worker ''worker-1'' plain_spawn plain_plan (root capped_state) capped_state)
     in snd (commit_spawn_worker ''worker-2'' plain_spawn plain_plan (root s) s))"

lemma capped_check: "check_spawn_worker 0 plain_spawn capped_state = Inr plain_plan"
proof -
  have c: "caller_of_spawn capped_state plain_spawn = (''lead'', Lead)"
    by (simp add: caller_of_spawn_def plain_spawn_def capped_state_def base_fields)
  have g: "spawn_worker_gates 0 capped_state (root capped_state) = Inr ()"
    by (simp add: gates_spec capped_state_def base_manifest_def new_cancel_def check_can_spawn_def base_fields
        active_worker_count_def base_state_def new_dispatch_def layer_new_def new_workers_def)
  have "resolve_worker_typing (manifest (root capped_state)) (lead (manifest (root capped_state))) plain_spawn =
      Inr (None, None, ''claude-haiku-4-5'')"
    by (simp add: resolve_worker_typing_def resolve_worker_profile_def capped_state_def base_manifest_def
        plain_spawn_def worker_agent_profile_def first_some_def)
  then show ?thesis
    by (simp add: check_spawn_worker_def c resolve_target_layer_def root_layer g plain_plan_def)
qed

lemma overshot_count:
  "active_worker_count (root overshot) = 2" "max_workers (manifest (root overshot)) = Some 1"
  by (simp_all add: overshot_def Let_def commit_spawn_worker_def admit_worker_def plain_plan_def reserve_worker_def
      capped_state_def base_manifest_def root_upd register_layer register_worker_manifest active_worker_count_def
      base_state_def new_dispatch_def layer_new_def new_workers_def)

theorem worker_cap_overshot:
  "\<exists>r l cap. spawn_runs 2 RootLayer r \<and> sr_flying r = [] \<and> layer_of RootLayer (sr_state r) = Some l \<and>
     max_workers (manifest l) = Some cap \<and> unat cap < active_worker_count l"
proof -
  let ?y = "\<lambda>tid. (tid, plain_spawn, plain_plan)"
  let ?s = "snd (commit_spawn_worker ''worker-1'' plain_spawn plain_plan (root capped_state) capped_state)"
  have t: "pl_target plain_plan = RootLayer" by (simp add: plain_plan_def)
  have z: "active_worker_count (root capped_state) = 0"
    by (simp add: capped_state_def active_worker_count_def base_state_def new_dispatch_def layer_new_def new_workers_def)
  have 0: "spawn_runs 2 RootLayer \<lparr>sr_state = capped_state, sr_flying = []\<rparr>"
    using z by (rule spawn_runs.start [OF root_layer])
  have 1: "spawn_runs 2 RootLayer \<lparr>sr_state = capped_state, sr_flying = [?y ''worker-2'']\<rparr>"
    using spawn_runs.checked [OF 0, of 0 plain_spawn plain_plan "''worker-2''"] capped_check t by simp
  have 2: "spawn_runs 2 RootLayer \<lparr>sr_state = capped_state, sr_flying = [?y ''worker-1'', ?y ''worker-2'']\<rparr>"
    using spawn_runs.checked [OF 1, of 0 plain_spawn plain_plan "''worker-1''"] capped_check t by simp
  have 3: "spawn_runs 2 RootLayer \<lparr>sr_state = ?s, sr_flying = [?y ''worker-2'']\<rparr>"
    using spawn_runs.committed [OF 2, of "[]" "''worker-1''" plain_spawn plain_plan] root_layer by simp
  have 4: "spawn_runs 2 RootLayer \<lparr>sr_state = overshot, sr_flying = []\<rparr>"
    using spawn_runs.committed [OF 3, of "[]" "''worker-2''" plain_spawn plain_plan] root_layer
    by (simp add: overshot_def Let_def)
  show ?thesis
    by (intro exI [of _ "\<lparr>sr_state = overshot, sr_flying = []\<rparr>"] exI [of _ "root overshot"] exI [of _ 1])
      (simp add: 4 root_layer overshot_count)
qed

end
