(* ===== verification/Sublead_Spec.thy ===== *)
theory Sublead_Spec
  imports Budget_Bounds
begin

text \<open>
  Properties of sub-leads: what the envelope's caps admit, wrap-around included; the end of the
  kill-and-resume loop and its accounting; the reconciliation of a terminated sub-lead.
\<close>

section \<open>Caps\<close>

definition total_workers :: "DispatchState \<Rightarrow> nat" where
  "total_workers s =
     length (states (workers (root s))) + sum_list (map (\<lambda>(sid, l). length (states (workers l))) (subleads s))"

lemma sum_of_nat: "sum_list (map (\<lambda>(a, b). of_nat (f b)) xs) = (of_nat (sum_list (map (\<lambda>(a, b). f b) xs)) :: u32)"
  by (induction xs) auto

lemma current_workers_nat: "current_workers s = of_nat (total_workers s)"
  using sum_of_nat [of "\<lambda>l. length (states (workers l))" "subleads s"]
  by (simp add: current_workers_def total_workers_def u32_len_def)

lemma unat_sum: "unat (of_nat n + w :: u32) = (n + unat w) mod 2 ^ 32"
  by (simp add: unat_word_ariths unat_of_nat mod_simps)

text \<open>
  What the caps of a sub-lead's envelope admit. An own envelope is granted exactly when a budget
  and a worker cap are given or defaulted, the budget is not above the per-sub-lead cap, and two
  counts fit their caps modulo $2^{32}$: the live sub-leads plus one, and the registered workers of
  all live layers plus the requested cap. So both caps hold as long as the sums stay below $2^{32}$;
  a request that makes the sum wrap, such as \<open>2 ^ 32 - n\<close> workers when \<open>n > 0\<close> are registered, is
  granted whatever the worker cap is. The request omits nothing silently: without budget or worker
  cap the only other answer is the shared pool, and only with \<open>read_down\<close>.
\<close>

theorem envelope_caps:
  "(\<exists>b lb mw t. resolve_envelope s req = Inr (Owned b lb mw t)) \<longleftrightarrow>
   (\<exists>b mw. effective_budget_usd s req = Some b \<and> effective_max_workers s req = Some mw \<and>
      (case Option.bind (lead (manifest (root s))) max_sublead_budget_usd of
         Some cap \<Rightarrow> \<not> f_gt b cap | None \<Rightarrow> True) \<and>
      (case Option.bind (lead (manifest (root s))) max_subleads of
         Some cap \<Rightarrow> (length (subleads s) + 1) mod 2 ^ 32 \<le> unat cap | None \<Rightarrow> True) \<and>
      (case Option.bind (lead (manifest (root s))) max_total_workers of
         Some cap \<Rightarrow> (total_workers s + unat mw) mod 2 ^ 32 \<le> unat cap | None \<Rightarrow> True))"
proof -
  have b: "check_sublead_budget_cap s b = Inr () \<longleftrightarrow>
      (case Option.bind (lead (manifest (root s))) max_sublead_budget_usd of
         Some cap \<Rightarrow> \<not> f_gt b cap | None \<Rightarrow> True)" for b
    by (simp add: check_sublead_budget_cap_def split: option.split)
  have n: "check_max_subleads s = Inr () \<longleftrightarrow>
      (case Option.bind (lead (manifest (root s))) max_subleads of
         Some cap \<Rightarrow> (length (subleads s) + 1) mod 2 ^ 32 \<le> unat cap | None \<Rightarrow> True)"
    using unat_sum [of "length (subleads s)" 1]
    by (simp add: check_max_subleads_def u32_len_def Let_def word_less_nat_alt not_less split: option.split)
  have w: "check_max_total_workers s mw = Inr () \<longleftrightarrow>
      (case Option.bind (lead (manifest (root s))) max_total_workers of
         Some cap \<Rightarrow> (total_workers s + unat mw) mod 2 ^ 32 \<le> unat cap | None \<Rightarrow> True)" for mw
    using unat_sum [of "total_workers s" mw]
    by (simp add: check_max_total_workers_def current_workers_nat word_less_nat_alt not_less split: option.split)
  have "(\<exists>b lb mw t. resolve_envelope s req = Inr (Owned b lb mw t)) \<longleftrightarrow>
    (\<exists>b mw. effective_budget_usd s req = Some b \<and> effective_max_workers s req = Some mw \<and>
       check_sublead_budget_cap s b = Inr () \<and> check_max_subleads s = Inr () \<and> check_max_total_workers s mw = Inr ())"
    by (cases "effective_budget_usd s req"; cases "effective_max_workers s req")
      (auto simp: resolve_envelope_def split: sum.splits)
  then show ?thesis unfolding b n w .
qed

text \<open>The wrap-around at work: one registered worker, a cap of zero, a request for $2^{32} - 1$ workers.\<close>

definition wrap_state :: DispatchState where
  "wrap_state = base_state\<lparr>root := (root base_state)
     \<lparr>manifest := base_manifest\<lparr>lead := Some (base_lead\<lparr>max_total_workers := Some 0\<rparr>)\<rparr>,
      workers := new_workers\<lparr>states := [(''w'', Pending)]\<rparr>\<rparr>\<rparr>"

definition wrap_request :: SubleadSpawnRequest where
  "wrap_request = \<lparr>sr_prompt = [], sr_model = [], sr_budget_usd = Some (Fin 1), sr_lead_budget_usd = None,
     sr_max_workers = Some (- 1), sr_lead_timeout_secs = None, sr_initial_ref = [], sr_read_down = False,
     sr_env = [], sr_tools = [], sr_resume_session_id = None, sr_sublead_type = None\<rparr>"

lemma worker_cap_wraps:
  "resolve_envelope wrap_state wrap_request = Inr (Owned (Fin 1) None (- 1) 3600)"
  by (simp add: resolve_envelope_def effective_budget_usd_def effective_max_workers_def effective_lead_timeout_def
      defaults_of_def wrap_state_def wrap_request_def base_state_def new_dispatch_def layer_new_def base_lead_def
      first_some_def check_sublead_budget_cap_def check_max_subleads_def check_max_total_workers_def
      current_workers_def u32_len_def)

section \<open>The kill-and-resume loop\<close>

lemma collect_fields:
  "kr_pending (kr_collect actor st it k) = kr_pending k @ it_arrivals it"
  "kr_usage (kr_collect actor st it k) = usage_add (kr_usage k) (so_token_usage (it_outcome it))"
  "kr_reprompts (kr_collect actor st it k) = kr_reprompts k"
  "kr_commands (kr_collect actor st it k) = kr_commands k"
  by (simp_all add: kr_collect_def Let_def split: option.splits)

text \<open>The session a subprocess ran in, and the last one known after several of them.\<close>

definition session_seen :: "Iteration \<Rightarrow> string option" where
  "session_seen it = (case it_session it of Some sid \<Rightarrow> Some sid | None \<Rightarrow> so_claude_session_id (it_outcome it))"

definition last_seen :: "string option \<Rightarrow> Iteration list \<Rightarrow> string option" where
  "last_seen s its = foldl (\<lambda>s it. case session_seen it of Some sid \<Rightarrow> Some sid | None \<Rightarrow> s) s its"

lemma last_seen_simps [simp]:
  "last_seen s [] = s"
  "last_seen s (it # its) = last_seen (case session_seen it of Some sid \<Rightarrow> Some sid | None \<Rightarrow> s) its"
  by (simp_all add: last_seen_def)

lemma last_seen_Some: "last_seen (Some sid) its \<noteq> None"
  by (induction its arbitrary: sid) (auto split: option.split)

lemma collect_session:
  "kr_last_session (kr_collect actor st it k) = (case session_seen it of Some sid \<Rightarrow> Some sid | None \<Rightarrow> kr_last_session k)"
  by (simp add: kr_collect_def session_seen_def Let_def split: option.split)

text \<open>What the loop has done when it ends on iteration \<open>n\<close>, from a state with pending prompts.\<close>

definition loop_done :: "KillResume \<Rightarrow> Iteration list \<Rightarrow> nat \<Rightarrow> KillResume \<Rightarrow> bool" where
  "loop_done k its n k' \<longleftrightarrow>
     map snd (kr_commands k') = map snd (kr_commands k) @ take n (kr_pending k @ concat (map it_arrivals its)) \<and>
     map (Some \<circ> fst) (kr_commands k') =
       map (Some \<circ> fst) (kr_commands k) @ map (\<lambda>i. last_seen (kr_last_session k) (take (Suc i) its)) [0..<n] \<and>
     (\<forall>m < n. m < length (kr_pending k) + length (concat (map it_arrivals (take (Suc m) its)))) \<and>
     (length (kr_pending k) + length (concat (map it_arrivals (take (Suc n) its))) = n \<or>
      n = 0 \<and> last_seen (kr_last_session k) (take 1 its) = None)"

lemma loop_done_Suc:
  assumes "loop_done k2 its n k'" and "kr_pending k @ it_arrivals it = prompt # kr_pending k2"
    and "kr_commands k2 = kr_commands k @ [(sid, prompt)]" and "kr_last_session k2 = Some sid"
    and "(case session_seen it of Some sid \<Rightarrow> Some sid | None \<Rightarrow> kr_last_session k) = Some sid"
  shows "loop_done k (it # its) (Suc n) k'"
proof -
  have len: "length (kr_pending k) + length (it_arrivals it) = Suc (length (kr_pending k2))"
    using arg_cong [OF assms(2), of length] by simp
  have all: "kr_pending k @ concat (map it_arrivals (it # its)) = prompt # kr_pending k2 @ concat (map it_arrivals its)"
    using assms(2) by simp
  have up: "map (\<lambda>i. last_seen (kr_last_session k) (take (Suc i) (it # its))) [0..<Suc n] =
      Some sid # map (\<lambda>i. last_seen (Some sid) (take (Suc i) its)) [0..<n]"
    using assms(5) by (simp add: upt_conv_Cons map_Suc_upt [symmetric] del: upt_Suc)
  have "m < length (kr_pending k) + length (concat (map it_arrivals (take (Suc m) (it # its))))" if "m < Suc n" for m
    using that assms(1) len by (cases m) (auto simp: loop_done_def)
  moreover have "length (kr_pending k) + length (concat (map it_arrivals (take (Suc (Suc n)) (it # its)))) = Suc n"
    using assms(1,4) len last_seen_Some by (auto simp: loop_done_def)
  ultimately show ?thesis using assms(1,3,4) unfolding loop_done_def all up by simp
qed

lemma loop_general:
  "length (kr_pending k) + length (concat (map it_arrivals its)) < length its \<Longrightarrow>
   \<exists>n r k'. n < length its \<and> run_kill_resume_loop actor st its k = Some (r, k') \<and>
     krr_final_outcome r = it_outcome (its ! n) \<and>
     krr_total_token_usage r =
       foldl usage_add (kr_usage k) (map (\<lambda>it. so_token_usage (it_outcome it)) (take (Suc n) its)) \<and>
     krr_reprompt_count r = kr_reprompts k + of_nat n \<and>
     krr_last_session_id r = last_seen (kr_last_session k) (take (Suc n) its) \<and> loop_done k its n k'"
proof (induction its arbitrary: k)
  case (Cons it its)
  let ?k = "kr_collect actor st it k"
  note f = collect_fields [of actor st it k] collect_session [of actor st it k]
  show ?case
  proof (cases "kr_pending ?k")
    case Nil
    then show ?thesis by (intro exI [of _ 0]) (simp add: Let_def f loop_done_def)
  next
    case (Cons prompt rest)
    show ?thesis
    proof (cases "kr_last_session ?k")
      case None
      then show ?thesis using Cons by (intro exI [of _ 0]) (simp add: Let_def f loop_done_def)
    next
      case (Some sid)
      let ?k2 = "?k\<lparr>kr_layer := set_worker_state actor (Running st None) (kr_layer ?k), kr_pending := rest,
          kr_reprompts := kr_reprompts ?k + 1, kr_commands := kr_commands ?k @ [(sid, prompt)]\<rparr>"
      have p: "kr_pending k @ it_arrivals it = prompt # rest" using Cons f by simp
      then have "length (kr_pending k) + length (it_arrivals it) = Suc (length rest)"
        by (metis length_append length_Cons)
      then have "length (kr_pending ?k2) + length (concat (map it_arrivals its)) < length its"
        using Cons.prems by simp
      from Cons.IH [OF this] obtain n r k' where n: "n < length its"
          "run_kill_resume_loop actor st its ?k2 = Some (r, k')"
          "krr_final_outcome r = it_outcome (its ! n)"
          "krr_total_token_usage r = foldl usage_add (kr_usage ?k2)
             (map (\<lambda>it. so_token_usage (it_outcome it)) (take (Suc n) its))"
          "krr_reprompt_count r = kr_reprompts ?k2 + of_nat n"
          "krr_last_session_id r = last_seen (kr_last_session ?k2) (take (Suc n) its)" "loop_done ?k2 its n k'"
        by blast
      have "loop_done k (it # its) (Suc n) k'"
        by (rule loop_done_Suc [OF n(7)]) (use p Some f in simp_all)
      then show ?thesis
        using n Cons Some by (intro exI [of _ "Suc n"] exI [of _ r] exI [of _ k']) (simp add: Let_def f ac_simps)
    qed
  qed
qed simp

text \<open>
  C35: The kill-and-resume loop ends, delivers every prompt and accounts for everything. Let the subprocess of a
  lead or sub-lead be resumed on reprompts, and let fewer reprompts arrive in all than there are iterations
  available. Then the loop returns, after \<open>n\<close> resumes. It goes on exactly as long as prompts are waiting: before
  each resume more prompts had arrived than were delivered, and when it ends every prompt that arrived until then
  was delivered, in the order of arrival, each into the session last seen before; the one exception is a first
  subprocess that showed no session id, after which it ends with \<open>n = 0\<close>. The record it returns is that of
  the iteration it ended on, with the last session seen and the token usage of every iteration up to it added up,
  none twice and none lost; the count of reprompts is the number of resumes.
\<close>

theorem kill_resume_ends:
  assumes "length (concat (map it_arrivals its)) < length its"
  shows "\<exists>n r k. n < length its \<and> run_kill_resume_loop actor now its (kr_start actor now l) = Some (r, k) \<and>
     (\<forall>m < n. m < length (concat (map it_arrivals (take (Suc m) its)))) \<and>
     (map snd (kr_commands k) = concat (map it_arrivals (take (Suc n) its)) \<and> length (kr_commands k) = n \<or>
      n = 0 \<and> kr_commands k = [] \<and> session_seen (its ! 0) = None) \<and>
     map (Some \<circ> fst) (kr_commands k) = map (\<lambda>i. last_seen None (take (Suc i) its)) [0..<n] \<and>
     krr_final_outcome r = it_outcome (its ! n) \<and> krr_overall_started_at r = now \<and>
     krr_last_session_id r = last_seen None (take (Suc n) its) \<and>
     krr_total_token_usage r =
       foldl usage_add zero_usage (map (\<lambda>it. so_token_usage (it_outcome it)) (take (Suc n) its)) \<and>
     krr_reprompt_count r = of_nat n"
proof -
  let ?k = "kr_start actor now l"
  have started: "run_kill_resume_loop actor now its k = Some (r, k') \<Longrightarrow> krr_overall_started_at r = now" for k r k'
    by (induction actor now its k rule: run_kill_resume_loop.induct)
      (auto simp: Let_def split: list.splits option.splits)
  have start: "kr_pending ?k = []" "kr_usage ?k = zero_usage" "kr_reprompts ?k = 0" "kr_commands ?k = []" "kr_last_session ?k = None"
    by (simp_all add: kr_start_def)
  obtain n r k where n: "n < length its" and loop: "run_kill_resume_loop actor now its ?k = Some (r, k)"
    and result: "krr_final_outcome r = it_outcome (its ! n)"
      "krr_total_token_usage r = foldl usage_add zero_usage (map (\<lambda>it. so_token_usage (it_outcome it)) (take (Suc n) its))"
      "krr_reprompt_count r = of_nat n" "krr_last_session_id r = last_seen None (take (Suc n) its)" "loop_done ?k its n k"
    using loop_general [of ?k its actor now] assms unfolding start by auto
  note finished = result(5) [unfolded loop_done_def start, simplified]
  have prefix: "take n (concat (map it_arrivals its)) = concat (map it_arrivals (take (Suc n) its))"
    if "length (concat (map it_arrivals (take (Suc n) its))) = n"
  proof -
    have "concat (map it_arrivals its) =
        concat (map it_arrivals (take (Suc n) its)) @ concat (map it_arrivals (drop (Suc n) its))"
      by (metis append_take_drop_id concat_append map_append)
    then show ?thesis using that by simp
  qed
  have len: "length (kr_commands k) = n" using arg_cong [OF conjunct1 [OF conjunct2 [OF finished]], of length] by simp
  have first: "session_seen (its ! 0) = None" if "last_seen None (take 1 its) = None"
    using that n by (cases its) (auto split: option.splits)
  show ?thesis
    using n loop result(1-4) started [OF loop] finished prefix len first
    by (intro exI [of _ n] exI [of _ r] exI [of _ k]) auto
qed

definition loop_iterations :: "Iteration list" where
  "loop_iterations =
     [\<lparr>it_outcome = life_outcome SsCompleted, it_session = Some ''ses'', it_arrivals = [''again'']\<rparr>,
      \<lparr>it_outcome = life_outcome SsCancelled, it_session = None, it_arrivals = []\<rparr>]"

theorem kill_resume_ends_witness:
  "length (concat (map it_arrivals loop_iterations)) < length loop_iterations \<and>
   (\<exists>n r k. n < length loop_iterations \<and>
      run_kill_resume_loop ''s'' 0 loop_iterations (kr_start ''s'' 0 life_layer) = Some (r, k) \<and>
      krr_reprompt_count r = of_nat n \<and> map snd (kr_commands k) = concat (map it_arrivals (take (Suc n) loop_iterations)))"
proof -
  have len: "length (concat (map it_arrivals loop_iterations)) < length loop_iterations"
    by (simp add: loop_iterations_def)
  have seen: "session_seen (loop_iterations ! 0) \<noteq> None" by (simp add: loop_iterations_def session_seen_def)
  obtain n r k where "n < length loop_iterations" "run_kill_resume_loop ''s'' 0 loop_iterations (kr_start ''s'' 0 life_layer) = Some (r, k)"
    "krr_reprompt_count r = of_nat n" "map snd (kr_commands k) = concat (map it_arrivals (take (Suc n) loop_iterations))"
    using kill_resume_ends [OF len, of "''s''" 0 life_layer] seen by metis
  then show ?thesis using len by blast
qed

section \<open>Reconciliation\<close>

lemma find_sublead_none:
  "(\<And>k l. (k, l) \<in> set m \<Longrightarrow> k \<noteq> sid \<Longrightarrow> hm_get plain tid (states (workers l)) = None) \<Longrightarrow>
   find_sublead_with tid (hm_remove plain sid m) = None"
proof (induction m)
  case (Cons p m)
  obtain k l where p: "p = (k, l)" by (cases p)
  have "find_sublead_with tid (hm_remove plain sid m) = None" using Cons by (meson list.set_intros(2))
  moreover have "k \<noteq> sid \<Longrightarrow> hm_get plain tid (states (workers l)) = None" using Cons.prems [of k l] p by simp
  ultimately show ?case using p by (simp add: hm_remove_def)
qed (simp add: hm_remove_def)

lemma hm_get_filter_sat: "hm_get plain k (filter P m) = Some v \<Longrightarrow> P (k, v)"
  using hm_plain_get_in [of k "filter P m" v] by auto

definition reconciled :: "string \<Rightarrow> LayerState \<Rightarrow> LayerState \<Rightarrow> LayerState" where
  "reconciled sid l rt = send_done sid (add_spent (spent_usd (budget l)) (unreserve (reservation_of l) rt))"

lemma reconcile_fields:
  assumes "hm_get plain sid (subleads s) = Some l"
  shows "root (reconcile_terminated_sublead sid t out lp s) = reconciled sid l (root s)"
    "subleads (reconcile_terminated_sublead sid t out lp s) = hm_remove plain sid (subleads s)"
    "sublead_results (reconcile_terminated_sublead sid t out lp s) =
       hm_insert plain sid (terminal_of sid t out l) (sublead_results s)"
    "actor_tokens (reconcile_terminated_sublead sid t out lp s) =
       filter (\<lambda>(_, ident). ident_actor_id ident \<noteq> sid) (actor_tokens s)"
  using assms
  by (simp_all add: reconcile_terminated_sublead_def Let_def split_beta revoke_tokens_for_actor_def layer_simps
      broadcast_control_event_def next_seq_def subleads_upd_eq reconciled_def)

text \<open>
  C14: A terminated sub-lead is settled once. The first reconciliation takes its layer out of the live
  ones, gives its reservation back to the root (never below zero), adds what the sub-tree spent to the
  root's spend, stores a terminal record with spend and unspent remainder, revokes every token that
  speaks for the sub-lead and wakes every waiter on it with that record; a second reconciliation
  changes nothing. What a worker of the sub-tree costs after that moment is charged to the terminated
  layer only: its tail leaves the root's spend as it is.
\<close>

theorem reconcile_once:
  assumes l: "hm_get plain sid (subleads s) = Some l"
    and row: "hm_get plain sid (states (workers (root s))) = None"
    and rows: "\<And>k l'. (k, l') \<in> set (subleads s) \<Longrightarrow> k \<noteq> sid \<Longrightarrow> hm_get plain sid (states (workers l')) = None"
    and cur: "cur \<le> length (done_tx (workers (root s)))"
    and lag: "length (done_tx (workers (root s))) - cur < DONE_CAPACITY"
  shows "let s1 = reconcile_terminated_sublead sid t out lp s
     in hm_get plain sid (subleads s1) = None \<and>
        reserved_usd (budget (root s1)) =
          fmax (fsub (reserved_usd (budget (root s))) (reservation_of l)) (Fin 0) \<and>
        spent_usd (budget (root s1)) = fadd (spent_usd (budget (root s))) (spent_usd (budget l)) \<and>
        (\<forall>token i. lookup_token token s1 = Some i \<longrightarrow> ident_actor_id i \<noteq> sid) \<and>
        wait_for_actor_loop s1 sid cur = Got (SubleadRec (terminal_of sid t out l)) \<and>
        reconcile_terminated_sublead sid t' out' lp' s1 = s1 \<and>
        spent_usd (budget (root (finish_worker (SubLayer sid) w cwd lp token tok failure now o' s1))) =
          spent_usd (budget (root s1))"
proof -
  let ?s = "reconcile_terminated_sublead sid t out lp s"
  note f = reconcile_fields [OF l, of t out lp]
  have gone: "hm_get plain sid (subleads ?s) = None" by (simp add: f hm_simps)
  have "find_worker_across_layers ?s sid = None"
    using row find_sublead_none [of "subleads s" sid sid] rows
    by (simp add: find_worker_across_layers_def f reconciled_def layer_simps unreserve_def)
  then have rec: "terminal_record ?s sid = Some (SubleadRec (terminal_of sid t out l))"
    by (simp add: terminal_record_def f hm_simps)
  have wait: "wait_for_actor_loop ?s sid cur = Got (SubleadRec (terminal_of sid t out l))"
    using cur lag rec by (subst wait_for_actor_loop.simps)
      (simp add: recv_done_def f reconciled_def layer_simps unreserve_def Let_def)
  have late: "spent_usd (budget (root (finish_worker (SubLayer sid) w cwd lp token tok failure now o' ?s))) =
      spent_usd (budget (root ?s))"
    using root_finish [of "SubLayer sid" ?s] by (cases "layer_of (SubLayer sid) ?s")
      (auto simp: finish_worker_def layer_simps)
  have again: "reconcile_terminated_sublead sid t' out' lp' ?s = ?s"
    using gone by (simp add: reconcile_terminated_sublead_def)
  have tokens: "lookup_token token ?s = Some i \<Longrightarrow> ident_actor_id i \<noteq> sid" for token i
    using hm_get_filter_sat [of token "\<lambda>(_, ident). ident_actor_id ident \<noteq> sid" "actor_tokens s" i]
    by (simp add: lookup_token_def f)
  show ?thesis
    unfolding Let_def using gone wait late again tokens
    by (auto simp: f reconciled_def layer_simps add_spent_def unreserve_def send_done_def counter_add_def)
qed

theorem reconcile_once_witness:
  "hm_get plain ''s'' (subleads life_state) = Some life_layer \<and>
   (let s1 = reconcile_terminated_sublead ''s'' 1 SoSuccess ''/l'' life_state
    in hm_get plain ''s'' (subleads s1) = None \<and>
       wait_for_actor_loop s1 ''s'' 0 = Got (SubleadRec (terminal_of ''s'' 1 SoSuccess life_layer)) \<and>
       reconcile_terminated_sublead ''s'' 2 SoCancel ''/l'' s1 = s1)"
proof -
  have l: "hm_get plain ''s'' (subleads life_state) = Some life_layer"
    and r: "hm_get plain ''s'' (states (workers (root life_state))) = None"
    and rs: "(k, l') \<in> set (subleads life_state) \<Longrightarrow> k \<noteq> ''s'' \<Longrightarrow> hm_get plain ''s'' (states (workers l')) = None" for k l'
    by (simp_all add: life_defs)
  show ?thesis
    using reconcile_once [where cur = 0 and t = 1 and out = SoSuccess and lp = "''/l''" and t' = 2 and
        out' = SoCancel and lp' = "''/l''", OF l r rs] l life_facts(6)
    by (simp add: Let_def DONE_CAPACITY_def)
qed

end
