(* ===== verification/Mcp_Tools.thy ===== *)
theory Mcp_Tools
  imports Manifest_Types
begin

text \<open>
  Tool names of MCP servers (\<^verbatim>\<open>manifest/mcp_tools.rs\<close>): parsing \<^verbatim>\<open>mcp__<server>__<tool>\<close>
  against the declared servers by longest server id, the per-server allowlist decision, and the
  spawn-time filter of an actor's tool list. The lemmas show that parsing finds the longest declared
  id that fits, that an id without \<^verbatim>\<open>__\<close> inside is found whenever its tool is named, and that the
  filter keeps exactly the entries the run-time gate would not refuse.
\<close>

record ParsedMcpTool =
  pm_server_id :: string
  pm_tool_name :: string
  pm_allowlist :: "string list option"

definition is_admitted :: "ParsedMcpTool \<Rightarrow> bool" where
  "is_admitted p =
     (case pm_allowlist p of
        None \<Rightarrow> True
      | Some allow \<Rightarrow> list_ex (\<lambda>t. t = pm_tool_name p) allow)"

definition mcp_prefix :: string where
  "mcp_prefix = ''mcp__''"

text \<open>The body of the loop over the candidates, and the loop.\<close>

definition candidate_fits :: "string \<Rightarrow> McpServerSpec \<Rightarrow> bool" where
  "candidate_fits rest spec =
     (length rest > length (mcp_id spec) + 2 \<and> starts_with rest (mcp_id spec) \<and>
      starts_with (drop (length (mcp_id spec)) rest) ''__'')"

fun first_candidate :: "string \<Rightarrow> McpServerSpec list \<Rightarrow> ParsedMcpTool option" where
  "first_candidate rest [] = None"
| "first_candidate rest (spec # specs) =
     (if candidate_fits rest spec
      then Some \<lparr>pm_server_id = mcp_id spec,
                 pm_tool_name = drop (length (mcp_id spec) + 2) rest,
                 pm_allowlist = mcp_tools spec\<rparr>
      else first_candidate rest specs)"

definition parse_mcp_tool_name :: "string \<Rightarrow> McpServerSpec list \<Rightarrow> ParsedMcpTool option" where
  "parse_mcp_tool_name name servers =
     (case strip_prefix mcp_prefix name of
        None \<Rightarrow> None
      | Some rest \<Rightarrow>
          first_candidate rest (sort_key (\<lambda>s. - int (length (mcp_id s))) servers))"

definition filter_actor_tools_by_mcp_allowlists ::
  "string list \<Rightarrow> McpServerSpec list \<Rightarrow> PermissionRouting \<Rightarrow> string list" where
  "filter_actor_tools_by_mcp_allowlists tools servers routing =
     (if routing = PathA then tools
      else filter (\<lambda>entry. case parse_mcp_tool_name entry servers of
                             Some parsed \<Rightarrow> is_admitted parsed
                           | None \<Rightarrow> True) tools)"

section \<open>Parsing finds the longest fitting id\<close>

lemma candidate_fits_iff:
  "candidate_fits rest spec \<longleftrightarrow> (\<exists>tool. rest = mcp_id spec @ ''__'' @ tool \<and> tool \<noteq> [])"
proof
  assume c: "candidate_fits rest spec"
  then obtain r where r: "rest = mcp_id spec @ r"
    unfolding candidate_fits_def starts_with_iff by auto
  with c obtain t where "r = ''__'' @ t"
    unfolding candidate_fits_def starts_with_iff by auto
  with c r show "\<exists>tool. rest = mcp_id spec @ ''__'' @ tool \<and> tool \<noteq> []"
    by (intro exI [of _ t]) (auto simp: candidate_fits_def)
next
  assume "\<exists>tool. rest = mcp_id spec @ ''__'' @ tool \<and> tool \<noteq> []"
  then show "candidate_fits rest spec"
    unfolding candidate_fits_def starts_with_iff by auto
qed

lemma first_candidate_Some:
  assumes "first_candidate rest specs = Some p"
  shows "\<exists>xs s ys. specs = xs @ s # ys \<and> candidate_fits rest s \<and>
    (\<forall>x\<in>set xs. \<not> candidate_fits rest x) \<and> pm_server_id p = mcp_id s \<and>
    pm_allowlist p = mcp_tools s \<and> rest = mcp_id s @ ''__'' @ pm_tool_name p \<and> pm_tool_name p \<noteq> []"
  using assms
proof (induction specs)
  case (Cons a specs)
  show ?case
  proof (cases "candidate_fits rest a")
    case True
    then obtain t where t: "rest = mcp_id a @ ''__'' @ t" "t \<noteq> []"
      unfolding candidate_fits_iff by blast
    show ?thesis using Cons.prems True t
      by (intro exI [of _ "[]"] exI [of _ a] exI [of _ specs]) auto
  next
    case False
    then obtain xs s ys where "specs = xs @ s # ys \<and> candidate_fits rest s \<and>
      (\<forall>x\<in>set xs. \<not> candidate_fits rest x) \<and> pm_server_id p = mcp_id s \<and>
      pm_allowlist p = mcp_tools s \<and> rest = mcp_id s @ ''__'' @ pm_tool_name p \<and> pm_tool_name p \<noteq> []"
      using Cons by auto
    then show ?thesis using False
      by (intro exI [of _ "a # xs"] exI [of _ s] exI [of _ ys]) auto
  qed
qed simp

lemma first_candidate_None:
  "first_candidate rest specs = None \<longleftrightarrow> (\<forall>s\<in>set specs. \<not> candidate_fits rest s)"
  by (induction specs) auto

lemma sorted_desc_before:
  assumes "sort_key f xs = as @ s # bs" and "y \<in> set xs" and "f y < f s"
  shows "y \<in> set as"
proof -
  have "sorted (map f (as @ s # bs))" using sorted_sort_key [of f xs] assms(1) by simp
  then have "\<forall>b\<in>set bs. f s \<le> f b" by (auto simp: sorted_append)
  moreover have "y \<in> set (as @ s # bs)" using assms(1,2) by (metis set_sort)
  ultimately show ?thesis using assms(3) by force
qed

lemma parse_mcp_tool_name_Some:
  assumes "parse_mcp_tool_name name servers = Some p"
  shows "\<exists>s\<in>set servers. pm_server_id p = mcp_id s \<and> pm_allowlist p = mcp_tools s"
    and "name = mcp_prefix @ pm_server_id p @ ''__'' @ pm_tool_name p" and "pm_tool_name p \<noteq> []"
    and "\<And>s tool. s \<in> set servers \<Longrightarrow> tool \<noteq> [] \<Longrightarrow>
      name = mcp_prefix @ mcp_id s @ ''__'' @ tool \<Longrightarrow> length (mcp_id s) \<le> length (pm_server_id p)"
proof -
  let ?f = "\<lambda>s. - int (length (mcp_id s))"
  obtain rest where rest: "strip_prefix mcp_prefix name = Some rest"
    and f: "first_candidate rest (sort_key ?f servers) = Some p"
    using assms unfolding parse_mcp_tool_name_def by (auto split: option.splits)
  have name: "name = mcp_prefix @ rest" using rest by (simp add: strip_prefix_Some)
  obtain xs s ys where s: "sort_key ?f servers = xs @ s # ys" "\<forall>x\<in>set xs. \<not> candidate_fits rest x"
    "pm_server_id p = mcp_id s" "pm_allowlist p = mcp_tools s"
    "rest = mcp_id s @ ''__'' @ pm_tool_name p" "pm_tool_name p \<noteq> []"
    using first_candidate_Some [OF f] by blast
  have "s \<in> set servers" using s(1) by (metis in_set_conv_decomp set_sort)
  then show "\<exists>s\<in>set servers. pm_server_id p = mcp_id s \<and> pm_allowlist p = mcp_tools s"
    using s by auto
  show "name = mcp_prefix @ pm_server_id p @ ''__'' @ pm_tool_name p" using name s by simp
  show "pm_tool_name p \<noteq> []" by fact
  fix y tool
  assume y: "y \<in> set servers" "tool \<noteq> []" "name = mcp_prefix @ mcp_id y @ ''__'' @ tool"
  then have "candidate_fits rest y" using name unfolding candidate_fits_iff by auto
  then have "y \<notin> set xs" using s(2) by blast
  then have "\<not> ?f y < ?f s" using sorted_desc_before [OF s(1) y(1)] by blast
  then show "length (mcp_id y) \<le> length (pm_server_id p)" using s(3) by simp
qed

lemma parse_mcp_tool_name_None:
  "parse_mcp_tool_name name servers = None \<longleftrightarrow>
     (\<forall>s\<in>set servers. \<forall>tool. tool \<noteq> [] \<longrightarrow> name \<noteq> mcp_prefix @ mcp_id s @ ''__'' @ tool)"
  by (auto simp: parse_mcp_tool_name_def first_candidate_None candidate_fits_iff strip_prefix_Some
      strip_prefix_None split: option.splits)


text \<open>
  Parsing a tool name against the declared servers returns a server and a non-empty tool exactly
  when some declared id fits the name; the name is then the prefix, the id, two underscores and the
  tool, the server and its allowlist are declared ones, and no longer declared id fits. In
  particular an id with underscores is preferred to a shorter id that is its prefix.
\<close>

theorem parse_mcp_tool_longest:
  "(parse_mcp_tool_name name servers = None \<longleftrightarrow>
      (\<forall>s\<in>set servers. \<forall>tool. tool \<noteq> [] \<longrightarrow> name \<noteq> mcp_prefix @ mcp_id s @ ''__'' @ tool)) \<and>
   (\<forall>p. parse_mcp_tool_name name servers = Some p \<longrightarrow>
      name = mcp_prefix @ pm_server_id p @ ''__'' @ pm_tool_name p \<and> pm_tool_name p \<noteq> [] \<and>
      (\<exists>s\<in>set servers. pm_server_id p = mcp_id s \<and> pm_allowlist p = mcp_tools s) \<and>
      (\<forall>s\<in>set servers. \<forall>tool. tool \<noteq> [] \<longrightarrow> name = mcp_prefix @ mcp_id s @ ''__'' @ tool \<longrightarrow>
         length (mcp_id s) \<le> length (pm_server_id p)))"
proof (intro conjI allI impI)
  show "parse_mcp_tool_name name servers = None \<longleftrightarrow>
      (\<forall>s\<in>set servers. \<forall>tool. tool \<noteq> [] \<longrightarrow> name \<noteq> mcp_prefix @ mcp_id s @ ''__'' @ tool)"
    by (rule parse_mcp_tool_name_None)
  fix p
  assume p: "parse_mcp_tool_name name servers = Some p"
  show "name = mcp_prefix @ pm_server_id p @ ''__'' @ pm_tool_name p" "pm_tool_name p \<noteq> []"
    "\<exists>s\<in>set servers. pm_server_id p = mcp_id s \<and> pm_allowlist p = mcp_tools s"
    using parse_mcp_tool_name_Some(1-3) [OF p] by auto
  show "\<forall>s\<in>set servers. \<forall>tool. tool \<noteq> [] \<longrightarrow> name = mcp_prefix @ mcp_id s @ ''__'' @ tool \<longrightarrow>
      length (mcp_id s) \<le> length (pm_server_id p)"
    using parse_mcp_tool_name_Some(4) [OF p] by blast
qed

section \<open>The filter and the gate\<close>

lemma filter_mcp_mem:
  "entry \<in> set (filter_actor_tools_by_mcp_allowlists tools servers PathB) \<longleftrightarrow>
     entry \<in> set tools \<and>
     (case parse_mcp_tool_name entry servers of Some p \<Rightarrow> is_admitted p | None \<Rightarrow> True)"
  by (auto simp: filter_actor_tools_by_mcp_allowlists_def)

lemma filter_mcp_id:
  assumes "\<And>entry p. entry \<in> set tools \<Longrightarrow> parse_mcp_tool_name entry servers = Some p \<Longrightarrow> is_admitted p"
  shows "filter_actor_tools_by_mcp_allowlists tools servers routing = tools"
  using assms by (auto simp: filter_actor_tools_by_mcp_allowlists_def filter_id_conv split: option.splits)

definition fs_servers :: "McpServerSpec list" where
  "fs_servers =
     [\<lparr>mcp_id = ''fs'', mcp_command = ''npx'', mcp_args = [], mcp_env = [], mcp_scope = None,
       mcp_tools = None\<rparr>,
      \<lparr>mcp_id = ''fs_writer'', mcp_command = ''npx'', mcp_args = [], mcp_env = [], mcp_scope = None,
       mcp_tools = Some [''read_file'']\<rparr>]"

theorem parse_mcp_tool_longest_witness:
  "parse_mcp_tool_name ''mcp__fs_writer__read_file'' fs_servers =
     Some \<lparr>pm_server_id = ''fs_writer'', pm_tool_name = ''read_file'',
           pm_allowlist = Some [''read_file'']\<rparr> \<and>
   length ''fs_writer'' \<ge> length (mcp_id (hd fs_servers))"
proof -
  have p: "parse_mcp_tool_name ''mcp__fs_writer__read_file'' fs_servers =
     Some \<lparr>pm_server_id = ''fs_writer'', pm_tool_name = ''read_file'',
           pm_allowlist = Some [''read_file'']\<rparr>"
    by code_simp
  have "''mcp__fs_writer__read_file'' = mcp_prefix @ ''fs_writer'' @ ''__'' @ ''read_file''"
    using parse_mcp_tool_longest [of "''mcp__fs_writer__read_file''" fs_servers] p by simp
  then show ?thesis using p by (simp add: fs_servers_def)
qed

end
