(* ===== verification/Approval_Tools.thy ===== *)
theory Approval_Tools
  imports Sublead Mcp_Tools
begin

text \<open>
  The approval tools (\<^verbatim>\<open>mcp/tools/approval.rs\<close>): \<^verbatim>\<open>request_approval\<close>,
  \<^verbatim>\<open>propose_plan\<close> and the permission gate \<^verbatim>\<open>permission_prompt\<close>. A handler answers at
  once, or it has handed its request to the approval bridge and waits (\<open>None\<close>); its \<open>_answered\<close>
  part is what follows the bridge's response. Tool inputs are their serialised text. The lemmas show
  the order of the gate's layers and what each decision records.
\<close>

section \<open>Callers\<close>

definition build_caller_identity :: "DispatchState \<Rightarrow> MetaField option \<Rightarrow> string \<times> ActorPath" where
  "build_caller_identity s meta =
     (let rid = lead_id (root s)
      in case meta of
           None \<Rightarrow> (rid, [rid])
         | Some m \<Rightarrow>
             (case meta_actor_role m of
                Lead \<Rightarrow> (meta_actor_id m, [rid])
              | Sublead \<Rightarrow> (meta_actor_id m, [rid, meta_actor_id m])
              | Worker \<Rightarrow>
                  (case hm_get plain (meta_actor_id m) (worker_layer_index s) of
                     Some (Some sid) \<Rightarrow> (meta_actor_id m, [rid, sid, meta_actor_id m])
                   | _ \<Rightarrow> (meta_actor_id m, [rid, meta_actor_id m]))))"

definition SYNTHETIC_PROFILE_ID :: string where
  "SYNTHETIC_PROFILE_ID = ''<synthetic>''"

text \<open>The type id, the role label and the tools of a typed caller.\<close>

definition untyped_profile :: "ResolvedManifest \<Rightarrow> string \<Rightarrow> (string \<times> string \<times> string list) option" where
  "untyped_profile mf role =
     (if untyped_actor_policy mf = UntypedBlock then Some (SYNTHETIC_PROFILE_ID, role, []) else None)"

definition worker_type_of :: "DispatchState \<Rightarrow> string \<Rightarrow> string option" where
  "worker_type_of s caller =
     (case hm_get plain caller (worker_layer_index s) of
        Some (Some sid) \<Rightarrow>
          (case hm_get plain sid (subleads s) of
             Some l \<Rightarrow> hm_get plain caller (actor_types (workers l))
           | None \<Rightarrow> None)
      | _ \<Rightarrow> hm_get plain caller (actor_types (workers (root s))))"

definition caller_profile ::
  "DispatchState \<Rightarrow> string \<Rightarrow> MetaField option \<Rightarrow> (string \<times> string \<times> string list) option" where
  "caller_profile s caller meta =
     (case meta of
        None \<Rightarrow> None
      | Some m \<Rightarrow>
          (let mf = manifest (root s)
           in case meta_actor_role m of
                Lead \<Rightarrow> None
              | Sublead \<Rightarrow>
                  (case hm_get plain caller (sublead_actor_types s) of
                     Some i \<Rightarrow>
                       map_option (\<lambda>st. (i, ''sublead'', st_tools st)) (find (\<lambda>st. st_id st = i) (sublead_types mf))
                   | None \<Rightarrow> untyped_profile mf ''sublead'')
              | Worker \<Rightarrow>
                  (case worker_type_of s caller of
                     Some i \<Rightarrow>
                       map_option (\<lambda>wt. (i, ''worker'', wt_tools wt)) (find (\<lambda>wt. wt_id wt = i) (worker_types mf))
                   | None \<Rightarrow> untyped_profile mf ''worker'')))"

section \<open>Recording\<close>

definition sq :: string where
  "sq = [CHR 0x27]"

definition quoted :: "string \<Rightarrow> string" where
  "quoted x = sq @ x @ sq"

fun denied_message :: "DeniedReasonKind \<Rightarrow> string \<Rightarrow> string" where
  "denied_message DeniedByRule t = ''denied: tool '' @ quoted t @ '' rejected by [[approval_policy]] rule''"
| "denied_message DeniedByPolicy t = ''denied: tool '' @ quoted t @ '' blocked by default approval policy''"
| "denied_message DeniedByProfile t = ''denied: tool '' @ quoted t @ '' not in actor profile allowlist''"
| "denied_message DeniedByMcpServerAllowlist t = ''denied: tool '' @ quoted t @ '' not in mcp_server allowlist''"
| "denied_message OperatorRejected t = ''denied: tool '' @ quoted t @ '' rejected by operator''"
| "denied_message TtlExpired t =
     ''denied: tool '' @ quoted t @ '' approval timed out before operator response''"

definition profile_message :: "string \<Rightarrow> string \<Rightarrow> string \<Rightarrow> string" where
  "profile_message t role type_id =
     ''denied: tool '' @ quoted t @ '' not in '' @ role @ ''_type '' @ quoted type_id @ '' allowlist''"

definition mcp_server_allowlist_message :: "string \<Rightarrow> string \<Rightarrow> string \<Rightarrow> string" where
  "mcp_server_allowlist_message t server bare =
     ''denied: tool '' @ quoted t @ '' (mcp_server '' @ quoted server @ '' tool '' @ quoted bare @
     '') not in server allowlist''"

definition record_permission_denied ::
  "int \<Rightarrow> string \<Rightarrow> string \<Rightarrow> DeniedReasonKind \<Rightarrow> string \<Rightarrow> DispatchState \<Rightarrow> DispatchState" where
  "record_permission_denied now actor t kind reason s =
     append_event actor (TeToolDenied now t actor kind reason) s"

definition record_permission_auto_approved ::
  "int \<Rightarrow> string \<Rightarrow> string \<Rightarrow> string \<Rightarrow> DispatchState \<Rightarrow> DispatchState" where
  "record_permission_auto_approved now actor t type_id s =
     append_event actor (TeToolAutoApproved now t actor type_id) s"

text \<open>The three entries every decision taken without the bridge makes.\<close>

definition record_decision :: "string \<Rightarrow> bool \<Rightarrow> int \<Rightarrow> DispatchState \<Rightarrow> DispatchState" where
  "record_decision actor ok now s =
     record_approval_outcome actor ok
       (bump_approval_requested actor (record_last_approval_response actor ok False now s))"

section \<open>Requests for approval and plans\<close>

record ApprovalToolResponse =
  atr_approved :: bool
  atr_comment :: "string option"
  atr_edited_summary :: "string option"
  atr_reason :: "string option"

record RequestApprovalArgs =
  raa_summary :: string
  raa_timeout_secs :: "u64 option"
  raa_plan :: "ApprovalPlan option"
  raa_tool_name :: "string option"
  raa_cost_estimate :: "f64 option"
  raa_meta :: "MetaField option"

record ProposePlanArgs =
  ppa_plan :: ApprovalPlan
  ppa_timeout_secs :: "u64 option"
  ppa_cost_estimate :: "f64 option"
  ppa_meta :: "MetaField option"

definition ttl_for :: "u64 option \<Rightarrow> DispatchState \<Rightarrow> u64" where
  "ttl_for req s =
     (case first_some req (lead_timeout_secs (manifest (root s))) of Some t \<Rightarrow> t | None \<Rightarrow> 3600)"

definition pending_for ::
  "string \<Rightarrow> int \<Rightarrow> string \<times> ActorPath \<Rightarrow> ApprovalCategory \<Rightarrow> string \<Rightarrow> ApprovalPlan option \<Rightarrow> u64 \<Rightarrow> PendingApproval" where
  "pending_for pid now caller cat summary pln ttl =
     \<lparr>pa_id = pid, requesting_actor_id = fst caller, pa_actor_path = snd caller, pa_category = cat,
      pa_summary = summary, pa_plan = pln, pa_blocks = [fst caller], pa_created_at = now,
      pa_ttl_secs = ttl, pa_fallback = FallbackAutoReject\<rparr>"

definition rule_decision ::
  "glob_new \<Rightarrow> DispatchState \<Rightarrow> PendingApproval \<Rightarrow> string option \<Rightarrow> f64 option \<Rightarrow> bool option" where
  "rule_decision glob s pending tool cost =
     (case matcher (approvals (root s)) of
        None \<Rightarrow> None
      | Some m \<Rightarrow>
          (case policy_evaluate glob m pending tool cost of
             Some AutoApprove \<Rightarrow> Some True
           | Some AutoReject \<Rightarrow> Some False
           | _ \<Rightarrow> None))"

definition policy_response :: "bool \<Rightarrow> ApprovalToolResponse" where
  "policy_response ok =
     \<lparr>atr_approved = ok,
      atr_comment = Some (if ok then ''auto-approved by policy'' else ''auto-rejected by policy''),
      atr_edited_summary = None, atr_reason = None\<rparr>"

definition tool_response :: "ApprovalResponse \<Rightarrow> ApprovalToolResponse" where
  "tool_response r =
     \<lparr>atr_approved = resp_approved r, atr_comment = resp_comment r,
      atr_edited_summary = resp_edited_summary r, atr_reason = resp_reason r\<rparr>"

definition bridge_args :: "string \<Rightarrow> string \<Rightarrow> ApprovalPlan option \<Rightarrow> ApprovalKind \<Rightarrow> u64 \<Rightarrow> RequestArgs" where
  "bridge_args actor summary pln kind ttl =
     \<lparr>ra_task_id = actor, ra_summary = summary, ra_plan = pln, ra_kind = kind,
      ra_ttl_secs = Some ttl, ra_fallback = Some FallbackAutoReject\<rparr>"

definition request_approval_answered ::
  "string \<Rightarrow> ApprovalResponse \<Rightarrow> int \<Rightarrow> DispatchState \<Rightarrow> ApprovalToolResponse \<times> DispatchState" where
  "request_approval_answered caller r now s =
     (tool_response r, record_last_approval_response caller (resp_approved r) (resp_from_ttl r) now s)"

definition handle_request_approval ::
  "glob_new \<Rightarrow> string \<Rightarrow> string \<Rightarrow> int \<Rightarrow> RequestApprovalArgs \<Rightarrow> DispatchState \<Rightarrow>
     ApprovalToolResponse option \<times> DispatchState" where
  "handle_request_approval glob pid rid now args s =
     (let caller = build_caller_identity s (raa_meta args);
          ttl = ttl_for (raa_timeout_secs args) s;
          pending = pending_for pid now caller ToolUse (raa_summary args) (raa_plan args) ttl
      in case rule_decision glob s pending (raa_tool_name args) (raa_cost_estimate args) of
           Some ok \<Rightarrow> (Some (policy_response ok), record_decision (fst caller) ok now s)
         | None \<Rightarrow>
             (case request_begin rid (bridge_args (fst caller) (raa_summary args) (raa_plan args) KindAction ttl) now s of
                (Some r, s') \<Rightarrow>
                  (let (a, s'') = request_approval_answered (fst caller) r now s' in (Some a, s''))
              | (None, s') \<Rightarrow> (None, bump_approval_requested (fst caller) s')))"

datatype PlanError = PlanUnknownSublead string | PlanNotForWorkers

definition caller_layer :: "DispatchState \<Rightarrow> MetaField option \<Rightarrow> PlanError + LayerRef" where
  "caller_layer s meta =
     (case meta of
        None \<Rightarrow> Inr RootLayer
      | Some m \<Rightarrow>
          (case meta_actor_role m of
             Lead \<Rightarrow> Inr RootLayer
           | Sublead \<Rightarrow>
               if hm_get plain (meta_actor_id m) (subleads s) \<noteq> None then Inr (SubLayer (meta_actor_id m))
               else Inl (PlanUnknownSublead (meta_actor_id m))
           | Worker \<Rightarrow> Inl PlanNotForWorkers))"

definition approve_plan :: "LayerState \<Rightarrow> LayerState" where
  "approve_plan l = l\<lparr>approvals := (approvals l)\<lparr>plan_approved := True\<rparr>\<rparr>"

definition propose_plan_answered ::
  "LayerRef \<Rightarrow> string \<Rightarrow> ApprovalResponse \<Rightarrow> int \<Rightarrow> DispatchState \<Rightarrow> ApprovalToolResponse \<times> DispatchState" where
  "propose_plan_answered ref caller r now s =
     (let s = (if resp_approved r then upd_layer ref approve_plan s else s)
      in (tool_response r, record_last_approval_response caller (resp_approved r) (resp_from_ttl r) now s))"

definition handle_propose_plan ::
  "glob_new \<Rightarrow> string \<Rightarrow> string \<Rightarrow> int \<Rightarrow> ProposePlanArgs \<Rightarrow> DispatchState \<Rightarrow>
     (PlanError + ApprovalToolResponse option) \<times> DispatchState" where
  "handle_propose_plan glob pid rid now args s =
     (case caller_layer s (ppa_meta args) of
        Inl e \<Rightarrow> (Inl e, s)
      | Inr ref \<Rightarrow>
          (let caller = build_caller_identity s (ppa_meta args);
               ttl = ttl_for (ppa_timeout_secs args) s;
               summary = plan_summary (ppa_plan args);
               pending = pending_for pid now caller PlanCategory summary (Some (ppa_plan args)) ttl
           in case rule_decision glob s pending None (ppa_cost_estimate args) of
                Some ok \<Rightarrow>
                  (Inr (Some (policy_response ok)),
                   record_decision (fst caller) ok now (if ok then upd_layer ref approve_plan s else s))
              | None \<Rightarrow>
                  (case request_begin rid (bridge_args (fst caller) summary (Some (ppa_plan args)) KindPlan ttl) now s of
                     (Some r, s') \<Rightarrow>
                       (let (a, s'') = propose_plan_answered ref (fst caller) r now s' in (Inr (Some a), s''))
                   | (None, s') \<Rightarrow> (Inr None, bump_approval_requested (fst caller) s'))))"

section \<open>The permission gate\<close>

record PermissionPromptArgs =
  pp_tool_name :: string
  pp_tool_input :: "string option"
  pp_cost_estimate :: "f64 option"
  pp_meta :: "MetaField option"

datatype PermissionPromptResponse = PpAllow "string option" | PpDeny string bool

definition denial_kind :: "ApprovalResponse \<Rightarrow> DeniedReasonKind" where
  "denial_kind r =
     (if resp_from_ttl r then TtlExpired
      else if resp_comment r = Some BRIDGE_AUTO_REJECT_COMMENT then DeniedByPolicy
      else OperatorRejected)"

definition permission_answered ::
  "string \<Rightarrow> PermissionPromptArgs \<Rightarrow> ApprovalResponse \<Rightarrow> int \<Rightarrow> DispatchState \<Rightarrow>
     PermissionPromptResponse \<times> DispatchState" where
  "permission_answered caller args r now s =
     (if resp_approved r then
        (PpAllow (pp_tool_input args), record_last_approval_response caller True (resp_from_ttl r) now s)
      else
        (let kind = denial_kind r;
             reason = (case resp_reason r of Some t \<Rightarrow> t | None \<Rightarrow> denied_message kind (pp_tool_name args))
         in (PpDeny reason False,
             record_last_approval_response caller False (resp_from_ttl r) now
               (record_permission_denied now caller (pp_tool_name args) kind reason s))))"

definition server_refusal :: "DispatchState \<Rightarrow> string \<Rightarrow> ParsedMcpTool option" where
  "server_refusal s t =
     (case parse_mcp_tool_name t (mcp_servers (manifest (root s))) of
        Some p \<Rightarrow> if is_admitted p then None else Some p
      | None \<Rightarrow> None)"

definition handle_permission_prompt ::
  "glob_new \<Rightarrow> string \<Rightarrow> string \<Rightarrow> int \<Rightarrow> PermissionPromptArgs \<Rightarrow> DispatchState \<Rightarrow>
     PermissionPromptResponse option \<times> DispatchState" where
  "handle_permission_prompt glob pid rid now args s =
     (let caller = build_caller_identity s (pp_meta args);
          actor = fst caller;
          t = pp_tool_name args;
          summary = ''Permission request: '' @ t;
          ttl = ttl_for None s;
          pending = pending_for pid now caller ToolUse summary None ttl
      in case server_refusal s t of
           Some p \<Rightarrow>
             (let reason = mcp_server_allowlist_message t (pm_server_id p) (pm_tool_name p)
              in (Some (PpDeny reason False),
                  record_decision actor False now
                    (record_permission_denied now actor t DeniedByMcpServerAllowlist reason s)))
         | None \<Rightarrow>
             (case rule_decision glob s pending (Some t) (pp_cost_estimate args) of
                Some True \<Rightarrow> (Some (PpAllow (pp_tool_input args)), record_decision actor True now s)
              | Some False \<Rightarrow>
                  (let reason = denied_message DeniedByRule t
                   in (Some (PpDeny reason False),
                       record_decision actor False now
                         (record_permission_denied now actor t DeniedByRule reason s)))
              | None \<Rightarrow>
                  (case caller_profile s actor (pp_meta args) of
                     Some (type_id, role, tools) \<Rightarrow>
                       if list_ex (\<lambda>x. x = t) tools then
                         (Some (PpAllow (pp_tool_input args)),
                          record_decision actor True now (record_permission_auto_approved now actor t type_id s))
                       else
                         (let reason = profile_message t role type_id
                          in (Some (PpDeny reason False),
                              record_decision actor False now
                                (record_permission_denied now actor t DeniedByProfile reason s)))
                   | None \<Rightarrow>
                       (case request_begin rid (bridge_args actor summary None KindAction ttl) now s of
                          (Some r, s') \<Rightarrow>
                            (let (a, s'') = permission_answered actor args r now s' in (Some a, s''))
                        | (None, s') \<Rightarrow> (None, bump_approval_requested actor s')))))"

section \<open>The gate against its specification\<close>

text \<open>
  The layers of the gate as the handler's comment lists them, each an answer with its audit row or
  nothing: the server's allowlist, the operator's rules, the actor's profile.
\<close>

definition gate_layers ::
  "glob_new \<Rightarrow> string \<Rightarrow> int \<Rightarrow> PermissionPromptArgs \<Rightarrow> DispatchState \<Rightarrow> (bool \<times> TaskEvent option) option list" where
  "gate_layers glob pid now args s =
     (let caller = build_caller_identity s (pp_meta args); actor = fst caller; t = pp_tool_name args;
          pending = pending_for pid now caller ToolUse (''Permission request: '' @ t) None (ttl_for None s)
      in [map_option (\<lambda>p. (False, Some (TeToolDenied now t actor DeniedByMcpServerAllowlist
              (mcp_server_allowlist_message t (pm_server_id p) (pm_tool_name p))))) (server_refusal s t),
          map_option (\<lambda>ok. (ok, if ok then None
              else Some (TeToolDenied now t actor DeniedByRule (denied_message DeniedByRule t))))
            (rule_decision glob s pending (Some t) (pp_cost_estimate args)),
          map_option (\<lambda>(i, role, tools).
              if t \<in> set tools then (True, Some (TeToolAutoApproved now t actor i))
              else (False, Some (TeToolDenied now t actor DeniedByProfile (profile_message t role i))))
            (caller_profile s actor (pp_meta args))])"

definition gate_decision ::
  "glob_new \<Rightarrow> string \<Rightarrow> int \<Rightarrow> PermissionPromptArgs \<Rightarrow> DispatchState \<Rightarrow> (bool \<times> TaskEvent option) option" where
  "gate_decision glob pid now args s = foldr first_some (gate_layers glob pid now args s) None"

fun denied_text :: "TaskEvent option \<Rightarrow> string" where
  "denied_text (Some (TeToolDenied now t actor kind reason)) = reason"
| "denied_text e = []"

definition counted :: "bool \<Rightarrow> WorkerCounters \<Rightarrow> WorkerCounters" where
  "counted ok c =
     (let c = c\<lparr>approvals_requested := approvals_requested c + 1\<rparr>
      in if ok then c\<lparr>approvals_approved := approvals_approved c + 1\<rparr>
         else c\<lparr>approvals_rejected := approvals_rejected c + 1\<rparr>)"

lemma record_decision_fields:
  "counters_of a (record_decision a ok now s) = counted ok (counters_of a s)"
  "hm_get plain a (last_approval_response (record_decision a ok now s)) =
     Some \<lparr>last_approved = ok, last_from_ttl = False, last_received_at = now\<rparr>"
  "audit (record_decision a ok now s) = audit s"
  "approvals (root (record_decision a ok now s)) = approvals (root s)"
  "oneshots (record_decision a ok now s) = oneshots s"
  by (simp_all add: record_decision_def record_approval_outcome_def bump_approval_requested_def upd_counters_def
      record_last_approval_response_def counters_of_def counted_def hm_simps Let_def)

lemma append_event_fields:
  "counters_of a (append_event b e s) = counters_of a s" "audit (append_event b e s) = audit s @ [(b, e)]"
  "approvals (root (append_event b e s)) = approvals (root s)" "oneshots (append_event b e s) = oneshots s"
  by (simp_all add: append_event_def counters_of_def)

text \<open>
  C7: The permission gate implements its layers. The first of the three layers that decides, in the
  order server allowlist, operator rules, actor profile, decides alone: the answer is that layer's,
  exactly its audit row is appended for the calling actor, the request and its outcome are each
  counted once, the decision is remembered as the caller's last, and neither the approval bridge nor
  its queue is touched. So no rule, profile or operator admits a tool its server's allowlist refuses.
  When no layer decides, the request goes to the bridge, and what the gate answers at once is what it
  makes of the bridge's response.
\<close>

theorem permission_gate_layers:
  "let actor = fst (build_caller_identity s (pp_meta args));
       (answer, s') = handle_permission_prompt glob pid rid now args s
   in case gate_decision glob pid now args s of
        Some (ok, row) \<Rightarrow>
          answer = Some (if ok then PpAllow (pp_tool_input args) else PpDeny (denied_text row) False) \<and>
          audit s' = audit s @ (case row of Some r \<Rightarrow> [(actor, r)] | None \<Rightarrow> []) \<and>
          counters_of actor s' = counted ok (counters_of actor s) \<and>
          hm_get plain actor (last_approval_response s') =
            Some \<lparr>last_approved = ok, last_from_ttl = False, last_received_at = now\<rparr> \<and>
          approvals (root s') = approvals (root s) \<and> oneshots s' = oneshots s
      | None \<Rightarrow>
          (case request_begin rid (bridge_args actor (''Permission request: '' @ pp_tool_name args) None
                  KindAction (ttl_for None s)) now s of
             (Some r, s1) \<Rightarrow>
               answer = Some (fst (permission_answered actor args r now s1)) \<and>
               s' = snd (permission_answered actor args r now s1)
           | (None, s1) \<Rightarrow> answer = None \<and> s' = bump_approval_requested actor s1)"
proof -
  let ?t = "pp_tool_name args" and ?caller = "build_caller_identity s (pp_meta args)"
  let ?pending = "pending_for pid now ?caller ToolUse (''Permission request: '' @ ?t) None (ttl_for None s)"
  note f = record_decision_fields append_event_fields record_permission_denied_def
    record_permission_auto_approved_def
  note d = handle_permission_prompt_def gate_decision_def gate_layers_def first_some_def Let_def
  show ?thesis
  proof (cases "server_refusal s ?t")
    case (Some p)
    then show ?thesis by (simp add: d f)
  next
    case None
    note server = this
    show ?thesis
    proof (cases "rule_decision glob s ?pending (Some ?t) (pp_cost_estimate args)")
      case (Some ok)
      then show ?thesis using server by (cases ok) (simp_all add: d f)
    next
      case None
      show ?thesis
      proof (cases "caller_profile s (fst ?caller) (pp_meta args)")
        case (Some prof)
        then show ?thesis using server None by (cases prof) (simp add: d f list_ex_iff)
      next
        case no_prof: None
        then show ?thesis using server None by (simp add: d split: prod.split option.split)
      qed
    qed
  qed
qed

text \<open>
  A rejection by the full channel of a connected client is not an operator's decision, but the gate
  files it as one: the bridge's answer carries neither the time-to-live flag nor the policy comment.
\<close>

lemma queue_full_filed_as_operator: "denial_kind queue_full_response = OperatorRejected"
  by (simp add: denial_kind_def queue_full_response_def)

end
