(* ===== verification/Mcp_Server.thy ===== *)
theory Mcp_Server
  imports Approval_Tools Cancel_Cascade Communication
begin

text \<open>
  The MCP server of a run (\<^verbatim>\<open>mcp/server.rs\<close>): every tool call of every actor comes in here.
  A connection authenticates with the token in the first call's \<^verbatim>\<open>_meta\<close>, and each tool routes
  to the layer of its caller, checks who may read or act on what, and calls the handler of its
  component. A tool is a function of the connection, the caller decoded from the rewritten
  \<^verbatim>\<open>_meta\<close>, the arguments and the run state. Of JSON only what the authentication looks at is
  kept: objects, strings, and everything else.
\<close>

section \<open>Requests and connections\<close>

datatype Json = JStr string | JObj "(string \<times> Json) list" | JOther

type_synonym JsonMap = "(string \<times> Json) list"

datatype McpError =
    MeMissingMeta
  | MeMetaNotObject
  | MeInvalidToken
  | MeIdWithoutToken
  | MeUnauthenticated
  | MeNotOwnWorker string string
  | MeWorkerTarget string string
  | MeUnknownRole string
  | MeRouting string
  | MeStore StoreError
  | MeLife LifeError
  | MeCancel string
  | MeLeaseHeld string string
  | MeNotPathB
  | MeMissingIdentity

record Connection =
  connection_actor :: "string option"
  connection_identity :: "ActorIdentity option"

definition new_connection :: Connection where
  "new_connection = \<lparr>connection_actor = None, connection_identity = None\<rparr>"

definition note_actor :: "string \<Rightarrow> Connection \<Rightarrow> Connection" where
  "note_actor actor c =
     (if actor = [] then c
      else case connection_actor c of
             None \<Rightarrow> c\<lparr>connection_actor := Some actor\<rparr>
           | Some _ \<Rightarrow> c)"

section \<open>Authentication\<close>

definition rebind_meta :: "ActorIdentity \<Rightarrow> JsonMap \<Rightarrow> JsonMap" where
  "rebind_meta i m =
     hm_remove plain ''token''
       (hm_insert plain ''actor_role'' (JStr (ident_actor_role i))
          (hm_insert plain ''actor_id'' (JStr (ident_actor_id i)) m))"

text \<open>The arguments of a call, the connection and the run; the result is the rewritten \<^verbatim>\<open>_meta\<close>.\<close>

definition authenticate_and_rebind ::
  "JsonMap option \<Rightarrow> DispatchState \<Rightarrow> Connection \<Rightarrow> (McpError + JsonMap) \<times> Connection" where
  "authenticate_and_rebind arguments s c =
     (case arguments of
        None \<Rightarrow> (Inl MeMissingMeta, c)
      | Some args \<Rightarrow>
          (case hm_get plain ''_meta'' args of
             None \<Rightarrow> (Inl MeMissingMeta, c)
           | Some (JObj m) \<Rightarrow>
               (case connection_identity c of
                  Some i \<Rightarrow> (Inr (rebind_meta i m), c)
                | None \<Rightarrow>
                    (case hm_get plain ''token'' m of
                       Some (JStr token) \<Rightarrow>
                         (case lookup_token token s of
                            Some i \<Rightarrow> (Inr (rebind_meta i m), c\<lparr>connection_identity := Some i\<rparr>)
                          | None \<Rightarrow> (Inl MeInvalidToken, c))
                     | _ \<Rightarrow>
                         if hm_get plain ''actor_id'' m \<noteq> None then (Inl MeIdWithoutToken, c)
                         else (Inr m, c)))
           | Some _ \<Rightarrow> (Inl MeMetaNotObject, c)))"

text \<open>\<^verbatim>\<open>serde\<close>'s decoding of the two identity structs.\<close>

definition decode_role :: "string \<Rightarrow> ActorRole option" where
  "decode_role r =
     (if r = ''lead'' \<or> r = ''root_lead'' then Some Lead
      else if r = ''sublead'' then Some Sublead
      else if r = ''worker'' then Some Worker
      else None)"

definition decode_caller_meta :: "JsonMap \<Rightarrow> CallerMeta option" where
  "decode_caller_meta m =
     (case (hm_get plain ''actor_id'' m, hm_get plain ''actor_role'' m) of
        (Some (JStr a), Some (JStr r)) \<Rightarrow> Some \<lparr>cm_actor_id = a, cm_actor_role = r\<rparr>
      | _ \<Rightarrow> None)"

definition decode_meta_field :: "JsonMap \<Rightarrow> MetaField option" where
  "decode_meta_field m =
     Option.bind (decode_caller_meta m) (\<lambda>c.
       map_option (\<lambda>r. \<lparr>meta_actor_id = cm_actor_id c, meta_actor_role = r\<rparr>) (decode_role (cm_actor_role c)))"

section \<open>Authorisation of targets\<close>

definition authorize_target :: "DispatchState \<Rightarrow> string \<Rightarrow> string \<Rightarrow> string \<Rightarrow> McpError + unit" where
  "authorize_target s cid role target =
     (if cid = target then Inr ()
      else if role = ''root_lead'' \<or> role = ''lead'' then Inr ()
      else if role = ''sublead'' then
        (case hm_get plain target (worker_layer_index s) of
           Some (Some owner) \<Rightarrow> if owner = cid then Inr () else Inl (MeNotOwnWorker cid target)
         | _ \<Rightarrow> Inl (MeNotOwnWorker cid target))
      else if role = ''worker'' then Inl (MeWorkerTarget cid target)
      else Inl (MeUnknownRole role))"

definition authorize :: "Connection \<Rightarrow> DispatchState \<Rightarrow> string \<Rightarrow> McpError + unit" where
  "authorize c s target =
     (case connection_identity c of
        None \<Rightarrow> Inl MeUnauthenticated
      | Some i \<Rightarrow> authorize_target s (ident_actor_id i) (ident_actor_role i) target)"

text \<open>The four tools that act on another actor; a refused call runs nothing.\<close>

definition tool_cancel_worker ::
  "Connection \<Rightarrow> string \<Rightarrow> string option \<Rightarrow> DispatchState \<Rightarrow> (McpError + unit) \<times> DispatchState" where
  "tool_cancel_worker c target reason s =
     (case authorize c s target of
        Inl e \<Rightarrow> (Inl e, s)
      | Inr _ \<Rightarrow>
          (case cancel_actor_with_reason s target reason of
             (Inl e, s') \<Rightarrow> (Inl (MeCancel e), s')
           | (Inr _, s') \<Rightarrow> (Inr (), s')))"

definition tool_pause_worker ::
  "(Signal \<Rightarrow> string option) \<Rightarrow> int \<Rightarrow> Connection \<Rightarrow> string \<Rightarrow> PauseMode \<Rightarrow> DispatchState \<Rightarrow>
     (McpError + unit) \<times> Signal list \<times> DispatchState" where
  "tool_pause_worker sig_err now c tid mode s =
     (case authorize c s tid of
        Inl e \<Rightarrow> (Inl e, [], s)
      | Inr _ \<Rightarrow>
          (case handle_pause_worker sig_err now tid mode s of
             (Inl e, sigs, s') \<Rightarrow> (Inl (MeLife e), sigs, s')
           | (Inr _, sigs, s') \<Rightarrow> (Inr (), sigs, s')))"

definition tool_continue_worker ::
  "(Signal \<Rightarrow> string option) \<Rightarrow> string \<Rightarrow> int \<Rightarrow> Connection \<Rightarrow> string \<Rightarrow> string option \<Rightarrow> DispatchState \<Rightarrow>
     (McpError + (LayerRef \<times> ResumeLaunch) option) \<times> Signal list \<times> DispatchState" where
  "tool_continue_worker sig_err uuid now c tid prompt s =
     (case authorize c s tid of
        Inl e \<Rightarrow> (Inl e, [], s)
      | Inr _ \<Rightarrow>
          (case handle_continue_worker sig_err uuid now tid prompt s of
             (Inl e, sigs, s') \<Rightarrow> (Inl (MeLife e), sigs, s')
           | (Inr w, sigs, s') \<Rightarrow> (Inr w, sigs, s')))"

definition tool_reprompt_worker ::
  "string \<Rightarrow> int \<Rightarrow> Connection \<Rightarrow> string \<Rightarrow> string \<Rightarrow> (DispatchState \<Rightarrow> DispatchState) \<Rightarrow> DispatchState \<Rightarrow>
     (McpError + LayerRef \<times> ResumeLaunch) \<times> DispatchState" where
  "tool_reprompt_worker uuid now c tid prompt meanwhile s =
     (case authorize c s tid of
        Inl e \<Rightarrow> (Inl e, s)
      | Inr _ \<Rightarrow>
          (case handle_reprompt_worker uuid now tid prompt meanwhile s of
             (Inl e, s') \<Rightarrow> (Inl (MeLife e), s')
           | (Inr w, s') \<Rightarrow> (Inr w, s')))"

section \<open>Routing and peer visibility\<close>

text \<open>\<^const>\<open>resolve_layer_for_caller\<close> as a reference, for the tools that write to the layer.\<close>

definition route_caller :: "DispatchState \<Rightarrow> string \<Rightarrow> ActorRole \<Rightarrow> string + LayerRef" where
  "route_caller s actor role =
     (case role of
        Lead \<Rightarrow> Inr RootLayer
      | Sublead \<Rightarrow>
          if hm_get plain actor (subleads s) \<noteq> None then Inr (SubLayer actor)
          else Inl (''unknown sublead_id: '' @ actor)
      | Worker \<Rightarrow>
          (case hm_get plain actor (worker_layer_index s) of
             Some (Some sid) \<Rightarrow>
               if hm_get plain sid (subleads s) \<noteq> None then Inr (SubLayer sid)
               else Inl (''worker '' @ actor @ '' registered in unknown sub-tree '' @ sid)
           | _ \<Rightarrow> Inr RootLayer))"

definition layer_at :: "LayerRef \<Rightarrow> DispatchState \<Rightarrow> LayerState" where
  "layer_at ref s = (case layer_of ref s of Some l \<Rightarrow> l | None \<Rightarrow> root s)"

definition set_store :: "LayerRef \<Rightarrow> SharedStore \<Rightarrow> DispatchState \<Rightarrow> DispatchState" where
  "set_store ref st s = upd_layer ref (\<lambda>l. l\<lparr>shared_store := st\<rparr>) s"

definition parse_peer_path :: "string \<Rightarrow> string option" where
  "parse_peer_path key =
     (case strip_prefix ''/peer/'' key of
        None \<Rightarrow> None
      | Some rest \<Rightarrow>
          if starts_with rest ''self/'' \<or> rest = ''self'' then None
          else (case split_on slash rest of
                  [] \<Rightarrow> None
                | i # _ \<Rightarrow> if i = [] then None else Some i))"

definition can_read_peer_slot :: "LayerState \<Rightarrow> string \<Rightarrow> string \<Rightarrow> bool" where
  "can_read_peer_slot l caller target \<longleftrightarrow> caller = target \<or> caller = lead_id l"

definition reader_of :: "DispatchState \<Rightarrow> MetaField option \<Rightarrow> McpError + LayerRef \<times> string" where
  "reader_of s meta =
     (case meta of
        None \<Rightarrow> Inr (RootLayer, [])
      | Some m \<Rightarrow>
          (case route_caller s (meta_actor_id m) (meta_actor_role m) of
             Inl e \<Rightarrow> Inl (MeRouting e)
           | Inr ref \<Rightarrow> Inr (ref, meta_actor_id m)))"

definition note_reader :: "MetaField option \<Rightarrow> Connection \<Rightarrow> Connection" where
  "note_reader meta c = (case meta of Some m \<Rightarrow> note_actor (meta_actor_id m) c | None \<Rightarrow> c)"

text \<open>\<open>noun\<close> and \<open>verb\<close> are the words the three read tools put into their messages.\<close>

definition check_peer_read :: "string \<Rightarrow> string \<Rightarrow> LayerState \<Rightarrow> string \<Rightarrow> string \<Rightarrow> McpError + unit" where
  "check_peer_read noun verb l caller path =
     (case parse_peer_path path of
        None \<Rightarrow> Inr ()
      | Some target \<Rightarrow>
          if caller = [] then
            Inl (MeStore (Forbidden (''strict peer visibility: /peer/'' @ target @
              ''/* requires caller identity (_meta); rejecting anonymous '' @ noun)))
          else if \<not> can_read_peer_slot l caller target then
            Inl (MeStore (Forbidden (''strict peer visibility: '' @ caller @ '' cannot '' @ verb @ '' /peer/'' @
              target @ ''/*; only '' @ target @ '' itself or the layer lead ('' @ lead_id l @
              '') may '' @ verb @ '' this slot'')))
          else Inr ())"

section \<open>Store tools\<close>

definition tool_kv_get ::
  "MetaField option \<Rightarrow> string \<Rightarrow> Connection \<Rightarrow> DispatchState \<Rightarrow>
     (McpError + Entry option) \<times> Connection \<times> DispatchState" where
  "tool_kv_get meta path c s =
     (let c = note_reader meta c
      in case reader_of s meta of
           Inl e \<Rightarrow> (Inl e, c, s)
         | Inr (ref, caller) \<Rightarrow>
             (case check_peer_read ''read'' ''read'' (layer_at ref s) caller path of
                Inl e \<Rightarrow> (Inl e, c, s)
              | Inr _ \<Rightarrow>
                  (case handle_kv_get (shared_store (layer_at ref s)) \<lparr>kg_path = path, kg_meta = meta\<rparr> of
                     (Inl e, st) \<Rightarrow> (Inl (MeStore e), c, set_store ref st s)
                   | (Inr v, st) \<Rightarrow> (Inr v, c, set_store ref st s))))"

definition tool_kv_list ::
  "(string \<Rightarrow> string + (string \<Rightarrow> bool)) \<Rightarrow> MetaField option \<Rightarrow> string \<Rightarrow> Connection \<Rightarrow> DispatchState \<Rightarrow>
     (McpError + ListResult) \<times> Connection \<times> DispatchState" where
  "tool_kv_list glob_new meta glob c s =
     (let c = note_reader meta c
      in case reader_of s meta of
           Inl e \<Rightarrow> (Inl e, c, s)
         | Inr (ref, caller) \<Rightarrow>
             (case check_peer_read ''list'' ''list'' (layer_at ref s) caller glob of
                Inl e \<Rightarrow> (Inl e, c, s)
              | Inr _ \<Rightarrow>
                  (case handle_kv_list glob_new (shared_store (layer_at ref s)) \<lparr>kl_glob = glob, kl_meta = meta\<rparr> of
                     (Inl e, st) \<Rightarrow> (Inl (MeStore e), c, set_store ref st s)
                   | (Inr v, st) \<Rightarrow> (Inr v, c, set_store ref st s))))"

definition tool_kv_wait ::
  "KvWaitArgs \<Rightarrow> NotifyEvent round list \<Rightarrow> Connection \<Rightarrow> DispatchState \<Rightarrow>
     (McpError + Entry) option \<times> Connection \<times> DispatchState" where
  "tool_kv_wait args rounds c s =
     (let c = note_reader (kw_meta args) c
      in case reader_of s (kw_meta args) of
           Inl e \<Rightarrow> (Some (Inl e), c, s)
         | Inr (ref, caller) \<Rightarrow>
             (case check_peer_read ''wait'' ''wait on'' (layer_at ref s) caller (kw_path args) of
                Inl e \<Rightarrow> (Some (Inl e), c, s)
              | Inr _ \<Rightarrow>
                  (case handle_kv_wait (shared_store (layer_at ref s)) args rounds of
                     (None, st) \<Rightarrow> (None, c, set_store ref st s)
                   | (Some (Inl e), st) \<Rightarrow> (Some (Inl (MeStore e)), c, set_store ref st s)
                   | (Some (Inr v), st) \<Rightarrow> (Some (Inr v), c, set_store ref st s))))"

text \<open>A writing tool: the caller's layer, the handler on its store, the store put back.\<close>

definition on_caller_store ::
  "MetaField \<Rightarrow> (SharedStore \<Rightarrow> 'a \<times> SharedStore) \<Rightarrow> Connection \<Rightarrow> DispatchState \<Rightarrow>
     (McpError + 'a) \<times> Connection \<times> DispatchState" where
  "on_caller_store m f c s =
     (let c = note_actor (meta_actor_id m) c
      in case route_caller s (meta_actor_id m) (meta_actor_role m) of
           Inl e \<Rightarrow> (Inl (MeRouting e), c, s)
         | Inr ref \<Rightarrow>
             (let (r, st) = f (shared_store (layer_at ref s)) in (Inr r, c, set_store ref st s)))"

definition tool_kv_set ::
  "KvSetArgs \<Rightarrow> int \<Rightarrow> Connection \<Rightarrow> DispatchState \<Rightarrow>
     (McpError + (StoreError + KvSetResult)) \<times> Connection \<times> DispatchState" where
  "tool_kv_set args now c s = on_caller_store (ks_meta args) (\<lambda>st. handle_kv_set st args now) c s"

definition tool_kv_cas ::
  "KvCasArgs \<Rightarrow> int \<Rightarrow> Connection \<Rightarrow> DispatchState \<Rightarrow>
     (McpError + (StoreError + CasResult)) \<times> Connection \<times> DispatchState" where
  "tool_kv_cas args now c s = on_caller_store (kc_meta args) (\<lambda>st. handle_kv_cas st args now) c s"

definition tool_lease_acquire ::
  "LeaseAcquireArgs \<Rightarrow> lease_env \<Rightarrow> (string round \<times> lease_env) list \<Rightarrow> Connection \<Rightarrow> DispatchState \<Rightarrow>
     (McpError + ((StoreError + AcquireResult) \<times> SharedStore option) option) \<times> Connection \<times> DispatchState" where
  "tool_lease_acquire args env rounds c s =
     on_caller_store (la_meta args) (\<lambda>st. handle_lease_acquire st args env rounds) c s"

definition tool_lease_release ::
  "LeaseReleaseArgs \<Rightarrow> instant \<Rightarrow> Connection \<Rightarrow> DispatchState \<Rightarrow>
     (McpError + (StoreError + unit)) \<times> Connection \<times> DispatchState" where
  "tool_lease_release args now c s =
     on_caller_store (le_meta args) (\<lambda>st. handle_lease_release st args now) c s"

section \<open>Run-wide leases\<close>

definition extract_actor_id :: "CallerMeta option \<Rightarrow> McpError + string" where
  "extract_actor_id meta = (case meta of None \<Rightarrow> Inl MeMissingIdentity | Some m \<Rightarrow> Inr (cm_actor_id m))"

definition tool_run_lease_acquire ::
  "CallerMeta option \<Rightarrow> string \<Rightarrow> u64 \<Rightarrow> instant \<Rightarrow> Connection \<Rightarrow> DispatchState \<Rightarrow>
     (McpError + LeaseHandle) \<times> Connection \<times> DispatchState" where
  "tool_run_lease_acquire meta key ttl_secs now c s =
     (case extract_actor_id meta of
        Inl e \<Rightarrow> (Inl e, c, s)
      | Inr actor \<Rightarrow>
          (let c = note_actor actor c;
               ttl = unat ttl_secs * 1000000000
           in case try_acquire (run_leases s) key actor ttl now of
                (Inl holder, m) \<Rightarrow> (Inl (MeLeaseHeld key holder), c, s\<lparr>run_leases := m\<rparr>)
              | (Inr h, m) \<Rightarrow> (Inr h, c, s\<lparr>run_leases := m\<rparr>)))"

definition tool_run_lease_release ::
  "CallerMeta option \<Rightarrow> string \<Rightarrow> Connection \<Rightarrow> DispatchState \<Rightarrow> (McpError + bool) \<times> Connection \<times> DispatchState" where
  "tool_run_lease_release meta key c s =
     (case extract_actor_id meta of
        Inl e \<Rightarrow> (Inl e, c, s)
      | Inr actor \<Rightarrow>
          (let (released, _, m) = run_release (run_leases s) key actor
           in (Inr released, note_actor actor c, s\<lparr>run_leases := m\<rparr>)))"

section \<open>The permission tool and the tool list\<close>

definition path_b :: "ResolvedManifest \<Rightarrow> bool" where
  "path_b mf = (case lead mf of Some l \<Rightarrow> rl_permission_routing l = PathB | None \<Rightarrow> False)"

definition tool_permission_prompt ::
  "glob_new \<Rightarrow> string \<Rightarrow> string \<Rightarrow> int \<Rightarrow> PermissionPromptArgs \<Rightarrow> DispatchState \<Rightarrow>
     (McpError + PermissionPromptResponse option) \<times> DispatchState" where
  "tool_permission_prompt glob pid rid now args s =
     (if \<not> path_b (manifest (root s)) then (Inl MeNotPathB, s)
      else (let (r, s') = handle_permission_prompt glob pid rid now args s in (Inr r, s')))"

definition is_communication_tool :: "string \<Rightarrow> bool" where
  "is_communication_tool name \<longleftrightarrow>
     name \<in> set [''message_send'', ''message_list'', ''message_read'', ''message_ack'', ''artifact_put'',
       ''artifact_list'', ''artifact_read'', ''artifact_grant'']"

definition list_tools :: "ResolvedManifest \<Rightarrow> string list \<Rightarrow> string list" where
  "list_tools mf tools =
     filter (\<lambda>t. comm_mode (communication mf) \<noteq> CommDisabled \<or> \<not> is_communication_tool t)
       (filter (\<lambda>t. path_b mf \<or> t \<noteq> ''permission_prompt'')
         (filter (\<lambda>t. (case lead mf of Some l \<Rightarrow> allow_subleads l | None \<Rightarrow> False) \<or> \<not> is_root_only_tool t) tools))"

section \<open>Error codes\<close>

fun shared_store_code :: "StoreError \<Rightarrow> string" where
  "shared_store_code (InvalidArg m) = ''invalid_arg''"
| "shared_store_code (Forbidden m) = ''forbidden''"
| "shared_store_code Conflict = ''conflict''"
| "shared_store_code Timeout = ''timeout''"
| "shared_store_code (LimitExceeded k) = ''store_limit_exceeded''"
| "shared_store_code Shutdown = ''store_shutdown''"

section \<open>The end of a connection\<close>

definition disconnect :: "instant \<Rightarrow> Connection \<Rightarrow> DispatchState \<Rightarrow> DispatchState" where
  "disconnect now c s =
     (case connection_actor c of
        None \<Rightarrow> s
      | Some actor \<Rightarrow>
          s\<lparr>root := (root s)\<lparr>shared_store := store_release_all_for_actor (shared_store (root s)) actor now\<rparr>,
            run_leases := snd (snd (release_all_held_by (run_leases s) actor))\<rparr>)"

end
