(* ===== verification/Mcp_Facts.thy ===== *)
theory Mcp_Facts
  imports Mcp_Server
begin

text \<open>
  What the MCP server guarantees: a connection has one identity for life, the one of the token it
  first presented; a tool that acts on another actor does nothing unless its caller may act on it;
  peer slots are read only by their owner and the lead of the layer, for paths in canonical
  spelling (and by everyone for others); and which leases the end of a connection gives back.
\<close>

section \<open>Identity of a connection\<close>

text \<open>A sequence of calls on one connection; the token table may change between any two of them.\<close>

fun serve_calls ::
  "(JsonMap option \<times> DispatchState) list \<Rightarrow> Connection \<Rightarrow> (McpError + JsonMap) list" where
  "serve_calls [] c = []"
| "serve_calls ((args, s) # calls) c =
     (let (r, c') = authenticate_and_rebind args s c in r # serve_calls calls c')"

definition presents :: "JsonMap option \<Rightarrow> string \<Rightarrow> bool" where
  "presents arguments token \<longleftrightarrow>
     (\<exists>args m. arguments = Some args \<and> hm_get plain ''_meta'' args = Some (JObj m) \<and>
        hm_get plain ''token'' m = Some (JStr token))"

definition carries :: "ActorIdentity \<Rightarrow> JsonMap \<Rightarrow> bool" where
  "carries i m \<longleftrightarrow>
     decode_caller_meta m = Some \<lparr>cm_actor_id = ident_actor_id i, cm_actor_role = ident_actor_role i\<rparr> \<and>
     hm_get plain ''token'' m = None"

lemma rebind_carries [simp]: "carries i (rebind_meta i m)"
  by (simp add: carries_def decode_caller_meta_def rebind_meta_def hm_simps)

lemmas auth_splits = option.splits Json.splits if_splits

lemma auth_bound:
  assumes "connection_identity c = Some i" and "authenticate_and_rebind args s c = (r, c')"
  shows "connection_identity c' = Some i" and "r = Inr m \<Longrightarrow> carries i m"
  using assms by (auto simp: authenticate_and_rebind_def split: auth_splits)

lemma auth_unbound:
  assumes "connection_identity c = None" and "authenticate_and_rebind args s c = (r, c')"
  shows "(connection_identity c' = None \<and> (\<forall>m. r = Inr m \<longrightarrow> hm_get plain ''actor_id'' m = None)) \<or>
    (\<exists>i token m. connection_identity c' = Some i \<and> presents args token \<and>
       lookup_token token s = Some i \<and> r = Inr m \<and> carries i m)"
  using assms by (auto simp: authenticate_and_rebind_def presents_def split: auth_splits)

lemma serve_length [simp]: "length (serve_calls calls c) = length calls"
  by (induction calls arbitrary: c) (auto simp: case_prod_beta Let_def)

lemma serve_bound:
  assumes "connection_identity c = Some i" and "k < length calls"
    and "serve_calls calls c ! k = Inr m"
  shows "carries i m"
  using assms
proof (induction calls arbitrary: c k)
  case (Cons call calls)
  obtain args s where call: "call = (args, s)" by fastforce
  obtain r c' where a: "authenticate_and_rebind args s c = (r, c')" by fastforce
  note b = auth_bound [OF Cons.prems(1) a]
  show ?case
    using Cons.prems Cons.IH [OF b(1)] b(2) by (cases k) (auto simp: call a)
qed simp

lemma serve_unbound:
  assumes "connection_identity c = None" and "k < length calls"
    and "serve_calls calls c ! k = Inr m" and "hm_get plain ''actor_id'' m \<noteq> None"
  shows "\<exists>i j token. j \<le> k \<and> presents (fst (calls ! j)) token \<and>
    lookup_token token (snd (calls ! j)) = Some i \<and>
    (\<forall>k' m'. j \<le> k' \<longrightarrow> k' < length calls \<longrightarrow> serve_calls calls c ! k' = Inr m' \<longrightarrow> carries i m')"
  using assms
proof (induction calls arbitrary: c k)
  case (Cons call calls)
  obtain args s where call: "call = (args, s)" by fastforce
  obtain r c' where a: "authenticate_and_rebind args s c = (r, c')" by fastforce
  have serve: "serve_calls (call # calls) c = r # serve_calls calls c'" by (simp add: call a)
  from auth_unbound [OF Cons.prems(1) a] show ?case
  proof (elim disjE conjE exE)
    assume none: "connection_identity c' = None"
      and anon: "\<forall>m. r = Inr m \<longrightarrow> hm_get plain ''actor_id'' m = None"
    obtain k' where k: "k = Suc k'" using Cons.prems anon by (cases k) (auto simp: serve)
    then obtain i j token where j: "j \<le> k'" "presents (fst (calls ! j)) token"
      "lookup_token token (snd (calls ! j)) = Some i"
      and rest: "\<And>k m. j \<le> k \<Longrightarrow> k < length calls \<Longrightarrow> serve_calls calls c' ! k = Inr m \<Longrightarrow> carries i m"
      using Cons.IH [OF none, of k'] Cons.prems by (auto simp: serve)
    show ?case
    proof (intro exI conjI allI impI)
      show "Suc j \<le> k" using j k by simp
      show "presents (fst ((call # calls) ! Suc j)) token"
        "lookup_token token (snd ((call # calls) ! Suc j)) = Some i" using j by simp_all
      show "carries i m'" if "Suc j \<le> n" "n < length (call # calls)"
        "serve_calls (call # calls) c ! n = Inr m'" for n m'
        using that rest [of "n - 1" m'] by (cases n) (auto simp: serve)
    qed
  next
    fix i token m0
    assume i: "connection_identity c' = Some i" "presents args token" "lookup_token token s = Some i"
      "r = Inr m0" "carries i m0"
    show ?case
    proof (intro exI conjI allI impI)
      show "0 \<le> k" by simp
      show "presents (fst ((call # calls) ! 0)) token"
        "lookup_token token (snd ((call # calls) ! 0)) = Some i" using i call by simp_all
      show "carries i m'" if "0 \<le> n" "n < length (call # calls)"
        "serve_calls (call # calls) c ! n = Inr m'" for n m'
        using that serve_bound [OF i(1), of "n - 1"] i by (cases n) (auto simp: serve)
    qed
  qed
qed simp

text \<open>
  C9: one identity per connection. Take any sequence of calls on a fresh connection, with the token
  table changing in any way between them. If an accepted call reaches its tool with an actor id,
  then some call up to it presented a token that was valid at that moment, and from that call on
  every accepted call reaches its tool with exactly the id and role of that token and without the
  token itself, whatever id, role or token its own \<^verbatim>\<open>_meta\<close> claimed.
\<close>

theorem connection_identity_fixed:
  assumes "k < length calls"
    and "serve_calls calls new_connection ! k = Inr m"
    and "hm_get plain ''actor_id'' m \<noteq> None"
  shows "\<exists>i j token. j \<le> k \<and> presents (fst (calls ! j)) token \<and>
    lookup_token token (snd (calls ! j)) = Some i \<and>
    (\<forall>k' m'. j \<le> k' \<longrightarrow> k' < length calls \<longrightarrow> serve_calls calls new_connection ! k' = Inr m' \<longrightarrow>
       decode_caller_meta m' = Some \<lparr>cm_actor_id = ident_actor_id i, cm_actor_role = ident_actor_role i\<rparr> \<and>
       hm_get plain ''token'' m' = None)"
  using serve_unbound [OF _ assms] by (simp add: new_connection_def carries_def)

definition wit_call :: "string \<Rightarrow> JsonMap option" where
  "wit_call tok = Some [(''_meta'', JObj [(''token'', JStr tok), (''actor_id'', JStr ''root'')])]"

definition wit_tokens :: DispatchState where
  "wit_tokens = base_state\<lparr>actor_tokens := [(''t'', \<lparr>ident_actor_id = ''w'', ident_actor_role = ''worker''\<rparr>)]\<rparr>"

theorem connection_identity_fixed_witness:
  "\<exists>i j token. j \<le> 0 \<and> presents (fst ([(wit_call ''t'', wit_tokens), (wit_call ''u'', base_state)] ! j)) token \<and>
    lookup_token token (snd ([(wit_call ''t'', wit_tokens), (wit_call ''u'', base_state)] ! j)) = Some i"
proof -
  let ?m = "[(''actor_id'', JStr ''w''), (''actor_role'', JStr ''worker'')]"
  have "serve_calls [(wit_call ''t'', wit_tokens), (wit_call ''u'', base_state)] new_connection ! 0 = Inr ?m"
    by (simp add: wit_call_def wit_tokens_def new_connection_def authenticate_and_rebind_def rebind_meta_def
        lookup_token_def hm_remove_def)
  from connection_identity_fixed [OF _ this] show ?thesis by auto
qed

section \<open>Acting on another actor\<close>

definition may_act_on :: "Connection \<Rightarrow> DispatchState \<Rightarrow> string \<Rightarrow> bool" where
  "may_act_on c s target \<longleftrightarrow>
     (case connection_identity c of
        None \<Rightarrow> False
      | Some i \<Rightarrow>
          ident_actor_id i = target \<or>
          ident_actor_role i \<in> {''root_lead'', ''lead''} \<or>
          ident_actor_role i = ''sublead'' \<and>
            hm_get plain target (worker_layer_index s) = Some (Some (ident_actor_id i)))"

lemma authorize_iff: "(\<exists>u. authorize c s target = Inr u) \<longleftrightarrow> may_act_on c s target"
  by (auto simp: authorize_def authorize_target_def may_act_on_def split: option.splits)

lemma authorize_cases:
  "may_act_on c s target \<Longrightarrow> authorize c s target = Inr ()"
  "\<not> may_act_on c s target \<Longrightarrow> \<exists>e. authorize c s target = Inl e"
  using authorize_iff [of c s target] by (cases "authorize c s target"; force)+

text \<open>
  C10: acting on others. \<open>cancel_worker\<close>, \<open>pause_worker\<close>, \<open>continue_worker\<close> and
  \<open>reprompt_worker\<close> answer an error, send no signal and leave the run untouched unless the
  connection is authenticated and its actor is the target itself, the root lead, or the sub-lead
  that the worker index names for the target; a caller that may act gets exactly what the handler
  does.
\<close>

theorem target_tools_confined:
  "(\<not> may_act_on c s target \<longrightarrow>
      (\<exists>e. tool_cancel_worker c target reason s = (Inl e, s) \<and>
           tool_pause_worker sig_err now c target mode s = (Inl e, [], s) \<and>
           tool_continue_worker sig_err uuid now c target prompt s = (Inl e, [], s) \<and>
           tool_reprompt_worker uuid now c target text meanwhile s = (Inl e, s))) \<and>
   (may_act_on c s target \<longrightarrow>
      snd (tool_cancel_worker c target reason s) = snd (cancel_actor_with_reason s target reason) \<and>
      snd (tool_pause_worker sig_err now c target mode s) =
        snd (handle_pause_worker sig_err now target mode s) \<and>
      snd (tool_continue_worker sig_err uuid now c target prompt s) =
        snd (handle_continue_worker sig_err uuid now target prompt s) \<and>
      snd (tool_reprompt_worker uuid now c target text meanwhile s) =
        snd (handle_reprompt_worker uuid now target text meanwhile s))"
proof (intro conjI impI)
  assume "\<not> may_act_on c s target"
  then obtain e where "authorize c s target = Inl e" using authorize_cases(2) by blast
  then show "\<exists>e. tool_cancel_worker c target reason s = (Inl e, s) \<and>
           tool_pause_worker sig_err now c target mode s = (Inl e, [], s) \<and>
           tool_continue_worker sig_err uuid now c target prompt s = (Inl e, [], s) \<and>
           tool_reprompt_worker uuid now c target text meanwhile s = (Inl e, s)"
    by (simp add: tool_cancel_worker_def tool_pause_worker_def tool_continue_worker_def
        tool_reprompt_worker_def)
qed (auto simp: authorize_cases tool_cancel_worker_def tool_pause_worker_def tool_continue_worker_def
    tool_reprompt_worker_def split: prod.splits sum.splits)

lemmas wit_state_defs = layer_of_def base_state_def new_dispatch_def layer_new_def

definition wit_worker :: Connection where
  "wit_worker = new_connection\<lparr>connection_identity := Some \<lparr>ident_actor_id = ''w1'', ident_actor_role = ''worker''\<rparr>\<rparr>"

theorem target_tools_confined_witness:
  "\<not> may_act_on wit_worker base_state ''w2'' \<and>
   (\<exists>e. tool_cancel_worker wit_worker ''w2'' None base_state = (Inl e, base_state))"
proof -
  have "\<not> may_act_on wit_worker base_state ''w2''"
    by (simp add: may_act_on_def wit_worker_def)
  then show ?thesis
    using target_tools_confined [of wit_worker base_state "''w2''" None "\<lambda>_. None" 0] by blast
qed

section \<open>Reading peer slots\<close>

definition canonical :: "string \<Rightarrow> bool" where
  "canonical p \<longleftrightarrow> validate_path p = Inr () \<and> ''.'' \<notin> set (split_on slash p)"

lemma canonical_key:
  assumes "canonical (slash # r)" and "r \<noteq> []"
  shows "path_key (slash # r) = (True, split_on slash r)"
proof -
  have "[] \<notin> set (split_on slash r)" "''.'' \<notin> set (split_on slash r)"
    using assms valid_segments_nonempty by (auto simp: canonical_def)
  then have "filter (\<lambda>s. s \<noteq> [] \<and> s \<noteq> ''.'') (split_on slash r) = split_on slash r"
    by (auto simp: filter_id_conv)
  then show ?thesis by (simp add: path_key_abs)
qed

lemma parse_peer_canonical:
  assumes "canonical p" and key: "path_key p = (True, ''peer'' # owner # rest)"
    and "owner \<noteq> ''self''"
  shows "parse_peer_path p = Some owner"
proof -
  obtain r where p: "p = slash # r" using assms by (auto simp: canonical_def validate_path_Inr)
  have "r \<noteq> []" using key p by (auto simp: path_key_abs)
  then have segs: "split_on slash r = ''peer'' # owner # rest"
    using canonical_key assms p by simp
  define t where "t = join_with slash (owner # rest)"
  have "r = join_with slash (''peer'' # owner # rest)"
    using segs join_split_on [of slash r] by simp
  then have r: "r = ''peer'' @ slash # t" by (simp add: t_def)
  then have t: "split_on slash t = owner # rest"
    using segs by (simp add: split_on_append_sep split_on_no_sep)
  have "owner \<noteq> []" using valid_segments_nonempty [of r] assms segs p \<open>r \<noteq> []\<close>
    by (auto simp: canonical_def)
  moreover have "\<not> starts_with t ''self/''"
    using t \<open>owner \<noteq> ''self''\<close> by (auto simp: starts_with_iff)
  moreover have "t \<noteq> ''self''" using t \<open>owner \<noteq> ''self''\<close> by auto
  ultimately show ?thesis by (simp add: parse_peer_path_def p r t)
qed

lemma check_peer_Inr:
  "parse_peer_path p = Some owner \<Longrightarrow>
     check_peer_read noun verb l caller p = Inr u \<longleftrightarrow> caller \<noteq> [] \<and> (caller = owner \<or> caller = lead_id l)"
  by (simp add: check_peer_read_def can_read_peer_slot_def)

lemma check_peer_Inl:
  "parse_peer_path p = Some owner \<Longrightarrow> \<not> (caller \<noteq> [] \<and> (caller = owner \<or> caller = lead_id l)) \<Longrightarrow>
     \<exists>msg. check_peer_read noun verb l caller p = Inl (MeStore (Forbidden msg))"
  by (auto simp: check_peer_read_def can_read_peer_slot_def)

definition may_read :: "DispatchState \<Rightarrow> MetaField option \<Rightarrow> string \<Rightarrow> bool" where
  "may_read s meta owner \<longleftrightarrow>
     (\<exists>m ref. meta = Some m \<and> route_caller s (meta_actor_id m) (meta_actor_role m) = Inr ref \<and>
        meta_actor_id m \<noteq> [] \<and> (meta_actor_id m = owner \<or> meta_actor_id m = lead_id (layer_at ref s)))"

text \<open>
  C11: strict peer visibility. For a path in canonical spelling (absolute, without empty, \<open>.\<close> or
  \<open>..\<close> segments) that lies in the slot \<^verbatim>\<open>/peer/<owner>\<close>, the three read tools return a result
  only to the owner and to the lead of the caller's layer; every other caller, and a caller without
  identity, gets an error and the run stays as it is.
\<close>

theorem peer_slots_private:
  assumes "canonical p" and "path_key p = (True, ''peer'' # owner # rest)" and "owner \<noteq> ''self''"
    and "\<not> may_read s meta owner" and "kw_path args = p" and "kw_meta args = meta"
  shows "(\<exists>e. tool_kv_get meta p c s = (Inl e, note_reader meta c, s)) \<and>
    (\<exists>e. tool_kv_list glob_new meta p c s = (Inl e, note_reader meta c, s)) \<and>
    (\<exists>e. tool_kv_wait args rounds c s = (Some (Inl e), note_reader meta c, s))"
proof (cases "reader_of s meta")
  case (Inl e)
  then show ?thesis
    using assms by (simp add: tool_kv_get_def tool_kv_list_def tool_kv_wait_def Let_def)
next
  case (Inr rc)
  obtain ref caller where rc: "rc = (ref, caller)" by fastforce
  have "\<not> (caller \<noteq> [] \<and> (caller = owner \<or> caller = lead_id (layer_at ref s)))"
    using assms(4) Inr rc by (auto simp: reader_of_def may_read_def split: option.splits sum.splits)
  then obtain msg where
    "\<And>noun verb. check_peer_read noun verb (layer_at ref s) caller p =
       Inl (MeStore (Forbidden (msg noun verb)))"
    using check_peer_Inl [OF parse_peer_canonical [OF assms(1-3)]] by metis
  then show ?thesis
    using assms Inr rc by (simp add: tool_kv_get_def tool_kv_list_def tool_kv_wait_def Let_def)
qed

definition wit_reader :: "MetaField option" where
  "wit_reader = Some \<lparr>meta_actor_id = ''w1'', meta_actor_role = Worker\<rparr>"

definition wit_wait :: KvWaitArgs where
  "wit_wait = \<lparr>kw_path = ''/peer/w2/x'', kw_timeout_secs = 5, kw_min_version = None, kw_meta = wit_reader\<rparr>"

theorem peer_slots_private_witness:
  "\<exists>e. tool_kv_get wit_reader ''/peer/w2/x'' new_connection base_state =
     (Inl e, note_reader wit_reader new_connection, base_state)"
proof -
  have "canonical ''/peer/w2/x''"
    by (simp add: canonical_def validate_path_def starts_with_def)
  moreover have "path_key ''/peer/w2/x'' = (True, ''peer'' # ''w2'' # [''x''])"
    by (simp add: path_key_def starts_with_def)
  moreover have "\<not> may_read base_state wit_reader ''w2''"
    by (auto simp: may_read_def wit_reader_def wit_state_defs route_caller_def layer_at_def)
  ultimately show ?thesis
    using peer_slots_private [of "''/peer/w2/x''" "''w2''" "[''x'']" base_state wit_reader wit_wait]
    by (simp add: wit_wait_def)
qed

lemma dot_key: "path_key (slash # CHR ''.'' # slash # r) = path_key (slash # r)"
  by (simp add: path_key_abs)

lemma dot_not_peer: "parse_peer_path (slash # CHR ''.'' # r) = None"
  by (simp add: parse_peer_path_def)

lemma dot_not_self: "require_identity_for_self (slash # CHR ''.'' # r) meta = Inr (slash # CHR ''.'' # r)"
  by (simp add: require_identity_for_self_def starts_with_def)

lemma store_get_dot: "store_get st (slash # CHR ''.'' # slash # r) = store_get st (slash # r)"
  unfolding store_get_def by (rule hm_get_same_key) (rule dot_key)

lemma note_kv_opt_entries [simp]: "store_get (note_kv_opt meta st) p = store_get st p"
  by (simp add: note_kv_opt_def note_kv_op_def store_get_def Let_def split: option.splits)

text \<open>
  The guard goes by spelling, the store by components. Whatever absolute path an entry is
  stored under, any caller that can be routed to the layer reads it by writing \<^verbatim>\<open>/.\<close> in front of the path: the peer check does not recognise the
  spelling and the lookup drops the \<^verbatim>\<open>.\<close> component.
\<close>

theorem peer_guard_bypassed:
  assumes "reader_of s meta = Inr (ref, caller)"
  shows "fst (tool_kv_get meta (''/.'' @ slash # r) c s) =
    Inr (store_get (shared_store (layer_at ref s)) (slash # r))"
  using assms
  by (simp add: tool_kv_get_def Let_def check_peer_read_def dot_not_peer handle_kv_get_def dot_not_self
      store_get_dot)

definition wit_entry :: Entry where
  "wit_entry = \<lparr>entry_value = [7], entry_version = 1, entry_written_by = ''w2'', entry_written_at = 0\<rparr>"

definition wit_slots :: DispatchState where
  "wit_slots = base_state\<lparr>root := (root base_state)
     \<lparr>shared_store := new_store\<lparr>entries := [(''/peer/w2/x'', wit_entry)]\<rparr>\<rparr>\<rparr>"

theorem peer_guard_bypassed_witness:
  "fst (tool_kv_get wit_reader ''/./peer/w2/x'' new_connection wit_slots) = Inr (Some wit_entry) \<and>
   (\<exists>e. fst (tool_kv_get wit_reader ''/peer/w2/x'' new_connection wit_slots) = Inl e)"
proof
  have r: "reader_of wit_slots wit_reader = Inr (RootLayer, ''w1'')"
    by (simp add: reader_of_def wit_reader_def route_caller_def wit_slots_def wit_state_defs)
  have l: "lead_id (layer_at RootLayer wit_slots) = ''lead''"
    by (simp add: layer_at_def wit_slots_def wit_state_defs)
  show "fst (tool_kv_get wit_reader ''/./peer/w2/x'' new_connection wit_slots) = Inr (Some wit_entry)"
    using peer_guard_bypassed [OF r, of "''peer/w2/x''" new_connection]
    by (simp add: wit_slots_def layer_at_def layer_of_def store_get_def)
  show "\<exists>e. fst (tool_kv_get wit_reader ''/peer/w2/x'' new_connection wit_slots) = Inl e"
    by (simp add: tool_kv_get_def r l Let_def check_peer_read_def parse_peer_path_def starts_with_def
        can_read_peer_slot_def)
qed

section \<open>The end of a connection\<close>

lemma disconnect_root_leases:
  assumes "connection_actor c = Some a"
  shows "leases (shared_store (root (disconnect now c s))) =
    snd (layer_release_all now a (leases (shared_store (root s))))"
  using assms
  by (simp add: disconnect_def store_release_all_for_actor_def layer_release_all_state case_prod_beta
      notify_lease_evictions_def)

text \<open>
  Leases at the end of a connection. When the connection of an actor ends, no lease of the root
  store that has not expired and no run-wide lease is held by the actor any more, and those of every
  other actor stay; every sub-tree is left as it was, so that the leases an actor holds in the store
  of a sub-lead's layer stay held until they expire.
\<close>

theorem disconnect_leases:
  assumes "connection_actor c = Some a"
    and "hm_wf plain (leases (shared_store (root s)))" and "hm_wf plain (run_leases s)"
  shows "(layer_held now (leases (shared_store (root (disconnect now c s)))) b k \<longleftrightarrow>
      layer_held now (leases (shared_store (root s))) b k \<and> b \<noteq> a) \<and>
    (run_held (run_leases (disconnect now c s)) b k \<longleftrightarrow> run_held (run_leases s) b k \<and> b \<noteq> a) \<and>
    subleads (disconnect now c s) = subleads s"
  using layer.cascade_held [OF assms(2), of now "[a]" b k] run.cascade_held [OF assms(3), of "[a]" b k] assms
  by (simp add: disconnect_root_leases) (simp add: disconnect_def)

definition wit_leased :: DispatchState where
  "wit_leased = base_state\<lparr>run_leases :=
     [(''lock'', \<lparr>handle_key = ''lock'', handle_holder = ''w'', handle_acquired_at = 0, handle_ttl = 60\<rparr>)]\<rparr>"

theorem disconnect_leases_witness:
  "run_held (run_leases wit_leased) ''w'' ''lock'' \<and>
   \<not> run_held (run_leases (disconnect 5 (note_actor ''w'' new_connection) wit_leased)) ''w'' ''lock''"
  using disconnect_leases [of "note_actor ''w'' new_connection" "''w''" wit_leased 5 "''w''" "''lock''"]
  by (simp add: note_actor_def new_connection_def hm_wf_def wit_state_defs new_store_def with_limits_def
      wit_leased_def run_held_def)

end
