(* ===== verification/Mcp_Stall.thy ===== *)
theory Mcp_Stall
  imports Mcp_Facts
begin

text \<open>
  The lock around the table of sub-leads. Every store tool takes the read guard of
  \<^verbatim>\<open>state.subleads\<close> before it resolves its caller's layer and keeps it until its handler returns;
  \<open>kv_wait\<close> keeps it while it waits. Registering a sub-lead and removing an ended one take the write
  guard. The lock is \<^verbatim>\<open>tokio::sync::RwLock\<close>: when it grants a request is a parameter, and what its
  documentation promises (exclusion, and no read granted past a write that queued before it) are
  the hypotheses \<open>excludes\<close> and \<open>queue_fair\<close>.
\<close>

section \<open>Tasks and the lock\<close>

datatype Access = ReadAccess | WriteAccess

datatype SubleadsTask =
    WaitTask KvWaitArgs
  | SetTask KvSetArgs int
  | RegisterTask string LayerState
  | RemoveTask string

record SubleadsLock =
  readers :: "nat list"
  waiting :: "(nat \<times> Access) list"

type_synonym policy = "SubleadsLock \<Rightarrow> nat \<Rightarrow> bool"

fun access_of :: "SubleadsTask \<Rightarrow> Access" where
  "access_of (WaitTask a) = ReadAccess"
| "access_of (SetTask a now) = ReadAccess"
| "access_of (RegisterTask i l) = WriteAccess"
| "access_of (RemoveTask i) = WriteAccess"

text \<open>\<open>kv_wait\<close> has not found its entry and has not been refused.\<close>

definition wait_blocked :: "KvWaitArgs \<Rightarrow> DispatchState \<Rightarrow> bool" where
  "wait_blocked a s \<longleftrightarrow> fst (tool_kv_wait a [] new_connection s) = None"

fun under_write :: "SubleadsTask \<Rightarrow> DispatchState \<Rightarrow> DispatchState" where
  "under_write (RegisterTask i l) s = register_sublead i l s"
| "under_write (RemoveTask i) s = s\<lparr>subleads := hm_remove plain i (subleads s)\<rparr>"
| "under_write (WaitTask a) s = s"
| "under_write (SetTask a now) s = s"

datatype lock_event = Arrive nat | Granted nat | DidSet nat | Wrote nat | Woken nat | TimedOutWait nat

inductive lock_step ::
  "policy \<Rightarrow> (nat \<Rightarrow> SubleadsTask) \<Rightarrow> SubleadsLock \<times> DispatchState \<Rightarrow> lock_event \<Rightarrow>
     SubleadsLock \<times> DispatchState \<Rightarrow> bool"
  for grants jobs where
  arrive: "lock_step grants jobs (l, s) (Arrive i)
     (l\<lparr>waiting := waiting l @ [(i, access_of (jobs i))]\<rparr>, s)"
| granted: "(i, ReadAccess) \<in> set (waiting l) \<Longrightarrow> grants l i \<Longrightarrow>
     lock_step grants jobs (l, s) (Granted i)
       (l\<lparr>readers := i # readers l, waiting := remove1 (i, ReadAccess) (waiting l)\<rparr>, s)"
| did_set: "i \<in> set (readers l) \<Longrightarrow> jobs i = SetTask a now \<Longrightarrow>
     lock_step grants jobs (l, s) (DidSet i)
       (l\<lparr>readers := remove1 i (readers l)\<rparr>, snd (snd (tool_kv_set a now new_connection s)))"
| wrote: "(i, WriteAccess) \<in> set (waiting l) \<Longrightarrow> grants l i \<Longrightarrow>
     lock_step grants jobs (l, s) (Wrote i)
       (l\<lparr>waiting := remove1 (i, WriteAccess) (waiting l)\<rparr>, under_write (jobs i) s)"
| woken: "i \<in> set (readers l) \<Longrightarrow> jobs i = WaitTask a \<Longrightarrow> \<not> wait_blocked a s \<Longrightarrow>
     lock_step grants jobs (l, s) (Woken i) (l\<lparr>readers := remove1 i (readers l)\<rparr>, s)"
| timed_out: "i \<in> set (readers l) \<Longrightarrow> jobs i = WaitTask a \<Longrightarrow>
     lock_step grants jobs (l, s) (TimedOutWait i) (l\<lparr>readers := remove1 i (readers l)\<rparr>, s)"

inductive lock_run ::
  "policy \<Rightarrow> (nat \<Rightarrow> SubleadsTask) \<Rightarrow> SubleadsLock \<times> DispatchState \<Rightarrow> lock_event list \<Rightarrow>
     SubleadsLock \<times> DispatchState \<Rightarrow> bool"
  for grants jobs where
  run_refl: "lock_run grants jobs c [] c"
| run_step: "lock_run grants jobs c es c' \<Longrightarrow> lock_step grants jobs c' e c'' \<Longrightarrow>
     lock_run grants jobs c (es @ [e]) c''"

definition excludes :: "policy \<Rightarrow> bool" where
  "excludes grants \<longleftrightarrow> (\<forall>l i. grants l i \<longrightarrow> (i, WriteAccess) \<in> set (waiting l) \<longrightarrow> readers l = [])"

definition queue_fair :: "policy \<Rightarrow> bool" where
  "queue_fair grants \<longleftrightarrow>
     (\<forall>l i j xs ys. grants l i \<longrightarrow> waiting l = xs @ (j, WriteAccess) # ys \<longrightarrow> (i, ReadAccess) \<notin> set ys)"

section \<open>The stall\<close>

definition stalled :: "(nat \<Rightarrow> SubleadsTask) \<Rightarrow> SubleadsLock \<Rightarrow> DispatchState \<Rightarrow> bool" where
  "stalled jobs l s \<longleftrightarrow>
     readers l \<noteq> [] \<and> (\<forall>i\<in>set (readers l). \<exists>a. jobs i = WaitTask a \<and> wait_blocked a s) \<and>
     (\<exists>j ws. waiting l = (j, WriteAccess) # ws)"

lemma stalled_step:
  assumes "stalled jobs l s" and "excludes grants" and "queue_fair grants"
    and "lock_step grants jobs (l, s) e (l', s')" and "\<forall>i. e \<noteq> TimedOutWait i"
  shows "stalled jobs l' s' \<and> readers l' = readers l \<and> s' = s \<and> (\<exists>i. e = Arrive i)"
  using assms(4)
proof (cases rule: lock_step.cases)
  case (arrive i)
  then show ?thesis using assms(1) by (auto simp: stalled_def)
next
  case (granted i)
  obtain j ws where w: "waiting l = [] @ (j, WriteAccess) # ws" using assms(1) by (auto simp: stalled_def)
  with granted assms(3) have "(i, ReadAccess) \<notin> set ws" unfolding queue_fair_def by blast
  with w granted show ?thesis by simp
qed (use assms in \<open>auto simp: stalled_def excludes_def\<close>)

lemma stalled_run:
  assumes "lock_run grants jobs c es c'" and "stalled jobs (fst c) (snd c)"
    and "excludes grants" and "queue_fair grants" and "\<forall>i. TimedOutWait i \<notin> set es"
  shows "stalled jobs (fst c') (snd c') \<and> readers (fst c') = readers (fst c) \<and> snd c' = snd c \<and>
    (\<forall>e\<in>set es. \<exists>i. e = Arrive i)"
  using assms
proof (induction rule: lock_run.induct)
  case (run_step c es c' e c'')
  then have ih: "stalled jobs (fst c') (snd c')" "readers (fst c') = readers (fst c)" "snd c' = snd c"
    "\<forall>e\<in>set es. \<exists>i. e = Arrive i" by auto
  have "lock_step grants jobs (fst c', snd c') e (fst c'', snd c'')" using run_step.hyps(2) by simp
  from stalled_step [OF ih(1) run_step.prems(2,3) this] ih run_step.prems(4) show ?case by auto
qed simp

text \<open>
  A waiting reader and a queued writer stop the store. When the read guards on the table of
  sub-leads are held by \<open>kv_wait\<close> calls whose entries are not there yet, and a registration or
  removal of a sub-lead is next in the queue of the lock, then until one of the waits times out
  nothing happens but new requests joining the queue: no \<open>kv_set\<close> runs, the run state stays
  exactly as it is, and the waits cannot be woken by the write they wait for.
\<close>

theorem kv_wait_stalls_store:
  assumes "excludes grants" and "queue_fair grants"
    and "readers l \<noteq> []" and "waiting l = (j, WriteAccess) # ws"
    and "\<forall>i\<in>set (readers l). \<exists>a. jobs i = WaitTask a \<and> wait_blocked a s"
    and "lock_run grants jobs (l, s) es (l', s')" and "\<forall>i. TimedOutWait i \<notin> set es"
  shows "s' = s \<and> readers l' = readers l \<and> (\<forall>e\<in>set es. \<exists>i. e = Arrive i)"
  using stalled_run [OF assms(6)] assms by (auto simp: stalled_def)

text \<open>The policy of the tokio lock: the request at the head of the queue, a write only when free.\<close>

definition fifo :: policy where
  "fifo l i \<longleftrightarrow> (case waiting l of [] \<Rightarrow> False
     | (k, a) # _ \<Rightarrow> k = i \<and> (a = ReadAccess \<or> readers l = []) \<and> distinct (map fst (waiting l)))"

lemma fifo_excludes: "excludes fifo"
  by (auto simp: excludes_def fifo_def image_iff split: list.splits)

lemma fifo_fair: "queue_fair fifo"
  unfolding queue_fair_def
proof (intro allI impI notI)
  fix l i j xs ys
  assume f: "fifo l i" and w: "waiting l = xs @ (j, WriteAccess) # ys" and i: "(i, ReadAccess) \<in> set ys"
  have d: "distinct (map fst (waiting l))" "fst (hd (waiting l)) = i"
    using f by (auto simp: fifo_def split: list.splits)
  have "i \<in> fst ` set ys" using i by force
  with d w show False by (cases xs) (auto simp: image_iff)
qed

definition stall_wait :: KvWaitArgs where
  "stall_wait = \<lparr>kw_path = ''/shared/x'', kw_timeout_secs = 60, kw_min_version = None,
     kw_meta = Some \<lparr>meta_actor_id = ''lead'', meta_actor_role = Lead\<rparr>\<rparr>"

definition stall_set :: KvSetArgs where
  "stall_set = \<lparr>ks_path = ''/shared/x'', ks_value = [1], ks_override_flag = False,
     ks_meta = \<lparr>meta_actor_id = ''w'', meta_actor_role = Worker\<rparr>\<rparr>"

definition stall_jobs :: "nat \<Rightarrow> SubleadsTask" where
  "stall_jobs i = (if i = 0 then WaitTask stall_wait else if i = 1 then RemoveTask ''s'' else SetTask stall_set 5)"

theorem kv_wait_stalls_store_witness:
  "\<exists>l'. lock_run fifo stall_jobs (\<lparr>readers = [0], waiting = [(1, WriteAccess)]\<rparr>, base_state) [Arrive 2]
       (l', base_state) \<and> readers l' = [0]"
proof -
  let ?c = "(\<lparr>readers = [0], waiting = [(1, WriteAccess)]\<rparr>, base_state)"
  let ?l = "\<lparr>readers = [0], waiting = [(1, WriteAccess), (2, ReadAccess)]\<rparr>"
  have "lock_step fifo stall_jobs ?c (Arrive 2) (?l, base_state)"
    using lock_step.arrive [of fifo stall_jobs "fst ?c" base_state 2] by (simp add: stall_jobs_def)
  then have r: "lock_run fifo stall_jobs ?c [Arrive 2] (?l, base_state)"
    using lock_run.run_step [OF lock_run.run_refl, of fifo stall_jobs ?c "Arrive 2"] by simp
  have "wait_blocked stall_wait base_state"
    by (simp add: wait_blocked_def stall_wait_def tool_kv_wait_def Let_def reader_of_def route_caller_def
        check_peer_read_def parse_peer_path_def handle_kv_wait_def require_identity_for_self_def
        starts_with_def store_wait_def validate_path_def wit_state_defs layer_at_def note_kv_opt_def
        note_kv_op_def new_store_def with_limits_def ready_def)
  then have "readers ?l = [0]"
    using kv_wait_stalls_store [OF fifo_excludes fifo_fair _ _ _ r] by (simp add: stall_jobs_def)
  with r show ?thesis by blast
qed

end
