(* ===== verification/Control_Server.thy ===== *)
theory Control_Server
  imports Worker_Ops Approval_Ttl Communication
begin

text \<open>
  The control socket of a run (\<^verbatim>\<open>control/server.rs\<close>): the operations a client may send, the table
  that dispatches them, the hello handshake, the read loop of a connection in writer or subscriber
  mode, and the periodic activity report. The single operations are in \<open>Approval\<close> and
  \<open>Worker_Ops\<close>. A line of the socket is the operation it parses to or the error of the parser;
  \<open>rfc3339\<close> is chrono's formatter and \<open>debug\<close> the derived \<^verbatim>\<open>Debug\<close> output of an operation. The
  lemmas show what a snapshot of the workers contains and that a subscriber changes nothing.
\<close>

section \<open>Operations\<close>

datatype ClientMode = ModeWriter | ModeSubscriber

datatype ControlOp =
    OpHello string ClientMode
  | OpCancelWorker string
  | OpCancelRun
  | OpPauseWorker string PauseMode
  | OpContinueWorker string "string option"
  | OpRepromptWorker string string
  | OpApprove string bool "string option" "string option" "string option"
  | OpListWorkers
  | OpUpdatePolicy "ApprovalRule list"
  | OpSubscribe u64

fun op_tag :: "ControlOp \<Rightarrow> string" where
  "op_tag (OpHello v m) = ''hello''"
| "op_tag (OpCancelWorker t) = ''cancel_worker''"
| "op_tag OpCancelRun = ''cancel_run''"
| "op_tag (OpPauseWorker t m) = ''pause_worker''"
| "op_tag (OpContinueWorker t p) = ''continue_worker''"
| "op_tag (OpRepromptWorker t p) = ''reprompt_worker''"
| "op_tag (OpApprove r a c e w) = ''approve''"
| "op_tag OpListWorkers = ''list_workers''"
| "op_tag (OpUpdatePolicy rs) = ''update_policy''"
| "op_tag (OpSubscribe n) = ''subscribe''"

fun is_subscriber_safe_op :: "ControlOp \<Rightarrow> bool" where
  "is_subscriber_safe_op (OpHello v m) = True"
| "is_subscriber_safe_op (OpSubscribe n) = True"
| "is_subscriber_safe_op op = False"

section \<open>The snapshot of the workers\<close>

fun done_tag :: "TaskStatus \<Rightarrow> string" where
  "done_tag TsSuccess = ''done_success''"
| "done_tag TsFailed = ''done_failed''"
| "done_tag TsTimedOut = ''done_timed_out''"
| "done_tag TsCancelled = ''done_cancelled''"
| "done_tag TsSpawnFailed = ''done_spawn_failed''"
| "done_tag TsApprovalRejected = ''done_approval_rejected''"
| "done_tag TsApprovalTimedOut = ''done_approval_timed_out''"

fun worker_row :: "(int \<Rightarrow> string) \<Rightarrow> WorkerState \<Rightarrow> string \<times> string option \<times> string option" where
  "worker_row rfc3339 Pending = (''pending'', None, None)"
| "worker_row rfc3339 (Running started sid) = (''running'', Some (rfc3339 started), sid)"
| "worker_row rfc3339 (Paused sid since u) = (''paused'', Some (rfc3339 since), Some sid)"
| "worker_row rfc3339 (Frozen sid since started) = (''frozen'', Some (rfc3339 since), Some sid)"
| "worker_row rfc3339 (Done rec) =
     (done_tag (tr_status rec), Some (rfc3339 (tr_started_at rec)), tr_claude_session_id rec)"

definition collect_layer_workers ::
  "(int \<Rightarrow> string) \<Rightarrow> LayerState \<Rightarrow> string option \<Rightarrow> WorkerSnapshotEntry list" where
  "collect_layer_workers rfc3339 l lead_parent =
     map (\<lambda>(wid, w). let (st, started, sid) = worker_row rfc3339 w in
        \<lparr>wse_task_id = wid, wse_state = st,
         wse_prompt_preview = (case hm_get plain wid (prompts (workers l)) of Some p \<Rightarrow> p | None \<Rightarrow> []),
         wse_started_at = started,
         wse_parent_task_id = (if wid = lead_id l then lead_parent else Some (lead_id l)),
         wse_session_id = sid\<rparr>)
       (states (workers l))"

definition op_list_workers :: "(int \<Rightarrow> string) \<Rightarrow> DispatchState \<Rightarrow> ControlEvent" where
  "op_list_workers rfc3339 s =
     (let root_lead = Some (lead_id (root s));
          seen_layer_leads = map (\<lambda>(sid, l). lead_id l) (subleads s)
      in WorkersSnapshot
           (collect_layer_workers rfc3339 (root s) None @
            concat (map (\<lambda>(sid, l). collect_layer_workers rfc3339 l root_lead) (subleads s)) @
            concat (map (\<lambda>l. if lead_id l \<in> set seen_layer_leads then []
                             else collect_layer_workers rfc3339 l root_lead)
                      (terminated_sublead_layers s))))"

section \<open>Dispatch\<close>

text \<open>What the outside contributes to an operation: the clock, fresh ids, the operating system's
  answer to a signal, and what the rest of the run does during the pause of a reprompt.\<close>

record OpEnv =
  oe_now :: int
  oe_uuid :: string
  oe_sig_err :: "Signal \<Rightarrow> string option"
  oe_rfc3339 :: "int \<Rightarrow> string"
  oe_meanwhile :: "DispatchState \<Rightarrow> DispatchState"

record OpResult =
  or_reply :: ControlEvent
  or_launch :: "(LayerRef \<times> ResumeLaunch) option"
  or_signals :: "Signal list"
  or_state :: DispatchState

definition plain_result :: "ControlEvent \<times> DispatchState \<Rightarrow> OpResult" where
  "plain_result r = \<lparr>or_reply = fst r, or_launch = None, or_signals = [], or_state = snd r\<rparr>"

fun dispatch_op :: "OpEnv \<Rightarrow> ControlOp \<Rightarrow> DispatchState \<Rightarrow> OpResult" where
  "dispatch_op e (OpHello v m) s = plain_result (OpAcked ''hello'' None, s)"
| "dispatch_op e (OpCancelWorker tid) s =
     (let (ev, sigs, s') = op_cancel_worker tid s
      in \<lparr>or_reply = ev, or_launch = None, or_signals = sigs, or_state = s'\<rparr>)"
| "dispatch_op e OpCancelRun s =
     (let (ev, sigs, s') = op_cancel_run s
      in \<lparr>or_reply = ev, or_launch = None, or_signals = sigs, or_state = s'\<rparr>)"
| "dispatch_op e (OpPauseWorker tid mode) s =
     (let (ev, sigs, s') = op_pause_worker (oe_sig_err e) (oe_now e) tid mode s
      in \<lparr>or_reply = ev, or_launch = None, or_signals = sigs, or_state = s'\<rparr>)"
| "dispatch_op e (OpContinueWorker tid prompt) s =
     (let (ev, w, sigs, s') = op_continue_worker (oe_sig_err e) (oe_uuid e) (oe_now e) tid prompt s
      in \<lparr>or_reply = ev, or_launch = w, or_signals = sigs, or_state = s'\<rparr>)"
| "dispatch_op e (OpRepromptWorker tid prompt) s =
     (let (ev, w, s') = op_reprompt_worker (oe_uuid e) (oe_now e) tid prompt (oe_meanwhile e) s
      in \<lparr>or_reply = ev, or_launch = w, or_signals = [], or_state = s'\<rparr>)"
| "dispatch_op e OpListWorkers s = plain_result (op_list_workers (oe_rfc3339 e) s, s)"
| "dispatch_op e (OpApprove rid approved comment edited reason) s =
     plain_result (op_approve rid approved comment edited reason (oe_now e) s)"
| "dispatch_op e (OpUpdatePolicy rules) s = plain_result (op_update_policy rules s)"
| "dispatch_op e (OpSubscribe n) s = plain_result (OpAcked ''subscribe'' None, s)"

section \<open>A connection\<close>

datatype Line = Parsed ControlOp | Unparsable "string option" string

text \<open>\<open>extract_op_tag_from_raw\<close>: the \<^verbatim>\<open>op\<close> string of a line that is at least JSON, if it has one.\<close>

definition extract_op_tag_from_raw :: "string option \<Rightarrow> string" where
  "extract_op_tag_from_raw op = (case op of Some t \<Rightarrow> t | None \<Rightarrow> ''parse_error'')"

text \<open>The handshake: the event written to the socket, the mode when the connection goes on.\<close>

definition hello_event :: "string \<Rightarrow> string \<Rightarrow> DispatchState \<Rightarrow> ControlEvent" where
  "hello_event version run_kind s =
     Hello version (run_id (root s)) run_kind (map fst (states (workers (root s))))
       (case matcher (approvals (root s)) of Some m \<Rightarrow> matcher_rules m | None \<Rightarrow> [])"

definition serve_hello ::
  "string \<Rightarrow> string \<Rightarrow> (ControlOp \<Rightarrow> string) \<Rightarrow> string \<Rightarrow> Line \<Rightarrow> DispatchState \<Rightarrow>
     EventEnvelope \<times> ClientMode option \<times> DispatchState option" where
  "serve_hello version run_kind debug wid line s =
     (case line of
        Parsed (OpHello v mode) \<Rightarrow>
          (let (env, s) = wrap_and_persist (hello_event version run_kind s) s
           in (env, Some mode,
               (case mode of ModeWriter \<Rightarrow> connect_writer wid s | ModeSubscriber \<Rightarrow> Some s)))
      | Parsed op \<Rightarrow>
          (let (env, s) = wrap_and_persist (OpFailed (debug op) None ''expected hello as first message'') s
           in (env, None, Some s))
      | Unparsable t err \<Rightarrow>
          (let (env, s) = wrap_and_persist (OpFailed ''hello'' None (''parse error: '' @ err)) s
           in (env, None, Some s)))"

text \<open>One line of the read loop: the events written to this socket only, then the run.\<close>

definition serve_line ::
  "OpEnv \<Rightarrow> ClientMode \<Rightarrow> Line \<Rightarrow> DispatchState \<Rightarrow>
     EventEnvelope list \<times> Signal list \<times> (LayerRef \<times> ResumeLaunch) option \<times> DispatchState" where
  "serve_line e mode line s =
     (case line of
        Unparsable t err \<Rightarrow>
          (let (env, s) = wrap_and_persist
                 (OpFailed (extract_op_tag_from_raw t) None (''parse error: '' @ err)) s
           in ([env], [], None, s))
      | Parsed op \<Rightarrow>
          if mode = ModeSubscriber \<and> \<not> is_subscriber_safe_op op then
            (let (env, s) = wrap_and_persist
                   (OpFailed (op_tag op) None ''subscriber mode forbids writer ops'') s
             in ([env], [], None, s))
          else
            (let r = dispatch_op e op s
             in ([], or_signals r, or_launch r,
                 broadcast_control_event \<lparr>env_actor_path = [], env_seq = 0, env_event = or_reply r\<rparr>
                   (or_state r))))"

fun serve_lines :: "ClientMode \<Rightarrow> (OpEnv \<times> Line) list \<Rightarrow> DispatchState \<Rightarrow> Signal list \<times> DispatchState" where
  "serve_lines mode [] s = ([], s)"
| "serve_lines mode ((e, line) # input) s =
     (let (_, sigs, _, s') = serve_line e mode line s;
          (sigs', s'') = serve_lines mode input s'
      in (sigs @ sigs', s''))"

text \<open>The activity report: the counters of the root store joined with those of the communication
  plane, in the order of the actor ids.\<close>

definition activity_entry :: "string \<Rightarrow> ActorActivityEntry" where
  "activity_entry a =
     \<lparr>act_actor_id = a, act_kv_ops = 0, act_lease_ops = 0, act_message_ops = 0, act_artifact_ops = 0\<rparr>"

definition add_store_counters ::
  "string \<times> ActivityCounters \<Rightarrow> (string \<times> ActorActivityEntry) list \<Rightarrow> (string \<times> ActorActivityEntry) list" where
  "add_store_counters ac m =
     (case ac of (a, c) \<Rightarrow>
        hm_insert plain a ((activity_entry a)\<lparr>act_kv_ops := kv_ops c, act_lease_ops := lease_ops c\<rparr>) m)"

definition add_comm_counters ::
  "string \<times> CommunicationActivityCounters \<Rightarrow> (string \<times> ActorActivityEntry) list \<Rightarrow>
     (string \<times> ActorActivityEntry) list" where
  "add_comm_counters ac m =
     (case ac of (a, c) \<Rightarrow>
        hm_insert plain a
          ((case hm_get plain a m of Some x \<Rightarrow> x | None \<Rightarrow> activity_entry a)
             \<lparr>act_message_ops := message_ops c, act_artifact_ops := artifact_ops c\<rparr>) m)"

definition activity_report ::
  "(string \<times> ActivityCounters) list \<Rightarrow> (string \<times> CommunicationActivityCounters) list \<Rightarrow> ControlEvent" where
  "activity_report store comm =
     StoreActivity (map snd (sort_key fst (fold add_comm_counters comm (fold add_store_counters store []))))"

section \<open>Snapshots are complete\<close>

lemma collect_ids: "map wse_task_id (collect_layer_workers f l p) = map fst (states (workers l))"
  by (simp add: collect_layer_workers_def case_prod_beta Let_def comp_def)

lemma collect_parent:
  "w \<in> set (collect_layer_workers f l p) \<Longrightarrow>
     wse_parent_task_id w = (if wse_task_id w = lead_id l then p else Some (lead_id l))"
  by (auto simp: collect_layer_workers_def case_prod_beta Let_def)

text \<open>The layers of the run, each with the parent of its lead.\<close>

definition all_layers :: "DispatchState \<Rightarrow> (LayerState \<times> string option) list" where
  "all_layers s = (root s, None) # map (\<lambda>l. (l, Some (lead_id (root s))))
     (map snd (subleads s) @
      filter (\<lambda>l. lead_id l \<notin> lead_id ` snd ` set (subleads s)) (terminated_sublead_layers s))"

lemma concat_map_if:
  "concat (map (\<lambda>x. if P x then [] else g x) xs) = concat (map g (filter (\<lambda>x. \<not> P x) xs))"
  by (induction xs) auto

lemma list_workers_layers:
  "op_list_workers f s = WorkersSnapshot (concat (map (\<lambda>(l, p). collect_layer_workers f l p) (all_layers s)))"
proof -
  have leads: "set (map (\<lambda>(sid, l). lead_id l) (subleads s)) = lead_id ` snd ` set (subleads s)"
    by force
  show ?thesis
    unfolding op_list_workers_def Let_def leads
    by (simp add: all_layers_def concat_map_if comp_def case_prod_unfold)
qed

text \<open>
  The snapshot of the workers. \<open>list_workers\<close> answers one row per worker of every layer of the
  run: the root, each registered sub-lead, and each ended sub-lead that is not registered again. The
  row of the root lead has no parent, the row of a sub-lead names the root lead, and every other row
  names the lead of its layer; nothing in the run changes.
\<close>

theorem list_workers_complete:
  "\<exists>rows. or_reply (dispatch_op e OpListWorkers s) = WorkersSnapshot rows \<and>
    map wse_task_id rows = concat (map (\<lambda>(l, p). map fst (states (workers l))) (all_layers s)) \<and>
    list_all (\<lambda>w. list_ex (\<lambda>(l, p). wse_task_id w \<in> fst ` set (states (workers l)) \<and>
       wse_parent_task_id w = (if wse_task_id w = lead_id l then p else Some (lead_id l))) (all_layers s)) rows \<and>
    or_state (dispatch_op e OpListWorkers s) = s"
proof -
  let ?collect = "\<lambda>(l, p). collect_layer_workers (oe_rfc3339 e) l p"
  let ?rows = "concat (map ?collect (all_layers s))"
  have ids: "map wse_task_id ?rows = concat (map (\<lambda>(l, p). map fst (states (workers l))) (all_layers s))"
    by (simp add: map_concat comp_def collect_ids case_prod_unfold)
  have "list_ex (\<lambda>(l, p). wse_task_id w \<in> fst ` set (states (workers l)) \<and>
      wse_parent_task_id w = (if wse_task_id w = lead_id l then p else Some (lead_id l))) (all_layers s)"
    if "w \<in> set ?rows" for w
  proof -
    from that obtain l p where l: "(l, p) \<in> set (all_layers s)"
      "w \<in> set (collect_layer_workers (oe_rfc3339 e) l p)" by auto
    have "wse_task_id w \<in> set (map wse_task_id (collect_layer_workers (oe_rfc3339 e) l p))"
      using l(2) by (simp only: set_map image_eqI)
    then show ?thesis using l collect_parent [OF l(2)] by (force simp: collect_ids list_ex_iff)
  qed
  then show ?thesis
    using ids list_workers_layers [of "oe_rfc3339 e" s] by (auto simp: plain_result_def list_all_iff)
qed

section \<open>Subscribers\<close>

definition same_run :: "DispatchState \<Rightarrow> DispatchState \<Rightarrow> bool" where
  "same_run s s' \<longleftrightarrow> s' = s\<lparr>event_log := event_log s', events_bus := events_bus s'\<rparr>"

lemma same_run_refl [simp]: "same_run s s"
  by (simp add: same_run_def)

lemma same_run_trans: "same_run s s' \<Longrightarrow> same_run s' s'' \<Longrightarrow> same_run s s''"
  by (cases s; cases s'; cases s'') (auto simp: same_run_def)

lemma same_run_wrap: "same_run s (snd (wrap_and_persist ev s))"
  by (simp add: same_run_def wrap_and_persist_def case_prod_beta Let_def)

lemma same_run_broadcast: "same_run s (broadcast_control_event env s)"
  by (simp add: same_run_def broadcast_control_event_def case_prod_beta Let_def)

lemma subscriber_line:
  "serve_line e ModeSubscriber line s = (outs, sigs, w, s') \<Longrightarrow> same_run s s' \<and> sigs = [] \<and> w = None"
  using same_run_wrap same_run_broadcast
  by (cases line; cases "case line of Parsed op \<Rightarrow> op | _ \<Rightarrow> OpCancelRun")
     (auto simp: serve_line_def plain_result_def case_prod_beta Let_def)

lemma subscriber_lines: "same_run s (snd (serve_lines ModeSubscriber input s)) \<and>
    fst (serve_lines ModeSubscriber input s) = []"
proof (induction input arbitrary: s)
  case (Cons el input)
  obtain e line where el: "el = (e, line)" by fastforce
  obtain outs sigs w s' where l: "serve_line e ModeSubscriber line s = (outs, sigs, w, s')"
    by (metis prod_cases4)
  show ?case
    using subscriber_line [OF l] Cons [of s'] same_run_trans by (auto simp: el l case_prod_beta Let_def)
qed simp

text \<open>
  C34: subscribers only watch. A connection that says hello in subscriber mode and then sends any
  sequence of lines, well-formed or not, causes no signal to a process and leaves the run as it was
  but for the event log and the event bus: the writer slot, the approvals, the workers, the policy
  and every sub-tree are untouched.
\<close>

theorem subscriber_changes_nothing:
  "\<exists>env s1. serve_hello version run_kind debug wid (Parsed (OpHello v ModeSubscriber)) s =
       (env, Some ModeSubscriber, Some s1) \<and>
     same_run s (snd (serve_lines ModeSubscriber input s1)) \<and>
     fst (serve_lines ModeSubscriber input s1) = []"
  using subscriber_lines same_run_trans [OF same_run_wrap [of s]]
  by (auto simp: serve_hello_def case_prod_beta Let_def)

section \<open>Activity reports\<close>

lemma add_store_get:
  "hm_get plain b (add_store_counters (a, c) m) =
     (if b = a then Some ((activity_entry a)\<lparr>act_kv_ops := kv_ops c, act_lease_ops := lease_ops c\<rparr>)
      else hm_get plain b m)"
  by (simp add: add_store_counters_def hm_simps)

lemma add_comm_get:
  "hm_get plain b (add_comm_counters (a, c) m) =
     (if b = a then Some ((case hm_get plain a m of Some x \<Rightarrow> x | None \<Rightarrow> activity_entry a)
             \<lparr>act_message_ops := message_ops c, act_artifact_ops := artifact_ops c\<rparr>)
      else hm_get plain b m)"
  by (simp add: add_comm_counters_def hm_simps)

lemma hm_wf_Cons: "hm_wf plain ((k, v) # m) \<longleftrightarrow> hm_get plain k m = None \<and> hm_wf plain m"
  by (auto simp: hm_wf_def hm_get_None_iff)

lemma fold_store_get:
  assumes "hm_wf plain store"
  shows "hm_get plain b (fold add_store_counters store m) =
    (case hm_get plain b store of
       Some c \<Rightarrow> Some ((activity_entry b)\<lparr>act_kv_ops := kv_ops c, act_lease_ops := lease_ops c\<rparr>)
     | None \<Rightarrow> hm_get plain b m)"
  using assms
proof (induction store arbitrary: m)
  case (Cons e store)
  then show ?case by (cases e; cases "fst e = b") (auto simp: add_store_get hm_wf_Cons split: option.splits)
qed simp

lemma fold_comm_get:
  assumes "hm_wf plain comm"
  shows "hm_get plain b (fold add_comm_counters comm m) =
    (case hm_get plain b comm of
       Some c \<Rightarrow> Some ((case hm_get plain b m of Some x \<Rightarrow> x | None \<Rightarrow> activity_entry b)
         \<lparr>act_message_ops := message_ops c, act_artifact_ops := artifact_ops c\<rparr>)
     | None \<Rightarrow> hm_get plain b m)"
  using assms
proof (induction comm arbitrary: m)
  case (Cons e comm)
  then show ?case by (cases e; cases "fst e = b") (auto simp: add_comm_get hm_wf_Cons split: option.splits)
qed simp

lemma fold_wf:
  "hm_wf plain m \<Longrightarrow> hm_wf plain (fold add_store_counters store m)"
  "hm_wf plain m \<Longrightarrow> hm_wf plain (fold add_comm_counters comm m)"
  by (induction store arbitrary: m; simp add: add_store_counters_def case_prod_beta)
     (induction comm arbitrary: m; simp add: add_comm_counters_def case_prod_beta)

text \<open>The report lists each actor that has counters once, in the order of the ids, with its four counters.\<close>

lemma activity_report_rows:
  assumes "hm_wf plain store" and "hm_wf plain comm"
  shows "\<exists>rows. activity_report store comm = StoreActivity (map snd rows) \<and> sorted (map fst rows) \<and>
    distinct (map fst rows) \<and>
    (\<forall>a x. (a, x) \<in> set rows \<longleftrightarrow>
       (hm_get plain a store \<noteq> None \<or> hm_get plain a comm \<noteq> None) \<and>
       x = \<lparr>act_actor_id = a,
            act_kv_ops = (case hm_get plain a store of Some c \<Rightarrow> kv_ops c | None \<Rightarrow> 0),
            act_lease_ops = (case hm_get plain a store of Some c \<Rightarrow> lease_ops c | None \<Rightarrow> 0),
            act_message_ops = (case hm_get plain a comm of Some c \<Rightarrow> message_ops c | None \<Rightarrow> 0),
            act_artifact_ops = (case hm_get plain a comm of Some c \<Rightarrow> artifact_ops c | None \<Rightarrow> 0)\<rparr>)"
proof -
  let ?m = "fold add_comm_counters comm (fold add_store_counters store [])"
  have wf: "hm_wf plain ?m" by (simp add: fold_wf)
  then have d: "distinct (map fst ?m)" by (simp add: hm_wf_def comp_def)
  have mem: "(a, x) \<in> set ?m \<longleftrightarrow> hm_get plain a ?m = Some x" for a x
    using hm_in_get [OF wf, of a x] hm_plain_get_in [of a ?m x] by blast
  show ?thesis
  proof (intro exI [of _ "sort_key fst ?m"] conjI allI)
    show "distinct (map fst (sort_key fst ?m))" using d by (simp add: distinct_map)
    fix a x
    show "(a, x) \<in> set (sort_key fst ?m) \<longleftrightarrow>
       (hm_get plain a store \<noteq> None \<or> hm_get plain a comm \<noteq> None) \<and>
       x = \<lparr>act_actor_id = a,
            act_kv_ops = (case hm_get plain a store of Some c \<Rightarrow> kv_ops c | None \<Rightarrow> 0),
            act_lease_ops = (case hm_get plain a store of Some c \<Rightarrow> lease_ops c | None \<Rightarrow> 0),
            act_message_ops = (case hm_get plain a comm of Some c \<Rightarrow> message_ops c | None \<Rightarrow> 0),
            act_artifact_ops = (case hm_get plain a comm of Some c \<Rightarrow> artifact_ops c | None \<Rightarrow> 0)\<rparr>"
      by (cases "hm_get plain a store"; cases "hm_get plain a comm")
         (auto simp: mem fold_comm_get fold_store_get assms activity_entry_def)
  qed (simp_all add: activity_report_def)
qed

end
