(* ===== verification/Notify_Config.thy ===== *)
theory Notify_Config
  imports Manifest_Types
begin

unbundle bit_operations_syntax

text \<open>
  Notification targets (\<^verbatim>\<open>notify/config.rs\<close>): substitution of environment variables in a URL,
  validation of a sink, redaction for logs, and the guard against requests into private networks, at
  validation time and again before each request. The URL parser of \<^verbatim>\<open>reqwest\<close> and the resolver's
  answer are parameters; the text format of IP addresses is the one of the standard library. The client
  of a webhook (\<^verbatim>\<open>notify/sinks/webhook.rs\<close>) is what the code sets of it. The lemmas show which environment variables can reach a URL, which addresses can be contacted, and
  that a redacted URL says nothing about path, query or fragment.
\<close>

section \<open>Environment variables\<close>

datatype NotifyError =
    NeUnterminated
  | NePrefix string
  | NeUnset string
  | NeMissingUrl SinkKind
  | NeInvalidUrl
  | NeNotHttps string
  | NeNoHost
  | NeLoopbackHost
  | NePrivateAddress
  | NeUnknownEvent string
  | NeLookupFailed
  | NeNoAddresses

definition DEFAULT_REQUEST_TIMEOUT_SECS :: u64 where
  "DEFAULT_REQUEST_TIMEOUT_SECS = 30"

definition resolve_request_timeout :: "u64 option \<Rightarrow> u64" where
  "resolve_request_timeout secs = (case secs of Some n \<Rightarrow> n | None \<Rightarrow> DEFAULT_REQUEST_TIMEOUT_SECS)"

definition ENV_VAR_ALLOWED_PREFIX :: string where
  "ENV_VAR_ALLOWED_PREFIX = ''PITBOSS_NOTIFY_''"

text \<open>\<^verbatim>\<open>find\<close> of a pattern, with what is before and after its first occurrence.\<close>

fun split_first :: "string \<Rightarrow> string \<Rightarrow> (string \<times> string) option" where
  "split_first pat [] = (if pat = [] then Some ([], []) else None)"
| "split_first pat (c # cs) =
     (case strip_prefix pat (c # cs) of
        Some after \<Rightarrow> Some ([], after)
      | None \<Rightarrow> map_option (\<lambda>(before, after). (c # before, after)) (split_first pat cs))"

lemma split_first_Some: "split_first pat s = Some (b, a) \<Longrightarrow> s = b @ pat @ a"
proof (induction s arbitrary: b)
  case (Cons c cs)
  then show ?case by (auto simp: strip_prefix_Some split: option.splits)
qed (simp split: if_splits)

function substitute_env_vars_with :: "(string \<Rightarrow> string option) \<Rightarrow> string \<Rightarrow> NotifyError + string" where
  "substitute_env_vars_with lookup rest =
     (case split_first ''${'' rest of
        None \<Rightarrow> Inr rest
      | Some (before, after_open) \<Rightarrow>
          (case split_first ''}'' after_open of
             None \<Rightarrow> Inl NeUnterminated
           | Some (name, after) \<Rightarrow>
               if \<not> starts_with name ENV_VAR_ALLOWED_PREFIX then Inl (NePrefix name)
               else (case lookup name of
                       None \<Rightarrow> Inl (NeUnset name)
                     | Some v \<Rightarrow> map_sum id (\<lambda>r. before @ v @ r) (substitute_env_vars_with lookup after))))"
  by pat_completeness auto
termination
  by (relation "measure (\<lambda>(lookup, s). length s)") (auto dest!: split_first_Some)

declare substitute_env_vars_with.simps [simp del]

definition apply_env_substitution_with ::
  "(string \<Rightarrow> string option) \<Rightarrow> NotificationConfig \<Rightarrow> NotifyError + NotificationConfig" where
  "apply_env_substitution_with lookup cfg =
     (case nc_url cfg of
        None \<Rightarrow> Inr cfg
      | Some url \<Rightarrow> map_sum id (\<lambda>u. cfg\<lparr>nc_url := Some u\<rparr>) (substitute_env_vars_with lookup url))"

section \<open>IP addresses\<close>

type_synonym u8 = "8 word"
type_synonym u16 = "16 word"

datatype IpAddr = V4 u8 u8 u8 u8 | V6 "u16 list"

definition digit_val :: "nat \<Rightarrow> char \<Rightarrow> nat option" where
  "digit_val radix c =
     (let n = of_char c :: nat;
          v = (if 48 \<le> n \<and> n \<le> 57 then n - 48
               else if 97 \<le> n \<and> n \<le> 102 then n - 87
               else if 65 \<le> n \<and> n \<le> 70 then n - 55
               else 99)
      in if v < radix then Some v else None)"

text \<open>The standard library's number reader: digits up to a bound on their count and on the value.\<close>

fun read_digits :: "nat \<Rightarrow> nat \<Rightarrow> nat \<Rightarrow> nat \<Rightarrow> nat \<Rightarrow> string \<Rightarrow> (nat \<times> nat \<times> string) option" where
  "read_digits radix bound maxd acc n [] = Some (acc, n, [])"
| "read_digits radix bound maxd acc n (c # cs) =
     (case digit_val radix c of
        None \<Rightarrow> Some (acc, n, c # cs)
      | Some d \<Rightarrow>
          if bound \<le> acc * radix + d \<or> maxd < n + 1 then None
          else read_digits radix bound maxd (acc * radix + d) (n + 1) cs)"

definition read_number :: "nat \<Rightarrow> nat \<Rightarrow> nat \<Rightarrow> bool \<Rightarrow> string \<Rightarrow> (nat \<times> string) option" where
  "read_number radix bound maxd allow_zero_prefix s =
     (case read_digits radix bound maxd 0 0 s of
        None \<Rightarrow> None
      | Some (v, n, rest) \<Rightarrow>
          if n = 0 \<or> (\<not> allow_zero_prefix \<and> starts_with s ''0'' \<and> 1 < n) then None else Some (v, rest))"

fun read_given_char :: "char \<Rightarrow> string \<Rightarrow> string option" where
  "read_given_char c [] = None"
| "read_given_char c (x # xs) = (if x = c then Some xs else None)"

definition read_octet :: "string \<Rightarrow> (u8 \<times> string) option" where
  "read_octet s = map_option (\<lambda>(v, r). (of_nat v, r)) (read_number 10 256 3 False s)"

definition read_dot_octet :: "string \<Rightarrow> (u8 \<times> string) option" where
  "read_dot_octet s = Option.bind (read_given_char (CHR ''.'') s) read_octet"

definition read_ipv4_addr :: "string \<Rightarrow> ((u8 \<times> u8 \<times> u8 \<times> u8) \<times> string) option" where
  "read_ipv4_addr s =
     Option.bind (read_octet s) (\<lambda>(a, s).
     Option.bind (read_dot_octet s) (\<lambda>(b, s).
     Option.bind (read_dot_octet s) (\<lambda>(c, s).
     Option.bind (read_dot_octet s) (\<lambda>(d, s). Some ((a, b, c, d), s)))))"

definition be16 :: "u8 \<Rightarrow> u8 \<Rightarrow> u16" where
  "be16 hi lo = of_nat (unat hi * 256 + unat lo)"

text \<open>\<open>read_groups\<close>: up to \<open>limit\<close> groups, \<open>i\<close> of them read; whether the last two were an IPv4 address.\<close>

definition read_sep :: "nat \<Rightarrow> string \<Rightarrow> string option" where
  "read_sep i s = (if 0 < i then read_given_char (CHR '':'') s else Some s)"

fun read_groups :: "nat \<Rightarrow> nat \<Rightarrow> string \<Rightarrow> u16 list \<times> bool \<times> string" where
  "read_groups 0 i s = ([], False, s)"
| "read_groups (Suc left) i s =
     (case (if 0 < left then Option.bind (read_sep i s) read_ipv4_addr else None) of
        Some ((a, b, c, d), s') \<Rightarrow> ([be16 a b, be16 c d], True, s')
      | None \<Rightarrow>
          (case Option.bind (read_sep i s) (read_number 16 65536 4 True) of
             None \<Rightarrow> ([], False, s)
           | Some (g, s') \<Rightarrow>
               (case read_groups left (i + 1) s' of (gs, v4, s'') \<Rightarrow> (of_nat g # gs, v4, s''))))"

definition read_ipv6_addr :: "string \<Rightarrow> (u16 list \<times> string) option" where
  "read_ipv6_addr s =
     (case read_groups 8 0 s of (front, v4, s) \<Rightarrow>
        if length front = 8 then Some (front, s)
        else if v4 then None
        else Option.bind (read_given_char (CHR '':'') s) (\<lambda>s.
             Option.bind (read_given_char (CHR '':'') s) (\<lambda>s.
               (case read_groups (7 - length front) 0 s of (back, _, s) \<Rightarrow>
                  Some (front @ replicate (8 - length front - length back) 0 @ back, s)))))"

definition parse_ip :: "string \<Rightarrow> IpAddr option" where
  "parse_ip s =
     (case (case read_ipv4_addr s of
              Some ((a, b, c, d), r) \<Rightarrow> Some (V4 a b c d, r)
            | None \<Rightarrow> map_option (\<lambda>(gs, r). (V6 gs, r)) (read_ipv6_addr s)) of
        Some (ip, []) \<Rightarrow> Some ip
      | _ \<Rightarrow> None)"

definition is_disallowed_v4 :: "u8 \<Rightarrow> u8 \<Rightarrow> u8 \<Rightarrow> u8 \<Rightarrow> bool" where
  "is_disallowed_v4 a b c d \<longleftrightarrow>
     a = 127
     \<or> (a = 10 \<or> a = 172 \<and> 16 \<le> b \<and> b \<le> 31 \<or> a = 192 \<and> b = 168)
     \<or> (a = 169 \<and> b = 254)
     \<or> (a = 0 \<and> b = 0 \<and> c = 0 \<and> d = 0)
     \<or> (a = 255 \<and> b = 255 \<and> c = 255 \<and> d = 255)
     \<or> (224 \<le> a \<and> a \<le> 239)
     \<or> (a = 100 \<and> b AND 0xc0 = 0x40)"

fun to_ipv4_mapped :: "u16 list \<Rightarrow> (u8 \<times> u8 \<times> u8 \<times> u8) option" where
  "to_ipv4_mapped [s0, s1, s2, s3, s4, s5, s6, s7] =
     (if s0 = 0 \<and> s1 = 0 \<and> s2 = 0 \<and> s3 = 0 \<and> s4 = 0 \<and> s5 = 0xffff
      then Some (ucast (drop_bit 8 s6), ucast s6, ucast (drop_bit 8 s7), ucast s7) else None)"
| "to_ipv4_mapped _ = None"

fun is_disallowed_ip :: "IpAddr \<Rightarrow> bool" where
  "is_disallowed_ip (V4 a b c d) = is_disallowed_v4 a b c d"
| "is_disallowed_ip (V6 segs) =
     (case to_ipv4_mapped segs of
        Some (a, b, c, d) \<Rightarrow> is_disallowed_v4 a b c d
      | None \<Rightarrow>
          (let seg0 = hd segs in
           segs = [0, 0, 0, 0, 0, 0, 0, 1]
           \<or> segs = [0, 0, 0, 0, 0, 0, 0, 0]
           \<or> seg0 AND 0xfe00 = 0xfc00
           \<or> seg0 AND 0xffc0 = 0xfe80
           \<or> seg0 AND 0xff00 = 0xff00
           \<or> seg0 AND 0xffc0 = 0xfec0))"

section \<open>URLs\<close>

record Url =
  url_scheme :: string
  url_host_str :: "string option"
  url_port :: "u16 option"
  url_port_or_known_default :: "u16 option"
  url_path :: string
  url_query :: "string option"
  url_fragment :: "string option"

fun show_nat :: "nat \<Rightarrow> string" where
  "show_nat n = (if n < 10 then [char_of (48 + n)] else show_nat (n div 10) @ [char_of (48 + n mod 10)])"

declare show_nat.simps [simp del]

definition redact_webhook_url :: "(string \<Rightarrow> Url option) \<Rightarrow> string \<Rightarrow> string" where
  "redact_webhook_url parse raw =
     (case parse raw of
        None \<Rightarrow> ''<unparseable url>''
      | Some url \<Rightarrow>
          (let host = (case url_host_str url of Some h \<Rightarrow> h | None \<Rightarrow> ''?'');
               port = (case url_port url of Some p \<Rightarrow> '':'' @ show_nat (unat p) | None \<Rightarrow> []);
               path_present = (url_path url \<noteq> [] \<and> url_path url \<noteq> ''/'') \<or> url_query url \<noteq> None \<or>
                 url_fragment url \<noteq> None
           in if path_present then url_scheme url @ ''://'' @ host @ port @ ''/<redacted>''
              else url_scheme url @ ''://'' @ host @ port))"

definition to_ascii_lowercase :: "string \<Rightarrow> string" where
  "to_ascii_lowercase s =
     map (\<lambda>c. let n = of_char c :: nat in if 65 \<le> n \<and> n \<le> 90 then char_of (n + 32) else c) s"

definition ends_with :: "string \<Rightarrow> string \<Rightarrow> bool" where
  "ends_with s p \<longleftrightarrow> starts_with (rev s) (rev p)"

definition unbracket :: "string \<Rightarrow> string" where
  "unbracket host =
     (case strip_prefix ''['' host of
        Some r \<Rightarrow> if ends_with r '']'' then butlast r else host
      | None \<Rightarrow> host)"

definition validate_webhook_url :: "(string \<Rightarrow> Url option) \<Rightarrow> string \<Rightarrow> NotifyError + unit" where
  "validate_webhook_url parse raw =
     (case parse raw of
        None \<Rightarrow> Inl NeInvalidUrl
      | Some parsed \<Rightarrow>
          if url_scheme parsed \<noteq> ''https'' then Inl (NeNotHttps (url_scheme parsed))
          else
            (case url_host_str parsed of
               None \<Rightarrow> Inl NeNoHost
             | Some host \<Rightarrow>
                 (let host_lc = to_ascii_lowercase host in
                  if host_lc = ''localhost'' \<or> ends_with host_lc ''.localhost'' then Inl NeLoopbackHost
                  else
                    (case parse_ip (unbracket host) of
                       Some ip \<Rightarrow> if is_disallowed_ip ip then Inl NePrivateAddress else Inr ()
                     | None \<Rightarrow> Inr ()))))"

definition known_events :: "string list" where
  "known_events = [''approval_request'', ''approval_pending'', ''run_dispatched'', ''run_finished'',
     ''budget_exceeded'']"

definition validate_notification ::
  "(string \<Rightarrow> Url option) \<Rightarrow> NotificationConfig \<Rightarrow> NotifyError + unit" where
  "validate_notification parse cfg =
     (let url = (case nc_url cfg of Some u \<Rightarrow> u | None \<Rightarrow> []);
          sink = (if nc_kind cfg = SinkLog then Inr ()
                  else if url = [] then Inl (NeMissingUrl (nc_kind cfg))
                  else validate_webhook_url parse url)
      in case sink of
           Inl e \<Rightarrow> Inl e
         | Inr _ \<Rightarrow>
             (case nc_events cfg of
                None \<Rightarrow> Inr ()
              | Some events \<Rightarrow>
                  (case find (\<lambda>e. e \<notin> set known_events) events of
                     Some other \<Rightarrow> Inl (NeUnknownEvent other)
                   | None \<Rightarrow> Inr ())))"

section \<open>Before a request\<close>

datatype PreflightAddrs = LiteralIp | Resolved string "(IpAddr \<times> u16) list"

fun check_addrs :: "(IpAddr \<times> u16) list \<Rightarrow> (IpAddr \<times> u16) list \<Rightarrow> NotifyError + (IpAddr \<times> u16) list" where
  "check_addrs [] validated = Inr validated"
| "check_addrs (a # as) validated =
     (if is_disallowed_ip (fst a) then Inl NePrivateAddress else check_addrs as (validated @ [a]))"

text \<open>\<open>lookup_host\<close>: what the resolver answers for a host and port at this moment.\<close>

definition pre_request_ssrf_check ::
  "(string \<Rightarrow> Url option) \<Rightarrow> (string \<Rightarrow> u16 \<Rightarrow> (IpAddr \<times> u16) list option) \<Rightarrow> string \<Rightarrow>
     NotifyError + PreflightAddrs" where
  "pre_request_ssrf_check parse lookup_host url =
     (case parse url of
        None \<Rightarrow> Inl NeInvalidUrl
      | Some parsed \<Rightarrow>
          (case url_host_str parsed of
             None \<Rightarrow> Inl NeNoHost
           | Some host \<Rightarrow>
               (case parse_ip (unbracket host) of
                  Some ip \<Rightarrow> if is_disallowed_ip ip then Inl NePrivateAddress else Inr LiteralIp
                | None \<Rightarrow>
                    (let port = (case url_port_or_known_default parsed of Some p \<Rightarrow> p | None \<Rightarrow> 443)
                     in case lookup_host (unbracket host) port of
                          None \<Rightarrow> Inl NeLookupFailed
                        | Some answer \<Rightarrow>
                            (case check_addrs answer [] of
                               Inl e \<Rightarrow> Inl e
                             | Inr validated \<Rightarrow>
                                 if validated = [] then Inl NeNoAddresses
                                 else Inr (Resolved (unbracket host) validated))))))"

text \<open>
  The client of a request, as far as the code configures it: the timeout and the hosts whose name resolution is
  overridden by a list of addresses. Everything else keeps the defaults of \<^verbatim>\<open>reqwest\<close>, following redirects among
  them.
\<close>

record Client =
  cl_timeout :: u64
  cl_resolve_to_addrs :: "(string \<times> (IpAddr \<times> u16) list) list"

definition build_pinned_client :: "PreflightAddrs \<Rightarrow> u64 \<Rightarrow> Client" where
  "build_pinned_client preflight request_timeout =
     \<lparr>cl_timeout = request_timeout,
      cl_resolve_to_addrs = (case preflight of Resolved host addrs \<Rightarrow> [(host, addrs)] | LiteralIp \<Rightarrow> [])\<rparr>"

record WebhookSink =
  ws_id :: string
  ws_url :: string
  ws_http :: Client
  ws_request_timeout :: u64
  ws_bypass_ssrf :: bool

definition webhook_new :: "nat \<Rightarrow> string \<Rightarrow> Client \<Rightarrow> u64 \<Rightarrow> WebhookSink" where
  "webhook_new idx url http request_timeout =
     \<lparr>ws_id = (if idx = 0 then ''webhook'' else ''webhook:'' @ show_nat idx), ws_url = url, ws_http = http,
      ws_request_timeout = request_timeout, ws_bypass_ssrf = False\<rparr>"

definition webhook_new_trusted :: "string \<Rightarrow> string \<Rightarrow> Client \<Rightarrow> WebhookSink" where
  "webhook_new_trusted sink_id url http =
     \<lparr>ws_id = sink_id, ws_url = url, ws_http = http, ws_request_timeout = resolve_request_timeout None,
      ws_bypass_ssrf = True\<rparr>"

text \<open>The client that posts the envelope, or the error that keeps it from being posted.\<close>

definition webhook_client ::
  "(string \<Rightarrow> Url option) \<Rightarrow> (string \<Rightarrow> u16 \<Rightarrow> (IpAddr \<times> u16) list option) \<Rightarrow> WebhookSink \<Rightarrow> NotifyError + Client" where
  "webhook_client parse lookup_host sink =
     (if ws_bypass_ssrf sink then Inr ((ws_http sink)\<lparr>cl_timeout := ws_request_timeout sink\<rparr>)
      else (case pre_request_ssrf_check parse lookup_host (ws_url sink) of
              Inl e \<Rightarrow> Inl e
            | Inr preflight \<Rightarrow> Inr (build_pinned_client preflight (ws_request_timeout sink))))"

section \<open>Only the dedicated variables reach a URL\<close>

lemma substitute_cong:
  assumes "\<And>n. starts_with n ENV_VAR_ALLOWED_PREFIX \<Longrightarrow> l1 n = l2 n"
  shows "substitute_env_vars_with l1 s = substitute_env_vars_with l2 s"
  using assms
proof (induction l1 s rule: substitute_env_vars_with.induct)
  case (1 lookup rest)
  then show ?case
    by (subst (1 2) substitute_env_vars_with.simps) (auto split: option.splits)
qed

text \<open>
  What the environment can leak. Two environments that agree on the variables whose name starts
  with \<^verbatim>\<open>PITBOSS_NOTIFY_\<close> give every notification the same URL or the same error: no other
  variable of the host can influence where a notification goes.
\<close>

theorem env_noninterference:
  assumes "\<forall>n. starts_with n ''PITBOSS_NOTIFY_'' \<longrightarrow> l1 n = l2 n"
  shows "apply_env_substitution_with l1 cfg = apply_env_substitution_with l2 cfg"
  using substitute_cong [of l1 l2] assms
  by (simp add: apply_env_substitution_with_def ENV_VAR_ALLOWED_PREFIX_def split: option.splits)

definition wit_sink :: NotificationConfig where
  "wit_sink = \<lparr>nc_kind = SinkSlack, nc_url = Some ''https://h/${PITBOSS_NOTIFY_T}'', nc_events = None,
     nc_severity_min = SevInfo, nc_request_timeout_secs = None\<rparr>"

theorem env_noninterference_witness:
  "apply_env_substitution_with (\<lambda>n. if n = ''HOME'' then Some ''/root'' else Some ''x'') wit_sink =
   apply_env_substitution_with (\<lambda>n. Some ''x'') wit_sink \<and>
   apply_env_substitution_with (\<lambda>n. Some ''x'') wit_sink = Inr (wit_sink\<lparr>nc_url := Some ''https://h/x''\<rparr>)"
proof
  show "apply_env_substitution_with (\<lambda>n. if n = ''HOME'' then Some ''/root'' else Some ''x'') wit_sink =
    apply_env_substitution_with (\<lambda>n. Some ''x'') wit_sink"
    by (rule env_noninterference) (simp add: starts_with_iff)
  show "apply_env_substitution_with (\<lambda>n. Some ''x'') wit_sink = Inr (wit_sink\<lparr>nc_url := Some ''https://h/x''\<rparr>)"
    by (simp add: apply_env_substitution_with_def wit_sink_def substitute_env_vars_with.simps
        ENV_VAR_ALLOWED_PREFIX_def starts_with_def)
qed

section \<open>Address blocks\<close>

lemma high_bits_eq:
  fixes b v :: "'a::len word"
  assumes "v AND NOT (mask n) = v"
  shows "b AND NOT (mask n) = v \<longleftrightarrow> drop_bit n b = drop_bit n v"
proof -
  have push: "x AND NOT (mask n) = push_bit n (drop_bit n x)" for x :: "'a word"
    by (rule bit_word_eqI) (auto simp: bit_simps)
  have drop: "drop_bit n (x AND NOT (mask n)) = drop_bit n x" for x :: "'a word"
    by (rule bit_word_eqI) (auto simp: bit_simps dest: bit_imp_le_length)
  show ?thesis using push drop assms by metis
qed

lemma mask_block:
  fixes b v :: "'a::len word"
  assumes "m = NOT (mask n)" and "v AND m = v"
  shows "b AND m = v \<longleftrightarrow> unat b div 2 ^ n = unat v div 2 ^ n"
proof -
  have "b AND m = v \<longleftrightarrow> drop_bit n b = drop_bit n v"
    using high_bits_eq [of v n b] assms by simp
  then show ?thesis
    by (simp add: word_unat_eq_iff unat_drop_bit_eq flip: drop_bit_eq_div)
qed

lemma cgn_block: "b AND 0xc0 = 0x40 \<longleftrightarrow> unat (b :: u8) div 64 = 1"
  using mask_block [of "0xc0 :: u8" 6 "0x40"] by (simp add: mask_eq_exp_minus_1)

lemma v6_blocks:
  fixes w :: u16
  shows "w AND 0xfe00 = 0xfc00 \<longleftrightarrow> unat w div 512 = 126"
    and "w AND 0xffc0 = 0xfe80 \<longleftrightarrow> unat w div 64 = 1018"
    and "w AND 0xff00 = 0xff00 \<longleftrightarrow> unat w div 256 = 255"
    and "w AND 0xffc0 = 0xfec0 \<longleftrightarrow> unat w div 64 = 1019"
  using mask_block [of "0xfe00 :: u16" 9 "0xfc00"] mask_block [of "0xffc0 :: u16" 6 "0xfe80"]
    mask_block [of "0xff00 :: u16" 8 "0xff00"] mask_block [of "0xffc0 :: u16" 6 "0xfec0"]
  by (simp_all add: mask_eq_exp_minus_1)

text \<open>The blocks as networks: an address is its number, a block the first address and the prefix length.\<close>

definition v4_number :: "u8 \<Rightarrow> u8 \<Rightarrow> u8 \<Rightarrow> u8 \<Rightarrow> nat" where
  "v4_number a b c d = ((unat a * 256 + unat b) * 256 + unat c) * 256 + unat d"

definition in_network :: "nat \<Rightarrow> nat \<times> nat \<Rightarrow> bool" where
  "in_network x net = (case net of (base, len) \<Rightarrow> x div 2 ^ (32 - len) = base div 2 ^ (32 - len))"

definition private_networks :: "(nat \<times> nat) list" where
  "private_networks =
     [(v4_number 127 0 0 0, 8), (v4_number 10 0 0 0, 8), (v4_number 172 16 0 0, 12),
      (v4_number 192 168 0 0, 16), (v4_number 169 254 0 0, 16), (v4_number 0 0 0 0, 32),
      (v4_number 255 255 255 255, 32), (v4_number 224 0 0 0, 4), (v4_number 100 64 0 0, 10)]"

lemma u8_bound: "unat (a :: u8) < 256"
  using unsigned_less [of a] by simp

lemma v4_prefix:
  "v4_number a b c d div 2 ^ 24 = unat a"
  "v4_number a b c d div 2 ^ 16 = unat a * 256 + unat b"
  "v4_number a b c d div 2 ^ 28 = unat a div 16"
  "v4_number a b c d div 2 ^ 20 = (unat a * 256 + unat b) div 16"
  "v4_number a b c d div 2 ^ 22 = (unat a * 256 + unat b) div 64"
  "v4_number a b c d = 0 \<longleftrightarrow> unat a = 0 \<and> unat b = 0 \<and> unat c = 0 \<and> unat d = 0"
  using u8_bound [of a] u8_bound [of b] u8_bound [of c] u8_bound [of d]
  by (auto simp: v4_number_def)

lemma v4_broadcast:
  "v4_number a b c d = 4294967295 \<longleftrightarrow> unat a = 255 \<and> unat b = 255 \<and> unat c = 255 \<and> unat d = 255"
proof
  assume n: "v4_number a b c d = 4294967295"
  have a: "unat a = 255" using v4_prefix(1) [of a b c d] n by simp
  have b: "unat b = 255" using v4_prefix(2) [of a b c d] n a by simp
  have "unat c * 256 + unat d = 65535" using n a b by (simp add: v4_number_def)
  with u8_bound [of c] u8_bound [of d] have "unat c = 255" "unat d = 255" by arith+
  with a b show "unat a = 255 \<and> unat b = 255 \<and> unat c = 255 \<and> unat d = 255" by simp
qed (simp add: v4_number_def)

lemma split_base: "q < m \<Longrightarrow> x * m + q = y \<longleftrightarrow> x = y div m \<and> q = y mod (m :: nat)"
  by auto

lemma private_networks_cases:
  "list_ex (in_network x) private_networks \<longleftrightarrow>
     x div 2 ^ 24 = 127 \<or> x div 2 ^ 24 = 10 \<or> x div 2 ^ 20 = 2753 \<or> x div 2 ^ 16 = 49320 \<or>
     x div 2 ^ 16 = 43518 \<or> x = 0 \<or> x = 4294967295 \<or> x div 2 ^ 28 = 14 \<or> x div 2 ^ 22 = 401"
  by (simp add: private_networks_def in_network_def v4_number_def)

lemma v4_blocks:
  fixes a b :: u8
  shows "(unat a * 256 + unat b) div 16 = 2753 \<longleftrightarrow> unat a = 172 \<and> 16 \<le> unat b \<and> unat b \<le> 31"
    and "(unat a * 256 + unat b) div 64 = 401 \<longleftrightarrow> unat a = 100 \<and> unat b div 64 = 1"
    and "unat a * 256 + unat b = 49320 \<longleftrightarrow> unat a = 192 \<and> unat b = 168"
    and "unat a * 256 + unat b = 43518 \<longleftrightarrow> unat a = 169 \<and> unat b = 254"
    and "unat a div 16 = 14 \<longleftrightarrow> 224 \<le> unat a \<and> unat a \<le> 239"
proof -
  note bounds = u8_bound [of a] u8_bound [of b]
  have q: "(unat a * 256 + unat b) div 16 = unat a * 16 + unat b div 16"
    "(unat a * 256 + unat b) div 64 = unat a * 4 + unat b div 64" by simp_all
  have "unat b div 16 < 16" "unat b div 64 < 4" using bounds by simp_all
  then have split: "unat a * 16 + unat b div 16 = 2753 \<longleftrightarrow> unat a = 172 \<and> unat b div 16 = 1"
    "unat a * 4 + unat b div 64 = 401 \<longleftrightarrow> unat a = 100 \<and> unat b div 64 = 1"
    by (simp_all only: split_base) simp_all
  show "(unat a * 256 + unat b) div 16 = 2753 \<longleftrightarrow> unat a = 172 \<and> 16 \<le> unat b \<and> unat b \<le> 31"
    unfolding q split by auto
  show "(unat a * 256 + unat b) div 64 = 401 \<longleftrightarrow> unat a = 100 \<and> unat b div 64 = 1"
    unfolding q split ..
  show "unat a * 256 + unat b = 49320 \<longleftrightarrow> unat a = 192 \<and> unat b = 168"
    "unat a * 256 + unat b = 43518 \<longleftrightarrow> unat a = 169 \<and> unat b = 254"
    using bounds(2) by (simp_all only: split_base) simp_all
  show "unat a div 16 = 14 \<longleftrightarrow> 224 \<le> unat a \<and> unat a \<le> 239"
    using bounds by auto
qed

lemma disallowed_v4_networks:
  "is_disallowed_v4 a b c d \<longleftrightarrow> list_ex (in_network (v4_number a b c d)) private_networks"
  unfolding is_disallowed_v4_def cgn_block private_networks_cases v4_prefix v4_broadcast v4_blocks
  by (auto simp: word_unat_eq_iff word_le_nat_alt)

text \<open>The addresses a notification may be sent to.\<close>

fun public_ip :: "IpAddr \<Rightarrow> bool" where
  "public_ip (V4 a b c d) = (\<not> list_ex (in_network (v4_number a b c d)) private_networks)"
| "public_ip (V6 segs) =
     (case to_ipv4_mapped segs of
        Some (a, b, c, d) \<Rightarrow> \<not> list_ex (in_network (v4_number a b c d)) private_networks
      | None \<Rightarrow>
          segs \<noteq> [0, 0, 0, 0, 0, 0, 0, 0] \<and> segs \<noteq> [0, 0, 0, 0, 0, 0, 0, 1] \<and>
          \<not> (0xfc00 \<le> unat (hd segs) \<and> unat (hd segs) \<le> 0xfdff) \<and>
          \<not> (0xfe80 \<le> unat (hd segs)))"

lemma u16_bound: "unat (w :: u16) < 65536"
  using unsigned_less [of w] by simp

lemma public_ip_iff: "public_ip ip \<longleftrightarrow> \<not> is_disallowed_ip ip"
proof (cases ip)
  case (V6 segs)
  have "unat (hd segs) div 512 = 126 \<longleftrightarrow> 0xfc00 \<le> unat (hd segs) \<and> unat (hd segs) \<le> 0xfdff"
    "unat (hd segs) div 64 = 1018 \<or> unat (hd segs) div 256 = 255 \<or> unat (hd segs) div 64 = 1019 \<longleftrightarrow>
       0xfe80 \<le> unat (hd segs)"
    using u16_bound [of "hd segs"] by auto
  then show ?thesis
    unfolding V6 by (auto simp: disallowed_v4_networks v6_blocks Let_def split: option.splits)
qed (simp add: disallowed_v4_networks)

lemma check_addrs_Inr:
  "check_addrs as acc = Inr v \<Longrightarrow> v = acc @ as \<and> (\<forall>a\<in>set as. \<not> is_disallowed_ip (fst a))"
proof (induction as arbitrary: acc)
  case (Cons a as)
  then show ?case using Cons.IH [of "acc @ [a]"] by (auto split: if_splits)
qed simp

lemma preflight_addresses:
  assumes "pre_request_ssrf_check parse lookup_host url = Inr p" "parse url = Some u" "url_host_str u = Some host"
  shows "case p of
       LiteralIp \<Rightarrow> \<exists>ip. parse_ip (unbracket host) = Some ip \<and> public_ip ip
     | Resolved h addrs \<Rightarrow>
         h = unbracket host \<and> parse_ip h = None \<and> addrs \<noteq> [] \<and> (\<forall>a \<in> set addrs. public_ip (fst a)) \<and>
         lookup_host h (case url_port_or_known_default u of Some port \<Rightarrow> port | None \<Rightarrow> 443) = Some addrs"
  using assms
  by (fastforce simp: pre_request_ssrf_check_def Let_def public_ip_iff
      split: option.splits if_splits sum.splits dest!: check_addrs_Inr)

text \<open>
  C33: No webhook of the manifest is posted into a private network. \<open>dial c u\<close> are the addresses that a client \<open>c\<close>
  may connect to for a URL \<open>u\<close>, of which three documented facts of \<^verbatim>\<open>reqwest\<close> and its URL parser are used: a host that
  is the text of an address is dialled as it is, a host with an override of the resolver only at the overriding
  addresses, and brackets enclose nothing but addresses. Then the request of a sink that does not bypass the guard
  either is refused or goes, on its first hop and without a proxy, only to public addresses, whatever the resolver
  would answer a second time; the addresses of a name are exactly the resolver's answer to the check. Public means
  outside the loopback, private, link-local, carrier-grade, multicast, broadcast and unspecified IPv4 networks,
  also when such an address is mapped into IPv6, and outside the IPv6 loopback, unspecified, unique-local,
  link-local, site-local and multicast ranges. The client keeps the default redirects of \<^verbatim>\<open>reqwest\<close>, so nothing is
  said about where a response redirects to.
\<close>

theorem preflight_public:
  assumes literal: "\<And>c u host ip. url_host_str u = Some host \<Longrightarrow> parse_ip (unbracket host) = Some ip \<Longrightarrow> dial c u \<subseteq> {ip}"
    and override: "\<And>c u host addrs. url_host_str u = Some host \<Longrightarrow> parse_ip (unbracket host) = None \<Longrightarrow>
      map_of (cl_resolve_to_addrs c) host = Some addrs \<Longrightarrow> dial c u \<subseteq> fst ` set addrs"
    and brackets: "\<And>s u host. parse s = Some u \<Longrightarrow> url_host_str u = Some host \<Longrightarrow> parse_ip (unbracket host) = None \<Longrightarrow>
      unbracket host = host"
    and sink: "\<not> ws_bypass_ssrf sink" "webhook_client parse lookup_host sink = Inr c"
  shows "\<exists>u host. parse (ws_url sink) = Some u \<and> url_host_str u = Some host \<and> (\<forall>ip \<in> dial c u. public_ip ip) \<and>
    (parse_ip (unbracket host) = None \<longrightarrow>
       (\<exists>addrs. addrs \<noteq> [] \<and> cl_resolve_to_addrs c = [(host, addrs)] \<and> (\<forall>a \<in> set addrs. public_ip (fst a)) \<and>
          lookup_host host (case url_port_or_known_default u of Some port \<Rightarrow> port | None \<Rightarrow> 443) = Some addrs))"
proof -
  obtain p where p: "pre_request_ssrf_check parse lookup_host (ws_url sink) = Inr p"
    and c: "c = build_pinned_client p (ws_request_timeout sink)"
    using sink by (auto simp: webhook_client_def split: sum.splits)
  obtain u host where u: "parse (ws_url sink) = Some u" "url_host_str u = Some host"
    using p by (auto simp: pre_request_ssrf_check_def split: option.splits)
  note addresses = preflight_addresses [OF p u]
  show ?thesis
  proof (cases p)
    case LiteralIp
    then show ?thesis using addresses u literal [OF u(2), of _ c] by auto
  next
    case (Resolved h addrs)
    then have h: "h = host" "parse_ip (unbracket host) = None" using addresses brackets [OF u] by auto
    then have "map_of (cl_resolve_to_addrs c) host = Some addrs" using c Resolved by (simp add: build_pinned_client_def)
    from override [OF u(2) h(2) this] show ?thesis
      using addresses u c h Resolved by (auto simp: build_pinned_client_def)
  qed
qed

definition wit_url :: "string \<Rightarrow> Url option" where
  "wit_url s = Some \<lparr>url_scheme = ''https'', url_host_str = Some ''hooks.example'', url_port = None,
     url_port_or_known_default = Some 443, url_path = s, url_query = None, url_fragment = None\<rparr>"

lemma wit_host: "parse_ip (unbracket ''hooks.example'') = None"
proof -
  have n: "read_number r m k z ''hooks.example'' = None" if "r \<le> 16" for r m k z
    using that by (simp add: read_number_def digit_val_def)
  have v4: "read_ipv4_addr ''hooks.example'' = None" by (simp add: read_ipv4_addr_def read_octet_def n)
  have "read_groups 8 0 ''hooks.example'' = ([], False, ''hooks.example'')"
    using read_groups.simps(2) [of 7 0 "''hooks.example''"] by (simp add: read_sep_def v4 n)
  then show ?thesis by (simp add: unbracket_def parse_ip_def v4 read_ipv6_addr_def)
qed

text \<open>A client that dials what it is told: the address of a literal host, otherwise the overriding addresses.\<close>

definition wit_dial :: "Client \<Rightarrow> Url \<Rightarrow> IpAddr set" where
  "wit_dial c u =
     (case url_host_str u of
        None \<Rightarrow> {}
      | Some host \<Rightarrow>
          (case parse_ip (unbracket host) of
             Some ip \<Rightarrow> {ip}
           | None \<Rightarrow> (case map_of (cl_resolve_to_addrs c) host of Some addrs \<Rightarrow> fst ` set addrs | None \<Rightarrow> {V4 127 0 0 1})))"

definition wit_hook :: WebhookSink where
  "wit_hook = webhook_new 0 ''/t'' \<lparr>cl_timeout = 30, cl_resolve_to_addrs = []\<rparr> 30"

theorem preflight_public_witness:
  "\<exists>c. webhook_client wit_url (\<lambda>h p. Some [(V4 93 184 216 34, p)]) wit_hook = Inr c \<and>
       cl_resolve_to_addrs c = [(''hooks.example'', [(V4 93 184 216 34, 443)])] \<and>
       (\<forall>ip \<in> wit_dial c (the (wit_url ''/t'')). public_ip ip)"
proof -
  let ?c = "\<lparr>cl_timeout = 30, cl_resolve_to_addrs = [(''hooks.example'', [(V4 93 184 216 34, 443)])]\<rparr>"
  have u: "unbracket ''hooks.example'' = ''hooks.example''" by (simp add: unbracket_def)
  have "\<not> is_disallowed_ip (V4 93 184 216 34)" by (simp add: is_disallowed_v4_def)
  then have r: "webhook_client wit_url (\<lambda>h p. Some [(V4 93 184 216 34, p)]) wit_hook = Inr ?c"
    using wit_host
    by (simp add: webhook_client_def wit_hook_def webhook_new_def pre_request_ssrf_check_def build_pinned_client_def wit_url_def u)
  have "\<exists>u host. wit_url (ws_url wit_hook) = Some u \<and> url_host_str u = Some host \<and> (\<forall>ip \<in> wit_dial ?c u. public_ip ip) \<and>
    (parse_ip (unbracket host) = None \<longrightarrow>
       (\<exists>addrs. addrs \<noteq> [] \<and> cl_resolve_to_addrs ?c = [(host, addrs)] \<and> (\<forall>a \<in> set addrs. public_ip (fst a)) \<and>
          (\<lambda>h p. Some [(V4 93 184 216 34, p)]) host
            (case url_port_or_known_default u of Some port \<Rightarrow> port | None \<Rightarrow> 443) = Some addrs))"
    by (rule preflight_public [OF _ _ _ _ r]) (auto simp: wit_dial_def wit_url_def u wit_hook_def webhook_new_def)
  then have "\<forall>ip \<in> wit_dial ?c (the (wit_url ''/t'')). public_ip ip"
    by (auto simp: wit_hook_def webhook_new_def simp del: public_ip.simps)
  then show ?thesis using r by (intro exI [of _ ?c]) (simp del: public_ip.simps)
qed

section \<open>Redaction\<close>

text \<open>What a redacted URL shows is a function of scheme, host, port and whether there is a rest.\<close>

lemma redact_hides_rest:
  assumes "parse r1 = Some u1" and "parse r2 = Some u2" and "url_scheme u1 = url_scheme u2"
    and "url_host_str u1 = url_host_str u2" and "url_port u1 = url_port u2"
    and "url_query u1 \<noteq> None \<and> url_query u2 \<noteq> None"
  shows "redact_webhook_url parse r1 = redact_webhook_url parse r2"
  using assms by (simp add: redact_webhook_url_def)

section \<open>Round trip of dotted addresses\<close>

definition show_v4 :: "u8 \<Rightarrow> u8 \<Rightarrow> u8 \<Rightarrow> u8 \<Rightarrow> string" where
  "show_v4 a b c d = show_nat (unat a) @ ''.'' @ show_nat (unat b) @ ''.'' @ show_nat (unat c) @ ''.'' @
     show_nat (unat d)"

lemma digit_val_10: "n < 10 \<Longrightarrow> digit_val 10 (char_of (48 + n)) = Some n"
  by (simp add: digit_val_def)

lemma digit_0: "n < 10 \<Longrightarrow> CHR ''0'' = char_of (48 + n) \<longleftrightarrow> n = (0 :: nat)"
proof
  assume n: "n < 10" and c: "CHR ''0'' = char_of (48 + n)"
  have "(of_char (CHR ''0'') :: nat) = of_char (char_of (48 + n))" by (simp only: c)
  then show "n = 0" using n by simp
qed (auto simp: eq_commute [of "CHR ''0''"] char_of_eq_iff)

definition stops :: "string \<Rightarrow> bool" where
  "stops s \<longleftrightarrow> (case s of [] \<Rightarrow> True | c # _ \<Rightarrow> digit_val 10 c = None)"

lemma read_digits_stops: "stops s \<Longrightarrow> read_digits 10 m k acc n s = Some (acc, n, s)"
  by (cases s) (auto simp: stops_def)

lemma show_octet:
  "n < 10 \<Longrightarrow> show_nat n = [char_of (48 + n)]"
  "10 \<le> n \<Longrightarrow> n < 100 \<Longrightarrow> show_nat n = [char_of (48 + n div 10), char_of (48 + n mod 10)]"
  "100 \<le> n \<Longrightarrow> n < 1000 \<Longrightarrow> show_nat n =
     [char_of (48 + n div 100), char_of (48 + n div 10 mod 10), char_of (48 + n mod 10)]"
proof -
  assume "100 \<le> n" "n < 1000"
  then have "\<not> n div 10 < 10" "n div 100 < 10" by auto
  then show "show_nat n = [char_of (48 + n div 100), char_of (48 + n div 10 mod 10), char_of (48 + n mod 10)]"
    by (simp add: show_nat.simps [of n] show_nat.simps [of "n div 10"] show_nat.simps [of "n div 100"]
        div_mult2_eq [symmetric])
qed (simp_all add: show_nat.simps [of n] show_nat.simps [of "n div 10"])

lemmas read_octet_simps = read_number_def digit_val_10 read_digits_stops starts_with_def digit_0

lemma read_three:
  assumes "x < 10" "y < 10" "z < 10" "x \<noteq> 0" "(x * 10 + y) * 10 + z < 256" "stops s"
  shows "read_number 10 256 3 False (char_of (48 + x) # char_of (48 + y) # char_of (48 + z) # s) =
    Some ((x * 10 + y) * 10 + z, s)"
  using assms by (simp add: read_octet_simps)

lemma read_octet_show:
  assumes "stops s"
  shows "read_octet (show_nat (unat a) @ s) = Some (a, s)"
proof -
  let ?n = "unat a"
  have n: "?n < 256" by (rule u8_bound)
  consider "?n < 10" | "10 \<le> ?n" "?n < 100" | "100 \<le> ?n" by linarith
  then have "read_number 10 256 3 False (show_nat ?n @ s) = Some (?n, s)"
  proof cases
    case 1
    then show ?thesis by (simp add: show_octet read_octet_simps assms)
  next
    case 2
    then have "?n div 10 < 10" "?n mod 10 < 10" "?n div 10 \<noteq> 0" by auto
    with 2 show ?thesis by (simp add: show_octet read_octet_simps assms)
  next
    case 3
    have v: "(?n div 100 * 10 + ?n div 10 mod 10) * 10 + ?n mod 10 = ?n"
      using div_mult_mod_eq [of ?n 10] div_mult_mod_eq [of "?n div 10" 10] by (simp add: div_mult2_eq [symmetric])
    have "?n div 100 < 10" "?n div 10 mod 10 < 10" "?n mod 10 < 10" "?n div 100 \<noteq> 0" using 3 n by auto
    from read_three [OF this] n v assms show ?thesis using 3 by (simp add: show_octet)
  qed
  then show ?thesis by (simp add: read_octet_def)
qed

lemma stops_dot: "stops (CHR ''.'' # s)"
  by (simp add: stops_def digit_val_def)

text \<open>
  Dotted addresses are read as written. The parser returns the address whose four decimal
  octets the text spells, for every IPv4 address, so the guard judges the address that is dialled.
\<close>

theorem parse_show_v4: "parse_ip (show_v4 a b c d) = Some (V4 a b c d)"
proof -
  have "read_octet (show_nat (unat d)) = Some (d, [])"
    using read_octet_show [of "[]" d] by (simp add: stops_def)
  then show ?thesis
    by (simp add: parse_ip_def show_v4_def read_ipv4_addr_def read_dot_octet_def
        read_octet_show [OF stops_dot])
qed

end
