(* ===== verification/Validate.thy ===== *)
theory Validate
  imports Notify_Config Mcp_Tools
begin

text \<open>
  Validation of a resolved manifest (\<^verbatim>\<open>manifest/validate.rs\<close>, with \<^verbatim>\<open>validate_extra_args\<close> and
  \<^verbatim>\<open>is_valid_apt_pkg\<close> of \<^verbatim>\<open>dispatch/container.rs\<close>): every check, in the order of the source, each
  returning its first error. What the checks ask of the outside (directories, git work-trees,
  canonical paths, the URL parser) is a record of functions. Errors are constructors with the values
  that the source puts into its message.
\<close>

section \<open>Sequences of checks\<close>

definition check_if :: "bool \<Rightarrow> 'e \<Rightarrow> 'e + unit" where
  "check_if bad e = (if bad then Inl e else Inr ())"

fun all_checks :: "('e + unit) list \<Rightarrow> 'e + unit" where
  "all_checks [] = Inr ()"
| "all_checks (c # cs) = (case c of Inl e \<Rightarrow> Inl e | Inr _ \<Rightarrow> all_checks cs)"

declare all_checks.simps [simp del]

definition check_each :: "('a \<Rightarrow> 'e + unit) \<Rightarrow> 'a list \<Rightarrow> 'e + unit" where
  "check_each f xs = all_checks (map f xs)"

text \<open>A loop that inserts into a set and fails on the first repetition.\<close>

fun check_fresh :: "('k \<Rightarrow> 'e) \<Rightarrow> 'k list \<Rightarrow> 'k list \<Rightarrow> 'e + unit" where
  "check_fresh err seen [] = Inr ()"
| "check_fresh err seen (k # ks) = (if k \<in> set seen then Inl (err k) else check_fresh err (k # seen) ks)"

section \<open>Characters\<close>

definition ascii_alphanumeric :: "char \<Rightarrow> bool" where
  "ascii_alphanumeric c =
     (let n = of_char c :: nat in
      (48 \<le> n \<and> n \<le> 57) \<or> (65 \<le> n \<and> n \<le> 90) \<or> (97 \<le> n \<and> n \<le> 122))"

definition id_char :: "char \<Rightarrow> bool" where
  "id_char c \<longleftrightarrow> ascii_alphanumeric c \<or> c = CHR ''_'' \<or> c = CHR ''-''"

definition is_valid_type_id :: "string \<Rightarrow> bool" where
  "is_valid_type_id s \<longleftrightarrow> s \<noteq> [] \<and> list_all id_char s"

definition is_valid_profile_id :: "string \<Rightarrow> bool" where
  "is_valid_profile_id s \<longleftrightarrow> s \<noteq> [] \<and> list_all (\<lambda>c. id_char c \<or> c = CHR ''/'') s"

text \<open>
  White space of Unicode in UTF-8: what is left after one leading white space character.
\<close>

definition ws_sequences :: "string list" where
  "ws_sequences =
     [[CHR 0x09], [CHR 0x0A], [CHR 0x0B], [CHR 0x0C], [CHR 0x0D], [CHR 0x20], [CHR 0xC2, CHR 0x85],
      [CHR 0xC2, CHR 0xA0], [CHR 0xE1, CHR 0x9A, CHR 0x80], [CHR 0xE2, CHR 0x80, CHR 0x80],
      [CHR 0xE2, CHR 0x80, CHR 0x81], [CHR 0xE2, CHR 0x80, CHR 0x82], [CHR 0xE2, CHR 0x80, CHR 0x83],
      [CHR 0xE2, CHR 0x80, CHR 0x84], [CHR 0xE2, CHR 0x80, CHR 0x85], [CHR 0xE2, CHR 0x80, CHR 0x86],
      [CHR 0xE2, CHR 0x80, CHR 0x87], [CHR 0xE2, CHR 0x80, CHR 0x88], [CHR 0xE2, CHR 0x80, CHR 0x89],
      [CHR 0xE2, CHR 0x80, CHR 0x8A], [CHR 0xE2, CHR 0x80, CHR 0xA8], [CHR 0xE2, CHR 0x80, CHR 0xA9],
      [CHR 0xE2, CHR 0x80, CHR 0xAF], [CHR 0xE2, CHR 0x81, CHR 0x9F], [CHR 0xE3, CHR 0x80, CHR 0x80]]"

definition strip_ws :: "string \<Rightarrow> string option" where
  "strip_ws s = (case find (\<lambda>w. starts_with s w) ws_sequences of
     Some w \<Rightarrow> strip_prefix w s | None \<Rightarrow> None)"

lemma strip_ws_shorter: "strip_ws s = Some r \<Longrightarrow> length r < length s"
proof -
  assume "strip_ws s = Some r"
  then obtain w where w: "w \<in> set ws_sequences" "s = w @ r"
    by (auto simp: strip_ws_def strip_prefix_Some find_Some_iff split: option.splits dest: nth_mem)
  then have "w \<noteq> []" by (auto simp: ws_sequences_def)
  with w show ?thesis by simp
qed

function trim_start :: "string \<Rightarrow> string" where
  "trim_start s = (case strip_ws s of Some r \<Rightarrow> trim_start r | None \<Rightarrow> s)"
  by pat_completeness auto
termination
  by (relation "measure length") (auto dest: strip_ws_shorter)

declare trim_start.simps [simp del]

definition trims_to_nothing :: "string \<Rightarrow> bool" where
  "trims_to_nothing s \<longleftrightarrow> trim_start s = []"

fun has_whitespace :: "string \<Rightarrow> bool" where
  "has_whitespace [] = False"
| "has_whitespace (c # cs) = (strip_ws (c # cs) \<noteq> None \<or> has_whitespace cs)"

section \<open>Errors and the outside\<close>

datatype ManifestError =
    MeNotify NotifyError
  | MeBothModes | MeEmptyManifest
  | MeSurviveParentNeedsTarget
  | MeSampleSecs u64
  | MeAptPackage string
  | MeExtraArg string
  | MeCapability string
  | MeCopyContainer string | MeCopyHost string
  | MeMountContainer string | MeMountHost string | MeMountForbidden string
  | MeZeroMessageBytes | MeZeroArtifactBytes | MeZeroArtifacts
  | MeWorkerTypeId string | MeWorkerTypeDuplicate string
  | MeSubleadTypeId string | MeSubleadTypeDuplicate string
  | MeRequireTypeWithoutTypes
  | MeBlockUntypedWithoutTypes
  | MeScopeForm string | MeScopeEmpty string | MeScopeUnknown string
  | MeServerToolsEmpty string | MeServerToolBlank string | MeServerToolDuplicate string
  | MeToolNotAdmitted string
  | MeProfileId string | MeProfileReserved string | MeProfileUnknown string
  | MeSettingSourcesEmpty | MeSettingSourcesSpace | MeSettingSourcesToken string
  | MeSettingSourcesDuplicate string
  | MeLeadPrompt | MeLeadIdEmpty | MeLeadIdChars | MeLeadDirectory | MeLeadWorktree | MeLeadTimeout
  | MeSubleadDefaults
  | MeMaxWorkers | MeBudget | MeLeadTimeoutSecs | MeMaxSubleads | MeMaxTotalWorkers | MeMaxSubleadBudget
  | MeTaskDuplicate string | MeTaskIdEmpty | MeTaskIdChars string
  | MeTaskDirectory string | MeTaskWorktree string | MeBranchConflict string
  | MeMaxParallel | MeTaskTimeout string

record Outside =
  is_dir :: "string \<Rightarrow> bool"
  is_in_git_repo :: "string \<Rightarrow> bool"
  canonicalize :: "string \<Rightarrow> string option"
  parse_url :: "string \<Rightarrow> Url option"

section \<open>Actor types and profiles\<close>

text \<open>The loop over a kind of type: each id is tested for its characters, then inserted.\<close>

fun check_type_ids :: "(string \<Rightarrow> 'e) \<Rightarrow> (string \<Rightarrow> 'e) \<Rightarrow> string list \<Rightarrow> string list \<Rightarrow> 'e + unit" where
  "check_type_ids bad dup seen [] = Inr ()"
| "check_type_ids bad dup seen (i # is) =
     (if \<not> is_valid_type_id i then Inl (bad i)
      else if i \<in> set seen then Inl (dup i)
      else check_type_ids bad dup (i # seen) is)"

definition validate_actor_types :: "ResolvedManifest \<Rightarrow> ManifestError + unit" where
  "validate_actor_types r =
     all_checks
       [check_type_ids MeWorkerTypeId MeWorkerTypeDuplicate [] (map wt_id (worker_types r)),
        check_type_ids MeSubleadTypeId MeSubleadTypeDuplicate [] (map st_id (sublead_types r)),
        check_if (require_actor_type r \<and> lead r \<noteq> None \<and> worker_types r = [] \<and> sublead_types r = [])
          MeRequireTypeWithoutTypes]"

definition builtin_ids :: "string list" where
  "builtin_ids = [''pitboss/lead-opus'', ''pitboss/sublead-sonnet'', ''pitboss/worker-haiku'']"

definition check_profile_id :: "string \<Rightarrow> ManifestError + unit" where
  "check_profile_id i =
     (if \<not> is_valid_profile_id i then Inl (MeProfileId i)
      else if starts_with i ''pitboss/'' \<and> i \<notin> set builtin_ids then Inl (MeProfileReserved i)
      else Inr ())"

definition check_profile_ref :: "ResolvedManifest \<Rightarrow> string option \<Rightarrow> ManifestError + unit" where
  "check_profile_ref r maybe_ref =
     (case maybe_ref of
        None \<Rightarrow> Inr ()
      | Some i \<Rightarrow> check_if (i \<notin> fst ` set (agent_profiles r)) (MeProfileUnknown i))"

definition validate_agent_profiles :: "ResolvedManifest \<Rightarrow> ManifestError + unit" where
  "validate_agent_profiles r =
     all_checks
       [check_each check_profile_id (map fst (agent_profiles r)),
        check_each (\<lambda>wt. check_profile_ref r (wt_agent_profile wt)) (worker_types r),
        check_each (\<lambda>st. check_profile_ref r (st_agent_profile st)) (sublead_types r)]"

definition validate_block_untyped_requires_profiles :: "ResolvedManifest \<Rightarrow> ManifestError + unit" where
  "validate_block_untyped_requires_profiles r =
     check_if (untyped_actor_policy r = UntypedBlock \<and> worker_types r = [] \<and> sublead_types r = [])
       MeBlockUntypedWithoutTypes"

section \<open>MCP servers\<close>

definition known_types :: "ResolvedManifest \<Rightarrow> string set" where
  "known_types r = wt_id ` set (worker_types r) \<union> st_id ` set (sublead_types r)"

definition check_scope :: "ResolvedManifest \<Rightarrow> McpServerSpec \<Rightarrow> ManifestError + unit" where
  "check_scope r s =
     (case mcp_scope s of
        None \<Rightarrow> Inr ()
      | Some raw \<Rightarrow>
          (case strip_prefix ''type:'' raw of
             None \<Rightarrow> Inl (MeScopeForm raw)
           | Some target \<Rightarrow>
               if target = [] then Inl (MeScopeEmpty raw)
               else check_if (target \<notin> known_types r) (MeScopeUnknown target)))"

definition validate_mcp_server_scopes :: "ResolvedManifest \<Rightarrow> ManifestError + unit" where
  "validate_mcp_server_scopes r = check_each (check_scope r) (mcp_servers r)"

fun check_tool_names :: "string \<Rightarrow> string list \<Rightarrow> string list \<Rightarrow> ManifestError + unit" where
  "check_tool_names sid seen [] = Inr ()"
| "check_tool_names sid seen (t # ts) =
     (if trims_to_nothing t then Inl (MeServerToolBlank sid)
      else if t \<in> set seen then Inl (MeServerToolDuplicate t)
      else check_tool_names sid (t # seen) ts)"

definition check_server_tools :: "McpServerSpec \<Rightarrow> ManifestError + unit" where
  "check_server_tools s =
     (case mcp_tools s of
        None \<Rightarrow> Inr ()
      | Some tools \<Rightarrow>
          if tools = [] then Inl (MeServerToolsEmpty (mcp_id s)) else check_tool_names (mcp_id s) [] tools)"

definition validate_mcp_server_tools :: "ResolvedManifest \<Rightarrow> ManifestError + unit" where
  "validate_mcp_server_tools r = check_each check_server_tools (mcp_servers r)"

text \<open>The tool lists of the actors, in the order they are walked.\<close>

definition tool_surfaces :: "ResolvedManifest \<Rightarrow> string list list" where
  "tool_surfaces r =
     (case lead r of Some l \<Rightarrow> [rl_tools l] | None \<Rightarrow> []) @ map task_tools (tasks r) @
     map wt_tools (worker_types r) @ map st_tools (sublead_types r)"

definition check_admitted :: "ResolvedManifest \<Rightarrow> string \<Rightarrow> ManifestError + unit" where
  "check_admitted r entry =
     (case parse_mcp_tool_name entry (mcp_servers r) of
        None \<Rightarrow> Inr ()
      | Some parsed \<Rightarrow> check_if (\<not> is_admitted parsed) (MeToolNotAdmitted entry))"

definition validate_mcp_tool_consistency :: "ResolvedManifest \<Rightarrow> ManifestError + unit" where
  "validate_mcp_tool_consistency r = check_each (check_admitted r) (concat (tool_surfaces r))"

section \<open>Communication, run settings, lifecycle\<close>

definition validate_communication :: "ResolvedManifest \<Rightarrow> ManifestError + unit" where
  "validate_communication r =
     all_checks
       [check_if (max_message_bytes (communication r) = 0) MeZeroMessageBytes,
        check_if (max_artifact_bytes (communication r) = 0) MeZeroArtifactBytes,
        check_if (max_artifacts_per_actor (communication r) = 0) MeZeroArtifacts]"

fun check_tokens :: "string list \<Rightarrow> string list \<Rightarrow> ManifestError + unit" where
  "check_tokens seen [] = Inr ()"
| "check_tokens seen (t # ts) =
     (if t = [] then Inl (MeSettingSourcesToken t)
      else if t \<noteq> ''user'' \<and> t \<noteq> ''project'' \<and> t \<noteq> ''local'' then Inl (MeSettingSourcesToken t)
      else if t \<in> set seen then Inl (MeSettingSourcesDuplicate t)
      else check_tokens (t # seen) ts)"

definition validate_claude_setting_sources :: "ResolvedManifest \<Rightarrow> ManifestError + unit" where
  "validate_claude_setting_sources r =
     (case claude_setting_sources r of
        None \<Rightarrow> Inr ()
      | Some v \<Rightarrow>
          if v = [] then Inl MeSettingSourcesEmpty
          else if has_whitespace v then Inl MeSettingSourcesSpace
          else check_tokens [] (split_on (CHR '','') v))"

definition RESOURCE_SAMPLE_SECS_MAX :: u64 where
  "RESOURCE_SAMPLE_SECS_MAX = 3600"

definition validate_run_settings :: "ResolvedManifest \<Rightarrow> ManifestError + unit" where
  "validate_run_settings r =
     check_if (resource_sample_secs r > RESOURCE_SAMPLE_SECS_MAX) (MeSampleSecs (resource_sample_secs r))"

definition notify_check :: "Outside \<Rightarrow> NotificationConfig \<Rightarrow> ManifestError + unit" where
  "notify_check env cfg =
     (case validate_notification (parse_url env) cfg of Inl e \<Rightarrow> Inl (MeNotify e) | Inr _ \<Rightarrow> Inr ())"

definition validate_lifecycle :: "Outside \<Rightarrow> ResolvedManifest \<Rightarrow> ManifestError + unit" where
  "validate_lifecycle env r =
     (case lifecycle r of
        None \<Rightarrow> Inr ()
      | Some lc \<Rightarrow>
          all_checks
            [(case lifecycle_notify lc of Some n \<Rightarrow> notify_check env n | None \<Rightarrow> Inr ()),
             check_if (survive_parent lc \<and> lifecycle_notify lc = None \<and> notifications r = [])
               MeSurviveParentNeedsTarget])"

definition validate_mode :: "ResolvedManifest \<Rightarrow> ManifestError + unit" where
  "validate_mode r =
     all_checks
       [check_if (tasks r \<noteq> [] \<and> lead r \<noteq> None) MeBothModes,
        check_if (tasks r = [] \<and> lead r = None) MeEmptyManifest]"

section \<open>Containers\<close>

definition is_valid_apt_pkg :: "string \<Rightarrow> bool" where
  "is_valid_apt_pkg s =
     (case s of
        [] \<Rightarrow> False
      | c # cs \<Rightarrow> ascii_alphanumeric c \<and>
          list_all (\<lambda>c. ascii_alphanumeric c \<or> c = CHR ''.'' \<or> c = CHR ''+'' \<or> c = CHR ''-'') cs)"

definition EXACT :: "string list" where
  "EXACT =
     [''--privileged'', ''-v'', ''--volume'', ''--mount'', ''-u'', ''--user'', ''--entrypoint'', ''--pid=host'',
      ''--ipc=host'', ''--uts=host'', ''--userns=host'', ''--cgroupns=host'',
      ''--security-opt=seccomp=unconfined'', ''--security-opt=apparmor=unconfined'',
      ''--security-opt=label=disable'', ''--security-opt=label:disable'']"

definition PREFIX :: "string list" where
  "PREFIX =
     [''--pid=container:'', ''--device='', ''--device-cgroup-rule='', ''--entrypoint='', ''--volume='', ''--user='']"

definition FORBIDDEN_CAPS :: "string list" where
  "FORBIDDEN_CAPS = [''ALL'', ''SYS_ADMIN'', ''SYS_PTRACE'', ''SYS_MODULE'']"

text \<open>\<^verbatim>\<open>trim\<close>, from both ends: the suffix of white space is found from the right.\<close>

fun trim_end :: "string \<Rightarrow> string" where
  "trim_end [] = []"
| "trim_end (c # cs) = (if trims_to_nothing (c # cs) then [] else c # trim_end cs)"

definition trim :: "string \<Rightarrow> string" where
  "trim s = trim_end (trim_start s)"

definition eq_ignore_ascii_case :: "string \<Rightarrow> string \<Rightarrow> bool" where
  "eq_ignore_ascii_case s t \<longleftrightarrow> to_ascii_lowercase s = to_ascii_lowercase t"

definition check_extra_arg :: "string \<Rightarrow> ManifestError + unit" where
  "check_extra_arg arg =
     all_checks
       [check_if (arg \<in> set EXACT) (MeExtraArg arg),
        check_if (list_ex (starts_with arg) PREFIX) (MeExtraArg arg),
        (case strip_prefix ''--cap-add='' arg of
           None \<Rightarrow> Inr ()
         | Some rest \<Rightarrow>
             check_each (\<lambda>cap. check_if (list_ex (\<lambda>c. eq_ignore_ascii_case c (trim cap)) FORBIDDEN_CAPS)
                 (MeCapability (trim cap)))
               (split_on (CHR '','') rest))]"

definition validate_extra_args :: "string list \<Rightarrow> ManifestError + unit" where
  "validate_extra_args extra_args = check_each check_extra_arg extra_args"

definition is_absolute :: "string \<Rightarrow> bool" where
  "is_absolute p = starts_with p ''/''"

definition trim_end_slashes :: "string \<Rightarrow> string" where
  "trim_end_slashes p = rev (dropWhile (\<lambda>c. c = CHR ''/'') (rev p))"

definition mount_denylist :: "string list" where
  "mount_denylist =
     [''/var/run/docker.sock'', ''/run/docker.sock'', ''/var/run/podman/podman.sock'', ''/run/podman/podman.sock'',
      ''/proc'', ''/sys'', ''/'', ''/etc/shadow'']"

definition check_mount_host_path :: "string \<Rightarrow> ManifestError + unit" where
  "check_mount_host_path host =
     (let trimmed = trim_end_slashes host in
      check_if (list_ex (\<lambda>bad. trimmed = bad \<or> trimmed = trim_end_slashes bad) mount_denylist)
        (MeMountForbidden host))"

definition host_path_ok :: "string \<Rightarrow> bool" where
  "host_path_ok host \<longleftrightarrow> is_absolute host \<or> starts_with host ''~''"

definition validate_container :: "ResolvedManifest \<Rightarrow> ManifestError + unit" where
  "validate_container r =
     (case container r of
        None \<Rightarrow> Inr ()
      | Some c \<Rightarrow>
          all_checks
            [check_each (\<lambda>pkg. check_if (\<not> is_valid_apt_pkg pkg) (MeAptPackage pkg)) (cc_extra_apt c),
             validate_extra_args (cc_extra_args c),
             check_each (\<lambda>spec. all_checks
                 [check_if (\<not> is_absolute (copy_container spec)) (MeCopyContainer (copy_container spec)),
                  check_if (\<not> host_path_ok (copy_host spec)) (MeCopyHost (copy_host spec))]) (cc_copy c),
             check_each (\<lambda>spec. all_checks
                 [check_if (\<not> is_absolute (mount_container spec)) (MeMountContainer (mount_container spec)),
                  check_if (\<not> host_path_ok (mount_host spec)) (MeMountHost (mount_host spec)),
                  check_mount_host_path (mount_host spec)]) (cc_mounts c)])"

section \<open>Lead, tasks, ranges\<close>

definition validate_lead :: "Outside \<Rightarrow> bool \<Rightarrow> ResolvedLead \<Rightarrow> ManifestError + unit" where
  "validate_lead env skip_dir_check l =
     all_checks
       [check_if (trims_to_nothing (rl_prompt l)) MeLeadPrompt,
        check_if (rl_id l = []) MeLeadIdEmpty,
        check_if (\<not> list_all id_char (rl_id l)) MeLeadIdChars,
        check_if (\<not> skip_dir_check \<and> \<not> is_dir env (rl_directory l)) MeLeadDirectory,
        check_if (\<not> skip_dir_check \<and> rl_use_worktree l \<and> \<not> is_in_git_repo env (rl_directory l)) MeLeadWorktree,
        check_if (rl_timeout_secs l = 0) MeLeadTimeout]"

definition validate_sublead_defaults_adequate :: "ResolvedManifest \<Rightarrow> ManifestError + unit" where
  "validate_sublead_defaults_adequate r =
     (case lead r of
        None \<Rightarrow> Inr ()
      | Some l \<Rightarrow>
          if \<not> allow_subleads l then Inr ()
          else
            (let owned_default_ok = (case sublead_defaults l of
                   Some d \<Rightarrow> sd_budget_usd d \<noteq> None \<and> sd_max_workers d \<noteq> None | None \<Rightarrow> False);
                 shared_pool_default_ok = (case sublead_defaults l of Some d \<Rightarrow> sd_read_down d | None \<Rightarrow> False)
             in check_if (\<not> (owned_default_ok \<or> shared_pool_default_ok)) MeSubleadDefaults))"

definition opt_bad :: "('a \<Rightarrow> bool) \<Rightarrow> 'a option \<Rightarrow> bool" where
  "opt_bad bad v = (case v of Some x \<Rightarrow> bad x | None \<Rightarrow> False)"

definition validate_hierarchical_ranges :: "ResolvedManifest \<Rightarrow> ManifestError + unit" where
  "validate_hierarchical_ranges r =
     all_checks
       ([check_if (opt_bad (\<lambda>mw. mw = 0 \<or> mw > 16) (max_workers r)) MeMaxWorkers,
         check_if (opt_bad (\<lambda>b. f_le b (Fin 0)) (budget_usd r)) MeBudget,
         check_if (opt_bad (\<lambda>t. t = 0) (lead_timeout_secs r)) MeLeadTimeoutSecs] @
        (case lead r of
           None \<Rightarrow> []
         | Some l \<Rightarrow>
             [check_if (opt_bad (\<lambda>n. n = 0) (max_subleads l)) MeMaxSubleads,
              check_if (opt_bad (\<lambda>n. n = 0) (max_total_workers l)) MeMaxTotalWorkers,
              check_if (opt_bad (\<lambda>b. f_le b (Fin 0)) (max_sublead_budget_usd l)) MeMaxSubleadBudget]))"

fun check_task_ids :: "string list \<Rightarrow> string list \<Rightarrow> ManifestError + unit" where
  "check_task_ids seen [] = Inr ()"
| "check_task_ids seen (i # is) =
     (if i \<in> set seen then Inl (MeTaskDuplicate i)
      else if i = [] then Inl MeTaskIdEmpty
      else if \<not> list_all id_char i then Inl (MeTaskIdChars i)
      else check_task_ids (i # seen) is)"

definition validate_ids :: "ResolvedManifest \<Rightarrow> ManifestError + unit" where
  "validate_ids r = check_task_ids [] (map task_id (tasks r))"

definition validate_directories :: "Outside \<Rightarrow> ResolvedManifest \<Rightarrow> ManifestError + unit" where
  "validate_directories env r =
     check_each (\<lambda>t. all_checks
         [check_if (\<not> is_dir env (task_directory t)) (MeTaskDirectory (task_id t)),
          check_if (task_use_worktree t \<and> \<not> is_in_git_repo env (task_directory t)) (MeTaskWorktree (task_id t))])
       (tasks r)"

definition branch_target :: "Outside \<Rightarrow> ResolvedTask \<Rightarrow> (string \<times> string) option" where
  "branch_target env t =
     (if \<not> task_use_worktree t then None
      else map_option (\<lambda>b. ((case canonicalize env (task_directory t) of
               Some d \<Rightarrow> d | None \<Rightarrow> task_directory t), b)) (task_branch t))"

definition validate_branch_conflicts :: "Outside \<Rightarrow> ResolvedManifest \<Rightarrow> ManifestError + unit" where
  "validate_branch_conflicts env r =
     check_fresh (\<lambda>(d, b). MeBranchConflict b) [] (List.map_filter (branch_target env) (tasks r))"

definition validate_ranges :: "ResolvedManifest \<Rightarrow> ManifestError + unit" where
  "validate_ranges r =
     all_checks
       [check_if (max_parallel_tasks r = Some 0) MeMaxParallel,
        check_each (\<lambda>t. check_if (task_timeout_secs t = 0) (MeTaskTimeout (task_id t))) (tasks r)]"

definition validate_inner :: "Outside \<Rightarrow> bool \<Rightarrow> ResolvedManifest \<Rightarrow> ManifestError + unit" where
  "validate_inner env skip_dir_check r =
     all_checks
       ([validate_mode r,
         check_each (notify_check env) (notifications r),
         validate_lifecycle env r,
         validate_run_settings r,
         validate_container r,
         validate_communication r,
         validate_actor_types r,
         validate_block_untyped_requires_profiles r,
         validate_mcp_server_scopes r,
         validate_mcp_server_tools r,
         validate_mcp_tool_consistency r,
         validate_agent_profiles r,
         validate_claude_setting_sources r] @
        (case lead r of
           Some l \<Rightarrow>
             [validate_lead env skip_dir_check l,
              validate_hierarchical_ranges r,
              validate_sublead_defaults_adequate r]
         | None \<Rightarrow>
             [validate_ids r,
              (if skip_dir_check then Inr () else validate_directories env r),
              validate_branch_conflicts env r,
              validate_ranges r]))"

definition validate :: "Outside \<Rightarrow> ResolvedManifest \<Rightarrow> ManifestError + unit" where
  "validate env r = validate_inner env False r"

definition validate_skip_dir_check :: "Outside \<Rightarrow> ResolvedManifest \<Rightarrow> ManifestError + unit" where
  "validate_skip_dir_check env r = validate_inner env True r"

section \<open>Warnings\<close>

definition path_b_profile_migration_warning :: "ResolvedManifest \<Rightarrow> bool" where
  "path_b_profile_migration_warning r \<longleftrightarrow> worker_types r = [] \<and> sublead_types r = []"

definition KNOWN_CLAUDE_TOOLS :: "string list" where
  "KNOWN_CLAUDE_TOOLS =
     [''Bash'', ''BashOutput'', ''Edit'', ''ExitPlanMode'', ''Glob'', ''Grep'', ''KillShell'', ''MultiEdit'',
      ''NotebookEdit'', ''Read'', ''SlashCommand'', ''Task'', ''TodoWrite'', ''WebFetch'', ''WebSearch'', ''Write'']"

definition PITBOSS_MCP_TOOLS_BASE :: "string list" where
  "PITBOSS_MCP_TOOLS_BASE =
     map (\<lambda>t. ''mcp__pitboss__'' @ t)
       [''spawn_worker'', ''worker_status'', ''wait_for_worker'', ''wait_for_any'', ''wait_actor'', ''list_workers'',
        ''cancel_worker'', ''pause_worker'', ''continue_worker'', ''request_approval'', ''reprompt_worker'',
        ''propose_plan'', ''kv_get'', ''kv_set'', ''kv_cas'', ''kv_list'', ''kv_wait'', ''lease_acquire'',
        ''lease_release'', ''run_lease_acquire'', ''run_lease_release'']"

definition COMMUNICATION_MCP_TOOLS :: "string list" where
  "COMMUNICATION_MCP_TOOLS =
     map (\<lambda>t. ''mcp__pitboss__'' @ t)
       [''message_send'', ''message_list'', ''message_read'', ''message_ack'', ''artifact_put'', ''artifact_list'',
        ''artifact_read'', ''artifact_grant'']"

definition warn_entry :: "string list \<Rightarrow> string \<Rightarrow> bool" where
  "warn_entry declared_servers entry =
     (case strip_prefix ''mcp__pitboss__'' entry of
        Some rest \<Rightarrow>
          \<not> list_ex (\<lambda>t. strip_prefix ''mcp__pitboss__'' t = Some rest)
              (PITBOSS_MCP_TOOLS_BASE @ COMMUNICATION_MCP_TOOLS)
      | None \<Rightarrow>
          (case strip_prefix ''mcp__'' entry of
             Some rest \<Rightarrow>
               \<not> list_ex (\<lambda>i. length rest > length i + 2 \<and> starts_with rest i \<and>
                   starts_with (drop (length i) rest) ''__'') declared_servers
           | None \<Rightarrow> entry \<notin> set KNOWN_CLAUDE_TOOLS))"

definition warn_unknown_actor_type_tools :: "ResolvedManifest \<Rightarrow> (string \<times> string) list" where
  "warn_unknown_actor_type_tools r =
     (let declared_servers = map mcp_id (mcp_servers r) in
      concat (map (\<lambda>wt. map (Pair (wt_id wt)) (filter (warn_entry declared_servers) (wt_tools wt))) (worker_types r)) @
      concat (map (\<lambda>st. map (Pair (st_id st)) (filter (warn_entry declared_servers) (st_tools st))) (sublead_types r)))"

section \<open>What a valid manifest is\<close>

lemma check_if_ok [simp]: "check_if bad e = Inr u \<longleftrightarrow> \<not> bad"
  by (simp add: check_if_def)

lemma all_checks_ok: "all_checks cs = Inr () \<longleftrightarrow> (\<forall>c\<in>set cs. c = Inr ())"
  by (induction cs) (auto simp: all_checks.simps split: sum.splits)

lemma check_each_ok: "check_each f xs = Inr () \<longleftrightarrow> (\<forall>x\<in>set xs. f x = Inr ())"
  by (simp add: check_each_def all_checks_ok)

lemma check_fresh_ok: "check_fresh err seen ks = Inr () \<longleftrightarrow> distinct ks \<and> set ks \<inter> set seen = {}"
  by (induction ks arbitrary: seen) auto

lemma check_type_ids_ok:
  "check_type_ids bad dup seen is = Inr () \<longleftrightarrow>
     list_all is_valid_type_id is \<and> distinct is \<and> set is \<inter> set seen = {}"
  by (induction "is" arbitrary: seen) auto

lemma check_tool_names_ok:
  "check_tool_names sid seen ts = Inr () \<longleftrightarrow>
     list_all (\<lambda>t. \<not> trims_to_nothing t) ts \<and> distinct ts \<and> set ts \<inter> set seen = {}"
  by (induction ts arbitrary: seen) auto

lemma check_task_ids_ok:
  "check_task_ids seen is = Inr () \<longleftrightarrow>
     list_all is_valid_type_id is \<and> distinct is \<and> set is \<inter> set seen = {}"
  by (induction "is" arbitrary: seen) (auto simp: is_valid_type_id_def)

lemma check_tokens_ok:
  "check_tokens seen ts = Inr () \<longleftrightarrow>
     set ts \<subseteq> {''user'', ''project'', ''local''} \<and> distinct ts \<and> set ts \<inter> set seen = {}"
  by (induction ts arbitrary: seen) auto

lemmas checks_ok = all_checks_ok check_each_ok check_fresh_ok check_type_ids_ok check_tool_names_ok
  check_task_ids_ok check_tokens_ok

definition wf_types :: "ResolvedManifest \<Rightarrow> bool" where
  "wf_types r \<longleftrightarrow>
     list_all is_valid_type_id (map wt_id (worker_types r)) \<and> distinct (map wt_id (worker_types r)) \<and>
     list_all is_valid_type_id (map st_id (sublead_types r)) \<and> distinct (map st_id (sublead_types r)) \<and>
     (require_actor_type r \<and> lead r \<noteq> None \<or> untyped_actor_policy r = UntypedBlock \<longrightarrow>
        worker_types r \<noteq> [] \<or> sublead_types r \<noteq> [])"

definition wf_profiles :: "ResolvedManifest \<Rightarrow> bool" where
  "wf_profiles r \<longleftrightarrow>
     (\<forall>i \<in> fst ` set (agent_profiles r). is_valid_profile_id i \<and>
        (starts_with i ''pitboss/'' \<longrightarrow> i \<in> set builtin_ids)) \<and>
     (\<forall>wt \<in> set (worker_types r). \<forall>i. wt_agent_profile wt = Some i \<longrightarrow> i \<in> fst ` set (agent_profiles r)) \<and>
     (\<forall>st \<in> set (sublead_types r). \<forall>i. st_agent_profile st = Some i \<longrightarrow> i \<in> fst ` set (agent_profiles r))"

definition wf_servers :: "ResolvedManifest \<Rightarrow> bool" where
  "wf_servers r \<longleftrightarrow>
     (\<forall>s \<in> set (mcp_servers r).
        (\<forall>raw. mcp_scope s = Some raw \<longrightarrow> (\<exists>i \<in> known_types r. i \<noteq> [] \<and> raw = ''type:'' @ i)) \<and>
        (\<forall>ts. mcp_tools s = Some ts \<longrightarrow> ts \<noteq> [] \<and> distinct ts \<and> list_all (\<lambda>t. \<not> trims_to_nothing t) ts)) \<and>
     (\<forall>ts \<in> set (tool_surfaces r). \<forall>t \<in> set ts. \<forall>p.
        parse_mcp_tool_name t (mcp_servers r) = Some p \<longrightarrow> is_admitted p)"

definition wf_run :: "Outside \<Rightarrow> ResolvedManifest \<Rightarrow> bool" where
  "wf_run env r \<longleftrightarrow>
     (tasks r = [] \<longleftrightarrow> lead r \<noteq> None) \<and>
     (\<forall>n \<in> set (notifications r). validate_notification (parse_url env) n = Inr ()) \<and>
     (\<forall>lc. lifecycle r = Some lc \<longrightarrow>
        (\<forall>n. lifecycle_notify lc = Some n \<longrightarrow> validate_notification (parse_url env) n = Inr ()) \<and>
        (survive_parent lc \<longrightarrow> lifecycle_notify lc \<noteq> None \<or> notifications r \<noteq> [])) \<and>
     resource_sample_secs r \<le> 3600 \<and>
     0 < max_message_bytes (communication r) \<and> 0 < max_artifact_bytes (communication r) \<and>
     0 < max_artifacts_per_actor (communication r) \<and>
     (\<forall>v. claude_setting_sources r = Some v \<longrightarrow> v \<noteq> [] \<and> \<not> has_whitespace v \<and>
        set (split_on (CHR '','') v) \<subseteq> {''user'', ''project'', ''local''} \<and> distinct (split_on (CHR '','') v))"

definition wf_lead :: "Outside \<Rightarrow> bool \<Rightarrow> ResolvedManifest \<Rightarrow> ResolvedLead \<Rightarrow> bool" where
  "wf_lead env skip_dir_check r l \<longleftrightarrow>
     \<not> trims_to_nothing (rl_prompt l) \<and> is_valid_type_id (rl_id l) \<and> 0 < rl_timeout_secs l \<and>
     (\<not> skip_dir_check \<longrightarrow> is_dir env (rl_directory l) \<and>
        (rl_use_worktree l \<longrightarrow> is_in_git_repo env (rl_directory l))) \<and>
     (\<forall>n. max_workers r = Some n \<longrightarrow> 1 \<le> n \<and> n \<le> 16) \<and>
     (\<forall>b. budget_usd r = Some b \<longrightarrow> \<not> f_le b (Fin 0)) \<and>
     lead_timeout_secs r \<noteq> Some 0 \<and> max_subleads l \<noteq> Some 0 \<and> max_total_workers l \<noteq> Some 0 \<and>
     (\<forall>b. max_sublead_budget_usd l = Some b \<longrightarrow> \<not> f_le b (Fin 0)) \<and>
     (allow_subleads l \<longrightarrow> (\<exists>d. sublead_defaults l = Some d \<and>
        (sd_read_down d \<or> sd_budget_usd d \<noteq> None \<and> sd_max_workers d \<noteq> None)))"

definition wf_tasks :: "Outside \<Rightarrow> bool \<Rightarrow> ResolvedManifest \<Rightarrow> bool" where
  "wf_tasks env skip_dir_check r \<longleftrightarrow>
     distinct (map task_id (tasks r)) \<and> max_parallel_tasks r \<noteq> Some 0 \<and>
     distinct (List.map_filter (branch_target env) (tasks r)) \<and>
     (\<forall>t \<in> set (tasks r). is_valid_type_id (task_id t) \<and> 0 < task_timeout_secs t \<and>
        (\<not> skip_dir_check \<longrightarrow> is_dir env (task_directory t) \<and>
           (task_use_worktree t \<longrightarrow> is_in_git_repo env (task_directory t))))"

lemma actor_types_ok:
  "validate_actor_types r = Inr () \<and> validate_block_untyped_requires_profiles r = Inr () \<longleftrightarrow> wf_types r"
  by (auto simp: validate_actor_types_def validate_block_untyped_requires_profiles_def checks_ok wf_types_def)

lemma agent_profiles_ok: "validate_agent_profiles r = Inr () \<longleftrightarrow> wf_profiles r"
proof -
  have 1: "check_profile_id i = Inr () \<longleftrightarrow>
      is_valid_profile_id i \<and> (starts_with i ''pitboss/'' \<longrightarrow> i \<in> set builtin_ids)" for i
    by (simp add: check_profile_id_def)
  have 2: "check_profile_ref r m = Inr () \<longleftrightarrow> (\<forall>i. m = Some i \<longrightarrow> i \<in> fst ` set (agent_profiles r))" for m
    by (cases m) (simp_all add: check_profile_ref_def)
  show ?thesis by (auto simp: validate_agent_profiles_def checks_ok 1 2 wf_profiles_def)
qed

lemma servers_ok:
  "validate_mcp_server_scopes r = Inr () \<and> validate_mcp_server_tools r = Inr () \<and>
     validate_mcp_tool_consistency r = Inr () \<longleftrightarrow> wf_servers r"
proof -
  have 1: "check_scope r s = Inr () \<longleftrightarrow>
      (\<forall>raw. mcp_scope s = Some raw \<longrightarrow> (\<exists>i \<in> known_types r. i \<noteq> [] \<and> raw = ''type:'' @ i))" for s
    by (auto simp: check_scope_def strip_prefix_Some strip_prefix_None split: option.splits)
  have 2: "check_server_tools s = Inr () \<longleftrightarrow> (\<forall>ts. mcp_tools s = Some ts \<longrightarrow>
      ts \<noteq> [] \<and> distinct ts \<and> list_all (\<lambda>t. \<not> trims_to_nothing t) ts)" for s
    by (auto simp: check_server_tools_def checks_ok split: option.splits)
  have 3: "check_admitted r t = Inr () \<longleftrightarrow> (\<forall>p. parse_mcp_tool_name t (mcp_servers r) = Some p \<longrightarrow> is_admitted p)" for t
    by (simp add: check_admitted_def split: option.splits)
  show ?thesis
    by (auto simp: validate_mcp_server_scopes_def validate_mcp_server_tools_def
        validate_mcp_tool_consistency_def check_each_ok 1 2 3 wf_servers_def)
qed

lemma notify_check_ok [simp]: "notify_check env n = Inr () \<longleftrightarrow> validate_notification (parse_url env) n = Inr ()"
  by (auto simp: notify_check_def split: sum.splits)

lemma run_ok:
  "validate_mode r = Inr () \<and> check_each (notify_check env) (notifications r) = Inr () \<and>
     validate_lifecycle env r = Inr () \<and> validate_run_settings r = Inr () \<and>
     validate_communication r = Inr () \<and> validate_claude_setting_sources r = Inr () \<longleftrightarrow> wf_run env r"
proof -
  have lc: "validate_lifecycle env r = Inr () \<longleftrightarrow> (\<forall>lc. lifecycle r = Some lc \<longrightarrow>
      (\<forall>n. lifecycle_notify lc = Some n \<longrightarrow> validate_notification (parse_url env) n = Inr ()) \<and>
      (survive_parent lc \<longrightarrow> lifecycle_notify lc \<noteq> None \<or> notifications r \<noteq> []))"
    by (auto simp: validate_lifecycle_def checks_ok split: option.splits)
  have src: "validate_claude_setting_sources r = Inr () \<longleftrightarrow> (\<forall>v. claude_setting_sources r = Some v \<longrightarrow>
      v \<noteq> [] \<and> \<not> has_whitespace v \<and> set (split_on (CHR '','') v) \<subseteq> {''user'', ''project'', ''local''} \<and>
      distinct (split_on (CHR '','') v))"
    by (simp add: validate_claude_setting_sources_def check_tokens_ok split: option.splits)
  have "validate_mode r = Inr () \<longleftrightarrow> (tasks r = [] \<longleftrightarrow> lead r \<noteq> None)"
    by (auto simp: validate_mode_def checks_ok)
  moreover have "validate_run_settings r = Inr () \<longleftrightarrow> resource_sample_secs r \<le> 3600"
    by (simp add: validate_run_settings_def RESOURCE_SAMPLE_SECS_MAX_def not_less)
  moreover have "validate_communication r = Inr () \<longleftrightarrow> 0 < max_message_bytes (communication r) \<and>
      0 < max_artifact_bytes (communication r) \<and> 0 < max_artifacts_per_actor (communication r)"
    by (simp add: validate_communication_def checks_ok word_gt_0)
  ultimately show ?thesis by (simp add: lc src wf_run_def check_each_ok)
qed

text \<open>The arguments that \<open>validate_extra_args\<close> lets through.\<close>

definition extra_arg_ok :: "string \<Rightarrow> bool" where
  "extra_arg_ok arg \<longleftrightarrow>
     arg \<notin> set EXACT \<and> \<not> list_ex (starts_with arg) PREFIX \<and>
     (\<forall>rest. arg = ''--cap-add='' @ rest \<longrightarrow>
        (\<forall>cap \<in> set (split_on (CHR '','') rest). \<forall>c \<in> set FORBIDDEN_CAPS.
           to_ascii_lowercase c \<noteq> to_ascii_lowercase (trim cap)))"

lemma extra_args_ok: "validate_extra_args args = Inr () \<longleftrightarrow> list_all extra_arg_ok args"
proof -
  have "check_extra_arg a = Inr () \<longleftrightarrow> extra_arg_ok a" for a
    by (auto simp: check_extra_arg_def checks_ok extra_arg_ok_def list_ex_iff eq_ignore_ascii_case_def
        strip_prefix_Some split: option.splits)
  then show ?thesis by (simp add: validate_extra_args_def check_each_ok list_all_iff)
qed

lemma mount_path_ok:
  "check_mount_host_path h = Inr () \<longleftrightarrow> trim_end_slashes h \<notin> set mount_denylist \<union> {[]}"
  by (auto simp: check_mount_host_path_def Let_def list_ex_iff mount_denylist_def trim_end_slashes_def)

definition wf_container :: "ResolvedManifest \<Rightarrow> bool" where
  "wf_container r \<longleftrightarrow>
     (\<forall>c. container r = Some c \<longrightarrow>
        list_all is_valid_apt_pkg (cc_extra_apt c) \<and> list_all extra_arg_ok (cc_extra_args c) \<and>
        (\<forall>p \<in> set (cc_copy c). is_absolute (copy_container p) \<and> host_path_ok (copy_host p)) \<and>
        (\<forall>p \<in> set (cc_mounts c). is_absolute (mount_container p) \<and> host_path_ok (mount_host p) \<and>
           trim_end_slashes (mount_host p) \<notin> set mount_denylist \<union> {[]}))"

lemma container_ok: "validate_container r = Inr () \<longleftrightarrow> wf_container r"
  by (simp add: validate_container_def checks_ok extra_args_ok mount_path_ok wf_container_def list_all_iff
      split: option.splits)

lemma lead_ok:
  assumes "lead r = Some l"
  shows "validate_lead env skip l = Inr () \<and> validate_hierarchical_ranges r = Inr () \<and>
    validate_sublead_defaults_adequate r = Inr () \<longleftrightarrow> wf_lead env skip r l"
proof -
  have 1: "validate_sublead_defaults_adequate r = Inr () \<longleftrightarrow>
      (allow_subleads l \<longrightarrow> (\<exists>d. sublead_defaults l = Some d \<and>
         (sd_read_down d \<or> sd_budget_usd d \<noteq> None \<and> sd_max_workers d \<noteq> None)))"
    using assms by (auto simp: validate_sublead_defaults_adequate_def Let_def split: option.splits)
  have 2: "validate_lead env skip l = Inr () \<longleftrightarrow>
      \<not> trims_to_nothing (rl_prompt l) \<and> is_valid_type_id (rl_id l) \<and> 0 < rl_timeout_secs l \<and>
      (\<not> skip \<longrightarrow> is_dir env (rl_directory l) \<and> (rl_use_worktree l \<longrightarrow> is_in_git_repo env (rl_directory l)))"
    by (auto simp: validate_lead_def checks_ok is_valid_type_id_def word_gt_0)
  have w: "\<not> (n = 0 \<or> n > 16) \<longleftrightarrow> 1 \<le> n \<and> n \<le> 16" for n :: u32
    by (auto simp: not_less word_le_nat_alt unat_eq_zero Suc_le_eq unat_gt_0)
  have 3: "validate_hierarchical_ranges r = Inr () \<longleftrightarrow>
      (\<forall>n. max_workers r = Some n \<longrightarrow> 1 \<le> n \<and> n \<le> 16) \<and>
      (\<forall>b. budget_usd r = Some b \<longrightarrow> \<not> f_le b (Fin 0)) \<and>
      lead_timeout_secs r \<noteq> Some 0 \<and> max_subleads l \<noteq> Some 0 \<and> max_total_workers l \<noteq> Some 0 \<and>
      (\<forall>b. max_sublead_budget_usd l = Some b \<longrightarrow> \<not> f_le b (Fin 0))"
    using assms w
    by (simp add: validate_hierarchical_ranges_def checks_ok opt_bad_def split: option.splits)
  show ?thesis by (simp only: 1 2 3 wf_lead_def) blast
qed

lemma tasks_ok:
  "validate_ids r = Inr () \<and> (skip \<or> validate_directories env r = Inr ()) \<and>
     validate_branch_conflicts env r = Inr () \<and> validate_ranges r = Inr () \<longleftrightarrow> wf_tasks env skip r"
  by (auto simp: validate_ids_def validate_directories_def validate_branch_conflicts_def validate_ranges_def
      checks_ok wf_tasks_def list_all_iff word_gt_0)

lemma validate_ok:
  "validate_inner env skip r = Inr () \<longleftrightarrow>
     wf_run env r \<and> wf_container r \<and> wf_types r \<and> wf_servers r \<and> wf_profiles r \<and>
     (case lead r of Some l \<Rightarrow> wf_lead env skip r l | None \<Rightarrow> wf_tasks env skip r)"
proof (cases "lead r")
  case None
  then show ?thesis
    unfolding actor_types_ok [symmetric] servers_ok [symmetric] agent_profiles_ok [symmetric]
      container_ok [symmetric] run_ok [symmetric] tasks_ok [symmetric]
    by (simp add: validate_inner_def all_checks_ok) blast
next
  case (Some l)
  then show ?thesis
    unfolding actor_types_ok [symmetric] servers_ok [symmetric] agent_profiles_ok [symmetric]
      container_ok [symmetric] run_ok [symmetric] lead_ok [OF Some, symmetric]
    by (simp add: validate_inner_def all_checks_ok lead_ok [OF Some, symmetric]) blast
qed

end
