(* ===== verification/Validate_Facts.thy ===== *)
theory Validate_Facts
  imports Validate Sublead Store_Access
begin

text \<open>
  What the rest of the program gets from a validated manifest: profile lookups and tool filters that
  cannot go wrong, and the gaps validation leaves: a budget that is not a number, a default envelope
  that spawning refuses, and container arguments in a spelling the deny lists do not contain.
\<close>

section \<open>References resolve\<close>

lemma find_by_id:
  assumes "distinct (map f xs)"
  shows "find (\<lambda>x. f x = i) xs = Some y \<longleftrightarrow> y \<in> set xs \<and> f y = i"
  using assms
proof (induction xs)
  case (Cons x xs)
  then show ?case by (auto simp: image_iff)
qed simp

lemma hm_get_key: "i \<in> fst ` set m \<longleftrightarrow> (\<exists>v. hm_get plain i m = Some v)"
  using hm_get_None_iff [of plain i m] by auto

lemma worker_profile_found:
  "resolve_worker_profile (Some i) ps q = Inr (WpTyped wt) \<longleftrightarrow> find (\<lambda>w. wt_id w = i) ps = Some wt"
  by (simp add: resolve_worker_profile_def split: option.splits)

lemma sublead_profile_found:
  "resolve_sublead_profile (Some i) ps q = Inr (SpTyped st) \<longleftrightarrow> find (\<lambda>s. st_id s = i) ps = Some st"
  by (simp add: resolve_sublead_profile_def split: option.splits)

lemma filter_keeps_admitted:
  assumes "\<forall>t\<in>set ts. \<forall>p. parse_mcp_tool_name t servers = Some p \<longrightarrow> is_admitted p"
  shows "filter_actor_tools_by_mcp_allowlists ts servers routing = ts"
proof -
  have "(case parse_mcp_tool_name t servers of Some p \<Rightarrow> is_admitted p | None \<Rightarrow> True)" if "t \<in> set ts" for t
    using assms that by (simp split: option.splits)
  then show ?thesis by (simp add: filter_actor_tools_by_mcp_allowlists_def filter_id_conv)
qed

text \<open>
  References of a validated manifest. A type named in a spawn request is found exactly when the
  manifest declares it, and then it is the only one of that name; the agent profile it refers to is
  in the catalogue; and the filter that spawning applies to the tools of the lead, a task or a type
  drops none of them, under either permission routing.
\<close>

theorem validated_references:
  assumes "validate_inner env skip r = Inr ()"
  shows "(\<forall>i wt. resolve_worker_profile (Some i) (worker_types r) q = Inr (WpTyped wt) \<longleftrightarrow>
      wt \<in> set (worker_types r) \<and> wt_id wt = i) \<and>
    (\<forall>i st. resolve_sublead_profile (Some i) (sublead_types r) q = Inr (SpTyped st) \<longleftrightarrow>
      st \<in> set (sublead_types r) \<and> st_id st = i) \<and>
    (\<forall>wt\<in>set (worker_types r). wt_agent_profile wt \<noteq> None \<longrightarrow>
      worker_agent_profile (Some wt) (agent_profiles r) \<noteq> None) \<and>
    (\<forall>st\<in>set (sublead_types r). st_agent_profile st \<noteq> None \<longrightarrow>
      sublead_agent_profile (Some st) (agent_profiles r) \<noteq> None) \<and>
    (\<forall>ts\<in>set (tool_surfaces r). filter_actor_tools_by_mcp_allowlists ts (mcp_servers r) routing = ts)"
proof (intro conjI allI ballI impI)
  have wf: "wf_types r" "wf_servers r" "wf_profiles r" using assms by (simp_all add: validate_ok)
  show "resolve_worker_profile (Some i) (worker_types r) q = Inr (WpTyped wt) \<longleftrightarrow>
      wt \<in> set (worker_types r) \<and> wt_id wt = i" for i wt
    using wf(1) unfolding worker_profile_found by (intro find_by_id) (simp add: wf_types_def)
  show "resolve_sublead_profile (Some i) (sublead_types r) q = Inr (SpTyped st) \<longleftrightarrow>
      st \<in> set (sublead_types r) \<and> st_id st = i" for i st
    using wf(1) unfolding sublead_profile_found by (intro find_by_id) (simp add: wf_types_def)
  show "worker_agent_profile (Some wt) (agent_profiles r) \<noteq> None"
    if "wt \<in> set (worker_types r)" "wt_agent_profile wt \<noteq> None" for wt
    using wf(3) that by (auto simp: wf_profiles_def worker_agent_profile_def hm_get_key)
  show "sublead_agent_profile (Some st) (agent_profiles r) \<noteq> None"
    if "st \<in> set (sublead_types r)" "st_agent_profile st \<noteq> None" for st
    using wf(3) that by (auto simp: wf_profiles_def sublead_agent_profile_def hm_get_key)
  show "filter_actor_tools_by_mcp_allowlists ts (mcp_servers r) routing = ts"
    if "ts \<in> set (tool_surfaces r)" for ts
    using wf(2) that by (intro filter_keeps_admitted) (simp add: wf_servers_def)
qed

definition wit_outside :: Outside where
  "wit_outside = \<lparr>is_dir = \<lambda>_. True, is_in_git_repo = \<lambda>_. True, canonicalize = Some, parse_url = wit_url\<rparr>"

definition wit_type :: WorkerType where
  "wit_type = \<lparr>wt_id = ''dev'', wt_tools = [''Read''], wt_allowed_models = [], wt_max_timeout_secs = None,
     wt_agent_profile = None\<rparr>"

definition wit_manifest :: ResolvedManifest where
  "wit_manifest = base_manifest\<lparr>lead := Some (base_lead\<lparr>allow_subleads := True,
       sublead_defaults := Some \<lparr>sd_budget_usd = Some (Fin 1), sd_lead_budget_usd = None, sd_max_workers = None,
         sd_lead_timeout_secs = None, sd_read_down = True\<rparr>\<rparr>),
     worker_types := [wit_type]\<rparr>"

lemma wit_prompt: "\<not> trims_to_nothing ''do''"
  by (simp add: trims_to_nothing_def trim_start.simps strip_ws_def ws_sequences_def starts_with_def)

lemma wit_valid: "validate_inner wit_outside False wit_manifest = Inr ()"
proof -
  have ids: "is_valid_type_id ''dev''" "is_valid_type_id ''lead''"
    by (simp_all add: is_valid_type_id_def id_char_def ascii_alphanumeric_def)
  have tool: "parse_mcp_tool_name ''Read'' [] = None" by (simp add: parse_mcp_tool_name_def mcp_prefix_def)
  show ?thesis
    using wit_prompt ids tool
    by (simp add: validate_ok wf_run_def wf_container_def wf_types_def wf_servers_def wf_profiles_def wf_lead_def
        wit_manifest_def base_manifest_def base_lead_def wit_outside_def tool_surfaces_def wit_type_def)
qed

theorem validated_references_witness:
  "resolve_worker_profile (Some ''dev'') (worker_types wit_manifest) True = Inr (WpTyped wit_type) \<and>
   filter_actor_tools_by_mcp_allowlists [''Read''] (mcp_servers wit_manifest) PathB = [''Read'']"
  using validated_references [OF wit_valid, of True PathB]
  by (simp add: wit_manifest_def wit_type_def tool_surfaces_def)

section \<open>Gaps\<close>

text \<open>
  A budget that is not a number. Validation refuses a budget of zero or less but accepts one
  that is not a number, in place of any budget it accepts, and with such a budget the reservation of
  a worker never fails, whatever has been spent.
\<close>

theorem nan_budget_accepted:
  assumes "validate_inner env skip r = Inr ()" and "budget_usd (manifest layer) = Some NaN"
  shows "validate_inner env skip (r\<lparr>budget_usd := Some NaN\<rparr>) = Inr () \<and>
    (\<exists>layer'. reserve_worker tid model layer = Inr layer')"
proof
  have "wf_lead env skip r l \<Longrightarrow> wf_lead env skip (r\<lparr>budget_usd := Some NaN\<rparr>) l" for l
    by (simp add: wf_lead_def)
  then show "validate_inner env skip (r\<lparr>budget_usd := Some NaN\<rparr>) = Inr ()"
    using assms(1)
    by (auto simp: validate_ok wf_run_def wf_container_def wf_types_def wf_servers_def wf_profiles_def
        wf_tasks_def tool_surfaces_def known_types_def split: option.splits)
  show "\<exists>layer'. reserve_worker tid model layer = Inr layer'"
  proof -
    have "\<not> f_gt x NaN" for x by (cases x) simp_all
    then show ?thesis using assms(2) by (simp add: reserve_worker_def Let_def)
  qed
qed

definition nan_layer :: LayerState where
  "nan_layer = layer_new ''run'' (base_manifest\<lparr>budget_usd := Some NaN\<rparr>) new_cancel ''lead'' PolicyBlock None
     new_store None"

theorem nan_budget_accepted_witness:
  "validate_inner wit_outside False (wit_manifest\<lparr>budget_usd := Some NaN\<rparr>) = Inr () \<and>
   (\<exists>layer'. reserve_worker ''w'' ''claude-opus-4-7'' nan_layer = Inr layer')"
  by (rule nan_budget_accepted [OF wit_valid]) (simp add: nan_layer_def layer_new_def)

text \<open>
  Default envelopes. When a validated manifest allows sub-leads, a spawn request that names no
  budget and no worker count is refused for a missing default exactly when the defaults share the
  root's pool and yet give one of the two values: a case validation lets through.
\<close>

theorem default_envelope_gap:
  assumes "validate_inner env skip (manifest (root s)) = Inr ()"
    and "lead (manifest (root s)) = Some l" and "allow_subleads l"
    and "sr_budget_usd req = None" and "sr_max_workers req = None" and "sublead_defaults l = Some d"
  shows "resolve_envelope s req \<in> {Inl SlBudgetRequired, Inl SlMaxWorkersRequired} \<longleftrightarrow>
    sd_read_down d \<and> (sd_budget_usd d = None) \<noteq> (sd_max_workers d = None)"
proof -
  have d: "defaults_of s = Some d" using assms by (simp add: defaults_of_def)
  have ok: "sd_read_down d \<or> sd_budget_usd d \<noteq> None \<and> sd_max_workers d \<noteq> None"
    using assms by (auto simp: validate_ok wf_lead_def)
  have caps: "check_sublead_budget_cap s b \<noteq> Inl SlBudgetRequired" "check_max_subleads s \<noteq> Inl SlBudgetRequired"
    "check_max_total_workers s n \<noteq> Inl SlBudgetRequired"
    "check_sublead_budget_cap s b \<noteq> Inl SlMaxWorkersRequired" "check_max_subleads s \<noteq> Inl SlMaxWorkersRequired"
    "check_max_total_workers s n \<noteq> Inl SlMaxWorkersRequired" for b n
    by (simp_all add: check_sublead_budget_cap_def check_max_subleads_def check_max_total_workers_def Let_def
        split: option.splits)
  show ?thesis
    using d ok caps assms(4,5)
    by (auto simp: resolve_envelope_def effective_budget_usd_def effective_max_workers_def
        effective_read_down_def first_some_def split: option.splits sum.splits)
qed

definition gap_state :: DispatchState where
  "gap_state = new_dispatch ''run'' wit_manifest ''lead'' PolicyBlock None new_store"

definition gap_request :: SubleadSpawnRequest where
  "gap_request = \<lparr>sr_prompt = ''p'', sr_model = ''m'', sr_budget_usd = None, sr_lead_budget_usd = None,
     sr_max_workers = None, sr_lead_timeout_secs = None, sr_initial_ref = [], sr_read_down = False, sr_env = [],
     sr_tools = [], sr_resume_session_id = None, sr_sublead_type = None\<rparr>"

theorem default_envelope_gap_witness:
  "validate_inner wit_outside False (manifest (root gap_state)) = Inr () \<and>
   resolve_envelope gap_state gap_request \<in> {Inl SlBudgetRequired, Inl SlMaxWorkersRequired}"
proof -
  have m: "manifest (root gap_state) = wit_manifest"
    by (simp add: gap_state_def new_dispatch_def layer_new_def)
  show ?thesis
    using default_envelope_gap [of wit_outside False gap_state _ gap_request] wit_valid
    by (simp add: m) (simp add: wit_manifest_def gap_request_def)
qed

text \<open>
  Mounts by another name. Every host path that validation refuses to mount is accepted with
  \<^verbatim>\<open>/.\<close> in front, which names the same file.
\<close>

theorem mount_denylist_respelled:
  "list_all (\<lambda>bad. check_mount_host_path bad \<noteq> Inr () \<and>
     check_mount_host_path (''/.'' @ bad) = Inr () \<and> path_key (''/.'' @ bad) = path_key bad) mount_denylist"
  by (simp add: mount_denylist_def check_mount_host_path_def trim_end_slashes_def path_key_def starts_with_def
      check_if_def)

definition two_word_flags :: "string list" where
  "two_word_flags =
     [''--cap-add'', ''--pid'', ''--ipc'', ''--uts'', ''--userns'', ''--cgroupns'', ''--security-opt'', ''--device'',
      ''--device-cgroup-rule'']"

text \<open>
  Flags and values as two arguments. The check of \<open>extra_args\<close> looks at each argument alone: any
  of the refused settings of namespaces, capabilities, security options and devices passes when its
  value is the next argument, as the container runtimes accept it.
\<close>

theorem two_word_flags_pass:
  assumes "flag \<in> set two_word_flags" and "\<not> starts_with v ''-''"
  shows "validate_extra_args [flag, v] = Inr ()"
proof -
  have "extra_arg_ok flag"
    using assms(1) by (auto simp: two_word_flags_def extra_arg_ok_def EXACT_def PREFIX_def starts_with_def)
  moreover have "extra_arg_ok v"
    using assms(2) by (cases v) (auto simp: extra_arg_ok_def EXACT_def PREFIX_def starts_with_def)
  ultimately show ?thesis by (simp add: extra_args_ok)
qed

theorem two_word_flags_pass_witness: "validate_extra_args [''--cap-add'', ''ALL''] = Inr ()"
  by (rule two_word_flags_pass) (simp_all add: two_word_flags_def starts_with_def)

end
