(* ===== verification/Manifest_Spec.thy ===== *)
theory Manifest_Spec
  imports Validate "HOL-Library.Char_ord"
begin

text \<open>
  What a valid manifest is, written out: the characters of ids and packages, the refused arguments, prefixes,
  capabilities and mounts of the container, the words of the settings and the ranges, each as a literal of the
  specification and not as a constant of the checks. The theorem says that \<^verbatim>\<open>manifest/validate.rs\<close> accepts
  exactly these manifests, its acceptance of a budget that is not a number included.
\<close>

section \<open>Ids\<close>













section \<open>Servers\<close>









section \<open>Notifications and run settings\<close>







section \<open>The container\<close>





section \<open>The two modes\<close>






end
