(* ===== verification/Legacy_Hints.thy ===== *)
theory Legacy_Hints
  imports Validate
begin

text \<open>
  Hints for manifests of an older schema (the last part of \<^verbatim>\<open>manifest/validate.rs\<close>): when a manifest
  does not parse, its text is scanned for the tables and fields that moved, line by line. A hint is a
  constructor. The lemma shows that comment lines have no influence on the hints.
\<close>

datatype Migration =
    MigLeadArray
  | MigRunField string
  | MigMaxParallel
  | MigApprovalPolicy
  | MigMaxWorkersAcrossTree
  | MigSubleadDefaults

definition is_comment :: "string \<Rightarrow> bool" where
  "is_comment l = starts_with (trim_start l) ''#''"

definition has_line :: "string \<Rightarrow> string list \<Rightarrow> bool" where
  "has_line needle ls = list_ex (\<lambda>l. \<not> is_comment l \<and> starts_with (trim_start l) needle) ls"

definition has_top_level_array_table :: "string list \<Rightarrow> string \<Rightarrow> bool" where
  "has_top_level_array_table ls name = has_line (''[['' @ name @ '']]'') ls"

definition has_subtable :: "string list \<Rightarrow> string \<Rightarrow> string \<Rightarrow> bool" where
  "has_subtable ls parent child = has_line (''['' @ parent @ ''.'' @ child @ '']'') ls"

fun scan_section :: "string \<Rightarrow> string \<Rightarrow> bool \<Rightarrow> string list \<Rightarrow> bool" where
  "scan_section header field in_section [] = False"
| "scan_section header field in_section (l # ls) =
     (let trimmed = trim_start l in
      if starts_with trimmed ''#'' then scan_section header field in_section ls
      else if starts_with trimmed ''['' then
        scan_section header field
          (starts_with trimmed header \<and> \<not> starts_with (drop (length header) trimmed) ''.'') ls
      else if \<not> in_section then scan_section header field in_section ls
      else (case strip_prefix field trimmed of
              Some rest \<Rightarrow>
                starts_with rest '' '' \<or> starts_with rest ''='' \<or> starts_with rest [CHR 0x09] \<or>
                scan_section header field in_section ls
            | None \<Rightarrow> scan_section header field in_section ls))"

definition has_field_in_section :: "string list \<Rightarrow> string \<Rightarrow> string \<Rightarrow> bool" where
  "has_field_in_section ls sect field = scan_section (''['' @ sect @ '']'') field False ls"

definition migrations :: "string list \<Rightarrow> Migration list" where
  "migrations ls =
     (if has_top_level_array_table ls ''lead'' then [MigLeadArray] else []) @
     map MigRunField (filter (has_field_in_section ls ''run'') [''max_workers'', ''budget_usd'', ''lead_timeout_secs'']) @
     (if has_field_in_section ls ''run'' ''max_parallel'' \<and> \<not> has_field_in_section ls ''run'' ''max_parallel_tasks''
      then [MigMaxParallel] else []) @
     (if has_field_in_section ls ''run'' ''approval_policy'' \<and>
         \<not> has_field_in_section ls ''run'' ''default_approval_policy'' then [MigApprovalPolicy] else []) @
     (if has_field_in_section ls ''lead'' ''max_workers_across_tree'' then [MigMaxWorkersAcrossTree] else []) @
     (if has_subtable ls ''lead'' ''sublead_defaults'' then [MigSubleadDefaults] else [])"

definition translate_legacy_parse_error :: "string \<Rightarrow> Migration list option" where
  "translate_legacy_parse_error src =
     (let ms = migrations (str_lines src) in if ms = [] then None else Some ms)"

section \<open>Comments do not count\<close>

lemma has_line_comments: "has_line needle (filter (\<lambda>l. \<not> is_comment l) ls) = has_line needle ls"
  by (auto simp: has_line_def list_ex_iff)

lemma scan_comments:
  "scan_section h f b (filter (\<lambda>l. \<not> is_comment l) ls) = scan_section h f b ls"
  by (induction ls arbitrary: b) (auto simp: is_comment_def Let_def split: option.splits)

lemma migrations_comments: "migrations (filter (\<lambda>l. \<not> is_comment l) ls) = migrations ls"
  by (simp add: migrations_def has_top_level_array_table_def has_subtable_def has_field_in_section_def
      has_line_comments scan_comments)

end
