(* ===== verification/Failure_Classify.thy ===== *)
theory Failure_Classify
  imports Mcp_Server Validate
begin

text \<open>
  Classification of failed sessions (\<^verbatim>\<open>pitboss-core/src/failure_classify.rs\<close>,
  \<^verbatim>\<open>dispatch/failure_detection.rs\<close>): the tail of the logs becomes a \<^typ>\<open>FailureReason\<close>, which feeds
  the spawn gate of \<^const>\<open>check_can_spawn\<close>. Logs are UTF-8, one \<^typ>\<open>char\<close> per byte, so slicing a string
  at a byte that is not a character boundary, which panics in the source, is an outcome of its own.
  The JSON parser and the calendar are libraries: arguments \<^verbatim>\<open>json\<close> and \<^verbatim>\<open>ymd\<close> (the instant of
  midnight of a date, if the date exists). Instants are nanoseconds as in the dispatcher.
\<close>

section \<open>Strings\<close>

datatype 'a outcome = Panics | Returns 'a

fun on_return :: "'a outcome \<Rightarrow> ('a \<Rightarrow> 'b outcome) \<Rightarrow> 'b outcome" where
  "on_return Panics f = Panics"
| "on_return (Returns x) f = f x"

definition is_char_boundary :: "string \<Rightarrow> nat \<Rightarrow> bool" where
  "is_char_boundary s n \<longleftrightarrow> n = 0 \<or> n = length s \<or> (n < length s \<and> \<not> is_continuation (s ! n))"

text \<open>\<^verbatim>\<open>&s[..n]\<close>.\<close>

definition slice_to :: "string \<Rightarrow> nat \<Rightarrow> string outcome" where
  "slice_to s n = (if is_char_boundary s n then Returns (take n s) else Panics)"

definition find_any :: "string list \<Rightarrow> string \<Rightarrow> nat option" where
  "find_any ps s = find (\<lambda>n. list_ex (starts_with (drop n s)) ps) [0..<Suc (length s)]"

definition char_count :: "string \<Rightarrow> nat" where
  "char_count s = length (filter (\<lambda>c. \<not> is_continuation c) s)"

fun skip_chars :: "nat \<Rightarrow> string \<Rightarrow> string" where
  "skip_chars 0 s = s"
| "skip_chars (Suc n) [] = []"
| "skip_chars (Suc n) (c # cs) =
     (if is_continuation c then skip_chars (Suc n) cs else skip_chars n (dropWhile is_continuation cs))"

function split_words :: "string \<Rightarrow> string \<Rightarrow> string list" where
  "split_words acc s =
     (case s of
        [] \<Rightarrow> if acc = [] then [] else [acc]
      | c # cs \<Rightarrow>
          (case strip_ws s of
             Some r \<Rightarrow> if acc = [] then split_words [] r else acc # split_words [] r
           | None \<Rightarrow> split_words (acc @ [c]) cs))"
  by pat_completeness auto
termination
  by (relation "measure (\<lambda>(acc, s). length s)") (auto dest: strip_ws_shorter)

declare split_words.simps [simp del]

definition split_whitespace :: "string \<Rightarrow> string list" where
  "split_whitespace s = split_words [] s"

definition trim_end_matches :: "string \<Rightarrow> string \<Rightarrow> string" where
  "trim_end_matches cs s = rev (dropWhile (\<lambda>c. c \<in> set cs) (rev s))"

text \<open>\<^verbatim>\<open>parse::<u32>()\<close>: an optional sign, at least one digit, no overflow.\<close>

fun dec_value :: "nat \<Rightarrow> string \<Rightarrow> nat option" where
  "dec_value acc [] = Some acc"
| "dec_value acc (c # cs) =
     (case digit_val 10 c of
        Some d \<Rightarrow> if acc * 10 + d < 2 ^ 32 then dec_value (acc * 10 + d) cs else None
      | None \<Rightarrow> None)"

definition parse_u32 :: "string \<Rightarrow> nat option" where
  "parse_u32 s =
     (let ds = (case s of c # cs \<Rightarrow> if c = CHR ''+'' then cs else s | [] \<Rightarrow> [])
      in if ds = [] then None else dec_value 0 ds)"

fun split_once :: "char \<Rightarrow> string \<Rightarrow> (string \<times> string) option" where
  "split_once c [] = None"
| "split_once c (x # xs) = (if x = c then Some ([], xs) else map_option (\<lambda>(a, b). (x # a, b)) (split_once c xs))"

definition strip_suffix :: "string \<Rightarrow> string \<Rightarrow> string option" where
  "strip_suffix p s = map_option rev (strip_prefix (rev p) (rev s))"

text \<open>\<^verbatim>\<open>String::from_utf8_lossy\<close>: the next maximal piece, whether it is a character, and how long it is.\<close>

definition cont_in :: "nat \<Rightarrow> nat \<Rightarrow> string \<Rightarrow> nat \<Rightarrow> bool" where
  "cont_in lo hi s i \<longleftrightarrow> i < length s \<and> lo \<le> (of_char (s ! i) :: nat) \<and> (of_char (s ! i) :: nat) \<le> hi"

fun piece_after :: "(nat \<times> nat) list \<Rightarrow> string \<Rightarrow> nat \<Rightarrow> bool \<times> nat" where
  "piece_after [] s i = (True, i)"
| "piece_after ((lo, hi) # rs) s i = (if cont_in lo hi s i then piece_after rs s (Suc i) else (False, i))"

definition utf8_piece :: "string \<Rightarrow> bool \<times> nat" where
  "utf8_piece s =
     (let b = (of_char (s ! 0) :: nat) in
      if b < 0x80 then (True, 1)
      else if 0xC2 \<le> b \<and> b \<le> 0xDF then piece_after [(0x80, 0xBF)] s 1
      else if b = 0xE0 then piece_after [(0xA0, 0xBF), (0x80, 0xBF)] s 1
      else if b = 0xED then piece_after [(0x80, 0x9F), (0x80, 0xBF)] s 1
      else if 0xE1 \<le> b \<and> b \<le> 0xEF then piece_after [(0x80, 0xBF), (0x80, 0xBF)] s 1
      else if b = 0xF0 then piece_after [(0x90, 0xBF), (0x80, 0xBF), (0x80, 0xBF)] s 1
      else if 0xF1 \<le> b \<and> b \<le> 0xF3 then piece_after [(0x80, 0xBF), (0x80, 0xBF), (0x80, 0xBF)] s 1
      else if b = 0xF4 then piece_after [(0x80, 0x8F), (0x80, 0xBF), (0x80, 0xBF)] s 1
      else (False, 1))"

lemma piece_after_le: "i \<le> snd (piece_after rs s i)"
  by (induction rs s i rule: piece_after.induct) (auto dest: Suc_leD)

lemma utf8_piece_pos: "0 < snd (utf8_piece s)"
  using piece_after_le [of 1] by (auto simp: utf8_piece_def Let_def Suc_le_eq)

definition REPLACEMENT :: string where
  "REPLACEMENT = [CHR 0xEF, CHR 0xBF, CHR 0xBD]"

function from_utf8_lossy :: "string \<Rightarrow> string" where
  "from_utf8_lossy s =
     (if s = [] then []
      else let (ok, n) = utf8_piece s
           in (if ok then take n s else REPLACEMENT) @ from_utf8_lossy (drop n s))"
  by pat_completeness auto
termination
proof (relation "measure length", goal_cases)
  case (2 s x ok n)
  then have "0 < n" using utf8_piece_pos [of s] by (metis snd_conv)
  with 2 show ?case by simp
qed simp

declare from_utf8_lossy.simps [simp del]

section \<open>Reset times\<close>

definition month_from_abbrev :: "string \<Rightarrow> nat option" where
  "month_from_abbrev s =
     map_of [(''jan'', 1), (''feb'', 2), (''mar'', 3), (''apr'', 4), (''may'', 5), (''jun'', 6), (''jul'', 7),
       (''aug'', 8), (''sep'', 9), (''sept'', 9), (''oct'', 10), (''nov'', 11), (''dec'', 12)]
       (to_ascii_lowercase s)"

text \<open>Minutes after midnight.\<close>

definition parse_12h_time :: "string \<Rightarrow> nat option" where
  "parse_12h_time s =
     (let lower = to_ascii_lowercase s;
          body_pm = (case strip_suffix ''pm'' lower of
                       Some b \<Rightarrow> Some (b, True)
                     | None \<Rightarrow> (case strip_suffix ''am'' lower of Some b \<Rightarrow> Some (b, False) | None \<Rightarrow> None))
      in Option.bind body_pm (\<lambda>(body, is_pm).
         Option.bind (case split_once (CHR '':'') body of
                        Some (h, m) \<Rightarrow> Option.bind (parse_u32 h) (\<lambda>h. map_option (\<lambda>m. (h, m)) (parse_u32 m))
                      | None \<Rightarrow> map_option (\<lambda>h. (h, 0)) (parse_u32 body)) (\<lambda>(hour, minute).
         if \<not> (1 \<le> hour \<and> hour \<le> 12) \<or> 60 \<le> minute then None
         else let hour24 = (if hour = 12 then (if is_pm then 12 else 0) else if is_pm then hour + 12 else hour)
              in Some (hour24 * 60 + minute))))"

definition stop_chars :: "string list" where
  "stop_chars = [[CHR 0x0A], [CHR 0xC2, CHR 0xB7], ''|'']"

definition minute_ns :: int where
  "minute_ns = 60 * ns_per_sec"

text \<open>The date read from the text after the marker, against the current instant and its year.\<close>

definition reset_from_candidate :: "(int \<Rightarrow> nat \<Rightarrow> nat \<Rightarrow> int option) \<Rightarrow> int \<Rightarrow> int \<Rightarrow> string \<Rightarrow> int option" where
  "reset_from_candidate ymd year now candidate =
     (case split_whitespace candidate of
        p0 # p1 # p2 # _ \<Rightarrow>
          Option.bind (month_from_abbrev p0) (\<lambda>month.
          Option.bind (parse_u32 (trim_end_matches '','' p1)) (\<lambda>day.
          Option.bind (parse_12h_time p2) (\<lambda>time.
          Option.bind (ymd year month day) (\<lambda>date.
            let dt = date + int time * minute_ns
            in if dt < now
               then Some (case ymd (year + 1) month day of Some d \<Rightarrow> d + int time * minute_ns | None \<Rightarrow> dt)
               else Some dt))))
      | _ \<Rightarrow> None)"

definition parse_reset_timestamp ::
  "(int \<Rightarrow> nat \<Rightarrow> nat \<Rightarrow> int option) \<Rightarrow> int \<Rightarrow> int \<Rightarrow> string \<Rightarrow> int option outcome" where
  "parse_reset_timestamp ymd year now blob =
     (case find_any [''resets ''] blob of
        None \<Rightarrow> Returns None
      | Some idx \<Rightarrow>
          (let rest = drop (idx + 7) blob;
               end_pos = (case find_any stop_chars rest of Some n \<Rightarrow> n | None \<Rightarrow> min (length rest) 40)
           in on_return (slice_to rest end_pos) (\<lambda>cut.
                Returns (reset_from_candidate ymd year now (trim_end_matches ''.,'' (trim cut))))))"

datatype ResetContext = AroundMarker string | NoMarker string

definition reset_context :: "string \<Rightarrow> ResetContext outcome" where
  "reset_context blob =
     (case find_any [''resets ''] blob of
        Some idx \<Rightarrow>
          (let rest = drop idx blob;
               end_pos = (case find_any stop_chars rest of Some n \<Rightarrow> n | None \<Rightarrow> min (length rest) 80)
           in on_return (slice_to rest end_pos) (\<lambda>cut. Returns (AroundMarker (trim cut))))
      | None \<Rightarrow>
          (let trimmed = trim blob
           in Returns (NoMarker (skip_chars (char_count trimmed - 80) trimmed))))"

section \<open>Excerpts\<close>

definition json_get :: "string \<Rightarrow> Json \<Rightarrow> Json option" where
  "json_get k v = (case v of JObj m \<Rightarrow> map_of m k | _ \<Rightarrow> None)"

definition as_str :: "Json \<Rightarrow> string option" where
  "as_str v = (case v of JStr s \<Rightarrow> Some s | _ \<Rightarrow> None)"

definition pointer :: "string list \<Rightarrow> Json \<Rightarrow> Json option" where
  "pointer ks v = fold (\<lambda>k acc. Option.bind acc (json_get k)) ks (Some v)"

definition EXCERPT_MAX_CHARS :: nat where
  "EXCERPT_MAX_CHARS = 240"

definition cap_chars :: "string \<Rightarrow> string" where
  "cap_chars s =
     (if char_count s \<le> EXCERPT_MAX_CHARS then s else skip_chars (char_count s - EXCERPT_MAX_CHARS) s)"

definition last_chars :: "string \<Rightarrow> nat \<Rightarrow> string" where
  "last_chars s n = (if char_count s \<le> n then s else skip_chars (char_count s - n) s)"

definition is_truncated_event_tail :: "(string \<Rightarrow> Json option) \<Rightarrow> string \<Rightarrow> bool" where
  "is_truncated_event_tail json line \<longleftrightarrow>
     100 \<le> length line \<and> contains_str line [CHR 0x22, CHR '':''] \<and> json line = None"

definition or_opt :: "'a option \<Rightarrow> 'a option \<Rightarrow> 'a option" where
  "or_opt a b = (case a of Some x \<Rightarrow> Some x | None \<Rightarrow> b)"

definition event_message :: "Json \<Rightarrow> string option" where
  "event_message v =
     (let err_msg = Option.bind (or_opt (pointer [''error'', ''message''] v)
                                        (pointer [''result'', ''error'', ''message''] v)) as_str
      in case err_msg of
           Some (c # cs) \<Rightarrow> Some (c # cs)
         | _ \<Rightarrow> (case Option.bind (pointer [''result''] v) as_str of Some (c # cs) \<Rightarrow> Some (c # cs) | _ \<Rightarrow> None))"

definition ellipsis :: string where
  "ellipsis = [CHR 0xE2, CHR 0x80, CHR 0xA6]"

definition truncated_excerpt :: "string \<Rightarrow> string" where
  "truncated_excerpt line = ''[truncated mid-event] '' @ ellipsis @ last_chars line 80"

definition excerpt :: "(string \<Rightarrow> Json option) \<Rightarrow> string \<Rightarrow> string" where
  "excerpt json blob =
     (let trimmed = trim blob in
      if trimmed = [] then []
      else let last_line = trim (case find (\<lambda>l. trim l \<noteq> []) (rev (str_lines trimmed)) of
                                   Some l \<Rightarrow> l | None \<Rightarrow> trimmed);
               msg = (if starts_with last_line ''{'' then Option.bind (json last_line) event_message else None)
           in case msg of
                Some m \<Rightarrow> cap_chars m
              | None \<Rightarrow>
                  if is_truncated_event_tail json last_line
                  then truncated_excerpt last_line
                  else cap_chars last_line)"

section \<open>Markers\<close>

definition match_auth :: "string \<Rightarrow> FailureReason option" where
  "match_auth blob =
     (let has_401 = contains_str blob ''401'' \<and>
            (contains_str blob ''Unauthorized'' \<or> contains_str blob ''Authentication'');
          has_invalid_key = contains_str blob ''invalid_api_key'';
          has_auth_error = contains_str blob ''authentication_error'' \<and> (has_401 \<or> has_invalid_key)
      in if has_invalid_key \<or> has_auth_error \<or> has_401 then Some AuthFailure else None)"

definition rate_limit_hit :: "string \<Rightarrow> bool" where
  "rate_limit_hit blob \<longleftrightarrow>
     contains_str blob (''You'' @ [CHR 0x27] @ ''ve hit your limit'') \<or> contains_str blob ''rate_limit_exceeded'' \<or>
     contains_str blob ''rate limit exceeded'' \<or> contains_str blob ''usage limit reached''"

text \<open>What the classification reads from outside: the calendar, the year and instant of the call, the JSON
  parser, and whether the warning about an unreadable reset time is logged, which evaluates its excerpt.\<close>

record Outer =
  ymd :: "int \<Rightarrow> nat \<Rightarrow> nat \<Rightarrow> int option"
  current_year :: int
  current_time :: int
  json :: "string \<Rightarrow> Json option"
  warn_enabled :: bool

abbreviation reset_time :: "Outer \<Rightarrow> string \<Rightarrow> int option outcome" where
  "reset_time env \<equiv> parse_reset_timestamp (ymd env) (current_year env) (current_time env)"

definition match_rate_limit :: "Outer \<Rightarrow> string \<Rightarrow> FailureReason option outcome" where
  "match_rate_limit env blob =
     (if \<not> rate_limit_hit blob then Returns None
      else on_return (reset_time env blob) (\<lambda>r.
             if r = None \<and> warn_enabled env
             then on_return (reset_context blob) (\<lambda>_. Returns (Some (RateLimit r)))
             else Returns (Some (RateLimit r))))"

definition match_context_exceeded :: "string \<Rightarrow> FailureReason option" where
  "match_context_exceeded blob =
     (if contains_str blob ''context_length_exceeded'' \<or> contains_str blob ''prompt is too long''
      then Some ContextExceeded else None)"

definition match_invalid_argument :: "Outer \<Rightarrow> string \<Rightarrow> FailureReason option" where
  "match_invalid_argument env blob =
     (if contains_str blob ''invalid_request_error'' then Some (InvalidArgument (excerpt (json env) blob)) else None)"

definition network_markers :: "string list" where
  "network_markers = [''ENOTFOUND'', ''ETIMEDOUT'', ''ECONNRESET'', ''ECONNREFUSED'', ''EAI_AGAIN'', ''getaddrinfo'',
     ''socket hang up'', ''network error'']"

definition match_network :: "Outer \<Rightarrow> string \<Rightarrow> FailureReason option" where
  "match_network env blob =
     (if list_ex (contains_str blob) network_markers then Some (NetworkError (excerpt (json env) blob)) else None)"

section \<open>Classification\<close>

definition classify_event_line :: "Outer \<Rightarrow> string \<Rightarrow> FailureReason option outcome" where
  "classify_event_line env line =
     (let trimmed = trim line in
      if \<not> starts_with trimmed ''{'' then Returns None
      else let err = Option.bind (json env trimmed) (\<lambda>v.
                       or_opt (json_get ''error'' v) (Option.bind (json_get ''result'' v) (json_get ''error'')))
           in case Option.bind err (\<lambda>e. map_option (\<lambda>t. (e, t)) (Option.bind (json_get ''type'' e) as_str)) of
                None \<Rightarrow> Returns None
              | Some (e, err_type) \<Rightarrow>
                  (let err_msg = (case Option.bind (json_get ''message'' e) as_str of Some m \<Rightarrow> m | None \<Rightarrow> [])
                   in if err_type = ''rate_limit_exceeded'' \<or> err_type = ''overloaded_error''
                      then on_return (reset_time env err_msg) (\<lambda>r. Returns (Some (RateLimit r)))
                      else if err_type = ''authentication_error'' then Returns (Some AuthFailure)
                      else if err_type = ''invalid_request_error''
                      then Returns (Some
                             (if contains_str err_msg ''prompt is too long'' \<or>
                                 contains_str err_msg ''context_length_exceeded'' then ContextExceeded
                              else InvalidArgument
                                     (if err_msg = [] then excerpt (json env) line else excerpt (json env) err_msg)))
                      else Returns None))"

fun collect_reasons :: "Outer \<Rightarrow> string list \<Rightarrow> FailureReason list outcome" where
  "collect_reasons env [] = Returns []"
| "collect_reasons env (l # ls) =
     on_return (classify_event_line env l) (\<lambda>r.
       on_return (collect_reasons env ls) (\<lambda>rs. Returns (case r of Some x \<Rightarrow> x # rs | None \<Rightarrow> rs)))"

fun is_rate_limit :: "FailureReason \<Rightarrow> bool" where
  "is_rate_limit (RateLimit _) = True"
| "is_rate_limit _ = False"

definition substring_reason :: "Outer \<Rightarrow> string \<Rightarrow> FailureReason outcome" where
  "substring_reason env blob =
     (case match_auth blob of
        Some r \<Rightarrow> Returns r
      | None \<Rightarrow> on_return (match_rate_limit env blob) (\<lambda>m.
          Returns (case or_opt m (or_opt (match_context_exceeded blob)
                          (or_opt (match_invalid_argument env blob) (match_network env blob))) of
                     Some r \<Rightarrow> r | None \<Rightarrow> UnknownFailure (excerpt (json env) blob))))"

definition classify :: "Outer \<Rightarrow> string \<Rightarrow> FailureReason outcome" where
  "classify env blob =
     on_return (collect_reasons env (str_lines blob)) (\<lambda>json_reasons.
       if AuthFailure \<in> set json_reasons then Returns AuthFailure
       else if ContextExceeded \<in> set json_reasons then Returns ContextExceeded
       else case find is_rate_limit json_reasons of
              Some reason \<Rightarrow>
                if match_auth blob \<noteq> None then Returns AuthFailure
                else if reason = RateLimit None
                then on_return (match_rate_limit env blob) (\<lambda>m.
                       Returns (case m of Some banner \<Rightarrow> banner | None \<Rightarrow> reason))
                else Returns reason
            | None \<Rightarrow>
                (case json_reasons of
                   reason # _ \<Rightarrow> Returns (if match_auth blob \<noteq> None then AuthFailure else reason)
                 | [] \<Rightarrow> substring_reason env blob))"

definition RESUME_HINT_SESSION_PREFIX_CHARS :: nat where
  "RESUME_HINT_SESSION_PREFIX_CHARS = 8"

definition enrich_with_resume_hint :: "FailureReason \<Rightarrow> string \<Rightarrow> FailureReason" where
  "enrich_with_resume_hint reason resume_session_id =
     (case reason of
        UnknownFailure message \<Rightarrow>
          UnknownFailure
            (''subprocess was started with --resume '' @ take_chars RESUME_HINT_SESSION_PREFIX_CHARS resume_session_id @
             ellipsis @ ''; the session id may be invalid (expired, revoked, or never existed). Re-run without --resume'' @
             '' to start fresh, or run `pitboss resume <run-id>` against a more recent run. Original excerpt: '' @ message)
      | other \<Rightarrow> other)"

definition TAIL_BYTES :: nat where
  "TAIL_BYTES = 8 * 1024"

text \<open>Files are byte strings; one that cannot be opened or read gives no tail.\<close>

definition read_tail :: "(string \<Rightarrow> string option) \<Rightarrow> string \<Rightarrow> nat \<Rightarrow> string" where
  "read_tail files path max_bytes =
     (case files path of
        None \<Rightarrow> []
      | Some bytes \<Rightarrow> from_utf8_lossy (drop (length bytes - max_bytes) bytes))"

definition detect_failure_reason ::
  "Outer \<Rightarrow> (string \<Rightarrow> string option) \<Rightarrow> int option \<Rightarrow> string option \<Rightarrow> string option \<Rightarrow> FailureReason option outcome" where
  "detect_failure_reason env files exit_code stdout_path stderr_path =
     (if exit_code = Some 0 then Returns None
      else let buf = (case stdout_path of Some p \<Rightarrow> read_tail files p TAIL_BYTES | None \<Rightarrow> []) @
                     (case stderr_path of Some p \<Rightarrow> CHR 0x0A # read_tail files p TAIL_BYTES | None \<Rightarrow> [])
           in on_return (classify env buf) (\<lambda>r. Returns (Some r)))"

end
