(* ===== verification/Failure_Facts.thy ===== *)
theory Failure_Facts
  imports Failure_Classify
begin

text \<open>
  What the classification of failures guarantees: an authentication failure is never hidden behind a rate
  limit, excerpts are bounded and a zero exit is never a failure; and two ways a reset time goes wrong, a
  panic on a message cut inside a character and a spawn gate that stays shut for a year.
\<close>

section \<open>Excerpts\<close>

lemma char_count_simps [simp]:
  "char_count [] = 0"
  "char_count (c # cs) = (if is_continuation c then char_count cs else Suc (char_count cs))"
  "char_count (xs @ ys) = char_count xs + char_count ys"
  by (simp_all add: char_count_def)

lemma char_count_dropWhile: "char_count (dropWhile is_continuation s) = char_count s"
  by (induction s) auto

lemma char_count_skip: "char_count (skip_chars n s) = char_count s - n"
  by (induction n s rule: skip_chars.induct) (auto simp: char_count_dropWhile)

lemma cap_chars_bound: "char_count (cap_chars s) \<le> EXCERPT_MAX_CHARS"
  by (simp add: cap_chars_def char_count_skip)

lemma last_chars_bound: "char_count (last_chars s n) \<le> n"
  by (simp add: last_chars_def char_count_skip)

lemma truncated_bound: "char_count (truncated_excerpt l) \<le> EXCERPT_MAX_CHARS"
  using last_chars_bound [of l 80]
  by (simp add: truncated_excerpt_def ellipsis_def is_continuation_def EXCERPT_MAX_CHARS_def)

lemma excerpt_bound: "char_count (excerpt js blob) \<le> EXCERPT_MAX_CHARS"
  by (simp add: excerpt_def Let_def cap_chars_bound truncated_bound split: option.split)

fun reason_message :: "FailureReason \<Rightarrow> string" where
  "reason_message (NetworkError m) = m"
| "reason_message (InvalidArgument m) = m"
| "reason_message (UnknownFailure m) = m"
| "reason_message _ = []"

section \<open>Priorities\<close>

lemma match_rate_limit_shape: "match_rate_limit env blob = Returns (Some r) \<Longrightarrow> is_rate_limit r"
  by (cases "reset_time env blob"; cases "reset_context blob") (auto simp: match_rate_limit_def split: if_splits)

lemma on_return_Returns: "on_return x f = Returns y \<longleftrightarrow> (\<exists>v. x = Returns v \<and> f v = Returns y)"
  by (cases x) auto

lemma event_line_bound:
  "classify_event_line env l = Returns (Some r) \<Longrightarrow> char_count (reason_message r) \<le> EXCERPT_MAX_CHARS"
  by (auto simp: classify_event_line_def Let_def on_return_Returns excerpt_bound split: if_splits option.splits)

lemma collect_reasons_bound:
  "collect_reasons env ls = Returns rs \<Longrightarrow> r \<in> set rs \<Longrightarrow> char_count (reason_message r) \<le> EXCERPT_MAX_CHARS"
  by (induction ls arbitrary: rs) (auto simp: on_return_Returns event_line_bound split: option.splits)

lemma rate_limit_message: "is_rate_limit r \<Longrightarrow> reason_message r = []"
  by (cases r) auto

lemma substring_bound:
  "substring_reason env blob = Returns r \<Longrightarrow> char_count (reason_message r) \<le> EXCERPT_MAX_CHARS"
  by (auto simp: substring_reason_def on_return_Returns or_opt_def match_context_exceeded_def match_invalid_argument_def
      match_network_def match_auth_def Let_def excerpt_bound rate_limit_message dest!: match_rate_limit_shape
      split: option.splits if_splits)

text \<open>What the classification does, once the lines are read.\<close>

definition classify_read :: "Outer \<Rightarrow> string \<Rightarrow> FailureReason list \<Rightarrow> FailureReason outcome" where
  "classify_read env blob rs =
     (if AuthFailure \<in> set rs then Returns AuthFailure
      else if ContextExceeded \<in> set rs then Returns ContextExceeded
      else case find is_rate_limit rs of
             Some reason \<Rightarrow>
               if match_auth blob \<noteq> None then Returns AuthFailure
               else if reason = RateLimit None
               then on_return (match_rate_limit env blob) (\<lambda>m.
                      Returns (case m of Some banner \<Rightarrow> banner | None \<Rightarrow> reason))
               else Returns reason
           | None \<Rightarrow>
               (case rs of
                  reason # _ \<Rightarrow> Returns (if match_auth blob \<noteq> None then AuthFailure else reason)
                | [] \<Rightarrow> substring_reason env blob))"

lemma classify_via: "classify env blob = on_return (collect_reasons env (str_lines blob)) (classify_read env blob)"
  by (simp add: classify_def classify_read_def [abs_def])

lemma match_auth_AuthFailure: "match_auth blob = Some r \<Longrightarrow> r = AuthFailure"
  by (auto simp: match_auth_def Let_def split: if_splits)

lemma substring_auth: "match_auth blob \<noteq> None \<Longrightarrow> substring_reason env blob = Returns AuthFailure"
  by (auto simp: substring_reason_def dest: match_auth_AuthFailure)

lemma classify_read_auth:
  "AuthFailure \<in> set rs \<or> (match_auth blob \<noteq> None \<and> ContextExceeded \<notin> set rs) \<Longrightarrow>
     classify_read env blob rs = Returns AuthFailure"
  by (auto simp: classify_read_def substring_auth split: option.split list.split)

lemma classify_read_context:
  "AuthFailure \<notin> set rs \<Longrightarrow> ContextExceeded \<in> set rs \<Longrightarrow> classify_read env blob rs = Returns ContextExceeded"
  by (simp add: classify_read_def)

lemma find_rate_limit: "find is_rate_limit rs = Some r \<Longrightarrow> r \<in> set rs \<and> is_rate_limit r"
  by (auto simp: find_Some_iff)

text \<open>The structured reasons are those of the lines, in the order of the lines.\<close>

lemma collect_reasons_lines:
  "map (classify_event_line env) ls = map Returns ros \<Longrightarrow> collect_reasons env ls = Returns [r. Some r \<leftarrow> ros]"
proof (induction ls arbitrary: ros)
  case (Cons l ls)
  then obtain ro ros' where "ros = ro # ros'" by (cases ros) auto
  with Cons show ?case by (cases ro) auto
qed simp

text \<open>What the textual stages look for, marker by marker.\<close>

definition says_auth :: "string \<Rightarrow> bool" where
  "says_auth blob \<longleftrightarrow> contains_str blob ''invalid_api_key'' \<or>
     contains_str blob ''401'' \<and> (contains_str blob ''Unauthorized'' \<or> contains_str blob ''Authentication'')"

definition says_limit :: "string \<Rightarrow> bool" where
  "says_limit blob \<longleftrightarrow> (\<exists>m \<in> {''You'' @ [CHR 0x27] @ ''ve hit your limit'', ''rate_limit_exceeded'', ''rate limit exceeded'',
     ''usage limit reached''}. contains_str blob m)"

definition says_context :: "string \<Rightarrow> bool" where
  "says_context blob \<longleftrightarrow> contains_str blob ''context_length_exceeded'' \<or> contains_str blob ''prompt is too long''"

definition says_network :: "string \<Rightarrow> bool" where
  "says_network blob \<longleftrightarrow> (\<exists>m \<in> {''ENOTFOUND'', ''ETIMEDOUT'', ''ECONNRESET'', ''ECONNREFUSED'', ''EAI_AGAIN'',
     ''getaddrinfo'', ''socket hang up'', ''network error''}. contains_str blob m)"

lemma match_auth_says: "match_auth blob = (if says_auth blob then Some AuthFailure else None)"
  by (auto simp: match_auth_def says_auth_def Let_def)

lemma match_context_says: "match_context_exceeded blob = (if says_context blob then Some ContextExceeded else None)"
  by (simp add: match_context_exceeded_def says_context_def)

lemma match_network_says:
  "match_network env blob = (if says_network blob then Some (NetworkError (excerpt (json env) blob)) else None)"
  by (simp add: match_network_def says_network_def network_markers_def)

lemma rate_limit_hit_says: "rate_limit_hit blob \<longleftrightarrow> says_limit blob"
  by (auto simp: rate_limit_hit_def says_limit_def)

lemma match_rate_limit_returns:
  "match_rate_limit env blob = Returns m \<Longrightarrow>
     if says_limit blob then \<exists>t. reset_time env blob = Returns t \<and> m = Some (RateLimit t) else m = None"
  by (auto simp: match_rate_limit_def rate_limit_hit_says on_return_Returns split: if_splits)

text \<open>The textual stages, each reached when the earlier ones found nothing.\<close>

lemma substring_stages:
  assumes "substring_reason env blob = Returns q"
  shows "if says_auth blob then q = AuthFailure
         else if says_limit blob then \<exists>t. reset_time env blob = Returns t \<and> q = RateLimit t
         else if says_context blob then q = ContextExceeded
         else if contains_str blob ''invalid_request_error'' then q = InvalidArgument (excerpt (json env) blob)
         else if says_network blob then q = NetworkError (excerpt (json env) blob)
         else q = UnknownFailure (excerpt (json env) blob)"
  using assms
  by (auto simp: substring_reason_def match_auth_says match_context_says match_network_says match_invalid_argument_def
      on_return_Returns or_opt_def dest!: match_rate_limit_returns split: if_splits option.splits)

lemma find_first_rate:
  "find is_rate_limit rs = Some r \<longleftrightarrow>
     (\<exists>before t after. rs = before @ RateLimit t # after \<and> r = RateLimit t \<and> (\<forall>x \<in> set before. \<not> is_rate_limit x))"
proof
  assume "find is_rate_limit rs = Some r"
  then obtain i where i: "i < length rs" "is_rate_limit (rs ! i)" "r = rs ! i" "\<forall>j < i. \<not> is_rate_limit (rs ! j)"
    by (auto simp: find_Some_iff)
  moreover have "\<forall>x \<in> set (take i rs). \<not> is_rate_limit x"
    using i by (auto simp: in_set_conv_nth)
  ultimately show "\<exists>before t after. rs = before @ RateLimit t # after \<and> r = RateLimit t \<and>
      (\<forall>x \<in> set before. \<not> is_rate_limit x)"
    by (metis id_take_nth_drop is_rate_limit.elims(2))
next
  assume "\<exists>before t after. rs = before @ RateLimit t # after \<and> r = RateLimit t \<and> (\<forall>x \<in> set before. \<not> is_rate_limit x)"
  then obtain before t after where rs: "rs = before @ RateLimit t # after" "r = RateLimit t"
    "\<forall>x \<in> set before. \<not> is_rate_limit x" by blast
  then have "find is_rate_limit before = None" by (simp add: find_None_iff)
  then show "find is_rate_limit rs = Some r" using rs by (induction before arbitrary: rs) (auto split: if_splits)
qed

text \<open>A rate limit of the events without a time takes the time of the banner, when there is a banner.\<close>

lemma classify_read_limit:
  assumes "AuthFailure \<notin> set rs" "ContextExceeded \<notin> set rs" "\<not> says_auth blob"
    and "rs = before @ RateLimit t # after" "\<forall>x \<in> set before. \<not> is_rate_limit x"
    and "classify_read env blob rs = Returns q"
  shows "if t = None \<and> says_limit blob then \<exists>u. reset_time env blob = Returns u \<and> q = RateLimit u else q = RateLimit t"
proof -
  have "find is_rate_limit rs = Some (RateLimit t)" using assms(4,5) find_first_rate by blast
  with assms(1-3,6) show ?thesis
    by (auto simp: classify_read_def match_auth_says on_return_Returns dest!: match_rate_limit_returns split: if_splits)
qed

text \<open>
  C17: The exact order of the reasons, for every log on which the classification returns. The structured reasons
  of the log are those of its JSON lines, in order. A structured authentication failure comes first; then a
  structured context overflow, even over a textual authentication marker; then the textual authentication
  markers; then the first structured rate limit, which takes the reset time of the banner when it has none of
  its own and there is a banner; then the first structured reason. Only a log without structured reasons goes
  through the textual stages: authentication, rate limit with its reset time, context overflow, invalid request,
  network, unknown. Whatever message a reason carries has at most 240 characters.
\<close>

theorem classify_priority:
  assumes "map (classify_event_line env) (str_lines blob) = map Returns ros" "rs = [r. Some r \<leftarrow> ros]"
    and "classify env blob = Returns q"
  shows "(if AuthFailure \<in> set rs then q = AuthFailure
          else if ContextExceeded \<in> set rs then q = ContextExceeded
          else if says_auth blob then q = AuthFailure
          else (\<forall>before t after. rs = before @ RateLimit t # after \<and> (\<forall>x \<in> set before. \<not> is_rate_limit x) \<longrightarrow>
                  (if t = None \<and> says_limit blob then \<exists>u. reset_time env blob = Returns u \<and> q = RateLimit u
                   else q = RateLimit t)) \<and>
               ((\<forall>x \<in> set rs. \<not> is_rate_limit x) \<and> rs \<noteq> [] \<longrightarrow> q = hd rs) \<and>
               (rs = [] \<longrightarrow>
                  (if says_limit blob then \<exists>t. reset_time env blob = Returns t \<and> q = RateLimit t
                   else if says_context blob then q = ContextExceeded
                   else if contains_str blob ''invalid_request_error'' then q = InvalidArgument (excerpt (json env) blob)
                   else if says_network blob then q = NetworkError (excerpt (json env) blob)
                   else q = UnknownFailure (excerpt (json env) blob)))) \<and>
         char_count (reason_message q) \<le> EXCERPT_MAX_CHARS"
proof
  have collected: "collect_reasons env (str_lines blob) = Returns rs"
    using collect_reasons_lines [OF assms(1)] assms(2) by simp
  then have q: "classify_read env blob rs = Returns q" using assms(3) by (simp add: classify_via)
  show "char_count (reason_message q) \<le> EXCERPT_MAX_CHARS"
    using q collect_reasons_bound [OF collected] substring_bound [of env blob q]
    by (auto simp: classify_read_def on_return_Returns rate_limit_message
        dest!: find_rate_limit match_rate_limit_shape split: if_splits option.splits list.splits)
  consider (auth) "AuthFailure \<in> set rs \<or> ContextExceeded \<in> set rs \<or> says_auth blob"
    | (read) "AuthFailure \<notin> set rs" "ContextExceeded \<notin> set rs" "\<not> says_auth blob" by blast
  then show "if AuthFailure \<in> set rs then q = AuthFailure
          else if ContextExceeded \<in> set rs then q = ContextExceeded
          else if says_auth blob then q = AuthFailure
          else (\<forall>before t after. rs = before @ RateLimit t # after \<and> (\<forall>x \<in> set before. \<not> is_rate_limit x) \<longrightarrow>
                  (if t = None \<and> says_limit blob then \<exists>u. reset_time env blob = Returns u \<and> q = RateLimit u
                   else q = RateLimit t)) \<and>
               ((\<forall>x \<in> set rs. \<not> is_rate_limit x) \<and> rs \<noteq> [] \<longrightarrow> q = hd rs) \<and>
               (rs = [] \<longrightarrow>
                  (if says_limit blob then \<exists>t. reset_time env blob = Returns t \<and> q = RateLimit t
                   else if says_context blob then q = ContextExceeded
                   else if contains_str blob ''invalid_request_error'' then q = InvalidArgument (excerpt (json env) blob)
                   else if says_network blob then q = NetworkError (excerpt (json env) blob)
                   else q = UnknownFailure (excerpt (json env) blob)))"
  proof cases
    case auth
    then show ?thesis
      using q classify_read_auth [of rs blob env] classify_read_context [of rs env blob]
      by (auto simp: match_auth_says)
  next
    case read
    have "q = hd rs" if "\<forall>x \<in> set rs. \<not> is_rate_limit x" "rs \<noteq> []"
    proof -
      have "find is_rate_limit rs = None" using that(1) by (simp add: find_None_iff)
      with that(2) read q show ?thesis by (cases rs) (auto simp: classify_read_def match_auth_says)
    qed
    moreover have "substring_reason env blob = Returns q" if "rs = []"
      using that q by (simp add: classify_read_def)
    moreover note limit = classify_read_limit [OF read _ _ q]
    moreover have "if says_limit blob then \<exists>t. reset_time env blob = Returns t \<and> q = RateLimit t
        else if says_context blob then q = ContextExceeded
        else if contains_str blob ''invalid_request_error'' then q = InvalidArgument (excerpt (json env) blob)
        else if says_network blob then q = NetworkError (excerpt (json env) blob)
        else q = UnknownFailure (excerpt (json env) blob)" if "rs = []"
      using substring_stages [OF calculation(2) [OF that]] read(3) by simp
    ultimately show ?thesis unfolding if_not_P [OF read(1)] if_not_P [OF read(2)] if_not_P [OF read(3)] by blast
  qed
qed

text \<open>A calendar and a parser for the examples: one year of 365 days and one April day per year.\<close>

definition day_ns :: int where
  "day_ns = 24 * 60 * minute_ns"

definition april_23 :: "int \<Rightarrow> nat \<Rightarrow> nat \<Rightarrow> int option" where
  "april_23 year month day =
     (if month = 4 \<and> day = 23 then Some ((365 * (year - 2026) + 112) * day_ns) else None)"

definition plain_env :: Outer where
  "plain_env = \<lparr>ymd = april_23, current_year = 2026, current_time = 112 * day_ns + 16 * 60 * minute_ns,
     json = (\<lambda>s. None), warn_enabled = True\<rparr>"

definition limit_banner :: string where
  "limit_banner = ''You'' @ [CHR 0x27] @ ''ve hit your limit '' @ [CHR 0xC2, CHR 0xB7] @ '' resets Apr 23, 3pm''"

theorem classify_priority_witness:
  "classify plain_env (limit_banner @ '' invalid_api_key'') = Returns AuthFailure"
proof -
  let ?blob = "limit_banner @ '' invalid_api_key''"
  have ros: "map (classify_event_line plain_env) (str_lines ?blob) = map Returns [None]" by code_simp
  have m: "says_auth ?blob" by code_simp
  then obtain q where q: "classify plain_env ?blob = Returns q"
    using collect_reasons_lines [OF ros] by (simp add: classify_def substring_auth match_auth_says)
  moreover have "q = AuthFailure" using classify_priority [OF ros refl q] m by simp
  ultimately show ?thesis by simp
qed

section \<open>Reset times\<close>

lemma parse_reset_panics_iff:
  "parse_reset_timestamp cal year now blob = Panics \<longleftrightarrow>
     (\<exists>idx. find_any [''resets ''] blob = Some idx \<and> find_any stop_chars (drop (idx + 7) blob) = None \<and>
            40 < length (drop (idx + 7) blob) \<and> is_continuation (drop (idx + 7) blob ! 40))"
  (is "?l \<longleftrightarrow> ?r")
proof (cases "find_any [''resets ''] blob")
  case (Some idx)
  have boundary: "is_char_boundary s n" if "find_any stop_chars s = Some n" for s n
  proof -
    have "list_ex (starts_with (drop n s)) stop_chars"
      using that by (auto simp: find_any_def find_Some_iff simp del: upt_Suc)
    then obtain c r where c: "drop n s = c # r" "c = CHR 0x0A \<or> c = CHR 0xC2 \<or> c = CHR ''|''"
      by (auto simp: stop_chars_def starts_with_iff)
    then have "n < length s" by (cases "n < length s") auto
    with c have "n < length s \<and> \<not> is_continuation (s ! n)"
      using hd_drop_conv_nth [of n s] by (auto simp: is_continuation_def)
    then show ?thesis by (simp add: is_char_boundary_def)
  qed
  show ?thesis
    using Some boundary [of "drop (idx + 7) blob"]
    by (auto simp: parse_reset_timestamp_def Let_def slice_to_def is_char_boundary_def min_def
        split: option.splits if_splits)
qed (simp add: parse_reset_timestamp_def)

lemma collect_panics: "l \<in> set ls \<Longrightarrow> classify_event_line env l = Panics \<Longrightarrow> collect_reasons env ls = Panics"
proof (induction ls)
  case (Cons x xs)
  show ?case
  proof (cases "l = x")
    case False
    with Cons have "collect_reasons env xs = Panics" by simp
    then show ?thesis by (cases "classify_event_line env x") auto
  qed (use Cons in simp)
qed simp

lemma classify_panics: "l \<in> set (str_lines blob) \<Longrightarrow> classify_event_line env l = Panics \<Longrightarrow> classify env blob = Panics"
  by (simp add: classify_def collect_panics)

text \<open>
  The reset time is read from a prefix of forty bytes, cut without regard for characters. A structured
  rate-limit event whose message has its fortieth byte after \<^verbatim>\<open>resets\<close> inside a character, and no line
  break, middle dot or bar after it, makes the classification of the whole log panic; nothing is recorded
  for the session that wrote it.
\<close>

theorem reset_message_panics:
  assumes "line \<in> set (str_lines blob)" "starts_with (trim line) ''{''" "json env (trim line) = Some v"
    and "json_get ''error'' v = Some e" "json_get ''type'' e = Some (JStr ''rate_limit_exceeded'')"
    and "json_get ''message'' e = Some (JStr (before @ ''resets '' @ rest))"
    and "find_any [''resets ''] (before @ ''resets '' @ rest) = Some (length before)"
    and "find_any stop_chars rest = None" "40 < length rest" "is_continuation (rest ! 40)"
  shows "classify env blob = Panics"
proof (rule classify_panics [OF assms(1)])
  have "reset_time env (before @ ''resets '' @ rest) = Panics"
    using assms(7-) by (auto simp: parse_reset_panics_iff)
  then show "classify_event_line env line = Panics"
    using assms(2-6) by (simp add: classify_event_line_def Let_def or_opt_def as_str_def)
qed

definition long_reset :: string where
  "long_reset = ''7pm (America/New_York), then try again'' @ ellipsis"

definition reset_event :: Json where
  "reset_event = JObj [(''type'', JStr ''error''), (''error'', JObj [(''type'', JStr ''rate_limit_exceeded''),
     (''message'', JStr (''limit reached, resets '' @ long_reset))])]"

theorem reset_message_panics_witness:
  "classify (plain_env\<lparr>json := (\<lambda>s. if s = ''{event}'' then Some reset_event else None)\<rparr>) ''{event}'' = Panics"
proof (rule reset_message_panics)
  show "''{event}'' \<in> set (str_lines ''{event}'')" by code_simp
  show "starts_with (trim ''{event}'') ''{''" by code_simp
  have "trim ''{event}'' = ''{event}''" by code_simp
  then show "json (plain_env\<lparr>json := (\<lambda>s. if s = ''{event}'' then Some reset_event else None)\<rparr>) (trim ''{event}'') =
      Some reset_event" by simp
  show "json_get ''error'' reset_event = Some (JObj [(''type'', JStr ''rate_limit_exceeded''),
     (''message'', JStr (''limit reached, resets '' @ long_reset))])"
    by (simp add: reset_event_def json_get_def)
  show "json_get ''type'' (JObj [(''type'', JStr ''rate_limit_exceeded''),
     (''message'', JStr (''limit reached, resets '' @ long_reset))]) = Some (JStr ''rate_limit_exceeded'')"
    by (simp add: json_get_def)
  show "json_get ''message'' (JObj [(''type'', JStr ''rate_limit_exceeded''),
     (''message'', JStr (''limit reached, resets '' @ long_reset))]) =
     Some (JStr (''limit reached, '' @ ''resets '' @ long_reset))"
    by (simp add: json_get_def)
  show "find_any [''resets ''] (''limit reached, '' @ ''resets '' @ long_reset) = Some (length ''limit reached, '')"
    by code_simp
  show "find_any stop_chars long_reset = None" by code_simp
  show "40 < length long_reset" by code_simp
  show "is_continuation (long_reset ! 40)" by code_simp
qed

text \<open>
  A reset time carries neither year nor zone and is read as of the current year in UTC; one that lies in
  the past is taken for next year's. The banner of a limit that resets at three o'clock local time, read
  when it is past three in UTC, therefore shuts the spawn gate until the same date of the next year, and
  not for the few hours the time zones differ by.
\<close>

lemma banner_reset:
  "ymd env (current_year env) 4 23 = Some t \<Longrightarrow> ymd env (current_year env + 1) 4 23 = Some t' \<Longrightarrow>
   t + 900 * minute_ns < current_time env \<Longrightarrow> reset_time env limit_banner = Returns (Some (t' + 900 * minute_ns))"
proof -
  assume a: "ymd env (current_year env) 4 23 = Some t" "ymd env (current_year env + 1) 4 23 = Some t'"
    "t + 900 * minute_ns < current_time env"
  have idx: "find_any [''resets ''] limit_banner = Some 25" by code_simp
  have rest: "drop (25 + 7) limit_banner = ''Apr 23, 3pm''" by code_simp
  have stop: "find_any stop_chars ''Apr 23, 3pm'' = None" by code_simp
  have cut: "slice_to ''Apr 23, 3pm'' (min (length ''Apr 23, 3pm'') 40) = Returns ''Apr 23, 3pm''" by code_simp
  have "trim_end_matches ''.,'' (trim ''Apr 23, 3pm'') = ''Apr 23, 3pm''" by code_simp
  moreover have "split_whitespace ''Apr 23, 3pm'' = [''Apr'', ''23,'', ''3pm'']" by code_simp
  moreover have "month_from_abbrev ''Apr'' = Some 4" by code_simp
  moreover have "parse_u32 (trim_end_matches '','' ''23,'') = Some 23"
    by (simp add: parse_u32_def trim_end_matches_def digit_val_def)
  moreover have "parse_12h_time ''3pm'' = Some 900"
    by (simp add: parse_12h_time_def parse_u32_def digit_val_def strip_suffix_def to_ascii_lowercase_def ascii_lower_def Let_def)
  ultimately show ?thesis
    using a idx rest stop cut
    by (simp add: parse_reset_timestamp_def Let_def reset_from_candidate_def)
qed

theorem stale_reset_gates_a_year:
  assumes "ymd env (current_year env) 4 23 = Some t" "ymd env (current_year env + 1) 4 23 = Some t'"
    and "t + 365 * day_ns \<le> t'" "t + 15 * 60 * minute_ns < current_time env" "auth_failure h = None"
  shows "classify env limit_banner = Returns (RateLimit (Some (t' + 15 * 60 * minute_ns))) \<and>
         (\<forall>u < t + 365 * day_ns + 15 * 60 * minute_ns.
            check_can_spawn u (health_record (RateLimit (Some (t' + 15 * 60 * minute_ns))) (current_time env) h) =
              Inl (GateRateLimited (t' + 15 * 60 * minute_ns)))"
proof
  have reset: "reset_time env limit_banner = Returns (Some (t' + 900 * minute_ns))"
    using assms(1,2,4) by (intro banner_reset) auto
  have lines: "str_lines limit_banner = [limit_banner]" by code_simp
  have "\<not> starts_with (trim limit_banner) ''{''" by code_simp
  then have rs: "collect_reasons env (str_lines limit_banner) = Returns []"
    by (simp add: lines classify_event_line_def Let_def)
  have "match_auth limit_banner = None" by code_simp
  moreover have "rate_limit_hit limit_banner" by code_simp
  ultimately show "classify env limit_banner = Returns (RateLimit (Some (t' + 15 * 60 * minute_ns)))"
    using rs reset by (simp add: classify_def substring_reason_def match_rate_limit_def or_opt_def)
  show "\<forall>u < t + 365 * day_ns + 15 * 60 * minute_ns.
      check_can_spawn u (health_record (RateLimit (Some (t' + 15 * 60 * minute_ns))) (current_time env) h) =
        Inl (GateRateLimited (t' + 15 * 60 * minute_ns))"
    using assms(3,5) by (auto simp: check_can_spawn_def health_record_def Let_def)
qed

theorem stale_reset_gates_a_year_witness:
  "\<forall>u < (365 + 112) * day_ns + 15 * 60 * minute_ns.
     check_can_spawn u (health_record (RateLimit (Some ((365 + 112) * day_ns + 15 * 60 * minute_ns)))
       (current_time plain_env) \<lparr>rate_limit = None, auth_failure = None\<rparr>) =
       Inl (GateRateLimited ((365 + 112) * day_ns + 15 * 60 * minute_ns))"
proof -
  have "t' = (365 + 112) * day_ns \<Longrightarrow> 112 * day_ns + 365 * day_ns \<le> t'" for t' by simp
  then show ?thesis
    using stale_reset_gates_a_year [of plain_env "112 * day_ns" "(365 + 112) * day_ns" "\<lparr>rate_limit = None, auth_failure = None\<rparr>"]
    by (simp add: plain_env_def april_23_def minute_ns_def ns_per_sec_def)
qed

end
