(* ===== verification/Session_Stream.thy ===== *)
theory Session_Stream
  imports Failure_Classify Sublead
begin

text \<open>
  One session of a spawned process (\<^verbatim>\<open>pitboss-core/src/parser\<close>, \<^verbatim>\<open>session/handle.rs\<close>): the parser
  of its stream-json output, the accumulator the reader task fills line by line, and
  \<^verbatim>\<open>run_to_completion\<close>, whose waits and races are inputs: what the spawner, the exit of the child, the
  cancel token and the timeout gave. The JSON parser and printer are libraries and are arguments; a line is
  the bytes between two newlines.
\<close>

section \<open>Valid text\<close>

function valid_utf8 :: "string \<Rightarrow> bool" where
  "valid_utf8 s =
     (if s = [] then True else let (ok, n) = utf8_piece s in ok \<and> valid_utf8 (drop n s))"
  by pat_completeness auto
termination
proof (relation "measure length", goal_cases)
  case (2 s x ok n)
  then have "0 < n" using utf8_piece_pos [of s] by (metis snd_conv)
  with 2 show ?case by simp
qed simp

declare valid_utf8.simps [simp del]

section \<open>Events\<close>

text \<open>JSON as the parser looks at it: any other value, null included, is kept as its text.\<close>

datatype Value =
    VStr string
  | VU64 u64
  | VArr "Value list"
  | VObj "(string \<times> Value) list"
  | VOther string

fun val_get :: "string \<Rightarrow> Value \<Rightarrow> Value option" where
  "val_get k (VObj m) = map_of m k"
| "val_get k _ = None"

fun val_str :: "Value \<Rightarrow> string option" where
  "val_str (VStr s) = Some s"
| "val_str _ = None"

fun val_u64 :: "Value \<Rightarrow> u64 option" where
  "val_u64 (VU64 n) = Some n"
| "val_u64 _ = None"

fun val_array :: "Value \<Rightarrow> Value list option" where
  "val_array (VArr vs) = Some vs"
| "val_array _ = None"

definition str_field :: "Value \<Rightarrow> string \<Rightarrow> string option" where
  "str_field v k = Option.bind (val_get k v) val_str"

definition u64_field :: "Value \<Rightarrow> string \<Rightarrow> u64" where
  "u64_field v k = (case Option.bind (val_get k v) val_u64 of Some n \<Rightarrow> n | None \<Rightarrow> 0)"

definition or_empty :: "string option \<Rightarrow> string" where
  "or_empty x = (case x of Some s \<Rightarrow> s | None \<Rightarrow> [])"

datatype Event =
    EvSystem "string option" "string option"
  | EvAssistantText string
  | EvAssistantToolUse string string
  | EvAssistantThinking string
  | EvToolResult string
  | EvAssistantUsage TokenUsage
  | EvResult "string option" string "string option" TokenUsage
  | EvRateLimit string "string option" "u64 option"
  | EvUnknown string

datatype ParseError = Malformed string string

definition read_usage :: "Value \<Rightarrow> TokenUsage" where
  "read_usage v =
     \<lparr>tu_input = u64_field v ''input_tokens'', tu_output = u64_field v ''output_tokens'',
      tu_cache_read = u64_field v ''cache_read_input_tokens'',
      tu_cache_creation = u64_field v ''cache_creation_input_tokens''\<rparr>"

section \<open>The parser\<close>

definition block_event :: "(Value \<Rightarrow> string) \<Rightarrow> Value \<Rightarrow> Event list" where
  "block_event print block =
     (let btype = or_empty (str_field block ''type'') in
      if btype = ''text''
      then (case str_field block ''text'' of Some t \<Rightarrow> [EvAssistantText t] | None \<Rightarrow> [])
      else if btype = ''tool_use''
      then [EvAssistantToolUse (or_empty (str_field block ''name''))
              (case val_get ''input'' block of Some i \<Rightarrow> print i | None \<Rightarrow> [])]
      else if btype = ''thinking'' then [EvAssistantThinking (or_empty (str_field block ''thinking''))]
      else [])"

definition message_content :: "Value \<Rightarrow> Value list option" where
  "message_content v = Option.bind (Option.bind (val_get ''message'' v) (val_get ''content'')) val_array"

definition parse_assistant :: "(Value \<Rightarrow> string) \<Rightarrow> Value \<Rightarrow> string \<Rightarrow> ParseError + Event list" where
  "parse_assistant print v raw =
     (case message_content v of
        None \<Rightarrow> Inl (Malformed ''assistant missing message.content'' raw)
      | Some content \<Rightarrow>
          (let events = concat (map (block_event print) content) @
                 (case Option.bind (val_get ''message'' v) (val_get ''usage'') of
                    Some u \<Rightarrow> [EvAssistantUsage (read_usage u)] | None \<Rightarrow> [])
           in if events = []
              then Inl (Malformed ''assistant content had no text, tool_use, or thinking block (and no message.usage)'' raw)
              else Inr events))"

definition parse_user :: "(Value \<Rightarrow> string) \<Rightarrow> Value \<Rightarrow> string \<Rightarrow> ParseError + Event" where
  "parse_user print v raw =
     (case message_content v of
        None \<Rightarrow> Inl (Malformed ''user missing message.content'' raw)
      | Some content \<Rightarrow>
          (case find (\<lambda>b. str_field b ''type'' = Some ''tool_result'') content of
             Some block \<Rightarrow>
               (let c = (case val_get ''content'' block of Some c \<Rightarrow> c | None \<Rightarrow> VOther ''null'')
                in Inr (EvToolResult (case c of VStr s \<Rightarrow> s | _ \<Rightarrow> print c)))
           | None \<Rightarrow> Inl (Malformed ''user content had no tool_result'' raw)))"

definition parse_result :: "Value \<Rightarrow> string \<Rightarrow> ParseError + Event" where
  "parse_result v raw =
     (case str_field v ''session_id'' of
        None \<Rightarrow> Inl (Malformed ''result missing session_id'' raw)
      | Some sid \<Rightarrow>
          (case val_get ''usage'' v of
             None \<Rightarrow> Inl (Malformed ''result missing usage'' raw)
           | Some u \<Rightarrow> Inr (EvResult (str_field v ''subtype'') sid (str_field v ''result'') (read_usage u))))"

definition parse_rate_limit :: "Value \<Rightarrow> Event" where
  "parse_rate_limit v =
     (let info = val_get ''rate_limit_info'' v
      in EvRateLimit (case Option.bind info (\<lambda>i. str_field i ''status'') of Some s \<Rightarrow> s | None \<Rightarrow> ''unknown'')
           (Option.bind info (\<lambda>i. str_field i ''rateLimitType''))
           (Option.bind info (\<lambda>i. Option.bind (val_get ''resetsAt'' i) val_u64)))"

definition parse_line_all ::
  "(string \<Rightarrow> string + Value) \<Rightarrow> (Value \<Rightarrow> string) \<Rightarrow> string \<Rightarrow> ParseError + Event list" where
  "parse_line_all from_str print bytes =
     (if \<not> valid_utf8 bytes then Inl (Malformed ''non-utf8 line'' (from_utf8_lossy bytes))
      else let raw = trim_end_matches [CHR 0x0A, CHR 0x0D] bytes in
           if raw = [] then Inl (Malformed ''empty line'' raw)
           else case from_str raw of
                  Inl e \<Rightarrow> Inl (Malformed (''json parse: '' @ e) raw)
                | Inr v \<Rightarrow>
                    (let ty = str_field v ''type'' in
                     if ty = Some ''system''
                     then Inr [EvSystem (str_field v ''subtype'') (str_field v ''session_id'')]
                     else if ty = Some ''assistant'' then parse_assistant print v raw
                     else if ty = Some ''user'' then map_sum id (\<lambda>e. [e]) (parse_user print v raw)
                     else if ty = Some ''result'' then map_sum id (\<lambda>e. [e]) (parse_result v raw)
                     else if ty = Some ''rate_limit_event'' then Inr [parse_rate_limit v]
                     else Inr [EvUnknown raw]))"

section \<open>The reader task\<close>

record StreamAccum =
  sa_usage :: TokenUsage
  sa_session_id :: "string option"
  sa_last_text :: "string option"
  sa_saw_result :: bool
  sa_latest_assistant_usage :: "TokenUsage option"

definition empty_accum :: StreamAccum where
  "empty_accum = \<lparr>sa_usage = zero_usage, sa_session_id = None, sa_last_text = None, sa_saw_result = False,
     sa_latest_assistant_usage = None\<rparr>"

text \<open>The accumulator with what the task has sent: ids to the dispatcher, usages to the observer, lines to the log.\<close>

record StreamState =
  st_accum :: StreamAccum
  st_published :: bool
  st_sent :: "string list"
  st_observed :: "TokenUsage list"
  st_log :: string

definition start_stream :: StreamState where
  "start_stream = \<lparr>st_accum = empty_accum, st_published = False, st_sent = [], st_observed = [], st_log = []\<rparr>"

definition keep_longer :: "string option \<Rightarrow> string \<Rightarrow> string option" where
  "keep_longer current t =
     (if length (trim t) > (case current of Some c \<Rightarrow> length (trim c) | None \<Rightarrow> 0) then Some t else current)"

definition stream_event :: "Event \<Rightarrow> StreamState \<Rightarrow> StreamState" where
  "stream_event ev st =
     (let a = st_accum st in
      case ev of
        EvAssistantText t \<Rightarrow> st\<lparr>st_accum := a\<lparr>sa_last_text := keep_longer (sa_last_text a) t\<rparr>\<rparr>
      | EvSystem sub sid \<Rightarrow>
          (case sid of
             Some i \<Rightarrow>
               if sub = Some ''init'' \<and> \<not> st_published st
               then st\<lparr>st_sent := st_sent st @ [i], st_published := True\<rparr> else st
           | None \<Rightarrow> st)
      | EvAssistantUsage u \<Rightarrow>
          st\<lparr>st_accum := a\<lparr>sa_latest_assistant_usage := Some u\<rparr>, st_observed := st_observed st @ [u]\<rparr>
      | EvResult _ sid _ u \<Rightarrow>
          st\<lparr>st_sent := (if st_published st then st_sent st else st_sent st @ [sid]), st_published := True,
             st_accum := a\<lparr>sa_session_id := Some sid, sa_usage := usage_add (sa_usage a) u, sa_saw_result := True\<rparr>,
             st_observed := st_observed st @ [u]\<rparr>
      | _ \<Rightarrow> st)"

definition stream_line ::
  "(string \<Rightarrow> string + Value) \<Rightarrow> (Value \<Rightarrow> string) \<Rightarrow> string \<Rightarrow> StreamState \<Rightarrow> StreamState" where
  "stream_line from_str print line st =
     (let st = st\<lparr>st_log := st_log st @ line @ [CHR 0x0A]\<rparr>
      in case parse_line_all from_str print line of
           Inl _ \<Rightarrow> st
         | Inr evs \<Rightarrow> fold stream_event evs st)"

text \<open>\<^verbatim>\<open>next_line\<close> fails on a line that is not text, and the task returns on any failure.\<close>

fun stream_loop ::
  "(string \<Rightarrow> string + Value) \<Rightarrow> (Value \<Rightarrow> string) \<Rightarrow> string list \<Rightarrow> StreamState \<Rightarrow> StreamState" where
  "stream_loop from_str print [] st = st"
| "stream_loop from_str print (l # ls) st =
     (if valid_utf8 l then stream_loop from_str print ls (stream_line from_str print l st) else st)"

section \<open>Running a session\<close>

datatype ExitStatus = Exited_with int | Signalled

fun exit_code_of :: "ExitStatus \<Rightarrow> int option" where
  "exit_code_of (Exited_with c) = Some c"
| "exit_code_of Signalled = None"

datatype EndReason = Terminated_end | TimedOut_end | Exited_end "ExitStatus option"

text \<open>What the outside gave: a failed spawn, a child that had already exited, the winner of the race, the
  wait within the grace window (\<^term>\<open>None\<close> when it ran out, then the wait after the kill), the lines read
  before the drain ended, and the clock.\<close>

record ChildRun =
  cr_spawn_error :: "string option"
  cr_try_wait :: "ExitStatus option"
  cr_race :: EndReason
  cr_grace_wait :: "ExitStatus option option"
  cr_kill_wait :: "ExitStatus option"
  cr_lines :: "string list"
  cr_started :: int
  cr_ended :: int

definition end_reason :: "ChildRun \<Rightarrow> EndReason" where
  "end_reason r = (case cr_try_wait r of Some s \<Rightarrow> Exited_end (Some s) | None \<Rightarrow> cr_race r)"

definition exit_status :: "ChildRun \<Rightarrow> ExitStatus option" where
  "exit_status r =
     (case end_reason r of
        Exited_end s \<Rightarrow> s
      | _ \<Rightarrow> (case cr_grace_wait r of Some s \<Rightarrow> s | None \<Rightarrow> cr_kill_wait r))"

definition final_state_of :: "EndReason \<Rightarrow> int option \<Rightarrow> bool \<Rightarrow> (int \<Rightarrow> string) \<Rightarrow> SessionState" where
  "final_state_of reason code saw_result show_int =
     (case reason of
        TimedOut_end \<Rightarrow> SsTimedOut
      | Terminated_end \<Rightarrow> SsCancelled
      | Exited_end _ \<Rightarrow>
          (case code of
             Some c \<Rightarrow>
               if c = 0 \<and> saw_result then SsCompleted
               else if c \<noteq> 0 then SsFailed (''exit code '' @ show_int c)
               else SsFailed ''no result event''
           | None \<Rightarrow> SsFailed ''child did not exit cleanly''))"

definition truncate_preview :: "string \<Rightarrow> string" where
  "truncate_preview s = (if char_count s > 200 then take_chars 200 s @ ellipsis else s)"

definition run_to_completion ::
  "(string \<Rightarrow> string + Value) \<Rightarrow> (Value \<Rightarrow> string) \<Rightarrow> (int \<Rightarrow> string) \<Rightarrow> ChildRun \<Rightarrow> SessionOutcome" where
  "run_to_completion from_str print show_int r =
     (case cr_spawn_error r of
        Some e \<Rightarrow>
          \<lparr>so_final_state = SsSpawnFailed e, so_exit_code = None, so_token_usage = zero_usage,
           so_claude_session_id = None, so_final_message_preview = None, so_final_message = None,
           so_started_at = cr_started r, so_ended_at = cr_ended r\<rparr>
      | None \<Rightarrow>
          (let code = Option.bind (exit_status r) exit_code_of;
               a = st_accum (stream_loop from_str print (cr_lines r) start_stream)
           in \<lparr>so_final_state = final_state_of (end_reason r) code (sa_saw_result a) show_int,
               so_exit_code = code,
               so_token_usage = (if sa_saw_result a then sa_usage a
                                 else case sa_latest_assistant_usage a of Some u \<Rightarrow> u | None \<Rightarrow> zero_usage),
               so_claude_session_id = sa_session_id a,
               so_final_message_preview = map_option truncate_preview (sa_last_text a),
               so_final_message = sa_last_text a,
               so_started_at = cr_started r, so_ended_at = cr_ended r\<rparr>))"

end
