(* ===== verification/Session_Facts.thy ===== *)
theory Session_Facts
  imports Session_Stream
begin

text \<open>
  What a session reports, in terms of the events on its output: the fold of the reader task is resolved
  into one description per field, and the first line that is not text ends the reading.
\<close>

section \<open>The events of an output\<close>

definition line_events :: "(string \<Rightarrow> string + Value) \<Rightarrow> (Value \<Rightarrow> string) \<Rightarrow> string \<Rightarrow> Event list" where
  "line_events from_str print l = (case parse_line_all from_str print l of Inr evs \<Rightarrow> evs | Inl _ \<Rightarrow> [])"

definition events_of :: "(string \<Rightarrow> string + Value) \<Rightarrow> (Value \<Rightarrow> string) \<Rightarrow> string list \<Rightarrow> Event list" where
  "events_of from_str print ls = concat (map (line_events from_str print) (takeWhile valid_utf8 ls))"

fun event_results :: "Event list \<Rightarrow> (string \<times> TokenUsage) list" where
  "event_results [] = []"
| "event_results (EvResult sub sid t u # es) = (sid, u) # event_results es"
| "event_results (e # es) = event_results es"

fun event_usages :: "Event list \<Rightarrow> TokenUsage list" where
  "event_usages [] = []"
| "event_usages (EvAssistantUsage u # es) = u # event_usages es"
| "event_usages (e # es) = event_usages es"

fun event_texts :: "Event list \<Rightarrow> string list" where
  "event_texts [] = []"
| "event_texts (EvAssistantText t # es) = t # event_texts es"
| "event_texts (e # es) = event_texts es"

lemma stream_event_log: "stream_event e (st\<lparr>st_log := w\<rparr>) = (stream_event e st)\<lparr>st_log := w\<rparr>"
  by (simp add: stream_event_def Let_def split: Event.split option.split)

lemma fold_stream_event_log: "fold stream_event es (st\<lparr>st_log := w\<rparr>) = (fold stream_event es st)\<lparr>st_log := w\<rparr>"
  by (induction es arbitrary: st) (simp_all add: stream_event_log)

lemma stream_line_fold:
  "\<exists>w. stream_line from_str print l st = (fold stream_event (line_events from_str print l) st)\<lparr>st_log := w\<rparr>"
  by (auto simp: stream_line_def line_events_def Let_def fold_stream_event_log split: sum.splits)

lemma stream_loop_fold:
  "\<exists>w. stream_loop from_str print ls st = (fold stream_event (events_of from_str print ls) st)\<lparr>st_log := w\<rparr>"
proof (induction ls arbitrary: st)
  case Nil
  have "st = st\<lparr>st_log := st_log st\<rparr>" by simp
  then show ?case by (simp add: events_of_def) (metis StreamState.surjective StreamState.update_convs(5))
next
  case (Cons l ls)
  show ?case
  proof (cases "valid_utf8 l")
    case True
    obtain w where "stream_line from_str print l st = (fold stream_event (line_events from_str print l) st)\<lparr>st_log := w\<rparr>"
      using stream_line_fold by blast
    with True Cons [of "stream_line from_str print l st"] show ?thesis
      by (simp add: events_of_def fold_stream_event_log)
  next
    case False
    then show ?thesis by (simp add: events_of_def) (metis StreamState.surjective StreamState.update_convs(5))
  qed
qed

lemma fold_accum:
  "st_accum (fold stream_event es st) =
     \<lparr>sa_usage = fold (\<lambda>r u. usage_add u (snd r)) (event_results es) (sa_usage (st_accum st)),
      sa_session_id = (if event_results es = [] then sa_session_id (st_accum st) else Some (fst (last (event_results es)))),
      sa_last_text = fold (\<lambda>t c. keep_longer c t) (event_texts es) (sa_last_text (st_accum st)),
      sa_saw_result = (sa_saw_result (st_accum st) \<or> event_results es \<noteq> []),
      sa_latest_assistant_usage =
        (if event_usages es = [] then sa_latest_assistant_usage (st_accum st) else Some (last (event_usages es)))\<rparr>"
proof (induction es arbitrary: st)
  case (Cons e es)
  then show ?case
    by (cases e) (auto simp: stream_event_def Let_def split: option.splits)
qed simp

lemma stream_accum:
  "st_accum (stream_loop from_str print ls start_stream) =
     \<lparr>sa_usage = fold (\<lambda>r u. usage_add u (snd r)) (event_results (events_of from_str print ls)) zero_usage,
      sa_session_id = (let rs = event_results (events_of from_str print ls) in if rs = [] then None else Some (fst (last rs))),
      sa_last_text = fold (\<lambda>t c. keep_longer c t) (event_texts (events_of from_str print ls)) None,
      sa_saw_result = (event_results (events_of from_str print ls) \<noteq> []),
      sa_latest_assistant_usage =
        (let us = event_usages (events_of from_str print ls) in if us = [] then None else Some (last us))\<rparr>"
  using stream_loop_fold [of from_str print ls start_stream] fold_accum [of "events_of from_str print ls" start_stream]
  by (auto simp: start_stream_def empty_accum_def Let_def)

section \<open>The longest text\<close>

definition text_len :: "string option \<Rightarrow> nat" where
  "text_len c = (case c of Some t \<Rightarrow> length (trim t) | None \<Rightarrow> 0)"

lemma keep_longer_len: "text_len (keep_longer c t) = max (text_len c) (length (trim t))"
  by (auto simp: keep_longer_def text_len_def split: option.splits)

text \<open>The first of the texts of greatest length, where that length is not zero.\<close>

fun longest_len :: "string list \<Rightarrow> nat" where
  "longest_len [] = 0"
| "longest_len (t # ts) = max (length (trim t)) (longest_len ts)"

definition first_longest :: "string list \<Rightarrow> string option" where
  "first_longest ts =
     (if longest_len ts = 0 then None else find (\<lambda>t. length (trim t) = longest_len ts) ts)"

lemma fold_keep_longer:
  "fold (\<lambda>t c. keep_longer c t) ts c =
     (if longest_len ts \<le> text_len c then c else find (\<lambda>t. length (trim t) = longest_len ts) ts)"
proof (induction ts arbitrary: c)
  case (Cons t ts)
  then show ?case
    by (auto simp: keep_longer_len keep_longer_def text_len_def max_def split: if_splits option.splits)
qed simp

lemma fold_first_longest: "fold (\<lambda>t c. keep_longer c t) ts None = first_longest ts"
  by (simp add: fold_keep_longer first_longest_def text_len_def)

lemma longest_len_le: "t \<in> set ts \<Longrightarrow> length (trim t) \<le> longest_len ts"
  by (induction ts) (auto simp: max_def)

lemma first_longest_Some:
  "first_longest ts = Some t \<longleftrightarrow>
     (\<exists>us ws. ts = us @ t # ws \<and> 0 < length (trim t) \<and> (\<forall>u \<in> set us. length (trim u) < length (trim t)) \<and>
        (\<forall>w \<in> set ws. length (trim w) \<le> length (trim t)))" (is "?l \<longleftrightarrow> ?r")
proof
  assume ?l
  then have pos: "longest_len ts \<noteq> 0" and "find (\<lambda>t. length (trim t) = longest_len ts) ts = Some t"
    by (auto simp: first_longest_def split: if_splits)
  then obtain i where i: "i < length ts" "length (trim (ts ! i)) = longest_len ts" "t = ts ! i"
    "\<forall>j < i. length (trim (ts ! j)) \<noteq> longest_len ts"
    by (auto simp: find_Some_iff)
  have split: "ts = take i ts @ t # drop (Suc i) ts" using i by (simp add: id_take_nth_drop)
  moreover have "length (trim u) < length (trim t)" if "u \<in> set (take i ts)" for u
  proof -
    from that obtain j where "j < i" "u = ts ! j" by (auto simp: in_set_conv_nth)
    with i longest_len_le [of u ts] show ?thesis by (auto simp: order_less_le)
  qed
  moreover have "length (trim w) \<le> length (trim t)" if "w \<in> set (drop (Suc i) ts)" for w
    using that i longest_len_le [of w ts] by (auto dest: in_set_dropD)
  moreover have "0 < length (trim t)" using pos i by simp
  ultimately show ?r by blast
next
  assume ?r
  then obtain us ws where r: "ts = us @ t # ws" "0 < length (trim t)"
    "\<forall>u \<in> set us. length (trim u) < length (trim t)" "\<forall>w \<in> set ws. length (trim w) \<le> length (trim t)" by blast
  have bound: "longest_len xs \<le> n" if "\<forall>x \<in> set xs. length (trim x) \<le> n" for xs n
    using that by (induction xs) auto
  have "\<forall>x \<in> set ts. length (trim x) \<le> length (trim t)" using r by (auto simp: less_imp_le)
  then have "longest_len ts = length (trim t)"
    using bound [of ts "length (trim t)"] longest_len_le [of t ts] r(1) by (intro antisym) auto
  moreover have "find (\<lambda>x. length (trim x) = length (trim t)) (us @ t # ws) = Some t"
    using r(3) by (induction us) auto
  ultimately show ?l using r by (auto simp: first_longest_def)
qed

section \<open>What a session reports\<close>

text \<open>
  C16: A session is reported completed exactly when its process was started, ended on its own with code zero and
  its readable output holds a result event. Its usage is the saturating sum of its result events, and where
  it was cut short before any, the last usage an assistant message gave; its session id is the last
  result's; its message is the first of its longest texts.
\<close>

theorem session_outcome_spec:
  assumes "cr_spawn_error r = None" "evs = events_of from_str print (cr_lines r)"
  shows
    "(so_final_state (run_to_completion from_str print show_int r) = SsCompleted \<longleftrightarrow>
        end_reason r = Exited_end (Some (Exited_with 0)) \<and> event_results evs \<noteq> []) \<and>
     (so_final_state (run_to_completion from_str print show_int r) = SsCancelled \<longleftrightarrow> end_reason r = Terminated_end) \<and>
     (so_final_state (run_to_completion from_str print show_int r) = SsTimedOut \<longleftrightarrow> end_reason r = TimedOut_end) \<and>
     so_token_usage (run_to_completion from_str print show_int r) =
       (if event_results evs \<noteq> [] then fold (\<lambda>x u. usage_add u (snd x)) (event_results evs) zero_usage
        else if event_usages evs \<noteq> [] then last (event_usages evs) else zero_usage) \<and>
     so_claude_session_id (run_to_completion from_str print show_int r) =
       (if event_results evs = [] then None else Some (fst (last (event_results evs)))) \<and>
     so_final_message (run_to_completion from_str print show_int r) = first_longest (event_texts evs)"
proof -
  have code: "Option.bind x exit_code_of = Some 0 \<longleftrightarrow> x = Some (Exited_with 0)" for x
    by (cases x; auto elim: exit_code_of.elims)
  show ?thesis
    using assms code [of "exit_status r"]
    by (auto simp: run_to_completion_def stream_accum Let_def final_state_of_def fold_first_longest exit_status_def
        split: EndReason.splits option.splits if_splits)
qed

definition result_value :: Value where
  "result_value = VObj [(''type'', VStr ''result''), (''session_id'', VStr ''s1''),
     (''usage'', VObj [(''input_tokens'', VU64 7)])]"

definition small_json :: "string \<Rightarrow> string + Value" where
  "small_json l = (if l = ''R'' then Inr result_value else Inl ''expected value'')"

definition clean_run :: "string list \<Rightarrow> ChildRun" where
  "clean_run ls = \<lparr>cr_spawn_error = None, cr_try_wait = None, cr_race = Exited_end (Some (Exited_with 0)),
     cr_grace_wait = None, cr_kill_wait = None, cr_lines = ls, cr_started = 0, cr_ended = 1\<rparr>"

lemma result_line: "line_events small_json print ''R'' = [EvResult None ''s1'' None (read_usage (VObj [(''input_tokens'', VU64 7)]))]"
proof -
  have "valid_utf8 ''R''" by code_simp
  moreover have "trim_end_matches [CHR 0x0A, CHR 0x0D] ''R'' = ''R''" by code_simp
  ultimately show ?thesis
    by (simp add: line_events_def parse_line_all_def small_json_def result_value_def str_field_def parse_result_def Let_def)
qed

theorem session_outcome_spec_witness:
  "so_final_state (run_to_completion small_json (\<lambda>v. []) (\<lambda>i. []) (clean_run [''R''])) = SsCompleted"
proof -
  have "valid_utf8 ''R''" by code_simp
  then have "events_of small_json (\<lambda>v. []) (cr_lines (clean_run [''R''])) \<noteq> [] \<and>
      event_results (events_of small_json (\<lambda>v. []) (cr_lines (clean_run [''R'']))) \<noteq> []"
    by (simp add: events_of_def clean_run_def result_line)
  then show ?thesis
    using session_outcome_spec [OF _ refl, of "clean_run [''R'']" small_json "\<lambda>v. []" "\<lambda>i. []"]
    by (simp add: clean_run_def end_reason_def)
qed

text \<open>The dispatcher is told of a session id at most once.\<close>

lemma sent_once: "length (st_sent (stream_loop from_str print ls start_stream)) \<le> 1"
proof -
  have "length (st_sent (fold stream_event es st)) \<le> 1"
    if "if st_published st then length (st_sent st) \<le> 1 else st_sent st = []" for es st
    using that
  proof (induction es arbitrary: st)
    case (Cons e es)
    have "if st_published (stream_event e st) then length (st_sent (stream_event e st)) \<le> 1
          else st_sent (stream_event e st) = []"
      using Cons.prems by (cases e) (auto simp: stream_event_def Let_def split: option.splits if_splits)
    with Cons.IH show ?case by simp
  qed (auto split: if_splits)
  then show ?thesis
    using stream_loop_fold [of from_str print ls start_stream] by (auto simp: start_stream_def)
qed

text \<open>
  A line of the output that is not valid UTF-8 ends the reading: a session that goes on to print its result
  and exits with code zero is reported failed, without a session id to resume from, and nothing it printed
  after that line counts, neither text nor usage.
\<close>

theorem undecodable_line_drops_rest:
  assumes "\<not> valid_utf8 bad" "event_results (events_of from_str print before) = []"
    and "cr_spawn_error r = None" "end_reason r = Exited_end (Some (Exited_with 0))"
    and "cr_lines r = before @ bad # after"
  shows "so_final_state (run_to_completion from_str print show_int r) = SsFailed ''no result event'' \<and>
         so_claude_session_id (run_to_completion from_str print show_int r) = None \<and>
         run_to_completion from_str print show_int r = run_to_completion from_str print show_int (r\<lparr>cr_lines := before\<rparr>)"
proof -
  have loop: "stream_loop from_str print (before @ bad # after) st = stream_loop from_str print before st" for st
    using assms(1) by (induction before arbitrary: st) simp_all
  have same: "end_reason (r\<lparr>cr_lines := before\<rparr>) = end_reason r" "exit_status (r\<lparr>cr_lines := before\<rparr>) = exit_status r"
    by (simp_all add: end_reason_def exit_status_def split: option.split EndReason.split)
  have eq: "run_to_completion from_str print show_int r = run_to_completion from_str print show_int (r\<lparr>cr_lines := before\<rparr>)"
    using assms(3,5) loop by (simp add: run_to_completion_def same)
  have "so_final_state (run_to_completion from_str print show_int (r\<lparr>cr_lines := before\<rparr>)) = SsFailed ''no result event''"
    using assms(2-4) by (simp add: run_to_completion_def same final_state_of_def exit_status_def stream_accum Let_def)
  moreover have "so_claude_session_id (run_to_completion from_str print show_int (r\<lparr>cr_lines := before\<rparr>)) = None"
    using assms(2,3) by (simp add: run_to_completion_def stream_accum Let_def)
  ultimately show ?thesis using eq by simp
qed

theorem undecodable_line_drops_rest_witness:
  "so_final_state (run_to_completion small_json (\<lambda>v. []) (\<lambda>i. []) (clean_run [[CHR 0xE9], ''R''])) =
     SsFailed ''no result event''"
proof -
  have "\<not> valid_utf8 [CHR 0xE9]" by code_simp
  moreover have "event_results (events_of small_json (\<lambda>v. []) []) = []" by (simp add: events_of_def)
  moreover have "cr_spawn_error (clean_run ls) = None" "end_reason (clean_run ls) = Exited_end (Some (Exited_with 0))"
    "cr_lines (clean_run ls) = ls" for ls by (simp_all add: clean_run_def end_reason_def)
  ultimately show ?thesis
    using undecodable_line_drops_rest [of "[CHR 0xE9]" small_json "\<lambda>v. []" "[]" "clean_run [[CHR 0xE9], ''R'']" "[''R'']" "\<lambda>i. []"]
    by (metis append_Nil)
qed

end
