(* ===== verification/Spawn_Args.thy ===== *)
theory Spawn_Args
  imports Sublead Validate
begin

text \<open>
  The command lines of the spawned \<^verbatim>\<open>claude\<close> processes (\<^verbatim>\<open>dispatch/runner.rs\<close>:
  \<^verbatim>\<open>spawn_args\<close>, \<^verbatim>\<open>lead_spawn_args\<close>, \<^verbatim>\<open>lead_resume_spawn_args\<close>, \<^verbatim>\<open>sublead_spawn_args\<close>;
  \<^verbatim>\<open>mcp/tools/spawn.rs\<close>: \<^verbatim>\<open>worker_spawn_args\<close>; \<^verbatim>\<open>dispatch/container.rs\<close>:
  \<^verbatim>\<open>claude_setting_sources_args\<close>). What a process may do without asking is the value of
  \<^verbatim>\<open>--allowedTools\<close>, a comma-separated list, and whether its gate is on at all is one of two flags.
  The lemmas give each command line argument by argument and say which tools it pre-approves; how the
  \<^verbatim>\<open>claude\<close> binary reads its arguments is not modelled. Paths are strings and the container probe is an
  argument.
\<close>

section \<open>Pieces of a command line\<close>

definition claude_setting_sources_args :: "bool \<Rightarrow> string option \<Rightarrow> string list" where
  "claude_setting_sources_args in_container operator_override =
     (case operator_override of
        Some value \<Rightarrow> [''--setting-sources'', value]
      | None \<Rightarrow> if in_container then [''--setting-sources'', ''project,local''] else [])"

definition push_permission_routing_args :: "string list \<Rightarrow> PermissionRouting \<Rightarrow> string list" where
  "push_permission_routing_args args routing =
     (case routing of
        PathA \<Rightarrow> args @ [''--dangerously-skip-permissions'']
      | PathB \<Rightarrow> args @ [''--permission-prompt-tool'', ''mcp__pitboss__permission_prompt''])"

definition push_permission_routing_allowed :: "string list \<Rightarrow> PermissionRouting \<Rightarrow> string list" where
  "push_permission_routing_allowed allowed routing =
     (if routing = PathB then allowed @ [''mcp__pitboss__permission_prompt''] else allowed)"

definition SUBLEAD_MCP_TOOLS_BASE :: "string list" where
  "SUBLEAD_MCP_TOOLS_BASE =
     map (\<lambda>t. ''mcp__pitboss__'' @ t)
       [''spawn_worker'', ''worker_status'', ''wait_for_worker'', ''wait_for_any'', ''wait_actor'', ''list_workers'',
        ''cancel_worker'', ''pause_worker'', ''continue_worker'', ''request_approval'', ''reprompt_worker'',
        ''propose_plan'', ''kv_get'', ''kv_set'', ''kv_cas'', ''kv_list'', ''kv_wait'', ''lease_acquire'',
        ''lease_release'', ''run_lease_acquire'', ''run_lease_release'']"

definition PITBOSS_WORKER_MCP_TOOLS_BASE :: "string list" where
  "PITBOSS_WORKER_MCP_TOOLS_BASE =
     map (\<lambda>t. ''mcp__pitboss__'' @ t)
       [''kv_get'', ''kv_set'', ''kv_cas'', ''kv_list'', ''kv_wait'', ''lease_acquire'', ''lease_release'']"

definition pitboss_mcp_tools :: "CommunicationMode \<Rightarrow> string list" where
  "pitboss_mcp_tools mode =
     PITBOSS_MCP_TOOLS_BASE @ (if mode \<noteq> CommDisabled then COMMUNICATION_MCP_TOOLS else [])"

definition sublead_mcp_tools :: "CommunicationMode \<Rightarrow> string list" where
  "sublead_mcp_tools mode =
     SUBLEAD_MCP_TOOLS_BASE @ (if mode \<noteq> CommDisabled then COMMUNICATION_MCP_TOOLS else [])"

definition pitboss_worker_mcp_tools :: "CommunicationMode \<Rightarrow> string list" where
  "pitboss_worker_mcp_tools mode =
     PITBOSS_WORKER_MCP_TOOLS_BASE @ (if mode \<noteq> CommDisabled then COMMUNICATION_MCP_TOOLS else [])"

section \<open>The five command lines\<close>

definition spawn_args :: "bool \<Rightarrow> ResolvedTask \<Rightarrow> string option \<Rightarrow> string list" where
  "spawn_args in_container task setting_sources =
     [''--output-format'', ''stream-json'', ''--verbose'', ''--dangerously-skip-permissions'',
      ''--strict-mcp-config'', ''--disable-slash-commands''] @
     claude_setting_sources_args in_container setting_sources @
     (if task_tools task \<noteq> [] then [''--allowedTools'', join_with (CHR '','') (task_tools task)] else []) @
     [''--model'', task_model task] @
     (case task_resume_session_id task of Some sess \<Rightarrow> [''--resume'', sess] | None \<Rightarrow> []) @
     [''-p'', task_prompt task]"

text \<open>The lead's allowlist, computed alike on the first spawn and on a resume.\<close>

definition lead_allowed :: "ResolvedLead \<Rightarrow> CommunicationMode \<Rightarrow> McpServerSpec list \<Rightarrow> string list" where
  "lead_allowed ld mode servers =
     push_permission_routing_allowed
       (filter_actor_tools_by_mcp_allowlists (rl_tools ld) servers (rl_permission_routing ld) @
        pitboss_mcp_tools mode @
        (if allow_subleads ld then [''mcp__pitboss__spawn_sublead''] else []))
       (rl_permission_routing ld)"

definition lead_spawn_args ::
  "bool \<Rightarrow> ResolvedLead \<Rightarrow> string \<Rightarrow> CommunicationMode \<Rightarrow> McpServerSpec list \<Rightarrow> string option \<Rightarrow> string list" where
  "lead_spawn_args in_container ld mcp_config mode servers setting_sources =
     push_permission_routing_args [''--output-format'', ''stream-json'', ''--verbose''] (rl_permission_routing ld) @
     [''--strict-mcp-config'', ''--disable-slash-commands''] @
     claude_setting_sources_args in_container setting_sources @
     [''--allowedTools'', join_with (CHR '','') (lead_allowed ld mode servers)] @
     [''--model'', rl_model ld, ''--mcp-config'', mcp_config] @
     (case rl_resume_session_id ld of Some sess \<Rightarrow> [''--resume'', sess] | None \<Rightarrow> []) @
     [''-p'', rl_prompt ld]"

definition lead_resume_spawn_args ::
  "bool \<Rightarrow> ResolvedLead \<Rightarrow> string \<Rightarrow> string \<Rightarrow> string \<Rightarrow> CommunicationMode \<Rightarrow> McpServerSpec list \<Rightarrow>
   string option \<Rightarrow> string list" where
  "lead_resume_spawn_args in_container ld mcp_config session_id new_prompt mode servers setting_sources =
     push_permission_routing_args [''--output-format'', ''stream-json'', ''--verbose''] (rl_permission_routing ld) @
     [''--strict-mcp-config'', ''--disable-slash-commands''] @
     claude_setting_sources_args in_container setting_sources @
     [''--allowedTools'', join_with (CHR '','') (lead_allowed ld mode servers)] @
     [''--model'', rl_model ld, ''--mcp-config'', mcp_config, ''--resume'', session_id, ''-p'', new_prompt]"

text \<open>\<^verbatim>\<open>allowed.retain(|t| seen.insert(t.clone()))\<close>: first occurrences, in order.\<close>

fun retain_new :: "string set \<Rightarrow> string list \<Rightarrow> string list" where
  "retain_new seen [] = []"
| "retain_new seen (t # ts) = (if t \<in> seen then retain_new seen ts else t # retain_new (insert t seen) ts)"

definition sublead_allowed ::
  "string list option \<Rightarrow> PermissionRouting \<Rightarrow> CommunicationMode \<Rightarrow> McpServerSpec list \<Rightarrow> string list" where
  "sublead_allowed tools_override routing mode servers =
     retain_new {}
       (push_permission_routing_allowed
         ((case tools_override of
             Some ts \<Rightarrow> filter_actor_tools_by_mcp_allowlists ts servers routing
           | None \<Rightarrow> []) @ sublead_mcp_tools mode)
         routing)"

definition sublead_spawn_args ::
  "bool \<Rightarrow> string \<Rightarrow> string \<Rightarrow> string \<Rightarrow> string option \<Rightarrow> string list option \<Rightarrow> PermissionRouting \<Rightarrow>
   CommunicationMode \<Rightarrow> McpServerSpec list \<Rightarrow> string option \<Rightarrow> string list" where
  "sublead_spawn_args in_container prompt model mcp_config resume_session_id tools_override routing mode servers
     setting_sources =
     push_permission_routing_args [''--output-format'', ''stream-json'', ''--verbose''] routing @
     [''--strict-mcp-config'', ''--disable-slash-commands''] @
     claude_setting_sources_args in_container setting_sources @
     [''--allowedTools'', join_with (CHR '','') (sublead_allowed tools_override routing mode servers)] @
     [''--model'', model, ''--mcp-config'', mcp_config] @
     (case resume_session_id of Some sess \<Rightarrow> [''--resume'', sess] | None \<Rightarrow> []) @
     [''-p'', prompt]"

text \<open>Without an MCP configuration there is no endpoint to route the gate to, so Path B becomes Path A.\<close>

definition effective_routing :: "PermissionRouting \<Rightarrow> string option \<Rightarrow> PermissionRouting" where
  "effective_routing routing mcp_config = (if routing = PathB \<and> mcp_config = None then PathA else routing)"

definition worker_allowed ::
  "string list \<Rightarrow> string option \<Rightarrow> PermissionRouting \<Rightarrow> CommunicationMode \<Rightarrow> McpServerSpec list \<Rightarrow> string list" where
  "worker_allowed tools mcp_config routing mode servers =
     (let eff = effective_routing routing mcp_config;
          allowed = filter_actor_tools_by_mcp_allowlists tools servers eff
      in if mcp_config \<noteq> None
         then push_permission_routing_allowed (allowed @ pitboss_worker_mcp_tools mode) eff else allowed)"

definition worker_spawn_args ::
  "bool \<Rightarrow> string \<Rightarrow> string \<Rightarrow> string list \<Rightarrow> string option \<Rightarrow> PermissionRouting \<Rightarrow> CommunicationMode \<Rightarrow>
   McpServerSpec list \<Rightarrow> string option \<Rightarrow> string list" where
  "worker_spawn_args in_container prompt model tools mcp_config routing mode servers setting_sources =
     (let allowed = worker_allowed tools mcp_config routing mode servers in
      push_permission_routing_args [''--output-format'', ''stream-json'', ''--verbose'']
        (effective_routing routing mcp_config) @
      [''--strict-mcp-config'', ''--disable-slash-commands''] @
      claude_setting_sources_args in_container setting_sources @
      (if allowed \<noteq> [] then [''--allowedTools'', join_with (CHR '','') allowed] else []) @
      [''--model'', model] @
      (case mcp_config of Some path \<Rightarrow> [''--mcp-config'', path] | None \<Rightarrow> []) @
      [''-p'', prompt])"

section \<open>Warnings about gates nobody will answer\<close>

datatype HeadlessWarning = WarnPlanApproval | WarnPolicyBlocks | WarnBlockingRules nat

definition headless_approval_gate_warnings :: "ResolvedManifest \<Rightarrow> HeadlessWarning list" where
  "headless_approval_gate_warnings m =
     (if require_plan_approval m then [WarnPlanApproval] else []) @
     (if default_approval_policy m = None \<or> default_approval_policy m = Some PolicyBlock
      then [WarnPolicyBlocks] else []) @
     (let n = length (filter (\<lambda>r. rule_action r = Block) (approval_rules m))
      in if n > 0 then [WarnBlockingRules n] else [])"

section \<open>The shape of a command line\<close>

text \<open>The arguments every command line starts with, and the sets its list of tools is made of.\<close>

definition gate_line :: "PermissionRouting \<Rightarrow> string list" where
  "gate_line routing =
     [''--output-format'', ''stream-json'', ''--verbose''] @
     (case routing of
        PathA \<Rightarrow> [''--dangerously-skip-permissions'']
      | PathB \<Rightarrow> [''--permission-prompt-tool'', ''mcp__pitboss__permission_prompt'']) @
     [''--strict-mcp-config'', ''--disable-slash-commands'']"

lemma gate_line_args:
  "push_permission_routing_args [''--output-format'', ''stream-json'', ''--verbose''] routing @
     ''--strict-mcp-config'' # ''--disable-slash-commands'' # rest = gate_line routing @ rest"
  by (cases routing) (simp_all add: push_permission_routing_args_def gate_line_def)

lemma task_line:
  "spawn_args c t src =
     gate_line PathA @ claude_setting_sources_args c src @
     (if task_tools t \<noteq> [] then [''--allowedTools'', join_with (CHR '','') (task_tools t)] else []) @
     [''--model'', task_model t] @
     (case task_resume_session_id t of Some sess \<Rightarrow> [''--resume'', sess] | None \<Rightarrow> []) @ [''-p'', task_prompt t]"
  by (simp add: spawn_args_def gate_line_def)

lemma lead_line:
  "lead_spawn_args c ld cfg mode servers src =
     gate_line (rl_permission_routing ld) @ claude_setting_sources_args c src @
     [''--allowedTools'', join_with (CHR '','') (lead_allowed ld mode servers), ''--model'', rl_model ld, ''--mcp-config'', cfg] @
     (case rl_resume_session_id ld of Some sess \<Rightarrow> [''--resume'', sess] | None \<Rightarrow> []) @ [''-p'', rl_prompt ld]"
  by (simp add: lead_spawn_args_def gate_line_args)

lemma lead_resume_line:
  "lead_resume_spawn_args c ld cfg sess p mode servers src =
     gate_line (rl_permission_routing ld) @ claude_setting_sources_args c src @
     [''--allowedTools'', join_with (CHR '','') (lead_allowed ld mode servers), ''--model'', rl_model ld, ''--mcp-config'', cfg,
      ''--resume'', sess, ''-p'', p]"
  by (simp add: lead_resume_spawn_args_def gate_line_args)

lemma sublead_line:
  "sublead_spawn_args c p m cfg sess ov routing mode servers src =
     gate_line routing @ claude_setting_sources_args c src @
     [''--allowedTools'', join_with (CHR '','') (sublead_allowed ov routing mode servers), ''--model'', m, ''--mcp-config'', cfg] @
     (case sess of Some sess \<Rightarrow> [''--resume'', sess] | None \<Rightarrow> []) @ [''-p'', p]"
  by (simp add: sublead_spawn_args_def gate_line_args)

lemma worker_line:
  "worker_spawn_args c p m tools cfg routing mode servers src =
     gate_line (effective_routing routing cfg) @ claude_setting_sources_args c src @
     (if worker_allowed tools cfg routing mode servers \<noteq> []
      then [''--allowedTools'', join_with (CHR '','') (worker_allowed tools cfg routing mode servers)] else []) @
     [''--model'', m] @ (case cfg of Some path \<Rightarrow> [''--mcp-config'', path] | None \<Rightarrow> []) @ [''-p'', p]"
  by (simp add: worker_spawn_args_def gate_line_args Let_def)

lemma split_join:
  "xs \<noteq> [] \<Longrightarrow> split_on c (join_with c xs) = concat (map (split_on c) xs)"
  by (induction c xs rule: join_with.induct) (simp_all add: split_on_append_sep)

lemma split_join_plain:
  assumes "xs \<noteq> []" "\<And>x. x \<in> set xs \<Longrightarrow> c \<notin> set x"
  shows "set (split_on c (join_with c xs)) = set xs"
  using assms by (simp add: split_join split_on_no_sep)


section \<open>What starts pre-approved\<close>

definition admitted_by :: "McpServerSpec list \<Rightarrow> string \<Rightarrow> bool" where
  "admitted_by servers t \<longleftrightarrow> (case parse_mcp_tool_name t servers of Some p \<Rightarrow> is_admitted p | None \<Rightarrow> True)"

definition prompt_tool :: string where
  "prompt_tool = ''mcp__pitboss__permission_prompt''"

lemma pitboss_tools_plain:
  "t \<in> set (pitboss_mcp_tools mode) \<union> set (sublead_mcp_tools mode) \<union> set (pitboss_worker_mcp_tools mode) \<Longrightarrow>
     CHR '','' \<notin> set t"
  by (auto simp: pitboss_mcp_tools_def sublead_mcp_tools_def pitboss_worker_mcp_tools_def PITBOSS_MCP_TOOLS_BASE_def
      SUBLEAD_MCP_TOOLS_BASE_def PITBOSS_WORKER_MCP_TOOLS_BASE_def COMMUNICATION_MCP_TOOLS_def split: if_splits)

text \<open>What a process keeps of its own list: under Path A all of it, under Path B what the servers admit.\<close>

definition own_tools :: "PermissionRouting \<Rightarrow> McpServerSpec list \<Rightarrow> string list \<Rightarrow> string set" where
  "own_tools routing servers tools = {t \<in> set tools. routing = PathA \<or> admitted_by servers t}"

definition prompt_tools :: "PermissionRouting \<Rightarrow> string set" where
  "prompt_tools routing = (if routing = PathB then {prompt_tool} else {})"

lemma set_own: "set (filter_actor_tools_by_mcp_allowlists tools servers routing) = own_tools routing servers tools"
  by (cases routing) (auto simp: filter_mcp_mem own_tools_def admitted_by_def filter_actor_tools_by_mcp_allowlists_def)

lemma set_prompt: "set (push_permission_routing_allowed allowed routing) = set allowed \<union> prompt_tools routing"
  by (simp add: push_permission_routing_allowed_def prompt_tools_def prompt_tool_def)



lemma set_worker_allowed:
  "set (worker_allowed tools (Some cfg) routing mode servers) =
     own_tools routing servers tools \<union> set (pitboss_worker_mcp_tools mode) \<union> prompt_tools routing"
  by (simp add: worker_allowed_def effective_routing_def set_prompt set_own Let_def)

text \<open>The value of \<^verbatim>\<open>--allowedTools\<close> names exactly the tools of the list, when none of them holds a comma.\<close>

lemma joined_tools:
  assumes "set allowed = own_tools routing servers tools \<union> S \<union> prompt_tools routing" "S \<noteq> {}"
    and "\<forall>t \<in> set tools. CHR '','' \<notin> set t" "\<forall>t \<in> S. CHR '','' \<notin> set t"
  shows "allowed \<noteq> [] \<and>
    set (split_on (CHR '','') (join_with (CHR '','') allowed)) = own_tools routing servers tools \<union> S \<union> prompt_tools routing"
proof -
  have "allowed \<noteq> []" using assms(1,2) by auto
  moreover from this have "set (split_on (CHR '','') (join_with (CHR '','') allowed)) = set allowed"
    by (rule split_join_plain) (use assms in \<open>auto simp: own_tools_def prompt_tools_def prompt_tool_def split: if_splits\<close>)
  ultimately show ?thesis using assms(1) by simp
qed

lemma role_tools_nonempty:
  "set (pitboss_mcp_tools mode) \<noteq> {}" "set (sublead_mcp_tools mode) \<noteq> {}" "set (pitboss_worker_mcp_tools mode) \<noteq> {}"
  by (simp_all add: pitboss_mcp_tools_def sublead_mcp_tools_def pitboss_worker_mcp_tools_def PITBOSS_MCP_TOOLS_BASE_def
      SUBLEAD_MCP_TOOLS_BASE_def PITBOSS_WORKER_MCP_TOOLS_BASE_def)


definition fs_guard :: "McpServerSpec list" where
  "fs_guard =
     [\<lparr>mcp_id = ''fs'', mcp_command = ''npx'', mcp_args = [], mcp_env = [], mcp_scope = None,
       mcp_tools = Some [''read_file'']\<rparr>]"


text \<open>
  The allowlists are checked entry by entry and the entries are then joined with commas, so an entry that
  carries its own comma is checked as a whole and becomes two in the joined list: whatever tool follows the
  comma is named there, also one that its server's allowlist excludes and that the same call would have lost as
  an entry of its own.
\<close>

theorem comma_entry_bypasses:
  assumes "CHR '','' \<notin> set t" "\<not> admitted_by servers t" "t \<notin> set (pitboss_worker_mcp_tools mode)" "t \<noteq> prompt_tool"
  shows "t \<in> set (split_on (CHR '','') (join_with (CHR '','') (worker_allowed [''Read,'' @ t] (Some cfg) PathB mode servers))) \<and>
         t \<notin> set (split_on (CHR '','') (join_with (CHR '','') (worker_allowed [''Read'', t] (Some cfg) PathB mode servers)))"
proof
  have "admitted_by servers (''Read,'' @ t)"
    by (simp add: admitted_by_def parse_mcp_tool_name_def mcp_prefix_def)
  then have in_list: "''Read,'' @ t \<in> set (worker_allowed [''Read,'' @ t] (Some cfg) PathB mode servers)"
    by (simp add: set_worker_allowed own_tools_def)
  moreover have "split_on (CHR '','') (''Read,'' @ t) = [''Read'', t]"
    using split_on_append_sep [of "CHR '',''" "''Read''" t] assms(1) by (simp add: split_on_no_sep)
  moreover have "worker_allowed [''Read,'' @ t] (Some cfg) PathB mode servers \<noteq> []" using in_list by auto
  ultimately show "t \<in> set (split_on (CHR '','') (join_with (CHR '','') (worker_allowed [''Read,'' @ t] (Some cfg) PathB mode servers)))"
    by (auto simp: split_join intro!: bexI [of _ "''Read,'' @ t"])
  show "t \<notin> set (split_on (CHR '','') (join_with (CHR '','') (worker_allowed [''Read'', t] (Some cfg) PathB mode servers)))"
    using joined_tools [OF set_worker_allowed role_tools_nonempty(3), of "[''Read'', t]" mode cfg PathB servers]
      pitboss_tools_plain [of _ mode] assms
    by (auto simp: own_tools_def prompt_tools_def)
qed

theorem comma_entry_bypasses_witness:
  "''mcp__fs__write_file'' \<in> set (split_on (CHR '','') (join_with (CHR '','')
     (worker_allowed [''Read,mcp__fs__write_file''] (Some ''/mcp.json'') PathB CommDisabled fs_guard)))"
proof -
  have "\<not> admitted_by fs_guard ''mcp__fs__write_file''" by code_simp
  moreover have "''mcp__fs__write_file'' \<notin> set (pitboss_worker_mcp_tools CommDisabled)" by code_simp
  ultimately show ?thesis
    using comma_entry_bypasses [of "''mcp__fs__write_file''" fs_guard CommDisabled "''/mcp.json''"]
    by (simp add: prompt_tool_def)
qed

text \<open>
  Every command line starts with the same arguments, which isolate the process from the operator's own servers and
  commands and either skip its gate or route it; a worker under Path B whose configuration could not be written
  starts with its gate skipped.
\<close>

theorem spawn_gates:
  "(\<exists>r. lead_spawn_args c ld cfg mode servers src = gate_line (rl_permission_routing ld) @ r) \<and>
   (\<exists>r. lead_resume_spawn_args c ld cfg sess p mode servers src = gate_line (rl_permission_routing ld) @ r) \<and>
   (\<exists>r. sublead_spawn_args c p m cfg ses ov routing mode servers src = gate_line routing @ r) \<and>
   (\<exists>r. worker_spawn_args c p m tools wcfg routing mode servers src =
          gate_line (if wcfg = None then PathA else routing) @ r) \<and>
   (\<exists>r. spawn_args c t src = gate_line PathA @ r)"
  unfolding lead_line lead_resume_line sublead_line worker_line task_line
  by (cases routing) (auto simp: effective_routing_def)

text \<open>A sub-lead's own allowlist never names a root-only tool: the depth limit holds on the command line.\<close>

lemma sublead_tools_depth: "assert_sublead_toolset_excludes_root_only (sublead_mcp_tools mode) = []"
proof (cases mode)
  case CommDisabled
  show ?thesis unfolding CommDisabled by code_simp
next
  case ParentChild
  show ?thesis unfolding ParentChild by code_simp
qed

text \<open>With its gate routed a process never inherits the entrypoint that would switch the gate off.\<close>

lemma routed_env: "hm_get plain ''CLAUDE_CODE_ENTRYPOINT'' (apply_pitboss_env_defaults env rid PathB) \<noteq> Some ''sdk-ts''"
  by (simp add: apply_pitboss_env_defaults_def Let_def hm_simps)

end
