(* ===== verification/Flat_Run.thy ===== *)
theory Flat_Run
  imports Session_Stream Spawn_Args
begin

text \<open>
  Flat dispatch (\<^verbatim>\<open>dispatch/runner.rs\<close>: \<^verbatim>\<open>execute_task\<close>, \<^verbatim>\<open>spawn_task_loop\<close>,
  \<^verbatim>\<open>finalize_run\<close>). One task is a function of what its worktree, its process and its logs gave; the loop
  with its semaphore and the tasks it has spawned is a step relation, one step per wait or shared write, so
  that every interleaving of the driver, the tasks and the operator's signals is a path. A task whose
  classification panics ends without a record, as a panicking task does whose handle is awaited and ignored.
\<close>

section \<open>One task\<close>

record SpawnCmd =
  sc_program :: string
  sc_args :: "string list"
  sc_cwd :: string
  sc_env :: "(string \<times> string) list"

datatype CleanupPolicy = CleanAlways | CleanOnSuccess | CleanNever

definition cleanup_policy_from :: "WorktreeCleanup \<Rightarrow> CleanupPolicy" where
  "cleanup_policy_from w =
     (case w of WtAlways \<Rightarrow> CleanAlways | WtOnSuccess \<Rightarrow> CleanOnSuccess | WtNever \<Rightarrow> CleanNever)"

text \<open>Whether \<^verbatim>\<open>cleanup\<close> removes the worktree.\<close>

definition should_remove :: "CleanupPolicy \<Rightarrow> bool \<Rightarrow> bool" where
  "should_remove pol succeeded =
     (case pol of CleanAlways \<Rightarrow> True | CleanOnSuccess \<Rightarrow> succeeded | CleanNever \<Rightarrow> False)"

definition task_cmd :: "bool \<Rightarrow> string \<Rightarrow> string \<Rightarrow> string option \<Rightarrow> ResolvedTask \<Rightarrow> string \<Rightarrow> SpawnCmd" where
  "task_cmd in_container claude rid setting_sources task cwd =
     \<lparr>sc_program = claude, sc_args = spawn_args in_container task setting_sources, sc_cwd = cwd,
      sc_env = apply_pitboss_env_defaults (task_env task) rid PathB\<rparr>"

definition flat_status :: "SessionState \<Rightarrow> TaskStatus" where
  "flat_status st =
     (case st of
        SsCompleted \<Rightarrow> TsSuccess
      | SsFailed _ \<Rightarrow> TsFailed
      | SsTimedOut \<Rightarrow> TsTimedOut
      | SsCancelled \<Rightarrow> TsCancelled
      | SsSpawnFailed _ \<Rightarrow> TsSpawnFailed
      | _ \<Rightarrow> TsFailed)"

definition path_join :: "string \<Rightarrow> string \<Rightarrow> string" where
  "path_join a b = a @ ''/'' @ b"

text \<open>What one task meets: its worktree, or the error of preparing it; the process, as a function of the
  command line it was started with; the log files after it; the clock of a failed preparation.\<close>

record TaskWorld =
  tw_worktree :: "string + string"
  tw_child :: "SpawnCmd \<Rightarrow> ChildRun"
  tw_files :: "string \<Rightarrow> string option"
  tw_now :: int
  tw_cancel :: CancelToken

definition worktree_failed_record :: "ResolvedTask \<Rightarrow> string \<Rightarrow> string \<Rightarrow> int \<Rightarrow> TaskRecord" where
  "worktree_failed_record task log_path e now =
     \<lparr>tr_task_id = task_id task, tr_status = TsSpawnFailed, tr_exit_code = None, tr_started_at = now,
      tr_ended_at = now, tr_duration_ms = 0, tr_worktree_path = None, tr_log_path = log_path,
      tr_token_usage = zero_usage, tr_claude_session_id = None,
      tr_final_message_preview = Some (''worktree error: '' @ e), tr_final_message = None, tr_parent_task_id = None,
      tr_pause_count = 0, tr_reprompt_count = 0, tr_approvals_requested = 0, tr_approvals_approved = 0,
      tr_approvals_rejected = 0, tr_model = Some (task_model task), tr_failure_reason = None,
      tr_cost_usd = cost_usd (task_model task) zero_usage, tr_actor_type = None, tr_terminate_reason = None\<rparr>"

definition session_record ::
  "ResolvedTask \<Rightarrow> string \<Rightarrow> string \<Rightarrow> SessionOutcome \<Rightarrow> FailureReason option \<Rightarrow> CancelToken \<Rightarrow> TaskRecord" where
  "session_record task cwd log_path oc failure tok =
     \<lparr>tr_task_id = task_id task, tr_status = flat_status (so_final_state oc), tr_exit_code = so_exit_code oc,
      tr_started_at = so_started_at oc, tr_ended_at = so_ended_at oc, tr_duration_ms = duration_ms oc,
      tr_worktree_path = (if task_use_worktree task then Some cwd else None), tr_log_path = log_path,
      tr_token_usage = so_token_usage oc, tr_claude_session_id = so_claude_session_id oc,
      tr_final_message_preview = so_final_message_preview oc, tr_final_message = so_final_message oc,
      tr_parent_task_id = None, tr_pause_count = 0, tr_reprompt_count = 0, tr_approvals_requested = 0,
      tr_approvals_approved = 0, tr_approvals_rejected = 0, tr_model = Some (task_model task),
      tr_failure_reason = failure, tr_cost_usd = cost_usd (task_model task) (so_token_usage oc),
      tr_actor_type = None, tr_terminate_reason = ct_reason tok\<rparr>"

record Codec =
  cd_from_str :: "string \<Rightarrow> string + Value"
  cd_print :: "Value \<Rightarrow> string"
  cd_show_int :: "int \<Rightarrow> string"

definition execute_task ::
  "Codec \<Rightarrow> Outer \<Rightarrow> bool \<Rightarrow> string \<Rightarrow> string \<Rightarrow> string \<Rightarrow> string option \<Rightarrow> ResolvedTask \<Rightarrow> TaskWorld \<Rightarrow> TaskRecord outcome" where
  "execute_task cd env in_container claude rid runs setting_sources task w =
     (let task_dir = path_join (path_join (path_join runs rid) ''tasks'') (task_id task);
          log_path = path_join task_dir ''stdout.log'';
          stderr_log_path = path_join task_dir ''stderr.log''
      in case (if task_use_worktree task then tw_worktree w else Inr (task_directory task)) of
           Inl e \<Rightarrow> Returns (worktree_failed_record task log_path e (tw_now w))
         | Inr cwd \<Rightarrow>
             (let cmd = task_cmd in_container claude rid setting_sources task cwd;
                  oc = run_to_completion (cd_from_str cd) (cd_print cd) (cd_show_int cd) (tw_child w cmd)
              in on_return (detect_failure_reason env (tw_files w) (so_exit_code oc) (Some log_path) (Some stderr_log_path))
                   (\<lambda>reason.
                      let failure = (case task_resume_session_id task of
                            Some sid \<Rightarrow> map_option (\<lambda>r. enrich_with_resume_hint r sid) reason | None \<Rightarrow> reason)
                      in Returns (session_record task cwd log_path oc failure (tw_cancel w)))))"

section \<open>The loop\<close>

record FlatConfig =
  fc_tasks :: nat
  fc_max_parallel :: nat
  fc_halt :: bool
  fc_result :: "nat \<Rightarrow> TaskRecord outcome"

datatype DriverPhase = AtTop | Acquiring | Rechecking | Spawning | Joining | Finished

datatype TaskStage = NotStarted | Executing | Recorded | Drained | Released | Lost

record FlatRun =
  fr_next :: nat
  fr_phase :: DriverPhase
  fr_permits :: nat
  fr_stage :: "nat \<Rightarrow> TaskStage"
  fr_records :: "TaskRecord list"
  fr_cancel :: CancelToken
  fr_halt_drained :: bool

definition start_flat :: "FlatConfig \<Rightarrow> FlatRun" where
  "start_flat c = \<lparr>fr_next = 0, fr_phase = AtTop, fr_permits = fc_max_parallel c, fr_stage = (\<lambda>_. NotStarted),
     fr_records = [], fr_cancel = new_cancel, fr_halt_drained = False\<rparr>"

definition task_failed :: "TaskRecord \<Rightarrow> bool" where
  "task_failed r \<longleftrightarrow> tr_status r \<noteq> TsSuccess"

definition halts :: "FlatConfig \<Rightarrow> nat \<Rightarrow> bool" where
  "halts c i \<longleftrightarrow> fc_halt c \<and> (case fc_result c i of Returns r \<Rightarrow> task_failed r | Panics \<Rightarrow> False)"

text \<open>The steps of the driver and of the tasks; the tasks are numbered by their position in the manifest.\<close>

inductive flat_step :: "FlatConfig \<Rightarrow> FlatRun \<Rightarrow> FlatRun \<Rightarrow> bool" for c where
  top_break: "fr_phase s = AtTop \<Longrightarrow> fr_next s = fc_tasks c \<or> ct_drain (fr_cancel s) \<Longrightarrow>
    flat_step c s (s\<lparr>fr_phase := Joining\<rparr>)"
| top_go: "fr_phase s = AtTop \<Longrightarrow> fr_next s < fc_tasks c \<Longrightarrow> \<not> ct_drain (fr_cancel s) \<Longrightarrow>
    flat_step c s (s\<lparr>fr_phase := Acquiring\<rparr>)"
| acquire: "fr_phase s = Acquiring \<Longrightarrow> 0 < fr_permits s \<Longrightarrow>
    flat_step c s (s\<lparr>fr_phase := Rechecking, fr_permits := fr_permits s - 1\<rparr>)"
| recheck_break: "fr_phase s = Rechecking \<Longrightarrow> ct_drain (fr_cancel s) \<Longrightarrow>
    flat_step c s (s\<lparr>fr_phase := Joining, fr_permits := fr_permits s + 1\<rparr>)"
| recheck_go: "fr_phase s = Rechecking \<Longrightarrow> \<not> ct_drain (fr_cancel s) \<Longrightarrow>
    flat_step c s (s\<lparr>fr_phase := Spawning\<rparr>)"
| spawn: "fr_phase s = Spawning \<Longrightarrow>
    flat_step c s (s\<lparr>fr_phase := AtTop, fr_stage := (fr_stage s)(fr_next s := Executing), fr_next := fr_next s + 1\<rparr>)"
| join: "fr_phase s = Joining \<Longrightarrow> (\<And>i. i < fr_next s \<Longrightarrow> fr_stage s i = Released \<or> fr_stage s i = Lost) \<Longrightarrow>
    flat_step c s (s\<lparr>fr_phase := Finished\<rparr>)"
| finish: "fr_stage s i = Executing \<Longrightarrow> fc_result c i = Returns r \<Longrightarrow>
    flat_step c s (s\<lparr>fr_stage := (fr_stage s)(i := Recorded), fr_records := fr_records s @ [r]\<rparr>)"
| panic: "fr_stage s i = Executing \<Longrightarrow> fc_result c i = Panics \<Longrightarrow>
    flat_step c s (s\<lparr>fr_stage := (fr_stage s)(i := Lost), fr_permits := fr_permits s + 1\<rparr>)"
| halt: "fr_stage s i = Recorded \<Longrightarrow> halts c i \<Longrightarrow>
    flat_step c s (s\<lparr>fr_stage := (fr_stage s)(i := Drained), fr_halt_drained := True,
      fr_cancel := cancel_drain (fr_cancel s)\<rparr>)"
| release: "fr_stage s i = Drained \<or> (fr_stage s i = Recorded \<and> \<not> halts c i) \<Longrightarrow>
    flat_step c s (s\<lparr>fr_stage := (fr_stage s)(i := Released), fr_permits := fr_permits s + 1\<rparr>)"

text \<open>The operator drains the run (the first Ctrl-C) or terminates it (the second, or \<^verbatim>\<open>cancel_run\<close>).\<close>

inductive operator_step :: "FlatRun \<Rightarrow> FlatRun \<Rightarrow> bool" where
  "operator_step s (s\<lparr>fr_cancel := cancel_drain (fr_cancel s)\<rparr>)"
| "operator_step s (s\<lparr>fr_cancel := terminate_with_reason reason (fr_cancel s)\<rparr>)"

inductive flat_reach :: "FlatConfig \<Rightarrow> FlatRun \<Rightarrow> FlatRun \<Rightarrow> bool" for c s where
  flat_refl: "flat_reach c s s"
| flat_run: "flat_reach c s t \<Longrightarrow> flat_step c t u \<Longrightarrow> flat_reach c s u"
| flat_signal: "flat_reach c s t \<Longrightarrow> operator_step t u \<Longrightarrow> flat_reach c s u"

section \<open>The end of a run\<close>

record FlatSummary =
  fs_tasks_total :: nat
  fs_tasks_failed :: nat
  fs_was_interrupted :: bool
  fs_tasks :: "TaskRecord list"

definition flat_summary :: "FlatRun \<Rightarrow> FlatSummary" where
  "flat_summary s =
     \<lparr>fs_tasks_total = length (fr_records s),
      fs_tasks_failed = length (filter task_failed (fr_records s)),
      fs_was_interrupted = ((ct_drain (fr_cancel s) \<or> ct_terminate (fr_cancel s)) \<and> \<not> fr_halt_drained s),
      fs_tasks = fr_records s\<rparr>"

definition flat_exit_code :: "FlatRun \<Rightarrow> int" where
  "flat_exit_code s =
     (if ct_terminate (fr_cancel s) then 130 else if fs_tasks_failed (flat_summary s) > 0 then 1 else 0)"

definition resolve_manifest_display_name :: "string option \<Rightarrow> string option \<Rightarrow> string option" where
  "resolve_manifest_display_name declared file_stem =
     (let stem = (case map_option trim file_stem of Some (x # xs) \<Rightarrow> Some (x # xs) | _ \<Rightarrow> None)
      in case declared of
           Some name \<Rightarrow> (if trim name \<noteq> [] then Some (trim name) else stem)
         | None \<Rightarrow> stem)"

end
