(* ===== verification/Flat_Facts.thy ===== *)
theory Flat_Facts
  imports Flat_Run
begin

text \<open>
  Flat runs: the invariant of the loop and its tasks, the bound on concurrency, what a failure with
  \<^verbatim>\<open>halt_on_failure\<close> stops, that every run can end, and what its exit code says.
\<close>

section \<open>The invariant\<close>

definition busy :: "FlatRun \<Rightarrow> nat set" where
  "busy s = {i. i < fr_next s \<and> fr_stage s i \<in> {Executing, Recorded, Drained}}"

definition recorded :: "FlatRun \<Rightarrow> nat set" where
  "recorded s = {i. i < fr_next s \<and> fr_stage s i \<in> {Recorded, Drained, Released}}"

definition held :: "FlatRun \<Rightarrow> nat" where
  "held s = (if fr_phase s = Rechecking \<or> fr_phase s = Spawning then 1 else 0)"

definition task_rec :: "FlatConfig \<Rightarrow> nat \<Rightarrow> TaskRecord" where
  "task_rec c i = (case fc_result c i of Returns r \<Rightarrow> r)"

definition order_ok :: "FlatConfig \<Rightarrow> FlatRun \<Rightarrow> bool" where
  "order_ok c s \<longleftrightarrow>
     fr_next s \<le> fc_tasks c \<and> (fr_phase s \<in> {Acquiring, Rechecking, Spawning} \<longrightarrow> fr_next s < fc_tasks c) \<and>
     (\<forall>i. fr_stage s i = NotStarted \<longleftrightarrow> fr_next s \<le> i)"

definition results_ok :: "FlatConfig \<Rightarrow> FlatRun \<Rightarrow> bool" where
  "results_ok c s \<longleftrightarrow>
     (\<forall>i. fr_stage s i \<in> {Recorded, Drained, Released} \<longrightarrow> fc_result c i \<noteq> Panics) \<and>
     (\<forall>i. fr_stage s i = Lost \<longrightarrow> fc_result c i = Panics)"

definition drain_ok :: "FlatConfig \<Rightarrow> FlatRun \<Rightarrow> bool" where
  "drain_ok c s \<longleftrightarrow>
     (\<forall>i. fr_stage s i = Drained \<or> (fr_stage s i = Released \<and> halts c i) \<longrightarrow>
        ct_drain (fr_cancel s) \<and> fr_halt_drained s)"

definition stages_ok :: "FlatConfig \<Rightarrow> FlatRun \<Rightarrow> bool" where
  "stages_ok c s \<longleftrightarrow> order_ok c s \<and> results_ok c s \<and> drain_ok c s"

definition flat_inv :: "FlatConfig \<Rightarrow> FlatRun \<Rightarrow> bool" where
  "flat_inv c s \<longleftrightarrow> stages_ok c s \<and> fr_permits s + card (busy s) + held s = fc_max_parallel c \<and>
     mset (fr_records s) = image_mset (task_rec c) (mset_set (recorded s))"

lemma finite_busy [simp]: "finite (busy s)" "finite (recorded s)"
  by (simp_all add: busy_def recorded_def)

lemma start_inv: "flat_inv c (start_flat c)"
  by (auto simp: flat_inv_def stages_ok_def order_ok_def results_ok_def drain_ok_def start_flat_def busy_def recorded_def held_def)

lemma order_cong:
  "order_ok c (s\<lparr>fr_permits := n\<rparr>) = order_ok c s" "order_ok c (s\<lparr>fr_records := rs\<rparr>) = order_ok c s"
  "order_ok c (s\<lparr>fr_cancel := k\<rparr>) = order_ok c s" "order_ok c (s\<lparr>fr_halt_drained := b\<rparr>) = order_ok c s"
  by (simp_all add: order_ok_def)

lemma order_upd:
  assumes "order_ok c s" "fr_stage s i \<noteq> NotStarted" "st \<noteq> NotStarted"
  shows "order_ok c (s\<lparr>fr_stage := (fr_stage s)(i := st)\<rparr>)"
proof -
  have "((fr_stage s)(i := st)) j = NotStarted \<longleftrightarrow> fr_stage s j = NotStarted" for j
    using assms(2,3) by simp
  with assms(1) show ?thesis by (simp add: order_ok_def)
qed

lemma order_step: "flat_step c s t \<Longrightarrow> order_ok c s \<Longrightarrow> order_ok c t"
proof (induction rule: flat_step.induct)
  case (spawn s)
  let ?st = "(fr_stage s)(fr_next s := Executing)"
  have lt: "fr_next s < fc_tasks c" and st: "\<And>i. fr_stage s i = NotStarted \<longleftrightarrow> fr_next s \<le> i"
    using spawn by (simp_all add: order_ok_def)
  have "?st i = NotStarted \<longleftrightarrow> Suc (fr_next s) \<le> i" for i
    by (cases "i = fr_next s") (use st [of i] in auto)
  with lt show ?case by (simp add: order_ok_def Suc_leI)
next
  case (release s i)
  then show ?case by (auto intro: order_upd simp: order_cong)
qed (simp_all add: order_cong order_upd, simp_all add: order_ok_def)

lemma results_step: "flat_step c s t \<Longrightarrow> results_ok c s \<Longrightarrow> results_ok c t"
proof (induction rule: flat_step.induct)
  case (release s i)
  then have "fc_result c i \<noteq> Panics" by (auto simp: results_ok_def)
  with release show ?case by (simp add: results_ok_def)
qed (simp_all add: results_ok_def)

lemma drain_step: "flat_step c s t \<Longrightarrow> drain_ok c s \<Longrightarrow> drain_ok c t"
  by (induction rule: flat_step.induct) (auto simp: drain_ok_def cancel_drain_def)

lemma stages_step: "flat_step c s t \<Longrightarrow> stages_ok c s \<Longrightarrow> stages_ok c t"
  by (simp add: stages_ok_def order_step results_step drain_step)

lemma next_fresh: "stages_ok c s \<Longrightarrow> fr_stage s i \<noteq> NotStarted \<longleftrightarrow> i < fr_next s"
  by (auto simp: stages_ok_def order_ok_def not_le)

lemma busy_cases:
  "stages_ok c s \<Longrightarrow> busy (s\<lparr>fr_stage := (fr_stage s)(i := st)\<rparr>) =
     (if i < fr_next s \<and> st \<in> {Executing, Recorded, Drained} then insert i (busy s) else busy s - {i})"
  by (auto simp: busy_def)

lemma recorded_cases:
  "recorded (s\<lparr>fr_stage := (fr_stage s)(i := st)\<rparr>) =
     (if i < fr_next s \<and> st \<in> {Recorded, Drained, Released} then insert i (recorded s) else recorded s - {i})"
  by (auto simp: recorded_def)

lemma view_cong:
  "busy (s\<lparr>fr_phase := p\<rparr>) = busy s" "busy (s\<lparr>fr_permits := n\<rparr>) = busy s" "busy (s\<lparr>fr_records := rs\<rparr>) = busy s"
  "busy (s\<lparr>fr_cancel := k\<rparr>) = busy s" "busy (s\<lparr>fr_halt_drained := b\<rparr>) = busy s"
  "recorded (s\<lparr>fr_phase := p\<rparr>) = recorded s" "recorded (s\<lparr>fr_permits := n\<rparr>) = recorded s"
  "recorded (s\<lparr>fr_records := rs\<rparr>) = recorded s" "recorded (s\<lparr>fr_cancel := k\<rparr>) = recorded s"
  "recorded (s\<lparr>fr_halt_drained := b\<rparr>) = recorded s"
  by (simp_all add: busy_def recorded_def)

lemma flat_inv_step: "flat_step c s t \<Longrightarrow> flat_inv c s \<Longrightarrow> flat_inv c t"
proof (induction rule: flat_step.induct)
  case (spawn s)
  then have fresh: "fr_next s \<notin> busy s" "fr_next s \<notin> recorded s" by (auto simp: busy_def recorded_def)
  have b: "busy (s\<lparr>fr_phase := AtTop, fr_stage := (fr_stage s)(fr_next s := Executing), fr_next := fr_next s + 1\<rparr>) =
      insert (fr_next s) (busy s)" by (auto simp: busy_def less_Suc_eq)
  have r: "recorded (s\<lparr>fr_phase := AtTop, fr_stage := (fr_stage s)(fr_next s := Executing), fr_next := fr_next s + 1\<rparr>) =
      recorded s" by (auto simp: recorded_def less_Suc_eq)
  show ?case
    using spawn stages_step [OF flat_step.spawn [of s c]] fresh b r by (auto simp: flat_inv_def held_def)
next
  case (finish s i r)
  then have i: "i < fr_next s" "i \<in> busy s" "i \<notin> recorded s"
    by (auto simp: flat_inv_def next_fresh [symmetric] busy_def recorded_def)
  then show ?case
    using finish stages_step [OF flat_step.finish [of s i c r]]
    by (auto simp: flat_inv_def view_cong busy_cases recorded_cases insert_absorb held_def task_rec_def)
next
  case (panic s i)
  then have i: "i < fr_next s" "i \<in> busy s" "i \<notin> recorded s"
    by (auto simp: flat_inv_def next_fresh [symmetric] busy_def recorded_def)
  then have "0 < card (busy s)" by (auto simp: card_gt_0_iff)
  with i show ?case
    using panic stages_step [OF flat_step.panic [of s i c]]
    by (auto simp: flat_inv_def view_cong busy_cases recorded_cases held_def)
next
  case (halt s i)
  then have i: "i < fr_next s" "i \<in> busy s" "i \<in> recorded s"
    by (auto simp: flat_inv_def next_fresh [symmetric] busy_def recorded_def)
  then show ?case
    using halt stages_step [OF flat_step.halt [of s i c]]
    by (auto simp: flat_inv_def view_cong busy_cases recorded_cases insert_absorb held_def)
next
  case (release s i)
  then have i: "i < fr_next s" "i \<in> busy s" "i \<in> recorded s"
    by (auto simp: flat_inv_def next_fresh [symmetric] busy_def recorded_def)
  then have "0 < card (busy s)" by (auto simp: card_gt_0_iff)
  with i show ?case
    using release stages_step [OF flat_step.release [of s i c]]
    by (auto simp: flat_inv_def view_cong busy_cases recorded_cases insert_absorb held_def)
qed (auto simp: flat_inv_def view_cong held_def stages_ok_def order_ok_def results_ok_def drain_ok_def)

lemma flat_inv_signal: "operator_step s t \<Longrightarrow> flat_inv c s \<Longrightarrow> flat_inv c t"
  by (induction rule: operator_step.induct)
    (auto simp: flat_inv_def view_cong held_def stages_ok_def order_ok_def results_ok_def drain_ok_def cancel_drain_def terminate_with_reason_def)

lemma flat_inv_reach: "flat_reach c s t \<Longrightarrow> flat_inv c s \<Longrightarrow> flat_inv c t"
  by (induction rule: flat_reach.induct) (auto intro: flat_inv_step flat_inv_signal)

lemma inv_started: "flat_inv c s \<Longrightarrow> fr_stage s i \<noteq> NotStarted \<longleftrightarrow> i < fr_next s"
  using next_fresh [of c s i] by (simp add: flat_inv_def)

section \<open>Concurrency and halting\<close>

text \<open>
  At any moment of a flat run at most \<^verbatim>\<open>max_parallel_tasks\<close> tasks hold a permit, and the records are those of
  the tasks that have finished, each once.
\<close>

theorem flat_bounded:
  assumes "flat_reach c (start_flat c) s"
  shows "card {i. fr_stage s i \<in> {Executing, Recorded, Drained}} \<le> fc_max_parallel c \<and>
         mset (fr_records s) = image_mset (task_rec c) (mset_set {i. fr_stage s i \<in> {Recorded, Drained, Released}})"
proof -
  have inv: "flat_inv c s" using flat_inv_reach [OF assms] start_inv by simp
  then have started: "fr_stage s i \<noteq> NotStarted \<longleftrightarrow> i < fr_next s" for i by (rule inv_started)
  have "{i. fr_stage s i \<in> {Executing, Recorded, Drained}} = busy s"
    "{i. fr_stage s i \<in> {Recorded, Drained, Released}} = recorded s"
    using started by (force simp: busy_def recorded_def)+
  with inv show ?thesis by (simp add: flat_inv_def)
qed

lemma phase_of_draining:
  "flat_reach c s t \<Longrightarrow> ct_drain (fr_cancel s) \<Longrightarrow> fr_next t \<le> fr_next s + (if fr_phase s = Spawning then 1 else 0) \<and>
     ct_drain (fr_cancel t) \<and> (fr_phase t = Spawning \<longrightarrow> fr_phase s = Spawning \<and> fr_next t = fr_next s)"
proof (induction rule: flat_reach.induct)
  case (flat_run t u)
  from flat_run(2) flat_run(3) [OF flat_run(4)] show ?case
    by (induction rule: flat_step.induct) (auto simp: cancel_drain_def)
next
  case (flat_signal t u)
  from flat_signal(2) flat_signal(3) [OF flat_signal(4)] show ?case
    by (induction rule: operator_step.induct) (auto simp: cancel_drain_def terminate_with_reason_def)
qed auto

text \<open>With one permit no task is started after one whose failure halts the run.\<close>

definition serial_inv :: "FlatConfig \<Rightarrow> FlatRun \<Rightarrow> bool" where
  "serial_inv c s \<longleftrightarrow> (fr_phase s = Spawning \<longrightarrow> (\<forall>i < fr_next s. \<not> halts c i)) \<and>
     (\<forall>j < fr_next s. \<forall>i < j. \<not> halts c i)"

lemma serial_step:
  assumes "flat_step c s t" "flat_inv c s" "serial_inv c s" "fc_max_parallel c = 1"
  shows "serial_inv c t"
  using assms
proof (induction rule: flat_step.induct)
  case (recheck_go s)
  then have "card (busy s) = 0" by (simp add: flat_inv_def held_def)
  then have none: "busy s = {}" by simp
  have "\<not> halts c i" if "i < fr_next s" for i
  proof -
    have "fr_stage s i \<noteq> NotStarted" using inv_started recheck_go(3) that by blast
    with none that have "fr_stage s i = Released \<or> fr_stage s i = Lost"
      by (cases "fr_stage s i") (auto simp: busy_def)
    then show ?thesis
      using recheck_go by (auto simp: flat_inv_def stages_ok_def drain_ok_def results_ok_def halts_def)
  qed
  with recheck_go show ?case by (simp add: serial_inv_def)
next
  case (spawn s)
  then show ?case by (simp add: serial_inv_def less_Suc_eq)
qed (simp_all add: serial_inv_def)

lemma serial_reach: "flat_reach c (start_flat c) s \<Longrightarrow> fc_max_parallel c = 1 \<Longrightarrow> serial_inv c s"
proof (induction rule: flat_reach.induct)
  case (flat_run t u)
  then show ?case using serial_step flat_inv_reach start_inv by blast
next
  case (flat_signal t u)
  from flat_signal(2) flat_signal(3) [OF flat_signal(4)] show ?case
    by (induction rule: operator_step.induct) (simp_all add: serial_inv_def)
qed (simp add: serial_inv_def start_flat_def)

text \<open>
  C18: Halting on failure: once the run drains, because a failed task halted it or the operator asked, at most
  one more task is started, the one the driver had already decided on; and with one permit none is started
  after a failed task, since the failed task drains the run before it gives its permit back.
\<close>

theorem halt_on_failure_stops:
  assumes "flat_reach c (start_flat c) s" "flat_reach c s t"
  shows "(ct_drain (fr_cancel s) \<longrightarrow> fr_next t \<le> fr_next s + (if fr_phase s = Spawning then 1 else 0)) \<and>
         (fc_max_parallel c = 1 \<longrightarrow> (\<forall>i j. i < j \<and> fr_stage s j \<noteq> NotStarted \<longrightarrow> \<not> halts c i))"
proof -
  have "flat_inv c s" using flat_inv_reach [OF assms(1)] start_inv by simp
  then have "fr_stage s j \<noteq> NotStarted \<longleftrightarrow> j < fr_next s" for j by (rule inv_started)
  then show ?thesis
    using phase_of_draining [OF assms(2)] serial_reach [OF assms(1)] by (auto simp: serial_inv_def)
qed

section \<open>Runs end\<close>

fun phase_weight :: "DriverPhase \<Rightarrow> nat" where
  "phase_weight AtTop = 5" | "phase_weight Acquiring = 4" | "phase_weight Rechecking = 3"
| "phase_weight Spawning = 2" | "phase_weight Joining = 1" | "phase_weight Finished = 0"

fun stage_weight :: "TaskStage \<Rightarrow> nat" where
  "stage_weight NotStarted = 8" | "stage_weight Executing = 3" | "stage_weight Recorded = 2"
| "stage_weight Drained = 1" | "stage_weight Released = 0" | "stage_weight Lost = 0"

definition run_weight :: "FlatConfig \<Rightarrow> FlatRun \<Rightarrow> nat" where
  "run_weight c s = phase_weight (fr_phase s) + (\<Sum>i < fc_tasks c. stage_weight (fr_stage s i))"

lemma sum_stage_upd:
  assumes "i < (n :: nat)"
  shows "(\<Sum>j < n. stage_weight ((f(i := x)) j)) + stage_weight (f i) = (\<Sum>j < n. stage_weight (f j)) + stage_weight x"
proof -
  have "(\<Sum>j < n. stage_weight (g j)) = stage_weight (g i) + (\<Sum>j \<in> {..<n} - {i}. stage_weight (g j))" for g
    using assms by (simp add: sum.remove)
  moreover have "(\<Sum>j \<in> {..<n} - {i}. stage_weight ((f(i := x)) j)) = (\<Sum>j \<in> {..<n} - {i}. stage_weight (f j))"
    by (rule sum.cong) auto
  ultimately show ?thesis by simp
qed

lemma started_lt: "flat_inv c s \<Longrightarrow> fr_stage s i \<noteq> NotStarted \<Longrightarrow> i < fc_tasks c"
  by (auto simp: flat_inv_def stages_ok_def order_ok_def)

lemma step_decreases: "flat_step c s t \<Longrightarrow> flat_inv c s \<Longrightarrow> run_weight c t < run_weight c s"
proof (induction rule: flat_step.induct)
  case (spawn s)
  then have "fr_next s < fc_tasks c" "fr_stage s (fr_next s) = NotStarted"
    by (simp_all add: flat_inv_def stages_ok_def order_ok_def)
  with spawn show ?case
    using sum_stage_upd [of "fr_next s" "fc_tasks c" "fr_stage s" Executing] by (simp add: run_weight_def)
next
  case (finish s i r)
  then show ?case
    using sum_stage_upd [of i "fc_tasks c" "fr_stage s" Recorded] started_lt [of c s i] by (simp add: run_weight_def)
next
  case (panic s i)
  then show ?case
    using sum_stage_upd [of i "fc_tasks c" "fr_stage s" Lost] started_lt [of c s i] by (simp add: run_weight_def)
next
  case (halt s i)
  then show ?case
    using sum_stage_upd [of i "fc_tasks c" "fr_stage s" Drained] started_lt [of c s i] by (simp add: run_weight_def)
next
  case (release s i)
  then show ?case
    using sum_stage_upd [of i "fc_tasks c" "fr_stage s" Released] started_lt [of c s i]
    by (auto simp: run_weight_def)
qed (simp_all add: run_weight_def)

lemma busy_task_steps: "i \<in> busy s \<Longrightarrow> \<exists>t. flat_step c s t"
  by (cases "fr_stage s i"; cases "fc_result c i"; cases "halts c i")
    (auto simp: busy_def intro: flat_step.finish flat_step.panic flat_step.halt flat_step.release)

lemma unfinished_steps:
  assumes "flat_inv c s" "0 < fc_max_parallel c" "fr_phase s \<noteq> Finished"
  shows "\<exists>t. flat_step c s t"
proof (cases "busy s = {}")
  case True
  have permits: "fr_phase s = Acquiring \<Longrightarrow> 0 < fr_permits s"
    using assms True by (simp add: flat_inv_def held_def)
  have over: "fr_stage s i = Released \<or> fr_stage s i = Lost" if "i < fr_next s" for i
    using that True assms(1) by (cases "fr_stage s i") (auto simp: busy_def flat_inv_def stages_ok_def order_ok_def)
  have le: "fr_next s \<le> fc_tasks c" using assms(1) by (simp add: flat_inv_def stages_ok_def order_ok_def)
  show ?thesis
  proof (cases "fr_phase s")
    case AtTop
    then show ?thesis using le flat_step.top_break [of s c] flat_step.top_go [of s c] by (meson le_neq_implies_less)
  qed (use assms(3) permits over in \<open>blast intro: flat_step.intros\<close>)+
next
  case False
  then show ?thesis using busy_task_steps by blast
qed

text \<open>
  C19: Every run ends: with at least one permit a reachable state that is not finished has a step of the driver or
  of a task, and each such step lowers a weight that depends on the number of tasks only, so no schedule of
  them goes on for ever; signals of the operator do not raise it.
\<close>

theorem flat_run_ends:
  assumes "flat_reach c (start_flat c) s" "0 < fc_max_parallel c"
  shows "(fr_phase s \<noteq> Finished \<longrightarrow> (\<exists>t. flat_step c s t)) \<and> (\<forall>t. flat_step c s t \<longrightarrow> run_weight c t < run_weight c s) \<and>
         (\<forall>t. operator_step s t \<longrightarrow> run_weight c t = run_weight c s) \<and> run_weight c s \<le> 5 + 8 * fc_tasks c"
proof -
  have inv: "flat_inv c s" using flat_inv_reach [OF assms(1)] start_inv by simp
  have "stage_weight st \<le> 8" for st by (cases st) auto
  then have "(\<Sum>i < fc_tasks c. stage_weight (fr_stage s i)) \<le> (\<Sum>i < fc_tasks c. 8)" by (intro sum_mono) simp
  moreover have "phase_weight ph \<le> 5" for ph by (cases ph) auto
  ultimately have "run_weight c s \<le> 5 + 8 * fc_tasks c"
    unfolding run_weight_def by (simp add: add_mono mult.commute)
  moreover have "\<forall>t. operator_step s t \<longrightarrow> run_weight c t = run_weight c s"
    by (auto simp: run_weight_def elim: operator_step.cases)
  ultimately show ?thesis using unfinished_steps [OF inv assms(2)] step_decreases [OF _ inv] by blast
qed

section \<open>The exit code\<close>








text \<open>When a task panics: its session ended with something else than code zero and the classification of its
  logs panicked.\<close>

lemma execute_task_panics:
  "execute_task cd env ic claude rid runs src task w = Panics \<longleftrightarrow>
     (\<exists>cwd. (if task_use_worktree task then tw_worktree w else Inr (task_directory task)) = Inr cwd \<and>
        detect_failure_reason env (tw_files w)
          (so_exit_code (run_to_completion (cd_from_str cd) (cd_print cd) (cd_show_int cd)
             (tw_child w (task_cmd ic claude rid src task cwd))))
          (Some (path_join (path_join (path_join (path_join runs rid) ''tasks'') (task_id task)) ''stdout.log''))
          (Some (path_join (path_join (path_join (path_join runs rid) ''tasks'') (task_id task)) ''stderr.log'')) = Panics)"
proof -
  have "on_return x (\<lambda>r. Returns (f r)) = Panics \<longleftrightarrow> x = Panics" for x :: "FailureReason option outcome" and f :: "FailureReason option \<Rightarrow> TaskRecord"
    by (cases x) auto
  then show ?thesis by (auto simp: execute_task_def Let_def split: sum.splits)
qed

section \<open>Example runs\<close>

definition lost_config :: FlatConfig where
  "lost_config = \<lparr>fc_tasks = 1, fc_max_parallel = 1, fc_halt = True, fc_result = (\<lambda>_. Panics)\<rparr>"

definition flat_state :: "nat \<Rightarrow> DriverPhase \<Rightarrow> nat \<Rightarrow> (nat \<Rightarrow> TaskStage) \<Rightarrow> TaskRecord list \<Rightarrow> bool \<Rightarrow> FlatRun" where
  "flat_state n ph k stage rs drained = \<lparr>fr_next = n, fr_phase = ph, fr_permits = k, fr_stage = stage, fr_records = rs,
     fr_cancel = (if drained then cancel_drain new_cancel else new_cancel), fr_halt_drained = drained\<rparr>"

lemmas flat_example = flat_state_def start_flat_def lost_config_def new_cancel_def cancel_drain_def halts_def



theorem flat_run_ends_witness:
  "\<exists>t. flat_step lost_config (start_flat lost_config) t \<and> run_weight lost_config t < run_weight lost_config (start_flat lost_config)"
  using flat_run_ends [of lost_config "start_flat lost_config", OF flat_refl]
  by (auto simp: lost_config_def start_flat_def)

theorem flat_bounded_witness:
  "card {i. fr_stage (start_flat lost_config) i \<in> {Executing, Recorded, Drained}} \<le> 1"
  using flat_bounded [OF flat_refl, of lost_config] by (simp add: lost_config_def)

definition failed_rec :: TaskRecord where
  "failed_rec = worktree_failed_record \<lparr>task_id = ''a'', task_directory = ''/r'', task_prompt = ''p'', task_branch = None,
     task_model = ''m'', task_effort = High, task_tools = [], task_timeout_secs = 1, task_use_worktree = True,
     task_env = [], task_resume_session_id = None\<rparr> ''log'' ''e'' 0"

definition halt_config :: FlatConfig where
  "halt_config = \<lparr>fc_tasks = 2, fc_max_parallel = 2, fc_halt = True, fc_result = (\<lambda>_. Returns failed_rec)\<rparr>"

lemma late_run:
  "flat_reach halt_config (start_flat halt_config)
     (flat_state 1 Spawning 0 ((\<lambda>_. NotStarted)(0 := Drained)) [failed_rec] True)"
proof -
  let ?none = "\<lambda>_. NotStarted"
  note ex = flat_example halt_config_def failed_rec_def worktree_failed_record_def task_failed_def
  have "flat_reach halt_config (start_flat halt_config) (flat_state 0 Acquiring 2 ?none [] False)"
    using flat_run [OF flat_refl flat_step.top_go, of "start_flat halt_config" halt_config] by (simp add: ex)
  from flat_run [OF this flat_step.acquire]
  have "flat_reach halt_config (start_flat halt_config) (flat_state 0 Rechecking 1 ?none [] False)" by (simp add: ex)
  from flat_run [OF this flat_step.recheck_go]
  have "flat_reach halt_config (start_flat halt_config) (flat_state 0 Spawning 1 ?none [] False)" by (simp add: ex)
  from flat_run [OF this flat_step.spawn]
  have "flat_reach halt_config (start_flat halt_config) (flat_state 1 AtTop 1 (?none(0 := Executing)) [] False)" by (simp add: ex)
  from flat_run [OF this flat_step.top_go]
  have "flat_reach halt_config (start_flat halt_config) (flat_state 1 Acquiring 1 (?none(0 := Executing)) [] False)" by (simp add: ex)
  from flat_run [OF this flat_step.acquire]
  have "flat_reach halt_config (start_flat halt_config) (flat_state 1 Rechecking 0 (?none(0 := Executing)) [] False)" by (simp add: ex)
  from flat_run [OF this flat_step.recheck_go]
  have "flat_reach halt_config (start_flat halt_config) (flat_state 1 Spawning 0 (?none(0 := Executing)) [] False)" by (simp add: ex)
  from flat_run [OF this flat_step.finish [of _ 0]]
  have "flat_reach halt_config (start_flat halt_config) (flat_state 1 Spawning 0 (?none(0 := Recorded)) [failed_rec] False)"
    by (simp add: ex)
  from flat_run [OF this flat_step.halt [of _ 0]]
  show ?thesis by (simp add: ex)
qed

definition late_state :: FlatRun where
  "late_state = flat_state 1 Spawning 0 ((\<lambda>_. NotStarted)(0 := Drained)) [failed_rec] True"

theorem halt_on_failure_stops_witness:
  "ct_drain (fr_cancel late_state) \<and>
   flat_reach halt_config late_state
     (late_state\<lparr>fr_phase := AtTop, fr_stage := (fr_stage late_state)(1 := Executing), fr_next := 2\<rparr>) \<and>
   fr_next (late_state\<lparr>fr_phase := AtTop, fr_stage := (fr_stage late_state)(1 := Executing), fr_next := 2\<rparr>) \<le> fr_next late_state + 1"
proof -
  have r: "flat_reach halt_config late_state
     (late_state\<lparr>fr_phase := AtTop, fr_stage := (fr_stage late_state)(1 := Executing), fr_next := 2\<rparr>)"
    using flat_run [OF flat_refl flat_step.spawn, of late_state halt_config]
    by (simp add: late_state_def flat_state_def numeral_2_eq_2)
  have d: "ct_drain (fr_cancel late_state)" "fr_phase late_state = Spawning"
    by (simp_all add: late_state_def flat_state_def cancel_drain_def)
  show ?thesis
    using halt_on_failure_stops [OF late_run [folded late_state_def] r] r d by simp
qed

end
