(* ===== verification/Container_Run.thy ===== *)
theory Container_Run
  imports Failure_Classify Validate_Facts Spawn_Args "HOL-Library.Product_Lexorder" "HOL-Library.List_Lexorder" "HOL-Library.Char_ord"
begin

text \<open>
  Container dispatch (\<^verbatim>\<open>dispatch/container.rs\<close>) and the derived images it runs
  (\<^verbatim>\<open>dispatch/container_build.rs\<close>, \<^verbatim>\<open>dispatch/container_prune.rs\<close>): the choice of runtime, the argument
  vector of \<^verbatim>\<open>run\<close>, the tag of a derived image with the bytes that are hashed for it, the Dockerfile, and
  the classification of tags for pruning. The terminal, the user ids, the free port, the file with the
  stripped manifest and the presence of images are inputs; the hash is an argument.
\<close>

section \<open>Paths\<close>

text \<open>Paths are compared by their components: repeated separators and inner dots do not count.\<close>

definition path_components :: "string \<Rightarrow> bool \<times> string list" where
  "path_components p =
     (let cs = filter (\<lambda>c. c \<noteq> []) (split_on (CHR ''/'') p)
      in if is_absolute p then (True, filter (\<lambda>c. c \<noteq> ''.'') cs)
         else (False, case cs of [] \<Rightarrow> [] | c # r \<Rightarrow> c # filter (\<lambda>c. c \<noteq> ''.'') r))"

definition same_path :: "string \<Rightarrow> string \<Rightarrow> bool" where
  "same_path p q \<longleftrightarrow> path_components p = path_components q"

definition path_push :: "string \<Rightarrow> string \<Rightarrow> string" where
  "path_push p q =
     (if is_absolute q then q else if p = [] \<or> last p = CHR ''/'' then p @ q else p @ ''/'' @ q)"

definition expand_tilde :: "string option \<Rightarrow> string \<Rightarrow> string" where
  "expand_tilde home p =
     (case strip_prefix ''~/'' p of
        Some rest \<Rightarrow> (case home of Some h \<Rightarrow> path_push h rest | None \<Rightarrow> p)
      | None \<Rightarrow> if p = ''~'' then (case home of Some h \<Rightarrow> h | None \<Rightarrow> p) else p)"

section \<open>The runtime\<close>

datatype RuntimeError = NoRuntime | RuntimeMissing string | UnknownRuntime string

definition detect_runtime ::
  "(string \<Rightarrow> bool) \<Rightarrow> string option \<Rightarrow> string option \<Rightarrow> string option \<Rightarrow> RuntimeError + string" where
  "detect_runtime installed env_var runtime_override manifest_runtime =
     (let preferred = (case runtime_override of Some r \<Rightarrow> r
            | None \<Rightarrow> (case manifest_runtime of Some r \<Rightarrow> r
            | None \<Rightarrow> (case env_var of Some _ \<Rightarrow> [] | None \<Rightarrow> ''auto'')));
          env_val = (case env_var of Some v \<Rightarrow> v | None \<Rightarrow> []);
          preferred = (if preferred = [] then env_val else preferred)
      in if preferred = ''auto'' \<or> preferred = []
         then (if installed ''podman'' then Inr ''podman''
               else if installed ''docker'' then Inr ''docker'' else Inl NoRuntime)
         else if preferred = ''podman'' \<or> preferred = ''docker''
         then (if installed preferred then Inr preferred else Inl (RuntimeMissing preferred))
         else Inl (UnknownRuntime preferred))"

section \<open>The argument vector\<close>

definition DEFAULT_IMAGE :: string where
  "DEFAULT_IMAGE = ''ghcr.io/sds-mode/pitboss-with-claude:latest''"

record Host =
  ho_tty :: bool
  ho_rootless :: bool
  ho_uid :: nat
  ho_gid :: nat
  ho_home :: "string option"
  ho_runs_base :: string
  ho_stripped :: "string + string"
  ho_port :: "nat option"
  ho_macos :: bool

datatype ContainerError =
    StripFailed string
  | ExtraArgs ManifestError
  | BadAptPackage string

text \<open>The environment variables that the operator's own arguments already set.\<close>

fun extra_args_overrides_env :: "string list \<Rightarrow> string \<Rightarrow> bool" where
  "extra_args_overrides_env [] key = False"
| "extra_args_overrides_env (arg # rest) key =
     (let sets = (\<lambda>v. v = key \<or> starts_with v (key @ ''=''))
      in if arg = ''-e'' \<or> arg = ''--env''
         then (case rest of
                 [] \<Rightarrow> False
               | nxt # rest' \<Rightarrow> sets nxt \<or> extra_args_overrides_env rest' key)
         else list_ex (\<lambda>p. case strip_prefix p arg of Some r \<Rightarrow> sets r | None \<Rightarrow> False) [''-e='', ''--env=''] \<or>
              extra_args_overrides_env rest key)"

definition volume :: "string \<Rightarrow> string \<Rightarrow> string \<Rightarrow> string" where
  "volume host target mode = host @ '':'' @ target @ '':'' @ mode"

definition user_args :: "Host \<Rightarrow> string \<Rightarrow> string list" where
  "user_args h runtime =
     (let is_podman = (snd (path_components runtime) \<noteq> [] \<and> last (snd (path_components runtime)) = ''podman'')
      in if is_podman \<and> ho_rootless h then [''--userns=keep-id'']
         else if \<not> is_podman
         then (if ho_uid h \<noteq> 1000 then [''-u'', show_nat (ho_uid h) @ '':'' @ show_nat (ho_gid h)] else [])
         else [])"

definition declared_mounts :: "Host \<Rightarrow> ContainerConfig \<Rightarrow> string list" where
  "declared_mounts h c =
     concat (map (\<lambda>m. [''-v'', volume (expand_tilde (ho_home h) (mount_host m)) (mount_container m)
                          (if mount_readonly m then ''ro,z'' else ''rw,z'')]) (cc_mounts c))"

definition covered :: "ContainerConfig \<Rightarrow> string \<Rightarrow> bool" where
  "covered c p \<longleftrightarrow> list_ex (\<lambda>m. same_path (mount_container m) p) (cc_mounts c)"

definition claude_dir :: string where
  "claude_dir = ''/home/pitboss/.claude''"

definition runs_dir :: string where
  "runs_dir = ''/home/pitboss/.local/share/pitboss/runs''"

definition auto_mounts :: "Host \<Rightarrow> ContainerConfig \<Rightarrow> string option \<Rightarrow> string \<Rightarrow> string list" where
  "auto_mounts h c run_dir_override manifest_host =
     (if covered c claude_dir then []
      else case ho_home h of
             Some home \<Rightarrow> [''-v'', volume (path_push home ''.claude'') claude_dir
                             (if cc_claude_mount_rw c then ''rw,z'' else ''ro,z'')]
           | None \<Rightarrow> []) @
     (if covered c runs_dir then []
      else [''-v'', volume (case run_dir_override of Some d \<Rightarrow> d | None \<Rightarrow> ho_runs_base h) runs_dir ''rw,z'']) @
     [''-v'', manifest_host @ '':/run/pitboss.toml:ro,z'']"

definition container_workdir :: "ContainerConfig \<Rightarrow> string" where
  "container_workdir c =
     (case cc_workdir c of Some w \<Rightarrow> w
      | None \<Rightarrow> (case cc_mounts c of m # _ \<Rightarrow> mount_container m | [] \<Rightarrow> ''/home/pitboss''))"

definition inner_command :: "bool \<Rightarrow> ContainerConfig \<Rightarrow> string option \<Rightarrow> string list" where
  "inner_command bootstrap_apt c rid =
     (let id_args = (case rid of Some i \<Rightarrow> [''--internal-run-id'', i] | None \<Rightarrow> [])
      in if bootstrap_apt
         then [''sh'', ''-c'',
               ''apt-get update && apt-get install -y --no-install-recommends '' @ join_str '' '' (cc_extra_apt c) @
               '' && exec runuser -u pitboss -- pitboss dispatch /run/pitboss.toml'' @
               (case rid of Some i \<Rightarrow> '' --internal-run-id '' @ i | None \<Rightarrow> [])]
         else [''pitboss'', ''dispatch'', ''/run/pitboss.toml''] @ id_args)"

definition build_run_args ::
  "Host \<Rightarrow> string \<Rightarrow> ContainerConfig \<Rightarrow> string option \<Rightarrow> string option \<Rightarrow> string option \<Rightarrow> ContainerError + string list" where
  "build_run_args h runtime c run_dir_override derived_image rid =
     (case ho_stripped h of
        Inl e \<Rightarrow> Inl (StripFailed e)
      | Inr manifest_host \<Rightarrow>
          (let pre = [''run'', ''--rm''] @ (if ho_tty h then [''-it''] else []) @ user_args h runtime @ declared_mounts h c @
                 auto_mounts h c run_dir_override manifest_host @ [''-w'', container_workdir c] @
                 (case ho_port h of
                    Some p \<Rightarrow> [''-p'', ''127.0.0.1:'' @ show_nat p @ '':'' @ show_nat p,
                               ''-e'', ''PITBOSS_CONTROL_TCP_PORT='' @ show_nat p]
                  | None \<Rightarrow> []) @
                 (if ho_macos h \<and> \<not> extra_args_overrides_env (cc_extra_args c) ''XDG_RUNTIME_DIR''
                  then [''-e'', ''XDG_RUNTIME_DIR=/tmp''] else []);
               bootstrap_apt = (cc_extra_apt c \<noteq> [] \<and> derived_image = None);
               image = (case derived_image of Some t \<Rightarrow> t
                        | None \<Rightarrow> (case cc_image c of Some i \<Rightarrow> i | None \<Rightarrow> DEFAULT_IMAGE))
           in case validate_extra_args (cc_extra_args c) of
                Inl e \<Rightarrow> Inl (ExtraArgs e)
              | Inr _ \<Rightarrow>
                  (case (if bootstrap_apt then find (\<lambda>p. \<not> is_valid_apt_pkg p) (cc_extra_apt c) else None) of
                     Some p \<Rightarrow> Inl (BadAptPackage p)
                   | None \<Rightarrow>
                       Inr (pre @ cc_extra_args c @ (if bootstrap_apt then [''-u'', ''0:0''] else []) @ [image] @
                            inner_command bootstrap_apt c rid))))"

section \<open>Derived images\<close>

text \<open>A file system entry below a copied path.\<close>

datatype FsNode = FsDir string "FsNode list" | FsFile string string | FsSpecial string

fun node_name :: "FsNode \<Rightarrow> string" where
  "node_name (FsDir n _) = n" | "node_name (FsFile n _) = n" | "node_name (FsSpecial n) = n"

text \<open>\<^verbatim>\<open>meta.len().to_le_bytes()\<close>.\<close>

fun le_bytes :: "nat \<Rightarrow> nat \<Rightarrow> string" where
  "le_bytes 0 n = []"
| "le_bytes (Suc k) n = char_of (n mod 256) # le_bytes k (n div 256)"

text \<open>The bytes fed to the hash for an entry; the entries of a directory come sorted by name, and names
  are distinct.\<close>

fun hash_path_into :: "FsNode \<Rightarrow> string" where
  "hash_path_into (FsDir name items) = ''D|'' @ name @ [CHR 0x0A] @ concat (map hash_path_into items)"
| "hash_path_into (FsFile name content) =
     ''F|'' @ name @ ''|len='' @ le_bytes 8 (length content) @ ''|bytes='' @ content @ [CHR 0x0A]"
| "hash_path_into (FsSpecial name) = ''S|'' @ name @ [CHR 0x0A]"

text \<open>Strings are ordered by their bytes, paths component by component, the root before a parent step before a name.\<close>

definition component_key :: "string \<Rightarrow> nat \<times> string" where
  "component_key c = (if c = ''.'' then (1, []) else if c = ''..'' then (2, []) else (3, c))"

definition copy_sort_key :: "string \<Rightarrow> (nat \<times> string) list" where
  "copy_sort_key p = (let (rooted, cs) = path_components p in (if rooted then [(0, [])] else []) @ map component_key cs)"

text \<open>What is hashed for a tag: the base image, the packages and the copied contents, each sorted.\<close>

definition tag_input :: "(string \<Rightarrow> string) \<Rightarrow> string \<Rightarrow> string list \<Rightarrow> (string \<times> FsNode) list \<Rightarrow> string" where
  "tag_input sha_hex base apt copies =
     ''pitboss-derived-tag-v1'' @ [CHR 0x0A] @ ''base='' @ base @ [CHR 0x0A] @
     concat (map (\<lambda>p. ''apt='' @ p @ [CHR 0x0A]) (sort apt)) @
     concat (map (\<lambda>(target, node). ''copy_container='' @ target @ [CHR 0x0A] @ ''copy_host_bytes='' @
                    sha_hex (hash_path_into node) @ [CHR 0x0A])
       (sort_key (\<lambda>x. copy_sort_key (fst x)) copies))"

text \<open>The source of every copy is read from the file system; one that cannot be read is an error.\<close>

definition read_copies :: "(string \<Rightarrow> FsNode option) \<Rightarrow> ContainerConfig \<Rightarrow> (string \<times> FsNode) list option" where
  "read_copies fs c =
     those (map (\<lambda>s. map_option (\<lambda>n. (copy_container s, n)) (fs (copy_host s))) (cc_copy c))"

definition derived_image_tag ::
  "(string \<Rightarrow> string) \<Rightarrow> (string \<Rightarrow> FsNode option) \<Rightarrow> ContainerConfig \<Rightarrow> string + string option" where
  "derived_image_tag sha_hex fs c =
     (if cc_extra_apt c = [] \<and> cc_copy c = [] then Inr None
      else case read_copies fs c of
             None \<Rightarrow> Inl ''hashing copy source''
           | Some copies \<Rightarrow>
               Inr (Some (''pitboss-derived-'' @
                 take 12 (sha_hex (tag_input sha_hex (case cc_image c of Some i \<Rightarrow> i | None \<Rightarrow> DEFAULT_IMAGE)
                            (cc_extra_apt c) copies)) @ '':local'')))"

fun enumerate_from :: "nat \<Rightarrow> 'a list \<Rightarrow> (nat \<times> 'a) list" where
  "enumerate_from n [] = []"
| "enumerate_from n (x # xs) = (n, x) # enumerate_from (Suc n) xs"

definition synthesize_dockerfile :: "ContainerConfig \<Rightarrow> string list" where
  "synthesize_dockerfile c =
     (let base = (case cc_image c of Some i \<Rightarrow> i | None \<Rightarrow> DEFAULT_IMAGE);
          apt = cc_extra_apt c \<noteq> [];
          cp = cc_copy c \<noteq> []
      in [''# Auto-generated by `pitboss container-build` '' @ [CHR 0xE2, CHR 0x80, CHR 0x94] @ '' do not edit.'', ''FROM '' @ base] @
         (if apt then [''USER root'', ''RUN apt-get update '' @ [CHR 0x5C],
            '' && apt-get install -y --no-install-recommends'' @ concat (map (\<lambda>p. '' '' @ p) (cc_extra_apt c)) @ '' '' @ [CHR 0x5C],
            '' && rm -rf /var/lib/apt/lists/*''] else []) @
         (if cp then (if apt then [] else [''USER root'']) @
            map (\<lambda>(i, s). ''COPY --chown=pitboss:pitboss copy'' @ show_nat i @ '' '' @ copy_container s)
              (enumerate_from 0 (cc_copy c)) else []) @
         (if apt \<or> cp then [''USER pitboss''] else []))"

text \<open>\<^verbatim>\<open>derived_fallback_warning\<close>: whether the slow path is worth a warning.\<close>

definition derived_fallback_warning :: "ContainerConfig \<Rightarrow> string option \<Rightarrow> bool \<Rightarrow> string option" where
  "derived_fallback_warning c derived_tag use_derived =
     (if use_derived \<or> cc_extra_apt c = [] \<or> cc_copy c \<noteq> [] then None else derived_tag)"

text \<open>What the commands ask of the host: the installed runtimes, the environment variable, the hash, the
  files below a copied path (its tilde expanded), and whether the runtime has an image.\<close>

record Images =
  im_installed :: "string \<Rightarrow> bool"
  im_env :: "string option"
  im_sha_hex :: "string \<Rightarrow> string"
  im_files :: "string \<Rightarrow> FsNode option"
  im_exists :: "string \<Rightarrow> string \<Rightarrow> string + bool"

datatype CommandError =
    CeRuntime RuntimeError
  | CeTag string
  | CeImageQuery string
  | CeNeedsBuild
  | CeNothingToBuild
  | CeArgs ContainerError
  | CeStaging string
  | CeListing string
  | CeManifest string
  | CeNotRemoved nat

text \<open>The command a container dispatch runs, with the warning it prints first. The error of a manifest
  path that cannot be made absolute comes with the stripped manifest.\<close>

record Launch =
  la_runtime :: string
  la_args :: "string list"
  la_warning :: "string option"
  la_executed :: bool

definition run_container_dispatch ::
  "Images \<Rightarrow> Host \<Rightarrow> ContainerConfig \<Rightarrow> string option \<Rightarrow> bool \<Rightarrow> string option \<Rightarrow> string \<Rightarrow> CommandError + Launch" where
  "run_container_dispatch im h c run_dir_override dry_run runtime_override rid =
     (case detect_runtime (im_installed im) (im_env im) runtime_override (cc_runtime c) of
        Inl e \<Rightarrow> Inl (CeRuntime e)
      | Inr runtime \<Rightarrow>
          (case derived_image_tag (im_sha_hex im) (im_files im) c of
             Inl e \<Rightarrow> Inl (CeTag e)
           | Inr derived \<Rightarrow>
               (case (case derived of Some tag \<Rightarrow> im_exists im runtime tag | None \<Rightarrow> Inr False) of
                  Inl e \<Rightarrow> Inl (CeImageQuery e)
                | Inr use_derived \<Rightarrow>
                    (if cc_copy c \<noteq> [] \<and> \<not> use_derived then Inl CeNeedsBuild
                     else
                       (case build_run_args h runtime c run_dir_override (if use_derived then derived else None) (Some rid) of
                          Inl e \<Rightarrow> Inl (CeArgs e)
                        | Inr args \<Rightarrow>
                            Inr \<lparr>la_runtime = runtime, la_args = args,
                                 la_warning = derived_fallback_warning c derived use_derived,
                                 la_executed = (\<not> dry_run)\<rparr>)))))"

text \<open>Building a derived image. The staging copies the files into the build context; what is neither a file
  nor a directory cannot be staged.\<close>

record BuildOptions =
  bo_no_cache :: bool
  bo_print_dockerfile :: bool
  bo_dry_run :: bool
  bo_runtime_override :: "string option"

datatype BuildResult =
    PrintedDockerfile "string list"
  | AlreadyExists string
  | PrintedCommand string "string list"
  | RanBuild string "string list"

fun copy_path_ok :: "FsNode \<Rightarrow> bool" where
  "copy_path_ok (FsDir _ items) = list_all copy_path_ok items"
| "copy_path_ok (FsFile _ _) = True"
| "copy_path_ok (FsSpecial _) = False"

definition stage_error :: "(string \<Rightarrow> FsNode option) \<Rightarrow> CopySpec list \<Rightarrow> string option" where
  "stage_error fs specs =
     map_option copy_host
       (find (\<lambda>s. case fs (copy_host s) of None \<Rightarrow> True | Some n \<Rightarrow> \<not> copy_path_ok n) specs)"

definition run_container_build ::
  "Images \<Rightarrow> string \<Rightarrow> BuildOptions \<Rightarrow> ContainerConfig \<Rightarrow> CommandError + BuildResult" where
  "run_container_build im context_dir opts c =
     (if bo_print_dockerfile opts then Inr (PrintedDockerfile (synthesize_dockerfile c))
      else
        (case derived_image_tag (im_sha_hex im) (im_files im) c of
           Inl e \<Rightarrow> Inl (CeTag e)
         | Inr None \<Rightarrow> Inl CeNothingToBuild
         | Inr (Some tag) \<Rightarrow>
             (case detect_runtime (im_installed im) (im_env im) (bo_runtime_override opts) (cc_runtime c) of
                Inl e \<Rightarrow> Inl (CeRuntime e)
              | Inr runtime \<Rightarrow>
                  (case (if bo_no_cache opts then Inr False else im_exists im runtime tag) of
                     Inl e \<Rightarrow> Inl (CeImageQuery e)
                   | Inr True \<Rightarrow> Inr (AlreadyExists tag)
                   | Inr False \<Rightarrow>
                       (case stage_error (im_files im) (cc_copy c) of
                          Some host \<Rightarrow> Inl (CeStaging host)
                        | None \<Rightarrow>
                            (let args = [''build'', ''--layers'', ''-t'', tag, ''-f'', path_push context_dir ''Dockerfile'', context_dir] @
                                   (if bo_no_cache opts then [''--no-cache''] else [])
                             in if bo_dry_run opts then Inr (PrintedCommand runtime args)
                                else Inr (RanBuild runtime args)))))))"

section \<open>Pruning\<close>

datatype TagStatus = TagActive | TagStale

definition is_hexdigit :: "char \<Rightarrow> bool" where
  "is_hexdigit x \<longleftrightarrow> (let n = (of_char x :: nat) in (48 \<le> n \<and> n \<le> 57) \<or> (65 \<le> n \<and> n \<le> 70) \<or> (97 \<le> n \<and> n \<le> 102))"

definition canonicalize_derived_tag :: "string \<Rightarrow> string" where
  "canonicalize_derived_tag tag = (case strip_prefix ''localhost/'' tag of Some r \<Rightarrow> r | None \<Rightarrow> tag)"

definition is_pitboss_derived_tag :: "string \<Rightarrow> bool" where
  "is_pitboss_derived_tag tag =
     (case strip_prefix ''pitboss-derived-'' (canonicalize_derived_tag tag) of
        None \<Rightarrow> False
      | Some rest \<Rightarrow>
          (case strip_suffix '':local'' rest of
             None \<Rightarrow> False
           | Some hex \<Rightarrow> hex \<noteq> [] \<and> list_all is_hexdigit hex))"

definition list_derived_tags :: "string list \<Rightarrow> string list" where
  "list_derived_tags ls = filter is_pitboss_derived_tag (filter (\<lambda>l. l \<noteq> []) (map trim ls))"

definition report_key :: "string \<times> TagStatus \<Rightarrow> nat \<times> string" where
  "report_key r = (case snd r of TagActive \<Rightarrow> 0 | TagStale \<Rightarrow> 1, fst r)"

definition classify_tags :: "string list \<Rightarrow> string set \<Rightarrow> (string \<times> TagStatus) list" where
  "classify_tags live_tags active_set =
     sort_key report_key (map (\<lambda>tag. (tag, if canonicalize_derived_tag tag \<in> active_set then TagActive else TagStale)) live_tags)"

text \<open>The tags the manifests on the command line stand for; the first that cannot be loaded or hashed is an
  error. A manifest is given by its container section, if it has one.\<close>

fun compute_reference_set ::
  "(ContainerConfig \<Rightarrow> string + string option) \<Rightarrow> (string + ContainerConfig option) list \<Rightarrow> CommandError + string set" where
  "compute_reference_set tag_of [] = Inr {}"
| "compute_reference_set tag_of (Inl e # ms) = Inl (CeManifest e)"
| "compute_reference_set tag_of (Inr None # ms) = compute_reference_set tag_of ms"
| "compute_reference_set tag_of (Inr (Some c) # ms) =
     (case tag_of c of
        Inl e \<Rightarrow> Inl (CeTag e)
      | Inr t \<Rightarrow> map_sum id (\<lambda>set. case t of Some tag \<Rightarrow> insert tag set | None \<Rightarrow> set) (compute_reference_set tag_of ms))"

text \<open>The tags a prune removes, in order, and how the command ends; \<open>removal_fails\<close> is what the runtime does.\<close>

definition run_container_prune ::
  "Images \<Rightarrow> string option \<Rightarrow> bool \<Rightarrow> string + string list \<Rightarrow> (string \<Rightarrow> bool) \<Rightarrow> (string + ContainerConfig option) list \<Rightarrow>
   string list \<times> (CommandError + unit)" where
  "run_container_prune im runtime_override apply_it listing removal_fails manifests =
     (case detect_runtime (im_installed im) (im_env im) runtime_override None of
        Inl e \<Rightarrow> ([], Inl (CeRuntime e))
      | Inr runtime \<Rightarrow>
          (case listing of
             Inl e \<Rightarrow> ([], Inl (CeListing e))
           | Inr ls \<Rightarrow>
               (case compute_reference_set (derived_image_tag (im_sha_hex im) (im_files im)) manifests of
                  Inl e \<Rightarrow> ([], Inl e)
                | Inr active \<Rightarrow>
                    (if \<not> apply_it then ([], Inr ())
                     else
                       (let stale = map fst (filter (\<lambda>r. snd r = TagStale) (classify_tags (list_derived_tags ls) active));
                            failed = length (filter removal_fails stale)
                        in (stale, if failed > 0 then Inl (CeNotRemoved failed) else Inr ()))))))"

end
