(* ===== verification/Container_Facts.thy ===== *)
theory Container_Facts
  imports Container_Run
begin

text \<open>
  What the container commands promise: which image and command a run starts, when a derived tag is shared
  by two configurations, and which images a prune touches.
\<close>

section \<open>The image a run starts\<close>

text \<open>
  The documented reading of \<^verbatim>\<open>docker run\<close> and \<^verbatim>\<open>podman run\<close>: options come first, the ones used here take
  the next word as their value, and the first word that is no option is the image; what follows is its
  command.
\<close>

definition run_valued :: "string list" where
  "run_valued = [''-v'', ''-w'', ''-p'', ''-e'', ''-u'']"

fun run_positionals :: "string list \<Rightarrow> string list" where
  "run_positionals [] = []"
| "run_positionals (a # rest) =
     (if a \<in> set run_valued then (case rest of [] \<Rightarrow> [] | _ # r \<Rightarrow> run_positionals r)
      else if starts_with a ''-'' then run_positionals rest
      else a # rest)"

text \<open>Words that are complete options leave the reading of what follows unchanged.\<close>

definition only_options :: "string list \<Rightarrow> bool" where
  "only_options ws \<longleftrightarrow> (\<forall>rest. run_positionals (ws @ rest) = run_positionals rest)"

lemma only_options_Nil [simp]: "only_options []"
  by (simp add: only_options_def)

lemma only_options_append: "only_options a \<Longrightarrow> only_options b \<Longrightarrow> only_options (a @ b)"
  by (simp add: only_options_def)

lemma only_options_flag: "f \<notin> set run_valued \<Longrightarrow> starts_with f ''-'' \<Longrightarrow> only_options [f]"
  by (simp add: only_options_def)

lemma only_options_valued: "f \<in> set run_valued \<Longrightarrow> only_options [f, v]"
  by (simp add: only_options_def)

lemma only_options_concat: "(\<And>x. x \<in> set xs \<Longrightarrow> only_options (f x)) \<Longrightarrow> only_options (concat (map f xs))"
  by (induction xs) (auto intro: only_options_append)

lemma run_options:
  "only_options (''--rm'' # (if ho_tty h then [''-it''] else []))"
  "only_options (user_args h rt)"
  "only_options (declared_mounts h c)"
  "only_options (auto_mounts h c d m)"
  "only_options [''-w'', w]"
  "only_options (case p of Some n \<Rightarrow> [''-p'', f n, ''-e'', g n] | None \<Rightarrow> [])"
  "only_options (if b then [''-e'', v] else [])"
  "only_options (if b then [''-u'', ''0:0''] else [])"
proof -
  note defs = run_valued_def starts_with_iff
  have pair: "only_options (x # y # zs)" if "x \<in> set run_valued" "only_options zs" for x y zs
    using that by (simp add: only_options_def)
  show "only_options (''--rm'' # (if ho_tty h then [''-it''] else []))"
    by (simp add: only_options_def defs)
  show "only_options (user_args h rt)"
    by (auto simp: user_args_def Let_def defs intro!: only_options_flag only_options_valued)
  show "only_options (declared_mounts h c)"
    unfolding declared_mounts_def by (rule only_options_concat) (simp add: only_options_valued defs)
  show "only_options (auto_mounts h c d m)"
    unfolding auto_mounts_def
    by (auto intro!: pair split: option.split simp: defs)
  show "only_options [''-w'', w]" "only_options (if b then [''-e'', v] else [])"
    "only_options (if b then [''-u'', ''0:0''] else [])"
    by (simp_all add: only_options_valued defs)
  show "only_options (case p of Some n \<Rightarrow> [''-p'', f n, ''-e'', g n] | None \<Rightarrow> [])"
    by (auto split: option.split intro!: pair simp: defs)
qed

definition run_image :: "ContainerConfig \<Rightarrow> string option \<Rightarrow> string" where
  "run_image c derived =
     (case derived of Some t \<Rightarrow> t | None \<Rightarrow> (case cc_image c of Some i \<Rightarrow> i | None \<Rightarrow> DEFAULT_IMAGE))"

lemma build_run_args_shape:
  assumes "build_run_args h rt c d derived rid = Inr args"
  obtains opts where "args = ''run'' # opts @ cc_extra_args c @
      (if cc_extra_apt c \<noteq> [] \<and> derived = None then [''-u'', ''0:0''] else []) @
      run_image c derived # inner_command (cc_extra_apt c \<noteq> [] \<and> derived = None) c rid"
    "only_options opts" "validate_extra_args (cc_extra_args c) = Inr ()"
proof -
  from assms obtain m where m: "ho_stripped h = Inr m"
    by (auto simp: build_run_args_def split: sum.splits)
  let ?opts = "(''--rm'' # (if ho_tty h then [''-it''] else [])) @ user_args h rt @ declared_mounts h c @
     auto_mounts h c d m @ [''-w'', container_workdir c] @
     (case ho_port h of Some p \<Rightarrow> [''-p'', ''127.0.0.1:'' @ show_nat p @ '':'' @ show_nat p,
        ''-e'', ''PITBOSS_CONTROL_TCP_PORT='' @ show_nat p] | None \<Rightarrow> []) @
     (if ho_macos h \<and> \<not> extra_args_overrides_env (cc_extra_args c) ''XDG_RUNTIME_DIR''
      then [''-e'', ''XDG_RUNTIME_DIR=/tmp''] else [])"
  have "only_options ?opts" by (intro only_options_append run_options)
  moreover from assms m have "validate_extra_args (cc_extra_args c) = Inr ()"
    "args = ''run'' # ?opts @ cc_extra_args c @
      (if cc_extra_apt c \<noteq> [] \<and> derived = None then [''-u'', ''0:0''] else []) @
      run_image c derived # inner_command (cc_extra_apt c \<noteq> [] \<and> derived = None) c rid"
    by (auto simp: build_run_args_def run_image_def Let_def split: sum.splits option.splits if_splits)
  ultimately show thesis using that by blast
qed

lemma build_run_args_Inr:
  assumes "ho_stripped h = Inr m" "validate_extra_args (cc_extra_args c) = Inr ()" "list_all is_valid_apt_pkg (cc_extra_apt c)"
  shows "\<exists>args. build_run_args h rt c d derived rid = Inr args"
proof -
  have "find (\<lambda>p. \<not> is_valid_apt_pkg p) (cc_extra_apt c) = None"
    using assms(3) by (auto simp: find_None_iff list_all_iff)
  then show ?thesis using assms by (auto simp: build_run_args_def Let_def)
qed

lemma positional_passes: "\<not> starts_with x ''-'' \<Longrightarrow> validate_extra_args [x] = Inr ()"
proof -
  assume x: "\<not> starts_with x ''-''"
  then have "x \<notin> set EXACT" "\<not> list_ex (starts_with x) PREFIX" "strip_prefix ''--cap-add='' x = None"
    by (auto simp: EXACT_def PREFIX_def starts_with_iff strip_prefix_None)
  then show ?thesis using x by (simp add: extra_args_ok extra_arg_ok_def) (auto simp: starts_with_iff)
qed

text \<open>
  A run built from extra arguments that are complete options starts the derived image, else the declared,
  else the default one, and its command is the dispatch of the mounted manifest.
\<close>

theorem container_runs_image:
  assumes "build_run_args h rt c d derived rid = Inr args" "only_options (cc_extra_args c)"
    "\<not> starts_with (run_image c derived) ''-''"
  shows "hd args = ''run'' \<and>
    run_positionals (tl args) = run_image c derived # inner_command (cc_extra_apt c \<noteq> [] \<and> derived = None) c rid"
proof -
  obtain opts where "args = ''run'' # opts @ cc_extra_args c @
      (if cc_extra_apt c \<noteq> [] \<and> derived = None then [''-u'', ''0:0''] else []) @
      run_image c derived # inner_command (cc_extra_apt c \<noteq> [] \<and> derived = None) c rid"
    and opts: "only_options opts" using assms(1) by (rule build_run_args_shape)
  moreover have "run_image c derived \<notin> set run_valued"
    using assms(3) by (auto simp: run_valued_def starts_with_iff)
  ultimately show ?thesis using assms(2,3) run_options(8)
    by (simp add: only_options_def)
qed

text \<open>
  An extra argument that is no option passes the check of the extra arguments and takes the place of the
  image: the declared image and the dispatch become arguments of whatever it names.
\<close>

theorem positional_extra_arg:
  assumes "cc_extra_args c = [x]" "\<not> starts_with x ''-''" "ho_stripped h = Inr m" "list_all is_valid_apt_pkg (cc_extra_apt c)"
  shows "validate_extra_args (cc_extra_args c) = Inr () \<and>
    (\<exists>args. build_run_args h rt c d derived rid = Inr args \<and>
       run_positionals (tl args) = x # (if cc_extra_apt c \<noteq> [] \<and> derived = None then [''-u'', ''0:0''] else []) @
         run_image c derived # inner_command (cc_extra_apt c \<noteq> [] \<and> derived = None) c rid)"
proof -
  have ok: "validate_extra_args (cc_extra_args c) = Inr ()"
    using assms(1,2) by (simp add: positional_passes)
  then obtain args where args: "build_run_args h rt c d derived rid = Inr args"
    using build_run_args_Inr[OF assms(3) _ assms(4)] by blast
  then obtain opts where "args = ''run'' # opts @ cc_extra_args c @
      (if cc_extra_apt c \<noteq> [] \<and> derived = None then [''-u'', ''0:0''] else []) @
      run_image c derived # inner_command (cc_extra_apt c \<noteq> [] \<and> derived = None) c rid"
    and opts: "only_options opts" by (rule build_run_args_shape)
  moreover have "x \<notin> set run_valued"
    using assms(2) by (auto simp: run_valued_def starts_with_iff)
  ultimately have "run_positionals (tl args) = x # (if cc_extra_apt c \<noteq> [] \<and> derived = None then [''-u'', ''0:0''] else []) @
         run_image c derived # inner_command (cc_extra_apt c \<noteq> [] \<and> derived = None) c rid"
    using assms(1,2) opts unfolding only_options_def by simp
  with ok args show ?thesis by blast
qed

section \<open>Derived tags\<close>

lemma those_map:
  "those (map g xs) = (if \<forall>x\<in>set xs. g x \<noteq> None then Some (map (\<lambda>x. the (g x)) xs) else None)"
  by (induction xs) (auto split: option.splits)

lemma read_copies_mset:
  assumes "mset (cc_copy c) = mset (cc_copy d)"
  shows "rel_option (\<lambda>a b. mset a = mset b) (read_copies fs c) (read_copies fs d)"
proof -
  have "set (cc_copy c) = set (cc_copy d)" using assms by (metis set_mset_mset)
  moreover have "mset (map f (cc_copy c)) = mset (map f (cc_copy d))" for f :: "CopySpec \<Rightarrow> string \<times> FsNode"
    using assms by simp
  ultimately show ?thesis unfolding read_copies_def those_map by auto
qed

lemma read_copies_keys:
  assumes "read_copies fs c = Some copies"
    "distinct (map (\<lambda>s. copy_sort_key (copy_container s)) (cc_copy c))"
  shows "inj_on (\<lambda>x. copy_sort_key (fst x)) (set copies)"
proof -
  have copies: "copies = map (\<lambda>s. (copy_container s, the (fs (copy_host s)))) (cc_copy c)"
    and some: "\<forall>s\<in>set (cc_copy c). fs (copy_host s) \<noteq> None"
    using assms(1) by (fastforce simp: read_copies_def those_map split: if_splits)+
  have "inj_on (\<lambda>s. copy_sort_key (copy_container s)) (set (cc_copy c))"
    using assms(2) by (simp add: distinct_map)
  then show ?thesis unfolding copies by (auto simp: inj_on_def)
qed

lemma sort_mset_eq: "mset xs = mset ys \<Longrightarrow> sort xs = sort (ys :: 'a::linorder list)"
  by (metis mset_sort properties_for_sort sorted_sort)

lemma sort_key_mset_eq: "mset xs = mset ys \<Longrightarrow> inj_on f (set xs) \<Longrightarrow> sort_key f xs = sort_key f ys"
  by (metis mset_sort sort_key_inj_key_eq sorted_sort_key)

lemma insort_key_map: "insort_key f (g x) (map g xs) = map g (insort_key (\<lambda>y. f (g y)) x xs)"
  by (induction xs) simp_all

lemma sort_key_map: "sort_key f (map g xs) = map g (sort_key (\<lambda>y. f (g y)) xs)"
  by (induction xs) (simp_all add: insort_key_map)

text \<open>
  The tag of a derived image does not depend on the order of the packages and copies in the manifest, as
  long as the copies go to different paths.
\<close>

theorem derived_tag_order:
  assumes "cc_image c = cc_image d" "mset (cc_extra_apt c) = mset (cc_extra_apt d)" "mset (cc_copy c) = mset (cc_copy d)"
    "distinct (map (\<lambda>s. copy_sort_key (copy_container s)) (cc_copy c))"
  shows "derived_image_tag sha_hex fs c = derived_image_tag sha_hex fs d"
proof -
  have none: "(cc_extra_apt c = [] \<and> cc_copy c = []) = (cc_extra_apt d = [] \<and> cc_copy d = [])"
    using assms(2,3) by (metis mset.simps(1) mset_zero_iff_right)
  have apt: "sort (cc_extra_apt c) = sort (cc_extra_apt d)" by (rule sort_mset_eq[OF assms(2)])
  show ?thesis
  proof (cases "read_copies fs c")
    case None
    then have "read_copies fs d = None" using read_copies_mset[OF assms(3), of fs] by (simp add: rel_option_iff split: option.splits)
    then show ?thesis using None none by (simp add: derived_image_tag_def)
  next
    case (Some copies)
    then obtain copies' where d: "read_copies fs d = Some copies'" "mset copies = mset copies'"
      using read_copies_mset[OF assms(3), of fs] by (auto simp: rel_option_iff split: option.splits)
    then have "tag_input sha_hex b (cc_extra_apt c) copies = tag_input sha_hex b (cc_extra_apt d) copies'" for b
      unfolding tag_input_def apt using sort_key_mset_eq[OF d(2) read_copies_keys[OF Some assms(4)]] by simp
    then show ?thesis using Some d(1) none assms(1) by (simp add: derived_image_tag_def)
  qed
qed

text \<open>The trees that a directory walk gives: names strictly ascending in every directory.\<close>

fun walked :: "FsNode \<Rightarrow> bool" where
  "walked (FsDir _ items) \<longleftrightarrow> sorted_wrt (<) (map node_name items) \<and> list_all walked items"
| "walked (FsFile _ _) = True"
| "walked (FsSpecial _) = True"

text \<open>
  Moving a file into the directory listed just before it changes the copied tree and not its tag, so the
  image built before the move is taken for the one after it.
\<close>

theorem moved_file_keeps_tag:
  assumes "b < f" "cc_copy c \<noteq> []" "\<forall>s\<in>set (cc_copy c). copy_host s = host"
    "before = FsDir a [FsDir b [], FsFile f content]" "after = FsDir a [FsDir b [FsFile f content]]"
  shows "before \<noteq> after \<and> walked before \<and> walked after \<and>
    (\<exists>tag. derived_image_tag sha_hex (fs(host \<mapsto> before)) c = Inr (Some tag) \<and>
           derived_image_tag sha_hex (fs(host \<mapsto> after)) c = Inr (Some tag))"
proof -
  have same: "hash_path_into before = hash_path_into after" using assms(4,5) by simp
  have read: "read_copies (fs(host \<mapsto> t)) c = Some (map (\<lambda>s. (copy_container s, t)) (cc_copy c))" for t
    using assms(3) unfolding read_copies_def those_map by auto
  have "tag_input sha_hex base apt (map (\<lambda>s. (copy_container s, before)) (cc_copy c)) =
      tag_input sha_hex base apt (map (\<lambda>s. (copy_container s, after)) (cc_copy c))" for base apt
    unfolding tag_input_def sort_key_map map_map o_def by (simp add: same)
  then show ?thesis using assms read by (simp add: derived_image_tag_def)
qed

section \<open>Pruning\<close>

lemma reference_set_Inr:
  "compute_reference_set tag_of ms = Inr active \<Longrightarrow>
   active = {t. \<exists>c. Inr (Some c) \<in> set ms \<and> tag_of c = Inr (Some t)}"
proof (induction tag_of ms arbitrary: active rule: compute_reference_set.induct)
  case (4 tag_of c ms)
  then obtain t rest where "tag_of c = Inr t" "compute_reference_set tag_of ms = Inr rest"
    "active = (case t of Some tag \<Rightarrow> insert tag rest | None \<Rightarrow> rest)"
    by (auto split: sum.splits simp: map_sum_def)
  moreover from this "4.IH"[of t rest] have "rest = {t. \<exists>c. Inr (Some c) \<in> set ms \<and> tag_of c = Inr (Some t)}"
    by simp
  ultimately show ?case by (cases t) auto
qed auto

lemma stale_tags:
  "set (map fst (filter (\<lambda>r. snd r = TagStale) (classify_tags (list_derived_tags ls) active))) =
   {t \<in> trim ` set ls. is_pitboss_derived_tag t \<and> canonicalize_derived_tag t \<notin> active}"
proof -
  have "is_pitboss_derived_tag t \<Longrightarrow> t \<noteq> []" for t
    by (auto simp: is_pitboss_derived_tag_def canonicalize_derived_tag_def)
  then show ?thesis
    by (force simp: classify_tags_def list_derived_tags_def)
qed

text \<open>
  A prune removes nothing without its flag or after an error; otherwise exactly the listed pitboss tags
  that no given manifest stands for, in whatever spelling the runtime lists them, and it fails exactly when
  a removal failed.
\<close>

theorem prune_removes_stale:
  "case run_container_prune im ov apply_it listing removal_fails manifests of (removed, result) \<Rightarrow>
     (removed \<noteq> [] \<longrightarrow> apply_it) \<and>
     (\<forall>t\<in>set removed. is_pitboss_derived_tag t \<and>
        (\<forall>c. Inr (Some c) \<in> set manifests \<longrightarrow>
           derived_image_tag (im_sha_hex im) (im_files im) c \<noteq> Inr (Some (canonicalize_derived_tag t)))) \<and>
     (result = Inr () \<and> apply_it \<longrightarrow>
        (\<forall>t\<in>set removed. \<not> removal_fails t) \<and>
        set removed = {t \<in> trim ` set (projr listing). is_pitboss_derived_tag t \<and>
          (\<forall>c. Inr (Some c) \<in> set manifests \<longrightarrow>
             derived_image_tag (im_sha_hex im) (im_files im) c \<noteq> Inr (Some (canonicalize_derived_tag t)))})"
proof -
  obtain removed result where r: "run_container_prune im ov apply_it listing removal_fails manifests = (removed, result)"
    by (cases "run_container_prune im ov apply_it listing removal_fails manifests")
  show ?thesis
  proof (cases "\<exists>ls active. listing = Inr ls \<and> apply_it \<and> removed = map fst (filter (\<lambda>r. snd r = TagStale)
       (classify_tags (list_derived_tags ls) active)) \<and>
       compute_reference_set (derived_image_tag (im_sha_hex im) (im_files im)) manifests = Inr active \<and>
       (result = Inr () \<longrightarrow> filter removal_fails removed = [])")
    case True
    then obtain ls active where "listing = Inr ls" "apply_it" and fails: "result = Inr () \<longrightarrow> filter removal_fails removed = []"
      and set: "set removed = {t \<in> trim ` set ls. is_pitboss_derived_tag t \<and> canonicalize_derived_tag t \<notin> active}"
      and act: "compute_reference_set (derived_image_tag (im_sha_hex im) (im_files im)) manifests = Inr active"
      by (metis stale_tags)
    then show ?thesis unfolding r reference_set_Inr[OF act] by (auto simp: filter_empty_conv)
  next
    case False
    with r have "removed = []" "result = Inr () \<longrightarrow> \<not> apply_it"
      unfolding run_container_prune_def by (auto simp: Let_def split: sum.splits if_splits)
    then show ?thesis unfolding r by auto
  qed
qed

section \<open>Concrete runs\<close>

definition plain_host :: Host where
  "plain_host = \<lparr>ho_tty = False, ho_rootless = True, ho_uid = 1000, ho_gid = 1000, ho_home = Some ''/home/op'',
     ho_runs_base = ''/home/op/runs'', ho_stripped = Inr ''/tmp/pitboss-manifest-7.toml'', ho_port = Some 40000,
     ho_macos = False\<rparr>"

definition plain_container :: ContainerConfig where
  "plain_container = \<lparr>cc_image = None, cc_runtime = None, cc_extra_args = [''--memory=4g''], cc_extra_apt = [],
     cc_mounts = [], cc_copy = [], cc_workdir = None, cc_claude_mount_rw = False\<rparr>"

lemma plain_fields:
  "ho_stripped plain_host = Inr ''/tmp/pitboss-manifest-7.toml''"
  "cc_extra_args plain_container = [''--memory=4g'']" "cc_extra_apt plain_container = []"
  by (simp_all add: plain_host_def plain_container_def)

lemma plain_extra_args: "validate_extra_args [''--memory=4g''] = Inr ()"
  by (simp add: extra_args_ok extra_arg_ok_def EXACT_def PREFIX_def starts_with_iff)

theorem container_runs_image_witness:
  "\<exists>args. build_run_args plain_host ''podman'' plain_container None None (Some ''r1'') = Inr args \<and>
     run_positionals (tl args) = [DEFAULT_IMAGE, ''pitboss'', ''dispatch'', ''/run/pitboss.toml'', ''--internal-run-id'', ''r1'']"
proof -
  obtain args where args: "build_run_args plain_host ''podman'' plain_container None None (Some ''r1'') = Inr args"
    using build_run_args_Inr[OF plain_fields(1), of plain_container "''podman''" None None "Some ''r1''"] plain_extra_args plain_fields by auto
  have "only_options (cc_extra_args plain_container)"
    by (simp add: plain_container_def only_options_flag run_valued_def starts_with_iff)
  then show ?thesis using args container_runs_image[OF args]
    by (simp add: plain_container_def run_image_def DEFAULT_IMAGE_def inner_command_def starts_with_iff)
qed

theorem positional_extra_arg_witness:
  "\<exists>args. build_run_args plain_host ''podman'' (plain_container\<lparr>cc_extra_args := [''docker.io/other'']\<rparr>) None None (Some ''r1'') = Inr args \<and>
     run_positionals (tl args) =
       [''docker.io/other'', DEFAULT_IMAGE, ''pitboss'', ''dispatch'', ''/run/pitboss.toml'', ''--internal-run-id'', ''r1'']"
  using positional_extra_arg[of "plain_container\<lparr>cc_extra_args := [''docker.io/other'']\<rparr>" "''docker.io/other''" plain_host
      "''/tmp/pitboss-manifest-7.toml''" "''podman''" None None "Some ''r1''"]
  by (simp add: plain_container_def plain_host_def run_image_def inner_command_def starts_with_iff)

definition tools_image :: "string list \<Rightarrow> ContainerConfig" where
  "tools_image apt = plain_container\<lparr>cc_extra_apt := apt,
     cc_copy := [\<lparr>copy_host = ''/srv/a'', copy_container = ''/opt/a''\<rparr>]\<rparr>"

theorem derived_tag_order_witness:
  "derived_image_tag (\<lambda>b. b) (\<lambda>_. None) (tools_image [''jq'', ''mdbook'']) =
   derived_image_tag (\<lambda>b. b) (\<lambda>_. None) (tools_image [''mdbook'', ''jq''])"
  by (rule derived_tag_order) (simp_all add: tools_image_def plain_container_def)

theorem moved_file_keeps_tag_witness:
  "\<exists>tag. derived_image_tag (\<lambda>b. b) [''/srv/a'' \<mapsto> FsDir ''a'' [FsDir ''bin'' [], FsFile ''run'' ''x'']] (tools_image []) = Inr (Some tag) \<and>
     derived_image_tag (\<lambda>b. b) [''/srv/a'' \<mapsto> FsDir ''a'' [FsDir ''bin'' [FsFile ''run'' ''x'']]] (tools_image []) = Inr (Some tag)"
  using moved_file_keeps_tag[of "''bin''" "''run''" "tools_image []" "''/srv/a''" _ "''a''" "''x''" _ "\<lambda>b. b" Map.empty]
  by (simp add: tools_image_def)

definition one_runtime :: Images where
  "one_runtime = \<lparr>im_installed = (\<lambda>r. r = ''podman''), im_env = None, im_sha_hex = (\<lambda>b. ''ab12''),
     im_files = (\<lambda>_. None), im_exists = (\<lambda>_ _. Inr True)\<rparr>"

lemma pruned_tags:
  "run_container_prune one_runtime None True
     (Inr [''localhost/pitboss-derived-ff:local'', ''ubuntu:latest'', ''pitboss-derived-ab12:local'']) (\<lambda>_. False)
     [Inr (Some (plain_container\<lparr>cc_extra_apt := [''jq'']\<rparr>))] = ([''localhost/pitboss-derived-ff:local''], Inr ())"
  by code_simp

theorem prune_removes_stale_witness:
  "case run_container_prune one_runtime None True
     (Inr [''localhost/pitboss-derived-ff:local'', ''ubuntu:latest'', ''pitboss-derived-ab12:local'']) (\<lambda>_. False)
     [Inr (Some (plain_container\<lparr>cc_extra_apt := [''jq'']\<rparr>))] of (removed, result) \<Rightarrow>
     removed = [''localhost/pitboss-derived-ff:local''] \<and> is_pitboss_derived_tag ''localhost/pitboss-derived-ff:local'' \<and>
     derived_image_tag (\<lambda>b. ''ab12'') (\<lambda>_. None) (plain_container\<lparr>cc_extra_apt := [''jq'']\<rparr>) \<noteq> Inr (Some ''pitboss-derived-ff:local'')"
  using prune_removes_stale[where im = one_runtime and ov = None and apply_it = True and
     listing = "Inr [''localhost/pitboss-derived-ff:local'', ''ubuntu:latest'', ''pitboss-derived-ab12:local'']" and
     removal_fails = "\<lambda>_. False" and manifests = "[Inr (Some (plain_container\<lparr>cc_extra_apt := [''jq'']\<rparr>))]"]
  unfolding pruned_tags by (simp add: one_runtime_def canonicalize_derived_tag_def)

end
