(* ===== verification/Run_Snapshot.thy ===== *)
theory Run_Snapshot
  imports Flat_Run
begin

text \<open>
  The reader of a run's summary files (\<^verbatim>\<open>pitboss-core/src/store/summary.rs\<close>): the one-shot
  \<^verbatim>\<open>read_run_snapshot\<close>, and \<^verbatim>\<open>RunSnapshotReader\<close>, which keeps the merged records between polls and reads
  only what was appended. The decoders of \<^verbatim>\<open>serde_json\<close> are arguments; what a refresh finds on disk
  (metadata first, then the contents when they are opened) is an input, so that writes can fall between.
\<close>

section \<open>The one-shot reader\<close>

record 's SnapCodec =
  sk_record :: "string \<Rightarrow> TaskRecord option"
  sk_summary :: "string \<Rightarrow> 's option"
  sk_tasks :: "'s \<Rightarrow> TaskRecord list"

record 's RunSnapshot =
  sn_run_summary :: "'s option"
  sn_tasks :: "(string \<times> TaskRecord) list"

definition empty_snapshot :: "'s RunSnapshot" where
  "empty_snapshot = \<lparr>sn_run_summary = None, sn_tasks = []\<rparr>"

definition is_finalized :: "'s RunSnapshot \<Rightarrow> bool" where
  "is_finalized sn \<longleftrightarrow> sn_run_summary sn \<noteq> None"

definition task_count :: "'s RunSnapshot \<Rightarrow> nat" where
  "task_count sn = length (sn_tasks sn)"

definition failed_count :: "'s RunSnapshot \<Rightarrow> nat" where
  "failed_count sn = length (filter (\<lambda>e. task_failed (snd e)) (sn_tasks sn))"

definition snapshot_get :: "string \<Rightarrow> 's RunSnapshot \<Rightarrow> TaskRecord option" where
  "snapshot_get tid sn = hm_get plain tid (sn_tasks sn)"

definition insert_record :: "TaskRecord \<Rightarrow> (string \<times> TaskRecord) list \<Rightarrow> (string \<times> TaskRecord) list" where
  "insert_record r m = hm_insert plain (tr_task_id r) r m"

definition load_summary_json ::
  "'s SnapCodec \<Rightarrow> string option \<Rightarrow> (string \<times> TaskRecord) list \<Rightarrow> 's option \<times> (string \<times> TaskRecord) list" where
  "load_summary_json k bytes m =
     (case bytes of
        None \<Rightarrow> (None, m)
      | Some b \<Rightarrow>
          (case sk_summary k b of
             None \<Rightarrow> (None, m)
           | Some s \<Rightarrow> (Some s, fold insert_record (sk_tasks k s) m)))"

text \<open>The records of the lines of a text; blank lines and lines that do not decode are skipped.\<close>

definition line_record :: "'s SnapCodec \<Rightarrow> string \<Rightarrow> TaskRecord option" where
  "line_record k line = (let trimmed = trim line in if trimmed = [] then None else sk_record k trimmed)"

definition line_records :: "'s SnapCodec \<Rightarrow> string \<Rightarrow> TaskRecord list" where
  "line_records k text = List.map_filter (line_record k) (str_lines text)"

definition overlay_summary_jsonl ::
  "'s SnapCodec \<Rightarrow> string option \<Rightarrow> (string \<times> TaskRecord) list \<Rightarrow> (string \<times> TaskRecord) list" where
  "overlay_summary_jsonl k bytes m =
     (case bytes of
        None \<Rightarrow> m
      | Some b \<Rightarrow> if valid_utf8 b then fold insert_record (line_records k b) m else m)"

definition read_run_snapshot :: "'s SnapCodec \<Rightarrow> string option \<Rightarrow> string option \<Rightarrow> 's RunSnapshot" where
  "read_run_snapshot k summary_json summary_jsonl =
     (let (summary, m) = load_summary_json k summary_json []
      in \<lparr>sn_run_summary = summary, sn_tasks = overlay_summary_jsonl k summary_jsonl m\<rparr>)"

section \<open>The polling reader\<close>

record Metadata =
  me_len :: nat
  me_modified :: "int option"
  me_created :: "int option"
  me_ino :: nat

record Disk =
  dk_head :: "Metadata option"
  dk_tail :: "Metadata option"
  dk_json :: "string option"
  dk_jsonl :: "string option"
  dk_read :: "nat option"

record JsonlTail =
  jt_offset :: nat
  jt_mtime :: "int option"
  jt_inode :: "nat option"
  jt_created :: "int option"

definition default_tail :: JsonlTail where
  "default_tail = \<lparr>jt_offset = 0, jt_mtime = None, jt_inode = None, jt_created = None\<rparr>"

record 's RunSnapshotReader =
  rd_cached :: "'s RunSnapshot"
  rd_json_mtime :: "int option"
  rd_jsonl :: JsonlTail

definition new_reader :: "'s RunSnapshotReader" where
  "new_reader = \<lparr>rd_cached = empty_snapshot, rd_json_mtime = None, rd_jsonl = default_tail\<rparr>"

definition jsonl_tail_is_safe :: "'s RunSnapshotReader \<Rightarrow> Metadata option \<Rightarrow> bool" where
  "jsonl_tail_is_safe r meta =
     (let j = rd_jsonl r in
      case meta of
        None \<Rightarrow> jt_offset j = 0
      | Some m \<Rightarrow>
          if jt_mtime j = None \<and> jt_offset j = 0 then True
          else if me_len m < jt_offset j then False
          else if (case (jt_mtime j, me_modified m) of (Some prev, Some cur) \<Rightarrow> cur < prev | _ \<Rightarrow> False) then False
          else if (case (jt_created j, me_created m) of (Some prev, Some cur) \<Rightarrow> cur \<noteq> prev | _ \<Rightarrow> False) then False
          else (case jt_inode j of Some prev \<Rightarrow> prev = me_ino m | None \<Rightarrow> True))"

definition modified :: "Metadata option \<Rightarrow> int option" where
  "modified m = Option.bind m me_modified"

definition full_reparse :: "'s SnapCodec \<Rightarrow> Disk \<Rightarrow> 's RunSnapshotReader" where
  "full_reparse k d =
     \<lparr>rd_cached = read_run_snapshot k (dk_json d) (dk_jsonl d), rd_json_mtime = modified (dk_head d),
      rd_jsonl = (case dk_tail d of
         Some m \<Rightarrow> \<lparr>jt_offset = me_len m, jt_mtime = me_modified m, jt_inode = Some (me_ino m), jt_created = me_created m\<rparr>
       | None \<Rightarrow> default_tail)\<rparr>"

definition reload_json :: "'s SnapCodec \<Rightarrow> Disk \<Rightarrow> 's RunSnapshot \<Rightarrow> 's RunSnapshot" where
  "reload_json k d sn =
     (let (summary, m) = load_summary_json k (dk_json d) (sn_tasks sn)
      in \<lparr>sn_run_summary = summary, sn_tasks = m\<rparr>)"

definition refresh_json :: "'s SnapCodec \<Rightarrow> Disk \<Rightarrow> 's RunSnapshotReader \<Rightarrow> 's RunSnapshotReader" where
  "refresh_json k d r =
     (case dk_head d of
        Some jm \<Rightarrow>
          if rd_json_mtime r \<noteq> me_modified jm
          then r\<lparr>rd_cached := reload_json k d (rd_cached r), rd_json_mtime := me_modified jm\<rparr> else r
      | None \<Rightarrow>
          if rd_json_mtime r \<noteq> None
          then r\<lparr>rd_cached := (rd_cached r)\<lparr>sn_run_summary := None\<rparr>, rd_json_mtime := None\<rparr> else r)"

text \<open>The bytes up to and with the last line feed; what follows is a line still being written.\<close>

definition complete_part :: "string \<Rightarrow> string" where
  "complete_part buf = rev (dropWhile (\<lambda>c. c \<noteq> newline) (rev buf))"

definition tail_jsonl :: "'s SnapCodec \<Rightarrow> Disk \<Rightarrow> nat \<Rightarrow> 's RunSnapshotReader \<Rightarrow> 's RunSnapshotReader" where
  "tail_jsonl k d current_size r =
     (case (dk_jsonl d, dk_read d) of
        (Some content, Some n) \<Rightarrow>
          (let j = rd_jsonl r;
               buf = take (min n (current_size - jt_offset j)) (drop (jt_offset j) content);
               complete = complete_part buf
           in if complete = [] then r
              else
                (let j' = j\<lparr>jt_offset := jt_offset j + length complete\<rparr> in
                 if valid_utf8 complete
                 then r\<lparr>rd_cached := (rd_cached r)\<lparr>sn_tasks := fold insert_record (line_records k complete) (sn_tasks (rd_cached r))\<rparr>,
                        rd_jsonl := j'\<rparr>
                 else r\<lparr>rd_jsonl := j'\<rparr>))
      | _ \<Rightarrow> r)"

definition refresh :: "'s SnapCodec \<Rightarrow> Disk \<Rightarrow> 's RunSnapshotReader \<Rightarrow> 's RunSnapshotReader" where
  "refresh k d r =
     (if \<not> jsonl_tail_is_safe r (dk_tail d) then full_reparse k d
      else
        (let r = refresh_json k d r in
         case dk_tail d of
           None \<Rightarrow> r
         | Some jm \<Rightarrow>
             (let r = (if me_len jm > jt_offset (rd_jsonl r) then tail_jsonl k d (me_len jm) r else r)
              in r\<lparr>rd_jsonl := (rd_jsonl r)\<lparr>jt_mtime := me_modified jm, jt_created := me_created jm, jt_inode := Some (me_ino jm)\<rparr>\<rparr>)))"

section \<open>UTF-8 across a cut\<close>

lemma piece_after_append:
  "fst (piece_after rs s i) \<Longrightarrow> piece_after rs (s @ t) i = piece_after rs s i"
  by (induction rs s i rule: piece_after.induct) (auto simp: cont_in_def nth_append split: if_splits)

lemma piece_after_bound: "fst (piece_after rs s i) \<Longrightarrow> i \<le> length s \<Longrightarrow> snd (piece_after rs s i) \<le> length s"
  by (induction rs s i rule: piece_after.induct) (auto simp: cont_in_def split: if_splits)

definition utf8_ranges :: "nat \<Rightarrow> (nat \<times> nat) list option" where
  "utf8_ranges b =
     (if b < 0x80 then Some []
      else if 0xC2 \<le> b \<and> b \<le> 0xDF then Some [(0x80, 0xBF)]
      else if b = 0xE0 then Some [(0xA0, 0xBF), (0x80, 0xBF)]
      else if b = 0xED then Some [(0x80, 0x9F), (0x80, 0xBF)]
      else if 0xE1 \<le> b \<and> b \<le> 0xEF then Some [(0x80, 0xBF), (0x80, 0xBF)]
      else if b = 0xF0 then Some [(0x90, 0xBF), (0x80, 0xBF), (0x80, 0xBF)]
      else if 0xF1 \<le> b \<and> b \<le> 0xF3 then Some [(0x80, 0xBF), (0x80, 0xBF), (0x80, 0xBF)]
      else if b = 0xF4 then Some [(0x80, 0x8F), (0x80, 0xBF), (0x80, 0xBF)]
      else None)"

lemma utf8_piece_ranges:
  "utf8_piece s = (case utf8_ranges (of_char (s ! 0)) of Some rs \<Rightarrow> piece_after rs s 1 | None \<Rightarrow> (False, 1))"
  unfolding utf8_piece_def utf8_ranges_def Let_def
  by (cases "(of_char (s ! 0) :: nat) < 0x80") (simp_all only: if_True if_False option.case if_distrib[of "case_option _ _"] piece_after.simps(1) cong: if_cong)

lemma utf8_piece_append: "s \<noteq> [] \<Longrightarrow> fst (utf8_piece s) \<Longrightarrow> utf8_piece (s @ t) = utf8_piece s"
  by (auto simp: utf8_piece_ranges nth_append piece_after_append split: option.splits)

lemma utf8_piece_bound: "s \<noteq> [] \<Longrightarrow> fst (utf8_piece s) \<Longrightarrow> snd (utf8_piece s) \<le> length s"
  by (auto simp: utf8_piece_ranges Suc_le_eq intro!: piece_after_bound split: option.splits)

lemma valid_utf8_append: "valid_utf8 a \<Longrightarrow> valid_utf8 (a @ b) \<longleftrightarrow> valid_utf8 b"
proof (induction a rule: valid_utf8.induct)
  case (1 s)
  show ?case
  proof (cases "s = []")
    case False
    let ?n = "snd (utf8_piece s)"
    from 1(2) False have ok: "fst (utf8_piece s)" "valid_utf8 (drop ?n s)" by (auto simp: valid_utf8.simps[of s] split: prod.splits)
    have "valid_utf8 (s @ b) = valid_utf8 (drop ?n s @ b)"
      using False ok(1) utf8_piece_append[OF False ok(1), of b] utf8_piece_bound[OF False ok(1)]
      by (simp add: valid_utf8.simps[of "s @ b"] case_prod_beta)
    then show ?thesis using 1(1)[OF False refl surjective_pairing[symmetric] ok(2)] by simp
  qed simp
qed

end
