(* ===== verification/Run_Index.thy ===== *)
theory Run_Index
  imports Run_Snapshot "HOL-Library.Product_Lexorder" "HOL-Library.List_Lexorder" "HOL-Library.Char_ord"
begin

text \<open>
  Runs on disk (\<^verbatim>\<open>pitboss-core/src/runs.rs\<close>): finding a run by its prefix, the entry and status of a run
  directory; the replayed and the tailed stream of its records (\<^verbatim>\<open>pitboss-core/src/stream.rs\<close>); the summary of
  a run that was never finalised (\<^verbatim>\<open>diff.rs\<close>) and the sweep of orphaned runs (\<^verbatim>\<open>prune.rs\<close>). A run
  directory is a record of its files; the decoders, the clock and the sockets are inputs. Of the summary the
  two reporting fields (spend by class, resource peaks) are left out.
\<close>

section \<open>Records\<close>

record RunMeta =
  rm_run_id :: string
  rm_manifest_path :: string
  rm_pitboss_version :: string
  rm_claude_version :: "string option"
  rm_started_at :: int
  rm_env :: "(string \<times> string) list"
  rm_control_tcp_addr :: "string option"

record RunSummary =
  su_run_id :: string
  su_manifest_path :: string
  su_manifest_name :: "string option"
  su_pitboss_version :: string
  su_claude_version :: "string option"
  su_started_at :: int
  su_ended_at :: int
  su_total_duration_ms :: int
  su_tasks_total :: nat
  su_tasks_failed :: nat
  su_was_interrupted :: bool
  su_notify_failures :: "u32 option"
  su_tasks :: "TaskRecord list"

text \<open>The files of a run directory, as far as they are read here.\<close>

record RunDirectory =
  di_summary_json :: "string option"
  di_summary_jsonl :: "string option"
  di_jsonl_mtime :: "int option"
  di_meta_json :: "string option"
  di_resolved_json :: "string option"
  di_task_dirs :: nat
  di_mtime :: "int option"

record RunCodec =
  rc_record :: "string \<Rightarrow> TaskRecord option"
  rc_summary :: "string \<Rightarrow> RunSummary option"
  rc_meta :: "string \<Rightarrow> RunMeta option"
  rc_name :: "string \<Rightarrow> string option"

definition snap_codec :: "RunCodec \<Rightarrow> RunSummary SnapCodec" where
  "snap_codec k = \<lparr>sk_record = rc_record k, sk_summary = rc_summary k, sk_tasks = su_tasks\<rparr>"

definition dir_snapshot :: "RunCodec \<Rightarrow> RunDirectory \<Rightarrow> RunSummary RunSnapshot" where
  "dir_snapshot k d = read_run_snapshot (snap_codec k) (di_summary_json d) (di_summary_jsonl d)"

section \<open>Finding a run\<close>

datatype RunStatus = RunComplete | RunCancelled | RunRunning | RunStale | RunAborted

definition is_terminal :: "RunStatus \<Rightarrow> bool" where
  "is_terminal s \<longleftrightarrow> s \<in> {RunComplete, RunCancelled, RunStale, RunAborted}"

definition STALENESS_THRESHOLD :: int where
  "STALENESS_THRESHOLD = 4 * 3600 * ns_per_sec"

datatype ResolveError = EmptyPrefix | CannotRead | NoMatch | ManyMatches nat

text \<open>\<open>dirs\<close> lists the directories below the base, \<open>dir_exists\<close> answers for the joined path.\<close>

definition resolve_run_dir_by_prefix ::
  "(string \<Rightarrow> bool) \<Rightarrow> string list option \<Rightarrow> string \<Rightarrow> string \<Rightarrow> ResolveError + string" where
  "resolve_run_dir_by_prefix dir_exists dirs base id_or_prefix =
     (if id_or_prefix = [] then Inl EmptyPrefix
      else
        (let exact = (if is_absolute id_or_prefix then id_or_prefix else base @ ''/'' @ id_or_prefix) in
         if dir_exists exact then Inr exact
         else
           (case dirs of
              None \<Rightarrow> Inl CannotRead
            | Some names \<Rightarrow>
                (let found = filter (\<lambda>n. starts_with n id_or_prefix) names
                 in if length found = 0 then Inl NoMatch
                    else if length found = 1 then Inr (base @ ''/'' @ hd found)
                    else Inl (ManyMatches (length found))))))"

definition classify_status :: "bool \<Rightarrow> nat \<Rightarrow> bool \<Rightarrow> RunStatus" where
  "classify_status is_live settled_total recent =
     (if is_live then RunRunning
      else if settled_total = 0 \<and> \<not> recent then RunAborted
      else if recent then RunRunning else RunStale)"

definition jsonl_recent :: "int \<Rightarrow> int option \<Rightarrow> bool" where
  "jsonl_recent now mtime =
     (case mtime of None \<Rightarrow> False | Some t \<Rightarrow> now < t \<or> now - t \<le> STALENESS_THRESHOLD)"

text \<open>The sockets of the host: which files exist, and which of them have a listener.\<close>

record Sockets =
  so_xdg :: "string option"
  so_exists :: "string \<Rightarrow> bool"
  so_accepts :: "string \<Rightarrow> bool"

definition resolve_socket_path :: "Sockets \<Rightarrow> string \<Rightarrow> string \<Rightarrow> string" where
  "resolve_socket_path so rid dir =
     (case so_xdg so of
        Some xdg \<Rightarrow>
          (let p = xdg @ ''/pitboss/'' @ rid @ ''.control.sock''
           in if so_exists so p then p else dir @ ''/control.sock'')
      | None \<Rightarrow> dir @ ''/control.sock'')"

definition control_socket_is_live :: "Sockets \<Rightarrow> string \<Rightarrow> string \<Rightarrow> bool" where
  "control_socket_is_live so rid dir =
     (let p = resolve_socket_path so rid dir in so_exists so p \<and> so_accepts so p)"

record RunEntry =
  en_run_id :: string
  en_run_dir :: string
  en_mtime :: int
  en_tasks_total :: nat
  en_tasks_failed :: nat
  en_status :: RunStatus

definition collect_run_entry ::
  "RunCodec \<Rightarrow> Sockets \<Rightarrow> int \<Rightarrow> string \<Rightarrow> string \<Rightarrow> int \<Rightarrow> RunDirectory \<Rightarrow> RunEntry" where
  "collect_run_entry k so now dir rid mtime d =
     (case Option.bind (di_summary_json d) (rc_summary k) of
        Some s \<Rightarrow>
          \<lparr>en_run_id = rid, en_run_dir = dir, en_mtime = mtime, en_tasks_total = su_tasks_total s,
           en_tasks_failed = su_tasks_failed s,
           en_status = (if su_was_interrupted s then RunCancelled else RunComplete)\<rparr>
      | None \<Rightarrow>
          (let snap = dir_snapshot k d;
               settled_total = task_count snap
           in \<lparr>en_run_id = rid, en_run_dir = dir, en_mtime = mtime, en_tasks_total = max settled_total (di_task_dirs d),
               en_tasks_failed = failed_count snap,
               en_status = (if di_summary_json d \<noteq> None then RunAborted
                  else classify_status (control_socket_is_live so rid dir) settled_total (jsonl_recent now (di_jsonl_mtime d)))\<rparr>))"

text \<open>All runs, newest first.\<close>

definition collect_run_entries ::
  "RunCodec \<Rightarrow> Sockets \<Rightarrow> int \<Rightarrow> string \<Rightarrow> (string \<times> RunDirectory) list \<Rightarrow> RunEntry list" where
  "collect_run_entries k so now base dirs =
     sort_key (\<lambda>e. - en_mtime e)
       (map (\<lambda>(rid, d). collect_run_entry k so now (base @ ''/'' @ rid) rid (case di_mtime d of Some t \<Rightarrow> t | None \<Rightarrow> 0) d) dirs)"

section \<open>The stream of a run\<close>

datatype RunStreamPayload = StreamTask TaskRecord | StreamFinalized RunSummary

record RunStreamItem =
  it_seq :: nat
  it_ts :: int
  it_run_id :: string
  it_payload :: RunStreamPayload

definition nil_uuid :: string where
  "nil_uuid = ''00000000-0000-0000-0000-000000000000''"

definition by_end :: "TaskRecord list \<Rightarrow> TaskRecord list" where
  "by_end ts = sort_key (\<lambda>t. (tr_ended_at t, tr_task_id t)) ts"

fun number_tasks :: "nat \<Rightarrow> string \<Rightarrow> TaskRecord list \<Rightarrow> RunStreamItem list" where
  "number_tasks n rid [] = []"
| "number_tasks n rid (t # ts) =
     \<lparr>it_seq = n, it_ts = tr_ended_at t, it_run_id = rid, it_payload = StreamTask t\<rparr> # number_tasks (Suc n) rid ts"

definition finalized_item :: "nat \<Rightarrow> string \<Rightarrow> RunSummary \<Rightarrow> RunStreamItem" where
  "finalized_item n rid s = \<lparr>it_seq = n, it_ts = su_ended_at s, it_run_id = rid, it_payload = StreamFinalized s\<rparr>"

definition build_replay_items :: "RunSummary RunSnapshot \<Rightarrow> RunStreamItem list" where
  "build_replay_items snap =
     (let rid = (case sn_run_summary snap of Some s \<Rightarrow> su_run_id s | None \<Rightarrow> nil_uuid);
          ts = by_end (map snd (sn_tasks snap))
      in number_tasks 1 rid ts @
         (case sn_run_summary snap of Some s \<Rightarrow> [finalized_item (Suc (length ts)) rid s] | None \<Rightarrow> []))"

text \<open>One poll of the tail: rows that are new or have a later end than the one sent before.\<close>

record TailState =
  ts_emitted :: "(string \<times> int) list"
  ts_seq :: nat
  ts_finalized :: bool

definition is_fresh :: "(string \<times> int) list \<Rightarrow> TaskRecord \<Rightarrow> bool" where
  "is_fresh emitted r = (case hm_get plain (tr_task_id r) emitted of None \<Rightarrow> True | Some prev \<Rightarrow> tr_ended_at r > prev)"

definition emit_diff :: "string \<Rightarrow> RunSummary RunSnapshot \<Rightarrow> TailState \<Rightarrow> RunStreamItem list \<times> TailState" where
  "emit_diff dir_id snap st =
     (let rid = (case sn_run_summary snap of Some s \<Rightarrow> su_run_id s | None \<Rightarrow> dir_id);
          fresh = by_end (filter (is_fresh (ts_emitted st)) (map snd (sn_tasks snap)));
          n = ts_seq st + length fresh;
          items = number_tasks (Suc (ts_seq st)) rid fresh;
          emitted = fold (\<lambda>r. hm_insert plain (tr_task_id r) (tr_ended_at r)) fresh (ts_emitted st)
      in case sn_run_summary snap of
           Some s \<Rightarrow>
             if ts_finalized st then (items, st\<lparr>ts_emitted := emitted, ts_seq := n\<rparr>)
             else (items @ [finalized_item (Suc n) rid s], st\<lparr>ts_emitted := emitted, ts_seq := Suc n, ts_finalized := True\<rparr>)
         | None \<Rightarrow> (items, st\<lparr>ts_emitted := emitted, ts_seq := n\<rparr>))"

text \<open>The tail loop over the snapshots of its polls: it ends once the run is finalised.\<close>

fun drive_tail :: "string \<Rightarrow> RunSummary RunSnapshot list \<Rightarrow> TailState \<Rightarrow> RunStreamItem list" where
  "drive_tail dir_id [] st = []"
| "drive_tail dir_id (snap # snaps) st =
     (let (items, st') = emit_diff dir_id snap st
      in items @ (if ts_finalized st' then [] else drive_tail dir_id snaps st'))"

section \<open>Runs that were never finalised\<close>

datatype SummaryError = NoSummary | NoMeta | WriteFailed string

definition collect_replay :: "RunStreamItem list \<Rightarrow> TaskRecord list \<times> RunSummary option" where
  "collect_replay items =
     (List.map_filter (\<lambda>i. case it_payload i of StreamTask t \<Rightarrow> Some t | _ \<Rightarrow> None) items,
      (case List.map_filter (\<lambda>i. case it_payload i of StreamFinalized s \<Rightarrow> Some s | _ \<Rightarrow> None) items of
         [] \<Rightarrow> None | ss \<Rightarrow> Some (last ss)))"

definition load_summary :: "RunCodec \<Rightarrow> RunDirectory \<Rightarrow> SummaryError + RunSummary" where
  "load_summary k d =
     (let (ts, summary) = collect_replay (build_replay_items (dir_snapshot k d)) in
      case summary of
        Some s \<Rightarrow> Inr s
      | None \<Rightarrow>
          if di_summary_jsonl d = None then Inl NoSummary
          else
            (case Option.bind (di_meta_json d) (rc_meta k) of
               None \<Rightarrow> Inl NoMeta
             | Some m \<Rightarrow>
                 (let started = rm_started_at m;
                      ended = (case ts of [] \<Rightarrow> started | t # ts' \<Rightarrow> fold (\<lambda>t. max (tr_ended_at t)) ts' (tr_ended_at t))
                  in Inr \<lparr>su_run_id = rm_run_id m, su_manifest_path = rm_manifest_path m,
                          su_manifest_name = Option.bind (di_resolved_json d) (rc_name k),
                          su_pitboss_version = rm_pitboss_version m, su_claude_version = rm_claude_version m,
                          su_started_at = started, su_ended_at = ended, su_total_duration_ms = num_milliseconds (ended - started),
                          su_tasks_total = length ts, su_tasks_failed = length (filter task_failed ts),
                          su_was_interrupted = True, su_notify_failures = None, su_tasks = ts\<rparr>)))"

definition build_synthesized_summary :: "RunCodec \<Rightarrow> int \<Rightarrow> RunDirectory \<Rightarrow> SummaryError + RunSummary" where
  "build_synthesized_summary k now d =
     (if di_summary_jsonl d \<noteq> None then load_summary k d
      else
        (case Option.bind (di_meta_json d) (rc_meta k) of
           None \<Rightarrow> Inl NoMeta
         | Some m \<Rightarrow>
             Inr \<lparr>su_run_id = rm_run_id m, su_manifest_path = rm_manifest_path m, su_manifest_name = None,
                  su_pitboss_version = rm_pitboss_version m, su_claude_version = rm_claude_version m,
                  su_started_at = rm_started_at m, su_ended_at = now, su_total_duration_ms = num_milliseconds (now - rm_started_at m),
                  su_tasks_total = 0, su_tasks_failed = 0, su_was_interrupted = True, su_notify_failures = None,
                  su_tasks = []\<rparr>))"

section \<open>The sweep\<close>

datatype PruneAction = SynthesizeSummary | RemoveRun

record PruneOptions =
  po_apply :: bool
  po_remove :: bool
  po_older_than :: "int option"
  po_include_aborted :: bool

definition prune_action :: "PruneOptions \<Rightarrow> PruneAction" where
  "prune_action opts = (if po_remove opts then RemoveRun else SynthesizeSummary)"

definition matches_status :: "RunStatus \<Rightarrow> bool \<Rightarrow> bool" where
  "matches_status s include_aborted =
     (case s of RunStale \<Rightarrow> True | RunAborted \<Rightarrow> include_aborted | _ \<Rightarrow> False)"

record PruneCandidate =
  pc_run_id :: string
  pc_run_dir :: string
  pc_status :: RunStatus
  pc_age :: int
  pc_tasks_total :: nat
  pc_tasks_failed :: nat

definition candidate_of :: "int \<Rightarrow> RunEntry \<Rightarrow> PruneCandidate" where
  "candidate_of now e =
     \<lparr>pc_run_id = en_run_id e, pc_run_dir = en_run_dir e, pc_status = en_status e, pc_age = max 0 (now - en_mtime e),
      pc_tasks_total = en_tasks_total e, pc_tasks_failed = en_tasks_failed e\<rparr>"

definition filter_candidates :: "RunEntry list \<Rightarrow> PruneOptions \<Rightarrow> int \<Rightarrow> PruneCandidate list" where
  "filter_candidates runs opts now =
     filter (\<lambda>c. case po_older_than opts of Some m \<Rightarrow> \<not> pc_age c < m | None \<Rightarrow> True)
       (map (candidate_of now) (filter (\<lambda>e. matches_status (en_status e) (po_include_aborted opts)) runs))"

text \<open>
  The effect of a sweep on the host. \<open>io\<close> gives for a path the error of writing or removing it, if any; a
  removal of a directory that fails is taken to leave it as it was.
\<close>

record RunsHost =
  ho_dirs :: "(string \<times> RunDirectory) list"
  ho_sockets :: Sockets

definition synthesize_summary ::
  "RunCodec \<Rightarrow> (RunSummary \<Rightarrow> string) \<Rightarrow> int \<Rightarrow> (string \<Rightarrow> string option) \<Rightarrow> string \<Rightarrow> RunDirectory \<Rightarrow>
   SummaryError + RunDirectory" where
  "synthesize_summary k enc now io dir d =
     (case build_synthesized_summary k now d of
        Inl e \<Rightarrow> Inl e
      | Inr s \<Rightarrow>
          (case io (dir @ ''/summary.json'') of
             Some e \<Rightarrow> Inl (WriteFailed e)
           | None \<Rightarrow> Inr (d\<lparr>di_summary_json := Some (enc s)\<rparr>)))"

definition leftover_socket_path :: "Sockets \<Rightarrow> string \<Rightarrow> string option" where
  "leftover_socket_path so rid = map_option (\<lambda>xdg. xdg @ ''/pitboss/'' @ rid @ ''.control.sock'') (so_xdg so)"

definition remove_run ::
  "(string \<Rightarrow> string option) \<Rightarrow> string \<Rightarrow> string \<Rightarrow> RunsHost \<Rightarrow> (SummaryError + unit) \<times> RunsHost" where
  "remove_run io rid dir h =
     (case io dir of
        Some e \<Rightarrow> (Inl (WriteFailed e), h)
      | None \<Rightarrow>
          (let h = h\<lparr>ho_dirs := hm_remove plain rid (ho_dirs h)\<rparr>;
               so = ho_sockets h
           in case leftover_socket_path so rid of
                Some sock \<Rightarrow>
                  (Inr (), if io sock = None then h\<lparr>ho_sockets := so\<lparr>so_exists := (so_exists so)(sock := False)\<rparr>\<rparr> else h)
              | None \<Rightarrow> (Inr (), h)))"

definition prune_one ::
  "RunCodec \<Rightarrow> (RunSummary \<Rightarrow> string) \<Rightarrow> int \<Rightarrow> (string \<Rightarrow> string option) \<Rightarrow> PruneAction \<Rightarrow> PruneCandidate \<Rightarrow> RunsHost \<Rightarrow>
   (SummaryError + unit) \<times> RunsHost" where
  "prune_one k enc now io action c h =
     (case action of
        SynthesizeSummary \<Rightarrow>
          (case hm_get plain (pc_run_id c) (ho_dirs h) of
             None \<Rightarrow> (Inl NoMeta, h)
           | Some d \<Rightarrow>
               (case synthesize_summary k enc now io (pc_run_dir c) d of
                  Inl e \<Rightarrow> (Inl e, h)
                | Inr d' \<Rightarrow> (Inr (), h\<lparr>ho_dirs := hm_update (pc_run_id c) (\<lambda>_. d') (ho_dirs h)\<rparr>)))
      | RemoveRun \<Rightarrow> remove_run io (pc_run_id c) (pc_run_dir c) h)"

fun prune_all ::
  "RunCodec \<Rightarrow> (RunSummary \<Rightarrow> string) \<Rightarrow> int \<Rightarrow> (string \<Rightarrow> string option) \<Rightarrow> PruneAction \<Rightarrow> PruneCandidate list \<Rightarrow>
   RunsHost \<Rightarrow> (string \<times> (SummaryError + unit)) list \<times> RunsHost" where
  "prune_all k enc now io action [] h = ([], h)"
| "prune_all k enc now io action (c # cs) h =
     (let (res, h) = prune_one k enc now io action c h;
          (outcomes, h) = prune_all k enc now io action cs h
      in ((pc_run_id c, res) # outcomes, h))"

definition prune_runs ::
  "RunCodec \<Rightarrow> (RunSummary \<Rightarrow> string) \<Rightarrow> int \<Rightarrow> (string \<Rightarrow> string option) \<Rightarrow> PruneOptions \<Rightarrow> string \<Rightarrow> RunsHost \<Rightarrow>
   (string \<times> (SummaryError + unit)) list \<times> RunsHost" where
  "prune_runs k enc now io opts base h =
     (let candidates = filter_candidates (collect_run_entries k (ho_sockets h) now base (ho_dirs h)) opts now
      in if po_apply opts then prune_all k enc now io (prune_action opts) candidates h else ([], h))"

text \<open>\<^verbatim>\<open>parse_duration\<close>: a number with a unit, or bare seconds; products saturate.\<close>

definition parse_u64 :: "string \<Rightarrow> nat option" where
  "parse_u64 s =
     (if s = [] \<or> \<not> list_all (\<lambda>c. digit_val 10 c \<noteq> None) s then None
      else let n = fold (\<lambda>c n. n * 10 + the (digit_val 10 c)) s 0 in if n < 2 ^ 64 then Some n else None)"

definition parse_duration :: "string \<Rightarrow> nat option" where
  "parse_duration s =
     (let trimmed = trim s;
          num = takeWhile (\<lambda>c. digit_val 10 c \<noteq> None) trimmed;
          rest = dropWhile (\<lambda>c. digit_val 10 c \<noteq> None) trimmed;
          suffix = (if rest = [] then ''s'' else rest);
          sat = (\<lambda>n m. min (n * m) (2 ^ 64 - 1))
      in if trimmed = [] then None
         else Option.bind (parse_u64 num) (\<lambda>n.
           if suffix = ''s'' then Some n else if suffix = ''m'' then Some (sat n 60)
           else if suffix = ''h'' then Some (sat n 3600) else if suffix = ''d'' then Some (sat n 86400) else None))"

end
