(* ===== verification/Resume.thy ===== *)
theory Resume
  imports Run_Index Spawn_Args
begin

text \<open>
  Building the manifest of a resumed run from the directory of a finished one
  (\<^verbatim>\<open>pitboss-cli/src/dispatch/resume.rs\<close>), and what reaches the command line of the resumed sessions. The
  decoders of \<^verbatim>\<open>serde_json\<close> and \<^verbatim>\<open>toml\<close>, the process environment and the existence of a worktree are arguments.
\<close>

section \<open>Session ids\<close>

definition MAX_SESSION_ID_LEN :: nat where
  "MAX_SESSION_ID_LEN = 128"

datatype SessionIdError = SidEmpty | SidTooLong nat | SidLeadingDash | SidDisallowed

definition validate_session_id :: "string \<Rightarrow> SessionIdError + unit" where
  "validate_session_id sid =
     (if sid = [] then Inl SidEmpty
      else if length sid > MAX_SESSION_ID_LEN then Inl (SidTooLong (length sid))
      else if starts_with sid ''-'' then Inl SidLeadingDash
      else if \<not> list_all (\<lambda>c. ascii_alphanumeric c \<or> c = CHR ''-'' \<or> c = CHR ''_'') sid then Inl SidDisallowed
      else Inr ())"

section \<open>The snapshot of the manifest\<close>

definition CURRENT_MANIFEST_SCHEMA_VERSION :: nat where
  "CURRENT_MANIFEST_SCHEMA_VERSION = 1"

datatype ResumeError =
    NoResolved | BadJson | IncompatibleVersion nat | NotAManifest | NoSnapshotToml | UnreadableSnapshot | BadSnapshot
  | EnvNotSet NotifyError | NoSummaryJson | BadSummary | TamperedSession string SessionIdError | NothingToResume
  | NotHierarchical | NoLeadRecord | NoLeadSession | TamperedLead SessionIdError | WorktreeCleaned string

record SubleadSessionEntry =
  se_sublead_id :: string
  se_session_id :: string

record 'v ResumeCodec =
  ro_json :: "string \<Rightarrow> 'v option"
  ro_version :: "'v \<Rightarrow> nat option"
  ro_manifest :: "'v \<Rightarrow> ResolvedManifest option"
  ro_notification :: "string \<Rightarrow> NotificationConfig list option"
  ro_summary :: "string \<Rightarrow> RunSummary option"
  ro_entry :: "string \<Rightarrow> SubleadSessionEntry option"

record PriorRun =
  pr_resolved_json :: "string option"
  pr_snapshot_toml :: "string option"
  pr_summary_json :: "string option"
  pr_subleads_jsonl :: "string option"
  pr_exists :: "string \<Rightarrow> bool"

text \<open>The loop over the sinks stops at the first variable that is not set.\<close>

fun substitute_all :: "(string \<Rightarrow> string option) \<Rightarrow> NotificationConfig list \<Rightarrow> NotifyError + NotificationConfig list" where
  "substitute_all env [] = Inr []"
| "substitute_all env (cfg # cfgs) =
     (case apply_env_substitution_with env cfg of
        Inl e \<Rightarrow> Inl e
      | Inr cfg \<Rightarrow> (case substitute_all env cfgs of Inl e \<Rightarrow> Inl e | Inr cfgs \<Rightarrow> Inr (cfg # cfgs)))"

definition reconstruct_notifications ::
  "'v ResumeCodec \<Rightarrow> (string \<Rightarrow> string option) \<Rightarrow> PriorRun \<Rightarrow> ResumeError + NotificationConfig list" where
  "reconstruct_notifications k env d =
     (case pr_snapshot_toml d of
        None \<Rightarrow> Inl NoSnapshotToml
      | Some text \<Rightarrow>
          if \<not> valid_utf8 text then Inl UnreadableSnapshot
          else (case ro_notification k text of
                  None \<Rightarrow> Inl BadSnapshot
                | Some cfgs \<Rightarrow> (case substitute_all env cfgs of Inl e \<Rightarrow> Inl (EnvNotSet e) | Inr cfgs \<Rightarrow> Inr cfgs)))"

definition read_resolved_manifest ::
  "'v ResumeCodec \<Rightarrow> (string \<Rightarrow> string option) \<Rightarrow> PriorRun \<Rightarrow> ResumeError + ResolvedManifest" where
  "read_resolved_manifest k env d =
     (case pr_resolved_json d of
        None \<Rightarrow> Inl NoResolved
      | Some bytes \<Rightarrow>
          (case ro_json k bytes of
             None \<Rightarrow> Inl BadJson
           | Some raw \<Rightarrow>
               (let snapshot_ver = (case ro_version k raw of None \<Rightarrow> 0 | Some v \<Rightarrow> if v < 2 ^ 32 then v else 2 ^ 32 - 1) in
                if snapshot_ver > CURRENT_MANIFEST_SCHEMA_VERSION then Inl (IncompatibleVersion snapshot_ver)
                else (case ro_manifest k raw of
                        None \<Rightarrow> Inl NotAManifest
                      | Some resolved \<Rightarrow>
                          (case reconstruct_notifications k env d of
                             Inl e \<Rightarrow> Inl e
                           | Inr ns \<Rightarrow> Inr (resolved\<lparr>notifications := ns\<rparr>))))))"

definition read_summary :: "'v ResumeCodec \<Rightarrow> PriorRun \<Rightarrow> ResumeError + RunSummary" where
  "read_summary k d =
     (case pr_summary_json d of
        None \<Rightarrow> Inl NoSummaryJson
      | Some bytes \<Rightarrow> (case ro_summary k bytes of None \<Rightarrow> Inl BadSummary | Some s \<Rightarrow> Inr s))"

section \<open>Flat runs\<close>

definition session_ids :: "RunSummary \<Rightarrow> (string \<times> string option) list" where
  "session_ids s = fold (\<lambda>r. hm_insert plain (tr_task_id r) (tr_claude_session_id r)) (su_tasks s) []"

fun resume_tasks :: "(string \<times> string option) list \<Rightarrow> ResolvedTask list \<Rightarrow> ResumeError + ResolvedTask list" where
  "resume_tasks ids [] = Inr []"
| "resume_tasks ids (task # ts) =
     (case hm_get plain (task_id task) ids of
        Some (Some sid) \<Rightarrow>
          (case validate_session_id sid of
             Inl e \<Rightarrow> Inl (TamperedSession (task_id task) e)
           | Inr _ \<Rightarrow>
               (case resume_tasks ids ts of
                  Inl e \<Rightarrow> Inl e
                | Inr resumed \<Rightarrow> Inr (task\<lparr>task_resume_session_id := Some sid\<rparr> # resumed)))
      | _ \<Rightarrow> resume_tasks ids ts)"

definition build_resume_manifest ::
  "'v ResumeCodec \<Rightarrow> (string \<Rightarrow> string option) \<Rightarrow> PriorRun \<Rightarrow> ResumeError + ResolvedManifest" where
  "build_resume_manifest k env d =
     (case read_resolved_manifest k env d of
        Inl e \<Rightarrow> Inl e
      | Inr base \<Rightarrow>
          (case read_summary k d of
             Inl e \<Rightarrow> Inl e
           | Inr summary \<Rightarrow>
               (case resume_tasks (session_ids summary) (tasks base) of
                  Inl e \<Rightarrow> Inl e
                | Inr resumed \<Rightarrow> if resumed = [] then Inl NothingToResume else Inr (base\<lparr>tasks := resumed\<rparr>))))"

section \<open>Hierarchical runs\<close>

definition sublead_entry :: "'v ResumeCodec \<Rightarrow> string \<Rightarrow> SubleadSessionEntry option" where
  "sublead_entry k line =
     (let line = trim line in
      if line = [] then None
      else (case ro_entry k line of
              None \<Rightarrow> None
            | Some entry \<Rightarrow> (case validate_session_id (se_session_id entry) of Inl _ \<Rightarrow> None | Inr _ \<Rightarrow> Some entry)))"

definition sublead_sessions :: "'v ResumeCodec \<Rightarrow> PriorRun \<Rightarrow> (string \<times> string) list" where
  "sublead_sessions k d =
     (case pr_subleads_jsonl d of
        None \<Rightarrow> []
      | Some content \<Rightarrow>
          if valid_utf8 content
          then fold (\<lambda>e. hm_insert plain (se_sublead_id e) (se_session_id e)) (List.map_filter (sublead_entry k) (str_lines content)) []
          else [])"

definition build_resume_hierarchical ::
  "'v ResumeCodec \<Rightarrow> (string \<Rightarrow> string option) \<Rightarrow> PriorRun \<Rightarrow> ResumeError + ResolvedManifest \<times> (string \<times> string) list" where
  "build_resume_hierarchical k env d =
     (case read_resolved_manifest k env d of
        Inl e \<Rightarrow> Inl e
      | Inr resolved \<Rightarrow>
          (case lead resolved of
             None \<Rightarrow> Inl NotHierarchical
           | Some ld \<Rightarrow>
               (case read_summary k d of
                  Inl e \<Rightarrow> Inl e
                | Inr summary \<Rightarrow>
                    (case find (\<lambda>r. tr_task_id r = rl_id ld) (su_tasks summary) of
                       None \<Rightarrow> Inl NoLeadRecord
                     | Some rec \<Rightarrow>
                         (case tr_claude_session_id rec of
                            None \<Rightarrow> Inl NoLeadSession
                          | Some sid \<Rightarrow>
                              (case validate_session_id sid of
                                 Inl e \<Rightarrow> Inl (TamperedLead e)
                               | Inr _ \<Rightarrow>
                                   (let found = Inr (resolved\<lparr>lead := Some (ld\<lparr>rl_resume_session_id := Some sid\<rparr>), tasks := []\<rparr>,
                                                     sublead_sessions k d)
                                    in case tr_worktree_path rec of
                                         Some wt \<Rightarrow> if \<not> pr_exists d wt then Inl (WorktreeCleaned wt) else found
                                       | None \<Rightarrow> found)))))))"

end
