(* ===== verification/Snapshot_Facts.thy ===== *)
theory Snapshot_Facts
  imports Run_Snapshot Flat_Facts
begin

text \<open>
  The polling reader against the one-shot reader: on a file that only grows they agree at every poll,
  whatever the polls see of a line being written; after a rotation they need not.
\<close>

section \<open>Cutting at the last line feed\<close>

definition ends_line :: "string \<Rightarrow> bool" where
  "ends_line s \<longleftrightarrow> s = [] \<or> last s = newline"

lemma complete_part_ends: "ends_line (complete_part s)"
proof (cases "dropWhile (\<lambda>c. c \<noteq> newline) (rev s)")
  case (Cons c cs)
  then have "c = newline" using hd_dropWhile[of "\<lambda>c. c \<noteq> newline" "rev s"] by simp
  then show ?thesis using Cons by (simp add: ends_line_def complete_part_def)
qed (simp add: ends_line_def complete_part_def)

lemma complete_part_id: "ends_line s \<Longrightarrow> complete_part s = s"
proof (cases s rule: rev_cases)
  case (snoc ys y)
  then show "ends_line s \<Longrightarrow> complete_part s = s" by (simp add: ends_line_def complete_part_def)
qed (simp add: complete_part_def)

lemma complete_part_append: "ends_line a \<Longrightarrow> complete_part (a @ b) = a @ complete_part b"
proof (cases "newline \<in> set b")
  case True
  then have "dropWhile (\<lambda>c. c \<noteq> newline) (rev b @ rev a) = dropWhile (\<lambda>c. c \<noteq> newline) (rev b) @ rev a"
    by (intro dropWhile_append1[of newline]) auto
  then show ?thesis by (simp add: complete_part_def)
next
  case False
  assume a: "ends_line a"
  have "dropWhile (\<lambda>c. c \<noteq> newline) (rev b @ rev a) = dropWhile (\<lambda>c. c \<noteq> newline) (rev a)"
    "dropWhile (\<lambda>c. c \<noteq> newline) (rev b) = []"
    using False by (auto intro!: dropWhile_append2)
  then have "complete_part (a @ b) = complete_part a" "complete_part b = []" by (simp_all add: complete_part_def)
  then show ?thesis using complete_part_id[OF a] by simp
qed

lemma complete_part_prefix: "\<exists>t. s = complete_part s @ t"
  by (metis complete_part_def rev_append rev_rev_ident takeWhile_dropWhile_id)

lemma line_records_append: "ends_line a \<Longrightarrow> line_records k (a @ b) = line_records k a @ line_records k b"
  by (simp add: line_records_def ends_line_def str_lines_append List.map_filter_def)

lemma line_records_Nil: "line_records k [] = []"
  by (simp add: line_records_def str_lines_def List.map_filter_def)

section \<open>Records in the map\<close>

lemma get_insert_record:
  "hm_get plain x (insert_record r m) = (if x = tr_task_id r then Some r else hm_get plain x m)"
  by (simp add: insert_record_def hm_get_insert)

lemma get_insert_records:
  "hm_get plain x (fold insert_record rs m) =
   (case find (\<lambda>r. tr_task_id r = x) (rev rs) of Some r \<Rightarrow> Some r | None \<Rightarrow> hm_get plain x m)"
proof (induction rs rule: rev_induct)
  case (snoc r rs)
  then show ?case by (simp add: get_insert_record)
qed simp

lemma find_mem: "find P xs = Some y \<Longrightarrow> y \<in> set xs \<and> P y"
  by (induction xs) (auto split: if_splits)

definition latest :: "'s SnapCodec \<Rightarrow> string \<Rightarrow> string \<Rightarrow> TaskRecord option" where
  "latest k content x = hm_get plain x (fold insert_record (line_records k (complete_part content)) [])"

text \<open>Every record of the summary is the latest row of its task in the file.\<close>

definition summary_of_rows :: "'s SnapCodec \<Rightarrow> string option \<Rightarrow> string \<Rightarrow> bool" where
  "summary_of_rows k bytes content \<longleftrightarrow>
     (\<forall>b s. bytes = Some b \<longrightarrow> sk_summary k b = Some s \<longrightarrow>
        (\<forall>r\<in>set (sk_tasks k s). latest k content (tr_task_id r) = Some r))"

lemma get_loaded:
  "hm_get plain x (snd (load_summary_json k bytes m)) =
   (case Option.bind bytes (sk_summary k) of
      None \<Rightarrow> hm_get plain x m
    | Some s \<Rightarrow> (case find (\<lambda>r. tr_task_id r = x) (rev (sk_tasks k s)) of Some r \<Rightarrow> Some r | None \<Rightarrow> hm_get plain x m))"
  by (auto simp: load_summary_json_def get_insert_records split: option.split)

text \<open>Loading the summary before the new rows leaves the latest row of every task in place.\<close>

lemma load_then_rows:
  assumes "summary_of_rows k bytes (a @ b)" "ends_line a"
    "\<And>x. hm_get plain x m = latest k a x"
  shows "hm_get plain x (fold insert_record (line_records k (complete_part b)) (snd (load_summary_json k bytes m))) = latest k (a @ b) x"
proof -
  have rows: "latest k (a @ b) x = hm_get plain x (fold insert_record (line_records k (complete_part b)) m)"
    using assms(3)[of x] assms(2) unfolding latest_def complete_part_append[OF assms(2)] complete_part_id[OF assms(2)]
    by (simp add: line_records_append get_insert_records split: option.split)
  show ?thesis
  proof (cases "find (\<lambda>r. tr_task_id r = x) (rev (line_records k (complete_part b)))")
    case None
    then have "latest k (a @ b) x = hm_get plain x m" using rows by (simp add: get_insert_records)
    moreover have "latest k (a @ b) x = Some r"
      if "Option.bind bytes (sk_summary k) = Some s" "find (\<lambda>r. tr_task_id r = x) (rev (sk_tasks k s)) = Some r" for s r
    proof -
      from find_mem[OF that(2)] have "r \<in> set (sk_tasks k s)" "tr_task_id r = x" by simp_all
      then show ?thesis using assms(1) that(1) unfolding summary_of_rows_def by (auto simp: bind_eq_Some_conv)
    qed
    ultimately show ?thesis using None
      by (auto simp: get_insert_records get_loaded split: option.splits)
  qed (simp add: rows get_insert_records)
qed

section \<open>Polls of a growing file\<close>

text \<open>
  What a poll finds: the metadata describe the content \<open>c\<close>, and by the time the file is opened more may
  have been written.
\<close>

definition sees :: "nat \<Rightarrow> int option \<Rightarrow> int \<Rightarrow> Disk \<Rightarrow> string \<Rightarrow> bool" where
  "sees ino cr t d c \<longleftrightarrow>
     dk_tail d = Some \<lparr>me_len = length c, me_modified = Some t, me_created = cr, me_ino = ino\<rparr> \<and>
     (\<exists>later. dk_jsonl d = Some (c @ later)) \<and> (\<exists>n. dk_read d = Some n \<and> length c \<le> n) \<and>
     valid_utf8 (complete_part c)"

text \<open>The metadata of the summary tell whether it is there and which version it is.\<close>

definition head_ok :: "(int \<Rightarrow> string) \<Rightarrow> Disk \<Rightarrow> bool" where
  "head_ok version d \<longleftrightarrow>
     (case dk_head d of
        None \<Rightarrow> dk_json d = None
      | Some m \<Rightarrow> \<exists>t. me_modified m = Some t \<and> dk_json d = Some (version t))"

inductive growing :: "'s SnapCodec \<Rightarrow> (int \<Rightarrow> string) \<Rightarrow> nat \<Rightarrow> int option \<Rightarrow> Disk list \<Rightarrow> string \<Rightarrow> int \<Rightarrow> bool"
  for k version ino cr where
  first_poll: "sees ino cr t d c \<Longrightarrow> head_ok version d \<Longrightarrow> summary_of_rows k (dk_json d) c \<Longrightarrow> growing k version ino cr [d] c t"
| next_poll: "growing k version ino cr ds c t \<Longrightarrow> sees ino cr t' d (c @ e) \<Longrightarrow> t \<le> t' \<Longrightarrow> head_ok version d \<Longrightarrow>
    summary_of_rows k (dk_json d) (c @ e) \<Longrightarrow> growing k version ino cr (ds @ [d]) (c @ e) t'"

definition polls :: "'s SnapCodec \<Rightarrow> Disk list \<Rightarrow> 's RunSnapshotReader \<Rightarrow> 's RunSnapshotReader" where
  "polls k ds r = fold (refresh k) ds r"

text \<open>What the reader knows after a poll that saw \<open>c\<close> under the head of \<open>d\<close>.\<close>

definition caught_up :: "'s SnapCodec \<Rightarrow> nat \<Rightarrow> int option \<Rightarrow> Disk \<Rightarrow> string \<Rightarrow> int \<Rightarrow> 's RunSnapshotReader \<Rightarrow> bool" where
  "caught_up k ino cr d c t r \<longleftrightarrow>
     rd_jsonl r = \<lparr>jt_offset = length (complete_part c), jt_mtime = Some t, jt_inode = Some ino, jt_created = cr\<rparr> \<and>
     rd_json_mtime r = modified (dk_head d) \<and>
     sn_run_summary (rd_cached r) = fst (load_summary_json k (dk_json d) []) \<and>
     (\<forall>x. snapshot_get x (rd_cached r) = latest k c x)"

lemma fst_load: "fst (load_summary_json k b m) = fst (load_summary_json k b m')"
  by (simp add: load_summary_json_def split: option.split)

lemma refresh_json_cases:
  assumes "head_ok version d"
    "rd_json_mtime r = modified (dk_head d0)" "sn_run_summary (rd_cached r) = fst (load_summary_json k (dk_json d0) [])"
    "head_ok version d0"
  shows "rd_json_mtime (refresh_json k d r) = modified (dk_head d)"
    "sn_run_summary (rd_cached (refresh_json k d r)) = fst (load_summary_json k (dk_json d) [])"
    "rd_jsonl (refresh_json k d r) = rd_jsonl r"
    "sn_tasks (rd_cached (refresh_json k d r)) = snd (load_summary_json k (dk_json d) (sn_tasks (rd_cached r))) \<or>
     sn_tasks (rd_cached (refresh_json k d r)) = sn_tasks (rd_cached r)"
  using assms fst_load[of k "dk_json d" "sn_tasks (rd_cached r)" "[]"]
  by (auto simp: refresh_json_def head_ok_def modified_def reload_json_def load_summary_json_def Let_def
      split: option.splits prod.splits if_splits)

lemma load_or_keep:
  assumes "summary_of_rows k bytes (a @ b)" "ends_line a" "\<And>x. hm_get plain x m = latest k a x"
    "m' = snd (load_summary_json k bytes m) \<or> m' = m"
  shows "hm_get plain x (fold insert_record (line_records k (complete_part b)) m') = latest k (a @ b) x"
  using assms(4)
proof
  assume "m' = m"
  moreover have "summary_of_rows k None (a @ b)" by (simp add: summary_of_rows_def)
  ultimately show ?thesis using load_then_rows[of k None a b m x] assms(2,3)
    by (simp add: load_summary_json_def)
qed (use load_then_rows[OF assms(1,2,3)] in simp)

lemma tail_step:
  assumes "sees ino cr t d (a @ b)" "ends_line a" "valid_utf8 a" "jt_offset (rd_jsonl r) = length a"
    "r' = (if length (a @ b) > jt_offset (rd_jsonl r) then tail_jsonl k d (length (a @ b)) r else r)"
  shows "sn_tasks (rd_cached r') = fold insert_record (line_records k (complete_part b)) (sn_tasks (rd_cached r))"
    "sn_run_summary (rd_cached r') = sn_run_summary (rd_cached r)" "rd_json_mtime r' = rd_json_mtime r"
    "jt_offset (rd_jsonl r') = length (complete_part (a @ b))"
proof -
  obtain later n where disk: "dk_jsonl d = Some (a @ b @ later)" "dk_read d = Some n" "length (a @ b) \<le> n"
    and valid: "valid_utf8 (complete_part (a @ b))" using assms(1) by (auto simp: sees_def)
  have part: "complete_part (a @ b) = a @ complete_part b" using assms(2) by (rule complete_part_append)
  then have v: "valid_utf8 (complete_part b)" using valid assms(3) by (simp add: valid_utf8_append)
  have buf: "take (min n (length (a @ b) - length a)) (drop (length a) (a @ b @ later)) = b"
    using disk(3) by simp
  have r': "r' = (if complete_part b = [] then r
      else r\<lparr>rd_cached := (rd_cached r)\<lparr>sn_tasks := fold insert_record (line_records k (complete_part b)) (sn_tasks (rd_cached r))\<rparr>,
        rd_jsonl := (rd_jsonl r)\<lparr>jt_offset := length (a @ complete_part b)\<rparr>\<rparr>)"
    using assms(4,5) disk buf v by (cases "b = []") (auto simp: tail_jsonl_def Let_def complete_part_def)
  show "sn_tasks (rd_cached r') = fold insert_record (line_records k (complete_part b)) (sn_tasks (rd_cached r))"
    "sn_run_summary (rd_cached r') = sn_run_summary (rd_cached r)" "rd_json_mtime r' = rd_json_mtime r"
    "jt_offset (rd_jsonl r') = length (complete_part (a @ b))"
    unfolding r' part using assms(4) by (simp_all add: line_records_Nil)
qed

lemma refresh_catches_up:
  assumes "jsonl_tail_is_safe r (dk_tail d)" "sees ino cr t d (a @ b)" "ends_line a" "valid_utf8 a"
    "jt_offset (rd_jsonl r) = length a" "\<And>x. snapshot_get x (rd_cached r) = latest k a x"
    "head_ok version d" "head_ok version d0" "summary_of_rows k (dk_json d) (a @ b)"
    "rd_json_mtime r = modified (dk_head d0)" "sn_run_summary (rd_cached r) = fst (load_summary_json k (dk_json d0) [])"
  shows "caught_up k ino cr d (a @ b) t (refresh k d r)"
proof -
  let ?r1 = "refresh_json k d r"
  note json = refresh_json_cases[OF assms(7,10,11,8)]
  have offset: "jt_offset (rd_jsonl ?r1) = length a" using json(3) assms(5) by simp
  have rows: "hm_get plain x (fold insert_record (line_records k (complete_part b)) (sn_tasks (rd_cached ?r1))) = latest k (a @ b) x" for x
    using load_or_keep[OF assms(9,3) _ json(4)] assms(6) by (simp add: snapshot_get_def)
  have tail: "dk_tail d = Some \<lparr>me_len = length (a @ b), me_modified = Some t, me_created = cr, me_ino = ino\<rparr>"
    using assms(2) by (simp add: sees_def)
  define r2 where "r2 = (if length (a @ b) > jt_offset (rd_jsonl ?r1) then tail_jsonl k d (length (a @ b)) ?r1 else ?r1)"
  note step = tail_step[OF assms(2,3,4) offset r2_def]
  have "refresh k d r = r2\<lparr>rd_jsonl := (rd_jsonl r2)\<lparr>jt_mtime := Some t, jt_created := cr, jt_inode := Some ino\<rparr>\<rparr>"
    using assms(1) unfolding refresh_def tail Let_def r2_def by simp
  then show ?thesis using json(1,2) rows step by (simp add: caught_up_def snapshot_get_def)
qed

lemma latest_complete: "latest k (complete_part c) x = latest k c x"
  by (simp add: latest_def complete_part_id complete_part_ends)

lemma latest_Nil: "latest k [] x = None"
  by (simp add: latest_def complete_part_def line_records_Nil)

lemma growing_caught_up:
  "growing k version ino cr ds c t \<Longrightarrow>
   caught_up k ino cr (last ds) c t (polls k ds new_reader) \<and> head_ok version (last ds) \<and> valid_utf8 (complete_part c)"
proof (induction rule: growing.induct)
  case (first_poll t d c)
  let ?none = "\<lparr>dk_head = None, dk_tail = None, dk_json = None, dk_jsonl = None, dk_read = None\<rparr>"
  have "caught_up k ino cr d ([] @ c) t (refresh k d new_reader)"
    by (rule refresh_catches_up[where version = version and ?d0.0 = ?none])
      (use first_poll in \<open>simp_all add: jsonl_tail_is_safe_def new_reader_def default_tail_def empty_snapshot_def ends_line_def
         valid_utf8.simps[of "[]"] snapshot_get_def latest_Nil head_ok_def modified_def load_summary_json_def split: option.split\<close>)
  then show ?case using first_poll by (simp add: polls_def sees_def)
next
  case (next_poll ds c t t' d e)
  let ?r = "polls k ds new_reader"
  obtain rest where c: "c = complete_part c @ rest" using complete_part_prefix by blast
  then have ce: "c @ e = complete_part c @ rest @ e" by (metis append_assoc)
  have up: "caught_up k ino cr (last ds) c t ?r" "head_ok version (last ds)" "valid_utf8 (complete_part c)"
    using next_poll.IH by simp_all
  have "length (complete_part c) \<le> length c" using c by (metis le_add1 length_append)
  then have safe: "jsonl_tail_is_safe ?r (dk_tail d)"
    using up(1) next_poll.hyps(2,3) by (simp add: jsonl_tail_is_safe_def caught_up_def sees_def split: option.split)
  have "caught_up k ino cr d (complete_part c @ rest @ e) t' (refresh k d ?r)"
    by (rule refresh_catches_up[OF safe _ complete_part_ends up(3) _ _ next_poll.hyps(4) up(2)])
      (use next_poll.hyps up(1) in \<open>simp_all add: ce[symmetric] caught_up_def latest_complete\<close>)
  then show ?case using next_poll.hyps(2,4) by (simp add: polls_def ce[symmetric] sees_def)
qed

text \<open>
  C21: Polling a \<^verbatim>\<open>summary.jsonl\<close> that only grows gives at every poll the finalised summary and, for every task,
  the record that the one-shot reader gives on the complete lines. Polls may catch any line half written, and the
  file may grow between its stat and its read. The conditions: the file is never replaced or cut and its complete
  lines are UTF-8; the modification time of \<^verbatim>\<open>summary.json\<close> determines its content, so it does not change between
  its stat and its read; and a summary that is found lists, for each of its tasks, the latest row written so far.
  Without the last condition the readers disagree, which \<open>stale_summary_wins\<close> below shows.
\<close>

theorem polling_agrees:
  assumes "growing k version ino cr ds c t"
  shows "sn_run_summary (rd_cached (polls k ds new_reader)) =
      sn_run_summary (read_run_snapshot k (dk_json (last ds)) (Some (complete_part c))) \<and>
    (\<forall>x. snapshot_get x (rd_cached (polls k ds new_reader)) =
      snapshot_get x (read_run_snapshot k (dk_json (last ds)) (Some (complete_part c))))"
proof -
  have up: "caught_up k ino cr (last ds) c t (polls k ds new_reader)" "valid_utf8 (complete_part c)"
    using growing_caught_up[OF assms] by simp_all
  have "summary_of_rows k (dk_json (last ds)) ([] @ c)"
    using assms by (cases rule: growing.cases) auto
  then have rows: "hm_get plain x (fold insert_record (line_records k (complete_part c)) (snd (load_summary_json k (dk_json (last ds)) [])))
      = latest k c x" for x
    using load_then_rows[of k "dk_json (last ds)" "[]" c "[]" x] by (simp add: ends_line_def latest_Nil)
  have "read_run_snapshot k (dk_json (last ds)) (Some (complete_part c)) =
      \<lparr>sn_run_summary = fst (load_summary_json k (dk_json (last ds)) []),
       sn_tasks = fold insert_record (line_records k (complete_part c)) (snd (load_summary_json k (dk_json (last ds)) []))\<rparr>"
    using up(2) by (simp add: read_run_snapshot_def overlay_summary_jsonl_def split: prod.split)
  then show ?thesis using up(1) rows by (simp add: caught_up_def snapshot_get_def)
qed

text \<open>
  The one-shot reader loads the summary first and lays the rows over it; a poll that finds a new summary lays it
  over the rows it already has. A summary whose record of a task is older than the last row, found by a reader
  that has read that row, therefore takes the row's place and stays, while the one-shot reader shows the row.
\<close>

theorem stale_summary_wins:
  assumes "caught_up k ino cr d0 c t r" "ends_line c" "sees ino cr t' d c" "t \<le> t'"
    and "dk_head d = Some m" "rd_json_mtime r \<noteq> me_modified m" "Option.bind (dk_json d) (sk_summary k) = Some s"
    and "find (\<lambda>r. tr_task_id r = x) (rev (sk_tasks k s)) = Some old" "latest k c x = Some new"
  shows "snapshot_get x (rd_cached (refresh k d r)) = Some old \<and>
         snapshot_get x (read_run_snapshot k (dk_json d) (Some c)) = Some new"
proof
  have c: "complete_part c = c" using assms(2) by (rule complete_part_id)
  have tail: "dk_tail d = Some \<lparr>me_len = length c, me_modified = Some t', me_created = cr, me_ino = ino\<rparr>" "valid_utf8 c"
    using assms(3) c by (simp_all add: sees_def)
  have safe: "jsonl_tail_is_safe r (dk_tail d)"
    using assms(1,4) c tail(1) by (simp add: jsonl_tail_is_safe_def caught_up_def split: option.split)
  have "sn_tasks (rd_cached (refresh k d r)) = snd (load_summary_json k (dk_json d) (sn_tasks (rd_cached r)))"
    using assms(1,5,6) safe tail(1) c
    by (simp add: refresh_def refresh_json_def reload_json_def caught_up_def Let_def split: prod.split)
  then show "snapshot_get x (rd_cached (refresh k d r)) = Some old"
    using assms(7,8) by (auto simp: snapshot_get_def get_loaded)
  show "snapshot_get x (read_run_snapshot k (dk_json d) (Some c)) = Some new"
    using assms(9) tail(2) c
    by (simp add: snapshot_get_def read_run_snapshot_def overlay_summary_jsonl_def get_insert_records latest_def
        split: prod.split option.splits)
qed

section \<open>A poll after a rotation\<close>

lemma line_records_line:
  "newline \<notin> set l \<Longrightarrow> CHR 0x0D \<notin> set l \<Longrightarrow> line_records k (l @ [newline]) = (case line_record k l of None \<Rightarrow> [] | Some r \<Rightarrow> [r])"
  by (auto simp: line_records_def str_lines_def split_on_append_sep split_on_no_sep strip_cr_def List.map_filter_def
      dest: last_in_set split: option.split)

lemma line_records_open:
  "newline \<notin> set l \<Longrightarrow> l \<noteq> [] \<Longrightarrow> line_records k l = (case line_record k l of None \<Rightarrow> [] | Some r \<Rightarrow> [r])"
  by (auto simp: line_records_def str_lines_def split_on_no_sep List.map_filter_def split: option.split)

text \<open>
  A poll that finds the file replaced reads it whole and then takes it as read up to its end. When the last
  line was still being written, its record is never seen: a fresh read has it, the reader does not.
\<close>

theorem reparse_loses_record:
  assumes "\<not> jsonl_tail_is_safe r (dk_tail d1)"
    "sees ino cr t d1 (w @ p)" "dk_jsonl d1 = Some (w @ p)" "dk_head d1 = None" "dk_json d1 = None"
    "sees ino cr t' d2 (w @ p @ e @ [newline])" "dk_head d2 = None" "t \<le> t'"
    "ends_line w" "p \<noteq> []" "newline \<notin> set (p @ e)" "CHR 0x0D \<notin> set (p @ e)" "valid_utf8 (w @ p)" "valid_utf8 (e @ [newline])"
    "line_record k p = None" "line_record k e = None" "line_record k (p @ e) = Some rec"
    "\<forall>r'\<in>set (line_records k w). tr_task_id r' \<noteq> tr_task_id rec"
  shows "snapshot_get (tr_task_id rec) (rd_cached (refresh k d2 (refresh k d1 r))) = None \<and>
    snapshot_get (tr_task_id rec) (read_run_snapshot k None (Some (w @ p @ e @ [newline]))) = Some rec"
proof -
  have none: "find (\<lambda>r'. tr_task_id r' = tr_task_id rec) (rev (line_records k w)) = None"
    using assms(18) by (simp add: find_None_iff)
  have rows1: "line_records k (w @ p) = line_records k w"
    using assms(9,10,11,15) by (simp add: line_records_append line_records_open)
  have r1: "refresh k d1 r = \<lparr>rd_cached = \<lparr>sn_run_summary = None, sn_tasks = fold insert_record (line_records k w) []\<rparr>,
      rd_json_mtime = None, rd_jsonl = \<lparr>jt_offset = length (w @ p), jt_mtime = Some t, jt_inode = Some ino, jt_created = cr\<rparr>\<rparr>"
    using assms(1-5,13) rows1
    by (simp add: refresh_def full_reparse_def read_run_snapshot_def load_summary_json_def overlay_summary_jsonl_def modified_def sees_def)
  obtain later n where d2: "dk_tail d2 = Some \<lparr>me_len = length (w @ p @ e @ [newline]), me_modified = Some t', me_created = cr, me_ino = ino\<rparr>"
    "dk_jsonl d2 = Some ((w @ p) @ (e @ [newline]) @ later)" "dk_read d2 = Some n" "length (w @ p @ e @ [newline]) \<le> n"
    using assms(6) by (auto simp: sees_def)
  have safe: "jsonl_tail_is_safe (refresh k d1 r) (dk_tail d2)"
    using assms(8) by (simp add: jsonl_tail_is_safe_def r1 d2(1) split: option.split)
  have buf: "take (min n (length (w @ p @ e @ [newline]) - length (w @ p))) (drop (length (w @ p)) ((w @ p) @ (e @ [newline]) @ later)) = e @ [newline]"
    using d2(4) by simp
  have part: "complete_part (e @ [newline]) = e @ [newline]" by (simp add: complete_part_id ends_line_def)
  have rows2: "line_records k (e @ [newline]) = []" using assms(11,12,16) by (simp add: line_records_line)
  have "sn_tasks (rd_cached (tail_jsonl k d2 (length (w @ p @ e @ [newline])) (refresh k d1 r))) = fold insert_record (line_records k w) []"
    using d2 buf part rows2 assms(14) by (simp add: tail_jsonl_def r1 Let_def)
  then have "sn_tasks (rd_cached (refresh k d2 (refresh k d1 r))) = fold insert_record (line_records k w) []"
    using safe d2(1) assms(7) r1 by (simp add: refresh_def[of k d2] refresh_json_def Let_def)
  moreover have "line_records k ((w @ p @ e) @ [newline]) = line_records k w @ [rec]"
    using assms(9,11,12,17) line_records_line[of "p @ e" k] by (simp add: line_records_append)
  moreover have "valid_utf8 (w @ p @ e @ [newline])"
    using assms(13,14) valid_utf8_append[of "w @ p" "e @ [newline]"] by simp
  ultimately show ?thesis using none
    by (simp add: snapshot_get_def get_insert_record get_insert_records read_run_snapshot_def load_summary_json_def overlay_summary_jsonl_def)
qed

section \<open>Concrete polls\<close>

definition letters :: "unit SnapCodec" where
  "letters = \<lparr>sk_record = (\<lambda>s. if s = ''ab'' then Some failed_rec else None), sk_summary = (\<lambda>_. None), sk_tasks = (\<lambda>_. [])\<rparr>"

definition poll_of :: "int \<Rightarrow> string \<Rightarrow> Disk" where
  "poll_of t c = \<lparr>dk_head = None, dk_tail = Some \<lparr>me_len = length c, me_modified = Some t, me_created = Some 1, me_ino = 9\<rparr>,
     dk_json = None, dk_jsonl = Some c, dk_read = Some 100\<rparr>"

lemma letters_rows:
  "line_record letters ''a'' = None" "line_record letters ''b'' = None" "line_record letters ''ab'' = Some failed_rec"
  "trim ''a'' = ''a''" "tr_task_id failed_rec = ''a''"
proof -
  have trims: "trim ''a'' = ''a''" "trim ''b'' = ''b''" "trim ''ab'' = ''ab''" by code_simp+
  then show "line_record letters ''a'' = None" "line_record letters ''b'' = None" "line_record letters ''ab'' = Some failed_rec"
    "trim ''a'' = ''a''"
    by (simp_all add: line_record_def letters_def)
  show "tr_task_id failed_rec = ''a''" by (simp add: failed_rec_def worktree_failed_record_def)
qed

lemma poll_fields:
  "dk_head (poll_of t c) = None" "dk_json (poll_of t c) = None" "dk_jsonl (poll_of t c) = Some c"
  "dk_tail (poll_of t c) = Some \<lparr>me_len = length c, me_modified = Some t, me_created = Some 1, me_ino = 9\<rparr>"
  by (simp_all add: poll_of_def)

lemma poll_sees: "length c \<le> 100 \<Longrightarrow> valid_utf8 (complete_part c) \<Longrightarrow> sees 9 (Some 1) t (poll_of t c) c"
  by (simp add: sees_def poll_of_def)

lemma not_newline: "newline \<noteq> CHR ''a''" "newline \<noteq> CHR ''b''"
  by (simp_all add: newline_def)

lemma ab_valid: "valid_utf8 (complete_part ''a'')" "valid_utf8 (complete_part [CHR ''a'', CHR ''b'', newline])"
  "valid_utf8 ''a''" "valid_utf8 [CHR ''b'', newline]"
  by code_simp+

theorem polling_agrees_witness:
  "snapshot_get ''a'' (rd_cached (polls letters [poll_of 1 ''a'', poll_of 2 [CHR ''a'', CHR ''b'', newline]] new_reader)) =
   snapshot_get ''a'' (read_run_snapshot letters None (Some [CHR ''a'', CHR ''b'', newline]))"
proof -
  have "growing letters (\<lambda>_. []) 9 (Some 1) [poll_of 1 ''a''] ''a'' 1"
    by (rule first_poll) (simp_all add: poll_sees ab_valid head_ok_def summary_of_rows_def poll_fields)
  then have "growing letters (\<lambda>_. []) 9 (Some 1) ([poll_of 1 ''a''] @ [poll_of 2 [CHR ''a'', CHR ''b'', newline]]) (''a'' @ [CHR ''b'', newline]) 2"
    by (rule next_poll) (simp_all add: poll_sees ab_valid head_ok_def summary_of_rows_def poll_fields)
  then show ?thesis
    using polling_agrees[of letters "\<lambda>_. []" 9 "Some 1" "[poll_of 1 ''a''] @ [poll_of 2 [CHR ''a'', CHR ''b'', newline]]" "''a'' @ [CHR ''b'', newline]" 2]
    by (simp add: poll_fields complete_part_def)
qed

theorem reparse_loses_record_witness:
  "snapshot_get ''a'' (rd_cached (refresh letters (poll_of 2 [CHR ''a'', CHR ''b'', newline])
     (refresh letters (poll_of 1 ''a'') (new_reader\<lparr>rd_jsonl := default_tail\<lparr>jt_offset := 50\<rparr>\<rparr>)))) = None \<and>
   snapshot_get ''a'' (read_run_snapshot letters None (Some [CHR ''a'', CHR ''b'', newline])) = Some failed_rec"
  using reparse_loses_record[where r = "new_reader\<lparr>rd_jsonl := default_tail\<lparr>jt_offset := 50\<rparr>\<rparr>" and ?d1.0 = "poll_of 1 ''a''" and
      ino = 9 and cr = "Some 1" and t = 1 and w = "[]" and p = "''a''" and ?d2.0 = "poll_of 2 [CHR ''a'', CHR ''b'', newline]" and
      t' = 2 and e = "''b''" and k = letters and rec = failed_rec] poll_sees[of "''a''" 1] poll_sees[of "[CHR ''a'', CHR ''b'', newline]" 2]
  by (simp add: ab_valid letters_rows ends_line_def jsonl_tail_is_safe_def default_tail_def line_records_Nil not_newline poll_fields)

end
