(* ===== verification/Run_Index_Facts.thy ===== *)
theory Run_Index_Facts
  imports Run_Index Snapshot_Facts
begin

text \<open>
  What the index of runs, the record stream and the sweep of orphaned runs guarantee: the sweep leaves every
  live, finalised or young run alone, a synthesised summary settles a run without losing a record, a replay
  lists each task once in the order of the ends, and a tail delivers every record it was shown.
\<close>

section \<open>The records of a snapshot\<close>

definition keyed_by_task :: "(string \<times> TaskRecord) list \<Rightarrow> bool" where
  "keyed_by_task m \<longleftrightarrow> hm_wf plain m \<and> list_all (\<lambda>(x, r). x = tr_task_id r) m"

lemma keyed_insert: "keyed_by_task m \<Longrightarrow> keyed_by_task (insert_record r m)"
proof -
  have "list_all (\<lambda>(x, r). x = tr_task_id r) m \<Longrightarrow> list_all (\<lambda>(x, r). x = tr_task_id r) (hm_insert plain (tr_task_id r) r m)"
    by (induction m) auto
  then show "keyed_by_task m \<Longrightarrow> keyed_by_task (insert_record r m)" by (simp add: keyed_by_task_def insert_record_def)
qed

lemma keyed_inserts: "keyed_by_task m \<Longrightarrow> keyed_by_task (fold insert_record rs m)"
  by (induction rs arbitrary: m) (simp_all add: keyed_insert)

lemma keyed_Nil: "keyed_by_task []"
  by (simp add: keyed_by_task_def)

lemma keyed_snapshot: "keyed_by_task (sn_tasks (read_run_snapshot k j l))"
  by (simp add: read_run_snapshot_def load_summary_json_def overlay_summary_jsonl_def keyed_Nil keyed_inserts
      split: option.split prod.split)

lemma keyed_get: "keyed_by_task m \<Longrightarrow> hm_get plain x m = Some r \<longleftrightarrow> r \<in> set (map snd m) \<and> tr_task_id r = x"
proof
  assume k: "keyed_by_task m" and g: "hm_get plain x m = Some r"
  then have "(x, r) \<in> set m" by (simp add: hm_plain_get_in)
  with k show "r \<in> set (map snd m) \<and> tr_task_id r = x" by (force simp: keyed_by_task_def list_all_iff)
next
  assume k: "keyed_by_task m" and r: "r \<in> set (map snd m) \<and> tr_task_id r = x"
  then obtain y where "(y, r) \<in> set m" by auto
  moreover then have "y = x" using k r by (auto simp: keyed_by_task_def list_all_iff)
  ultimately show "hm_get plain x m = Some r" using k hm_in_get[of plain m x r] by (simp add: keyed_by_task_def)
qed

lemma keyed_distinct: "keyed_by_task m \<Longrightarrow> distinct (map (tr_task_id \<circ> snd) m)"
proof -
  assume k: "keyed_by_task m"
  then have "map (tr_task_id \<circ> snd) m = map fst m" by (auto simp: keyed_by_task_def list_all_iff)
  moreover have "distinct (map fst m)" using k by (simp add: keyed_by_task_def hm_wf_def comp_def)
  ultimately show ?thesis by metis
qed

text \<open>A lookup by task in a list of records that has each task once.\<close>

lemma find_distinct:
  "distinct (map tr_task_id ts) \<Longrightarrow> find (\<lambda>r. tr_task_id r = x) ts = Some r \<longleftrightarrow> r \<in> set ts \<and> tr_task_id r = x"
  by (induction ts) auto

section \<open>Replays\<close>

lemma by_end_set [simp]: "set (by_end ts) = set ts"
  by (simp add: by_end_def)

lemma by_end_length [simp]: "length (by_end ts) = length ts"
  by (simp add: by_end_def)

lemma by_end_mset: "mset (by_end ts) = mset ts"
  by (simp add: by_end_def)

lemma by_end_distinct: "distinct (map tr_task_id (by_end ts)) \<longleftrightarrow> distinct (map tr_task_id ts)"
proof -
  have "mset (map tr_task_id (by_end ts)) = mset (map tr_task_id ts)" by (simp add: by_end_mset)
  then show ?thesis by (rule mset_eq_imp_distinct_iff)
qed

lemma number_tasks_payload: "map it_payload (number_tasks n rid ts) = map StreamTask ts"
  by (induction ts arbitrary: n) simp_all

lemma number_tasks_seq: "map it_seq (number_tasks n rid ts) = [n..<n + length ts]"
proof (induction ts arbitrary: n)
  case (Cons t ts)
  then show ?case by (simp add: upt_conv_Cons del: upt_Suc)
qed simp

lemma number_tasks_filter:
  "List.map_filter (\<lambda>i. case it_payload i of StreamTask t \<Rightarrow> Some t | _ \<Rightarrow> None) (number_tasks n rid ts) = ts"
  "List.map_filter (\<lambda>i. case it_payload i of StreamFinalized s \<Rightarrow> Some s | _ \<Rightarrow> None) (number_tasks n rid ts) = []"
  by (induction ts arbitrary: n) (simp_all add: List.map_filter_simps)

lemma map_filter_app: "List.map_filter f (xs @ ys) = List.map_filter f xs @ List.map_filter f ys"
  by (simp add: List.map_filter_def)

lemma collect_replay_build:
  "collect_replay (build_replay_items snap) = (by_end (map snd (sn_tasks snap)), sn_run_summary snap)"
  by (auto simp: collect_replay_def build_replay_items_def Let_def number_tasks_filter finalized_item_def
      List.map_filter_simps map_filter_app split: option.split)


text \<open>
  A replay numbers its items from one, lists every task of the run exactly once, the one that ended first
  first, and closes with the summary of a finalised run.
\<close>

theorem replay_once:
  "map it_seq (build_replay_items (dir_snapshot k d)) = [1..<Suc (length (build_replay_items (dir_snapshot k d)))] \<and>
   (\<exists>ts. map it_payload (build_replay_items (dir_snapshot k d)) =
      map StreamTask ts @ (case sn_run_summary (dir_snapshot k d) of Some s \<Rightarrow> [StreamFinalized s] | None \<Rightarrow> []) \<and>
      distinct (map tr_task_id ts) \<and> sorted (map (\<lambda>t. (tr_ended_at t, tr_task_id t)) ts) \<and>
      (\<forall>r. r \<in> set ts \<longleftrightarrow> snapshot_get (tr_task_id r) (dir_snapshot k d) = Some r))"
proof
  let ?snap = "dir_snapshot k d"
  let ?ts = "by_end (map snd (sn_tasks ?snap))"
  have keyed: "keyed_by_task (sn_tasks ?snap)" by (simp add: dir_snapshot_def keyed_snapshot)
  show "map it_seq (build_replay_items ?snap) = [1..<Suc (length (build_replay_items ?snap))]"
    using arg_cong[OF number_tasks_payload, of length]
    by (simp add: build_replay_items_def Let_def number_tasks_seq finalized_item_def split: option.split)
  have "map it_payload (build_replay_items ?snap) =
      map StreamTask ?ts @ (case sn_run_summary ?snap of Some s \<Rightarrow> [StreamFinalized s] | None \<Rightarrow> [])"
    by (simp add: build_replay_items_def Let_def number_tasks_payload finalized_item_def split: option.split)
  moreover have "distinct (map tr_task_id ?ts)" using keyed_distinct[OF keyed] by (simp add: by_end_distinct)
  moreover have "sorted (map (\<lambda>t. (tr_ended_at t, tr_task_id t)) ?ts)" by (simp add: by_end_def)
  moreover have "r \<in> set ?ts \<longleftrightarrow> snapshot_get (tr_task_id r) ?snap = Some r" for r
    using keyed_get[OF keyed, of "tr_task_id r" r] by (simp add: snapshot_get_def)
  ultimately show "\<exists>ts. map it_payload (build_replay_items ?snap) =
      map StreamTask ts @ (case sn_run_summary ?snap of Some s \<Rightarrow> [StreamFinalized s] | None \<Rightarrow> []) \<and>
      distinct (map tr_task_id ts) \<and> sorted (map (\<lambda>t. (tr_ended_at t, tr_task_id t)) ts) \<and>
      (\<forall>r. r \<in> set ts \<longleftrightarrow> snapshot_get (tr_task_id r) ?snap = Some r)" by blast
qed

section \<open>The tail\<close>

definition sent_tasks :: "RunStreamItem list \<Rightarrow> TaskRecord set" where
  "sent_tasks items = {r. StreamTask r \<in> it_payload ` set items}"

definition covers :: "TaskRecord set \<Rightarrow> (string \<times> int) list \<Rightarrow> bool" where
  "covers sent emitted \<longleftrightarrow>
     (\<forall>x e. hm_get plain x emitted = Some e \<longrightarrow> (\<exists>r\<in>sent. tr_task_id r = x \<and> tr_ended_at r = e))"

lemma sent_append: "sent_tasks (xs @ ys) = sent_tasks xs \<union> sent_tasks ys"
  by (auto simp: sent_tasks_def)

lemma sent_numbered: "sent_tasks (number_tasks n rid ts) = set ts"
proof -
  have "it_payload ` set (number_tasks n rid ts) = StreamTask ` set ts"
    using arg_cong[OF number_tasks_payload, of set n rid ts] by simp
  then show ?thesis by (auto simp: sent_tasks_def)
qed

lemma sent_finalized: "sent_tasks [finalized_item n rid s] = {}"
  by (simp add: sent_tasks_def finalized_item_def)

definition fresh_tasks :: "RunSummary RunSnapshot \<Rightarrow> TailState \<Rightarrow> TaskRecord list" where
  "fresh_tasks snap st = by_end (filter (is_fresh (ts_emitted st)) (map snd (sn_tasks snap)))"

lemma fresh_tasks_mem: "r \<in> set (fresh_tasks snap st) \<longleftrightarrow> r \<in> set (map snd (sn_tasks snap)) \<and> is_fresh (ts_emitted st) r"
  unfolding fresh_tasks_def by_end_set set_filter by blast

lemma emit_diff_sent:
  assumes "emit_diff dir_id snap st = (items, st')"
  shows "sent_tasks items = set (fresh_tasks snap st)"
    "ts_emitted st' = fold (\<lambda>r. hm_insert plain (tr_task_id r) (tr_ended_at r)) (fresh_tasks snap st) (ts_emitted st)"
  using assms unfolding emit_diff_def Let_def fresh_tasks_def[symmetric]
  by (auto simp: sent_append sent_numbered sent_finalized split: option.splits if_splits)

lemma covers_inserts:
  "covers sent emitted \<Longrightarrow> covers (sent \<union> set ts) (fold (\<lambda>r. hm_insert plain (tr_task_id r) (tr_ended_at r)) ts emitted)"
proof (induction ts arbitrary: sent emitted)
  case (Cons t ts)
  have "covers (insert t sent) (hm_insert plain (tr_task_id t) (tr_ended_at t) emitted)"
    using Cons.prems by (auto simp: covers_def hm_get_insert)
  from Cons.IH[OF this] show ?case by (simp add: insert_commute Un_commute)
qed simp

lemma emit_diff_covers:
  assumes "emit_diff dir_id snap st = (items, st')" "covers sent (ts_emitted st)"
  shows "covers (sent \<union> sent_tasks items) (ts_emitted st')"
    "r \<in> set (map snd (sn_tasks snap)) \<Longrightarrow> \<exists>r'\<in>sent \<union> sent_tasks items. tr_task_id r' = tr_task_id r \<and> tr_ended_at r \<le> tr_ended_at r'"
proof -
  note sent = emit_diff_sent[OF assms(1)]
  show "covers (sent \<union> sent_tasks items) (ts_emitted st')" unfolding sent using assms(2) by (rule covers_inserts)
  assume r: "r \<in> set (map snd (sn_tasks snap))"
  show "\<exists>r'\<in>sent \<union> sent_tasks items. tr_task_id r' = tr_task_id r \<and> tr_ended_at r \<le> tr_ended_at r'"
  proof (cases "is_fresh (ts_emitted st) r")
    case True
    then have "r \<in> sent_tasks items" using sent(1) r fresh_tasks_mem by blast
    then show ?thesis by blast
  next
    case False
    then obtain e where "hm_get plain (tr_task_id r) (ts_emitted st) = Some e" "tr_ended_at r \<le> e"
      by (auto simp: is_fresh_def split: option.splits)
    then show ?thesis using assms(2) by (auto simp: covers_def)
  qed
qed

lemma emit_diff_finalized:
  "emit_diff dir_id snap st = (items, st') \<Longrightarrow> ts_finalized st' \<longleftrightarrow> ts_finalized st \<or> sn_run_summary snap \<noteq> None"
  by (auto simp: emit_diff_def Let_def split: option.splits if_splits)

lemma drive_tail_Cons:
  "emit_diff dir_id snap st = (items, st') \<Longrightarrow>
   drive_tail dir_id (snap # snaps) st = items @ (if ts_finalized st' then [] else drive_tail dir_id snaps st')"
  by simp

lemma drive_tail_covers:
  assumes "covers sent (ts_emitted st)" "\<forall>s\<in>set before. sn_run_summary s = None" "\<not> ts_finalized st"
    "r \<in> set (map snd (sn_tasks snap))"
  shows "\<exists>r'\<in>sent \<union> sent_tasks (drive_tail dir_id (before @ snap # later) st).
    tr_task_id r' = tr_task_id r \<and> tr_ended_at r \<le> tr_ended_at r'"
  using assms
proof (induction before arbitrary: sent st)
  case Nil
  obtain items st' where e: "emit_diff dir_id snap st = (items, st')" by fastforce
  obtain r' where "r' \<in> sent \<union> sent_tasks items" "tr_task_id r' = tr_task_id r" "tr_ended_at r \<le> tr_ended_at r'"
    using emit_diff_covers(2)[OF e Nil.prems(1) Nil.prems(4)] by blast
  then show ?case unfolding append_Nil drive_tail_Cons[OF e] sent_append by blast
next
  case (Cons s before)
  obtain items st' where e: "emit_diff dir_id s st = (items, st')" by fastforce
  have "\<not> ts_finalized st'" using Cons.prems(2,3) emit_diff_finalized[OF e] by simp
  then show ?case
    using Cons.IH[OF emit_diff_covers(1)[OF e Cons.prems(1)]] Cons.prems(2,4)
    unfolding append_Cons drive_tail_Cons[OF e] sent_append by (simp add: Un_assoc)
qed

definition start_tail :: TailState where
  "start_tail = \<lparr>ts_emitted = [], ts_seq = 0, ts_finalized = False\<rparr>"

text \<open>The ends of a list of records, as the tail remembers them.\<close>

lemma get_emitted:
  "distinct (map tr_task_id ts) \<Longrightarrow>
   hm_get plain x (fold (\<lambda>r. hm_insert plain (tr_task_id r) (tr_ended_at r)) ts emitted) =
   (case find (\<lambda>r. tr_task_id r = x) ts of Some r \<Rightarrow> Some (tr_ended_at r) | None \<Rightarrow> hm_get plain x emitted)"
proof (induction ts arbitrary: emitted)
  case (Cons t ts)
  from Cons.prems have "tr_task_id t = x \<Longrightarrow> find (\<lambda>r. tr_task_id r = x) ts = None"
    by (simp add: find_None_iff) (metis image_eqI)
  then show ?case using Cons by (auto simp: hm_get_insert split: option.split)
qed simp

lemma fresh_tasks_distinct:
  assumes "keyed_by_task (sn_tasks snap)" shows "distinct (map tr_task_id (fresh_tasks snap st))"
proof -
  have "distinct (map tr_task_id (map snd (sn_tasks snap)))" using keyed_distinct[OF assms] by simp
  then show ?thesis unfolding fresh_tasks_def by_end_distinct by (rule distinct_map_filter)
qed

lemma fresh_after:
  assumes "emit_diff dir_id snap st = (items, st')" "keyed_by_task (sn_tasks snap)" "is_fresh (ts_emitted st') r"
  shows "is_fresh (ts_emitted st) r" "r' \<in> sent_tasks items \<Longrightarrow> tr_task_id r' = tr_task_id r \<Longrightarrow> tr_ended_at r' < tr_ended_at r"
proof -
  let ?ts = "fresh_tasks snap st"
  have d: "distinct (map tr_task_id ?ts)" using assms(2) by (rule fresh_tasks_distinct)
  note ts = emit_diff_sent(1)[OF assms(1)] and em = emit_diff_sent(2)[OF assms(1)]
  note get = get_emitted[OF d, of "tr_task_id r" "ts_emitted st", folded em]
  show "r' \<in> sent_tasks items \<Longrightarrow> tr_task_id r' = tr_task_id r \<Longrightarrow> tr_ended_at r' < tr_ended_at r"
  proof -
    assume "r' \<in> sent_tasks items" "tr_task_id r' = tr_task_id r"
    then have "find (\<lambda>q. tr_task_id q = tr_task_id r) ?ts = Some r'" using find_distinct[OF d] ts by simp
    then show ?thesis using assms(3) get by (simp add: is_fresh_def)
  qed
  show "is_fresh (ts_emitted st) r"
  proof (cases "find (\<lambda>q. tr_task_id q = tr_task_id r) ?ts")
    case None
    then show ?thesis using assms(3) get by (simp add: is_fresh_def)
  next
    case (Some q)
    then have "q \<in> sent_tasks items" "tr_task_id q = tr_task_id r" using find_distinct[OF d] ts by auto
    moreover then have "is_fresh (ts_emitted st) q" using ts fresh_tasks_mem by blast
    moreover have "tr_ended_at q < tr_ended_at r" using assms(3) get Some by (simp add: is_fresh_def)
    ultimately show ?thesis by (auto simp: is_fresh_def split: option.splits)
  qed
qed

definition sent_list :: "RunStreamItem list \<Rightarrow> TaskRecord list" where
  "sent_list items = fst (collect_replay items)"

lemma sent_list_append: "sent_list (xs @ ys) = sent_list xs @ sent_list ys"
  by (simp add: sent_list_def collect_replay_def map_filter_app)

lemma sent_list_set: "set (sent_list items) = sent_tasks items"
proof (induction items)
  case (Cons i items)
  have "sent_tasks (i # items) = sent_tasks [i] \<union> sent_tasks items" using sent_append[of "[i]" items] by simp
  moreover have "sent_list (i # items) = sent_list [i] @ sent_list items" using sent_list_append[of "[i]" items] by simp
  moreover have "set (sent_list [i]) = sent_tasks [i]"
    by (auto simp: sent_list_def collect_replay_def sent_tasks_def List.map_filter_simps split: RunStreamPayload.splits)
  ultimately show ?case using Cons by simp
qed (simp add: sent_list_def collect_replay_def sent_tasks_def List.map_filter_simps)

lemma emit_diff_distinct:
  assumes "emit_diff dir_id snap st = (items, st')" "keyed_by_task (sn_tasks snap)"
  shows "distinct (map tr_task_id (sent_list items))"
proof -
  have "sent_list items = fresh_tasks snap st"
    using assms(1) unfolding emit_diff_def Let_def fresh_tasks_def[symmetric]
    by (auto simp: sent_list_def collect_replay_def number_tasks_filter map_filter_app finalized_item_def List.map_filter_simps
        split: option.splits if_splits)
  then show ?thesis using fresh_tasks_distinct[OF assms(2)] by simp
qed

lemma drive_tail_fresh:
  assumes "\<forall>s\<in>set snaps. keyed_by_task (sn_tasks s)"
  shows "(\<forall>r\<in>sent_tasks (drive_tail dir_id snaps st). is_fresh (ts_emitted st) r) \<and>
    distinct (map (\<lambda>r. (tr_task_id r, tr_ended_at r)) (sent_list (drive_tail dir_id snaps st)))"
  using assms
proof (induction snaps arbitrary: st)
  case Nil
  then show ?case by (simp add: sent_tasks_def sent_list_def collect_replay_def List.map_filter_simps)
next
  case (Cons s snaps)
  obtain items st' where e: "emit_diff dir_id s st = (items, st')" by fastforce
  have keyed: "keyed_by_task (sn_tasks s)" using Cons.prems by simp
  let ?more = "if ts_finalized st' then [] else drive_tail dir_id snaps st'"
  have more: "\<forall>r\<in>sent_tasks ?more. is_fresh (ts_emitted st') r" "distinct (map (\<lambda>r. (tr_task_id r, tr_ended_at r)) (sent_list ?more))"
    using Cons by (simp_all add: sent_tasks_def sent_list_def collect_replay_def List.map_filter_simps)
  have here: "distinct (map (\<lambda>r. (tr_task_id r, tr_ended_at r)) (sent_list items))"
    using emit_diff_distinct[OF e keyed] by (auto simp: distinct_map inj_on_def)
  have apart: "(tr_task_id r, tr_ended_at r) \<noteq> (tr_task_id r', tr_ended_at r')" if "r \<in> sent_tasks items" "r' \<in> sent_tasks ?more" for r r'
    using that more(1) fresh_after(2)[OF e keyed, of r' r] by auto
  have "\<forall>r\<in>sent_tasks items. is_fresh (ts_emitted st) r" using emit_diff_sent(1)[OF e] fresh_tasks_mem by blast
  moreover have "\<forall>r\<in>sent_tasks ?more. is_fresh (ts_emitted st) r" using more(1) fresh_after(1)[OF e keyed] by blast
  moreover have "distinct (map (\<lambda>r. (tr_task_id r, tr_ended_at r)) (sent_list items @ sent_list ?more))"
    using here more(2) apart by (fastforce simp: distinct_append sent_list_set)
  ultimately show ?case unfolding drive_tail_Cons[OF e] sent_append sent_list_append by blast
qed

text \<open>
  C24: The tail of a run sends no record twice, and every record of a snapshot it polls before (or when) the run is
  finalised reaches the subscriber, or a later record of the same task does.
\<close>

theorem tail_complete:
  assumes "\<forall>s\<in>set (before @ snap # later). keyed_by_task (sn_tasks s)" "\<forall>s\<in>set before. sn_run_summary s = None"
  shows "distinct (map (\<lambda>r. (tr_task_id r, tr_ended_at r)) (sent_list (drive_tail dir_id (before @ snap # later) start_tail))) \<and>
    (\<forall>r\<in>set (map snd (sn_tasks snap)). \<exists>r'\<in>set (sent_list (drive_tail dir_id (before @ snap # later) start_tail)).
       tr_task_id r' = tr_task_id r \<and> tr_ended_at r \<le> tr_ended_at r')"
proof -
  have "covers {} (ts_emitted start_tail)" by (simp add: covers_def start_tail_def)
  then show ?thesis
    using drive_tail_fresh[OF assms(1)] drive_tail_covers[OF _ assms(2), of "{}" start_tail _ snap dir_id later]
    by (simp add: sent_list_set start_tail_def)
qed


section \<open>Synthesised summaries\<close>

lemma dir_snapshot_open:
  "Option.bind (di_summary_json d) (rc_summary k) = None \<Longrightarrow>
   dir_snapshot k d = \<lparr>sn_run_summary = None, sn_tasks = overlay_summary_jsonl (snap_codec k) (di_summary_jsonl d) []\<rparr>"
  by (auto simp: dir_snapshot_def read_run_snapshot_def load_summary_json_def snap_codec_def split: option.splits)

lemma load_summary_tasks:
  "load_summary k d = Inr s \<Longrightarrow> sn_run_summary (dir_snapshot k d) = None \<Longrightarrow>
   su_tasks s = by_end (map snd (sn_tasks (dir_snapshot k d))) \<and> su_was_interrupted s"
  by (auto simp: load_summary_def collect_replay_build Let_def split: if_splits option.splits)

lemma synthesized_tasks:
  assumes "build_synthesized_summary k now d = Inr s" "Option.bind (di_summary_json d) (rc_summary k) = None"
  shows "su_tasks s = by_end (map snd (sn_tasks (dir_snapshot k d)))" "su_was_interrupted s"
  using assms load_summary_tasks[of k d s] dir_snapshot_open[OF assms(2)]
  by (auto simp: build_synthesized_summary_def overlay_summary_jsonl_def by_end_def split: if_splits option.splits)

lemma get_overlay:
  "hm_get plain x (overlay_summary_jsonl k bytes m) =
   (case hm_get plain x (overlay_summary_jsonl k bytes []) of Some r \<Rightarrow> Some r | None \<Rightarrow> hm_get plain x m)"
  by (simp add: overlay_summary_jsonl_def get_insert_records split: option.split)

lemma find_by_end:
  assumes "keyed_by_task m" shows "find (\<lambda>r. tr_task_id r = x) (rev (by_end (map snd m))) = hm_get plain x m"
proof -
  have "distinct (map tr_task_id (by_end (map snd m)))" using keyed_distinct[OF assms] by (simp add: by_end_distinct)
  then have d: "distinct (map tr_task_id (rev (by_end (map snd m))))" by (metis distinct_rev rev_map)
  have "find (\<lambda>r. tr_task_id r = x) (rev (by_end (map snd m))) = Some r \<longleftrightarrow> hm_get plain x m = Some r" for r
    unfolding find_distinct[OF d] keyed_get[OF assms] by simp
  then show ?thesis by (metis option.exhaust_sel)
qed

lemma get_tasks_again:
  "keyed_by_task m \<Longrightarrow> hm_get plain x (fold insert_record (by_end (map snd m)) []) = hm_get plain x m"
  by (simp add: get_insert_records find_by_end split: option.split)

lemma synthesized_snapshot:
  assumes "build_synthesized_summary k now d = Inr s" "Option.bind (di_summary_json d) (rc_summary k) = None" "rc_summary k b = Some s"
  shows "snapshot_get x (dir_snapshot k (d\<lparr>di_summary_json := Some b\<rparr>)) = snapshot_get x (dir_snapshot k d)"
    "en_status (collect_run_entry k so now' dir rid t (d\<lparr>di_summary_json := Some b\<rparr>)) = RunCancelled"
proof -
  let ?m = "sn_tasks (dir_snapshot k d)"
  have keyed: "keyed_by_task ?m" by (simp add: dir_snapshot_def keyed_snapshot)
  have rows: "?m = overlay_summary_jsonl (snap_codec k) (di_summary_jsonl d) []" by (simp add: dir_snapshot_open[OF assms(2)])
  have "sn_tasks (dir_snapshot k (d\<lparr>di_summary_json := Some b\<rparr>)) =
      overlay_summary_jsonl (snap_codec k) (di_summary_jsonl d) (fold insert_record (by_end (map snd ?m)) [])"
    using synthesized_tasks(1)[OF assms(1,2)] assms(3)
    by (simp add: dir_snapshot_def read_run_snapshot_def load_summary_json_def snap_codec_def)
  moreover have "hm_get plain x (overlay_summary_jsonl (snap_codec k) (di_summary_jsonl d) (fold insert_record (by_end (map snd ?m)) [])) =
      (case hm_get plain x ?m of Some r \<Rightarrow> Some r | None \<Rightarrow> hm_get plain x ?m)"
    using get_overlay[of x "snap_codec k" "di_summary_jsonl d" "fold insert_record (by_end (map snd ?m)) []"]
    unfolding rows[symmetric] get_tasks_again[OF keyed] .
  ultimately show "snapshot_get x (dir_snapshot k (d\<lparr>di_summary_json := Some b\<rparr>)) = snapshot_get x (dir_snapshot k d)"
    by (simp add: snapshot_get_def split: option.split)
  show "en_status (collect_run_entry k so now' dir rid t (d\<lparr>di_summary_json := Some b\<rparr>)) = RunCancelled"
    using assms(3) synthesized_tasks(2)[OF assms(1,2)] by (simp add: collect_run_entry_def)
qed

section \<open>The sweep\<close>

definition run_entry_of :: "RunCodec \<Rightarrow> Sockets \<Rightarrow> int \<Rightarrow> string \<Rightarrow> string \<times> RunDirectory \<Rightarrow> RunEntry" where
  "run_entry_of k so now base p =
     collect_run_entry k so now (base @ ''/'' @ fst p) (fst p) (case di_mtime (snd p) of Some t \<Rightarrow> t | None \<Rightarrow> 0) (snd p)"

lemma collect_run_entries_eq: "collect_run_entries k so now base dirs = sort_key (\<lambda>e. - en_mtime e) (map (run_entry_of k so now base) dirs)"
  unfolding collect_run_entries_def run_entry_of_def[abs_def] case_prod_beta' ..

lemma run_entry_of_fields [simp]:
  "en_run_id (run_entry_of k so now base p) = fst p" "en_run_dir (run_entry_of k so now base p) = base @ ''/'' @ fst p"
  "en_mtime (run_entry_of k so now base p) = (case di_mtime (snd p) of Some t \<Rightarrow> t | None \<Rightarrow> 0)"
  by (simp_all add: run_entry_of_def collect_run_entry_def Let_def split: option.split)

text \<open>The runs a sweep takes.\<close>

definition swept :: "RunCodec \<Rightarrow> Sockets \<Rightarrow> int \<Rightarrow> string \<Rightarrow> PruneOptions \<Rightarrow> string \<times> RunDirectory \<Rightarrow> bool" where
  "swept k so now base opts p \<longleftrightarrow>
     matches_status (en_status (run_entry_of k so now base p)) (po_include_aborted opts) \<and>
     (case po_older_than opts of Some m \<Rightarrow> m \<le> max 0 (now - en_mtime (run_entry_of k so now base p)) | None \<Rightarrow> True)"

lemma candidates_mem:
  "c \<in> set (filter_candidates (collect_run_entries k so now base dirs) opts now) \<longleftrightarrow>
   (\<exists>p\<in>set dirs. swept k so now base opts p \<and> c = candidate_of now (run_entry_of k so now base p))"
proof -
  have age: "\<not> pc_age (candidate_of now e) < m \<longleftrightarrow> m \<le> max 0 (now - en_mtime e)" for e m
    by (auto simp: candidate_of_def)
  have "c \<in> set (filter_candidates (collect_run_entries k so now base dirs) opts now) \<longleftrightarrow>
    (\<exists>p\<in>set dirs. matches_status (en_status (run_entry_of k so now base p)) (po_include_aborted opts) \<and>
       c = candidate_of now (run_entry_of k so now base p) \<and> (case po_older_than opts of Some m \<Rightarrow> \<not> pc_age c < m | None \<Rightarrow> True))"
    unfolding filter_candidates_def collect_run_entries_eq set_filter set_map set_sort image_def by blast
  also have "\<dots> \<longleftrightarrow> (\<exists>p\<in>set dirs. swept k so now base opts p \<and> c = candidate_of now (run_entry_of k so now base p))"
    unfolding swept_def using age by (cases "po_older_than opts") auto
  finally show ?thesis .
qed

lemma candidates_distinct:
  assumes "hm_wf plain dirs"
  shows "distinct (map pc_run_id (filter_candidates (collect_run_entries k so now base dirs) opts now))"
proof -
  let ?es = "collect_run_entries k so now base dirs"
  have "mset (map en_run_id ?es) = mset (map fst dirs)"
    by (simp add: collect_run_entries_eq multiset.map_comp comp_def)
  moreover have "distinct (map fst dirs)" using assms by (simp add: hm_wf_def comp_def)
  ultimately have "distinct (map en_run_id ?es)" by (metis mset_eq_imp_distinct_iff)
  then have "distinct (map en_run_id (filter P ?es))" for P by (rule distinct_map_filter)
  then have "distinct (map pc_run_id (map (candidate_of now) (filter P ?es)))" for P by (simp add: candidate_of_def comp_def)
  then show ?thesis unfolding filter_candidates_def by (rule distinct_map_filter)
qed

lemma prune_one_frame:
  "rid \<noteq> pc_run_id c \<Longrightarrow> hm_get plain rid (ho_dirs (snd (prune_one k enc now io action c h))) = hm_get plain rid (ho_dirs h)"
  by (auto simp: prune_one_def remove_run_def Let_def hm_get_update hm_get_remove option.map_ident
      split: PruneAction.split option.split sum.split)

lemma prune_all_frame:
  "rid \<notin> pc_run_id ` set cs \<Longrightarrow> hm_get plain rid (ho_dirs (snd (prune_all k enc now io action cs h))) = hm_get plain rid (ho_dirs h)"
proof (induction cs arbitrary: h)
  case (Cons c cs)
  then show ?case using prune_one_frame[of rid c k enc now io action h] by (simp split: prod.split) (metis snd_conv)
qed simp


lemma matched_status:
  "matches_status (en_status (run_entry_of k so now base (rid, d))) ab \<Longrightarrow>
   Option.bind (di_summary_json d) (rc_summary k) = None \<and>
   (di_summary_json d = None \<longrightarrow> \<not> control_socket_is_live so rid (base @ ''/'' @ rid) \<and> \<not> jsonl_recent now (di_jsonl_mtime d))"
  by (auto simp: matches_status_def run_entry_of_def collect_run_entry_def classify_status_def Let_def split: option.splits if_splits)

text \<open>
  C22: A sweep never changes a run that has a readable summary, nor one without a summary whose control socket
  accepts a connection or whose rows are recent, nor one younger than the age floor; without \<^verbatim>\<open>--apply\<close> it
  changes nothing.
\<close>

theorem prune_spares:
  assumes "hm_wf plain (ho_dirs h)" "hm_get plain rid (ho_dirs h) = Some d"
    "\<not> po_apply opts \<or> Option.bind (di_summary_json d) (rc_summary k) \<noteq> None \<or>
     (di_summary_json d = None \<and>
       (control_socket_is_live (ho_sockets h) rid (base @ ''/'' @ rid) \<or> jsonl_recent now (di_jsonl_mtime d))) \<or>
     (case po_older_than opts of Some m \<Rightarrow> max 0 (now - (case di_mtime d of Some t \<Rightarrow> t | None \<Rightarrow> 0)) < m | None \<Rightarrow> False)"
  shows "hm_get plain rid (ho_dirs (snd (prune_runs k enc now io opts base h))) = Some d"
proof (cases "po_apply opts")
  case True
  let ?cs = "filter_candidates (collect_run_entries k (ho_sockets h) now base (ho_dirs h)) opts now"
  have "\<not> swept k (ho_sockets h) now base opts (rid, d)"
    using True assms(3) matched_status[of k "ho_sockets h" now base rid d "po_include_aborted opts"]
    by (auto simp: swept_def split: option.splits)
  then have "rid \<notin> pc_run_id ` set ?cs"
    using hm_in_get[OF assms(1)] assms(2) by (auto simp: candidates_mem candidate_of_def)
  then show ?thesis using True assms(2) prune_all_frame[of rid ?cs] by (simp add: prune_runs_def Let_def)
qed (use assms in \<open>simp add: prune_runs_def Let_def\<close>)

lemma prune_all_synthesizes:
  assumes "distinct (map pc_run_id cs)" "c \<in> set cs" "hm_get plain (pc_run_id c) (ho_dirs h) = Some d"
    "synthesize_summary k enc now io (pc_run_dir c) d = Inr d'"
  shows "hm_get plain (pc_run_id c) (ho_dirs (snd (prune_all k enc now io SynthesizeSummary cs h))) = Some d'"
  using assms
proof (induction cs arbitrary: h)
  case (Cons a cs)
  let ?h = "snd (prune_one k enc now io SynthesizeSummary a h)"
  have step: "snd (prune_all k enc now io SynthesizeSummary (a # cs) h) = snd (prune_all k enc now io SynthesizeSummary cs ?h)"
    by (simp split: prod.split)
  show ?case
  proof (cases "a = c")
    case True
    then have "pc_run_id c \<notin> pc_run_id ` set cs" using Cons.prems(1) by simp
    moreover have "hm_get plain (pc_run_id c) (ho_dirs ?h) = Some d'"
      using True Cons.prems(3,4) by (simp add: prune_one_def hm_get_update)
    ultimately show ?thesis unfolding step by (simp add: prune_all_frame)
  next
    case False
    then have c: "c \<in> set cs" using Cons.prems(2) by simp
    then have "pc_run_id c \<noteq> pc_run_id a" using Cons.prems(1) by (metis distinct.simps(2) image_eqI list.set_map list.simps(9))
    then have "hm_get plain (pc_run_id c) (ho_dirs ?h) = Some d" using Cons.prems(3) by (simp add: prune_one_frame)
    then show ?thesis unfolding step using Cons.IH[OF _ c] Cons.prems(1,4) by simp
  qed
qed simp

text \<open>Without a row or a summary, the metadata alone are enough.\<close>

lemma synthesized_from_meta:
  "di_summary_json d = None \<Longrightarrow> Option.bind (di_meta_json d) (rc_meta k) = Some m \<Longrightarrow> \<exists>s. build_synthesized_summary k now d = Inr s"
  using dir_snapshot_open[of d k]
  by (auto simp: build_synthesized_summary_def load_summary_def collect_replay_build Let_def split: option.splits)

lemma run_entry_mtime:
  "en_mtime (run_entry_of k so now base (rid, d)) = (case di_mtime d of Some t \<Rightarrow> t | None \<Rightarrow> 0)"
  by (simp add: run_entry_of_def collect_run_entry_def Let_def split: option.split)

text \<open>
  C23: A sweep that synthesises summaries (\<^verbatim>\<open>--apply\<close> without \<^verbatim>\<open>--remove\<close>) settles an orphaned run: one with no
  summary, no listener, no recent rows and readable metadata, as old as the age floor if there is one, is
  \<^verbatim>\<open>Cancelled\<close> afterwards, which no later sweep takes, and every task still has the record it had. A run without
  any settled task counts as aborted and is taken only when aborted runs are included; the default sweep leaves
  it as it was.
\<close>

theorem sweep_settles:
  assumes "hm_wf plain (ho_dirs h)" "hm_get plain rid (ho_dirs h) = Some d" "po_apply opts" "\<not> po_remove opts"
    "\<And>floor. po_older_than opts = Some floor \<Longrightarrow> floor \<le> max 0 (now - (case di_mtime d of Some t \<Rightarrow> t | None \<Rightarrow> 0))"
    "di_summary_json d = None"
    "\<not> control_socket_is_live (ho_sockets h) rid (base @ ''/'' @ rid)" "\<not> jsonl_recent now (di_jsonl_mtime d)"
    "Option.bind (di_meta_json d) (rc_meta k) = Some m"
    "\<forall>s. build_synthesized_summary k now d = Inr s \<longrightarrow> rc_summary k (enc s) = Some s"
    "io (base @ ''/'' @ rid @ ''/summary.json'') = None"
  shows "if task_count (dir_snapshot k d) \<noteq> 0 \<or> po_include_aborted opts
    then \<exists>d'. hm_get plain rid (ho_dirs (snd (prune_runs k enc now io opts base h))) = Some d' \<and>
      en_status (collect_run_entry k so now' dir rid t d') = RunCancelled \<and>
      (\<forall>x. snapshot_get x (dir_snapshot k d') = snapshot_get x (dir_snapshot k d))
    else hm_get plain rid (ho_dirs (snd (prune_runs k enc now io opts base h))) = Some d"
proof (cases "task_count (dir_snapshot k d) \<noteq> 0 \<or> po_include_aborted opts")
  case True
  let ?cs = "filter_candidates (collect_run_entries k (ho_sockets h) now base (ho_dirs h)) opts now"
  let ?c = "candidate_of now (run_entry_of k (ho_sockets h) now base (rid, d))"
  obtain s where s: "build_synthesized_summary k now d = Inr s" using synthesized_from_meta[OF assms(6,9)] by blast
  then have enc: "rc_summary k (enc s) = Some s" using assms(10) by blast
  have "matches_status (en_status (run_entry_of k (ho_sockets h) now base (rid, d))) (po_include_aborted opts)"
    using assms(6-8) True by (auto simp: run_entry_of_def collect_run_entry_def classify_status_def matches_status_def Let_def)
  then have "swept k (ho_sockets h) now base opts (rid, d)"
    using assms(5) by (auto simp: swept_def run_entry_mtime split: option.split)
  then have c: "?c \<in> set ?cs" using hm_plain_get_in[OF assms(2)] by (auto simp: candidates_mem)
  have "synthesize_summary k enc now io (pc_run_dir ?c) d = Inr (d\<lparr>di_summary_json := Some (enc s)\<rparr>)"
    using s assms(11) by (simp add: synthesize_summary_def candidate_of_def)
  moreover have "pc_run_id ?c = rid" by (simp add: candidate_of_def)
  ultimately have "hm_get plain rid (ho_dirs (snd (prune_runs k enc now io opts base h))) = Some (d\<lparr>di_summary_json := Some (enc s)\<rparr>)"
    using prune_all_synthesizes[OF candidates_distinct[OF assms(1)] c] assms(2-4)
    by (simp add: prune_runs_def prune_action_def Let_def)
  then show ?thesis using True synthesized_snapshot[OF s _ enc] assms(6) by auto
next
  case False
  let ?cs = "filter_candidates (collect_run_entries k (ho_sockets h) now base (ho_dirs h)) opts now"
  have "\<not> swept k (ho_sockets h) now base opts (rid, d)"
    using False assms(6-8)
    by (simp add: swept_def run_entry_of_def collect_run_entry_def classify_status_def matches_status_def Let_def)
  then have "rid \<notin> pc_run_id ` set ?cs"
    using hm_in_get[OF assms(1)] assms(2) by (auto simp: candidates_mem candidate_of_def)
  then show ?thesis using False assms(2,3) prune_all_frame[of rid ?cs] by (simp add: prune_runs_def Let_def)
qed

text \<open>A duration never exceeds what 64 bits hold, whatever the unit.\<close>

lemma parse_duration_bound: "parse_duration s = Some n \<Longrightarrow> n < 2 ^ 64"
  by (auto simp: parse_duration_def parse_u64_def Let_def split: if_splits bind_splits)


section \<open>Concrete runs\<close>

definition demo_meta :: RunMeta where
  "demo_meta = \<lparr>rm_run_id = ''r'', rm_manifest_path = ''m.toml'', rm_pitboss_version = ''1'', rm_claude_version = None,
     rm_started_at = 0, rm_env = [], rm_control_tcp_addr = None\<rparr>"

definition demo_dir :: RunDirectory where
  "demo_dir = \<lparr>di_summary_json = None, di_summary_jsonl = Some [CHR ''a'', CHR ''b'', newline], di_jsonl_mtime = Some 0,
     di_meta_json = Some ''m'', di_resolved_json = None, di_task_dirs = 1, di_mtime = Some 0\<rparr>"

definition open_codec :: RunCodec where
  "open_codec = \<lparr>rc_record = sk_record letters, rc_summary = (\<lambda>_. None), rc_meta = (\<lambda>s. if s = ''m'' then Some demo_meta else None),
     rc_name = (\<lambda>_. None)\<rparr>"

definition late :: int where
  "late = 2 * STALENESS_THRESHOLD"

text \<open>A decoder that knows one document: the summary synthesised for the demo run.\<close>

definition demo_codec :: RunCodec where
  "demo_codec = open_codec\<lparr>rc_summary :=
     (\<lambda>b. case build_synthesized_summary open_codec late demo_dir of Inr s \<Rightarrow> if b = ''S'' then Some s else None | Inl _ \<Rightarrow> None)\<rparr>"

definition demo_host :: "bool \<Rightarrow> RunsHost" where
  "demo_host up = \<lparr>ho_dirs = [(''r'', demo_dir)], ho_sockets = \<lparr>so_xdg = None, so_exists = (\<lambda>_. True), so_accepts = (\<lambda>_. up)\<rparr>\<rparr>"

definition demo_opts :: PruneOptions where
  "demo_opts = \<lparr>po_apply = True, po_remove = False, po_older_than = None, po_include_aborted = True\<rparr>"

lemma snapshot_other_summary:
  "di_summary_json d = None \<Longrightarrow> dir_snapshot (k\<lparr>rc_summary := f\<rparr>) d = dir_snapshot k d"
proof -
  assume none: "di_summary_json d = None"
  have "line_record (snap_codec (k\<lparr>rc_summary := f\<rparr>)) = line_record (snap_codec k)"
    by (simp add: fun_eq_iff line_record_def snap_codec_def Let_def)
  then have "overlay_summary_jsonl (snap_codec (k\<lparr>rc_summary := f\<rparr>)) b m = overlay_summary_jsonl (snap_codec k) b m" for b m
    by (simp add: overlay_summary_jsonl_def line_records_def split: option.split)
  then show ?thesis using none by (simp add: dir_snapshot_open)
qed

lemma build_other_summary:
  assumes "di_summary_json d = None"
  shows "build_synthesized_summary (k\<lparr>rc_summary := f\<rparr>) now d = build_synthesized_summary k now d"
proof -
  have "rc_meta (k\<lparr>rc_summary := f\<rparr>) = rc_meta k" "rc_name (k\<lparr>rc_summary := f\<rparr>) = rc_name k" by simp_all
  then show ?thesis unfolding build_synthesized_summary_def load_summary_def snapshot_other_summary[OF assms] by (simp only:)
qed

lemma demo_build: "build_synthesized_summary demo_codec late demo_dir = build_synthesized_summary open_codec late demo_dir"
  unfolding demo_codec_def by (rule build_other_summary) (simp add: demo_dir_def)

lemma demo_record: "snapshot_get ''a'' (dir_snapshot demo_codec demo_dir) = Some failed_rec"
proof -
  have "valid_utf8 [CHR ''a'', CHR ''b'', newline]" by code_simp
  moreover have "line_record (snap_codec demo_codec) ''ab'' = Some failed_rec"
    using letters_rows(3) by (simp add: line_record_def snap_codec_def demo_codec_def open_codec_def Let_def split: if_splits)
  ultimately show ?thesis
    using line_records_line[of "''ab''" "snap_codec demo_codec"] letters_rows(5) not_newline
    by (simp add: snapshot_get_def dir_snapshot_def read_run_snapshot_def load_summary_json_def overlay_summary_jsonl_def demo_dir_def
        get_insert_record)
qed

theorem sweep_settles_witness:
  "\<exists>d'. hm_get plain ''r'' (ho_dirs (snd (prune_runs demo_codec (\<lambda>_. ''S'') late (\<lambda>_. None) demo_opts ''/runs'' (demo_host False)))) = Some d' \<and>
    en_status (collect_run_entry demo_codec (ho_sockets (demo_host False)) late ''/runs/r'' ''r'' 0 d') = RunCancelled \<and>
    snapshot_get ''a'' (dir_snapshot demo_codec d') = Some failed_rec"
proof -
  have "if task_count (dir_snapshot demo_codec demo_dir) \<noteq> 0 \<or> po_include_aborted demo_opts
    then \<exists>d'. hm_get plain ''r'' (ho_dirs (snd (prune_runs demo_codec (\<lambda>_. ''S'') late (\<lambda>_. None) demo_opts ''/runs'' (demo_host False)))) = Some d' \<and>
      en_status (collect_run_entry demo_codec (ho_sockets (demo_host False)) late ''/runs/r'' ''r'' 0 d') = RunCancelled \<and>
      (\<forall>x. snapshot_get x (dir_snapshot demo_codec d') = snapshot_get x (dir_snapshot demo_codec demo_dir))
    else hm_get plain ''r'' (ho_dirs (snd (prune_runs demo_codec (\<lambda>_. ''S'') late (\<lambda>_. None) demo_opts ''/runs'' (demo_host False)))) = Some demo_dir"
  proof (rule sweep_settles[where d = demo_dir and m = demo_meta])
    show "\<forall>s. build_synthesized_summary demo_codec late demo_dir = Inr s \<longrightarrow> rc_summary demo_codec ''S'' = Some s"
      by (simp add: demo_build) (simp add: demo_codec_def)
  qed (simp_all add: demo_host_def demo_opts_def demo_dir_def demo_codec_def open_codec_def hm_wf_def control_socket_is_live_def jsonl_recent_def
      late_def STALENESS_THRESHOLD_def ns_per_sec_def Let_def)
  then show ?thesis using demo_record by (auto simp: demo_opts_def)
qed

theorem prune_spares_witness:
  "hm_get plain ''r'' (ho_dirs (snd (prune_runs demo_codec (\<lambda>_. ''S'') late (\<lambda>_. None) (demo_opts\<lparr>po_remove := True\<rparr>) ''/runs'' (demo_host True)))) =
   Some demo_dir"
  by (rule prune_spares) (simp_all add: demo_host_def demo_opts_def demo_dir_def hm_wf_def control_socket_is_live_def Let_def)

theorem tail_complete_witness:
  "\<exists>r'\<in>set (sent_list (drive_tail ''r'' ([empty_snapshot] @ \<lparr>sn_run_summary = None, sn_tasks = [(''a'', failed_rec)]\<rparr> # []) start_tail)).
     tr_task_id r' = ''a'' \<and> tr_ended_at failed_rec \<le> tr_ended_at r'"
  using tail_complete[of "[empty_snapshot]" "\<lparr>sn_run_summary = None, sn_tasks = [(''a'', failed_rec)]\<rparr>" "[]" "''r''"]
  by (simp add: keyed_by_task_def empty_snapshot_def letters_rows(5) hm_wf_def)

end
