(* ===== verification/Resume_Facts.thy ===== *)
theory Resume_Facts
  imports Resume Run_Index_Facts
begin

text \<open>
  What a resumed run is: the tasks whose latest record has a session id, each restarted in that session, with
  a session id that cannot be read as a flag; and a run that was swept before it was finalised is resumed in the
  sessions of its rows.
\<close>

section \<open>Session ids\<close>

definition safe_session :: "string \<Rightarrow> bool" where
  "safe_session sid \<longleftrightarrow> sid \<noteq> [] \<and> length sid \<le> 128 \<and> hd sid \<noteq> CHR ''-'' \<and> list_all id_char sid"

lemma validate_session_id_iff: "validate_session_id sid = Inr u \<longleftrightarrow> safe_session sid"
  by (cases sid) (auto simp: validate_session_id_def safe_session_def MAX_SESSION_ID_LEN_def starts_with_iff id_char_def list_all_iff)

lemma validate_session_id_error: "validate_session_id sid = Inl e \<Longrightarrow> \<not> safe_session sid"
  using validate_session_id_iff[of sid "()"] by auto

text \<open>The session of the last record of a task.\<close>

definition session_of :: "RunSummary \<Rightarrow> ResolvedTask \<Rightarrow> string option" where
  "session_of s t = Option.bind (find (\<lambda>r. tr_task_id r = task_id t) (rev (su_tasks s))) tr_claude_session_id"

lemma get_sessions:
  "hm_get plain x (fold (\<lambda>r. hm_insert plain (tr_task_id r) (tr_claude_session_id r)) rs m) =
   (case find (\<lambda>r. tr_task_id r = x) (rev rs) of Some r \<Rightarrow> Some (tr_claude_session_id r) | None \<Rightarrow> hm_get plain x m)"
proof (induction rs rule: rev_induct)
  case (snoc r rs)
  then show ?case by (simp add: hm_get_insert)
qed simp

lemma session_ids_get:
  "hm_get plain x (session_ids s) = map_option tr_claude_session_id (find (\<lambda>r. tr_task_id r = x) (rev (su_tasks s)))"
  by (simp add: session_ids_def get_sessions split: option.split)

section \<open>Flat runs\<close>

definition resumed_task :: "RunSummary \<Rightarrow> ResolvedTask \<Rightarrow> ResolvedTask option" where
  "resumed_task s t = map_option (\<lambda>sid. t\<lparr>task_resume_session_id := Some sid\<rparr>) (session_of s t)"

lemma resume_tasks_Cons:
  "resume_tasks (session_ids s) (t # ts) =
   (case session_of s t of
      None \<Rightarrow> resume_tasks (session_ids s) ts
    | Some sid \<Rightarrow>
        (case validate_session_id sid of
           Inl e \<Rightarrow> Inl (TamperedSession (task_id t) e)
         | Inr _ \<Rightarrow> map_sum id (\<lambda>resumed. t\<lparr>task_resume_session_id := Some sid\<rparr> # resumed) (resume_tasks (session_ids s) ts)))"
  by (auto simp: session_ids_get session_of_def split: option.splits sum.splits)

lemma resume_tasks_spec:
  "resume_tasks (session_ids s) ts = Inr resumed \<longleftrightarrow>
   resumed = List.map_filter (resumed_task s) ts \<and> (\<forall>t\<in>set ts. \<forall>sid. session_of s t = Some sid \<longrightarrow> safe_session sid)"
proof (induction ts arbitrary: resumed)
  case Nil
  then show ?case by (auto simp: List.map_filter_simps)
next
  case (Cons t ts)
  show ?case
  proof (cases "session_of s t")
    case None
    then show ?thesis using Cons.IH[of resumed] unfolding resume_tasks_Cons by (simp add: resumed_task_def List.map_filter_simps)
  next
    case (Some sid)
    show ?thesis
    proof (cases "validate_session_id sid")
      case (Inl e)
      then show ?thesis using Some validate_session_id_error[OF Inl] unfolding resume_tasks_Cons by auto
    next
      case (Inr u)
      then have safe: "safe_session sid" by (simp add: validate_session_id_iff)
      have resumed: "resumed_task s t = Some (t\<lparr>task_resume_session_id := Some sid\<rparr>)" using Some by (simp add: resumed_task_def)
      have "resume_tasks (session_ids s) (t # ts) = Inr resumed \<longleftrightarrow>
          (\<exists>rest. resume_tasks (session_ids s) ts = Inr rest \<and> resumed = t\<lparr>task_resume_session_id := Some sid\<rparr> # rest)"
        unfolding resume_tasks_Cons using Some Inr by (cases "resume_tasks (session_ids s) ts") auto
      also have "\<dots> \<longleftrightarrow> resumed = List.map_filter (resumed_task s) (t # ts) \<and>
          (\<forall>t\<in>set ts. \<forall>sid. session_of s t = Some sid \<longrightarrow> safe_session sid)"
        using Cons.IH resumed by (auto simp: List.map_filter_simps)
      finally show ?thesis using Some safe by simp
    qed
  qed
qed

text \<open>
  C25: A resumed flat run is the old manifest, with the notifications substituted anew, restricted to the tasks
  whose last record has a session id; the order is kept, every task carries exactly that id, and the id is a
  short word of letters, digits, \<open>-\<close> and \<open>_\<close> that does not start with a dash and stands right after \<^verbatim>\<open>--resume\<close> on the command line.
\<close>

theorem resume_flat_run:
  assumes "build_resume_manifest k env d = Inr m"
  shows "\<exists>base s. read_resolved_manifest k env d = Inr base \<and> read_summary k d = Inr s \<and>
    m = base\<lparr>tasks := List.map_filter (resumed_task s) (tasks base)\<rparr> \<and> tasks m \<noteq> [] \<and>
    (\<forall>t\<in>set (tasks m). \<exists>sid. session_of s t = Some sid \<and> safe_session sid \<and>
       (\<exists>pre. spawn_args c t src = pre @ [''--model'', task_model t, ''--resume'', sid, ''-p'', task_prompt t]))"
proof -
  obtain base s where base: "read_resolved_manifest k env d = Inr base" and s: "read_summary k d = Inr s"
    and ok: "resume_tasks (session_ids s) (tasks base) = Inr (tasks m)" "m = base\<lparr>tasks := tasks m\<rparr>" "tasks m \<noteq> []"
    using assms by (auto simp: build_resume_manifest_def split: sum.splits if_splits)
  note spec = ok(1)[unfolded resume_tasks_spec]
  have "\<exists>sid. session_of s t = Some sid \<and> safe_session sid \<and> (\<exists>pre. spawn_args c t src = pre @ [''--model'', task_model t, ''--resume'', sid, ''-p'', task_prompt t])"
    if "t \<in> set (tasks m)" for t
  proof -
    have "t \<in> set (List.map_filter (resumed_task s) (tasks base))" using that spec by simp
    then obtain t0 where "t0 \<in> set (tasks base)" "resumed_task s t0 = Some t" by (auto simp: List.map_filter_def)
    moreover then obtain sid where "session_of s t0 = Some sid" "t = t0\<lparr>task_resume_session_id := Some sid\<rparr>"
      by (auto simp: resumed_task_def)
    ultimately show ?thesis using spec by (auto simp: task_line session_of_def)
  qed
  then show ?thesis using base s ok spec by metis
qed

section \<open>Hierarchical runs\<close>

lemma sublead_sessions_safe:
  "hm_get plain x (sublead_sessions k d) = Some sid \<Longrightarrow> safe_session sid"
proof -
  have fold_safe: "\<forall>e\<in>set es. safe_session (se_session_id e) \<Longrightarrow> (\<forall>sid. hm_get plain x m = Some sid \<longrightarrow> safe_session sid) \<Longrightarrow>
      hm_get plain x (fold (\<lambda>e. hm_insert plain (se_sublead_id e) (se_session_id e)) es m) = Some sid \<Longrightarrow> safe_session sid" for es m
  proof (induction es arbitrary: m)
    case (Cons e es)
    have "\<forall>sid. hm_get plain x (hm_insert plain (se_sublead_id e) (se_session_id e) m) = Some sid \<longrightarrow> safe_session sid"
      using Cons.prems(1,2) by (simp add: hm_get_insert)
    then show ?case using Cons.IH Cons.prems(1,3) by simp
  qed simp
  have "safe_session (se_session_id e)" if "sublead_entry k l = Some e" for l e
    using that validate_session_id_iff by (auto simp: sublead_entry_def Let_def split: if_splits option.splits sum.splits)
  then have "\<forall>e\<in>set (List.map_filter (sublead_entry k) ls). safe_session (se_session_id e)" for ls
    by (auto simp: List.map_filter_def)
  then show "hm_get plain x (sublead_sessions k d) = Some sid \<Longrightarrow> safe_session sid"
    using fold_safe[of "List.map_filter (sublead_entry k) _" "[]"] by (auto simp: sublead_sessions_def split: option.splits if_splits)
qed

text \<open>
  A resumed hierarchical run restarts the lead, and nothing else, in the session of its record, whose worktree
  still exists; the id that reaches the command line and every session id handed on for the sub-leads is safe.
\<close>

theorem resume_lead_run:
  assumes "build_resume_hierarchical k env d = Inr (m, sessions)"
  shows "\<exists>base s ld rec sid. read_resolved_manifest k env d = Inr base \<and> read_summary k d = Inr s \<and> lead base = Some ld \<and>
    rec \<in> set (su_tasks s) \<and> tr_task_id rec = rl_id ld \<and> tr_claude_session_id rec = Some sid \<and> safe_session sid \<and>
    (\<forall>wt. tr_worktree_path rec = Some wt \<longrightarrow> pr_exists d wt) \<and>
    m = base\<lparr>lead := Some (ld\<lparr>rl_resume_session_id := Some sid\<rparr>), tasks := []\<rparr> \<and>
    (\<exists>pre. lead_spawn_args c (the (lead m)) cfg mode servers src = pre @ [''--mcp-config'', cfg, ''--resume'', sid, ''-p'', rl_prompt ld]) \<and>
    (\<forall>x sid'. hm_get plain x sessions = Some sid' \<longrightarrow> safe_session sid')"
proof -
  obtain base s ld rec sid where found: "read_resolved_manifest k env d = Inr base" "read_summary k d = Inr s" "lead base = Some ld"
    "find (\<lambda>r. tr_task_id r = rl_id ld) (su_tasks s) = Some rec" "tr_claude_session_id rec = Some sid" "safe_session sid"
    "\<forall>wt. tr_worktree_path rec = Some wt \<longrightarrow> pr_exists d wt"
    "m = base\<lparr>lead := Some (ld\<lparr>rl_resume_session_id := Some sid\<rparr>), tasks := []\<rparr>" "sessions = sublead_sessions k d"
    using assms validate_session_id_iff
    by (auto simp: build_resume_hierarchical_def Let_def split: sum.splits option.splits if_splits)
  have "rec \<in> set (su_tasks s)" "tr_task_id rec = rl_id ld" using find_mem[OF found(4)] by simp_all
  moreover have "(\<exists>pre. lead_spawn_args c (the (lead m)) cfg mode servers src = pre @ [''--mcp-config'', cfg, ''--resume'', sid, ''-p'', rl_prompt ld])"
    using found(8) by (simp add: lead_line)
  ultimately show ?thesis using found sublead_sessions_safe[of _ k d] by blast
qed


section \<open>After a sweep\<close>

lemma read_resolved_other_summary:
  "read_resolved_manifest k env (pr\<lparr>pr_summary_json := x\<rparr>) = read_resolved_manifest k env pr"
proof -
  have "reconstruct_notifications k env (pr\<lparr>pr_summary_json := x\<rparr>) = reconstruct_notifications k env pr"
    "pr_resolved_json (pr\<lparr>pr_summary_json := x\<rparr>) = pr_resolved_json pr"
    by (simp_all add: reconstruct_notifications_def)
  then show ?thesis unfolding read_resolved_manifest_def by (simp only:)
qed

lemma synthesized_session:
  assumes "di_summary_json d = None" "build_synthesized_summary rk now d = Inr s"
  shows "session_of s t = Option.bind (snapshot_get (task_id t) (dir_snapshot rk d)) tr_claude_session_id"
proof -
  have "Option.bind (di_summary_json d) (rc_summary rk) = None" using assms(1) by simp
  note ts = synthesized_tasks(1)[OF assms(2) this]
  have "keyed_by_task (sn_tasks (dir_snapshot rk d))" by (simp add: dir_snapshot_def keyed_snapshot)
  then show ?thesis by (simp add: session_of_def ts find_by_end snapshot_get_def)
qed

text \<open>
  C26: A run that died before it was finalised cannot be resumed as it is; once a sweep has written the summary of
  its rows, every task whose latest row has a session id is resumed in that session, if the ids are well-formed.
\<close>

theorem swept_run_resumes:
  assumes "di_summary_json d = None" "build_synthesized_summary rk now d = Inr s" "ro_summary k (enc s) = Some s"
    "pr_summary_json pr = di_summary_json d" "read_resolved_manifest k env pr = Inr base"
    "\<forall>t\<in>set (tasks base). \<forall>r sid. snapshot_get (task_id t) (dir_snapshot rk d) = Some r \<longrightarrow> tr_claude_session_id r = Some sid \<longrightarrow> safe_session sid"
    "t \<in> set (tasks base)" "snapshot_get (task_id t) (dir_snapshot rk d) = Some r" "tr_claude_session_id r = Some sid"
  shows "build_resume_manifest k env pr = Inl NoSummaryJson \<and>
    (\<exists>m. build_resume_manifest k env (pr\<lparr>pr_summary_json := Some (enc s)\<rparr>) = Inr m \<and>
       t\<lparr>task_resume_session_id := Some sid\<rparr> \<in> set (tasks m))"
proof
  show "build_resume_manifest k env pr = Inl NoSummaryJson"
    using assms(1,4,5) by (simp add: build_resume_manifest_def read_summary_def)
  let ?pr = "pr\<lparr>pr_summary_json := Some (enc s)\<rparr>"
  let ?ts = "List.map_filter (resumed_task s) (tasks base)"
  have "read_resolved_manifest k env ?pr = Inr base"
    using assms(5) by (simp add: read_resolved_other_summary)
  moreover have "read_summary k ?pr = Inr s" using assms(3) by (simp add: read_summary_def)
  moreover have "\<forall>t\<in>set (tasks base). \<forall>sid. session_of s t = Some sid \<longrightarrow> safe_session sid"
    using assms(6) by (auto simp: synthesized_session[OF assms(1,2)] bind_eq_Some_conv)
  then have "resume_tasks (session_ids s) (tasks base) = Inr ?ts" using resume_tasks_spec by blast
  moreover have "resumed_task s t = Some (t\<lparr>task_resume_session_id := Some sid\<rparr>)"
    using assms(8,9) by (simp add: resumed_task_def synthesized_session[OF assms(1,2)])
  then have mem: "t\<lparr>task_resume_session_id := Some sid\<rparr> \<in> set ?ts"
    using assms(7) by (force simp: List.map_filter_def)
  ultimately have "build_resume_manifest k env ?pr = Inr (base\<lparr>tasks := ?ts\<rparr>)"
    by (auto simp: build_resume_manifest_def)
  then show "\<exists>m. build_resume_manifest k env ?pr = Inr m \<and> t\<lparr>task_resume_session_id := Some sid\<rparr> \<in> set (tasks m)" using mem by auto
qed

section \<open>Concrete runs\<close>

definition prior_task :: ResolvedTask where
  "prior_task = \<lparr>task_id = ''a'', task_directory = ''/r'', task_prompt = ''p'', task_branch = None, task_model = ''m'', task_effort = High,
     task_tools = [], task_timeout_secs = 1, task_use_worktree = False, task_env = [], task_resume_session_id = None\<rparr>"

definition prior_record :: TaskRecord where
  "prior_record = failed_rec\<lparr>tr_claude_session_id := Some ''s1''\<rparr>"

definition prior_lead :: ResolvedLead where
  "prior_lead = base_lead\<lparr>rl_id := ''a''\<rparr>"

definition prior_summary :: RunSummary where
  "prior_summary = \<lparr>su_run_id = ''r'', su_manifest_path = ''m'', su_manifest_name = None, su_pitboss_version = ''1'', su_claude_version = None,
     su_started_at = 0, su_ended_at = 0, su_total_duration_ms = 0, su_tasks_total = 1, su_tasks_failed = 1, su_was_interrupted = True,
     su_notify_failures = None, su_tasks = [prior_record]\<rparr>"

definition prior_codec :: "string ResumeCodec" where
  "prior_codec = \<lparr>ro_json = Some, ro_version = (\<lambda>_. Some 1),
     ro_manifest = (\<lambda>_. Some (base_manifest\<lparr>tasks := [prior_task], lead := Some prior_lead\<rparr>)), ro_notification = (\<lambda>_. Some []),
     ro_summary = (\<lambda>_. Some prior_summary), ro_entry = (\<lambda>_. None)\<rparr>"

definition prior_run :: PriorRun where
  "prior_run = \<lparr>pr_resolved_json = Some [], pr_snapshot_toml = Some [], pr_summary_json = Some [], pr_subleads_jsonl = None, pr_exists = (\<lambda>_. False)\<rparr>"

lemma s1_safe: "safe_session ''s1''" "validate_session_id ''s1'' = Inr ()"
proof -
  show "safe_session ''s1''" by (simp add: safe_session_def id_char_def ascii_alphanumeric_def)
  then show "validate_session_id ''s1'' = Inr ()" by (simp add: validate_session_id_iff)
qed

lemma prior_reads:
  "read_resolved_manifest prior_codec env prior_run = Inr (base_manifest\<lparr>tasks := [prior_task], lead := Some prior_lead, notifications := []\<rparr>)"
  "read_summary prior_codec prior_run = Inr prior_summary"
  "tr_task_id prior_record = ''a''" "tr_claude_session_id prior_record = Some ''s1''" "tr_worktree_path prior_record = None"
  by (simp_all add: read_resolved_manifest_def read_summary_def reconstruct_notifications_def prior_codec_def prior_run_def
      CURRENT_MANIFEST_SCHEMA_VERSION_def valid_utf8.simps[of "[]"] prior_record_def failed_rec_def worktree_failed_record_def)

theorem resume_flat_run_witness:
  "\<exists>m s. build_resume_manifest prior_codec (\<lambda>_. None) prior_run = Inr m \<and> read_summary prior_codec prior_run = Inr s \<and>
     (\<forall>t\<in>set (tasks m). \<exists>sid. session_of s t = Some sid \<and> (\<exists>pre. spawn_args False t None = pre @ [''--model'', task_model t, ''--resume'', sid, ''-p'', task_prompt t]))"
proof -
  have "resume_tasks (session_ids prior_summary) [prior_task] = Inr [prior_task\<lparr>task_resume_session_id := Some ''s1''\<rparr>]"
    by (simp add: session_ids_get prior_summary_def prior_task_def prior_reads s1_safe)
  then have "\<exists>m. build_resume_manifest prior_codec (\<lambda>_. None) prior_run = Inr m"
    by (simp add: build_resume_manifest_def prior_reads)
  then obtain m where m: "build_resume_manifest prior_codec (\<lambda>_. None) prior_run = Inr m" ..
  show ?thesis using m resume_flat_run[OF m, of False None] by blast
qed

theorem resume_lead_run_witness:
  "\<exists>m sessions. build_resume_hierarchical prior_codec (\<lambda>_. None) prior_run = Inr (m, sessions) \<and>
     (\<exists>sid pre p. safe_session sid \<and> lead_spawn_args False (the (lead m)) ''c'' CommDisabled [] None = pre @ [''--mcp-config'', ''c'', ''--resume'', sid, ''-p'', p])"
proof -
  have "\<exists>m sessions. build_resume_hierarchical prior_codec (\<lambda>_. None) prior_run = Inr (m, sessions)"
    by (simp add: build_resume_hierarchical_def prior_reads prior_summary_def prior_lead_def s1_safe)
  then obtain m sessions where m: "build_resume_hierarchical prior_codec (\<lambda>_. None) prior_run = Inr (m, sessions)" by blast
  show ?thesis using m resume_lead_run[OF m, of False "''c''" CommDisabled "[]" None] by blast
qed


text \<open>The demo run of the sweep, with a row that has a session id.\<close>

definition rows_codec :: RunCodec where
  "rows_codec = open_codec\<lparr>rc_record := (\<lambda>s. if s = ''ab'' then Some prior_record else None)\<rparr>"

definition rows_summary :: RunSummary where
  "rows_summary = (case build_synthesized_summary rows_codec late demo_dir of Inr s \<Rightarrow> s | Inl _ \<Rightarrow> prior_summary)"

lemma rows_built: "build_synthesized_summary rows_codec late demo_dir = Inr rows_summary"
proof -
  have "\<exists>s. build_synthesized_summary rows_codec late demo_dir = Inr s"
    by (rule synthesized_from_meta[where m = demo_meta]) (simp_all add: demo_dir_def rows_codec_def open_codec_def)
  then show ?thesis by (auto simp: rows_summary_def)
qed

lemma rows_record: "snapshot_get ''a'' (dir_snapshot rows_codec demo_dir) = Some prior_record"
proof -
  have "valid_utf8 [CHR ''a'', CHR ''b'', newline]" by code_simp
  moreover have "trim ''ab'' = ''ab''" by code_simp
  then have "line_record (snap_codec rows_codec) ''ab'' = Some prior_record"
    by (simp add: line_record_def snap_codec_def rows_codec_def Let_def)
  ultimately show ?thesis
    using line_records_line[of "''ab''" "snap_codec rows_codec"] prior_reads(3) not_newline
    by (simp add: snapshot_get_def dir_snapshot_def read_run_snapshot_def load_summary_json_def overlay_summary_jsonl_def demo_dir_def
        get_insert_record)
qed

theorem swept_run_resumes_witness:
  "\<exists>m. build_resume_manifest (prior_codec\<lparr>ro_summary := (\<lambda>_. Some rows_summary)\<rparr>) (\<lambda>_. None) (prior_run\<lparr>pr_summary_json := Some ''S''\<rparr>) = Inr m \<and>
     prior_task\<lparr>task_resume_session_id := Some ''s1''\<rparr> \<in> set (tasks m)"
proof -
  let ?k = "prior_codec\<lparr>ro_summary := (\<lambda>_. Some rows_summary)\<rparr>"
  let ?pr = "prior_run\<lparr>pr_summary_json := None\<rparr>"
  have "reconstruct_notifications ?k (\<lambda>_. None) ?pr = Inr []"
    by (simp add: reconstruct_notifications_def prior_codec_def prior_run_def valid_utf8.simps[of "[]"])
  then have base: "read_resolved_manifest ?k (\<lambda>_. None) ?pr = Inr (base_manifest\<lparr>tasks := [prior_task], lead := Some prior_lead, notifications := []\<rparr>)"
    by (simp add: read_resolved_manifest_def) (simp add: prior_codec_def prior_run_def CURRENT_MANIFEST_SCHEMA_VERSION_def)
  have "build_resume_manifest ?k (\<lambda>_. None) ?pr = Inl NoSummaryJson \<and>
    (\<exists>m. build_resume_manifest ?k (\<lambda>_. None) (?pr\<lparr>pr_summary_json := Some ''S''\<rparr>) = Inr m \<and>
       prior_task\<lparr>task_resume_session_id := Some ''s1''\<rparr> \<in> set (tasks m))"
    by (rule swept_run_resumes[where enc = "\<lambda>_. ''S''" and r = prior_record, OF _ rows_built _ _ base])
      (simp_all add: demo_dir_def[THEN arg_cong, of di_summary_json] prior_task_def rows_record prior_reads(4) s1_safe)
  then show ?thesis by simp
qed

end
