(* ===== verification/Manifest_Resolve.thy ===== *)
theory Manifest_Resolve
  imports Spawn Notify_Config Validate Flat_Run
begin

text \<open>
  From the manifest as written to the manifest that is dispatched (\<^verbatim>\<open>manifest/resolve.rs\<close>, \<^verbatim>\<open>manifest/load.rs\<close>,
  the structs of \<^verbatim>\<open>manifest/schema.rs\<close>): templates, defaults, profiles, environments, approval rules. The TOML
  parser, path expansion, the bundled profiles, the default run directory and the process environment are arguments.
\<close>

section \<open>The manifest as written\<close>

record RunConfig =
  rf_name :: "string option"
  rf_max_parallel_tasks :: "u32 option"
  rf_halt_on_failure :: bool
  rf_run_dir :: "string option"
  rf_worktree_cleanup :: WorktreeCleanup
  rf_emit_event_stream :: bool
  rf_resource_sample_secs :: u64
  rf_claude_setting_sources :: "string option"
  rf_default_approval_policy :: "ApprovalPolicy option"
  rf_denial_termination_policy :: "DenialTerminationPolicy option"
  rf_dump_shared_store :: bool
  rf_require_plan_approval :: bool
  rf_require_actor_type :: bool
  rf_untyped_actor_policy :: UntypedActorPolicy

record Defaults =
  df_model :: "string option"
  df_effort :: "Effort option"
  df_tools :: "string list option"
  df_timeout_secs :: "u64 option"
  df_use_worktree :: "bool option"
  df_env :: "(string \<times> string) list"

record Template =
  tp_id :: string
  tp_prompt :: string

record Task =
  tk_id :: string
  tk_directory :: string
  tk_prompt :: "string option"
  tk_template :: "string option"
  tk_vars :: "(string \<times> string) list"
  tk_branch :: "string option"
  tk_model :: "string option"
  tk_effort :: "Effort option"
  tk_tools :: "string list option"
  tk_timeout_secs :: "u64 option"
  tk_use_worktree :: "bool option"
  tk_env :: "(string \<times> string) list"
  tk_agent_profile :: "string option"

record Lead =
  le_id :: string
  le_directory :: string
  le_prompt :: string
  le_branch :: "string option"
  le_model :: "string option"
  le_effort :: "Effort option"
  le_tools :: "string list option"
  le_timeout_secs :: "u64 option"
  le_use_worktree :: "bool option"
  le_env :: "(string \<times> string) list"
  le_max_workers :: "u32 option"
  le_budget_usd :: "f64 option"
  le_lead_budget_usd :: "f64 option"
  le_lead_timeout_secs :: "u64 option"
  le_permission_routing :: PermissionRouting
  le_allow_subleads :: bool
  le_max_subleads :: "u32 option"
  le_max_sublead_budget_usd :: "f64 option"
  le_max_total_workers :: "u32 option"
  le_agent_profile :: "string option"

record SubleadDefaults =
  sb_budget_usd :: "f64 option"
  sb_lead_budget_usd :: "f64 option"
  sb_max_workers :: "u32 option"
  sb_lead_timeout_secs :: "u64 option"
  sb_read_down :: bool

record ApprovalRuleSpec =
  as_actor :: "string option"
  as_category :: "string option"
  as_tool_name :: "string option"
  as_cost_over :: "f64 option"
  as_action :: string

record Manifest =
  mf_run :: RunConfig
  mf_defaults :: Defaults
  mf_templates :: "Template list"
  mf_agent_profiles :: "AgentProfile list"
  mf_tasks :: "Task list"
  mf_lead :: "Lead option"
  mf_sublead_defaults :: "SubleadDefaults option"
  mf_notification :: "NotificationConfig list"
  mf_approval_policy_rules :: "ApprovalRuleSpec list"
  mf_container :: "ContainerConfig option"
  mf_mcp_servers :: "McpServerSpec list"
  mf_worker_types :: "WorkerType list"
  mf_sublead_types :: "SubleadType list"
  mf_communication :: CommunicationConfig
  mf_lifecycle :: "Lifecycle option"

section \<open>Templates\<close>

datatype ResolveManifestError =
    ReDuplicateProfile string | ReUnknownProfile string | ReUnclosed string | ReUndeclaredVar string
  | ReUnknownTemplate string string | ReBothPrompts string | ReNoPrompt string | ReNotify NotifyError
  | ReUnknownAction string | ReUnknownCategory string | ReParse | ReExpand string | ReInvalid ManifestError

text \<open>The characters up to the closing brace, and what follows it; \<open>None\<close> when there is none.\<close>

fun until_brace :: "string \<Rightarrow> (string \<times> string) option" where
  "until_brace [] = None"
| "until_brace (c # cs) = (if c = CHR ''}'' then Some ([], cs) else map_option (\<lambda>(n, r). (c # n, r)) (until_brace cs))"

lemma until_brace_length: "until_brace s = Some (n, r) \<Longrightarrow> length r < length s"
  by (induction s arbitrary: n) (auto split: if_splits simp: less_SucI)

function substitute :: "(string \<times> string) list \<Rightarrow> string \<Rightarrow> ResolveManifestError + string" where
  "substitute vars [] = Inr []"
| "substitute vars (c # cs) =
     (if c = CHR 0x5C
      then (case cs of
              d # ds \<Rightarrow>
                if d = CHR ''{'' \<or> d = CHR ''}'' then map_sum id (\<lambda>out. d # out) (substitute vars ds)
                else map_sum id (\<lambda>out. c # out) (substitute vars cs)
            | [] \<Rightarrow> Inr [c])
      else if c = CHR ''{''
      then (case until_brace cs of
              None \<Rightarrow> Inl (ReUnclosed cs)
            | Some (name, rest) \<Rightarrow>
                (case hm_get plain name vars of
                   None \<Rightarrow> Inl (ReUndeclaredVar name)
                 | Some v \<Rightarrow> map_sum id (\<lambda>out. v @ out) (substitute vars rest)))
      else map_sum id (\<lambda>out. c # out) (substitute vars cs))"
  by pat_completeness auto
termination
  by (relation "measure (length \<circ> snd)") (auto dest: until_brace_length)

section \<open>Tasks and the lead\<close>

definition DEFAULT_MODEL :: string where
  "DEFAULT_MODEL = ''claude-sonnet-4-6''"

definition DEFAULT_TIMEOUT_SECS :: u64 where
  "DEFAULT_TIMEOUT_SECS = 3600"

definition DEFAULT_MAX_PARALLEL_TASKS :: u32 where
  "DEFAULT_MAX_PARALLEL_TASKS = 4"

definition default_tools :: "string list" where
  "default_tools = [''Read'', ''Write'', ''Edit'', ''Bash'', ''Glob'', ''Grep'']"

text \<open>The value of the first of several sources that has one.\<close>

fun first_some :: "'a option list \<Rightarrow> 'a \<Rightarrow> 'a" where
  "first_some [] d = d"
| "first_some (Some x # xs) d = x"
| "first_some (None # xs) d = first_some xs d"

definition extend_env :: "(string \<times> string) list \<Rightarrow> (string \<times> string) list \<Rightarrow> (string \<times> string) list" where
  "extend_env env kvs = fold (\<lambda>(k, v). hm_insert plain k v) kvs env"

definition merged_env :: "Defaults \<Rightarrow> AgentProfile option \<Rightarrow> (string \<times> string) list \<Rightarrow> (string \<times> string) list" where
  "merged_env df profile own =
     extend_env (case profile of Some p \<Rightarrow> extend_env (df_env df) (ap_env p) | None \<Rightarrow> df_env df) own"

definition raw_prompt :: "(string \<times> Template) list \<Rightarrow> Task \<Rightarrow> ResolveManifestError + string" where
  "raw_prompt templates task =
     (case (tk_prompt task, tk_template task) of
        (Some p, None) \<Rightarrow> Inr p
      | (None, Some tid) \<Rightarrow>
          (case hm_get plain tid templates of
             None \<Rightarrow> Inl (ReUnknownTemplate (tk_id task) tid)
           | Some t \<Rightarrow> substitute (tk_vars task) (tp_prompt t))
      | (Some _, Some _) \<Rightarrow> Inl (ReBothPrompts (tk_id task))
      | (None, None) \<Rightarrow> Inl (ReNoPrompt (tk_id task)))"

definition resolve_task ::
  "Task \<Rightarrow> Defaults \<Rightarrow> (string \<times> Template) list \<Rightarrow> AgentProfile option \<Rightarrow> ResolveManifestError + ResolvedTask" where
  "resolve_task task df templates profile =
     map_sum id (\<lambda>raw.
       \<lparr>task_id = tk_id task, task_directory = tk_directory task, task_prompt = compose_prompt profile raw, task_branch = tk_branch task,
        task_model = first_some [tk_model task, df_model df, Option.bind profile ap_model] DEFAULT_MODEL,
        task_effort = first_some [tk_effort task, df_effort df] High,
        task_tools = first_some [tk_tools task, df_tools df, Option.bind profile ap_tools] default_tools,
        task_timeout_secs = first_some [tk_timeout_secs task, df_timeout_secs df] DEFAULT_TIMEOUT_SECS,
        task_use_worktree = first_some [tk_use_worktree task, df_use_worktree df] True,
        task_env = merged_env df profile (tk_env task), task_resume_session_id = None\<rparr>) (raw_prompt templates task)"

definition resolve_sublead_defaults :: "SubleadDefaults \<Rightarrow> ResolvedSubleadDefaults" where
  "resolve_sublead_defaults spec =
     \<lparr>sd_budget_usd = sb_budget_usd spec, sd_lead_budget_usd = sb_lead_budget_usd spec, sd_max_workers = sb_max_workers spec,
      sd_lead_timeout_secs = sb_lead_timeout_secs spec, sd_read_down = sb_read_down spec\<rparr>"

definition resolve_lead :: "Lead \<Rightarrow> Defaults \<Rightarrow> ResolvedSubleadDefaults option \<Rightarrow> AgentProfile option \<Rightarrow> ResolvedLead" where
  "resolve_lead ld df sub profile =
     \<lparr>rl_id = le_id ld, rl_directory = le_directory ld, rl_prompt = compose_prompt profile (le_prompt ld), rl_branch = le_branch ld,
      rl_model = first_some [le_model ld, df_model df, Option.bind profile ap_model] DEFAULT_MODEL,
      rl_effort = first_some [le_effort ld, df_effort df] High,
      rl_tools = first_some [le_tools ld, df_tools df, Option.bind profile ap_tools] default_tools,
      rl_timeout_secs = first_some [le_timeout_secs ld, le_lead_timeout_secs ld, df_timeout_secs df] DEFAULT_TIMEOUT_SECS,
      rl_use_worktree = first_some [le_use_worktree ld, df_use_worktree df] True,
      rl_env = merged_env df profile (le_env ld), rl_resume_session_id = None, rl_permission_routing = le_permission_routing ld,
      allow_subleads = le_allow_subleads ld, max_subleads = le_max_subleads ld, max_sublead_budget_usd = le_max_sublead_budget_usd ld,
      max_total_workers = le_max_total_workers ld, sublead_defaults = sub\<rparr>"

definition resolve_approval_rule :: "ApprovalRuleSpec \<Rightarrow> ResolveManifestError + ApprovalRule" where
  "resolve_approval_rule spec =
     (let action =
        (if as_action spec = ''auto_approve'' then Some AutoApprove else if as_action spec = ''auto_reject'' then Some AutoReject
         else if as_action spec = ''block'' then Some Block else None) in
      case action of
        None \<Rightarrow> Inl (ReUnknownAction (as_action spec))
      | Some action \<Rightarrow>
          (let rule = (\<lambda>category. \<lparr>rule_match = \<lparr>am_actor = as_actor spec, am_category = category, am_tool_name = as_tool_name spec,
                          am_cost_over = as_cost_over spec\<rparr>, rule_action = action\<rparr>) in
           case as_category spec of
             None \<Rightarrow> Inr (rule None)
           | Some s \<Rightarrow>
               if s = ''tool_use'' then Inr (rule (Some ToolUse)) else if s = ''plan'' then Inr (rule (Some PlanCategory))
               else if s = ''cost'' then Inr (rule (Some CostCategory)) else if s = ''other'' then Inr (rule (Some OtherCategory))
               else Inl (ReUnknownCategory s)))"

section \<open>The whole manifest\<close>

text \<open>The first error of a list of steps, or all their results.\<close>

fun collect_results :: "('e + 'a) list \<Rightarrow> 'e + 'a list" where
  "collect_results [] = Inr []"
| "collect_results (Inl e # xs) = Inl e"
| "collect_results (Inr x # xs) = map_sum id (\<lambda>ys. x # ys) (collect_results xs)"

definition profile_catalogue :: "AgentProfile list \<Rightarrow> AgentProfile list \<Rightarrow> (string \<times> AgentProfile) list" where
  "profile_catalogue builtins ps = fold (\<lambda>p. hm_insert plain (ap_id p) p) (builtins @ ps) []"

definition lookup_profile ::
  "(string \<times> AgentProfile) list \<Rightarrow> string option \<Rightarrow> ResolveManifestError + AgentProfile option" where
  "lookup_profile catalogue ref =
     (case ref of
        None \<Rightarrow> Inr None
      | Some i \<Rightarrow> (case hm_get plain i catalogue of Some p \<Rightarrow> Inr (Some p) | None \<Rightarrow> Inl (ReUnknownProfile i)))"

record ResolveEnv =
  re_builtins :: "AgentProfile list"
  re_runs_base_dir :: string
  re_var :: "string \<Rightarrow> string option"

definition resolve_tasks ::
  "(string \<times> AgentProfile) list \<Rightarrow> (string \<times> Template) list \<Rightarrow> Manifest \<Rightarrow> ResolveManifestError + ResolvedTask list" where
  "resolve_tasks catalogue templates m =
     collect_results (map (\<lambda>task.
       case lookup_profile catalogue (tk_agent_profile task) of
         Inl e \<Rightarrow> Inl e
       | Inr profile \<Rightarrow> resolve_task task (mf_defaults m) templates profile) (mf_tasks m))"

definition resolve_the_lead :: "(string \<times> AgentProfile) list \<Rightarrow> Manifest \<Rightarrow> ResolveManifestError + ResolvedLead option" where
  "resolve_the_lead catalogue m =
     (case mf_lead m of
        None \<Rightarrow> Inr None
      | Some l \<Rightarrow>
          map_sum id (\<lambda>profile. Some (resolve_lead l (mf_defaults m) (map_option resolve_sublead_defaults (mf_sublead_defaults m)) profile))
            (lookup_profile catalogue (le_agent_profile l)))"

definition resolve :: "ResolveEnv \<Rightarrow> Manifest \<Rightarrow> u32 option \<Rightarrow> ResolveManifestError + ResolvedManifest" where
  "resolve env m env_max_parallel_tasks =
     (let templates = fold (\<lambda>t. hm_insert plain (tp_id t) t) (mf_templates m) [];
          catalogue = profile_catalogue (re_builtins env) (mf_agent_profiles m);
          run = mf_run m
      in
      (case check_fresh ReDuplicateProfile [] (map ap_id (mf_agent_profiles m)) of Inl e \<Rightarrow> Inl e | Inr _ \<Rightarrow>
      (case resolve_tasks catalogue templates m of Inl e \<Rightarrow> Inl e | Inr resolved_tasks \<Rightarrow>
      (case resolve_the_lead catalogue m of Inl e \<Rightarrow> Inl e | Inr resolved_lead \<Rightarrow>
      (case collect_results (map (apply_env_substitution_with (re_var env)) (mf_notification m)) of Inl e \<Rightarrow> Inl (ReNotify e) | Inr ns \<Rightarrow>
      (case collect_results (map resolve_approval_rule (mf_approval_policy_rules m)) of Inl e \<Rightarrow> Inl e | Inr rules \<Rightarrow>
         Inr \<lparr>manifest_schema_version = 1, manifest_name = rf_name run,
              max_parallel_tasks = (if resolved_lead \<noteq> None then None
                else Some (first_some [rf_max_parallel_tasks run, env_max_parallel_tasks] DEFAULT_MAX_PARALLEL_TASKS)),
              halt_on_failure = rf_halt_on_failure run, run_dir = first_some [rf_run_dir run] (re_runs_base_dir env),
              worktree_cleanup = rf_worktree_cleanup run, emit_event_stream = rf_emit_event_stream run,
              resource_sample_secs = rf_resource_sample_secs run, claude_setting_sources = rf_claude_setting_sources run,
              tasks = resolved_tasks, lead = resolved_lead,
              max_workers = Option.bind (mf_lead m) le_max_workers, budget_usd = Option.bind (mf_lead m) le_budget_usd,
              lead_budget_usd = Option.bind (mf_lead m) le_lead_budget_usd,
              lead_timeout_secs = Option.bind (mf_lead m) le_lead_timeout_secs,
              default_approval_policy = rf_default_approval_policy run, denial_termination_policy = rf_denial_termination_policy run,
              notifications = ns, dump_shared_store = rf_dump_shared_store run, require_plan_approval = rf_require_plan_approval run,
              approval_rules = rules, container = mf_container m, mcp_servers = mf_mcp_servers m, communication = mf_communication m,
              lifecycle = mf_lifecycle m, worker_types = mf_worker_types m, sublead_types = mf_sublead_types m,
              require_actor_type = rf_require_actor_type run, untyped_actor_policy = rf_untyped_actor_policy run,
              agent_profiles = catalogue\<rparr>))))))"

text \<open>Expansion of the paths: every task, the lead, the run directory, in this order.\<close>

definition expand_paths :: "(string \<Rightarrow> string option) \<Rightarrow> Manifest \<Rightarrow> ResolveManifestError + Manifest" where
  "expand_paths expand m =
     (let ex = (\<lambda>s. case expand s of Some p \<Rightarrow> Inr p | None \<Rightarrow> Inl (ReExpand s)) in
      case collect_results (map (\<lambda>t. map_sum id (\<lambda>p. t\<lparr>tk_directory := p\<rparr>) (ex (tk_directory t))) (mf_tasks m)) of
        Inl e \<Rightarrow> Inl e
      | Inr ts \<Rightarrow>
          (case (case mf_lead m of None \<Rightarrow> Inr None | Some l \<Rightarrow> map_sum id (\<lambda>p. Some (l\<lparr>le_directory := p\<rparr>)) (ex (le_directory l))) of
             Inl e \<Rightarrow> Inl e
           | Inr l \<Rightarrow>
               (case (case rf_run_dir (mf_run m) of None \<Rightarrow> Inr None | Some d \<Rightarrow> map_sum id Some (ex d)) of
                  Inl e \<Rightarrow> Inl e
                | Inr d \<Rightarrow> Inr (m\<lparr>mf_tasks := ts, mf_lead := l, mf_run := (mf_run m)\<lparr>rf_run_dir := d\<rparr>\<rparr>))))"


definition load_manifest ::
  "Outside \<Rightarrow> ResolveEnv \<Rightarrow> (string \<Rightarrow> Manifest option) \<Rightarrow> (string \<Rightarrow> string option) \<Rightarrow> bool \<Rightarrow> string \<Rightarrow> u32 option \<Rightarrow>
   ResolveManifestError + ResolvedManifest" where
  "load_manifest out env parse expand skip_dir_check text max_tasks =
     (case parse text of
        None \<Rightarrow> Inl ReParse
      | Some m \<Rightarrow>
          (case expand_paths expand m of
             Inl e \<Rightarrow> Inl e
           | Inr m \<Rightarrow>
               (case resolve env m max_tasks of
                  Inl e \<Rightarrow> Inl e
                | Inr r \<Rightarrow> (case validate_inner out skip_dir_check r of Inl e \<Rightarrow> Inl (ReInvalid e) | Inr _ \<Rightarrow> Inr r))))"


text \<open>The flat run of a resolved manifest; without a number of permits the dispatcher panics.\<close>

definition flat_config :: "ResolvedManifest \<Rightarrow> (nat \<Rightarrow> TaskRecord outcome) \<Rightarrow> FlatConfig option" where
  "flat_config r result =
     map_option (\<lambda>n. \<lparr>fc_tasks = length (tasks r), fc_max_parallel = unat n, fc_halt = halt_on_failure r, fc_result = result\<rparr>)
       (max_parallel_tasks r)"

end
