(* ===== verification/Resolve_Facts.thy ===== *)
theory Resolve_Facts
  imports Manifest_Resolve Validate_Facts Flat_Facts
begin

text \<open>
  What the resolution of a manifest guarantees: templates are rendered as they are printed, what the operator wrote
  wins over profiles and defaults, a manifest is resolved exactly when its references and strings are good, and a
  manifest that loads can be run.
\<close>

section \<open>Templates\<close>

datatype Piece = Lit string | Var string

definition backslash :: char where
  "backslash = CHR 0x5C"

definition is_brace :: "char \<Rightarrow> bool" where
  "is_brace c \<longleftrightarrow> c = CHR ''{'' \<or> c = CHR ''}''"

definition escape :: "string \<Rightarrow> string" where
  "escape s = concat (map (\<lambda>c. if is_brace c then [backslash, c] else [c]) s)"

fun piece_text :: "Piece \<Rightarrow> string" where
  "piece_text (Lit s) = escape s"
| "piece_text (Var n) = CHR ''{'' # n @ ''}''"

definition template_text :: "Piece list \<Rightarrow> string" where
  "template_text ps = concat (map piece_text ps)"

text \<open>What a template stands for; the first variable that is not declared is the error.\<close>

fun render :: "(string \<times> string) list \<Rightarrow> Piece list \<Rightarrow> ResolveManifestError + string" where
  "render vars [] = Inr []"
| "render vars (Lit s # ps) = map_sum id (\<lambda>out. s @ out) (render vars ps)"
| "render vars (Var n # ps) =
     (case hm_get plain n vars of
        None \<Rightarrow> Inl (ReUndeclaredVar n)
      | Some v \<Rightarrow> map_sum id (\<lambda>out. v @ out) (render vars ps))"

text \<open>A variable may not follow a literal backslash, and its name may not hold a closing brace.\<close>

fun printable :: "bool \<Rightarrow> Piece list \<Rightarrow> bool" where
  "printable bs [] = True"
| "printable bs (Lit s # ps) = printable (if s = [] then bs else last s = backslash) ps"
| "printable bs (Var n # ps) \<longleftrightarrow> \<not> bs \<and> CHR ''}'' \<notin> set n \<and> printable False ps"

lemma brace_not_backslash: "is_brace c \<Longrightarrow> c \<noteq> backslash" "\<not> is_brace backslash"
  by (auto simp: is_brace_def backslash_def)

lemma substitute_plain:
  "\<not> is_brace c \<Longrightarrow> (c = backslash \<longrightarrow> t = [] \<or> \<not> is_brace (hd t)) \<Longrightarrow>
   substitute vars (c # t) = map_sum id (\<lambda>out. c # out) (substitute vars t)"
  by (cases t) (auto simp: is_brace_def backslash_def)

lemma substitute_brace: "is_brace c \<Longrightarrow> substitute vars (backslash # c # t) = map_sum id (\<lambda>out. c # out) (substitute vars t)"
  by (auto simp: is_brace_def backslash_def)

lemma substitute_rbrace: "substitute vars (CHR ''}'' # t) = map_sum id (\<lambda>out. CHR ''}'' # out) (substitute vars t)"
  by simp

lemma substitute_var:
  assumes "CHR ''}'' \<notin> set n"
  shows "substitute vars (CHR ''{'' # n @ CHR ''}'' # t) =
    (case hm_get plain n vars of None \<Rightarrow> Inl (ReUndeclaredVar n) | Some v \<Rightarrow> map_sum id (\<lambda>out. v @ out) (substitute vars t))"
proof -
  have "until_brace (n @ CHR ''}'' # t) = Some (n, t)" using assms by (induction n) auto
  then show ?thesis by simp
qed

declare substitute.simps(2) [simp del]

lemma escape_Cons: "escape (c # s) = (if is_brace c then [backslash, c] else [c]) @ escape s"
  by (simp add: escape_def)

lemma escape_hd: "escape s @ t = [] \<or> \<not> is_brace (hd (escape s @ t))" if "s = [] \<longrightarrow> t = [] \<or> \<not> is_brace (hd t)"
  using that by (cases s) (auto simp: escape_def brace_not_backslash)

lemma substitute_escape:
  "(s \<noteq> [] \<longrightarrow> last s = backslash \<longrightarrow> t = [] \<or> \<not> is_brace (hd t)) \<Longrightarrow>
   substitute vars (escape s @ t) = map_sum id (\<lambda>out. s @ out) (substitute vars t)"
proof (induction s)
  case Nil
  show ?case by (cases "substitute vars t") (simp_all add: escape_def)
next
  case (Cons c s)
  have IH: "substitute vars (escape s @ t) = map_sum id (\<lambda>out. s @ out) (substitute vars t)"
    by (rule Cons.IH) (use Cons.prems in auto)
  show ?case
  proof (cases "is_brace c")
    case True
    then show ?thesis using IH by (cases "substitute vars t") (simp_all add: escape_Cons substitute_brace)
  next
    case False
    have "c = backslash \<longrightarrow> escape s @ t = [] \<or> \<not> is_brace (hd (escape s @ t))" using escape_hd[of s t] Cons.prems by auto
    then show ?thesis using False IH substitute_plain[OF False] by (cases "substitute vars t") (simp_all add: escape_Cons)
  qed
qed

lemma template_text_Cons: "template_text (p # ps) = piece_text p @ template_text ps"
  by (simp add: template_text_def)

lemma printable_hd: "printable True ps \<Longrightarrow> template_text ps = [] \<or> \<not> is_brace (hd (template_text ps))"
proof (induction ps)
  case (Cons p ps)
  then show ?case using escape_hd[of _ "template_text ps"] by (cases p) (auto simp: template_text_Cons split: if_splits)
qed (simp add: template_text_def)

lemma substitute_template: "printable bs ps \<Longrightarrow> substitute vars (template_text ps) = render vars ps"
proof (induction ps arbitrary: bs)
  case (Cons p ps)
  show ?case
  proof (cases p)
    case (Lit s)
    have rest: "substitute vars (template_text ps) = render vars ps" using Cons Lit by auto
    have "s \<noteq> [] \<longrightarrow> last s = backslash \<longrightarrow> template_text ps = [] \<or> \<not> is_brace (hd (template_text ps))"
      using Cons.prems Lit printable_hd[of ps] by auto
    then show ?thesis using rest Lit by (simp add: template_text_Cons substitute_escape)
  next
    case (Var n)
    then have "substitute vars (template_text ps) = render vars ps" using Cons by auto
    then show ?thesis using Cons.prems Var by (simp add: template_text_Cons substitute_var cong: option.case_cong)
  qed
qed (simp add: template_text_def)

text \<open>
  C30: Rendering a printed template gives its literal text with the values of its variables, or the first
  variable that has no value: every text can be written, with braces escaped, as long as no variable follows a
  literal backslash directly.
\<close>

theorem template_roundtrip:
  assumes "printable False ps"
  shows "substitute vars (template_text ps) = render vars ps"
  using assms by (rule substitute_template)

theorem template_roundtrip_witness:
  "substitute [(''x'', ''1'')] (template_text [Lit ''a{'', Var ''x'', Lit ''}'']) = Inr ''a{1}''"
proof -
  have "printable False [Lit ''a{'', Var ''x'', Lit ''}'']" by (simp add: backslash_def)
  then show ?thesis using template_roundtrip[of "[Lit ''a{'', Var ''x'', Lit ''}'']" "[(''x'', ''1'')]"] by simp
qed


section \<open>Environments, catalogues, results\<close>

lemma get_extend_env:
  "hm_wf plain kvs \<Longrightarrow>
   hm_get plain k (extend_env env kvs) = (case hm_get plain k kvs of Some v \<Rightarrow> Some v | None \<Rightarrow> hm_get plain k env)"
proof (induction kvs arbitrary: env)
  case (Cons kv kvs)
  obtain a b where kv: "kv = (a, b)" by fastforce
  have wf: "hm_wf plain kvs" and new: "a \<notin> fst ` set kvs" using Cons.prems kv by (simp_all add: hm_wf_def comp_def)
  have "hm_get plain a kvs = None" using new by (auto simp: hm_get_None_iff)
  then show ?case using Cons.IH[OF wf, of "hm_insert plain a b env"] kv by (auto simp: extend_env_def hm_get_insert split: option.split)
qed (simp add: extend_env_def)

lemma get_merged_env:
  assumes "hm_wf plain own" "\<forall>p. profile = Some p \<longrightarrow> hm_wf plain (ap_env p)"
  shows "hm_get plain k (merged_env df profile own) =
    (case hm_get plain k own of
       Some v \<Rightarrow> Some v
     | None \<Rightarrow> (case Option.bind profile (\<lambda>p. hm_get plain k (ap_env p)) of Some v \<Rightarrow> Some v | None \<Rightarrow> hm_get plain k (df_env df)))"
  using assms by (auto simp: merged_env_def get_extend_env split: option.split)

lemma map_sum_Inr: "map_sum id f x = Inr y \<longleftrightarrow> (\<exists>z. x = Inr z \<and> y = f z)"
  by (cases x) auto

lemma collect_results_Inr: "collect_results xs = Inr ys \<longleftrightarrow> xs = map Inr ys"
  by (induction xs arbitrary: ys rule: collect_results.induct) (auto simp: map_sum_Inr)

lemma collect_results_ok: "(\<exists>ys. collect_results xs = Inr ys) \<longleftrightarrow> (\<forall>x\<in>set xs. \<exists>y. x = Inr y)"
  by (induction xs rule: collect_results.induct) (auto simp: map_sum_Inr)

section \<open>What renders\<close>

text \<open>
  The templates that render, as a grammar: plain characters, a closing brace among them; escaped braces; a backslash
  before anything else; and the declared variables in braces.
\<close>

inductive template_ok :: "string set \<Rightarrow> string \<Rightarrow> bool" for names where
  template_end: "template_ok names []"
| template_char: "c \<noteq> CHR 0x5C \<Longrightarrow> c \<noteq> CHR ''{'' \<Longrightarrow> template_ok names s \<Longrightarrow> template_ok names (c # s)"
| template_escape: "c = CHR ''{'' \<or> c = CHR ''}'' \<Longrightarrow> template_ok names s \<Longrightarrow> template_ok names (CHR 0x5C # c # s)"
| template_backslash: "s = [] \<or> hd s \<noteq> CHR ''{'' \<and> hd s \<noteq> CHR ''}'' \<Longrightarrow> template_ok names s \<Longrightarrow> template_ok names (CHR 0x5C # s)"
| template_var: "n \<in> names \<Longrightarrow> CHR ''}'' \<notin> set n \<Longrightarrow> template_ok names s \<Longrightarrow> template_ok names (CHR ''{'' # n @ CHR ''}'' # s)"

lemma until_brace_Some: "until_brace s = Some (n, r) \<longleftrightarrow> s = n @ CHR ''}'' # r \<and> CHR ''}'' \<notin> set n"
proof (induction s arbitrary: n)
  case (Cons c s)
  then show ?case by (cases n) auto
qed simp

lemma until_brace_first: "n @ CHR ''}'' # r = n' @ CHR ''}'' # r' \<Longrightarrow> CHR ''}'' \<notin> set n \<Longrightarrow> CHR ''}'' \<notin> set n' \<Longrightarrow> n = n' \<and> r = r'"
  using until_brace_Some[of "n @ CHR ''}'' # r" n r] until_brace_Some[of "n @ CHR ''}'' # r" n' r'] by simp

inductive_cases template_ok_ConsE: "template_ok names (c # s)"

lemma template_ok_Cons:
  "template_ok names (c # s) \<longleftrightarrow>
     (if c = CHR 0x5C
      then (case s of
              d # ds \<Rightarrow> if d = CHR ''{'' \<or> d = CHR ''}'' then template_ok names ds else template_ok names s
            | [] \<Rightarrow> True)
      else if c = CHR ''{'' then \<exists>n r. until_brace s = Some (n, r) \<and> n \<in> names \<and> template_ok names r
      else template_ok names s)"
  (is "_ \<longleftrightarrow> ?r")
proof
  show "template_ok names (c # s) \<Longrightarrow> ?r"
    by (erule template_ok_ConsE) (auto simp: until_brace_Some intro: template_ok.intros split: list.splits)
  assume r: ?r
  consider (escape) d ds where "c = CHR 0x5C" "s = d # ds" "d = CHR ''{'' \<or> d = CHR ''}''"
    | (backslash) "c = CHR 0x5C" "s = [] \<or> hd s \<noteq> CHR ''{'' \<and> hd s \<noteq> CHR ''}''"
    | (other) "c \<noteq> CHR 0x5C" by (cases s) auto
  then show "template_ok names (c # s)"
  proof cases
    case backslash
    then have "template_ok names s" using r by (cases s) (auto intro: template_end)
    then show ?thesis using backslash by (simp add: template_backslash)
  qed (use r in \<open>auto simp: until_brace_Some intro: template_ok.intros split: if_splits\<close>)
qed

lemma substitute_ok: "(\<exists>out. substitute vars s = Inr out) \<longleftrightarrow> template_ok (fst ` set vars) s"
proof (induction vars s rule: substitute.induct)
  case (1 vars)
  show ?case by (simp add: template_ok.intros)
next
  case (2 vars c cs)
  have declared: "hm_get plain n vars = None \<longleftrightarrow> n \<notin> fst ` set vars" for n by (simp add: hm_get_None_iff)
  note unfold = substitute.simps(2)[of vars c cs] template_ok_Cons[of "fst ` set vars" c cs]
  consider (escape) d ds where "c = CHR 0x5C" "cs = d # ds" "d = CHR ''{'' \<or> d = CHR ''}''"
    | (backslash) d ds where "c = CHR 0x5C" "cs = d # ds" "\<not> (d = CHR ''{'' \<or> d = CHR ''}'')"
    | (last) "c = CHR 0x5C" "cs = []" | (var) "c \<noteq> CHR 0x5C" "c = CHR ''{''" | (plain) "c \<noteq> CHR 0x5C" "c \<noteq> CHR ''{''"
    by (cases cs) auto
  then show ?case
  proof cases
    case escape
    show ?thesis using 2(1)[OF escape] escape unfolding unfold by (simp add: map_sum_Inr)
  next
    case backslash
    show ?thesis using 2(2)[OF backslash] backslash unfolding unfold by (simp add: map_sum_Inr)
  next
    case last
    then show ?thesis unfolding unfold by simp
  next
    case var
    show ?thesis
    proof (cases "until_brace cs")
      case (Some nr)
      obtain n r where nr: "nr = (n, r)" by fastforce
      show ?thesis
        using 2(3)[OF var Some nr[symmetric]] declared[of n] var Some nr unfolding unfold
        by (cases "hm_get plain n vars") (auto simp: map_sum_Inr)
    qed (use var unfold in simp)
  next
    case plain
    then show ?thesis using 2(4)[OF plain] unfolding unfold by (simp add: map_sum_Inr)
  qed
qed

text \<open>
  The URLs whose variables can be filled in: every \<open>${\<close> opens a name that a closing brace ends, that starts with
  \<^verbatim>\<open>PITBOSS_NOTIFY_\<close> and that is set; any other character stands for itself.
\<close>

inductive url_ok :: "(string \<Rightarrow> string option) \<Rightarrow> string \<Rightarrow> bool" for lookup where
  url_end: "url_ok lookup []"
| url_char: "\<not> (c = CHR ''$'' \<and> s \<noteq> [] \<and> hd s = CHR ''{'') \<Longrightarrow> url_ok lookup s \<Longrightarrow> url_ok lookup (c # s)"
| url_var: "CHR ''}'' \<notin> set n \<Longrightarrow> take 15 n = ''PITBOSS_NOTIFY_'' \<Longrightarrow> lookup n \<noteq> None \<Longrightarrow> url_ok lookup s \<Longrightarrow>
    url_ok lookup (CHR ''$'' # CHR ''{'' # n @ CHR ''}'' # s)"

inductive_cases url_ok_ConsE: "url_ok lookup (c # s)"

lemma split_brace: "split_first ''}'' s = until_brace s"
  by (induction s) (auto split: option.split)

lemma url_ok_ConsD:
  "url_ok lookup (c # s) \<Longrightarrow> \<not> (c = CHR ''$'' \<and> s \<noteq> [] \<and> hd s = CHR ''{'') \<and> url_ok lookup s \<or>
     (\<exists>n r. c = CHR ''$'' \<and> s = CHR ''{'' # n @ CHR ''}'' # r \<and> CHR ''}'' \<notin> set n \<and> take 15 n = ''PITBOSS_NOTIFY_'' \<and>
        lookup n \<noteq> None \<and> url_ok lookup r)"
  by (erule url_ok_ConsE) auto

lemma url_ok_token:
  "url_ok lookup (CHR ''$'' # CHR ''{'' # s) \<longleftrightarrow>
     (\<exists>n r. until_brace s = Some (n, r) \<and> take 15 n = ''PITBOSS_NOTIFY_'' \<and> lookup n \<noteq> None \<and> url_ok lookup r)"
proof
  show "url_ok lookup (CHR ''$'' # CHR ''{'' # s) \<Longrightarrow>
      \<exists>n r. until_brace s = Some (n, r) \<and> take 15 n = ''PITBOSS_NOTIFY_'' \<and> lookup n \<noteq> None \<and> url_ok lookup r"
    using url_ok_ConsD[of lookup "CHR ''$''" "CHR ''{'' # s"] unfolding until_brace_Some by auto
qed (auto simp: until_brace_Some intro: url_var)

lemma url_ok_plain: "\<not> (c = CHR ''$'' \<and> s \<noteq> [] \<and> hd s = CHR ''{'') \<Longrightarrow> url_ok lookup (c # s) \<longleftrightarrow> url_ok lookup s"
  using url_ok_ConsD[of lookup c s] by (auto intro: url_char)

lemma url_ok_before:
  "split_first ''${'' s = None \<Longrightarrow> url_ok lookup s"
  "split_first ''${'' s = Some (b, a) \<Longrightarrow> url_ok lookup s \<longleftrightarrow> url_ok lookup (CHR ''$'' # CHR ''{'' # a)"
proof -
  have cons: "split_first ''${'' (c # s) = (if c = CHR ''$'' \<and> s \<noteq> [] \<and> hd s = CHR ''{'' then Some ([], tl s)
      else map_option (\<lambda>(b, a). (c # b, a)) (split_first ''${'' s))" for c s
    by (cases s) auto
  show "split_first ''${'' s = None \<Longrightarrow> url_ok lookup s"
    by (induction s) (auto simp: cons simp del: split_first.simps(2) intro: url_ok.intros split: if_splits)
  show "split_first ''${'' s = Some (b, a) \<Longrightarrow> url_ok lookup s \<longleftrightarrow> url_ok lookup (CHR ''$'' # CHR ''{'' # a)"
  proof (induction s arbitrary: b)
    case (Cons c s)
    then show ?case
      by (cases "c = CHR ''$'' \<and> s \<noteq> [] \<and> hd s = CHR ''{''")
        (auto simp: cons url_ok_plain neq_Nil_conv simp del: split_first.simps(2))
  qed simp
qed

lemma starts_with_take: "starts_with s p \<longleftrightarrow> take (length p) s = p"
proof
  show "take (length p) s = p \<Longrightarrow> starts_with s p" unfolding starts_with_iff by (metis append_take_drop_id)
qed (auto simp: starts_with_iff)

lemma substitute_env_ok: "(\<exists>out. substitute_env_vars_with lookup s = Inr out) \<longleftrightarrow> url_ok lookup s"
proof (induction lookup s rule: substitute_env_vars_with.induct)
  case (1 lookup rest)
  have prefix: "starts_with n ENV_VAR_ALLOWED_PREFIX \<longleftrightarrow> take 15 n = ''PITBOSS_NOTIFY_''" for n
    unfolding starts_with_take by (simp add: ENV_VAR_ALLOWED_PREFIX_def eval_nat_numeral)
  show ?case
  proof (cases "split_first ''${'' rest")
    case None
    then show ?thesis using url_ok_before(1) by (simp add: substitute_env_vars_with.simps[of lookup rest])
  next
    case (Some ba)
    obtain b a where ba: "ba = (b, a)" by fastforce
    note unfold = substitute_env_vars_with.simps[of lookup rest] url_ok_before(2)[OF Some[unfolded ba]] url_ok_token
    show ?thesis
    proof (cases "until_brace a")
      case None
      then show ?thesis using Some ba unfolding unfold by (simp add: split_brace)
    next
      case open_name: (Some nr)
      obtain n r where nr: "nr = (n, r)" by fastforce
      have step: "starts_with n ENV_VAR_ALLOWED_PREFIX \<Longrightarrow> lookup n = Some v \<Longrightarrow>
          (\<exists>out. substitute_env_vars_with lookup r = Inr out) \<longleftrightarrow> url_ok lookup r" for v
        by (rule 1 [OF Some ba [symmetric]]) (use open_name nr in \<open>simp_all add: split_brace\<close>)
      show ?thesis
        using step Some ba open_name nr prefix[of n] unfolding unfold
        by (cases "lookup n"; cases "starts_with n ENV_VAR_ALLOWED_PREFIX") (auto simp: split_brace map_sum_Inr)
    qed
  qed
qed

section \<open>Resolving\<close>

definition templates_of :: "Manifest \<Rightarrow> (string \<times> Template) list" where
  "templates_of m = fold (\<lambda>t. hm_insert plain (tp_id t) t) (mf_templates m) []"

definition catalogue_of :: "ResolveEnv \<Rightarrow> Manifest \<Rightarrow> (string \<times> AgentProfile) list" where
  "catalogue_of env m = profile_catalogue (re_builtins env) (mf_agent_profiles m)"

definition profile_declared :: "ResolveEnv \<Rightarrow> Manifest \<Rightarrow> string option \<Rightarrow> bool" where
  "profile_declared env m ref \<longleftrightarrow> (\<forall>i. ref = Some i \<longrightarrow> i \<in> ap_id ` (set (re_builtins env) \<union> set (mf_agent_profiles m)))"

definition known_rule :: "ApprovalRuleSpec \<Rightarrow> bool" where
  "known_rule spec \<longleftrightarrow> as_action spec \<in> {''auto_approve'', ''auto_reject'', ''block''} \<and>
     (\<forall>s. as_category spec = Some s \<longrightarrow> s \<in> {''tool_use'', ''plan'', ''cost'', ''other''})"

lemma catalogue_keys: "hm_get plain i (profile_catalogue bs ps) = None \<longleftrightarrow> i \<notin> ap_id ` (set bs \<union> set ps)"
proof -
  have "hm_get plain i (fold (\<lambda>p. hm_insert plain (ap_id p) p) qs m) = None \<longleftrightarrow> i \<notin> ap_id ` set qs \<and> hm_get plain i m = None" for qs m
    by (induction qs arbitrary: m) (auto simp: hm_get_insert)
  from this[of "bs @ ps" "[]"] show ?thesis unfolding profile_catalogue_def set_append by simp
qed

lemma lookup_profile_ok: "(\<exists>p. lookup_profile (catalogue_of env m) ref = Inr p) \<longleftrightarrow> profile_declared env m ref"
proof (cases ref)
  case (Some i)
  show ?thesis
    using catalogue_keys[of i "re_builtins env" "mf_agent_profiles m"] Some
    by (cases "hm_get plain i (catalogue_of env m)") (simp_all add: lookup_profile_def profile_declared_def catalogue_of_def)
qed (simp add: lookup_profile_def profile_declared_def)

lemma known_rule_ok: "(\<exists>r. resolve_approval_rule spec = Inr r) \<longleftrightarrow> known_rule spec"
  by (auto simp: resolve_approval_rule_def known_rule_def Let_def split: option.split)

lemma resolve_task_ok: "(\<exists>t. resolve_task task df ts p = Inr t) \<longleftrightarrow> (\<exists>s. raw_prompt ts task = Inr s)"
  by (cases "raw_prompt ts task") (simp_all add: resolve_task_def)

lemma task_step_ok:
  "(\<exists>t. (case lookup_profile (catalogue_of env m) ref of Inl e \<Rightarrow> Inl e | Inr profile \<Rightarrow> resolve_task task df ts profile) = Inr t) \<longleftrightarrow>
   profile_declared env m ref \<and> (\<exists>s. raw_prompt ts task = Inr s)"
  using lookup_profile_ok[of env m ref] resolve_task_ok[of task df ts]
  by (cases "lookup_profile (catalogue_of env m) ref") auto

lemma resolve_tasks_ok:
  "(\<exists>ts. resolve_tasks (catalogue_of env m) templates m = Inr ts) \<longleftrightarrow>
   (\<forall>task\<in>set (mf_tasks m). profile_declared env m (tk_agent_profile task) \<and> (\<exists>s. raw_prompt templates task = Inr s))"
  unfolding resolve_tasks_def collect_results_ok set_map ball_simps task_step_ok ..

lemma resolve_the_lead_ok:
  "(\<exists>l. resolve_the_lead (catalogue_of env m) m = Inr l) \<longleftrightarrow> (\<forall>l. mf_lead m = Some l \<longrightarrow> profile_declared env m (le_agent_profile l))"
proof (cases "mf_lead m")
  case (Some l)
  then show ?thesis using lookup_profile_ok[of env m "le_agent_profile l"]
    by (cases "lookup_profile (catalogue_of env m) (le_agent_profile l)") (auto simp: resolve_the_lead_def)
qed (simp add: resolve_the_lead_def)

text \<open>A task that has exactly one of prompt and template, the template declared and such that it renders.\<close>

definition prompt_ok :: "Manifest \<Rightarrow> Task \<Rightarrow> bool" where
  "prompt_ok m task \<longleftrightarrow>
     (tk_prompt task \<noteq> None \<and> tk_template task = None) \<or>
     (tk_prompt task = None \<and>
      (\<exists>before t after. mf_templates m = before @ t # after \<and> tk_template task = Some (tp_id t) \<and>
         tp_id t \<notin> tp_id ` set after \<and> template_ok (fst ` set (tk_vars task)) (tp_prompt t)))"

lemma last_inserted:
  "hm_get plain i (fold (\<lambda>t. hm_insert plain (f t) t) ts m) =
     (case find (\<lambda>t. f t = i) (rev ts) of Some t \<Rightarrow> Some t | None \<Rightarrow> hm_get plain i m)"
  by (induction ts rule: rev_induct) (auto simp: hm_get_insert)

lemma find_rev_Some:
  "find P (rev xs) = Some x \<longleftrightarrow> (\<exists>before after. xs = before @ x # after \<and> P x \<and> (\<forall>y \<in> set after. \<not> P y))"
proof (induction xs rule: rev_induct)
  case (snoc y ys)
  show ?case
  proof (cases "P y")
    case True
    have "ys @ [y] = before @ x # after \<Longrightarrow> \<forall>z \<in> set after. \<not> P z \<Longrightarrow> y = x" for before after
      using True by (cases after rule: rev_cases) auto
    moreover have "\<exists>before after. ys @ [y] = before @ y # after \<and> (\<forall>z \<in> set after. \<not> P z)"
      by (rule exI[of _ ys]) auto
    ultimately show ?thesis using True by auto
  next
    case False
    have "(\<exists>before after. ys @ [y] = before @ x # after \<and> P x \<and> (\<forall>z \<in> set after. \<not> P z)) \<longleftrightarrow>
        (\<exists>before after. ys = before @ x # after \<and> P x \<and> (\<forall>z \<in> set after. \<not> P z))"
    proof
      assume "\<exists>before after. ys @ [y] = before @ x # after \<and> P x \<and> (\<forall>z \<in> set after. \<not> P z)"
      then obtain before after where split: "ys @ [y] = before @ x # after" "P x" "\<forall>z \<in> set after. \<not> P z" by blast
      then have "after \<noteq> []" using False by auto
      then have "ys = before @ x # butlast after" using split(1) by (metis butlast.simps(2) butlast_append butlast_snoc list.distinct(1))
      then show "\<exists>before after. ys = before @ x # after \<and> P x \<and> (\<forall>z \<in> set after. \<not> P z)"
        using split by (metis in_set_butlastD)
    next
      assume "\<exists>before after. ys = before @ x # after \<and> P x \<and> (\<forall>z \<in> set after. \<not> P z)"
      then obtain before after where split: "ys = before @ x # after" "P x" "\<forall>z \<in> set after. \<not> P z" by blast
      then show "\<exists>before after. ys @ [y] = before @ x # after \<and> P x \<and> (\<forall>z \<in> set after. \<not> P z)"
        using False by (intro exI[of _ before] exI[of _ "after @ [y]"]) auto
    qed
    then show ?thesis using False snoc by simp
  qed
qed simp

lemma raw_prompt_ok: "(\<exists>s. raw_prompt (templates_of m) task = Inr s) \<longleftrightarrow> prompt_ok m task"
proof (cases "tk_prompt task = None \<and> tk_template task \<noteq> None")
  case True
  then obtain i where i: "tk_template task = Some i" by auto
  have "hm_get plain i (templates_of m) = find (\<lambda>t. tp_id t = i) (rev (mf_templates m))"
    by (simp add: templates_of_def last_inserted split: option.split)
  then have "(\<exists>s. raw_prompt (templates_of m) task = Inr s) \<longleftrightarrow>
      (\<exists>t. find (\<lambda>t. tp_id t = i) (rev (mf_templates m)) = Some t \<and> template_ok (fst ` set (tk_vars task)) (tp_prompt t))"
    using True i substitute_ok by (auto simp: raw_prompt_def split: option.splits)
  also have "\<dots> \<longleftrightarrow> prompt_ok m task"
    using True i unfolding prompt_ok_def find_rev_Some by (auto simp: image_iff) (metis (no_types))+
  finally show ?thesis .
qed (auto simp: raw_prompt_def prompt_ok_def split: option.splits)

text \<open>
  C28: A manifest is resolved exactly when the ids of its profiles are distinct; every profile a task or the lead
  names is bundled or declared; every task has a prompt and no template, or no prompt and a template whose last
  declaration renders, that is, is made of plain text, escaped braces and closed, declared variables; in every
  notification URL each \<^verbatim>\<open>${\<close> opens a closed name that starts with \<^verbatim>\<open>PITBOSS_NOTIFY_\<close> and is set; and the actions
  and categories of the approval rules are among the known words.
\<close>

theorem resolve_iff:
  "(\<exists>r. resolve env m mx = Inr r) \<longleftrightarrow>
   distinct (map ap_id (mf_agent_profiles m)) \<and>
   (\<forall>task\<in>set (mf_tasks m). profile_declared env m (tk_agent_profile task) \<and> prompt_ok m task) \<and>
   (\<forall>l. mf_lead m = Some l \<longrightarrow> profile_declared env m (le_agent_profile l)) \<and>
   (\<forall>n\<in>set (mf_notification m). \<forall>url. nc_url n = Some url \<longrightarrow> url_ok (re_var env) url) \<and>
   (\<forall>spec\<in>set (mf_approval_policy_rules m).
      as_action spec \<in> {''auto_approve'', ''auto_reject'', ''block''} \<and>
      (\<forall>s. as_category spec = Some s \<longrightarrow> s \<in> {''tool_use'', ''plan'', ''cost'', ''other''}))"
proof -
  have fresh_ids: "check_fresh ReDuplicateProfile [] (map ap_id (mf_agent_profiles m)) = Inr () \<longleftrightarrow> distinct (map ap_id (mf_agent_profiles m))"
    by (simp add: check_fresh_ok)
  have "(\<exists>n'. apply_env_substitution_with (re_var env) n = Inr n') \<longleftrightarrow> (\<forall>url. nc_url n = Some url \<longrightarrow> url_ok (re_var env) url)" for n
    using substitute_env_ok[of "re_var env"] by (auto simp: apply_env_substitution_with_def map_sum_Inr split: option.split)
  then have ns: "(\<exists>ns. collect_results (map (apply_env_substitution_with (re_var env)) (mf_notification m)) = Inr ns) \<longleftrightarrow>
      (\<forall>n\<in>set (mf_notification m). \<forall>url. nc_url n = Some url \<longrightarrow> url_ok (re_var env) url)" by (simp add: collect_results_ok)
  have rules: "(\<exists>rs. collect_results (map resolve_approval_rule (mf_approval_policy_rules m)) = Inr rs) \<longleftrightarrow>
      (\<forall>spec\<in>set (mf_approval_policy_rules m). known_rule spec)" by (simp add: collect_results_ok known_rule_ok)
  have "(\<exists>r. resolve env m mx = Inr r) \<longleftrightarrow>
      check_fresh ReDuplicateProfile [] (map ap_id (mf_agent_profiles m)) = Inr () \<and>
      (\<exists>ts. resolve_tasks (catalogue_of env m) (templates_of m) m = Inr ts) \<and>
      (\<exists>l. resolve_the_lead (catalogue_of env m) m = Inr l) \<and>
      (\<exists>ns. collect_results (map (apply_env_substitution_with (re_var env)) (mf_notification m)) = Inr ns) \<and>
      (\<exists>rs. collect_results (map resolve_approval_rule (mf_approval_policy_rules m)) = Inr rs)"
    unfolding resolve_def Let_def catalogue_of_def[symmetric] templates_of_def[symmetric]
    by (auto split: option.splits sum.splits)
  then show ?thesis unfolding fresh_ids resolve_tasks_ok resolve_the_lead_ok ns rules raw_prompt_ok known_rule_def .
qed


section \<open>What the operator wrote\<close>

text \<open>The fields of a resolved manifest that the theorems below rest on.\<close>

lemma resolve_parts:
  assumes "resolve env m mx = Inr r"
  shows "resolve_tasks (catalogue_of env m) (templates_of m) m = Inr (tasks r)"
    "resolve_the_lead (catalogue_of env m) m = Inr (lead r)"
    "max_parallel_tasks r = (if lead r \<noteq> None then None
       else Some (first_some [rf_max_parallel_tasks (mf_run m), mx] DEFAULT_MAX_PARALLEL_TASKS))"
  using assms unfolding resolve_def Let_def catalogue_of_def[symmetric] templates_of_def[symmetric]
  by (auto split: option.splits sum.splits)

lemma resolved_task_at:
  assumes "resolve_tasks cat ts m = Inr rs" "i < length (mf_tasks m)"
  shows "length rs = length (mf_tasks m)"
    "\<exists>profile. lookup_profile cat (tk_agent_profile (mf_tasks m ! i)) = Inr profile \<and>
       resolve_task (mf_tasks m ! i) (mf_defaults m) ts profile = Inr (rs ! i)"
proof -
  let ?f = "\<lambda>task. case lookup_profile cat (tk_agent_profile task) of Inl e \<Rightarrow> Inl e | Inr profile \<Rightarrow> resolve_task task (mf_defaults m) ts profile"
  have eq: "map ?f (mf_tasks m) = map Inr rs" using assms(1) unfolding resolve_tasks_def collect_results_Inr .
  show len: "length rs = length (mf_tasks m)" using arg_cong[OF eq, of length] by simp
  have "?f (mf_tasks m ! i) = Inr (rs ! i)" using arg_cong[OF eq, of "\<lambda>xs. xs ! i"] assms(2) len by (simp only: nth_map)
  then show "\<exists>profile. lookup_profile cat (tk_agent_profile (mf_tasks m ! i)) = Inr profile \<and>
       resolve_task (mf_tasks m ! i) (mf_defaults m) ts profile = Inr (rs ! i)" by (auto split: sum.splits)
qed

lemma compose_prompt_suffix: "\<exists>prelude. compose_prompt profile s = prelude @ s"
  by (auto simp: compose_prompt_def split: option.split)

text \<open>The value of the first source that has one, written out.\<close>

lemma first_some_cases:
  "first_some [a] d = (case a of Some v \<Rightarrow> v | None \<Rightarrow> d)"
  "first_some [a, b] d = (case a of Some v \<Rightarrow> v | None \<Rightarrow> (case b of Some v \<Rightarrow> v | None \<Rightarrow> d))"
  "first_some [a, b, c] d =
     (case a of Some v \<Rightarrow> v | None \<Rightarrow> (case b of Some v \<Rightarrow> v | None \<Rightarrow> (case c of Some v \<Rightarrow> v | None \<Rightarrow> d)))"
  by (simp_all split: option.split)

lemma catalogue_get: "hm_get plain i (catalogue_of env m) = find (\<lambda>p. ap_id p = i) (rev (re_builtins env @ mf_agent_profiles m))"
  unfolding catalogue_of_def profile_catalogue_def last_inserted by (simp split: option.split)

text \<open>
  C29: What a task resolves to, field by field. The tasks keep their order; id, directory and branch are those of the
  task; the prompt ends with the operator's own text, or the rendered template. Model and tools come from the task,
  else from the defaults, else from the profile, else from the built-in values; timeout, effort and the use of a
  worktree from the task, else from the defaults, else from the built-in values. The profile is the one of the
  manifest, or else the bundled one, with the id the task names. Of the environment, a variable of the task wins
  over the profile's and that over the default.
\<close>

theorem operator_wins:
  assumes "resolve env m mx = Inr r" "i < length (mf_tasks m)" "t = mf_tasks m ! i" "hm_wf plain (tk_env t)"
    "\<forall>p\<in>set (re_builtins env @ mf_agent_profiles m). hm_wf plain (ap_env p)"
    and df: "df = mf_defaults m"
    and profile: "profile = Option.bind (tk_agent_profile t) (\<lambda>i. find (\<lambda>p. ap_id p = i) (rev (re_builtins env @ mf_agent_profiles m)))"
  shows "length (tasks r) = length (mf_tasks m) \<and> task_id (tasks r ! i) = tk_id t \<and>
    task_directory (tasks r ! i) = tk_directory t \<and> task_branch (tasks r ! i) = tk_branch t \<and>
    (\<exists>prelude body. raw_prompt (templates_of m) t = Inr body \<and> (\<forall>p. tk_prompt t = Some p \<longrightarrow> body = p) \<and>
       task_prompt (tasks r ! i) = prelude @ body) \<and>
    task_model (tasks r ! i) =
      (case tk_model t of Some v \<Rightarrow> v | None \<Rightarrow> (case df_model df of Some v \<Rightarrow> v | None \<Rightarrow>
         (case Option.bind profile ap_model of Some v \<Rightarrow> v | None \<Rightarrow> ''claude-sonnet-4-6''))) \<and>
    task_tools (tasks r ! i) =
      (case tk_tools t of Some v \<Rightarrow> v | None \<Rightarrow> (case df_tools df of Some v \<Rightarrow> v | None \<Rightarrow>
         (case Option.bind profile ap_tools of Some v \<Rightarrow> v
          | None \<Rightarrow> [''Read'', ''Write'', ''Edit'', ''Bash'', ''Glob'', ''Grep'']))) \<and>
    task_timeout_secs (tasks r ! i) =
      (case tk_timeout_secs t of Some v \<Rightarrow> v | None \<Rightarrow> (case df_timeout_secs df of Some v \<Rightarrow> v | None \<Rightarrow> 3600)) \<and>
    task_effort (tasks r ! i) = (case tk_effort t of Some v \<Rightarrow> v | None \<Rightarrow> (case df_effort df of Some v \<Rightarrow> v | None \<Rightarrow> High)) \<and>
    task_use_worktree (tasks r ! i) =
      (case tk_use_worktree t of Some v \<Rightarrow> v | None \<Rightarrow> (case df_use_worktree df of Some v \<Rightarrow> v | None \<Rightarrow> True)) \<and>
    (\<forall>k. hm_get plain k (task_env (tasks r ! i)) =
       (case hm_get plain k (tk_env t) of
          Some v \<Rightarrow> Some v
        | None \<Rightarrow> (case Option.bind profile (\<lambda>p. hm_get plain k (ap_env p)) of Some v \<Rightarrow> Some v | None \<Rightarrow> hm_get plain k (df_env df))))"
proof -
  note at = resolved_task_at[OF resolve_parts(1)[OF assms(1)] assms(2), folded assms(3) df]
  obtain q where p: "lookup_profile (catalogue_of env m) (tk_agent_profile t) = Inr q"
    and res: "resolve_task t df (templates_of m) q = Inr (tasks r ! i)" using at(2) by blast
  have q: "q = profile"
    using p profile by (auto simp: lookup_profile_def catalogue_get split: option.splits)
  obtain body where body: "raw_prompt (templates_of m) t = Inr body" using res by (auto simp: resolve_task_def map_sum_Inr)
  have own: "\<forall>p. tk_prompt t = Some p \<longrightarrow> body = p" using body by (auto simp: raw_prompt_def split: option.splits)
  note fields = res[unfolded resolve_task_def body map_sum.simps sum.inject q, symmetric]
  have "q \<in> set (re_builtins env @ mf_agent_profiles m)" if "profile = Some q" for q
    using that unfolding profile bind_eq_Some_conv find_rev_Some by (metis in_set_conv_decomp)
  then have "\<forall>q. profile = Some q \<longrightarrow> hm_wf plain (ap_env q)" using assms(5) by blast
  note merged = get_merged_env[OF assms(4) this, of _ df]
  show ?thesis
    unfolding fields ResolvedTask.simps first_some_cases merged DEFAULT_MODEL_def default_tools_def DEFAULT_TIMEOUT_SECS_def
    using at(1) body own compose_prompt_suffix[of profile body] by blast
qed

section \<open>Loading\<close>

lemma loaded_parts:
  "load_manifest out env parse expand skip text mx = Inr r \<Longrightarrow>
   \<exists>m. resolve env m mx = Inr r \<and> validate_inner out skip r = Inr ()"
  by (auto simp: load_manifest_def split: option.splits sum.splits)

text \<open>
  C27: A manifest that loads is either hierarchical or has tasks, never both; a flat one has distinct task ids and a
  positive number of permits, so the dispatcher does not panic and the run it starts is never stuck before it is
  finished.
\<close>

theorem loaded_flat_runs:
  assumes "load_manifest out env parse expand skip text mx = Inr r"
  shows "(lead r \<noteq> None \<longleftrightarrow> tasks r = []) \<and>
    (lead r = None \<longrightarrow> distinct (map task_id (tasks r)) \<and>
       (\<exists>c. flat_config r result = Some c \<and> 0 < fc_tasks c \<and>
          (\<forall>s. flat_reach c (start_flat c) s \<longrightarrow> fr_phase s \<noteq> Finished \<longrightarrow> (\<exists>t. flat_step c s t))))"
proof -
  obtain m where m: "resolve env m mx = Inr r" and ok: "validate_inner out skip r = Inr ()" using loaded_parts[OF assms] by blast
  have wf: "wf_run out r" "case lead r of Some l \<Rightarrow> wf_lead out skip r l | None \<Rightarrow> wf_tasks out skip r"
    using ok unfolding validate_ok by simp_all
  have mode: "lead r \<noteq> None \<longleftrightarrow> tasks r = []" using wf(1) by (auto simp: wf_run_def)
  have "distinct (map task_id (tasks r)) \<and>
      (\<exists>c. flat_config r result = Some c \<and> 0 < fc_tasks c \<and>
        (\<forall>s. flat_reach c (start_flat c) s \<longrightarrow> fr_phase s \<noteq> Finished \<longrightarrow> (\<exists>t. flat_step c s t)))" if flat: "lead r = None"
  proof -
    have tasks: "wf_tasks out skip r" using wf(2) flat by simp
    obtain n where n: "max_parallel_tasks r = Some n" using resolve_parts(3)[OF m] flat by simp
    then have pos: "0 < unat n" using tasks by (auto simp: wf_tasks_def word_gt_0 unat_gt_0)
    define c where "c = \<lparr>fc_tasks = length (tasks r), fc_max_parallel = unat n, fc_halt = halt_on_failure r, fc_result = result\<rparr>"
    have "\<exists>t. flat_step c s t" if "flat_reach c (start_flat c) s" "fr_phase s \<noteq> Finished" for s
      by (rule unfinished_steps[OF _ _ that(2)]) (use flat_inv_reach[OF that(1)] start_inv pos in \<open>simp_all add: c_def\<close>)
    moreover have "0 < fc_tasks c" using mode flat by (simp add: c_def)
    ultimately show ?thesis using tasks n by (simp add: flat_config_def c_def wf_tasks_def)
  qed
  then show ?thesis using mode by blast
qed


section \<open>A concrete manifest\<close>

definition mini_task :: Task where
  "mini_task = \<lparr>tk_id = ''t'', tk_directory = ''/r'', tk_prompt = Some ''go'', tk_template = None, tk_vars = [], tk_branch = None,
     tk_model = Some ''m'', tk_effort = None, tk_tools = Some [], tk_timeout_secs = None, tk_use_worktree = None,
     tk_env = [(''K'', ''1'')], tk_agent_profile = None\<rparr>"

definition mini_run :: RunConfig where
  "mini_run = \<lparr>rf_name = None, rf_max_parallel_tasks = None, rf_halt_on_failure = False, rf_run_dir = None, rf_worktree_cleanup = WtOnSuccess,
     rf_emit_event_stream = False, rf_resource_sample_secs = 5, rf_claude_setting_sources = None, rf_default_approval_policy = None,
     rf_denial_termination_policy = None, rf_dump_shared_store = False, rf_require_plan_approval = False,
     rf_require_actor_type = False, rf_untyped_actor_policy = UntypedBridge\<rparr>"

definition mini_manifest :: Manifest where
  "mini_manifest = \<lparr>mf_run = mini_run,
     mf_defaults = \<lparr>df_model = Some ''d'', df_effort = None, df_tools = None, df_timeout_secs = None, df_use_worktree = None, df_env = [(''K'', ''0'')]\<rparr>,
     mf_templates = [], mf_agent_profiles = [], mf_tasks = [mini_task], mf_lead = None, mf_sublead_defaults = None, mf_notification = [],
     mf_approval_policy_rules = [], mf_container = None, mf_mcp_servers = [], mf_worker_types = [], mf_sublead_types = [],
     mf_communication = communication base_manifest, mf_lifecycle = None\<rparr>"

definition mini_env :: ResolveEnv where
  "mini_env = \<lparr>re_builtins = [], re_runs_base_dir = ''/runs'', re_var = (\<lambda>_. None)\<rparr>"

definition mini_resolved :: ResolvedManifest where
  "mini_resolved = base_manifest\<lparr>max_parallel_tasks := Some 4,
     tasks := [\<lparr>task_id = ''t'', task_directory = ''/r'', task_prompt = ''go'', task_branch = None, task_model = ''m'', task_effort = High,
       task_tools = [], task_timeout_secs = 3600, task_use_worktree = True, task_env = [(''K'', ''1'')], task_resume_session_id = None\<rparr>]\<rparr>"

lemma mini_resolve: "resolve mini_env mini_manifest None = Inr mini_resolved"
  by (simp add: resolve_def resolve_tasks_def resolve_the_lead_def resolve_task_def raw_prompt_def lookup_profile_def compose_prompt_def
      merged_env_def extend_env_def profile_catalogue_def mini_manifest_def mini_env_def mini_task_def mini_run_def mini_resolved_def
      base_manifest_def DEFAULT_TIMEOUT_SECS_def DEFAULT_MAX_PARALLEL_TASKS_def)

lemma mini_valid: "validate_inner wit_outside True mini_resolved = Inr ()"
proof -
  have "is_valid_type_id ''t''" by (simp add: is_valid_type_id_def id_char_def ascii_alphanumeric_def)
  then show ?thesis
    by (simp add: validate_ok wf_run_def wf_container_def wf_types_def wf_servers_def wf_profiles_def wf_tasks_def mini_resolved_def
        base_manifest_def tool_surfaces_def branch_target_def List.map_filter_simps)
qed

lemma mini_load: "load_manifest wit_outside mini_env (\<lambda>_. Some mini_manifest) Some True [] None = Inr mini_resolved"
proof -
  have "expand_paths Some mini_manifest = Inr mini_manifest"
    by (simp add: expand_paths_def mini_manifest_def mini_task_def mini_run_def)
  then show ?thesis by (simp add: load_manifest_def mini_resolve mini_valid)
qed

theorem resolve_iff_witness:
  "(\<exists>r. resolve mini_env mini_manifest None = Inr r) \<and>
   (\<exists>r. resolve mini_env (mini_manifest\<lparr>mf_tasks := [mini_task\<lparr>tk_agent_profile := Some ''x''\<rparr>]\<rparr>) None = Inr r) = False"
  using mini_resolve resolve_iff[of mini_env "mini_manifest\<lparr>mf_tasks := [mini_task\<lparr>tk_agent_profile := Some ''x''\<rparr>]\<rparr>" None]
  by (simp add: profile_declared_def mini_env_def mini_manifest_def)

theorem operator_wins_witness:
  "task_model (tasks mini_resolved ! 0) = ''m'' \<and> task_use_worktree (tasks mini_resolved ! 0) \<and>
   hm_get plain ''K'' (task_env (tasks mini_resolved ! 0)) = Some ''1''"
  using operator_wins[OF mini_resolve, of 0 mini_task "mf_defaults mini_manifest" None]
  by (simp add: mini_manifest_def mini_task_def mini_env_def hm_wf_def)

theorem loaded_flat_runs_witness:
  "\<exists>c. flat_config mini_resolved (\<lambda>_. Returns failed_rec) = Some c \<and> 0 < fc_tasks c \<and> (\<exists>t. flat_step c (start_flat c) t)"
proof -
  have "lead mini_resolved = None" by (simp add: mini_resolved_def base_manifest_def)
  then obtain c where c: "flat_config mini_resolved (\<lambda>_. Returns failed_rec) = Some c" "0 < fc_tasks c"
    "\<forall>s. flat_reach c (start_flat c) s \<longrightarrow> fr_phase s \<noteq> Finished \<longrightarrow> (\<exists>t. flat_step c s t)"
    using loaded_flat_runs[OF mini_load, of "\<lambda>_. Returns failed_rec"] by blast
  then show ?thesis using flat_refl[of c "start_flat c"] by (auto simp: start_flat_def)
qed

end
