(* ===== verification/Notify_Router.thy ===== *)
theory Notify_Router
  imports Approval Validate
begin

text \<open>
  The notification router (\<^verbatim>\<open>notify/mod.rs\<close>): envelopes and their keys, filters, deduplication, retries and the
  accounting of failures. The LRU cache is the crate \<^verbatim>\<open>lru\<close>: its two operations are arguments, with their
  documented behaviour as the locale \<^verbatim>\<open>lru_cache\<close>. What a sink answers to each attempt is an input.
\<close>

section \<open>Envelopes\<close>

fun event_kind :: "PitbossEvent \<Rightarrow> string" where
  "event_kind (PeApprovalRequest _ _ _) = ''approval_request''"
| "event_kind (PeApprovalPending _ _ _) = ''approval_pending''"
| "event_kind (PeRunDispatched _ _ _ _ _) = ''run_dispatched''"
| "event_kind (PeRunFinished _ _ _ _ _) = ''run_finished''"
| "event_kind (PeBudgetExceeded _ _ _) = ''budget_exceeded''"

fun discriminator :: "PitbossEvent \<Rightarrow> string option" where
  "discriminator (PeApprovalRequest request_id _ _) = Some request_id"
| "discriminator (PeApprovalPending request_id _ _) = Some request_id"
| "discriminator (PeRunDispatched _ _ _ _ _) = None"
| "discriminator (PeRunFinished _ _ _ _ _) = None"
| "discriminator (PeBudgetExceeded _ _ _) = Some ''first''"

record NotificationEnvelope =
  ne_dedup_key :: string
  ne_severity :: Severity
  ne_event :: PitbossEvent
  ne_ts :: int
  ne_source :: string

definition new_envelope :: "string \<Rightarrow> Severity \<Rightarrow> PitbossEvent \<Rightarrow> int \<Rightarrow> NotificationEnvelope" where
  "new_envelope rid severity event ts =
     \<lparr>ne_dedup_key =
        (case discriminator event of
           Some d \<Rightarrow> rid @ '':'' @ event_kind event @ '':'' @ d
         | None \<Rightarrow> rid @ '':'' @ event_kind event),
      ne_severity = severity, ne_event = event, ne_ts = ts, ne_source = rid\<rparr>"

section \<open>Filters\<close>

fun severity_rank :: "Severity \<Rightarrow> nat" where
  "severity_rank SevInfo = 0"
| "severity_rank SevWarning = 1"
| "severity_rank SevError = 2"
| "severity_rank SevCritical = 3"

record SinkFilter =
  sf_events :: "string list option"
  sf_severity_min :: Severity

definition filter_of :: "NotificationConfig \<Rightarrow> SinkFilter" where
  "filter_of cfg = \<lparr>sf_events = nc_events cfg, sf_severity_min = nc_severity_min cfg\<rparr>"

definition filter_matches :: "SinkFilter \<Rightarrow> NotificationEnvelope \<Rightarrow> bool" where
  "filter_matches f env =
     (if severity_rank (ne_severity env) < severity_rank (sf_severity_min f) then False
      else (case sf_events f of
              Some allowed \<Rightarrow> event_kind (ne_event env) \<in> set allowed
            | None \<Rightarrow> True))"

section \<open>The router\<close>

definition DEFAULT_DEDUP_CACHE_SIZE :: nat where
  "DEFAULT_DEDUP_CACHE_SIZE = 64"

fun usize_value :: "nat \<Rightarrow> string \<Rightarrow> nat option" where
  "usize_value acc [] = Some acc"
| "usize_value acc (c # cs) =
     (let n = of_char c :: nat in
      if 48 \<le> n \<and> n \<le> 57 \<and> acc * 10 + (n - 48) < 2 ^ 64 then usize_value (acc * 10 + (n - 48)) cs else None)"

definition parse_usize :: "string \<Rightarrow> nat option" where
  "parse_usize s =
     (let ds = (case s of c # cs \<Rightarrow> if c = CHR ''+'' then cs else s | [] \<Rightarrow> []) in if ds = [] then None else usize_value 0 ds)"

definition parse_dedup_cache_size :: "string option \<Rightarrow> nat" where
  "parse_dedup_cache_size raw =
     (case Option.bind raw (\<lambda>s. parse_usize (trim s)) of
        Some n \<Rightarrow> if n > 0 then n else DEFAULT_DEDUP_CACHE_SIZE
      | None \<Rightarrow> DEFAULT_DEDUP_CACHE_SIZE)"

record 'c Lru =
  lru_new :: "nat \<Rightarrow> 'c"
  lru_contains :: "string \<Rightarrow> 'c \<Rightarrow> bool"
  lru_put :: "string \<Rightarrow> 'c \<Rightarrow> 'c"

record 'c NotificationRouter =
  nr_sinks :: "(string \<times> SinkFilter) list"
  nr_dedup_cache :: 'c
  nr_failed_emits_total :: u64
  nr_run_subdir :: "string option"
  nr_journal :: "(string \<times> TaskEvent) list"

definition new_with_capacity :: "'c Lru \<Rightarrow> (string \<times> SinkFilter) list \<Rightarrow> nat \<Rightarrow> 'c NotificationRouter" where
  "new_with_capacity lru sinks capacity =
     \<lparr>nr_sinks = sinks, nr_dedup_cache = lru_new lru (max capacity 1), nr_failed_emits_total = 0, nr_run_subdir = None, nr_journal = []\<rparr>"

definition new_router :: "'c Lru \<Rightarrow> (string \<Rightarrow> string option) \<Rightarrow> (string \<times> SinkFilter) list \<Rightarrow> 'c NotificationRouter" where
  "new_router lru var sinks =
     new_with_capacity lru sinks (parse_dedup_cache_size (var ''PITBOSS_NOTIFY_DEDUP_CACHE_SIZE''))"

definition set_run_subdir :: "string \<Rightarrow> 'c NotificationRouter \<Rightarrow> 'c NotificationRouter" where
  "set_run_subdir dir r = r\<lparr>nr_run_subdir := Some dir\<rparr>"

text \<open>Dispatching spawns one job for every sink that takes the envelope, unless its key is in the cache.\<close>

record EmitJob =
  ej_sink_id :: string
  ej_envelope :: NotificationEnvelope
  ej_run_subdir :: "string option"

definition dispatch :: "'c Lru \<Rightarrow> NotificationEnvelope \<Rightarrow> 'c NotificationRouter \<Rightarrow> EmitJob list \<times> 'c NotificationRouter" where
  "dispatch lru env r =
     (if lru_contains lru (ne_dedup_key env) (nr_dedup_cache r) then ([], r)
      else (map (\<lambda>(sink, _). \<lparr>ej_sink_id = sink, ej_envelope = env, ej_run_subdir = nr_run_subdir r\<rparr>)
              (filter (\<lambda>(_, f). filter_matches f env) (nr_sinks r)),
            r\<lparr>nr_dedup_cache := lru_put lru (ne_dedup_key env) (nr_dedup_cache r)\<rparr>))"

fun dispatch_all :: "'c Lru \<Rightarrow> NotificationEnvelope list \<Rightarrow> 'c NotificationRouter \<Rightarrow> EmitJob list \<times> 'c NotificationRouter" where
  "dispatch_all lru [] r = ([], r)"
| "dispatch_all lru (env # envs) r =
     (let (jobs, r) = dispatch lru env r;
          (later, r) = dispatch_all lru envs r
      in (jobs @ later, r))"

section \<open>Jobs\<close>

datatype EmitError = HttpStatus nat string | OtherError string

fun error_text :: "EmitError \<Rightarrow> string" where
  "error_text (HttpStatus _ t) = t"
| "error_text (OtherError t) = t"

fun is_fatal :: "EmitError \<Rightarrow> bool" where
  "is_fatal (HttpStatus status _) \<longleftrightarrow> 400 \<le> status \<and> status < 500 \<and> status \<noteq> 429"
| "is_fatal (OtherError _) \<longleftrightarrow> False"

text \<open>
  One attempt of the webhook sink: \<open>send\<close> posts the envelope with a client and gives the status of the response or
  the text of a transport error; the texts of errors and of statuses are arguments.
\<close>

definition webhook_emit ::
  "(string \<Rightarrow> Url option) \<Rightarrow> (string \<Rightarrow> u16 \<Rightarrow> (IpAddr \<times> u16) list option) \<Rightarrow> (NotifyError \<Rightarrow> string) \<Rightarrow> (nat \<Rightarrow> string) \<Rightarrow>
   (Client \<Rightarrow> string \<Rightarrow> NotificationEnvelope \<Rightarrow> string + nat) \<Rightarrow> WebhookSink \<Rightarrow> NotificationEnvelope \<Rightarrow> EmitError option" where
  "webhook_emit parse lookup_host error_message status_text send sink env =
     (case webhook_client parse lookup_host sink of
        Inl e \<Rightarrow> Some (OtherError (error_message e))
      | Inr client \<Rightarrow>
          (case send client (ws_url sink) env of
             Inl e \<Rightarrow> Some (OtherError e)
           | Inr status \<Rightarrow>
               if 200 \<le> status \<and> status < 300 then None
               else if 400 \<le> status \<and> status < 500 then Some (HttpStatus status (status_text status))
               else Some (OtherError (''webhook POST failed with status '' @ status_text status))))"

definition backoffs :: "nat list" where
  "backoffs = [100, 300, 900]"

text \<open>The loop over the backoffs: the error if it fails, the delays it slept, the attempts it made.\<close>

fun retry_loop :: "(nat \<Rightarrow> EmitError option) \<Rightarrow> nat \<Rightarrow> nat list \<Rightarrow> EmitError option \<times> nat list \<times> nat" where
  "retry_loop answer attempt [] = (Some (OtherError ''emit_with_retry: exhausted attempts''), [], attempt)"
| "retry_loop answer attempt (delay # delays) =
     (case answer attempt of
        None \<Rightarrow> (None, [], Suc attempt)
      | Some e \<Rightarrow>
          if is_fatal e then (Some e, [], Suc attempt)
          else if attempt < length backoffs - 1
          then (let (res, slept, n) = retry_loop answer (Suc attempt) delays in (res, delay # slept, n))
          else (Some e, [], Suc attempt))"

definition emit_with_retry :: "(nat \<Rightarrow> EmitError option) \<Rightarrow> EmitError option \<times> nat list \<times> nat" where
  "emit_with_retry answer = retry_loop answer 0 backoffs"

definition record_notification_failure ::
  "int \<Rightarrow> string \<Rightarrow> EmitJob \<Rightarrow> EmitError \<Rightarrow> bool \<Rightarrow> 'c NotificationRouter \<Rightarrow> 'c NotificationRouter" where
  "record_notification_failure now subdir job e write_ok r =
     (if write_ok
      then r\<lparr>nr_journal := nr_journal r @
             [(subdir @ ''/notifications.jsonl'',
               TeNotificationFailed now (ej_sink_id job) (event_kind (ne_event (ej_envelope job))) (error_text e))]\<rparr>
      else r)"

text \<open>What a job does to the router when it ends; \<open>write_ok\<close> is whether the journal could be written.\<close>

definition run_job ::
  "int \<Rightarrow> (EmitJob \<Rightarrow> nat \<Rightarrow> EmitError option) \<Rightarrow> bool \<Rightarrow> EmitJob \<Rightarrow> 'c NotificationRouter \<Rightarrow> 'c NotificationRouter" where
  "run_job now answer write_ok job r =
     (case fst (emit_with_retry (answer job)) of
        None \<Rightarrow> r
      | Some e \<Rightarrow>
          (let r = (case ej_run_subdir job of
                      Some subdir \<Rightarrow> record_notification_failure now subdir job e write_ok r
                    | None \<Rightarrow> r)
           in r\<lparr>nr_failed_emits_total := nr_failed_emits_total r + 1\<rparr>))"

end
