(* ===== verification/Router_Facts.thy ===== *)
theory Router_Facts
  imports Notify_Router
begin

text \<open>
  What the router promises: an envelope that was sent suppresses its repetitions until as many other keys as
  the cache holds were sent; keys tell apart runs, kinds and requests; a job makes at most three attempts; and
  every failed job is counted and journalled once.
\<close>

section \<open>The cache\<close>

text \<open>What the crate documents: a cache of capacity \<open>n\<close> holds the keys of its last \<open>n\<close> insertions.\<close>

locale lru_cache =
  fixes lru :: "'c Lru"
  assumes new_empty: "\<not> lru_contains lru k (lru_new lru n)"
    and retained: "0 < n \<Longrightarrow> card (set ks - {k}) < n \<Longrightarrow>
      lru_contains lru k (fold (lru_put lru) ks (lru_put lru k (fold (lru_put lru) hs (lru_new lru n))))"
begin

text \<open>The keys that are put while a list of envelopes is dispatched.\<close>

lemma dispatch_puts:
  "\<exists>ks. nr_dedup_cache (snd (dispatch_all lru envs r)) = fold (lru_put lru) ks (nr_dedup_cache r) \<and> set ks \<subseteq> ne_dedup_key ` set envs"
proof (induction envs arbitrary: r)
  case Nil
  show ?case by (rule exI[of _ "[]"]) simp
next
  case (Cons e envs)
  let ?r = "snd (dispatch lru e r)"
  obtain ks where ks: "nr_dedup_cache (snd (dispatch_all lru envs ?r)) = fold (lru_put lru) ks (nr_dedup_cache ?r)"
    "set ks \<subseteq> ne_dedup_key ` set envs" using Cons.IH by blast
  have step: "snd (dispatch_all lru (e # envs) r) = snd (dispatch_all lru envs ?r)" by (simp split: prod.split)
  have "nr_dedup_cache ?r = nr_dedup_cache r \<or> nr_dedup_cache ?r = lru_put lru (ne_dedup_key e) (nr_dedup_cache r)"
    by (simp add: dispatch_def)
  then show ?case
  proof
    assume "nr_dedup_cache ?r = nr_dedup_cache r"
    then show ?thesis unfolding step using ks by auto
  next
    assume "nr_dedup_cache ?r = lru_put lru (ne_dedup_key e) (nr_dedup_cache r)"
    then have "nr_dedup_cache (snd (dispatch_all lru envs ?r)) = fold (lru_put lru) (ne_dedup_key e # ks) (nr_dedup_cache r)"
      using ks(1) by simp
    then show ?thesis unfolding step using ks(2) by (intro exI[of _ "ne_dedup_key e # ks"]) auto
  qed
qed

lemma sent_suppresses:
  assumes "r = snd (dispatch_all lru before (new_with_capacity lru sinks cap))" "\<not> lru_contains lru (ne_dedup_key e) (nr_dedup_cache r)"
    "ne_dedup_key e' = ne_dedup_key e" "card (ne_dedup_key ` set between - {ne_dedup_key e}) < max cap 1"
  shows "fst (dispatch lru e' (snd (dispatch_all lru (e # between) r))) = []"
proof -
  obtain hs where hs: "nr_dedup_cache r = fold (lru_put lru) hs (lru_new lru (max cap 1))"
    using dispatch_puts[of before "new_with_capacity lru sinks cap"] assms(1) by (auto simp: new_with_capacity_def)
  let ?r = "snd (dispatch lru e r)"
  have put: "nr_dedup_cache ?r = lru_put lru (ne_dedup_key e) (nr_dedup_cache r)" using assms(2) by (simp add: dispatch_def)
  have step: "snd (dispatch_all lru (e # between) r) = snd (dispatch_all lru between ?r)" by (simp split: prod.split)
  obtain ks where ks: "nr_dedup_cache (snd (dispatch_all lru between ?r)) = fold (lru_put lru) ks (nr_dedup_cache ?r)"
    "set ks \<subseteq> ne_dedup_key ` set between" using dispatch_puts by blast
  have "card (set ks - {ne_dedup_key e}) \<le> card (ne_dedup_key ` set between - {ne_dedup_key e})"
    using ks(2) by (intro card_mono) auto
  then have "card (set ks - {ne_dedup_key e}) < max cap 1" using assms(4) by simp
  then have "lru_contains lru (ne_dedup_key e) (nr_dedup_cache (snd (dispatch_all lru between ?r)))"
    unfolding ks(1) put hs by (intro retained) simp_all
  then show ?thesis unfolding step using assms(3) by (simp add: dispatch_def)
qed

end

text \<open>The cache as a list, the most recent key first.\<close>

definition list_lru :: "(nat \<times> string list) Lru" where
  "list_lru = \<lparr>lru_new = (\<lambda>n. (n, [])), lru_contains = (\<lambda>k c. k \<in> set (snd c)),
     lru_put = (\<lambda>k c. (fst c, take (fst c) (k # removeAll k (snd c))))\<rparr>"

definition near :: "nat \<Rightarrow> string \<Rightarrow> string set \<Rightarrow> nat \<times> string list \<Rightarrow> bool" where
  "near n k D c \<longleftrightarrow> fst c = n \<and> (\<exists>ys zs. snd c = ys @ k # zs \<and> distinct ys \<and> k \<notin> set ys \<and> set ys \<subseteq> D)"

lemma near_put:
  assumes "near n k D c" "finite D" "k \<notin> D" "card (insert j D) < n \<or> j = k" "0 < n"
  shows "near n k (if j = k then D else insert j D) (lru_put list_lru j c)"
proof -
  obtain ys zs where c: "fst c = n" "snd c = ys @ k # zs" "distinct ys" "k \<notin> set ys" "set ys \<subseteq> D" using assms(1) by (auto simp: near_def)
  show ?thesis
  proof (cases "j = k")
    case True
    obtain n' where n': "n = Suc n'" using assms(5) by (cases n) auto
    have "snd (lru_put list_lru j c) = [] @ k # take n' (removeAll k (snd c))" using True c(1) n' by (simp add: list_lru_def)
    moreover have "fst (lru_put list_lru j c) = n" using c(1) by (simp add: list_lru_def)
    ultimately show ?thesis unfolding near_def
      by (intro conjI exI[of _ "[]"] exI[of _ "take n' (removeAll k (snd c))"]) simp_all
  next
    case False
    let ?ys = "j # removeAll j ys"
    have d: "distinct ?ys" "set ?ys \<subseteq> insert j D" "k \<notin> set ?ys" using c False by (auto simp: distinct_removeAll)
    have "length ?ys = card (set ?ys)" using d(1) by (metis distinct_card)
    also have "\<dots> \<le> card (insert j D)" using d(2) assms(2) by (intro card_mono) auto
    finally have len: "length ?ys < n" using assms(4) False by linarith
    have "snd (lru_put list_lru j c) = take n (?ys @ k # removeAll j zs)" using False c by (simp add: list_lru_def)
    also have "\<dots> = ?ys @ k # take (n - length ?ys - 1) (removeAll j zs)" using len by (simp add: take_Cons' del: length_Cons)
    finally have eq: "snd (lru_put list_lru j c) = ?ys @ k # take (n - length ?ys - 1) (removeAll j zs)" .
    have "fst (lru_put list_lru j c) = n" using c(1) by (simp add: list_lru_def)
    then show ?thesis using d False eq unfolding near_def
      by (intro conjI exI[of _ ?ys] exI[of _ "take (n - length ?ys - 1) (removeAll j zs)"]) simp_all
  qed
qed


lemma near_puts:
  assumes "near n k D c" "finite D" "k \<notin> D" "card (D \<union> (set ks - {k})) < n"
  shows "near n k (D \<union> (set ks - {k})) (fold (lru_put list_lru) ks c)"
  using assms
proof (induction ks arbitrary: D c)
  case (Cons j ks)
  let ?D = "if j = k then D else insert j D"
  have all: "D \<union> (set (j # ks) - {k}) = ?D \<union> (set ks - {k})" by auto
  have "card (insert j D) \<le> card (?D \<union> (set ks - {k}))" if "j \<noteq> k" using that Cons.prems(2) by (intro card_mono) auto
  then have small: "card (insert j D) < n \<or> j = k" using Cons.prems(4) all by fastforce
  have "0 < n" using Cons.prems(4) by simp
  then have "near n k ?D (lru_put list_lru j c)" using near_put[OF Cons.prems(1-3) small] by simp
  then have "near n k (?D \<union> (set ks - {k})) (fold (lru_put list_lru) ks (lru_put list_lru j c))"
    by (rule Cons.IH) (use Cons.prems all in auto)
  then show ?case unfolding all by simp
qed simp

lemma list_puts_capacity: "fst (fold (lru_put list_lru) ks c) = fst c"
  by (induction ks arbitrary: c) (simp_all add: list_lru_def)

interpretation listed: lru_cache list_lru
proof
  show "\<not> lru_contains list_lru k (lru_new list_lru n)" for k n by (simp add: list_lru_def)
  show "lru_contains list_lru k (fold (lru_put list_lru) ks (lru_put list_lru k (fold (lru_put list_lru) hs (lru_new list_lru n))))"
    if pos: "0 < n" and few: "card (set ks - {k}) < n" for n ks k hs
  proof -
    let ?c = "fold (lru_put list_lru) hs (lru_new list_lru n)"
    obtain n' where n': "n = Suc n'" using pos by (cases n) auto
    have cap: "fst ?c = n" by (simp add: list_puts_capacity) (simp add: list_lru_def)
    then have "lru_put list_lru k ?c = (n, [] @ k # take n' (removeAll k (snd ?c)))" using n' by (simp add: list_lru_def)
    then have "near n k {} (lru_put list_lru k ?c)" unfolding near_def
      by (intro conjI exI[of _ "[]"] exI[of _ "take n' (removeAll k (snd ?c))"]) simp_all
    from near_puts[OF this, of ks] show ?thesis using few by (auto simp: near_def list_lru_def)
  qed
qed

text \<open>
  C31: An envelope that was sent suppresses every later one with its key, as long as fewer other keys than the
  cache holds were dispatched in between.
\<close>

theorem duplicate_suppressed:
  assumes "lru_cache lru" "r = snd (dispatch_all lru before (new_with_capacity lru sinks cap))"
    "\<not> lru_contains lru (ne_dedup_key e) (nr_dedup_cache r)" "ne_dedup_key e' = ne_dedup_key e"
    "card (ne_dedup_key ` set between - {ne_dedup_key e}) < max cap 1"
  shows "fst (dispatch lru e' (snd (dispatch_all lru (e # between) r))) = []"
  using lru_cache.sent_suppresses[OF assms] .

section \<open>Keys\<close>

lemma kind_no_colon: "CHR '':'' \<notin> set (event_kind ev)"
  by (cases ev) simp_all

lemma append_colon: "CHR '':'' \<notin> set a \<Longrightarrow> CHR '':'' \<notin> set b \<Longrightarrow> a @ CHR '':'' # x = b @ CHR '':'' # y \<longleftrightarrow> a = b \<and> x = y"
proof (induction a arbitrary: b)
  case Nil
  then show ?case by (cases b) auto
next
  case (Cons c a)
  then show ?case by (cases b) auto
qed

lemma no_colon_tail: "CHR '':'' \<notin> set b \<Longrightarrow> a @ CHR '':'' # x \<noteq> b" "CHR '':'' \<notin> set b \<Longrightarrow> b \<noteq> a @ CHR '':'' # x"
  by auto

text \<open>
  Two envelopes have the same key exactly when they are of the same run, of the same kind and about the same
  request, for run ids without a colon.
\<close>

theorem dedup_key_iff:
  assumes "CHR '':'' \<notin> set run1" "CHR '':'' \<notin> set run2"
  shows "ne_dedup_key (new_envelope run1 s1 ev1 t1) = ne_dedup_key (new_envelope run2 s2 ev2 t2) \<longleftrightarrow>
    run1 = run2 \<and> event_kind ev1 = event_kind ev2 \<and> discriminator ev1 = discriminator ev2"
proof -
  let ?tail = "\<lambda>ev. case discriminator ev of Some d \<Rightarrow> event_kind ev @ CHR '':'' # d | None \<Rightarrow> event_kind ev"
  have key: "ne_dedup_key (new_envelope rid s ev t) = rid @ CHR '':'' # ?tail ev" for rid s ev t
    by (simp add: new_envelope_def split: option.split)
  have "?tail ev1 = ?tail ev2 \<longleftrightarrow> event_kind ev1 = event_kind ev2 \<and> discriminator ev1 = discriminator ev2"
    using append_colon[OF kind_no_colon kind_no_colon, of ev1 _ ev2] no_colon_tail[OF kind_no_colon]
    by (auto split: option.splits)
  then show ?thesis unfolding key append_colon[OF assms] by simp
qed

section \<open>Retries\<close>

text \<open>
  A job makes between one and three attempts and stops at the first success or fatal answer; it sleeps 100 ms
  after the first and 300 ms after the second attempt, never longer, and fails with the answer of its last attempt.
\<close>

theorem retry_spec:
  assumes "emit_with_retry answer = (res, slept, n)"
  shows "1 \<le> n \<and> n \<le> 3 \<and> slept = take (n - 1) [100, 300] \<and> res = answer (n - 1) \<and>
    (\<forall>i < n - 1. \<exists>e. answer i = Some e \<and> \<not> is_fatal e) \<and> (\<forall>e. res = Some e \<longrightarrow> is_fatal e \<or> n = 3)"
  using assms
  by (auto simp: emit_with_retry_def backoffs_def less_Suc_eq numeral_2_eq_2 split: option.splits if_splits)

section \<open>Accounting\<close>

definition job_fails :: "(EmitJob \<Rightarrow> nat \<Rightarrow> EmitError option) \<Rightarrow> EmitJob \<Rightarrow> bool" where
  "job_fails answer job \<longleftrightarrow> fst (emit_with_retry (answer job)) \<noteq> None"

definition journal_line :: "int \<Rightarrow> (EmitJob \<Rightarrow> nat \<Rightarrow> EmitError option) \<Rightarrow> EmitJob \<Rightarrow> (string \<times> TaskEvent) list" where
  "journal_line now answer job =
     (case (fst (emit_with_retry (answer job)), ej_run_subdir job) of
        (Some e, Some dir) \<Rightarrow>
          [(dir @ ''/notifications.jsonl'', TeNotificationFailed now (ej_sink_id job) (event_kind (ne_event (ej_envelope job))) (error_text e))]
      | _ \<Rightarrow> [])"

lemma run_job_effect:
  "nr_failed_emits_total (run_job now answer True job r) = nr_failed_emits_total r + (if job_fails answer job then 1 else 0)"
  "nr_journal (run_job now answer True job r) = nr_journal r @ journal_line now answer job"
  by (simp_all add: run_job_def job_fails_def journal_line_def record_notification_failure_def Let_def split: option.split)

text \<open>
  When the jobs of a router have ended, in whatever order, its counter has grown by the number of failed jobs,
  modulo 64 bits, and its journal by one line for each of them that was started with a run directory.
\<close>

theorem failures_accounted:
  "nr_failed_emits_total (fold (run_job now answer True) jobs r) =
     nr_failed_emits_total r + of_nat (length (filter (job_fails answer) jobs)) \<and>
   nr_journal (fold (run_job now answer True) jobs r) = nr_journal r @ concat (map (journal_line now answer) jobs)"
  by (induction jobs arbitrary: r) (simp_all add: run_job_effect)

section \<open>Concrete envelopes\<close>

definition finished :: NotificationEnvelope where
  "finished = new_envelope ''r'' SevInfo (PeRunFinished ''r'' 1 0 5 (Fin 0)) 0"

theorem duplicate_suppressed_witness:
  "fst (dispatch list_lru finished (snd (dispatch_all list_lru [finished] (new_with_capacity list_lru [(''log'', \<lparr>sf_events = None, sf_severity_min = SevInfo\<rparr>)] 1)))) = []"
  by (rule duplicate_suppressed[where before = "[]" and between = "[]" and cap = 1, OF listed.lru_cache_axioms])
    (simp_all add: new_with_capacity_def list_lru_def)

theorem dedup_key_iff_witness:
  "ne_dedup_key (new_envelope ''r'' SevInfo (PeApprovalRequest ''a'' ''t'' ''s'') 0) \<noteq>
   ne_dedup_key (new_envelope ''r'' SevInfo (PeApprovalPending ''a'' ''t'' ''s'') 0)"
  using dedup_key_iff[of "''r''" "''r''" SevInfo "PeApprovalRequest ''a'' ''t'' ''s''" 0 SevInfo "PeApprovalPending ''a'' ''t'' ''s''" 0] by simp

theorem retry_spec_witness:
  "emit_with_retry (\<lambda>i. if i < 2 then Some (OtherError ''down'') else None) = (None, [100, 300], 3)"
proof -
  obtain res slept n where r: "emit_with_retry (\<lambda>i. if i < 2 then Some (OtherError ''down'') else None) = (res, slept, n)"
    by (metis prod_cases3)
  moreover have "n = 3" using r by (simp add: emit_with_retry_def backoffs_def)
  ultimately show ?thesis using retry_spec[OF r] by simp
qed

end
