(* ===== verification/Spec2Isabelle.thy ===== *)
theory Spec2Isabelle
  imports Store_Waiters Worker_Facts Budget_Bounds Cancel_Cascade Approval_Ttl Comm_Safety Spawn_Spec Sublead_Spec Approval_Tools
    Mcp_Stall Control_Server Validate_Facts Manifest_Spec Legacy_Hints Failure_Facts Session_Facts Flat_Facts
    Container_Facts Resume_Facts Resolve_Facts Router_Facts
begin

text \<open>
  \<^bold>\<open>A verification library for pitboss.\<close>

  pitboss (\<^verbatim>\<open>src/crates\<close>) dispatches headless Claude sessions from a TOML manifest: either a flat list of
  tasks, or a lead that spawns workers and sub-leads through an MCP server, with a shared store, leases, a
  communication plane, approvals and budgets between them, and an operator at a control socket. Paths
  below are under \<^verbatim>\<open>pitboss-cli/src\<close> unless they start with \<^verbatim>\<open>pitboss-core\<close>.

  \<^bold>\<open>How the parts interact.\<close> A manifest is resolved and validated; a flat run starts one session per task
  under a semaphore, a hierarchical run keeps a tree of layers (the root, one per sub-lead) with tokens,
  worker tables, budgets and stores. Every tool call of an actor enters the MCP server, is bound to the
  identity of its token, is routed to the caller's layer and acts on the state of the run. Sessions end with
  an outcome that is classified, charged and recorded; waits, cascades, approvals and the control server
  read and change the same state.

  \<^bold>\<open>Conventions.\<close> Data is as in the source: structs are records, enums are datatypes, \<^verbatim>\<open>u64\<close> and \<^verbatim>\<open>u32\<close> are
  words that wrap or saturate as the code does, \<^verbatim>\<open>f64\<close> is the exact binary64 of theory \<^verbatim>\<open>F64\<close>, strings are
  byte strings, a \<^verbatim>\<open>HashMap\<close> is an association list with unique keys (\<^verbatim>\<open>hm_get\<close>, \<^verbatim>\<open>hm_insert\<close> of the
  prelude). A handler is a function from arguments and state to a result and a new state, with errors as
  values and a panic as a value of its own where the code can panic. What is held under one lock is one
  step; interleavings are inductive step relations or lists of observations. Loops are recursions over
  what they observe (the rounds of a wait, the lines of a stream, the iterations of a kill-and-resume
  loop), so no fuel is needed; liveness is proved with a measure or with a bound on the number of steps.
  Clocks, fresh identifiers, file contents, child processes, the operating system's answers and
  third-party code (JSON and TOML decoders, base64, SHA-256, globs, URL parsing, calendar dates) are
  arguments.

  \<^bold>\<open>The theories.\<close>
  \<^item> \<^verbatim>\<open>Prelude\<close>: words, strings, lines, hash maps, the locale \<^verbatim>\<open>keyed_table\<close>.
  \<^item> \<^verbatim>\<open>Store_Access\<close>, \<^verbatim>\<open>Shared_Store\<close>, \<^verbatim>\<open>Store_Waiters\<close>, \<^verbatim>\<open>Store_Tools\<close> (\<^verbatim>\<open>shared_store/mod.rs\<close>, \<^verbatim>\<open>tools.rs\<close>):
    paths and write rules, set, cas, list, wait, limits, counters, the tool handlers. The store invariant over
    every call sequence, exact conditions of writes, no lost update under cas, confinement of workers, no
    lost wake-up.
  \<^item> \<^verbatim>\<open>Leases\<close>, \<^verbatim>\<open>Run_Leases\<close> (\<^verbatim>\<open>shared_store/leases.rs\<close>, \<^verbatim>\<open>run_leases.rs\<close>): both lease registries, with the
    locale \<^verbatim>\<open>lease_registry_api\<close> interpreted for each. A live lease is not stolen; clean-up frees exactly what
    an actor holds.
  \<^item> \<^verbatim>\<open>Communication\<close>, \<^verbatim>\<open>Comm_Journal\<close>, \<^verbatim>\<open>Comm_Safety\<close> (\<^verbatim>\<open>communication.rs\<close>): mailbox, artifacts, grants,
    journal. Handlers append after they release the tables, so calls and appends interleave: replay of appends
    in order as the locales \<^verbatim>\<open>logged_store\<close> and \<^verbatim>\<open>single_logged\<close>, what overtaking appends lose; isolation of
    sub-trees, over run states whose tables change between calls.
  \<^item> \<^verbatim>\<open>Manifest_Types\<close>, \<^verbatim>\<open>Validate\<close>, \<^verbatim>\<open>Manifest_Spec\<close>, \<^verbatim>\<open>Validate_Facts\<close>, \<^verbatim>\<open>Legacy_Hints\<close>, \<^verbatim>\<open>Notify_Config\<close>,
    \<^verbatim>\<open>Actor_Type\<close>, \<^verbatim>\<open>Mcp_Tools\<close>, \<^verbatim>\<open>Policy\<close> (\<^verbatim>\<open>manifest/\<close>, \<^verbatim>\<open>notify/config.rs\<close>, \<^verbatim>\<open>notify/sinks/webhook.rs\<close>,
    \<^verbatim>\<open>mcp/policy.rs\<close>, \<^verbatim>\<open>dispatch/depth.rs\<close>): acceptance is characterised exactly, against a specification written out
    in literal words (\<^verbatim>\<open>Manifest_Spec\<close>); where a guarded webhook request can go; what acceptance gives the
    spawn path; what slips through.
  \<^item> \<^verbatim>\<open>Manifest_Resolve\<close>, \<^verbatim>\<open>Resolve_Facts\<close> (\<^verbatim>\<open>manifest/resolve.rs\<close>, \<^verbatim>\<open>load.rs\<close>, the structs of \<^verbatim>\<open>schema.rs\<close>): the
    manifest as written, templates, defaults and profiles; when it resolves, whose settings win, and that a
    manifest that loads gives a flat run that is never stuck.
  \<^item> \<^verbatim>\<open>Notify_Router\<close>, \<^verbatim>\<open>Router_Facts\<close> (\<^verbatim>\<open>notify/mod.rs\<close>, the send of \<^verbatim>\<open>sinks/webhook.rs\<close>): envelopes, filters, deduplication over a cache (locale
    \<^verbatim>\<open>lru_cache\<close>, interpreted on a list), retries and the accounting of failures.
  \<^item> \<^verbatim>\<open>F64\<close>, \<^verbatim>\<open>Budget\<close>, \<^verbatim>\<open>Budget_Bounds\<close> (\<^verbatim>\<open>pitboss-core/src/prices.rs\<close>, budget fields of \<^verbatim>\<open>dispatch/layer.rs\<close>,
    \<^verbatim>\<open>budget_watch.rs\<close>): costs in rounded arithmetic and the reservation invariant of every reachable run
    (locale \<^verbatim>\<open>reservation\<close>, interpreted for workers and sub-leads).
  \<^item> \<^verbatim>\<open>Dispatch_State\<close>, \<^verbatim>\<open>Dispatch_Ops\<close>, \<^verbatim>\<open>Cancel_Cascade\<close> (\<^verbatim>\<open>dispatch/state.rs\<close>, \<^verbatim>\<open>layer.rs\<close>, \<^verbatim>\<open>signals.rs\<close>,
    \<^verbatim>\<open>pitboss-core/src/session/cancel.rs\<close>): the state of a run, tokens, API health, the cascade watchers
    with registrations and resumes as a step relation, and the resume that a drain does not reach.
  \<^item> \<^verbatim>\<open>Spawn\<close>, \<^verbatim>\<open>Spawn_Spec\<close>, \<^verbatim>\<open>Worker_Life\<close>, \<^verbatim>\<open>Worker_Ops\<close>, \<^verbatim>\<open>Worker_Wait\<close>, \<^verbatim>\<open>Worker_Facts\<close> (\<^verbatim>\<open>mcp/tools/spawn.rs\<close>,
    \<^verbatim>\<open>lifecycle.rs\<close>, \<^verbatim>\<open>wait.rs\<close>): a worker from its spawn, with its check and its registration as two steps, to its
    record; by how much calls in flight can exceed the worker cap; waiters are woken.
  \<^item> \<^verbatim>\<open>Sublead\<close>, \<^verbatim>\<open>Sublead_Spec\<close> (\<^verbatim>\<open>dispatch/sublead.rs\<close>, \<^verbatim>\<open>kill_resume.rs\<close>): envelopes, reconciliation, the
    kill-and-resume loop.
  \<^item> \<^verbatim>\<open>Approval\<close>, \<^verbatim>\<open>Approval_Ttl\<close>, \<^verbatim>\<open>Approval_Tools\<close> (\<^verbatim>\<open>mcp/approval.rs\<close>, \<^verbatim>\<open>mcp/tools/approval.rs\<close>): queue, bridge,
    TTL watcher, the permission gate against its layered specification.
  \<^item> \<^verbatim>\<open>Mcp_Server\<close>, \<^verbatim>\<open>Mcp_Facts\<close>, \<^verbatim>\<open>Mcp_Stall\<close> (\<^verbatim>\<open>mcp/server.rs\<close>), \<^verbatim>\<open>Control_Server\<close> (\<^verbatim>\<open>control/server.rs\<close>):
    identity, authorisation, privacy of peer slots, the lock that a blocked wait keeps, the control operations.
  \<^item> \<^verbatim>\<open>Failure_Classify\<close>, \<^verbatim>\<open>Failure_Facts\<close> (\<^verbatim>\<open>pitboss-core/src/failure_classify.rs\<close>,
    \<^verbatim>\<open>dispatch/failure_detection.rs\<close>), \<^verbatim>\<open>Session_Stream\<close>, \<^verbatim>\<open>Session_Facts\<close> (\<^verbatim>\<open>pitboss-core/src/parser\<close>,
    \<^verbatim>\<open>session/handle.rs\<close>): the stream of a session, its outcome, why it failed.
  \<^item> \<^verbatim>\<open>Spawn_Args\<close>, \<^verbatim>\<open>Flat_Run\<close>, \<^verbatim>\<open>Flat_Facts\<close> (\<^verbatim>\<open>dispatch/runner.rs\<close>): command lines and what they pre-approve;
    the flat loop as a step relation, its bound, halting, termination and exit code.
  \<^item> \<^verbatim>\<open>Container_Run\<close>, \<^verbatim>\<open>Container_Facts\<close> (\<^verbatim>\<open>dispatch/container.rs\<close>, \<^verbatim>\<open>container_build.rs\<close>,
    \<^verbatim>\<open>container_prune.rs\<close>): run arguments, derived images and their tags, pruning.
  \<^item> \<^verbatim>\<open>Run_Snapshot\<close>, \<^verbatim>\<open>Snapshot_Facts\<close> (\<^verbatim>\<open>pitboss-core/src/store/summary.rs\<close>): the one-shot and the polling
    reader of a run's summary files; when they agree on a growing file, and when not.
  \<^item> \<^verbatim>\<open>Run_Index\<close>, \<^verbatim>\<open>Run_Index_Facts\<close> (\<^verbatim>\<open>pitboss-core/src/runs.rs\<close>, \<^verbatim>\<open>stream.rs\<close>, \<^verbatim>\<open>diff.rs\<close>, \<^verbatim>\<open>prune.rs\<close>): status of
    the runs on disk, replay and tail of their records, the sweep of orphaned runs; what a sweep never touches, what a
    synthesised summary keeps, what a tail delivers.
  \<^item> \<^verbatim>\<open>Resume\<close>, \<^verbatim>\<open>Resume_Facts\<close> (\<^verbatim>\<open>dispatch/resume.rs\<close>): the manifest of a resumed run and the session ids on its
    command lines, also after a sweep.

  \<^bold>\<open>Claims.\<close> Each property carries its claim id in the text before it. Several properties state a defect of
  the code as it is (a bypass, a lost signal, a panic): they are theorems about the model of that code.

  \<^bold>\<open>Not modelled.\<close> Process start-up and wiring (\<^verbatim>\<open>main.rs\<close>, \<^verbatim>\<open>dispatch/hierarchical.rs\<close>, \<^verbatim>\<open>background.rs\<close>,
  \<^verbatim>\<open>entrypoint.rs\<close>), since it only connects modelled parts; sockets, the MCP transport and the bridge; git worktrees; the
  JSON and SQLite stores; the sampling of process resources in single-precision floats; the
  notification sinks other than the webhook; the terminal interface, the web console and the reporting commands, which draw or
  format; the schema derive macro and the generated documentation. Memory orderings are taken as
  sequentially consistent, and a lock is taken to be fair only where a theorem says so.
\<close>

end
